(* ===== verification/Prelude.thy ===== *)
theory Prelude
  imports Main "HOL-Library.Word" "HOL-Library.Multiset"
begin

unbundle bit_operations_syntax

text \<open>
  Shared vocabulary of the lan-link development: the widths of Rust's machine integers, the
  little- and big-endian byte images that \<^verbatim>\<open>bytes::BufMut\<close>, \<^verbatim>\<open>to_le_bytes\<close> and
  \<^verbatim>\<open>to_be_bytes\<close> produce, results of fallible code as sums, saturating arithmetic, and the
  contract of a self-delimiting binary codec as the locale \<open>prefix_codec\<close>, which every wire
  format of the program instantiates.

  Conventions used by all component theories:
  \<^item> \<open>u8 \<dots> u64\<close> are words, so \<open>+\<close> wraps as Rust's release profile and
    \<^verbatim>\<open>wrapping_add\<close> do (the workspace's release profile does not enable overflow checks);
  \<^item> an \<^verbatim>\<open>Instant\<close> is a \<open>nat\<close> number of milliseconds handed in by the caller as
    \<open>now\<close>; \<^verbatim>\<open>duration_since\<close> and \<^verbatim>\<open>elapsed\<close> saturate at zero, as \<open>nat\<close>
    subtraction does;
  \<^item> \<open>Result<T, E>\<close> is \<open>'e + 't\<close> with \<open>Inl\<close> the error; \<open>Option<T>\<close> is
    \<open>'t option\<close>;
  \<^item> a method on \<^verbatim>\<open>&mut self\<close> takes the state and returns the new one, paired with its
    result.
\<close>

named_theorems byte_simps \<open>byte images of machine integers\<close>
named_theorems codec_simps \<open>round trips of the wire formats\<close>

type_synonym u8 = "8 word"
type_synonym u16 = "16 word"
type_synonym u32 = "32 word"
type_synonym u64 = "64 word"
type_synonym bytes = "8 word list"
type_synonym instant = nat

section \<open>Byte images of machine integers\<close>

fun le_bytes :: "nat \<Rightarrow> 'a::len word \<Rightarrow> bytes" where
  "le_bytes 0 w = []"
| "le_bytes (Suc n) w = ucast w # le_bytes n (drop_bit 8 w)"

fun le_word :: "bytes \<Rightarrow> 'a::len word" where
  "le_word [] = 0"
| "le_word (b # bs) = ucast b OR push_bit 8 (le_word bs)"

definition be_bytes :: "nat \<Rightarrow> 'a::len word \<Rightarrow> bytes" where
  "be_bytes n w = rev (le_bytes n w)"

definition be_word :: "bytes \<Rightarrow> 'a::len word" where
  "be_word bs = le_word (rev bs)"

lemma length_le_bytes [simp]: "length (le_bytes n w) = n"
  by (induction n arbitrary: w) auto

lemma length_be_bytes [simp]: "length (be_bytes n w) = n"
  by (simp add: be_bytes_def)

lemma take_bit_Suc_bytes:
  fixes w :: "'a::len word"
  shows "ucast (ucast w :: u8) OR push_bit 8 (take_bit k (drop_bit 8 w)) = take_bit (8 + k) w"
  by (rule bit_eqI)
     (auto simp: bit_simps)

lemma le_word_le_bytes_take: "le_word (le_bytes n (w :: 'a::len word)) = take_bit (8 * n) w"
  by (induction n arbitrary: w) (simp_all add: take_bit_Suc_bytes)

lemma le_word_le_bytes [byte_simps]:
  "LENGTH('a) = 8 * n \<Longrightarrow> le_word (le_bytes n (w :: 'a::len word)) = w"
  by (simp add: le_word_le_bytes_take take_bit_word_eq_self flip: mult.commute)

lemma be_word_be_bytes [byte_simps]:
  "LENGTH('a) = 8 * n \<Longrightarrow> be_word (be_bytes n (w :: 'a::len word)) = w"
  by (simp add: be_word_def be_bytes_def le_word_le_bytes)

lemma ucast_le_word_Cons:
  fixes bs :: bytes
  assumes "8 \<le> LENGTH('a)"
  shows "ucast (ucast (b :: u8) OR push_bit 8 (le_word bs :: 'a::len word)) = b"
  using assms by (intro bit_eqI) (auto simp: bit_simps)

lemma bit_take_bit_fixed:
  "take_bit k (v :: 'a::len word) = v \<Longrightarrow> bit v n \<Longrightarrow> n < k"
  by (metis bit_take_bit_iff)

lemma drop_bit_le_word_Cons:
  fixes v :: "'a::len word"
  assumes "take_bit (LENGTH('a) - 8) v = v"
  shows "drop_bit 8 (ucast (b :: u8) OR push_bit 8 v) = v"
proof (rule bit_word_eqI)
  fix n assume "n < LENGTH('a)"
  have "n + 8 < LENGTH('a)" if "bit v n"
    using bit_take_bit_fixed [OF assms that] by simp
  moreover have "\<not> bit b (n + 8)"
    by (auto dest: bit_imp_le_length)
  ultimately show "bit (drop_bit 8 (ucast b OR push_bit 8 v)) n = bit v n"
    by (auto simp: bit_simps ac_simps)
qed

lemma take_bit_le_word_Cons:
  fixes v :: "'a::len word"
  assumes "take_bit k v = v"
  shows "take_bit (8 + k) (ucast (b :: u8) OR push_bit 8 v) = ucast b OR push_bit 8 v"
proof (rule bit_word_eqI)
  fix n assume "n < LENGTH('a)"
  have "n < 8 + k" if "bit v (n - 8)" "8 \<le> n"
    using bit_take_bit_fixed [OF assms that(1)] that(2) by simp
  moreover have "n < 8" if "bit b n"
    using bit_imp_le_length [OF that] by simp
  ultimately show "bit (take_bit (8 + k) (ucast b OR push_bit 8 v)) n
      = bit (ucast b OR push_bit 8 v) n"
    by (auto simp: bit_simps)
qed

lemma le_word_bound: "take_bit (8 * length bs) (le_word bs :: 'a::len word) = le_word bs"
  by (induction bs) (simp_all add: take_bit_le_word_Cons del: take_bit_or)

lemma le_word_bound_weaken:
  assumes "8 * length bs \<le> k"
  shows "take_bit k (le_word bs :: 'a::len word) = le_word bs"
proof -
  have "take_bit k (take_bit (8 * length bs) (le_word bs :: 'a word)) = take_bit (8 * length bs) (le_word bs)"
    using assms by (simp add: min_def)
  then show ?thesis by (simp only: le_word_bound)
qed

lemma le_bytes_le_word:
  assumes "8 * length bs \<le> LENGTH('a)"
  shows "le_bytes (length bs) (le_word bs :: 'a::len word) = bs"
  using assms
proof (induction bs)
  case (Cons b bs)
  let ?v = "le_word bs :: 'a word"
  have "take_bit (LENGTH('a) - 8) ?v = ?v"
    using Cons.prems by (intro le_word_bound_weaken) simp
  moreover have "ucast (ucast b OR push_bit 8 ?v) = b"
    using Cons.prems by (intro ucast_le_word_Cons) simp
  ultimately show ?case
    using Cons by (simp add: drop_bit_le_word_Cons del: drop_bit_or)
qed simp

lemma le_bytes_inject:
  assumes "LENGTH('a) = 8 * n"
  shows "le_bytes n (v :: 'a::len word) = le_bytes n w \<longleftrightarrow> v = w"
  using assms by (metis le_word_le_bytes)

lemma unat_of_nat_small: "n < 2 ^ LENGTH('a) \<Longrightarrow> unat (of_nat n :: 'a::len word) = n"
  by (simp add: unat_of_nat take_bit_nat_eq_self_iff)

lemma unat_add_one: "unat (w :: 'a::len word) + 1 < 2 ^ LENGTH('a) \<Longrightarrow> unat (w + 1) = unat w + 1"
  by (simp add: unat_word_ariths)

lemma unat_max_word: "unat (- 1 :: 'a::len word) = 2 ^ LENGTH('a) - 1"
  by (simp add: unsigned_minus_1_eq_mask mask_eq_exp_minus_1)

lemma mod64_32: "(x mod 18446744073709551616 + y) mod 4294967296 = (x + y) mod (4294967296 :: int)"
proof -
  have "x mod 18446744073709551616 mod 4294967296 = x mod (4294967296 :: int)"
    by (rule mod_mod_cancel) simp
  then show ?thesis by (metis mod_add_left_eq)
qed

text \<open>Truncating a 64-bit counter commutes with counting.\<close>

lemma ucast_counter: "(ucast (w + of_nat i :: u64) :: u32) = ucast w + of_nat i"
  by transfer (simp add: take_bit_eq_mod mod_simps mod_mod_cancel mod64_32)

lemma of_nat_u32_inject:
  assumes "i < 2 ^ 32" "j < 2 ^ 32"
  shows "(of_nat i :: u32) = of_nat j \<longleftrightarrow> i = j"
proof
  assume "(of_nat i :: u32) = of_nat j"
  then have "unat (of_nat i :: u32) = unat (of_nat j :: u32)" by (rule arg_cong)
  moreover have "unat (of_nat i :: u32) = i" "unat (of_nat j :: u32) = j"
    by (rule unat_of_nat_small, use assms in simp)+
  ultimately show "i = j" by argo
qed simp

section \<open>Results and saturating arithmetic\<close>

type_synonym ('e, 'a) result = "'e + 'a"

text \<open>Rust's \<^verbatim>\<open>?\<close> on a result.\<close>

fun and_then :: "('e, 'a) result \<Rightarrow> ('a \<Rightarrow> ('e, 'b) result) \<Rightarrow> ('e, 'b) result" where
  "and_then (Inl e) f = Inl e"
| "and_then (Inr x) f = f x"

fun ok_or :: "'e \<Rightarrow> 'a option \<Rightarrow> ('e, 'a) result" where
  "ok_or e None = Inl e"
| "ok_or e (Some x) = Inr x"

lemma and_then_eq_Inr: "and_then r f = Inr y \<longleftrightarrow> (\<exists>x. r = Inr x \<and> f x = Inr y)"
  by (cases r) auto

lemma ok_or_eq_Inr: "ok_or e x = Inr y \<longleftrightarrow> x = Some y"
  by (cases x) auto

definition saturating_add :: "'a::len word \<Rightarrow> 'a word \<Rightarrow> 'a word" where
  "saturating_add a b = (if a \<le> a + b then a + b else - 1)"

definition saturating_sub :: "'a::len word \<Rightarrow> 'a word \<Rightarrow> 'a word" where
  "saturating_sub a b = (if b \<le> a then a - b else 0)"

section \<open>Floating point\<close>

text \<open>
  The operations on \<^verbatim>\<open>f64\<close> that the source uses, a parameter of the definitions; \<open>f_lit n d\<close> is
  the literal of value \<open>n / d\<close>, \<open>f_to_nat\<close> the saturating conversion \<^verbatim>\<open>as u64\<close>,
  \<open>f_is_duration\<close> holds of the seconds that \<^verbatim>\<open>Duration::from_secs_f64\<close> accepts; it panics otherwise.
\<close>

record 'f float_ops =
  f_add :: "'f \<Rightarrow> 'f \<Rightarrow> 'f"
  f_sub :: "'f \<Rightarrow> 'f \<Rightarrow> 'f"
  f_mul :: "'f \<Rightarrow> 'f \<Rightarrow> 'f"
  f_div :: "'f \<Rightarrow> 'f \<Rightarrow> 'f"
  f_max :: "'f \<Rightarrow> 'f \<Rightarrow> 'f"
  f_min :: "'f \<Rightarrow> 'f \<Rightarrow> 'f"
  f_less :: "'f \<Rightarrow> 'f \<Rightarrow> bool"
  f_of_nat :: "nat \<Rightarrow> 'f"
  f_lit :: "nat \<Rightarrow> nat \<Rightarrow> 'f"
  f_to_nat :: "'f \<Rightarrow> nat"
  f_is_duration :: "'f \<Rightarrow> bool"

section \<open>Iterators\<close>

text \<open>\<^verbatim>\<open>Iterator::min_by_key\<close> keeps the first of several minima, \<^verbatim>\<open>max_by_key\<close> the last maximum.\<close>

fun min_by_key :: "('a \<Rightarrow> 'k::linorder) \<Rightarrow> 'a list \<Rightarrow> 'a option" where
  "min_by_key f [] = None"
| "min_by_key f (x # xs) =
     (case min_by_key f xs of None \<Rightarrow> Some x | Some y \<Rightarrow> Some (if f x \<le> f y then x else y))"

fun max_by_key :: "('a \<Rightarrow> 'k::linorder) \<Rightarrow> 'a list \<Rightarrow> 'a option" where
  "max_by_key f [] = None"
| "max_by_key f (x # xs) =
     (case max_by_key f xs of None \<Rightarrow> Some x | Some y \<Rightarrow> Some (if f x \<le> f y then y else x))"

lemma min_by_key_None [simp]: "min_by_key f xs = None \<longleftrightarrow> xs = []"
  by (cases xs) (auto split: option.splits)

lemma max_by_key_None [simp]: "max_by_key f xs = None \<longleftrightarrow> xs = []"
  by (cases xs) (auto split: option.splits)

lemma min_by_key_SomeD: "min_by_key f xs = Some x \<Longrightarrow> x \<in> set xs \<and> (\<forall>y \<in> set xs. f x \<le> f y)"
  by (induction xs arbitrary: x) (force split: option.splits if_splits)+

lemma max_by_key_SomeD: "max_by_key f xs = Some x \<Longrightarrow> x \<in> set xs \<and> (\<forall>y \<in> set xs. f y \<le> f x)"
  by (induction xs arbitrary: x) (force split: option.splits if_splits)+

text \<open>\<^verbatim>\<open>std::cmp::Ordering\<close>.\<close>

datatype ordering = Less | Equal | Greater

text \<open>\<^verbatim>\<open>sort_by\<close> is stable: insertion from the right under a total preorder.\<close>

fun insort_by :: "('a \<Rightarrow> 'a \<Rightarrow> bool) \<Rightarrow> 'a \<Rightarrow> 'a list \<Rightarrow> 'a list" where
  "insort_by le x [] = [x]"
| "insort_by le x (y # ys) = (if le x y then x # y # ys else y # insort_by le x ys)"

fun sort_by :: "('a \<Rightarrow> 'a \<Rightarrow> bool) \<Rightarrow> 'a list \<Rightarrow> 'a list" where
  "sort_by le [] = []"
| "sort_by le (x # xs) = insort_by le x (sort_by le xs)"

lemma set_insort_by [simp]: "set (insort_by le x xs) = insert x (set xs)"
  by (induction xs) auto

lemma set_sort_by [simp]: "set (sort_by le xs) = set xs"
  by (induction xs) auto

lemma length_insort_by [simp]: "length (insort_by le x xs) = Suc (length xs)"
  by (induction xs) auto

lemma length_sort_by [simp]: "length (sort_by le xs) = length xs"
  by (induction xs) auto

lemma mset_insort_by [simp]: "mset (insort_by le x xs) = add_mset x (mset xs)"
  by (induction xs) auto

lemma mset_sort_by [simp]: "mset (sort_by le xs) = mset xs"
  by (induction xs) auto

lemma sorted_insort_by:
  "transp le \<Longrightarrow> totalp le \<Longrightarrow> reflp le \<Longrightarrow> sorted_wrt le xs \<Longrightarrow> sorted_wrt le (insort_by le x xs)"
proof (induction xs)
  case (Cons y ys)
  then have "\<not> le x y \<Longrightarrow> le y x" by (metis reflpD totalpD)
  with Cons show ?case by (auto dest: transpD)
qed simp

lemma sorted_sort_by: "transp le \<Longrightarrow> totalp le \<Longrightarrow> reflp le \<Longrightarrow> sorted_wrt le (sort_by le xs)"
  by (induction xs) (auto intro: sorted_insort_by)

lemma sort_by_sorted: "sorted_wrt le xs \<Longrightarrow> sort_by le xs = xs"
proof (induction xs)
  case (Cons x xs)
  then show ?case by (cases xs) auto
qed simp

section \<open>UTF-8\<close>

text \<open>
  A Rust \<^verbatim>\<open>String\<close> that crosses the wire is its UTF-8 bytes. \<open>utf8_valid\<close> is the test of
  \<^verbatim>\<open>String::from_utf8\<close> (no overlong forms, no surrogates, at most U+10FFFF).
\<close>

definition utf8_cont :: "u8 \<Rightarrow> bool" where
  "utf8_cont b = (0x80 \<le> b \<and> b \<le> 0xBF)"

fun utf8_valid :: "bytes \<Rightarrow> bool" where
  "utf8_valid [] = True"
| "utf8_valid (b # bs) =
     (if b < 0x80 then utf8_valid bs
      else if 0xC2 \<le> b \<and> b \<le> 0xDF then
        (case bs of c # r \<Rightarrow> utf8_cont c \<and> utf8_valid r | _ \<Rightarrow> False)
      else if 0xE0 \<le> b \<and> b \<le> 0xEF then
        (case bs of c # d # r \<Rightarrow>
             (if b = 0xE0 then 0xA0 \<le> c \<and> c \<le> 0xBF
              else if b = 0xED then 0x80 \<le> c \<and> c \<le> 0x9F else utf8_cont c)
             \<and> utf8_cont d \<and> utf8_valid r
         | _ \<Rightarrow> False)
      else if 0xF0 \<le> b \<and> b \<le> 0xF4 then
        (case bs of c # d # e # r \<Rightarrow>
             (if b = 0xF0 then 0x90 \<le> c \<and> c \<le> 0xBF
              else if b = 0xF4 then 0x80 \<le> c \<and> c \<le> 0x8F else utf8_cont c)
             \<and> utf8_cont d \<and> utf8_cont e \<and> utf8_valid r
         | _ \<Rightarrow> False)
      else False)"

definition from_utf8_or_default :: "bytes \<Rightarrow> bytes" where
  "from_utf8_or_default bs = (if utf8_valid bs then bs else [])"

text \<open>\<^verbatim>\<open>as_bytes\<close> of a string and the string of valid bytes.\<close>

definition str_bytes :: "string \<Rightarrow> bytes" where
  "str_bytes s = map (\<lambda>c. of_nat (of_char c)) s"

definition bytes_str :: "bytes \<Rightarrow> string" where
  "bytes_str bs = map (\<lambda>b. char_of (unat b)) bs"

lemma bytes_str_bytes [simp]: "bytes_str (str_bytes s) = s"
proof -
  have "unat (of_nat (of_char c :: nat) :: u8) = of_char c" for c
    by (rule unat_of_nat_small) (use nat_of_char_less_256 [of c] in simp)
  then have "char_of (unat (of_nat (of_char c :: nat) :: u8)) = c" for c
    by (simp only: char_of_char)
  then show ?thesis by (simp add: bytes_str_def str_bytes_def comp_def)
qed

lemma str_bytes_str [simp]: "str_bytes (bytes_str b) = b"
proof -
  have "of_nat (of_char (char_of (unat x) :: char)) = x" for x :: u8
    using unsigned_less [of x, where 'a = nat] by (simp add: of_char_of)
  then show ?thesis by (simp add: str_bytes_def bytes_str_def comp_def)
qed

lemma str_bytes_append: "str_bytes (a @ b) = str_bytes a @ str_bytes b"
  by (simp add: str_bytes_def)

text \<open>\<^verbatim>\<open>str::starts_with\<close>.\<close>

definition starts_with :: "string \<Rightarrow> string \<Rightarrow> bool" where
  "starts_with p s = (take (length p) s = p)"

lemma starts_with_shorter: "p \<noteq> [] \<Longrightarrow> starts_with p s \<Longrightarrow> length s - length p < length s"
  by (cases s; cases p) (auto simp: starts_with_def)

text \<open>\<^verbatim>\<open>trim_start_matches\<close> removes the prefix as often as it occurs.\<close>

function trim_start_matches :: "string \<Rightarrow> string \<Rightarrow> string" where
  "trim_start_matches p s =
     (if p \<noteq> [] \<and> starts_with p s then trim_start_matches p (drop (length p) s) else s)"
  by auto
termination
  by (relation "measure (\<lambda>(p, s). length s)") (auto simp: starts_with_shorter)

declare trim_start_matches.simps [simp del]

lemma starts_with_append [simp]: "starts_with p (p @ s)"
  by (simp add: starts_with_def)

lemma trim_start_once: "p \<noteq> [] \<Longrightarrow> \<not> starts_with p y \<Longrightarrow> trim_start_matches p (p @ y) = y"
  by (simp add: trim_start_matches.simps [of p "p @ y"] starts_with_def trim_start_matches.simps [of p y])

section \<open>Decimal numbers\<close>

text \<open>\<^verbatim>\<open>format!("{}", n)\<close> of an unsigned integer, and \<^verbatim>\<open>str::parse\<close> of one.\<close>

definition digit_char :: "nat \<Rightarrow> char" where
  "digit_char d = char_of (48 + d)"

fun show_nat :: "nat \<Rightarrow> string" where
  "show_nat n = (if n < 10 then [digit_char n] else show_nat (n div 10) @ [digit_char (n mod 10)])"

declare show_nat.simps [simp del]

definition is_digit :: "char \<Rightarrow> bool" where
  "is_digit c = (48 \<le> (of_char c :: nat) \<and> (of_char c :: nat) \<le> 57)"

definition digits_value :: "string \<Rightarrow> nat" where
  "digits_value cs = foldl (\<lambda>n c. 10 * n + (of_char c - 48)) 0 cs"

lemma of_char_digit: "d < 10 \<Longrightarrow> (of_char (digit_char d) :: nat) = 48 + d"
  by (simp add: digit_char_def)

lemma is_digit_digit_char: "d < 10 \<Longrightarrow> is_digit (digit_char d)"
  by (simp add: is_digit_def of_char_digit)

lemma show_nat_digits: "list_all is_digit (show_nat n)"
proof (induction n rule: show_nat.induct)
  case (1 n)
  then show ?case
    by (subst show_nat.simps) (simp add: is_digit_digit_char)
qed

lemma show_nat_not_Nil: "show_nat n \<noteq> []"
  by (subst show_nat.simps) simp

lemma digits_value_snoc: "digits_value (cs @ [c]) = 10 * digits_value cs + (of_char c - 48)"
  by (simp add: digits_value_def)

lemma digits_value_show_nat: "digits_value (show_nat n) = n"
proof (induction n rule: show_nat.induct)
  case (1 n)
  show ?case
  proof (cases "n < 10")
    case True
    then show ?thesis by (subst show_nat.simps) (simp add: digits_value_def of_char_digit)
  next
    case False
    with "1.IH" show ?thesis
      by (subst show_nat.simps) (simp add: digits_value_snoc of_char_digit)
  qed
qed

section \<open>Self-delimiting codecs\<close>

text \<open>
  The contract every wire format of the program is meant to keep: decoding what was encoded
  gives the value back together with the bytes that follow it.
\<close>

locale prefix_codec =
  fixes enc :: "'a \<Rightarrow> bytes"
    and dec :: "bytes \<Rightarrow> ('a \<times> bytes) option"
    and wf :: "'a \<Rightarrow> bool"
  assumes dec_enc: "wf x \<Longrightarrow> dec (enc x @ rest) = Some (x, rest)"
begin

lemma enc_inject: "wf x \<Longrightarrow> wf y \<Longrightarrow> enc x = enc y \<longleftrightarrow> x = y"
  by (metis append_Nil2 dec_enc option.inject prod.inject)

text \<open>No encoding is a proper prefix of another one.\<close>

lemma enc_prefix_free:
  "wf x \<Longrightarrow> wf y \<Longrightarrow> enc x @ r = enc y @ s \<Longrightarrow> x = y \<and> r = s"
  by (metis dec_enc option.inject prod.inject)

fun enc_all :: "'a list \<Rightarrow> bytes" where
  "enc_all [] = []"
| "enc_all (x # xs) = enc x @ enc_all xs"

text \<open>Decoding a counted sequence, the shape of every length-prefixed vector.\<close>

fun dec_n :: "nat \<Rightarrow> bytes \<Rightarrow> ('a list \<times> bytes) option" where
  "dec_n 0 bs = Some ([], bs)"
| "dec_n (Suc n) bs =
     (case dec bs of None \<Rightarrow> None
      | Some (x, r) \<Rightarrow> (case dec_n n r of None \<Rightarrow> None | Some (xs, r') \<Rightarrow> Some (x # xs, r')))"

lemma dec_n_enc_all:
  "list_all wf xs \<Longrightarrow> dec_n (length xs) (enc_all xs @ rest) = Some (xs, rest)"
  by (induction xs) (simp_all add: dec_enc)

end

end
