(* ===== verification/Frame.thy ===== *)
theory Frame
  imports Prelude
begin

text \<open>
  The packet layer, \<^verbatim>\<open>crates/protocol/src/frame.rs\<close>: packet types, stream ids and flags, the
  fixed 38-byte header with \<open>encode\<close> and \<open>decode\<close>. The theorems show that \<open>decode\<close> inverts \<open>encode\<close> in front of any payload, that
  it accepts exactly the buffers of at least 38 bytes with a known packet type, and that
  what it accepts is determined by its result.
\<close>

section \<open>Constants, packet types, streams\<close>

definition PROTOCOL_VERSION :: u16 where
  "PROTOCOL_VERSION = 1"

definition HEADER_SIZE :: nat where
  "HEADER_SIZE = 38"

definition MAX_PAYLOAD :: nat where
  "MAX_PAYLOAD = 1400"

definition MAX_PACKET :: nat where
  "MAX_PACKET = HEADER_SIZE + MAX_PAYLOAD + 16"

datatype PacketType = Syn | SynAck | Ack | Data | Rst | Heartbeat

fun pkt_as_u8 :: "PacketType \<Rightarrow> u8" where
  "pkt_as_u8 Syn = 0"
| "pkt_as_u8 SynAck = 1"
| "pkt_as_u8 Ack = 2"
| "pkt_as_u8 Data = 3"
| "pkt_as_u8 Rst = 4"
| "pkt_as_u8 Heartbeat = 5"

definition pkt_from_u8 :: "u8 \<Rightarrow> PacketType option" where
  "pkt_from_u8 v =
     (if v = 0 then Some Syn
      else if v = 1 then Some SynAck
      else if v = 2 then Some Ack
      else if v = 3 then Some Data
      else if v = 4 then Some Rst
      else if v = 5 then Some Heartbeat
      else None)"

datatype StreamId = Control | Video | AudioTx | AudioRx | Input | File

fun stream_as_u16 :: "StreamId \<Rightarrow> u16" where
  "stream_as_u16 Control = 0"
| "stream_as_u16 Video = 1"
| "stream_as_u16 AudioTx = 2"
| "stream_as_u16 AudioRx = 3"
| "stream_as_u16 Input = 4"
| "stream_as_u16 File = 5"

definition stream_from_u16 :: "u16 \<Rightarrow> StreamId option" where
  "stream_from_u16 v =
     (if v = 0 then Some Control
      else if v = 1 then Some Video
      else if v = 2 then Some AudioTx
      else if v = 3 then Some AudioRx
      else if v = 4 then Some Input
      else if v = 5 then Some File
      else None)"

definition is_reliable :: "StreamId \<Rightarrow> bool" where
  "is_reliable s = (case s of Control \<Rightarrow> True | Input \<Rightarrow> True | File \<Rightarrow> True | _ \<Rightarrow> False)"

text \<open>
  The bit set \<^verbatim>\<open>Flags\<close> wraps a byte; \<^verbatim>\<open>from_bits_retain\<close> keeps unknown bits, so the
  type is the byte itself.
\<close>

type_synonym Flags = u8

definition FLAG_RELIABLE :: Flags where
  "FLAG_RELIABLE = 1"

definition FLAG_FRAGMENTED :: Flags where
  "FLAG_FRAGMENTED = 2"

definition FLAG_ORDERED :: Flags where
  "FLAG_ORDERED = 4"

section \<open>The packet header\<close>

record PacketHeader =
  conn_id :: u64
  pkt_type :: PacketType
  flags :: Flags
  stream_id :: u16
  seq :: u32
  ack_seq :: u32
  ack_bitmap :: u32
  payload_len :: u16
  nonce :: bytes

text \<open>The nonce is an array \<^verbatim>\<open>[u8; 12]\<close>; its length is the header's type invariant.\<close>

definition header_ok :: "PacketHeader \<Rightarrow> bool" where
  "header_ok h = (length (nonce h) = 12)"

definition encode :: "PacketHeader \<Rightarrow> bytes \<Rightarrow> bytes" where
  "encode h buf = buf @ le_bytes 8 (conn_id h) @ [pkt_as_u8 (pkt_type h)] @ [flags h]
     @ le_bytes 2 (stream_id h) @ le_bytes 4 (seq h) @ le_bytes 4 (ack_seq h)
     @ le_bytes 4 (ack_bitmap h) @ le_bytes 2 (payload_len h) @ nonce h"

text \<open>
  \<open>get_le n\<close> is \<^verbatim>\<open>Buf::get_uN_le\<close>: it consumes \<open>n\<close> bytes. The length test at the head of
  \<open>decode\<close> keeps every read in range.
\<close>

definition get_le :: "nat \<Rightarrow> bytes \<Rightarrow> 'a::len word \<times> bytes" where
  "get_le n bs = (le_word (take n bs), drop n bs)"

definition decode :: "bytes \<Rightarrow> (PacketHeader \<times> bytes) option" where
  "decode buf =
     (if length buf < HEADER_SIZE then None
      else
        let (cid, buf) = get_le 8 buf;
            (ty, buf) = get_le 1 buf
        in case pkt_from_u8 ty of
             None \<Rightarrow> None
           | Some pt \<Rightarrow>
               (let (fl, buf) = get_le 1 buf;
                    (sid, buf) = get_le 2 buf;
                    (sq, buf) = get_le 4 buf;
                    (asq, buf) = get_le 4 buf;
                    (abm, buf) = get_le 4 buf;
                    (pl, buf) = get_le 2 buf;
                    (non, buf) = (take 12 buf, drop 12 buf)
                in Some (\<lparr>conn_id = cid, pkt_type = pt, flags = fl, stream_id = sid, seq = sq,
                          ack_seq = asq, ack_bitmap = abm, payload_len = pl, nonce = non\<rparr>, buf)))"

section \<open>Correctness of the header codec\<close>

lemma pkt_from_as [simp]: "pkt_from_u8 (pkt_as_u8 t) = Some t"
  by (cases t) (simp_all add: pkt_from_u8_def)

lemma pkt_from_u8_eq_Some: "pkt_from_u8 v = Some t \<longleftrightarrow> v = pkt_as_u8 t"
  by (cases t) (auto simp: pkt_from_u8_def)

lemma pkt_from_u8_eq_None: "pkt_from_u8 v = None \<longleftrightarrow> 5 < v"
proof -
  have "v \<in> {0, 1, 2, 3, 4, 5}" if "v \<le> 5"
  proof -
    from that have "unat v \<in> {0, 1, 2, 3, 4, 5}"
      by (auto simp: word_le_nat_alt)
    then have "(of_nat (unat v) :: u8) \<in> of_nat ` {0, 1, 2, 3, 4, 5}"
      by (rule imageI)
    then show ?thesis by simp
  qed
  then show ?thesis
    by (cases "v \<le> 5") (auto simp: pkt_from_u8_def not_le)
qed

lemma stream_from_as [simp]: "stream_from_u16 (stream_as_u16 s) = Some s"
  by (cases s) (simp_all add: stream_from_u16_def)

lemma get_le_append [simp]:
  "n = length xs \<Longrightarrow> get_le n (xs @ ys) = (le_word xs, ys)"
  by (simp add: get_le_def)

lemma get_le_1 [simp]: "get_le (Suc 0) (b # bs) = ((b :: u8), bs)"
  by (simp add: get_le_def)

lemma length_encode: "header_ok h \<Longrightarrow> length (encode h buf) = length buf + HEADER_SIZE"
  by (simp add: encode_def header_ok_def HEADER_SIZE_def)

lemma decode_encode_append [codec_simps]:
  "header_ok h \<Longrightarrow> decode (encode h [] @ rest) = Some (h, rest)"
  by (simp add: decode_def encode_def header_ok_def HEADER_SIZE_def Let_def byte_simps)

interpretation header_codec: prefix_codec "\<lambda>h. encode h []" decode header_ok
  by unfold_locales (rule decode_encode_append)

lemma le_bytes_le_word_take:
  assumes "n \<le> length bs" "8 * n \<le> LENGTH('a)"
  shows "le_bytes n (le_word (take n bs) :: 'a::len word) = take n bs"
  using le_bytes_le_word [of "take n bs", where 'a = 'a] assms by (simp add: min_absorb2)

lemma take_drop_append: "take n (drop m xs) @ drop (m + n) xs = drop m xs"
  by (metis add.commute append_take_drop_id drop_drop)

lemma single_take_drop: "m < length xs \<Longrightarrow> (le_word (take (Suc 0) (drop m xs)) :: u8) # drop (Suc m) xs = drop m xs"
  by (simp add: Cons_nth_drop_Suc [symmetric] take_Suc_conv_app_nth)

lemma decode_SomeD:
  assumes "decode buf = Some (h, rest)"
  shows "header_ok h \<and> encode h [] @ rest = buf"
proof -
  from assms have len: "38 \<le> length buf"
    by (simp add: decode_def HEADER_SIZE_def split: if_splits)
  from assms len obtain pt where
      pt: "(le_word (take (Suc 0) (drop 8 buf)) :: u8) = pkt_as_u8 pt"
    and h: "h = \<lparr>conn_id = le_word (take 8 buf), pkt_type = pt,
          flags = le_word (take (Suc 0) (drop 9 buf)), stream_id = le_word (take 2 (drop 10 buf)),
          seq = le_word (take 4 (drop 12 buf)), ack_seq = le_word (take 4 (drop 16 buf)),
          ack_bitmap = le_word (take 4 (drop 20 buf)), payload_len = le_word (take 2 (drop 24 buf)),
          nonce = take 12 (drop 26 buf)\<rparr>"
    and rest: "rest = drop 38 buf"
    by (auto simp: decode_def HEADER_SIZE_def Let_def get_le_def pkt_from_u8_eq_Some
        split: option.splits)
  have "encode h [] @ rest = take 8 buf @ drop 8 buf"
    using len take_drop_append [of 12 26 buf] take_drop_append [of 2 24 buf]
      take_drop_append [of 4 20 buf] take_drop_append [of 4 16 buf] take_drop_append [of 4 12 buf]
      take_drop_append [of 2 10 buf] single_take_drop [of 8 buf] single_take_drop [of 9 buf]
    by (simp add: h rest encode_def le_bytes_le_word_take flip: pt del: append_take_drop_id)
  moreover have "header_ok h"
    using len by (simp add: h header_ok_def)
  ultimately show ?thesis by simp
qed

text \<open>
  C37. The header codec is exact: \<open>decode\<close> returns a header and a remainder precisely when
  the buffer is the 38-byte encoding of that (well-formed) header followed by that
  remainder. So every header survives the wire in front of any payload, and no two different
  buffers decode to the same result.
\<close>

theorem header_decode_exact:
  "decode buf = Some (h, rest) \<longleftrightarrow> header_ok h \<and> buf = encode h [] @ rest"
  using decode_SomeD decode_encode_append by metis

text \<open>
  \<open>decode\<close> rejects exactly the buffers that are shorter than the header or whose
  ninth byte is not one of the six packet types.
\<close>

theorem header_decode_reject:
  "decode buf = None \<longleftrightarrow> length buf < HEADER_SIZE \<or> 5 < buf ! 8"
proof (cases "length buf < HEADER_SIZE")
  case True
  then show ?thesis by (simp add: decode_def)
next
  case False
  then have "(le_word (take 1 (drop 8 buf)) :: u8) = buf ! 8"
    by (simp add: HEADER_SIZE_def take_Suc_conv_app_nth)
  with False show ?thesis
    by (auto simp: decode_def Let_def get_le_def pkt_from_u8_eq_None [symmetric] split: option.splits)
qed

end
