(* ===== verification/HashMap.thy ===== *)
theory HashMap
  imports Prelude "HOL-Library.AList"
begin

text \<open>
  Rust's \<^verbatim>\<open>HashMap\<close> as an association list with distinct keys. The order of the list
  stands for the map's (unspecified) iteration order: \<^verbatim>\<open>values()\<close>, \<^verbatim>\<open>iter()\<close> and
  \<^verbatim>\<open>retain\<close> walk the list, and a theorem that holds for every list holds for every order.
  The locale \<open>hash_map\<close> is the interface the components rely on; it is interpreted on the
  operations below.
\<close>

type_synonym ('k, 'v) hmap = "('k \<times> 'v) list"

named_theorems hm_simps \<open>laws of the hash map operations\<close>

section \<open>The interface\<close>

locale hash_map =
  fixes get :: "'m \<Rightarrow> 'k \<Rightarrow> 'v option"
    and insert_kv :: "'k \<Rightarrow> 'v \<Rightarrow> 'm \<Rightarrow> 'm"
    and remove :: "'k \<Rightarrow> 'm \<Rightarrow> 'm"
    and retain :: "('k \<Rightarrow> 'v \<Rightarrow> bool) \<Rightarrow> 'm \<Rightarrow> 'm"
    and len :: "'m \<Rightarrow> nat"
    and ok :: "'m \<Rightarrow> bool"
  assumes get_insert: "get (insert_kv k v m) k' = (if k' = k then Some v else get m k')"
    and get_remove: "ok m \<Longrightarrow> get (remove k m) k' = (if k' = k then None else get m k')"
    and get_retain: "ok m \<Longrightarrow> get (retain P m) k =
          (case get m k of None \<Rightarrow> None | Some v \<Rightarrow> if P k v then Some v else None)"
    and len_dom: "ok m \<Longrightarrow> len m = card (dom (get m))"
    and finite_dom: "finite (dom (get m))"
    and ok_insert: "ok m \<Longrightarrow> ok (insert_kv k v m)"
    and ok_remove: "ok m \<Longrightarrow> ok (remove k m)"
    and ok_retain: "ok m \<Longrightarrow> ok (retain P m)"
begin

lemma dom_insert: "dom (get (insert_kv k v m)) = insert k (dom (get m))"
  by (auto simp: get_insert split: if_splits)

lemma len_insert_new: "ok m \<Longrightarrow> get m k = None \<Longrightarrow> len (insert_kv k v m) = Suc (len m)"
  by (simp add: len_dom ok_insert dom_insert finite_dom domIff)

lemma len_insert_old: "ok m \<Longrightarrow> get m k \<noteq> None \<Longrightarrow> len (insert_kv k v m) = len m"
  by (simp add: len_dom ok_insert dom_insert insert_absorb domIff)

lemma len_insert_le: "ok m \<Longrightarrow> len (insert_kv k v m) \<le> Suc (len m)"
  by (cases "get m k = None") (simp_all add: len_insert_new len_insert_old)

lemma len_remove_le: "ok m \<Longrightarrow> len (remove k m) \<le> len m"
  by (simp add: len_dom ok_remove)
     (rule card_mono [OF finite_dom], auto simp: get_remove split: if_splits)

lemma len_retain_le: "ok m \<Longrightarrow> len (retain P m) \<le> len m"
  by (simp add: len_dom ok_retain)
     (rule card_mono [OF finite_dom], auto simp: get_retain split: option.splits if_splits)

lemma remove_absent: "ok m \<Longrightarrow> get m k = None \<Longrightarrow> get (remove k m) = get m"
  by (auto simp: get_remove)

lemma retain_conj: "ok m \<Longrightarrow> get (retain P (retain Q m)) = get (retain (\<lambda>k v. P k v \<and> Q k v) m)"
  by (auto simp: get_retain ok_retain fun_eq_iff split: option.splits)

end

section \<open>Association lists provide it\<close>

abbreviation (input) hm_get :: "('k, 'v) hmap \<Rightarrow> 'k \<Rightarrow> 'v option" where
  "hm_get \<equiv> map_of"

definition hm_insert :: "'k \<Rightarrow> 'v \<Rightarrow> ('k, 'v) hmap \<Rightarrow> ('k, 'v) hmap" where
  "hm_insert k v m = AList.update k v m"

definition hm_remove :: "'k \<Rightarrow> ('k, 'v) hmap \<Rightarrow> ('k, 'v) hmap" where
  "hm_remove k m = AList.delete k m"

definition hm_retain :: "('k \<Rightarrow> 'v \<Rightarrow> bool) \<Rightarrow> ('k, 'v) hmap \<Rightarrow> ('k, 'v) hmap" where
  "hm_retain P m = filter (\<lambda>(k, v). P k v) m"

abbreviation (input) hm_len :: "('k, 'v) hmap \<Rightarrow> nat" where
  "hm_len \<equiv> length"

definition hm_ok :: "('k, 'v) hmap \<Rightarrow> bool" where
  "hm_ok m = distinct (map fst m)"

definition hm_contains :: "'k \<Rightarrow> ('k, 'v) hmap \<Rightarrow> bool" where
  "hm_contains k m = (hm_get m k \<noteq> None)"

definition hm_values :: "('k, 'v) hmap \<Rightarrow> 'v list" where
  "hm_values m = map snd m"

definition hm_keys :: "('k, 'v) hmap \<Rightarrow> 'k list" where
  "hm_keys m = map fst m"

text \<open>\<^verbatim>\<open>get_mut\<close> followed by an assignment through the reference.\<close>

definition hm_modify :: "'k \<Rightarrow> ('v \<Rightarrow> 'v) \<Rightarrow> ('k, 'v) hmap \<Rightarrow> ('k, 'v) hmap" where
  "hm_modify k f m = (case hm_get m k of None \<Rightarrow> m | Some v \<Rightarrow> hm_insert k (f v) m)"

text \<open>\<^verbatim>\<open>values_mut()\<close> with an assignment for every entry.\<close>

definition hm_map_values :: "('v \<Rightarrow> 'v) \<Rightarrow> ('k, 'v) hmap \<Rightarrow> ('k, 'v) hmap" where
  "hm_map_values f m = map (\<lambda>(k, v). (k, f v)) m"

lemma hm_get_insert [simp]:
  "hm_get (hm_insert k v m) k' = (if k' = k then Some v else hm_get m k')"
  by (simp add: hm_insert_def update_conv')

lemma hm_get_remove [simp]:
  "hm_get (hm_remove k m) k' = (if k' = k then None else hm_get m k')"
  by (simp add: hm_remove_def delete_conv')

lemma hm_get_retain:
  "hm_ok m \<Longrightarrow> hm_get (hm_retain P m) k =
     (case hm_get m k of None \<Rightarrow> None | Some v \<Rightarrow> if P k v then Some v else None)"
proof (induction m)
  case (Cons p m)
  obtain a b where p: "p = (a, b)" by (cases p)
  with Cons.prems have "hm_get m a = None" and "hm_ok m"
    by (auto simp: hm_ok_def map_of_eq_None_iff)
  with Cons.IH p show ?case
    by (auto simp: hm_retain_def)
qed (simp add: hm_retain_def)

lemma hm_ok_Nil [simp]: "hm_ok []"
  by (simp add: hm_ok_def)

lemma hm_ok_insert [simp]: "hm_ok m \<Longrightarrow> hm_ok (hm_insert k v m)"
  by (simp add: hm_ok_def hm_insert_def distinct_update)

lemma hm_ok_remove [simp]: "hm_ok m \<Longrightarrow> hm_ok (hm_remove k m)"
  by (simp add: hm_ok_def hm_remove_def distinct_delete)

lemma hm_ok_retain [simp]: "hm_ok m \<Longrightarrow> hm_ok (hm_retain P m)"
  by (induction m) (auto simp: hm_ok_def hm_retain_def)

lemma hm_len_dom: "hm_ok m \<Longrightarrow> hm_len m = card (dom (hm_get m))"
  by (metis distinct_card dom_map_of_conv_image_fst hm_ok_def length_map list.set_map)

interpretation hm: hash_map hm_get hm_insert hm_remove hm_retain hm_len hm_ok
  by unfold_locales (auto simp: hm_get_retain hm_len_dom finite_dom_map_of)

lemma hm_get_modify:
  "hm_get (hm_modify k f m) k' = (if k' = k then map_option f (hm_get m k) else hm_get m k')"
  by (simp add: hm_modify_def split: option.splits)

lemma hm_ok_modify [simp]: "hm_ok m \<Longrightarrow> hm_ok (hm_modify k f m)"
  by (simp add: hm_modify_def split: option.splits)

lemma hm_len_modify [simp]: "hm_ok m \<Longrightarrow> hm_len (hm_modify k f m) = hm_len m"
  by (auto simp: hm_modify_def hm.len_insert_old split: option.splits)

lemma hm_get_map_values [simp]: "hm_get (hm_map_values f m) k = map_option f (hm_get m k)"
  by (induction m) (auto simp: hm_map_values_def)

lemma hm_ok_map_values [simp]: "hm_ok (hm_map_values f m) = hm_ok m"
  by (simp add: hm_ok_def hm_map_values_def case_prod_unfold comp_def)

lemma hm_values_iff: "hm_ok m \<Longrightarrow> v \<in> set (hm_values m) \<longleftrightarrow> (\<exists>k. hm_get m k = Some v)"
  by (force simp: hm_values_def hm_ok_def)

lemma hm_keys_iff: "k \<in> set (hm_keys m) \<longleftrightarrow> hm_get m k \<noteq> None"
  by (auto simp: hm_keys_def map_of_eq_None_iff)

lemma hm_mem_get: "hm_ok m \<Longrightarrow> (k, v) \<in> set m \<longleftrightarrow> hm_get m k = Some v"
  by (simp add: hm_ok_def)

lemma hm_retain_mem: "(k, v) \<in> set (hm_retain P m) \<longleftrightarrow> (k, v) \<in> set m \<and> P k v"
  by (auto simp: hm_retain_def)

lemma map_of_rev: "hm_ok m \<Longrightarrow> map_of (rev m) = map_of m"
  by (subst map_of_inject_set) (simp_all add: hm_ok_def rev_map [symmetric])

lemma sum_values_insert:
  fixes f :: "'v \<Rightarrow> nat"
  assumes "hm_ok m"
  shows "sum_list (map f (hm_values (hm_insert k v m))) + (case hm_get m k of None \<Rightarrow> 0 | Some u \<Rightarrow> f u)
    = sum_list (map f (hm_values m)) + f v"
  using assms
proof (induction m)
  case (Cons p m)
  obtain a b where p: "p = (a, b)" by force
  with Cons.prems have "hm_ok m" by (simp add: hm_ok_def)
  with Cons.IH p show ?case
    by (auto simp: hm_values_def hm_insert_def split: option.splits)
qed (simp add: hm_values_def hm_insert_def)

lemma sum_values_remove:
  fixes f :: "'v \<Rightarrow> nat"
  assumes "hm_ok m"
  shows "sum_list (map f (hm_values (hm_remove k m))) + (case hm_get m k of None \<Rightarrow> 0 | Some u \<Rightarrow> f u)
    = sum_list (map f (hm_values m))"
  using assms
proof (induction m)
  case (Cons p m)
  obtain a b where p: "p = (a, b)" by force
  with Cons.prems have "hm_ok m" "hm_get m a = None" by (auto simp: hm_ok_def map_of_eq_None_iff)
  moreover from this have "AList.delete a m = m" by (simp add: map_of_eq_None_iff delete_idem)
  ultimately show ?case
    using Cons.IH p by (auto simp: hm_values_def hm_remove_def split: option.splits)
qed (simp add: hm_values_def hm_remove_def)

lemma length_hm_remove: "hm_get m k \<noteq> None \<Longrightarrow> length (hm_remove k m) < length m"
proof (induction m)
  case (Cons p m)
  then show ?case
    using length_delete_le [of k m] by (cases p) (auto simp: hm_remove_def)
qed simp

lemma set_values_insert: "set (hm_values (hm_insert k v m)) \<subseteq> insert v (set (hm_values m))"
proof (induction m)
  case (Cons p m)
  then show ?case by (cases p) (auto simp: hm_values_def hm_insert_def)
qed (simp add: hm_values_def hm_insert_def)

lemma hm_values_map_values [simp]: "hm_values (hm_map_values f m) = map f (hm_values m)"
  by (simp add: hm_values_def hm_map_values_def case_prod_unfold comp_def)

lemma hm_get_values: "hm_get m k = Some v \<Longrightarrow> v \<in> set (hm_values m)"
  by (force simp: hm_values_def dest: map_of_SomeD)

lemmas hm_laws = hm.len_insert_new hm.len_insert_old hm.len_insert_le hm.len_remove_le
  hm.len_retain_le hm_get_retain hm_get_modify

declare hm_get_retain [hm_simps] hm_get_modify [hm_simps] hm_contains_def [hm_simps]

section \<open>Maps whose entries expire\<close>

text \<open>
  The contract of the caches: an entry is served for its time to live, and removing expired
  entries cannot be observed. Times are those of a clock that never runs backwards.
\<close>

datatype ('k, 'v) cache_op = CPut 'k 'v | CClean

locale expiring_map =
  fixes get_at :: "instant \<Rightarrow> 'k \<Rightarrow> 'c \<Rightarrow> 'v option"
    and put_at :: "instant \<Rightarrow> 'k \<Rightarrow> 'v \<Rightarrow> 'c \<Rightarrow> 'c"
    and clean_at :: "instant \<Rightarrow> 'c \<Rightarrow> 'c"
    and life :: "'c \<Rightarrow> nat"
    and ok :: "'c \<Rightarrow> bool"
  assumes get_put: "t \<le> t' \<Longrightarrow> get_at t' k' (put_at t k v c) =
        (if k' = k then if t' - t < life c then Some v else None else get_at t' k' c)"
    and get_clean: "ok c \<Longrightarrow> t \<le> t' \<Longrightarrow> get_at t' k (clean_at t c) = get_at t' k c"
    and life_put: "life (put_at t k v c) = life c"
    and life_clean: "life (clean_at t c) = life c"
    and ok_put: "ok c \<Longrightarrow> ok (put_at t k v c)"
    and ok_clean: "ok c \<Longrightarrow> ok (clean_at t c)"
begin

fun cache_run :: "(instant \<times> ('k, 'v) cache_op) list \<Rightarrow> 'c \<Rightarrow> 'c" where
  "cache_run [] c = c"
| "cache_run ((t, CPut k v) # ops) c = cache_run ops (put_at t k v c)"
| "cache_run ((t, CClean) # ops) c = cache_run ops (clean_at t c)"

definition puts :: "'k \<Rightarrow> (instant \<times> ('k, 'v) cache_op) list \<Rightarrow> bool" where
  "puts k ops = (\<exists>t v. (t, CPut k v) \<in> set ops)"

lemma cache_run_other:
  "ok c \<Longrightarrow> \<not> puts k ops \<Longrightarrow> \<forall>(t, _) \<in> set ops. t \<le> t' \<Longrightarrow>
     get_at t' k (cache_run ops c) = get_at t' k c"
  by (induction ops c rule: cache_run.induct)
     (auto simp: get_put get_clean ok_put ok_clean puts_def)

lemma cache_served:
  assumes "ok c" "\<not> puts k ops" "\<forall>(u, _) \<in> set ops. u \<le> t'" "t \<le> t'"
  shows "get_at t' k (cache_run ops (put_at t k v c)) = (if t' - t < life c then Some v else None)"
  using assms by (simp add: cache_run_other ok_put get_put)

end

end
