(* ===== verification/Crypto.thy ===== *)
theory Crypto
  imports Frame HashMap
begin

text \<open>
  \<^verbatim>\<open>crates/protocol/src/crypto.rs\<close> and \<^verbatim>\<open>crates/protocol/src/stream.rs\<close>: the nonce derivation,
  the calls into the ChaCha20-Poly1305 crate, and the per-stream sequence counters. The
  cipher itself is third-party code: it is the record \<open>aead\<close> handed to every definition
  that encrypts or decrypts, and \<open>aead_correct\<close> is what the crate documents (decryption
  inverts encryption under the same key and nonce, and a 16-byte tag is appended).
\<close>

type_synonym Psk = bytes

record aead =
  aead_encrypt :: "Psk \<Rightarrow> bytes \<Rightarrow> bytes \<Rightarrow> bytes option"
  aead_decrypt :: "Psk \<Rightarrow> bytes \<Rightarrow> bytes \<Rightarrow> bytes option"

definition aead_correct :: "aead \<Rightarrow> bool" where
  "aead_correct A \<longleftrightarrow> (\<forall>k n p c. aead_encrypt A k n p = Some c \<longrightarrow>
     aead_decrypt A k n c = Some p \<and> length c = length p + 16)"

definition encrypt :: "aead \<Rightarrow> Psk \<Rightarrow> bytes \<Rightarrow> bytes \<Rightarrow> bytes option" where
  "encrypt A key non plaintext = aead_encrypt A key non plaintext"

definition decrypt :: "aead \<Rightarrow> Psk \<Rightarrow> bytes \<Rightarrow> bytes \<Rightarrow> bytes option" where
  "decrypt A key non ciphertext = aead_decrypt A key non ciphertext"

text \<open>A cipher that keeps the law, for examples.\<close>

definition demo_aead :: aead where
  "demo_aead = \<lparr>aead_encrypt = (\<lambda>k n p. Some (p @ replicate 16 0)),
     aead_decrypt = (\<lambda>k n c. if length c < 16 then None else Some (take (length c - 16) c))\<rparr>"

lemma demo_aead_correct: "aead_correct demo_aead"
  by (auto simp: aead_correct_def demo_aead_def)

definition make_nonce :: "u64 \<Rightarrow> u32 \<Rightarrow> bytes" where
  "make_nonce cid sq = le_bytes 8 cid @ le_bytes 4 sq"

lemma length_make_nonce [simp]: "length (make_nonce cid sq) = 12"
  by (simp add: make_nonce_def)

lemma make_nonce_inject: "make_nonce c s = make_nonce c' s' \<longleftrightarrow> c = c' \<and> s = s'"
  by (auto simp: make_nonce_def le_bytes_inject)

text \<open>
  Nonces are unique per packet of a connection: two packets get the same nonce exactly
  when both their connection id and their 32-bit sequence number agree.
\<close>

theorem make_nonce_injective:
  "length (make_nonce c s) = 12 \<and> (make_nonce c s = make_nonce c' s' \<longleftrightarrow> c = c' \<and> s = s')"
  by (simp add: make_nonce_inject)

section \<open>Stream multiplexing\<close>

record MuxStream =
  mux_id :: u16
  mux_reliable :: bool
  send_seq :: u32

definition mux_stream_new :: "u16 \<Rightarrow> MuxStream" where
  "mux_stream_new i =
     \<lparr>mux_id = i,
      mux_reliable = (case stream_from_u16 i of None \<Rightarrow> False | Some s \<Rightarrow> is_reliable s),
      send_seq = 0\<rparr>"

definition mux_next_seq :: "MuxStream \<Rightarrow> MuxStream \<times> u32" where
  "mux_next_seq m = (m\<lparr>send_seq := saturating_add (send_seq m) 1\<rparr>, send_seq m)"

type_synonym StreamMux = "(u16, MuxStream) hmap"

definition stream_mux_new :: StreamMux where
  "stream_mux_new = fold (\<lambda>i m. hm_insert i (mux_stream_new i) m) [0, 1, 2, 3, 4, 5] []"

definition mux_get :: "StreamMux \<Rightarrow> u16 \<Rightarrow> MuxStream option" where
  "mux_get m i = hm_get m i"

text \<open>The sequence numbers of \<open>k\<close> successive calls of \<open>next_seq\<close>.\<close>

fun mux_take :: "nat \<Rightarrow> MuxStream \<Rightarrow> u32 list" where
  "mux_take 0 m = []"
| "mux_take (Suc k) m = (let (m', s) = mux_next_seq m in s # mux_take k m')"

lemma saturating_add_one:
  "unat (saturating_add (w :: u32) 1) = min (unat w + 1) (2 ^ 32 - 1)"
proof (cases "w = - 1")
  case True
  then show ?thesis by (simp add: saturating_add_def unat_max_word)
next
  case False
  then have "unat w \<noteq> 2 ^ 32 - 1"
    using unat_max_word [where 'a = 32] by (auto simp: word_unat_eq_iff)
  moreover have "unat w < 2 ^ 32" using unsigned_less [of w] by simp
  ultimately have "unat w + 1 < 2 ^ LENGTH(32)" by simp
  from unat_add_one [OF this] this show ?thesis
    by (simp add: saturating_add_def word_le_nat_alt)
qed

lemma mux_take_nth:
  "map unat (mux_take k m) = map (\<lambda>i. min (unat (send_seq m) + i) (2 ^ 32 - 1)) [0..<k]"
proof (induction k arbitrary: m)
  case (Suc k)
  have "unat (send_seq m) < 2 ^ 32" using unsigned_less [of "send_seq m"] by simp
  then show ?case
    unfolding map_upt_Suc
    by (simp add: mux_next_seq_def Suc saturating_add_one min_def)
qed simp

text \<open>
  A stream's counter hands out 0, 1, 2, \<dots> and then stays at \<open>2^32 - 1\<close>: the first
  \<open>2^32\<close> sequence numbers of a stream are pairwise distinct, later ones repeat the last.
\<close>

theorem mux_next_seq_saturates:
  "map unat (mux_take k (mux_stream_new i)) = map (\<lambda>j. min j (2 ^ 32 - 1)) [0..<k]"
  by (simp add: mux_take_nth) (simp add: mux_stream_new_def)

text \<open>The six standard streams exist from the start; exactly the documented ones are reliable.\<close>

lemma stream_mux_new_get:
  "mux_get stream_mux_new i =
     (if i \<in> {0, 1, 2, 3, 4, 5} then Some (mux_stream_new i) else None)"
  by (auto simp: mux_get_def stream_mux_new_def)

lemma stream_mux_reliable:
  "map_option mux_reliable (mux_get stream_mux_new (stream_as_u16 s)) = Some (is_reliable s)"
  by (cases s) (simp_all add: stream_mux_new_get mux_stream_new_def stream_from_u16_def)

end
