(* ===== verification/RateLimiter.thy ===== *)
theory RateLimiter
  imports HashMap
begin

text \<open>
  The per-address quotas of the daemon (\<open>RateLimiter\<close> in \<^verbatim>\<open>crates/daemon/src/main.rs\<close>). The
  two counters share one contract, the locale \<open>quota\<close>: a check that finds the window open
  counts the request and compares with the limit, one that finds it expired opens a new one.
  In the locale: within one window an address gets at most \<open>limit\<close> requests through, however
  they interleave with the requests of other addresses. Both checks are interpretations.
\<close>

datatype IpAddr = V4 u32 | V6 "128 word"

type_synonym SocketAddr = "IpAddr \<times> u16"

definition SYN_RATE_LIMIT :: u32 where
  "SYN_RATE_LIMIT = 5"

definition CMD_RATE_LIMIT :: u32 where
  "CMD_RATE_LIMIT = 30"

definition RATE_WINDOW_SECS :: nat where
  "RATE_WINDOW_SECS = 60"

record RateLimiter =
  syn_counts :: "(IpAddr, instant \<times> u32) hmap"
  cmd_counts :: "(IpAddr, instant \<times> u32) hmap"

definition rate_limiter_new :: RateLimiter where
  "rate_limiter_new = \<lparr>syn_counts = [], cmd_counts = []\<rparr>"

definition check_syn :: "instant \<Rightarrow> IpAddr \<Rightarrow> RateLimiter \<Rightarrow> RateLimiter \<times> bool" where
  "check_syn now ip rl =
     (let entry = (case hm_get (syn_counts rl) ip of None \<Rightarrow> (now, 0) | Some e \<Rightarrow> e)
      in if now - fst entry > RATE_WINDOW_SECS * 1000
         then (rl\<lparr>syn_counts := hm_insert ip (now, 1) (syn_counts rl)\<rparr>, True)
         else let n = snd entry + 1
              in (rl\<lparr>syn_counts := hm_insert ip (fst entry, n) (syn_counts rl)\<rparr>, n \<le> SYN_RATE_LIMIT))"

definition check_cmd :: "instant \<Rightarrow> IpAddr \<Rightarrow> RateLimiter \<Rightarrow> RateLimiter \<times> bool" where
  "check_cmd now ip rl =
     (let entry = (case hm_get (cmd_counts rl) ip of None \<Rightarrow> (now, 0) | Some e \<Rightarrow> e)
      in if now - fst entry > RATE_WINDOW_SECS * 1000
         then (rl\<lparr>cmd_counts := hm_insert ip (now, 1) (cmd_counts rl)\<rparr>, True)
         else let n = snd entry + 1
              in (rl\<lparr>cmd_counts := hm_insert ip (fst entry, n) (cmd_counts rl)\<rparr>, n \<le> CMD_RATE_LIMIT))"

definition rate_gc :: "instant \<Rightarrow> RateLimiter \<Rightarrow> RateLimiter" where
  "rate_gc now rl =
     (let window = RATE_WINDOW_SECS * 2 * 1000
      in rl\<lparr>syn_counts := hm_retain (\<lambda>_ v. now - fst v < window) (syn_counts rl),
            cmd_counts := hm_retain (\<lambda>_ v. now - fst v < window) (cmd_counts rl)\<rparr>)"

section \<open>The shared contract\<close>

locale quota =
  fixes check :: "instant \<Rightarrow> IpAddr \<Rightarrow> 'm \<Rightarrow> 'm \<times> bool"
    and count :: "'m \<Rightarrow> IpAddr \<Rightarrow> (instant \<times> u32) option"
    and limit :: u32
    and window :: nat
  assumes check_other: "ip' \<noteq> ip \<Longrightarrow> count (fst (check now ip m)) ip' = count m ip'"
    and check_fresh: "count m ip = None \<Longrightarrow>
          count (fst (check now ip m)) ip = Some (now, 1) \<and> (snd (check now ip m) \<longleftrightarrow> 1 \<le> limit)"
    and check_open: "count m ip = Some (t0, n) \<Longrightarrow> now - t0 \<le> window \<Longrightarrow>
          count (fst (check now ip m)) ip = Some (t0, n + 1) \<and> (snd (check now ip m) \<longleftrightarrow> n + 1 \<le> limit)"
    and check_expired: "count m ip = Some (t0, n) \<Longrightarrow> window < now - t0 \<Longrightarrow>
          count (fst (check now ip m)) ip = Some (now, 1) \<and> snd (check now ip m)"
begin

text \<open>A sequence of requests; the answers in order.\<close>

fun run :: "(instant \<times> IpAddr) list \<Rightarrow> 'm \<Rightarrow> (IpAddr \<times> bool) list" where
  "run [] m = []"
| "run ((now, ip) # rs) m = (let (m', ok) = check now ip m in (ip, ok) # run rs m')"

lemma run_open:
  assumes "count m ip = Some (t0, n)"
    and "\<forall>(t, i) \<in> set rs. i = ip \<longrightarrow> t - t0 \<le> window"
    and "unat n + length (filter (\<lambda>(t, i). i = ip) rs) < 2 ^ 32"
  shows "length (filter (\<lambda>x. x = (ip, True)) (run rs m))
    = min (length (filter (\<lambda>(t, i). i = ip) rs)) (unat limit - unat n)"
  using assms
proof (induction rs arbitrary: m n)
  case (Cons r rs)
  obtain now i where r: "r = (now, i)" by force
  obtain m' ok where c: "check now i m = (m', ok)" by force
  show ?case
  proof (cases "i = ip")
    case False
    with Cons.prems r c check_other [of ip i now m]
    have "count m' ip = Some (t0, n)" by simp
    from Cons.IH [OF this] Cons.prems(2,3) False r c show ?thesis by simp
  next
    case True
    with check_open [OF Cons.prems(1), of now] Cons.prems(2) r c
    have m': "count m' ip = Some (t0, n + 1)" and ok: "ok \<longleftrightarrow> n + 1 \<le> limit"
      by auto
    have "unat n + 1 < 2 ^ 32" using Cons.prems(3) True r by simp
    then have un: "unat (n + 1) = unat n + 1"
      by (intro unat_add_one) simp
    from Cons.IH [OF m'] Cons.prems(2,3) True r un
    have "length (filter (\<lambda>x. x = (ip, True)) (run rs m'))
        = min (length (filter (\<lambda>(t, i). i = ip) rs)) (unat limit - (unat n + 1))" by simp
    then show ?thesis
      using True r c ok un by (auto simp: word_le_nat_alt min_def)
  qed
qed simp

lemma run_fresh:
  assumes "count m ip = None" and "0 < limit"
    and "\<forall>(t, i) \<in> set rs. i = ip \<longrightarrow> t - t0 \<le> window"
    and "length rs < 2 ^ 32 - 1"
  shows "length (filter (\<lambda>x. x = (ip, True)) (run ((t0, ip) # rs) m))
    = min (Suc (length (filter (\<lambda>(t, i). i = ip) rs))) (unat limit)"
proof -
  obtain m' ok where c: "check t0 ip m = (m', ok)" by force
  have one: "1 \<le> limit" using assms(2) by (simp add: word_le_nat_alt word_less_nat_alt)
  with check_fresh [OF assms(1), of t0] c have m': "count m' ip = Some (t0, 1)" and ok: ok
    by auto
  have "length (filter (\<lambda>(t, i). i = ip) rs) < 2 ^ 32 - 1"
    using assms(4) by (rule le_less_trans [OF length_filter_le])
  then have "unat (1 :: u32) + length (filter (\<lambda>(t, i). i = ip) rs) < 2 ^ 32" by simp
  from run_open [OF m' assms(3) this] one show ?thesis
    using c ok by (auto simp: word_le_nat_alt min_def)
qed

end

interpretation syn_quota: quota check_syn "\<lambda>rl. hm_get (syn_counts rl)" SYN_RATE_LIMIT
    "RATE_WINDOW_SECS * 1000"
  by unfold_locales (auto simp: check_syn_def Let_def)

interpretation cmd_quota: quota check_cmd "\<lambda>rl. hm_get (cmd_counts rl)" CMD_RATE_LIMIT
    "RATE_WINDOW_SECS * 1000"
  by unfold_locales (auto simp: check_cmd_def Let_def)

section \<open>The quotas of the daemon\<close>

fun check_syn_all :: "(instant \<times> IpAddr) list \<Rightarrow> RateLimiter \<Rightarrow> (IpAddr \<times> bool) list" where
  "check_syn_all [] rl = []"
| "check_syn_all ((now, ip) # rs) rl =
     (let (rl', ok) = check_syn now ip rl in (ip, ok) # check_syn_all rs rl')"

fun check_cmd_all :: "(instant \<times> IpAddr) list \<Rightarrow> RateLimiter \<Rightarrow> (IpAddr \<times> bool) list" where
  "check_cmd_all [] rl = []"
| "check_cmd_all ((now, ip) # rs) rl =
     (let (rl', ok) = check_cmd now ip rl in (ip, ok) # check_cmd_all rs rl')"

lemma check_syn_all_run: "check_syn_all rs rl = syn_quota.run rs rl"
  by (induction rs arbitrary: rl) (auto simp: case_prod_unfold)

lemma check_cmd_all_run: "check_cmd_all rs rl = cmd_quota.run rs rl"
  by (induction rs arbitrary: rl) (auto simp: case_prod_unfold)

text \<open>
  SYN quota: starting from an address without a counter, of all its requests that arrive
  within 60 seconds of its first one exactly the first five are allowed, however many
  requests of other addresses arrive in between.
\<close>

theorem syn_quota_per_window:
  assumes "hm_get (syn_counts rl) ip = None"
    and "\<forall>(t, i) \<in> set rs. i = ip \<longrightarrow> t - t0 \<le> 60 * 1000"
    and "length rs < 2 ^ 32 - 1"
  shows "length (filter (\<lambda>x. x = (ip, True)) (check_syn_all ((t0, ip) # rs) rl))
    = min (Suc (length (filter (\<lambda>(t, i). i = ip) rs))) 5"
  using syn_quota.run_fresh [of rl ip rs t0] assms
  by (simp add: check_syn_all_run SYN_RATE_LIMIT_def RATE_WINDOW_SECS_def del: check_syn_all.simps
      syn_quota.run.simps)

theorem syn_quota_per_window_witness:
  "length (filter (\<lambda>x. x = (V4 1, True))
     (check_syn_all [(0, V4 1), (10, V4 1), (20, V4 2), (30, V4 1)] rate_limiter_new)) = 3"
  using syn_quota_per_window [of rate_limiter_new "V4 1" "[(10, V4 1), (20, V4 2), (30, V4 1)]" 0]
  by (simp add: rate_limiter_new_def del: check_syn_all.simps)

text \<open>
  Command quota: the same bound for control messages, with the limit 30.
\<close>

theorem cmd_quota_per_window:
  assumes "hm_get (cmd_counts rl) ip = None"
    and "\<forall>(t, i) \<in> set rs. i = ip \<longrightarrow> t - t0 \<le> 60 * 1000"
    and "length rs < 2 ^ 32 - 1"
  shows "length (filter (\<lambda>x. x = (ip, True)) (check_cmd_all ((t0, ip) # rs) rl))
    = min (Suc (length (filter (\<lambda>(t, i). i = ip) rs))) 30"
  using cmd_quota.run_fresh [of rl ip rs t0] assms
  by (simp add: check_cmd_all_run CMD_RATE_LIMIT_def RATE_WINDOW_SECS_def del: check_cmd_all.simps
      cmd_quota.run.simps)

theorem cmd_quota_per_window_witness:
  "length (filter (\<lambda>x. x = (V4 1, True))
     (check_cmd_all [(0, V4 1), (20, V4 2), (30, V4 1)] rate_limiter_new)) = 2"
  using cmd_quota_per_window [of rate_limiter_new "V4 1" "[(20, V4 2), (30, V4 1)]" 0]
  by (simp add: rate_limiter_new_def del: check_cmd_all.simps)

text \<open>The periodic clean-up never forgets a window that is still open.\<close>

lemma rate_gc_keeps_open:
  assumes "hm_ok (syn_counts rl)" "hm_get (syn_counts rl) ip = Some (t0, n)"
    and "now - t0 \<le> RATE_WINDOW_SECS * 1000"
  shows "hm_get (syn_counts (rate_gc now rl)) ip = Some (t0, n)"
  using assms by (simp add: rate_gc_def Let_def hm_get_retain RATE_WINDOW_SECS_def)

end
