(* ===== verification/Connection.thy ===== *)
theory Connection
  imports Crypto RateLimiter
begin

text \<open>
  \<^verbatim>\<open>crates/daemon/src/connection.rs\<close>: the daemon's record of a connection and the packets it
  builds. Every packet a builder produces is decoded back to the header it was built from,
  with the payload as the remainder.
\<close>

datatype ConnState = Listening | SynSent | Established | Closed

record Connection =
  c_id :: u64
  peer :: SocketAddr
  c_state :: ConnState
  mux :: StreamMux
  created :: instant
  last_activity :: instant
  ctrl_seq :: u64

definition connection_new :: "instant \<Rightarrow> u64 \<Rightarrow> SocketAddr \<Rightarrow> Connection" where
  "connection_new now i p =
     \<lparr>c_id = i, peer = p, c_state = Listening, mux = stream_mux_new, created = now,
      last_activity = now, ctrl_seq = 0\<rparr>"

definition build_syn :: "u64 \<Rightarrow> bytes" where
  "build_syn cid =
     encode \<lparr>conn_id = cid, pkt_type = Syn, flags = 0, stream_id = stream_as_u16 Control, seq = 0,
             ack_seq = 0, ack_bitmap = 0, payload_len = 0, nonce = replicate 12 0\<rparr> []"

definition build_syn_ack :: "u64 \<Rightarrow> bytes" where
  "build_syn_ack cid =
     encode \<lparr>conn_id = cid, pkt_type = SynAck, flags = 0, stream_id = stream_as_u16 Control, seq = 0,
             ack_seq = 0, ack_bitmap = 0, payload_len = 0, nonce = replicate 12 0\<rparr> []"

definition build_data :: "u64 \<Rightarrow> u16 \<Rightarrow> u32 \<Rightarrow> Flags \<Rightarrow> bytes \<Rightarrow> bytes" where
  "build_data cid sid sq fl payload =
     encode \<lparr>conn_id = cid, pkt_type = Data, flags = fl, stream_id = sid, seq = sq,
             ack_seq = 0, ack_bitmap = 0, payload_len = of_nat (length payload),
             nonce = replicate 12 0\<rparr> [] @ payload"

definition build_encrypted_data :: "u64 \<Rightarrow> u16 \<Rightarrow> u32 \<Rightarrow> Flags \<Rightarrow> bytes \<Rightarrow> bytes \<Rightarrow> bytes" where
  "build_encrypted_data cid sid sq fl ciphertext non =
     encode \<lparr>conn_id = cid, pkt_type = Data, flags = fl, stream_id = sid, seq = sq,
             ack_seq = 0, ack_bitmap = 0, payload_len = of_nat (length ciphertext),
             nonce = non\<rparr> [] @ ciphertext"

definition build_heartbeat :: "u64 \<Rightarrow> bytes" where
  "build_heartbeat cid =
     encode \<lparr>conn_id = cid, pkt_type = Heartbeat, flags = 0, stream_id = stream_as_u16 Control,
             seq = 0, ack_seq = 0, ack_bitmap = 0, payload_len = 0, nonce = replicate 12 0\<rparr> []"

lemma decode_nil_append: "header_ok h \<Longrightarrow> decode (encode h []) = Some (h, [])"
  using decode_encode_append [of h "[]"] by simp

lemma decode_build_syn [codec_simps]:
  "decode (build_syn cid) = Some (\<lparr>conn_id = cid, pkt_type = Syn, flags = 0, stream_id = 0, seq = 0,
     ack_seq = 0, ack_bitmap = 0, payload_len = 0, nonce = replicate 12 0\<rparr>, [])"
  by (simp add: build_syn_def decode_nil_append header_ok_def)

lemma decode_build_syn_ack [codec_simps]:
  "decode (build_syn_ack cid) = Some (\<lparr>conn_id = cid, pkt_type = SynAck, flags = 0, stream_id = 0,
     seq = 0, ack_seq = 0, ack_bitmap = 0, payload_len = 0, nonce = replicate 12 0\<rparr>, [])"
  by (simp add: build_syn_ack_def decode_nil_append header_ok_def)

lemma decode_build_heartbeat [codec_simps]:
  "decode (build_heartbeat cid) = Some (\<lparr>conn_id = cid, pkt_type = Heartbeat, flags = 0,
     stream_id = 0, seq = 0, ack_seq = 0, ack_bitmap = 0, payload_len = 0,
     nonce = replicate 12 0\<rparr>, [])"
  by (simp add: build_heartbeat_def decode_nil_append header_ok_def)

lemma decode_build_encrypted [codec_simps]:
  "length non = 12 \<Longrightarrow> decode (build_encrypted_data cid sid sq fl ct non) =
     Some (\<lparr>conn_id = cid, pkt_type = Data, flags = fl, stream_id = sid, seq = sq, ack_seq = 0,
       ack_bitmap = 0, payload_len = of_nat (length ct), nonce = non\<rparr>, ct)"
  by (simp add: build_encrypted_data_def codec_simps header_ok_def)

lemma length_build_encrypted:
  "length non = 12 \<Longrightarrow> length (build_encrypted_data cid sid sq fl ct non) = HEADER_SIZE + length ct"
  by (simp add: build_encrypted_data_def length_encode header_ok_def)

lemma drop_build_encrypted [simp]:
  "length non = 12 \<Longrightarrow> drop HEADER_SIZE (build_encrypted_data cid sid sq fl ct non) = ct"
  by (simp add: build_encrypted_data_def length_encode header_ok_def)

end
