(* ===== verification/ControlMessages.thy ===== *)
theory ControlMessages
  imports Prelude
begin

text \<open>
  The vocabulary of the control stream, \<^verbatim>\<open>crates/protocol/src/frame.rs\<close>: the control messages
  and the native commands they carry, with the constructors and the argument order of the
  source. Signed integers (\<^verbatim>\<open>i16\<close>, \<^verbatim>\<open>i32\<close>) are words of the same width. The byte image of a
  message is produced by the crate bincode and is a parameter of the theories that send or
  receive messages.
\<close>

datatype ServiceActionType =
    ServiceList bool bool
  | ServiceStatus string
  | ServiceStart string
  | ServiceStop string
  | ServiceRestart string
  | ServiceReload string
  | ServiceEnable string
  | ServiceDisable string

datatype PkgActionType =
    PkgList bool
  | PkgSearch string
  | PkgInstall string
  | PkgRemove string
  | PkgUpdate
  | PkgUpgrade

datatype DockerActionType =
    DockerPs bool bool
  | DockerLogs string u32 bool
  | DockerStats u64
  | DockerExec string "string list" bool
  | DockerInfo
  | DockerImages
  | DockerRm string bool
  | DockerControl string string

datatype CrontabActionType = CrontabList | CrontabEdit | CrontabRemove

datatype (plugins only: ) NativeCmdType =
    Ls string bool bool
  | Cat string
  | Tail string u32 bool u64
  | Head string u32
  | Find string "string option" "string option" u32
  | Grep string string bool bool bool
  | Du string bool u32
  | Df bool bool
  | Tree string u32 bool
  | Stat string
  | Mkdir bool "string list"
  | Rm bool bool "string list"
  | Mv string string
  | Cp bool string string
  | Chmod string "string list"
  | Chown string "string list"
  | Diff string string
  | Wc bool bool "string list"
  | Lsblk
  | Mount
  | Ps bool "string option" bool
  | Kill u32 u32
  | Pgrep string bool bool
  | Pkill string u32
  | Top u64 u32
  | Uptime
  | Hostname
  | Uname bool bool bool
  | Whoami
  | Who
  | Last u32
  | Free bool
  | Cpu
  | Dmesg u32 "string option"
  | Info
  | Netstat bool bool bool bool
  | Ip bool bool bool
  | PortScan string u16 u16 u64
  | Arp
  | Dns string "string option"
  | Service ServiceActionType
  | Journal "string option" bool u32 "string option" "string option"
  | Pkg PkgActionType
  | Docker DockerActionType
  | Crontab CrontabActionType
  | Firewall string
  | Ssh
  | Checksum string string
  | ShellExec string u32
  | ReadFile string
  | BatchContent "string list" u64
  | Watch u64 "string list"
  | WriteFile string bytes bool
  | Sed string string string bool bool
  | Touch string

datatype (plugins only: code) ControlMsg =
    Exec u32 string
  | FilePush u32 string u64
  | FileChunk u32 u64 bytes
  | FileAck u32 u64
  | KeyEvent bool u16 u16
  | MouseMove u16 u16
  | MouseButton u8 bool
  | MouseWheel u16
  | VideoStart u16 u16 u8 u32
  | VideoStop
  | AudioStart u32 u8
  | AudioStop
  | Hello u16 "string list"
  | HelloAck u16 "string list"
  | ExecStarted u32
  | ExecChunk u32 u8 bytes
  | ExecDone u32 "u32 option"
  | ExecStdin u32 bytes bool
  | ExecSignal u32 u32
  | NativeCmd u32 NativeCmdType
  | NativeSpawn u32 NativeCmdType


end
