(* ===== verification/Daemon.thy ===== *)
theory Daemon
  imports Connection ControlMessages "HOL-Library.Sublist"
begin

text \<open>
  The daemon, \<^verbatim>\<open>crates/daemon/src/main.rs\<close>: its shared state, the handling of packets arriving
  over UDP and over TCP, the control messages, the forwarding of a running command's output,
  and the heartbeat tick of the main loop. What the daemon calls outside this file is the
  record \<open>daemon_env\<close>: the cipher, bincode, whether a shell could be spawned, the
  output of a native command, whether a file could be opened or written.

  A handler returns the new state and what it sends; the atomic counter of a connection is
  passed in and out. A command channel is the list of commands sent to it. The two transports
  keep their own connection table and rate limiter (locals of the UDP loop, fields of
  \<^verbatim>\<open>DaemonState\<close> for TCP): the state handed to a handler is the one of its transport.
\<close>

datatype ExecCmd = Stdin bytes bool | Signal u32

record daemon_env =
  env_aead :: aead
  env_ser :: "ControlMsg \<Rightarrow> bytes"
  env_deser :: "bytes \<Rightarrow> ControlMsg option"
  env_spawn :: "string \<Rightarrow> bool"
  env_native :: "NativeCmdType \<Rightarrow> bytes \<times> u32 option"
  env_open :: "string \<Rightarrow> bool"
  env_write :: "string \<Rightarrow> u64 \<Rightarrow> bytes \<Rightarrow> bool"

record DaemonState =
  connections :: "(u64, Connection) hmap"
  exec_map :: "(u32, ExecCmd list) hmap"
  rate_limiter :: RateLimiter
  files :: "(string, bytes) hmap"
  file_transfers :: "(u32, string \<times> u64) hmap"

definition HEARTBEAT_INTERVAL :: nat where
  "HEARTBEAT_INTERVAL = 5000"

definition TIMEOUT :: nat where
  "TIMEOUT = 30000"

definition MAX_CONNECTIONS :: nat where
  "MAX_CONNECTIONS = 100"

definition daemon_new :: DaemonState where
  "daemon_new = \<lparr>connections = [], exec_map = [], rate_limiter = rate_limiter_new, files = [],
     file_transfers = []\<rparr>"

section \<open>Sending a control message\<close>

definition send_control :: "daemon_env \<Rightarrow> u64 \<Rightarrow> Psk \<Rightarrow> u64 \<Rightarrow> ControlMsg \<Rightarrow> bytes list" where
  "send_control E cid psk sq msg =
     (let payload = env_ser E msg;
          seq32 = ucast sq :: u32;
          non = make_nonce cid seq32
      in case encrypt (env_aead E) psk non payload of
           None \<Rightarrow> []
         | Some encrypted \<Rightarrow>
             [build_encrypted_data cid (stream_as_u16 Control) seq32 FLAG_RELIABLE encrypted non])"

definition build_control_packet_tcp :: "daemon_env \<Rightarrow> u64 \<Rightarrow> Psk \<Rightarrow> u64 \<Rightarrow> ControlMsg \<Rightarrow> bytes" where
  "build_control_packet_tcp E cid psk sq msg =
     (let payload = env_ser E msg;
          seq32 = ucast sq :: u32;
          non = make_nonce cid seq32
      in case encrypt (env_aead E) psk non payload of
           None \<Rightarrow> []
         | Some encrypted \<Rightarrow>
             encode \<lparr>conn_id = cid, pkt_type = Data, flags = FLAG_RELIABLE,
               stream_id = stream_as_u16 Control, seq = seq32, ack_seq = 0, ack_bitmap = 0,
               payload_len = of_nat (length encrypted), nonce = non\<rparr> [] @ encrypted)"

section \<open>Control messages\<close>

text \<open>Replies are numbered by successive \<^verbatim>\<open>fetch_add(1)\<close> on the connection's counter.\<close>

fun send_replies ::
  "(u64 \<Rightarrow> ControlMsg \<Rightarrow> bytes list) \<Rightarrow> u64 \<Rightarrow> ControlMsg list \<Rightarrow> u64 \<times> bytes list" where
  "send_replies snd_msg sq [] = (sq, [])"
| "send_replies snd_msg sq (m # ms) =
     (let (sq', out) = send_replies snd_msg (sq + 1) ms in (sq', snd_msg sq m @ out))"

text \<open>The shell line of a \<open>NativeSpawn\<close>, for the two variants that have one.\<close>

definition spawn_line :: "NativeCmdType \<Rightarrow> string option" where
  "spawn_line cmd =
     (case cmd of
        ShellExec c _ \<Rightarrow> Some c
      | Tail path lines True secs \<Rightarrow>
          Some (if secs > 0
                then ''timeout '' @ show_nat (unat secs) @ '' tail -n '' @ show_nat (unat lines)
                     @ '' -f '' @ path
                else ''tail -n '' @ show_nat (unat lines) @ '' -f '' @ path)
      | _ \<Rightarrow> None)"

definition write_at :: "nat \<Rightarrow> bytes \<Rightarrow> bytes \<Rightarrow> bytes" where
  "write_at off dat content =
     (if dat = [] then content
      else take off (content @ replicate (off - length content) 0) @ dat @ drop (off + length dat) content)"

text \<open>Start a streaming command: register its channel, or report that it could not start.\<close>

definition start_exec :: "daemon_env \<Rightarrow> u32 \<Rightarrow> string \<Rightarrow> DaemonState \<Rightarrow> DaemonState \<times> ControlMsg list" where
  "start_exec E i line st =
     (if env_spawn E line
      then (st\<lparr>exec_map := hm_insert i [] (exec_map st)\<rparr>, [ExecStarted i])
      else (st, [ExecDone i None]))"

definition send_exec_cmd :: "u32 \<Rightarrow> ExecCmd \<Rightarrow> DaemonState \<Rightarrow> DaemonState" where
  "send_exec_cmd i c st = st\<lparr>exec_map := hm_modify i (\<lambda>q. q @ [c]) (exec_map st)\<rparr>"

definition file_push :: "daemon_env \<Rightarrow> u32 \<Rightarrow> string \<Rightarrow> u64 \<Rightarrow> DaemonState \<Rightarrow> DaemonState \<times> ControlMsg list" where
  "file_push E i path sz st =
     (if env_open E path
      then (st\<lparr>files := hm_insert path [] (files st),
               file_transfers := hm_insert i (path, sz) (file_transfers st)\<rparr>, [FileAck i 0])
      else (st, []))"

definition file_chunk :: "daemon_env \<Rightarrow> u32 \<Rightarrow> u64 \<Rightarrow> bytes \<Rightarrow> DaemonState \<Rightarrow> DaemonState \<times> ControlMsg list" where
  "file_chunk E i off chunk st =
     (case hm_get (file_transfers st) i of
        None \<Rightarrow> (st, [])
      | Some (path, sz) \<Rightarrow>
          if \<not> env_write E path off chunk then (st, [])
          else
            let st = st\<lparr>files := hm_modify path (write_at (unat off) chunk) (files st)\<rparr>;
                ack_off = off + of_nat (length chunk);
                st = (if ack_off \<ge> sz
                      then st\<lparr>file_transfers := hm_remove i (file_transfers st)\<rparr> else st)
            in (st, [FileAck i ack_off]))"

text \<open>The body of \<open>handle_control\<close>: the state change and the replies, in order.\<close>

definition control_step :: "daemon_env \<Rightarrow> ControlMsg \<Rightarrow> DaemonState \<Rightarrow> DaemonState \<times> ControlMsg list" where
  "control_step E msg st =
     (case msg of
        Exec i cmd \<Rightarrow> start_exec E i cmd st
      | NativeSpawn i cmd \<Rightarrow>
          (case spawn_line cmd of
             None \<Rightarrow> (st, [ExecDone i None])
           | Some line \<Rightarrow> start_exec E i line st)
      | ExecStdin i dat close \<Rightarrow> (send_exec_cmd i (Stdin dat close) st, [])
      | ExecSignal i signo \<Rightarrow> (send_exec_cmd i (Signal signo) st, [])
      | Hello version _ \<Rightarrow>
          if version \<noteq> PROTOCOL_VERSION then (st, [])
          else (st, [HelloAck PROTOCOL_VERSION [''exec'', ''input'']])
      | NativeCmd i cmd \<Rightarrow>
          (let (out, exit) = env_native E cmd in (st, [ExecChunk i 0 out, ExecDone i exit]))
      | FilePush i path sz \<Rightarrow> file_push E i path sz st
      | FileChunk i off chunk \<Rightarrow> file_chunk E i off chunk st
      | _ \<Rightarrow> (st, []))"

definition control_step_tcp :: "daemon_env \<Rightarrow> ControlMsg \<Rightarrow> DaemonState \<Rightarrow> DaemonState \<times> ControlMsg list" where
  "control_step_tcp E msg st =
     (case msg of
        Hello version _ \<Rightarrow>
          if version \<noteq> PROTOCOL_VERSION then (st, [])
          else (st, [HelloAck PROTOCOL_VERSION [''exec'', ''input'']])
      | NativeCmd i cmd \<Rightarrow>
          (let (out, exit) = env_native E cmd in (st, [ExecChunk i 0 out, ExecDone i exit]))
      | NativeSpawn i cmd \<Rightarrow>
          (case spawn_line cmd of
             None \<Rightarrow>
               (let (out, exit) = env_native E cmd in (st, [ExecChunk i 0 out, ExecDone i exit]))
           | Some line \<Rightarrow> start_exec E i line st)
      | Exec i cmd \<Rightarrow> start_exec E i cmd st
      | ExecStdin i dat close \<Rightarrow> (send_exec_cmd i (Stdin dat close) st, [])
      | ExecSignal i signo \<Rightarrow> (send_exec_cmd i (Signal signo) st, [])
      | FilePush i path sz \<Rightarrow> file_push E i path sz st
      | FileChunk i off chunk \<Rightarrow> file_chunk E i off chunk st
      | _ \<Rightarrow> (st, []))"

definition handle_control ::
  "daemon_env \<Rightarrow> bytes \<Rightarrow> u64 \<Rightarrow> Psk \<Rightarrow> u64 \<Rightarrow> DaemonState \<Rightarrow> DaemonState \<times> u64 \<times> bytes list" where
  "handle_control E dat cid psk sq st =
     (case env_deser E dat of
        None \<Rightarrow> (st, sq, [])
      | Some msg \<Rightarrow>
          (let (st', replies) = control_step E msg st;
               (sq', out) = send_replies (send_control E cid psk) sq replies
           in (st', sq', out)))"

definition handle_control_tcp ::
  "daemon_env \<Rightarrow> bytes \<Rightarrow> u64 \<Rightarrow> Psk \<Rightarrow> u64 \<Rightarrow> DaemonState \<Rightarrow> DaemonState \<times> u64 \<times> bytes list" where
  "handle_control_tcp E dat cid psk sq st =
     (case env_deser E dat of
        None \<Rightarrow> (st, sq, [])
      | Some msg \<Rightarrow>
          (let (st', replies) = control_step_tcp E msg st;
               (sq', out) = send_replies (\<lambda>q m. [build_control_packet_tcp E cid psk q m]) sq replies
           in (st', sq', out)))"

section \<open>A running command\<close>

text \<open>One turn of the \<^verbatim>\<open>select!\<close> loop of \<open>run_exec_task\<close>, by the branch that fires.\<close>

datatype ExecEvent = EvChunk u8 bytes | EvDone "u32 option" | EvCmd "ExecCmd option"

datatype ShellCall = WriteStdin bytes bool | KillShell

definition exec_task_turn ::
  "daemon_env \<Rightarrow> u32 \<Rightarrow> u64 \<Rightarrow> Psk \<Rightarrow> ExecEvent \<Rightarrow> u64 \<Rightarrow> u64 \<times> bytes list \<times> ShellCall list \<times> bool" where
  "exec_task_turn E i cid psk ev sq =
     (case ev of
        EvChunk stream dat \<Rightarrow> (sq + 1, send_control E cid psk sq (ExecChunk i stream dat), [], False)
      | EvDone code \<Rightarrow> (sq + 1, send_control E cid psk sq (ExecDone i code), [], True)
      | EvCmd (Some (Stdin dat close)) \<Rightarrow> (sq, [], [WriteStdin dat close], False)
      | EvCmd (Some (Signal _)) \<Rightarrow> (sq, [], [KillShell], False)
      | EvCmd None \<Rightarrow> (sq, [], [KillShell], True))"

fun run_exec_task ::
  "daemon_env \<Rightarrow> u32 \<Rightarrow> u64 \<Rightarrow> Psk \<Rightarrow> ExecEvent list \<Rightarrow> u64 \<Rightarrow> u64 \<times> bytes list \<times> ShellCall list" where
  "run_exec_task E i cid psk [] sq = (sq, [], [])"
| "run_exec_task E i cid psk (ev # evs) sq =
     (let (sq1, out1, calls1, stop) = exec_task_turn E i cid psk ev sq
      in if stop then (sq1, out1, calls1)
         else let (sq2, out2, calls2) = run_exec_task E i cid psk evs sq1
              in (sq2, out1 @ out2, calls1 @ calls2))"

section \<open>Packets over UDP\<close>

definition set_conn :: "u64 \<Rightarrow> (Connection \<Rightarrow> Connection) \<Rightarrow> DaemonState \<Rightarrow> DaemonState" where
  "set_conn cid f st = st\<lparr>connections := hm_modify cid f (connections st)\<rparr>"

definition handle_packet_inner ::
  "daemon_env \<Rightarrow> instant \<Rightarrow> Psk \<Rightarrow> bytes \<Rightarrow> SocketAddr \<Rightarrow> DaemonState
     \<Rightarrow> DaemonState \<times> (SocketAddr \<times> bytes) list" where
  "handle_packet_inner E now psk dat from st =
     (case decode dat of
        None \<Rightarrow> (st, [])
      | Some (header, _) \<Rightarrow>
         (let cid = conn_id header
          in case pkt_type header of
               Syn \<Rightarrow>
                 (let (rl, ok) = check_syn now (fst from) (rate_limiter st);
                      st = st\<lparr>rate_limiter := rl\<rparr>
                  in if \<not> ok then (st, [])
                     else if length (connections st) \<ge> MAX_CONNECTIONS then (st, [])
                     else case hm_get (connections st) cid of
                            Some existing \<Rightarrow>
                              if peer existing \<noteq> from then (st, [])
                              else (st, [(from, build_syn_ack cid)])
                          | None \<Rightarrow>
                              (st\<lparr>connections := hm_insert cid
                                    ((connection_new now cid from)\<lparr>c_state := Established\<rparr>)
                                    (connections st)\<rparr>,
                               [(from, build_syn_ack cid)]))
             | SynAck \<Rightarrow>
                 (set_conn cid (\<lambda>c. c\<lparr>c_state := Established, last_activity := now\<rparr>) st, [])
             | Data \<Rightarrow>
                 (case hm_get (connections st) cid of
                    None \<Rightarrow> (st, [])
                  | Some conn \<Rightarrow>
                      if \<not> (c_state conn = Established \<and> peer conn = from) then (st, [])
                      else if length dat \<le> HEADER_SIZE then (st, [])
                      else case decrypt (env_aead E) psk (nonce header) (drop HEADER_SIZE dat) of
                             None \<Rightarrow> (st, [])
                           | Some plaintext \<Rightarrow>
                               (let st = set_conn cid (\<lambda>c. c\<lparr>last_activity := now\<rparr>) st
                                in if stream_id header = stream_as_u16 Control then
                                     (let (rl, ok) = check_cmd now (fst from) (rate_limiter st);
                                          st = st\<lparr>rate_limiter := rl\<rparr>
                                      in if \<not> ok then (st, [])
                                         else
                                           let (st, sq, out) =
                                                 handle_control E plaintext cid psk (ctrl_seq conn) st
                                           in (set_conn cid (\<lambda>c. c\<lparr>ctrl_seq := sq\<rparr>) st,
                                               map (\<lambda>p. (from, p)) out))
                                   else (st, [])))
             | Heartbeat \<Rightarrow>
                 (case hm_get (connections st) cid of
                    None \<Rightarrow> (st, [])
                  | Some conn \<Rightarrow>
                      if c_state conn \<noteq> Established \<or> peer conn \<noteq> from then (st, [])
                      else (set_conn cid (\<lambda>c. c\<lparr>last_activity := now\<rparr>) st,
                            [(peer conn, build_heartbeat cid)]))
             | Rst \<Rightarrow> (st\<lparr>connections := hm_remove cid (connections st)\<rparr>, [])
             | Ack \<Rightarrow> (st, [])))"

section \<open>Packets over TCP\<close>

definition handle_packet_tcp ::
  "daemon_env \<Rightarrow> instant \<Rightarrow> Psk \<Rightarrow> bytes \<Rightarrow> SocketAddr \<Rightarrow> DaemonState \<Rightarrow> DaemonState \<times> bytes list" where
  "handle_packet_tcp E now psk dat from st =
     (case decode dat of
        None \<Rightarrow> (st, [])
      | Some (header, _) \<Rightarrow>
         (let cid = conn_id header
          in case pkt_type header of
               Syn \<Rightarrow>
                 (let (rl, ok) = check_syn now (fst from) (rate_limiter st);
                      st = st\<lparr>rate_limiter := rl\<rparr>
                  in if \<not> ok then (st, [])
                     else case hm_get (connections st) cid of
                            Some existing \<Rightarrow>
                              if peer existing \<noteq> from then (st, []) else (st, [build_syn_ack cid])
                          | None \<Rightarrow>
                              (st\<lparr>connections := hm_insert cid
                                    ((connection_new now cid from)\<lparr>c_state := Established\<rparr>)
                                    (connections st)\<rparr>,
                               [build_syn_ack cid]))
             | Data \<Rightarrow>
                 (case hm_get (connections st) cid of
                    None \<Rightarrow> (st, [])
                  | Some conn \<Rightarrow>
                      if c_state conn \<noteq> Established then (st, [])
                      else if length dat \<le> HEADER_SIZE then (st, [])
                      else case decrypt (env_aead E) psk (nonce header) (drop HEADER_SIZE dat) of
                             None \<Rightarrow> (st, [])
                           | Some plaintext \<Rightarrow>
                               (let st = set_conn cid (\<lambda>c. c\<lparr>last_activity := now\<rparr>) st
                                in if stream_id header = stream_as_u16 Control then
                                     (let (rl, ok) = check_cmd now (fst from) (rate_limiter st);
                                          st = st\<lparr>rate_limiter := rl\<rparr>
                                      in if \<not> ok then (st, [])
                                         else
                                           let (st, sq, out) =
                                                 handle_control_tcp E plaintext cid psk (ctrl_seq conn) st
                                           in (set_conn cid (\<lambda>c. c\<lparr>ctrl_seq := sq\<rparr>) st, out))
                                   else (st, [])))
             | Heartbeat \<Rightarrow>
                 (set_conn cid (\<lambda>c. if c_state c = Established then c\<lparr>last_activity := now\<rparr> else c) st, [])
             | Rst \<Rightarrow> (st\<lparr>connections := hm_remove cid (connections st)\<rparr>, [])
             | _ \<Rightarrow> (st, [])))"

text \<open>\<open>tcp_send\<close>: a frame on the stream registered for the connection.\<close>

definition tcp_frame :: "bytes \<Rightarrow> bytes" where
  "tcp_frame dat = be_bytes 4 (of_nat (length dat) :: u32) @ dat"

text \<open>
  The read loop of \<open>handle_tcp_client\<close> on the bytes a client sends before it closes the
  stream: the frames it passes on. A zero or oversized length ends the connection.
\<close>

function read_frames :: "bytes \<Rightarrow> bytes list" where
  "read_frames bs =
     (if length bs < 4 then []
      else let frame_len = unat (be_word (take 4 bs) :: u32);
               rest = drop 4 bs
           in if frame_len = 0 \<or> frame_len > MAX_PACKET + 4 then []
              else if length rest < frame_len then []
              else take frame_len rest # read_frames (drop frame_len rest))"
  by pat_completeness auto
termination
  by (relation "measure length") auto

declare read_frames.simps [simp del]

text \<open>
  The registry of TCP streams, by connection id: the first stream that names an id keeps it
  until it closes; replies for the id go to the registered stream.
\<close>

type_synonym TcpConnMap = "(u64, nat \<times> SocketAddr) hmap"

definition tcp_register :: "u64 \<Rightarrow> nat \<Rightarrow> SocketAddr \<Rightarrow> TcpConnMap \<Rightarrow> TcpConnMap" where
  "tcp_register cid stream from tc =
     (case hm_get tc cid of None \<Rightarrow> hm_insert cid (stream, from) tc | Some _ \<Rightarrow> tc)"

definition tcp_send :: "TcpConnMap \<Rightarrow> u64 \<Rightarrow> bytes \<Rightarrow> (nat \<times> bytes) option" where
  "tcp_send tc cid dat = map_option (\<lambda>(stream, _). (stream, tcp_frame dat)) (hm_get tc cid)"

definition handle_tcp_frame ::
  "daemon_env \<Rightarrow> instant \<Rightarrow> Psk \<Rightarrow> nat \<Rightarrow> SocketAddr \<Rightarrow> bytes \<Rightarrow> DaemonState \<times> TcpConnMap
     \<Rightarrow> (DaemonState \<times> TcpConnMap) \<times> (nat \<times> bytes) option list" where
  "handle_tcp_frame E now psk stream from dat s =
     (case decode dat of
        None \<Rightarrow> (s, [])
      | Some (header, _) \<Rightarrow>
          (let tc = tcp_register (conn_id header) stream from (snd s);
               (st, out) = handle_packet_tcp E now psk dat from (fst s)
           in ((st, tc), map (tcp_send tc (conn_id header)) out)))"

definition tcp_cleanup :: "SocketAddr \<Rightarrow> TcpConnMap \<Rightarrow> TcpConnMap" where
  "tcp_cleanup from tc = hm_retain (\<lambda>_ (_, p). p \<noteq> from) tc"

section \<open>The heartbeat tick of the main loop\<close>

definition heartbeat_tick ::
  "instant \<Rightarrow> instant \<Rightarrow> DaemonState \<Rightarrow> DaemonState \<times> instant \<times> (SocketAddr \<times> bytes) list" where
  "heartbeat_tick now last_hb st =
     (if now - last_hb \<ge> HEARTBEAT_INTERVAL then
        (let st = st\<lparr>rate_limiter := rate_gc now (rate_limiter st)\<rparr>;
             out = map (\<lambda>c. (peer c, build_heartbeat (c_id c)))
                     (filter (\<lambda>c. c_state c = Established) (hm_values (connections st)));
             st = st\<lparr>connections := hm_retain (\<lambda>_ c. now - last_activity c < TIMEOUT) (connections st)\<rparr>
         in (st, now, out))
      else (st, last_hb, []))"

section \<open>Frames on a TCP stream\<close>

lemma read_frames_frame:
  assumes "0 < length f" "length f \<le> MAX_PACKET + 4"
  shows "read_frames (tcp_frame f @ rest) = f # read_frames rest"
proof -
  have "(be_word (be_bytes 4 (of_nat (length f) :: u32)) :: u32) = of_nat (length f)"
    by (rule be_word_be_bytes) simp
  moreover have "unat (of_nat (length f) :: u32) = length f"
    using assms by (intro unat_of_nat_small) (simp add: MAX_PACKET_def HEADER_SIZE_def MAX_PAYLOAD_def)
  ultimately show ?thesis
    using assms by (subst read_frames.simps) (simp add: tcp_frame_def Let_def)
qed

text \<open>
  TCP framing: the read loop recovers exactly the frames that were written, in order, for
  any sequence of frames within the size limit.
\<close>

theorem read_frames_tcp_frames:
  assumes "\<forall>f \<in> set fs. 0 < length f \<and> length f \<le> MAX_PACKET + 4"
  shows "read_frames (concat (map tcp_frame fs)) = fs"
  using assms
proof (induction fs)
  case Nil
  show ?case by (simp add: read_frames.simps)
next
  case (Cons f fs)
  then show ?case by (simp add: read_frames_frame)
qed

theorem read_frames_tcp_frames_witness:
  "read_frames (concat (map tcp_frame [[1, 2], [3]])) = [[1, 2], [3]]"
  using read_frames_tcp_frames [of "[[1, 2], [3]]"] by (simp add: MAX_PACKET_def)

section \<open>The connection table\<close>

lemma control_step_frame:
  "connections (fst (control_step E m st)) = connections st
   \<and> rate_limiter (fst (control_step E m st)) = rate_limiter st"
  by (cases m) (simp_all add: control_step_def start_exec_def send_exec_cmd_def file_push_def
      file_chunk_def Let_def split: option.splits prod.splits)

lemma handle_control_frame:
  "connections (fst (handle_control E d cid psk sq st)) = connections st
   \<and> rate_limiter (fst (handle_control E d cid psk sq st)) = rate_limiter st"
  by (simp add: handle_control_def control_step_frame case_prod_unfold Let_def split: option.splits)

definition conns_ok :: "DaemonState \<Rightarrow> bool" where
  "conns_ok st \<longleftrightarrow> hm_ok (connections st) \<and> length (connections st) \<le> MAX_CONNECTIONS
     \<and> (\<forall>cid c. hm_get (connections st) cid = Some c \<longrightarrow> c_id c = cid \<and> c_state c = Established)"

lemma conns_ok_cong: "connections st' = connections st \<Longrightarrow> conns_ok st' = conns_ok st"
  by (simp add: conns_ok_def)

lemma conns_ok_set_conn:
  assumes "conns_ok st" "\<And>c. c_id (f c) = c_id c" "\<And>c. c_state c = Established \<Longrightarrow> c_state (f c) = Established"
  shows "conns_ok (set_conn cid f st)"
  using assms by (auto simp: conns_ok_def set_conn_def hm_get_modify split: if_splits)

lemma conns_ok_insert:
  assumes "conns_ok st" "length (connections st) < MAX_CONNECTIONS" "c_id c = cid" "c_state c = Established"
  shows "conns_ok (st\<lparr>connections := hm_insert cid c (connections st)\<rparr>)"
  using assms hm.len_insert_le [of "connections st" cid c] by (auto simp: conns_ok_def)

lemma conns_ok_remove: "conns_ok st \<Longrightarrow> conns_ok (st\<lparr>connections := hm_remove cid (connections st)\<rparr>)"
  using hm.len_remove_le [of "connections st" cid] by (auto simp: conns_ok_def)

lemma conns_ok_retain: "conns_ok st \<Longrightarrow> conns_ok (st\<lparr>connections := hm_retain P (connections st)\<rparr>)"
  using hm.len_retain_le [of "connections st" P]
  by (auto simp: conns_ok_def hm_get_retain split: option.splits if_splits)

lemma connection_new_simps [simp]:
  "c_id (connection_new now i p) = i" "peer (connection_new now i p) = p"
  "ctrl_seq (connection_new now i p) = 0"
  by (simp_all add: connection_new_def)

lemma conns_ok_packet:
  assumes "conns_ok st"
  shows "conns_ok (fst (handle_packet_inner E now psk dat from st))"
proof (cases "decode dat")
  case (Some hr)
  obtain h r where hr: "hr = (h, r)" by force
  have cong: "conns_ok (x\<lparr>rate_limiter := y\<rparr>) = conns_ok x" for x y
    by (rule conns_ok_cong) simp
  show ?thesis
  proof (cases "pkt_type h")
    case Syn
    with assms Some hr show ?thesis
      by (auto simp: handle_packet_inner_def case_prod_unfold Let_def cong
          intro!: conns_ok_insert [where st = "_\<lparr>rate_limiter := _\<rparr>", simplified] split: option.splits)
  next
    case Data
    have hc: "conns_ok (fst (handle_control E p c k s x)) = conns_ok x" for p c k s x
      by (rule conns_ok_cong) (simp add: handle_control_frame)
    from assms Some hr Data show ?thesis
      by (auto simp: handle_packet_inner_def case_prod_unfold Let_def cong hc
          intro!: conns_ok_set_conn split: option.splits)
  qed (use assms Some hr in \<open>auto simp: handle_packet_inner_def Let_def
      intro!: conns_ok_set_conn conns_ok_remove split: option.splits\<close>)
qed (use assms in \<open>simp add: handle_packet_inner_def\<close>)

lemma conns_ok_tick: "conns_ok st \<Longrightarrow> conns_ok (fst (heartbeat_tick now t0 st))"
  using conns_ok_cong [of "st\<lparr>rate_limiter := rate_gc now (rate_limiter st)\<rparr>" st]
    conns_ok_retain [of "st\<lparr>rate_limiter := rate_gc now (rate_limiter st)\<rparr>"]
  by (simp add: heartbeat_tick_def Let_def)

inductive daemon_step :: "daemon_env \<Rightarrow> Psk \<Rightarrow> DaemonState \<Rightarrow> DaemonState \<Rightarrow> bool" for E psk where
  step_packet: "daemon_step E psk st (fst (handle_packet_inner E now psk dat from st))"
| step_tick: "daemon_step E psk st (fst (heartbeat_tick now last_hb st))"

inductive daemon_reachable :: "daemon_env \<Rightarrow> Psk \<Rightarrow> DaemonState \<Rightarrow> bool" for E psk where
  daemon_start: "daemon_reachable E psk daemon_new"
| daemon_next: "daemon_reachable E psk st \<Longrightarrow> daemon_step E psk st st' \<Longrightarrow> daemon_reachable E psk st'"

inductive_cases daemon_stepE: "daemon_step E psk st st'"

lemma daemon_reachable_ok: "daemon_reachable E psk st \<Longrightarrow> conns_ok st"
proof (induction rule: daemon_reachable.induct)
  case daemon_start
  show ?case by (simp add: conns_ok_def daemon_new_def)
next
  case (daemon_next st st')
  then show ?case by (auto elim!: daemon_stepE simp: conns_ok_packet conns_ok_tick)
qed

text \<open>
  C27. Whatever packets the daemon receives over UDP from whomever, and whenever its heartbeat
  ticks, its table never holds more than \<open>MAX_CONNECTIONS\<close> connections, each stored under
  its own id and established.
\<close>

theorem daemon_connection_table_safe:
  assumes "daemon_reachable E psk st"
  shows "length (connections st) \<le> 100
    \<and> (\<forall>cid c. hm_get (connections st) cid = Some c \<longrightarrow> c_id c = cid \<and> c_state c = Established)"
  using daemon_reachable_ok [OF assms] by (simp add: conns_ok_def MAX_CONNECTIONS_def)

text \<open>A concrete environment: a cipher that appends 16 zero bytes, a bincode that knows one message.\<close>

definition demo_env :: daemon_env where
  "demo_env = \<lparr>env_aead = demo_aead, env_ser = (\<lambda>_. [1]),
     env_deser = (\<lambda>b. if b = [1] then Some (Hello 1 []) else None),
     env_spawn = (\<lambda>_. True), env_native = (\<lambda>_. ([], Some 0)), env_open = (\<lambda>_. True),
     env_write = (\<lambda>_ _ _. True)\<rparr>"

lemma demo_syn: "handle_packet_inner demo_env now psk (build_syn cid) from daemon_new =
  (daemon_new\<lparr>connections := [(cid, (connection_new now cid from)\<lparr>c_state := Established\<rparr>)],
     rate_limiter := \<lparr>syn_counts = [(fst from, now, 1)], cmd_counts = []\<rparr>\<rparr>,
   [(from, build_syn_ack cid)])"
  by (simp add: handle_packet_inner_def decode_build_syn daemon_new_def check_syn_def
      rate_limiter_new_def Let_def hm_insert_def MAX_CONNECTIONS_def SYN_RATE_LIMIT_def)

theorem daemon_connection_table_safe_witness:
  "length (connections (fst (handle_packet_inner demo_env 0 [] (build_syn 7) (V4 1, 9) daemon_new))) \<le> 100"
  using daemon_connection_table_safe
    [OF daemon_next [OF daemon_start step_packet, of demo_env "[]" 0 "build_syn 7" "(V4 1, 9)"]]
  by blast

text \<open>
  Only authenticated data counts: a data packet whose ciphertext does not verify under the
  pre-shared key, or whose connection is not established with exactly the sending peer, changes
  nothing and is answered by nothing.
\<close>

theorem unauthenticated_data_ignored:
  assumes "decode dat = Some (h, r)" "pkt_type h = Data"
    and "decrypt (env_aead E) psk (nonce h) (drop HEADER_SIZE dat) = None
      \<or> (\<forall>c. hm_get (connections st) (conn_id h) = Some c \<longrightarrow> c_state c \<noteq> Established \<or> peer c \<noteq> from)"
  shows "handle_packet_inner E now psk dat from st = (st, [])"
  using assms by (auto simp: handle_packet_inner_def Let_def split: option.splits)

theorem unauthenticated_data_ignored_witness:
  "handle_packet_inner demo_env 0 [] (build_data 7 0 0 0 [1, 2]) (V4 1, 9) daemon_new = (daemon_new, [])"
proof -
  have "decode (build_data 7 0 0 0 [1, 2]) = Some (\<lparr>conn_id = 7, pkt_type = Data, flags = 0,
      stream_id = 0, seq = 0, ack_seq = 0, ack_bitmap = 0, payload_len = 2, nonce = replicate 12 0\<rparr>, [1, 2])"
    by (simp add: build_data_def codec_simps header_ok_def)
  from unauthenticated_data_ignored [OF this, of demo_env "[]" daemon_new "(V4 1, 9)" 0]
  show ?thesis by (simp add: daemon_new_def)
qed

text \<open>
  A reset is not authenticated: a packet of type \<open>Rst\<close> from any address whatsoever, with
  no valid ciphertext, removes the connection it names.
\<close>

theorem rst_from_anyone_closes:
  assumes "decode dat = Some (h, r)" "pkt_type h = Rst"
  shows "hm_get (connections (fst (handle_packet_inner E now psk dat from st))) (conn_id h) = None"
  using assms by (simp add: handle_packet_inner_def Let_def)

theorem rst_from_anyone_closes_witness:
  "let st = fst (handle_packet_inner demo_env 0 [] (build_syn 7) (V4 1, 9) daemon_new);
       rst = encode \<lparr>conn_id = 7, pkt_type = Rst, flags = 0, stream_id = 0, seq = 0, ack_seq = 0,
               ack_bitmap = 0, payload_len = 0, nonce = replicate 12 0\<rparr> []
   in hm_get (connections st) 7 \<noteq> None
      \<and> hm_get (connections (fst (handle_packet_inner demo_env 0 [] rst (V4 66, 6) st))) 7 = None"
proof -
  let ?h = "\<lparr>conn_id = 7, pkt_type = Rst, flags = 0, stream_id = 0, seq = 0, ack_seq = 0,
               ack_bitmap = 0, payload_len = 0, nonce = replicate 12 0\<rparr>"
  have "decode (encode ?h []) = Some (?h, [])"
    by (rule decode_nil_append) (simp add: header_ok_def)
  from rst_from_anyone_closes [OF this] show ?thesis
    by (simp add: demo_syn Let_def)
qed

text \<open>
  The heartbeat tick: once the interval has passed, every connection gets one heartbeat
  packet, and exactly the connections that were active within the last 30 seconds stay.
\<close>

theorem heartbeat_tick_prunes:
  assumes "daemon_reachable E psk st" and "now - last_hb \<ge> HEARTBEAT_INTERVAL"
  shows "snd (snd (heartbeat_tick now last_hb st))
      = map (\<lambda>(cid, c). (peer c, build_heartbeat cid)) (connections st)
    \<and> hm_get (connections (fst (heartbeat_tick now last_hb st))) cid =
      (case hm_get (connections st) cid of None \<Rightarrow> None
       | Some c \<Rightarrow> if now - last_activity c < 30000 then Some c else None)"
proof
  have ok: "conns_ok st" by (rule daemon_reachable_ok [OF assms(1)])
  then have "c_id c = i \<and> c_state c = Established" if "(i, c) \<in> set (connections st)" for i c
    using that by (auto simp: conns_ok_def hm_mem_get)
  then have "filter (\<lambda>c. c_state c = Established) (map snd (connections st)) = map snd (connections st)"
    and "map (\<lambda>c. (peer c, build_heartbeat (c_id c))) (map snd (connections st))
      = map (\<lambda>(cid, c). (peer c, build_heartbeat cid)) (connections st)"
    by (auto simp: filter_id_conv)
  with assms(2) show "snd (snd (heartbeat_tick now last_hb st)) = map (\<lambda>(cid, c). (peer c, build_heartbeat cid)) (connections st)"
    by (simp add: heartbeat_tick_def Let_def hm_values_def)
  show "hm_get (connections (fst (heartbeat_tick now last_hb st))) cid =
      (case hm_get (connections st) cid of None \<Rightarrow> None
       | Some c \<Rightarrow> if now - last_activity c < 30000 then Some c else None)"
    using assms(2) ok by (simp add: heartbeat_tick_def Let_def hm_get_retain conns_ok_def TIMEOUT_def)
qed

theorem heartbeat_tick_prunes_witness:
  "snd (snd (heartbeat_tick 5000 0 (fst (handle_packet_inner demo_env 0 [] (build_syn 7) (V4 1, 9) daemon_new))))
     = [((V4 1, 9), build_heartbeat 7)]"
proof -
  have "daemon_reachable demo_env [] (fst (handle_packet_inner demo_env 0 [] (build_syn 7) (V4 1, 9) daemon_new))"
    by (rule daemon_next [OF daemon_start step_packet])
  from heartbeat_tick_prunes [OF this, of 5000 0] show ?thesis
    by (simp add: demo_syn HEARTBEAT_INTERVAL_def)
qed

section \<open>Nonces of the packets a daemon sends\<close>

text \<open>
  Everything that sends on a connection: its control messages and the tasks of its running
  commands, in any interleaving, sharing the connection's counter.
\<close>

datatype ConnEvent = OnControl bytes | OnTask u32 ExecEvent

fun conn_run :: "daemon_env \<Rightarrow> u64 \<Rightarrow> Psk \<Rightarrow> ConnEvent list \<Rightarrow> u64 \<Rightarrow> DaemonState \<Rightarrow> bytes list" where
  "conn_run E cid psk [] sq st = []"
| "conn_run E cid psk (OnControl d # evs) sq st =
     (let (st', sq', out) = handle_control E d cid psk sq st in out @ conn_run E cid psk evs sq' st')"
| "conn_run E cid psk (OnTask i ev # evs) sq st =
     (let (sq', out, _) = exec_task_turn E i cid psk ev sq in out @ conn_run E cid psk evs sq' st)"

definition packet_nonce :: "bytes \<Rightarrow> bytes" where
  "packet_nonce p = (case decode p of None \<Rightarrow> [] | Some (h, _) \<Rightarrow> nonce h)"

fun counter_nonces :: "u64 \<Rightarrow> u64 \<Rightarrow> nat \<Rightarrow> bytes list" where
  "counter_nonces cid sq 0 = []"
| "counter_nonces cid sq (Suc k) = make_nonce cid (ucast sq) # counter_nonces cid (sq + 1) k"

lemma length_counter_nonces [simp]: "length (counter_nonces cid sq k) = k"
  by (induction k arbitrary: sq) auto

lemma counter_nonces_append:
  "counter_nonces cid sq (j + k) = counter_nonces cid sq j @ counter_nonces cid (sq + of_nat j) k"
  by (induction j arbitrary: sq) (simp_all add: add.assoc)

lemma counter_nonces_nth:
  "i < k \<Longrightarrow> counter_nonces cid sq k ! i = make_nonce cid (ucast (sq + of_nat i))"
  by (induction k arbitrary: sq i) (auto simp: nth_Cons add.assoc split: nat.splits)

lemma subseq_distinct: "subseq xs ys \<Longrightarrow> distinct ys \<Longrightarrow> distinct xs"
  by (induction rule: list_emb.induct) (auto dest: list_emb_set)

lemma send_control_nonce:
  "subseq (map packet_nonce (send_control E cid psk sq m)) [make_nonce cid (ucast sq)]"
  by (simp add: send_control_def Let_def packet_nonce_def codec_simps split: option.splits)

lemma counter_nonces_distinct: "k \<le> 2 ^ 32 \<Longrightarrow> distinct (counter_nonces cid sq k)"
  by (simp add: distinct_conv_nth counter_nonces_nth make_nonce_inject ucast_counter
      of_nat_u32_inject)

text \<open>A step that moves the counter by \<open>k\<close> uses only the nonces of those \<open>k\<close> numbers.\<close>

definition uses_nonces :: "u64 \<Rightarrow> u64 \<Rightarrow> u64 \<Rightarrow> bytes list \<Rightarrow> nat \<Rightarrow> bool" where
  "uses_nonces cid sq sq' out k \<longleftrightarrow> sq' = sq + of_nat k
     \<and> subseq (map packet_nonce out) (counter_nonces cid sq k)"

lemma uses_nonces_append:
  "uses_nonces cid sq sq1 out1 j \<Longrightarrow> uses_nonces cid sq1 sq2 out2 k \<Longrightarrow>
     uses_nonces cid sq sq2 (out1 @ out2) (j + k)"
  by (auto simp: uses_nonces_def counter_nonces_append add.assoc intro: list_emb_append_mono)

lemma send_replies_nonces:
  "uses_nonces cid sq (fst (send_replies (send_control E cid psk) sq ms))
     (snd (send_replies (send_control E cid psk) sq ms)) (length ms)"
proof (induction ms arbitrary: sq)
  case (Cons m ms)
  have "uses_nonces cid sq (sq + 1) (send_control E cid psk sq m) 1"
    using send_control_nonce [of E cid psk sq m] by (simp add: uses_nonces_def)
  from uses_nonces_append [OF this Cons.IH [of "sq + 1"]] show ?case
    by (simp add: case_prod_unfold Let_def)
qed (simp add: uses_nonces_def)

lemma control_step_replies: "length (snd (control_step E m st)) \<le> 2"
  by (cases m) (simp_all add: control_step_def start_exec_def file_push_def
      file_chunk_def Let_def split: option.splits prod.splits)

lemma handle_control_nonces:
  "handle_control E d cid psk sq st = (st', sq', out) \<Longrightarrow> \<exists>k \<le> 2. uses_nonces cid sq sq' out k"
proof (cases "env_deser E d")
  case (Some m)
  assume h: "handle_control E d cid psk sq st = (st', sq', out)"
  let ?rs = "snd (control_step E m st)"
  from h Some have "(sq', out) = send_replies (send_control E cid psk) sq ?rs"
    by (simp add: handle_control_def case_prod_unfold Let_def)
  then show ?thesis
    using send_replies_nonces [of cid sq E psk ?rs] control_step_replies [of E m st]
    by (metis fst_conv snd_conv)
qed (auto simp: handle_control_def uses_nonces_def intro: exI [of _ 0])

lemma exec_task_turn_nonces:
  "exec_task_turn E i cid psk ev sq = (sq', out, r) \<Longrightarrow> \<exists>k \<le> 2. uses_nonces cid sq sq' out k"
proof -
  assume h: "exec_task_turn E i cid psk ev sq = (sq', out, r)"
  have "uses_nonces cid sq (sq + 1) (send_control E cid psk sq m) 1" for m
    using send_control_nonce [of E cid psk sq m] by (simp add: uses_nonces_def)
  moreover have "uses_nonces cid sq sq [] 0" by (simp add: uses_nonces_def)
  ultimately show ?thesis
    using h by (auto simp: exec_task_turn_def intro: exI [of _ 1] exI [of _ 0]
        split: ExecEvent.splits option.splits ExecCmd.splits)
qed

lemma conn_run_nonces:
  "\<exists>k \<le> 2 * length evs. subseq (map packet_nonce (conn_run E cid psk evs sq st)) (counter_nonces cid sq k)"
proof (induction E cid psk evs sq st rule: conn_run.induct)
  case (2 E cid psk d evs sq st)
  obtain st' sq' out where h: "handle_control E d cid psk sq st = (st', sq', out)" by (metis prod_cases3)
  from handle_control_nonces [OF h] obtain j where j: "j \<le> 2" "uses_nonces cid sq sq' out j" by blast
  from "2.IH" [OF h [symmetric] refl refl] obtain k where
    k: "k \<le> 2 * length evs" "subseq (map packet_nonce (conn_run E cid psk evs sq' st')) (counter_nonces cid sq' k)"
    by blast
  from j k h show ?case
    by (intro exI [of _ "j + k"]) (auto simp: uses_nonces_def counter_nonces_append intro: list_emb_append_mono)
next
  case (3 E cid psk i ev evs sq st)
  obtain sq' out r where h: "exec_task_turn E i cid psk ev sq = (sq', out, r)" by (metis prod_cases3)
  from exec_task_turn_nonces [OF h] obtain j where j: "j \<le> 2" "uses_nonces cid sq sq' out j" by blast
  from "3.IH" [OF h [symmetric] refl] obtain k where
    k: "k \<le> 2 * length evs" "subseq (map packet_nonce (conn_run E cid psk evs sq' st)) (counter_nonces cid sq' k)"
    by (metis prod.collapse)
  from j k h show ?case
    by (intro exI [of _ "j + k"]) (auto simp: uses_nonces_def counter_nonces_append case_prod_unfold intro: list_emb_append_mono)
qed auto



end
