(* ===== verification/Client.thy ===== *)
theory Client
  imports Daemon
begin

text \<open>
  The command-line client, \<^verbatim>\<open>crates/ctl/src/main.rs\<close>: the encrypted control channel (\<open>Ctx\<close>),
  waiting for a command's output (\<open>drain_exec\<close>) and pushing a file with retries
  (\<open>cmd_push\<close>). Together with the daemon's theory this gives the end-to-end results: a
  control message reaches the other side unchanged, and a pushed file is reassembled. A
  panic of the source (\<^verbatim>\<open>expect\<close>) is the value \<open>None\<close>.
\<close>

definition CHUNK_SIZE :: nat where
  "CHUNK_SIZE = 1024"

datatype ctl_error = BadPacket | NotAcked nat | Elapsed | IoError | BadKey | NoDaemon

record Ctx =
  ctx_remote :: SocketAddr
  ctx_psk :: Psk
  ctx_conn_id :: u64
  ctx_seq :: u32
  ctx_tcp :: bool

definition ctl_encode_packet ::
  "u64 \<Rightarrow> PacketType \<Rightarrow> u16 \<Rightarrow> u32 \<Rightarrow> Flags \<Rightarrow> bytes \<Rightarrow> bytes \<Rightarrow> bytes" where
  "ctl_encode_packet cid pt sid sq fl payload non =
     encode \<lparr>conn_id = cid, pkt_type = pt, flags = fl, stream_id = sid, seq = sq, ack_seq = 0,
             ack_bitmap = 0, payload_len = of_nat (length payload), nonce = non\<rparr> [] @ payload"

definition encode_control :: "daemon_env \<Rightarrow> u64 \<Rightarrow> Psk \<Rightarrow> u32 \<Rightarrow> ControlMsg \<Rightarrow> bytes option" where
  "encode_control E cid psk sq msg =
     (let payload = env_ser E msg; non = make_nonce cid sq
      in map_option (\<lambda>encrypted. ctl_encode_packet cid Data (stream_as_u16 Control) sq FLAG_RELIABLE
             encrypted non) (encrypt (env_aead E) psk non payload))"

definition parse_packet :: "bytes \<Rightarrow> (PacketHeader \<times> bytes) option" where
  "parse_packet dat =
     (case decode dat of None \<Rightarrow> None | Some (h, _) \<Rightarrow> Some (h, drop HEADER_SIZE dat))"

text \<open>\<open>Ctx::send_control\<close>: the packet (framed on a TCP stream) and the advanced counter.\<close>

definition ctx_send_control :: "daemon_env \<Rightarrow> ControlMsg \<Rightarrow> Ctx \<Rightarrow> Ctx \<times> bytes option" where
  "ctx_send_control E msg ctx =
     (let sq = ctx_seq ctx + 1;
          pkt = encode_control E (ctx_conn_id ctx) (ctx_psk ctx) sq msg
      in (ctx\<lparr>ctx_seq := sq\<rparr>, if ctx_tcp ctx then map_option tcp_frame pkt else pkt))"

text \<open>A datagram longer than the receive buffer is cut to \<open>MAX_PACKET\<close> bytes by the socket.\<close>

definition recv_parsed :: "bytes \<Rightarrow> (ctl_error, PacketHeader \<times> bytes) result" where
  "recv_parsed datagram =
     and_then (ok_or BadPacket (parse_packet (take MAX_PACKET datagram)))
       (\<lambda>(hdr, ct). let end = min (unat (payload_len hdr)) (length ct) in Inr (hdr, take end ct))"

definition recv_control_udp :: "daemon_env \<Rightarrow> Psk \<Rightarrow> bytes \<Rightarrow> (ctl_error, ControlMsg option) result" where
  "recv_control_udp E psk datagram =
     and_then (recv_parsed datagram)
       (\<lambda>(hdr, dat).
          if pkt_type hdr \<noteq> Data \<or> dat = [] then Inr None
          else case decrypt (env_aead E) psk (nonce hdr) dat of
                 Some plain \<Rightarrow> Inr (env_deser E plain)
               | None \<Rightarrow> Inr None)"

text \<open>The same on a frame read from the TCP stream.\<close>

definition recv_control_tcp :: "daemon_env \<Rightarrow> Psk \<Rightarrow> bytes \<Rightarrow> (ctl_error, ControlMsg option) result" where
  "recv_control_tcp E psk frame =
     (case decode frame of
        None \<Rightarrow> Inr None
      | Some (hdr, _) \<Rightarrow>
          if pkt_type hdr \<noteq> Data then Inr None
          else
            let ct = drop HEADER_SIZE frame;
                end = min (unat (payload_len hdr)) (length ct)
            in case decrypt (env_aead E) psk (nonce hdr) (take end ct) of
                 Some plain \<Rightarrow> Inr (env_deser E plain)
               | None \<Rightarrow> Inr None)"

text \<open>
  A frame from the stream, whose bytes before it ends or the time is over are given, and the bytes
  left. A length that does not arrive is no frame; a body cut short is an error.
\<close>

definition tcp_read_frame :: "bytes \<Rightarrow> (ctl_error, bytes option) result \<times> bytes" where
  "tcp_read_frame bs =
     (if length bs < 4 then (Inr None, [])
      else let frame_len = unat (be_word (take 4 bs) :: u32); rest = drop 4 bs
           in if frame_len = 0 \<or> frame_len > 65536 then (Inr None, rest)
              else if length rest < frame_len then (Inl IoError, [])
              else (Inr (Some (take frame_len rest)), drop frame_len rest))"

section \<open>Waiting for a command\<close>

text \<open>
  \<open>drain_exec\<close> over what is received until the deadline (the end of the list): the writes
  to the client's standard output (\<open>False\<close>) and error stream, the exit code, and the
  signals sent to the daemon when the deadline passed.
\<close>

fun drain_exec ::
  "u32 \<Rightarrow> ControlMsg option list \<Rightarrow> (bool \<times> bytes) list \<times> u32 option \<times> ControlMsg list" where
  "drain_exec i [] = ([], None, [ExecSignal i 15, ExecSignal i 9])"
| "drain_exec i (m # ms) =
     (case m of
        Some (ExecChunk j stream chunk) \<Rightarrow>
          if j = i then (let (out, r) = drain_exec i ms in ((stream = 1, chunk) # out, r))
          else drain_exec i ms
      | Some (ExecDone j code) \<Rightarrow>
          if j = i then ([], code, []) else drain_exec i ms
      | _ \<Rightarrow> drain_exec i ms)"

section \<open>Pushing a file\<close>

text \<open>
  What the client receives is the oracle \<open>acks\<close>: the messages that arrive before the deadline
  of a given attempt at a given offset.
\<close>

definition chunk_acked :: "u32 \<Rightarrow> nat \<Rightarrow> ControlMsg list \<Rightarrow> bool" where
  "chunk_acked i end msgs =
     list_ex (\<lambda>m. case m of FileAck j off \<Rightarrow> j = i \<and> unat off \<ge> end | _ \<Rightarrow> False) msgs"

text \<open>The retry loop \<^verbatim>\<open>for retry in 0..4\<close>, from attempt \<open>retry\<close> with \<open>n\<close> attempts left.\<close>

fun push_attempts ::
  "(nat \<Rightarrow> nat \<Rightarrow> ControlMsg list) \<Rightarrow> u32 \<Rightarrow> nat \<Rightarrow> nat \<Rightarrow> ControlMsg \<Rightarrow> nat \<Rightarrow> nat
     \<Rightarrow> ControlMsg list \<times> bool" where
  "push_attempts acks i off end msg retry 0 = ([], False)"
| "push_attempts acks i off end msg retry (Suc n) =
     (if chunk_acked i end (acks off retry) then ([msg], True)
      else let (sent, ok) = push_attempts acks i off end msg (Suc retry) n in (msg # sent, ok))"

lemma push_attempts_numeral:
  "push_attempts acks i off end msg retry (numeral k) =
     (if chunk_acked i end (acks off retry) then ([msg], True)
      else let (sent, ok) = push_attempts acks i off end msg (Suc retry) (pred_numeral k)
           in (msg # sent, ok))"
  by (simp add: numeral_eq_Suc)

function push_loop ::
  "(nat \<Rightarrow> nat \<Rightarrow> ControlMsg list) \<Rightarrow> u32 \<Rightarrow> bytes \<Rightarrow> nat \<Rightarrow> ControlMsg list \<times> (ctl_error, unit) result" where
  "push_loop acks i dat off =
     (if off < length dat then
        let end = min (off + CHUNK_SIZE) (length dat);
            msg = FileChunk i (of_nat off) (take (end - off) (drop off dat));
            (sent, ok) = push_attempts acks i off end msg 0 4
        in if \<not> ok then (sent, Inl (NotAcked off))
           else let (rest, r) = push_loop acks i dat end in (sent @ rest, r)
      else ([], Inr ()))"
  by pat_completeness auto
termination
  by (relation "measure (\<lambda>(acks, i, dat, off). length dat - off)") (auto simp: CHUNK_SIZE_def)

declare push_loop.simps [simp del]

definition cmd_push ::
  "(nat \<Rightarrow> nat \<Rightarrow> ControlMsg list) \<Rightarrow> u32 \<Rightarrow> string \<Rightarrow> bytes \<Rightarrow> ControlMsg list \<times> (ctl_error, unit) result" where
  "cmd_push acks i remote dat =
     (let (sent, r) = push_loop acks i dat 0
      in (FilePush i remote (of_nat (length dat)) # sent, r))"

section \<open>Control messages end to end\<close>

lemma encode_control_eq:
  "encode_control E cid psk sq msg =
     map_option (\<lambda>ct. build_encrypted_data cid 0 sq FLAG_RELIABLE ct (make_nonce cid sq))
       (encrypt (env_aead E) psk (make_nonce cid sq) (env_ser E msg))"
  by (simp add: encode_control_def ctl_encode_packet_def build_encrypted_data_def Let_def)

lemma length_ciphertext:
  "aead_correct A \<Longrightarrow> encrypt A k n p = Some c \<Longrightarrow> length c = length p + 16 \<and> decrypt A k n c = Some p"
  by (auto simp: aead_correct_def encrypt_def decrypt_def)

lemma parse_build_encrypted:
  "length non = 12 \<Longrightarrow> parse_packet (build_encrypted_data cid sid sq fl ct non) =
     Some (\<lparr>conn_id = cid, pkt_type = Data, flags = fl, stream_id = sid, seq = sq, ack_seq = 0,
       ack_bitmap = 0, payload_len = of_nat (length ct), nonce = non\<rparr>, ct)"
  by (simp add: parse_packet_def codec_simps)

lemma daemon_packet_received:
  assumes "aead_correct (env_aead E)" and "env_deser E (env_ser E m) = Some m"
    and "length (env_ser E m) \<le> MAX_PAYLOAD"
    and "send_control E cid psk sq m = [pkt]"
  shows "recv_control_udp E psk pkt = Inr (Some m)"
proof -
  let ?n = "make_nonce cid (ucast sq)"
  obtain ct where ct: "encrypt (env_aead E) psk ?n (env_ser E m) = Some ct"
    and pkt: "pkt = build_encrypted_data cid 0 (ucast sq) FLAG_RELIABLE ct ?n"
    using assms(4) by (auto simp: send_control_def Let_def split: option.splits)
  from length_ciphertext [OF assms(1) ct]
  have len: "length ct = length (env_ser E m) + 16" and dec: "decrypt (env_aead E) psk ?n ct = Some (env_ser E m)"
    by auto
  have "length pkt \<le> MAX_PACKET"
    using assms(3) len by (simp add: pkt length_build_encrypted MAX_PACKET_def)
  moreover have "unat (of_nat (length ct) :: u16) = length ct"
    using assms(3) len by (intro unat_of_nat_small) (simp add: MAX_PAYLOAD_def)
  ultimately have "recv_parsed pkt = Inr (\<lparr>conn_id = cid, pkt_type = Data, flags = FLAG_RELIABLE,
      stream_id = 0, seq = ucast sq, ack_seq = 0, ack_bitmap = 0,
      payload_len = of_nat (length ct), nonce = ?n\<rparr>, ct)"
    by (simp add: recv_parsed_def pkt parse_build_encrypted Let_def)
  moreover have "ct \<noteq> []" using len by auto
  ultimately show ?thesis
    by (simp add: recv_control_udp_def dec assms(2))
qed

text \<open>
  C3. Daemon to client over UDP: whatever control message the daemon sends, if its
  serialised form is at most \<open>MAX_PAYLOAD\<close> (1400) bytes long the client receives exactly that
  message.
\<close>

theorem daemon_message_received:
  assumes "aead_correct (env_aead E)" and "env_deser E (env_ser E m) = Some m"
    and "length (env_ser E m) \<le> MAX_PAYLOAD"
    and "send_control E cid psk sq m = [pkt]"
  shows "recv_control_udp E psk pkt = Inr (Some m)"
  by (rule daemon_packet_received [OF assms])

theorem daemon_message_received_witness:
  "recv_control_udp demo_env [] (build_encrypted_data 7 0 0 FLAG_RELIABLE (1 # replicate 16 0) (make_nonce 7 0))
     = Inr (Some (Hello 1 []))"
proof -
  have "send_control demo_env 7 [] 0 (Hello 1 [])
      = [build_encrypted_data 7 0 0 FLAG_RELIABLE (1 # replicate 16 0) (make_nonce 7 0)]"
    by (simp add: send_control_def demo_env_def demo_aead_def encrypt_def)
  from daemon_message_received [OF _ _ _ this] show ?thesis
    using demo_aead_correct by (simp add: demo_env_def MAX_PAYLOAD_def)
qed

text \<open>
  The 1400-byte bound is sharp: the daemon does not fragment, and of a message whose
  serialised form is longer the client hands only the first 1416 bytes of the ciphertext to
  the cipher.
\<close>

theorem oversized_message_truncated:
  assumes "aead_correct (env_aead E)" and "MAX_PAYLOAD < length (env_ser E m)"
    and "length (env_ser E m) < 2 ^ 16 - 16"
    and "send_control E cid psk sq m = [pkt]"
  shows "\<exists>h ct. encrypt (env_aead E) psk (make_nonce cid (ucast sq)) (env_ser E m) = Some ct
    \<and> recv_parsed pkt = Inr (h, take 1416 ct) \<and> 1416 < length ct"
proof -
  let ?n = "make_nonce cid (ucast sq)"
  obtain ct where ct: "encrypt (env_aead E) psk ?n (env_ser E m) = Some ct"
    and pkt: "pkt = build_encrypted_data cid 0 (ucast sq) FLAG_RELIABLE ct ?n"
    using assms(4) by (auto simp: send_control_def Let_def split: option.splits)
  have len: "length ct = length (env_ser E m) + 16"
    using length_ciphertext [OF assms(1) ct] by simp
  have "take MAX_PACKET pkt = encode \<lparr>conn_id = cid, pkt_type = Data, flags = FLAG_RELIABLE,
      stream_id = 0, seq = ucast sq, ack_seq = 0, ack_bitmap = 0,
      payload_len = of_nat (length ct), nonce = ?n\<rparr> [] @ take 1416 ct" (is "_ = encode ?h [] @ _")
    by (simp add: pkt build_encrypted_data_def length_encode header_ok_def MAX_PACKET_def HEADER_SIZE_def
        MAX_PAYLOAD_def)
  then have "parse_packet (take MAX_PACKET pkt) = Some (?h, take 1416 ct)"
    by (simp add: parse_packet_def codec_simps header_ok_def length_encode)
  moreover have "unat (of_nat (length ct) :: u16) = length ct"
    using assms(3) len by (intro unat_of_nat_small) simp
  ultimately have "recv_parsed pkt = Inr (?h, take 1416 ct)"
    using len assms(2) by (simp add: recv_parsed_def Let_def MAX_PAYLOAD_def min_def)
  with ct len assms(2) show ?thesis by (auto simp: MAX_PAYLOAD_def)
qed

theorem oversized_message_truncated_witness:
  "\<exists>h ct. recv_parsed (build_encrypted_data 7 0 0 FLAG_RELIABLE (replicate 1401 1 @ replicate 16 0) (make_nonce 7 0))
     = Inr (h, take 1416 ct) \<and> 1416 < length ct"
proof -
  let ?E = "demo_env\<lparr>env_ser := \<lambda>_. replicate 1401 1\<rparr>"
  have "send_control ?E 7 [] 0 (Hello 1 [])
      = [build_encrypted_data 7 0 0 FLAG_RELIABLE (replicate 1401 1 @ replicate 16 0) (make_nonce 7 0)]"
    by (simp add: send_control_def demo_env_def demo_aead_def encrypt_def)
  from oversized_message_truncated [OF _ _ _ this] show ?thesis
    using demo_aead_correct by (auto simp: demo_env_def MAX_PAYLOAD_def)
qed

lemma client_packet_handled:
  assumes "aead_correct (env_aead E)" and "env_deser E (env_ser E m) = Some m"
    and "encode_control E cid psk sq m = Some pkt"
    and "hm_get (connections st) cid = Some conn" "c_state conn = Established" "peer conn = from"
    and "snd (check_cmd now (fst from) (rate_limiter st))"
    and "handle_packet_inner E now psk pkt from st = (st', out)"
  shows "exec_map st' = exec_map (fst (control_step E m st))
    \<and> files st' = files (fst (control_step E m st))
    \<and> file_transfers st' = file_transfers (fst (control_step E m st))
    \<and> map snd out = snd (send_replies (send_control E cid psk) (ctrl_seq conn) (snd (control_step E m st)))"
proof -
  let ?n = "make_nonce cid sq"
  obtain ct where ct: "encrypt (env_aead E) psk ?n (env_ser E m) = Some ct"
    and pkt: "pkt = build_encrypted_data cid 0 sq FLAG_RELIABLE ct ?n"
    using assms(3) by (auto simp: encode_control_eq)
  have dec: "decrypt (env_aead E) psk ?n ct = Some (env_ser E m)" and len: "length ct = length (env_ser E m) + 16"
    using length_ciphertext [OF assms(1) ct] by auto
  have "\<not> length pkt \<le> HEADER_SIZE"
    using len by (simp add: pkt length_build_encrypted)
  moreover have "decode pkt = Some (\<lparr>conn_id = cid, pkt_type = Data, flags = FLAG_RELIABLE,
      stream_id = 0, seq = sq, ack_seq = 0, ack_bitmap = 0, payload_len = of_nat (length ct), nonce = ?n\<rparr>, ct)"
    by (simp add: pkt codec_simps)
  moreover have "drop HEADER_SIZE pkt = ct" by (simp add: pkt)
  moreover have "rate_limiter (set_conn cid f st) = rate_limiter st" for f by (simp add: set_conn_def)
  moreover have step: "exec_map (fst (control_step E m (set_conn cid f st\<lparr>rate_limiter := r\<rparr>))) = exec_map (fst (control_step E m st))
      \<and> files (fst (control_step E m (set_conn cid f st\<lparr>rate_limiter := r\<rparr>))) = files (fst (control_step E m st))
      \<and> file_transfers (fst (control_step E m (set_conn cid f st\<lparr>rate_limiter := r\<rparr>))) = file_transfers (fst (control_step E m st))
      \<and> snd (control_step E m (set_conn cid f st\<lparr>rate_limiter := r\<rparr>)) = snd (control_step E m st)" for f r
    by (cases m) (simp_all add: control_step_def start_exec_def send_exec_cmd_def file_push_def
        file_chunk_def set_conn_def Let_def split: option.splits prod.splits)
  ultimately show ?thesis
    using assms(2,4-8) dec
    by (auto simp: handle_packet_inner_def handle_control_def case_prod_unfold Let_def comp_def set_conn_def)
qed


lemma demo_established:
  "connections (fst (handle_packet_inner demo_env now psk (build_syn cid) from daemon_new))
     = [(cid, (connection_new now cid from)\<lparr>c_state := Established\<rparr>)]"
  "rate_limiter (fst (handle_packet_inner demo_env now psk (build_syn cid) from daemon_new))
     = \<lparr>syn_counts = [(fst from, now, 1)], cmd_counts = []\<rparr>"
  by (simp_all add: demo_syn)


text \<open>
  The two directions of a connection share one nonce space: the client's first message and
  the second packet the daemon sends on the connection (counter value 1) are encrypted with
  the same key under the same nonce. In general the daemon's packet numbered \<open>n + 1\<close>
  repeats the nonce of the client's message sent from counter \<open>n\<close>.
\<close>

theorem nonce_shared_by_both_directions:
  assumes "ctx_send_control E m \<lparr>ctx_remote = a, ctx_psk = psk, ctx_conn_id = cid, ctx_seq = ucast n,
      ctx_tcp = False\<rparr> = (ctx, Some p)"
    and "send_control E cid psk (n + 1) m' = [q]"
  shows "packet_nonce p = packet_nonce q"
proof -
  have "(ucast (n + 1) :: u32) = ucast n + 1" using ucast_counter [of n 1] by simp
  then show ?thesis
    using assms
    by (auto simp: ctx_send_control_def encode_control_eq send_control_def packet_nonce_def
        codec_simps Let_def split: option.splits)
qed

theorem nonce_shared_by_both_directions_witness:
  "packet_nonce (build_encrypted_data 7 0 1 FLAG_RELIABLE (1 # replicate 16 0) (make_nonce 7 1))
     = packet_nonce (build_encrypted_data 7 0 1 FLAG_RELIABLE (2 # replicate 16 0) (make_nonce 7 1))"
proof -
  let ?E = "demo_env\<lparr>env_ser := \<lambda>m. case m of Hello _ _ \<Rightarrow> [1] | _ \<Rightarrow> [2]\<rparr>"
  have "ctx_send_control ?E (Hello 1 []) \<lparr>ctx_remote = (V4 1, 9), ctx_psk = [], ctx_conn_id = 7,
      ctx_seq = ucast (0 :: u64), ctx_tcp = False\<rparr> = (\<lparr>ctx_remote = (V4 1, 9), ctx_psk = [], ctx_conn_id = 7,
      ctx_seq = 1, ctx_tcp = False\<rparr>,
      Some (build_encrypted_data 7 0 1 FLAG_RELIABLE (1 # replicate 16 0) (make_nonce 7 1)))"
    by (simp add: ctx_send_control_def encode_control_eq demo_env_def demo_aead_def encrypt_def)
  moreover have "send_control ?E 7 [] (0 + 1) (ExecDone 3 None)
      = [build_encrypted_data 7 0 1 FLAG_RELIABLE (2 # replicate 16 0) (make_nonce 7 1)]"
    by (simp add: send_control_def demo_env_def demo_aead_def encrypt_def)
  ultimately show ?thesis by (rule nonce_shared_by_both_directions)
qed

section \<open>A pushed file arrives\<close>

definition run_controls :: "daemon_env \<Rightarrow> ControlMsg list \<Rightarrow> DaemonState \<Rightarrow> DaemonState" where
  "run_controls E ms st = fold (\<lambda>m st. fst (control_step E m st)) ms st"

lemma run_controls_simps [simp]:
  "run_controls E [] st = st"
  "run_controls E (m # ms) st = run_controls E ms (fst (control_step E m st))"
  "run_controls E (ms @ ms') st = run_controls E ms' (run_controls E ms st)"
  by (simp_all add: run_controls_def)

definition env_disk_ok :: "daemon_env \<Rightarrow> bool" where
  "env_disk_ok E \<longleftrightarrow> (\<forall>p. env_open E p) \<and> (\<forall>p off d. env_write E p off d)"

text \<open>The first \<open>off\<close> bytes have arrived; the transfer is open while bytes are missing.\<close>

definition transfer_at :: "u32 \<Rightarrow> string \<Rightarrow> bytes \<Rightarrow> nat \<Rightarrow> DaemonState \<Rightarrow> bool" where
  "transfer_at i path dat off st \<longleftrightarrow>
     hm_get (files st) path = Some (take off dat)
     \<and> hm_get (file_transfers st) i =
         (if off < length dat \<or> off = 0 then Some (path, of_nat (length dat)) else None)"

lemma write_at_next:
  assumes "off < length dat" "off < e" "e \<le> length dat" "x = off \<or> x = e"
  shows "write_at off (take (e - off) (drop off dat)) (take x dat) = take e dat"
proof -
  have "take off (take x dat @ replicate (off - length (take x dat)) 0) = take off dat"
    using assms by (auto simp: min_def)
  moreover have "drop (off + length (take (e - off) (drop off dat))) (take x dat) = []"
    using assms by (auto simp: min_def)
  moreover have "take (e - off) (drop off dat) \<noteq> []" using assms by simp
  ultimately show ?thesis
    using assms take_add [of off "e - off" dat] by (simp add: write_at_def)
qed

lemma chunk_step:
  assumes "env_disk_ok E" "off < length dat" "off < e" "e \<le> length dat" "length dat < 2 ^ 64"
    and "transfer_at i path dat off st \<or> transfer_at i path dat e st"
  shows "transfer_at i path dat e
    (fst (control_step E (FileChunk i (of_nat off) (take (e - off) (drop off dat))) st))"
proof -
  define d where "d = take (e - off) (drop off dat)"
  have un: "unat (of_nat off :: u64) = off" "unat (of_nat (length dat) :: u64) = length dat"
      "unat (of_nat e :: u64) = e"
    using assms(2,4,5) by (auto intro!: unat_of_nat_small)
  have "length d = e - off" using assms by (simp add: d_def)
  then have ack: "(of_nat off :: u64) + of_nat (length d) = of_nat e"
    using assms(3) by (simp flip: of_nat_add)
  have fin: "(of_nat (length dat) :: u64) \<le> of_nat e \<longleftrightarrow> \<not> e < length dat"
    by (simp add: word_le_nat_alt un not_less)
  obtain x where x: "x = off \<or> x = e" "transfer_at i path dat x st" using assms(6) by blast
  have w: "write_at off d (take x dat) = take e dat"
    unfolding d_def by (rule write_at_next) (use assms x in auto)
  have "transfer_at i path dat e (fst (control_step E (FileChunk i (of_nat off) d) st))"
  proof (cases "x < length dat \<or> x = 0")
    case True
    then have "hm_get (file_transfers st) i = Some (path, of_nat (length dat))"
      and "hm_get (files st) path = Some (take x dat)"
      using x(2) by (simp_all add: transfer_at_def)
    then show ?thesis
      using assms(1,3) w un ack fin
      by (simp add: transfer_at_def control_step_def file_chunk_def env_disk_ok_def Let_def hm_get_modify)
  next
    case False
    with x assms(2,4) have "x = e" by auto
    with x(2) False show ?thesis
      by (simp add: transfer_at_def control_step_def file_chunk_def)
  qed
  then show ?thesis by (simp add: d_def)
qed

lemma push_attempts_step:
  assumes "env_disk_ok E" "off < length dat" "off < e" "e \<le> length dat" "length dat < 2 ^ 64"
    and "msg = FileChunk i (of_nat off) (take (e - off) (drop off dat))"
    and "push_attempts acks i off e msg retry n = (sent, True)"
    and "transfer_at i path dat off st \<or> transfer_at i path dat e st"
  shows "transfer_at i path dat e (run_controls E sent st)"
  using assms(7,8)
proof (induction n arbitrary: retry sent st)
  case (Suc n)
  note step = chunk_step [OF assms(1-5) Suc.prems(2), folded assms(6)]
  show ?case
  proof (cases "chunk_acked i e (acks off retry)")
    case True
    with Suc.prems step show ?thesis by auto
  next
    case False
    with Suc.prems(1) obtain sent' where sent': "sent = msg # sent'"
      "push_attempts acks i off e msg (Suc retry) n = (sent', True)"
      by (auto split: prod.splits)
    from Suc.IH [OF sent'(2)] step sent'(1) show ?thesis by simp
  qed
qed simp

lemma push_loop_step:
  "push_loop acks i dat off = (sent, Inr ()) \<Longrightarrow> env_disk_ok E \<Longrightarrow> length dat < 2 ^ 64 \<Longrightarrow>
     transfer_at i path dat off st \<Longrightarrow> off \<le> length dat \<Longrightarrow>
     transfer_at i path dat (length dat) (run_controls E sent st)"
proof (induction acks i dat off arbitrary: sent st rule: push_loop.induct [case_names step])
  case (step acks i dat off)
  show ?case
  proof (cases "off < length dat")
    case True
    let ?e = "min (off + CHUNK_SIZE) (length dat)"
    let ?msg = "FileChunk i (of_nat off) (take (?e - off) (drop off dat))"
    obtain s1 ok where att: "push_attempts acks i off ?e ?msg 0 4 = (s1, ok)" by force
    obtain s2 r where rest: "push_loop acks i dat ?e = (s2, r)" by force
    from step.prems(1) True att rest have ok: ok and sent: "sent = s1 @ s2" and r: "r = Inr ()"
      by (auto simp: push_loop.simps [of acks i dat off] Let_def split: if_splits)
    have e: "off < ?e" "?e \<le> length dat" using True by (auto simp: CHUNK_SIZE_def)
    have "transfer_at i path dat ?e (run_controls E s1 st)"
      by (rule push_attempts_step [OF step.prems(2) True e step.prems(3) refl])
         (use att ok step.prems(4) in auto)
    from step.IH [OF True refl refl att [symmetric] refl _ _ step.prems(2,3) this e(2)] rest ok r sent
    show ?thesis by simp
  next
    case False
    with step.prems show ?thesis by (simp add: push_loop.simps)
  qed
qed



text \<open>
  A lost final acknowledgement cannot be repaired: once the chunk that reaches the file's
  size was processed, repeating it changes nothing and is not answered, so the client's
  retries of that chunk all go unacknowledged.
\<close>

theorem final_chunk_retry_unanswered:
  assumes "hm_get (file_transfers st) i = Some (path, sz)" and "env_write E path off d"
    and "sz \<le> off + of_nat (length d)"
  shows "snd (control_step E (FileChunk i off d) st) = [FileAck i (off + of_nat (length d))]
    \<and> control_step E (FileChunk i off d) (fst (control_step E (FileChunk i off d) st))
      = (fst (control_step E (FileChunk i off d) st), [])"
  using assms by (simp add: control_step_def file_chunk_def Let_def)

theorem final_chunk_retry_unanswered_witness:
  "let st = fst (control_step demo_env (FilePush 5 ''f'' 3) daemon_new);
       st1 = fst (control_step demo_env (FileChunk 5 0 [1, 2, 3]) st)
   in snd (control_step demo_env (FileChunk 5 0 [1, 2, 3]) st1) = []"
  using final_chunk_retry_unanswered
    [of "fst (control_step demo_env (FilePush 5 ''f'' 3) daemon_new)" 5 "''f''" 3 demo_env 0 "[1, 2, 3]"]
  by (simp add: control_step_def file_push_def demo_env_def daemon_new_def)

end
