(* ===== verification/Reliable.thy ===== *)
theory Reliable
  imports Frame
begin

text \<open>
  The reliable layer, \<^verbatim>\<open>crates/protocol/src/reliable.rs\<close>: the sender's 32-packet window with
  selective acknowledgements and timed retransmission, and the receiver's reordering buffer.
  The sender's invariant (the window holds consecutive sequence numbers, at most 32) is kept
  by every operation; the receiver hands payloads to the application in order, without gap
  or repetition. Two theorems show where the layer falls short of selective repeat: the
  reordering buffer is drained from its wrong end, and the acknowledgements the receiver
  builds cannot confirm a packet whose own acknowledgement was lost.
\<close>

definition WINDOW_SIZE :: u32 where
  "WINDOW_SIZE = 32"

definition RTO :: nat where
  "RTO = 200"

definition MAX_RETRIES :: u32 where
  "MAX_RETRIES = 10"

section \<open>The sender\<close>

record SendSlot =
  slot_seq :: u32
  slot_data :: bytes
  sent_at :: instant
  retries :: u32
  acked :: bool

record ReliableSender =
  snd_conn_id :: u64
  snd_stream_id :: u16
  next_seq :: u32
  window_base :: u32
  slots :: "SendSlot list"

definition sender_new :: "u64 \<Rightarrow> u16 \<Rightarrow> ReliableSender" where
  "sender_new cid sid =
     \<lparr>snd_conn_id = cid, snd_stream_id = sid, next_seq = 0, window_base = 0, slots = []\<rparr>"

definition encode_packet :: "u64 \<Rightarrow> u16 \<Rightarrow> u32 \<Rightarrow> bytes \<Rightarrow> bytes" where
  "encode_packet cid sid sq payload =
     encode \<lparr>conn_id = cid, pkt_type = Data, flags = FLAG_RELIABLE, stream_id = sid, seq = sq,
             ack_seq = 0, ack_bitmap = 0, payload_len = of_nat (length payload),
             nonce = replicate 12 0\<rparr> [] @ payload"

definition send :: "instant \<Rightarrow> bytes \<Rightarrow> ReliableSender \<Rightarrow> ReliableSender \<times> bytes option" where
  "send now payload s =
     (if next_seq s - window_base s \<ge> WINDOW_SIZE then (s, None)
      else
        let sq = next_seq s;
            slot = \<lparr>slot_seq = sq, slot_data = payload, sent_at = now, retries = 0, acked = False\<rparr>
        in (s\<lparr>next_seq := next_seq s + 1, slots := slots s @ [slot]\<rparr>,
            Some (encode_packet (snd_conn_id s) (snd_stream_id s) sq payload)))"

text \<open>\<^verbatim>\<open>1u32.checked_shl(n).unwrap_or(0)\<close>.\<close>

definition shl_or_zero :: "u32 \<Rightarrow> u32" where
  "shl_or_zero n = (if n < 32 then push_bit (unat n) 1 else 0)"

definition ack_hits :: "u32 \<Rightarrow> u32 \<Rightarrow> u32 \<Rightarrow> bool" where
  "ack_hits aseq abm sq =
     (let dist = sq - aseq
      in dist = 0 \<or> dist \<le> WINDOW_SIZE \<and> (abm AND shl_or_zero (dist - 1)) \<noteq> 0)"

text \<open>The marking loop of \<open>on_ack\<close>: the updated slots and the newly acknowledged numbers.\<close>

fun mark_acked :: "u32 \<Rightarrow> u32 \<Rightarrow> SendSlot list \<Rightarrow> SendSlot list \<times> u32 list" where
  "mark_acked aseq abm [] = ([], [])"
| "mark_acked aseq abm (s # ss) =
     (let (ss', ns) = mark_acked aseq abm ss
      in if acked s then (s # ss', ns)
         else if ack_hits aseq abm (slot_seq s) then (s\<lparr>acked := True\<rparr> # ss', slot_seq s # ns)
         else (s # ss', ns))"

text \<open>The sliding loop of \<open>on_ack\<close>: pop acknowledged slots from the front.\<close>

fun slide :: "u32 \<Rightarrow> SendSlot list \<Rightarrow> u32 \<times> SendSlot list" where
  "slide base [] = (base, [])"
| "slide base (s # ss) = (if acked s then slide (base + 1) ss else (base, s # ss))"

definition on_ack :: "u32 \<Rightarrow> u32 \<Rightarrow> ReliableSender \<Rightarrow> ReliableSender \<times> u32 list" where
  "on_ack aseq abm s =
     (let (marked, newly) = mark_acked aseq abm (slots s);
          (base, rest) = slide (window_base s) marked
      in (s\<lparr>window_base := base, slots := rest\<rparr>, newly))"

fun retransmit_slots ::
  "instant \<Rightarrow> u64 \<Rightarrow> u16 \<Rightarrow> SendSlot list \<Rightarrow> SendSlot list \<times> (u64 \<times> u16 \<times> u32 \<times> bytes) list" where
  "retransmit_slots now cid sid [] = ([], [])"
| "retransmit_slots now cid sid (s # ss) =
     (let (ss', out) = retransmit_slots now cid sid ss
      in if acked s \<or> retries s \<ge> MAX_RETRIES then (s # ss', out)
         else if now - sent_at s \<ge> RTO
         then (s\<lparr>retries := retries s + 1, sent_at := now\<rparr> # ss',
               (cid, sid, slot_seq s, slot_data s) # out)
         else (s # ss', out))"

definition poll_retransmit ::
  "instant \<Rightarrow> ReliableSender \<Rightarrow> ReliableSender \<times> (u64 \<times> u16 \<times> u32 \<times> bytes) list" where
  "poll_retransmit now s =
     (let (ss, out) = retransmit_slots now (snd_conn_id s) (snd_stream_id s) (slots s)
      in (s\<lparr>slots := ss\<rparr>, out))"

section \<open>The receiver\<close>

record ReliableReceiver =
  rcv_stream_id :: u16
  next_expected :: u32
  ooo_buffer :: "(u32 \<times> bytes) list"
  last_ack_seq :: u32
  last_ack_bitmap :: u32

definition receiver_new :: "u16 \<Rightarrow> ReliableReceiver" where
  "receiver_new sid =
     \<lparr>rcv_stream_id = sid, next_expected = 0, ooo_buffer = [], last_ack_seq = 0,
      last_ack_bitmap = 0\<rparr>"

text \<open>The draining loop of \<open>deliver\<close>: pop from the front while it is the expected number.\<close>

fun drain :: "u32 \<Rightarrow> (u32 \<times> bytes) list \<Rightarrow> u32 \<times> (u32 \<times> bytes) list \<times> bytes list" where
  "drain n [] = (n, [], [])"
| "drain n ((s, d) # buf) =
     (if s = n then let (n', buf', out) = drain (n + 1) buf in (n', buf', d # out)
      else (n, (s, d) # buf, []))"

text \<open>\<^verbatim>\<open>iter().position(p).unwrap_or(len)\<close>.\<close>

fun position_or_len :: "('a \<Rightarrow> bool) \<Rightarrow> 'a list \<Rightarrow> nat" where
  "position_or_len p [] = 0"
| "position_or_len p (x # xs) = (if p x then 0 else Suc (position_or_len p xs))"

definition insert_ooo :: "u32 \<Rightarrow> u32 \<Rightarrow> bytes \<Rightarrow> (u32 \<times> bytes) list \<Rightarrow> (u32 \<times> bytes) list" where
  "insert_ooo sq dist payload buf =
     (let pos = position_or_len (\<lambda>(s, _). sq - s < dist) buf
      in if pos < length buf \<and> fst (buf ! pos) = sq then buf
         else take pos buf @ (sq, payload) # drop pos buf)"

definition deliver :: "u32 \<Rightarrow> bytes \<Rightarrow> ReliableReceiver \<Rightarrow> ReliableReceiver \<times> bytes list" where
  "deliver sq payload r =
     (let dist = sq - next_expected r
      in if dist = 0 then
           (let (n, buf, out) = drain (next_expected r + 1) (ooo_buffer r)
            in (r\<lparr>next_expected := n, ooo_buffer := buf\<rparr>, payload # out))
         else if dist \<le> WINDOW_SIZE then
           (r\<lparr>ooo_buffer := insert_ooo sq dist payload (ooo_buffer r)\<rparr>, [])
         else (r, []))"

definition ack_info :: "ReliableReceiver \<Rightarrow> u32 \<times> u32" where
  "ack_info r = (next_expected r - 1, last_ack_bitmap r)"

section \<open>The sender's window invariant\<close>

text \<open>\<open>k\<close> consecutive sequence numbers from \<open>n\<close>, with wrap-around.\<close>

fun seq_run :: "u32 \<Rightarrow> nat \<Rightarrow> u32 list" where
  "seq_run n 0 = []"
| "seq_run n (Suc k) = n # seq_run (n + 1) k"

lemma length_seq_run [simp]: "length (seq_run n k) = k"
  by (induction k arbitrary: n) auto

lemma seq_run_append: "seq_run n (j + k) = seq_run n j @ seq_run (n + of_nat j) k"
  by (induction j arbitrary: n) (simp_all add: add.assoc)

lemma seq_run_snoc: "seq_run n (Suc k) = seq_run n k @ [n + of_nat k]"
  using seq_run_append [of n k 1] by simp

definition sender_inv :: "ReliableSender \<Rightarrow> bool" where
  "sender_inv s \<longleftrightarrow> map slot_seq (slots s) = seq_run (window_base s) (length (slots s))
     \<and> next_seq s = window_base s + of_nat (length (slots s)) \<and> length (slots s) \<le> 32"

lemma sender_inv_new: "sender_inv (sender_new cid sid)"
  by (simp add: sender_inv_def sender_new_def)

lemma window_full_iff:
  assumes "sender_inv s"
  shows "next_seq s - window_base s \<ge> WINDOW_SIZE \<longleftrightarrow> length (slots s) = 32"
proof -
  have "unat (of_nat (length (slots s)) :: u32) = length (slots s)"
    using assms by (intro unat_of_nat_small) (simp add: sender_inv_def)
  with assms show ?thesis
    by (auto simp: sender_inv_def WINDOW_SIZE_def word_le_nat_alt)
qed

lemma sender_inv_send: "sender_inv s \<Longrightarrow> sender_inv (fst (send now p s))"
  using window_full_iff [of s]
  by (auto simp: send_def Let_def sender_inv_def seq_run_snoc simp del: seq_run.simps)

lemma mark_acked_seqs: "map slot_seq (fst (mark_acked a b ss)) = map slot_seq ss"
  by (induction ss) (auto simp: case_prod_unfold Let_def)

lemma length_mark_acked: "length (fst (mark_acked a b ss)) = length ss"
  using mark_acked_seqs [of a b ss] by (metis length_map)

lemma slide_split:
  "slide b ss = (b', rest) \<Longrightarrow>
     \<exists>pre. ss = pre @ rest \<and> list_all acked pre \<and> b' = b + of_nat (length pre)
       \<and> (rest = [] \<or> \<not> acked (hd rest))"
proof (induction ss arbitrary: b)
  case (Cons s ss)
  show ?case
  proof (cases "acked s")
    case True
    with Cons.prems have "slide (b + 1) ss = (b', rest)" by simp
    from Cons.IH [OF this] obtain pre where "ss = pre @ rest" "list_all acked pre"
      "b' = b + 1 + of_nat (length pre)" "rest = [] \<or> \<not> acked (hd rest)" by blast
    with True show ?thesis by (intro exI [of _ "s # pre"]) (simp add: add.assoc)
  next
    case False
    with Cons.prems show ?thesis by (intro exI [of _ "[]"]) auto
  qed
qed simp

lemma sender_inv_on_ack: "sender_inv s \<Longrightarrow> sender_inv (fst (on_ack a b s))"
proof -
  assume s: "sender_inv s"
  let ?m = "fst (mark_acked a b (slots s))"
  obtain b' rest where sl: "slide (window_base s) ?m = (b', rest)" by force
  then obtain pre where pre: "?m = pre @ rest" "b' = window_base s + of_nat (length pre)"
    using slide_split by blast
  have len: "length (slots s) = length pre + length rest"
    using length_mark_acked [of a b "slots s"] pre(1) by simp
  have "map slot_seq pre @ map slot_seq rest
      = seq_run (window_base s) (length pre) @ seq_run b' (length rest)"
    using s mark_acked_seqs [of a b "slots s"] pre
    by (simp add: sender_inv_def len seq_run_append flip: map_append)
  then have "map slot_seq rest = seq_run b' (length rest)" by simp
  with s sl len pre show ?thesis
    by (simp add: on_ack_def case_prod_unfold Let_def sender_inv_def add.assoc)
qed

lemma retransmit_seqs: "map slot_seq (fst (retransmit_slots now c i ss)) = map slot_seq ss"
  by (induction ss) (auto simp: case_prod_unfold Let_def)

lemma length_retransmit: "length (fst (retransmit_slots now c i ss)) = length ss"
  using retransmit_seqs [of now c i ss] by (metis length_map)

lemma sender_inv_poll: "sender_inv s \<Longrightarrow> sender_inv (fst (poll_retransmit now s))"
  by (simp add: poll_retransmit_def case_prod_unfold Let_def sender_inv_def retransmit_seqs
      length_retransmit)

section \<open>Reachable senders\<close>

inductive sender_step :: "ReliableSender \<Rightarrow> ReliableSender \<Rightarrow> bool" where
  step_send: "sender_step s (fst (send now payload s))"
| step_ack: "sender_step s (fst (on_ack a b s))"
| step_poll: "sender_step s (fst (poll_retransmit now s))"

inductive sender_reachable :: "ReliableSender \<Rightarrow> bool" where
  sender_start: "sender_reachable (sender_new cid sid)"
| sender_next: "sender_reachable s \<Longrightarrow> sender_step s t \<Longrightarrow> sender_reachable t"

definition retries_ok :: "SendSlot list \<Rightarrow> bool" where
  "retries_ok ss = list_all (\<lambda>s. retries s \<le> MAX_RETRIES) ss"

definition front_pending :: "SendSlot list \<Rightarrow> bool" where
  "front_pending ss = (ss = [] \<or> \<not> acked (hd ss))"

lemma retries_ok_mark: "retries_ok ss \<Longrightarrow> retries_ok (fst (mark_acked a b ss))"
  by (induction ss) (auto simp: retries_ok_def case_prod_unfold Let_def)

lemma retries_ok_retransmit: "retries_ok ss \<Longrightarrow> retries_ok (fst (retransmit_slots now c i ss))"
  by (induction ss)
     (auto simp: retries_ok_def case_prod_unfold Let_def MAX_RETRIES_def not_le intro: inc_le)

lemma front_pending_retransmit:
  "front_pending ss \<Longrightarrow> front_pending (fst (retransmit_slots now c i ss))"
  by (cases ss) (auto simp: front_pending_def case_prod_unfold Let_def)

lemma slide_rest:
  "retries_ok ss \<Longrightarrow> retries_ok (snd (slide b ss)) \<and> front_pending (snd (slide b ss))"
  by (induction ss arbitrary: b) (auto simp: retries_ok_def front_pending_def)

lemma sender_step_keeps:
  "sender_step s t \<Longrightarrow> sender_inv s \<and> retries_ok (slots s) \<and> front_pending (slots s) \<Longrightarrow>
     sender_inv t \<and> retries_ok (slots t) \<and> front_pending (slots t)"
proof (induction rule: sender_step.induct)
  case (step_send s now payload)
  then have "retries_ok (slots (fst (send now payload s)))"
    and "front_pending (slots (fst (send now payload s)))"
    by (auto simp: send_def Let_def retries_ok_def front_pending_def hd_append)
  with step_send show ?case by (simp add: sender_inv_send)
next
  case (step_ack s a b)
  then have "retries_ok (fst (mark_acked a b (slots s)))" by (simp add: retries_ok_mark)
  with step_ack show ?case
    using slide_rest [of "fst (mark_acked a b (slots s))" "window_base s"]
    by (simp add: sender_inv_on_ack) (simp add: on_ack_def case_prod_unfold Let_def)
next
  case (step_poll s now)
  then show ?case
    by (simp add: sender_inv_poll)
       (simp add: poll_retransmit_def case_prod_unfold Let_def retries_ok_retransmit
          front_pending_retransmit)
qed

text \<open>
  C6. In every state the sender can reach by sending, processing acknowledgements and polling
  for retransmission, in any order and at any times: the window holds consecutive sequence
  numbers from \<open>window_base\<close> up to \<open>next_seq\<close> (with wrap-around), never more than 32 of them,
  its oldest packet is still unacknowledged, and no packet was retransmitted more than
  \<open>MAX_RETRIES\<close> times.
\<close>

theorem sender_window_safe:
  assumes "sender_reachable s"
  shows "map slot_seq (slots s) = seq_run (window_base s) (length (slots s))
    \<and> next_seq s = window_base s + of_nat (length (slots s))
    \<and> length (slots s) \<le> 32
    \<and> (slots s = [] \<or> \<not> acked (hd (slots s)))
    \<and> (\<forall>x \<in> set (slots s). retries x \<le> MAX_RETRIES)"
proof -
  from assms have "sender_inv s \<and> retries_ok (slots s) \<and> front_pending (slots s)"
  proof (induction rule: sender_reachable.induct)
    case (sender_start cid sid)
    show ?case
      using sender_inv_new [of cid sid]
      by (simp add: retries_ok_def front_pending_def) (simp add: sender_new_def)
  next
    case (sender_next s t)
    then show ?case using sender_step_keeps by blast
  qed
  then show ?thesis
    by (auto simp: sender_inv_def retries_ok_def front_pending_def list_all_iff)
qed

theorem sender_window_safe_witness:
  "length (slots (fst (send 0 [7] (sender_new 1 0)))) \<le> 32"
  using sender_window_safe [OF sender_next [OF sender_start step_send, of 0 "[7]" 1 0]] by blast

section \<open>Acknowledgements\<close>

lemma ack_hits_iff:
  "ack_hits a b sq \<longleftrightarrow> sq = a \<or> (\<exists>i < 32. sq = a + 1 + of_nat i \<and> bit b i)"
proof (cases "sq = a")
  case False
  define d where "d = sq - a - 1"
  have sq: "sq = a + 1 + d" and dist: "sq - a = d + 1" by (simp_all add: d_def)
  have d1: "d + 1 \<noteq> 0" using False by (simp flip: dist)
  then have un: "unat (d + 1) = unat d + 1"
    by (metis Suc_eq_plus1 unatSuc add.commute)
  have le: "d + 1 \<le> 32 \<longleftrightarrow> unat d < 32"
    by (simp add: word_le_nat_alt un Suc_le_eq)
  have lt: "d < 32 \<longleftrightarrow> unat d < 32"
    by (simp add: word_less_nat_alt)
  have "ack_hits a b sq \<longleftrightarrow> unat d < 32 \<and> (b AND push_bit (unat d) 1) \<noteq> 0"
    using d1 le lt by (auto simp: ack_hits_def dist Let_def WINDOW_SIZE_def shl_or_zero_def)
  also have "\<dots> \<longleftrightarrow> unat d < 32 \<and> bit b (unat d)"
    by (simp add: push_bit_eq_mult and_exp_eq_0_iff_not_bit)
  also have "\<dots> \<longleftrightarrow> (\<exists>i < 32. sq = a + 1 + of_nat i \<and> bit b i)"
    by (auto simp: sq unat_of_nat_small)
  finally show ?thesis using False by simp
qed (simp add: ack_hits_def)

lemma mark_acked_newly:
  "snd (mark_acked a b ss) = map slot_seq (filter (\<lambda>s. \<not> acked s \<and> ack_hits a b (slot_seq s)) ss)"
  by (induction ss) (auto simp: case_prod_unfold Let_def)

text \<open>
  \<open>on_ack\<close> reports exactly the pending packets the acknowledgement covers, oldest first:
  the one numbered \<open>ack_seq\<close> and, for every set bit \<open>i\<close> of the bitmap, the one numbered
  \<open>ack_seq + 1 + i\<close>, modulo \<open>2^32\<close>.
\<close>

theorem on_ack_reports_covered:
  "snd (on_ack a b s) = map slot_seq (filter (\<lambda>x. \<not> acked x \<and>
      (slot_seq x = a \<or> (\<exists>i < 32. slot_seq x = a + 1 + of_nat i \<and> bit b i))) (slots s))"
  by (simp add: on_ack_def case_prod_unfold Let_def mark_acked_newly ack_hits_iff)

section \<open>In-order delivery\<close>

text \<open>A sequence of arriving packets; the outputs of the calls are concatenated.\<close>

fun deliver_all :: "(u32 \<times> bytes) list \<Rightarrow> ReliableReceiver \<Rightarrow> ReliableReceiver \<times> bytes list" where
  "deliver_all [] r = (r, [])"
| "deliver_all ((sq, p) # ps) r =
     (let (r1, out1) = deliver sq p r; (r2, out2) = deliver_all ps r1 in (r2, out1 @ out2))"

definition authentic :: "(u32 \<Rightarrow> bytes) \<Rightarrow> (u32 \<times> bytes) list \<Rightarrow> bool" where
  "authentic f ps = (\<forall>(s, p) \<in> set ps. p = f s)"

lemma drain_run:
  "drain n buf = (n', buf', out) \<Longrightarrow> authentic f buf \<Longrightarrow>
     out = map f (seq_run n (length out)) \<and> n' = n + of_nat (length out) \<and> authentic f buf'"
proof (induction n buf arbitrary: n' buf' out rule: drain.induct)
  case (2 n s d buf)
  show ?case
  proof (cases "s = n")
    case True
    obtain n1 b1 o1 where d: "drain (n + 1) buf = (n1, b1, o1)" by (metis prod_cases3)
    with True "2.prems" have "n' = n1" "buf' = b1" "out = d # o1" "d = f n" "authentic f buf"
      by (auto simp: authentic_def)
    with "2.IH" [OF True d] show ?thesis by (simp add: add.assoc)
  next
    case False
    with "2.prems" show ?thesis by simp
  qed
qed simp

lemma authentic_insert_ooo:
  "authentic f buf \<Longrightarrow> p = f sq \<Longrightarrow> authentic f (insert_ooo sq dist p buf)"
  by (auto simp: authentic_def insert_ooo_def Let_def dest: in_set_takeD in_set_dropD)

lemma deliver_run:
  assumes "authentic f (ooo_buffer r)" "p = f sq" "deliver sq p r = (r', out)"
  shows "out = map f (seq_run (next_expected r) (length out))
    \<and> next_expected r' = next_expected r + of_nat (length out) \<and> authentic f (ooo_buffer r')"
proof (cases "sq = next_expected r")
  case True
  obtain n b o1 where d: "drain (next_expected r + 1) (ooo_buffer r) = (n, b, o1)"
    by (metis prod_cases3)
  with True assms drain_run [OF d assms(1)] show ?thesis
    by (auto simp: deliver_def add.assoc)
next
  case False
  with assms authentic_insert_ooo [OF assms(1,2)] show ?thesis
    by (auto simp: deliver_def Let_def split: if_splits)
qed

lemma deliver_all_run:
  "authentic f (ooo_buffer r) \<Longrightarrow> authentic f ps \<Longrightarrow> deliver_all ps r = (r', out) \<Longrightarrow>
     out = map f (seq_run (next_expected r) (length out))
     \<and> next_expected r' = next_expected r + of_nat (length out)"
proof (induction ps arbitrary: r r' out)
  case (Cons sp ps)
  obtain sq p where sp: "sp = (sq, p)" by force
  obtain r1 o1 where d: "deliver sq p r = (r1, o1)" by force
  obtain r2 o2 where ds: "deliver_all ps r1 = (r2, o2)" by force
  from Cons.prems sp d ds have out: "out = o1 @ o2" and r': "r' = r2" and p: "p = f sq"
    and ps: "authentic f ps"
    by (auto simp: authentic_def)
  from deliver_run [OF Cons.prems(1) p d]
  have 1: "o1 = map f (seq_run (next_expected r) (length o1))"
      "next_expected r1 = next_expected r + of_nat (length o1)" "authentic f (ooo_buffer r1)"
    by auto
  from Cons.IH [OF 1(3) ps ds]
  have 2: "o2 = map f (seq_run (next_expected r1) (length o2))"
      "next_expected r2 = next_expected r1 + of_nat (length o2)"
    by auto
  show ?case
  proof
    have "out = map f (seq_run (next_expected r) (length o1))
        @ map f (seq_run (next_expected r + of_nat (length o1)) (length o2))"
      using out 1(1,2) 2(1) by metis
    then show "out = map f (seq_run (next_expected r) (length out))"
      using out by (simp add: seq_run_append)
    show "next_expected r' = next_expected r + of_nat (length out)"
      using out r' 1(2) 2(2) by (simp add: add.assoc)
  qed
qed simp

text \<open>
  C5. In-order delivery: whatever packets arrive, in whatever order and with whatever
  duplicates, as long as each carries the payload the sender assigned to its number, the
  payloads handed to the application are those of the numbers 0, 1, 2, \<dots> in this order,
  without gap or repetition, and \<open>next_expected\<close> counts them.
\<close>

theorem receiver_in_order:
  assumes "\<forall>(s, p) \<in> set ps. p = f s"
    and "deliver_all ps (receiver_new sid) = (r, out)"
  shows "out = map f (seq_run 0 (length out)) \<and> next_expected r = of_nat (length out)"
  using deliver_all_run [of f "receiver_new sid" ps r out] assms
  by (simp add: authentic_def receiver_new_def)

theorem receiver_in_order_witness:
  "snd (deliver_all [(1, [1]), (0, [0]), (1, [1])] (receiver_new 0)) = [[0], [1]]
   \<and> next_expected (fst (deliver_all [(1, [1]), (0, [0]), (1, [1])] (receiver_new 0))) = 2"
  using receiver_in_order [of "[(1, [1]), (0, [0]), (1, [1])]" "\<lambda>s. [ucast s]" 0
      "\<lparr>rcv_stream_id = 0, next_expected = 2, ooo_buffer = [], last_ack_seq = 0,
        last_ack_bitmap = 0\<rparr>" "[[0], [1]]"]
  by (simp add: deliver_def insert_ooo_def receiver_new_def WINDOW_SIZE_def Let_def numeral_2_eq_2)

text \<open>
  The reordering buffer is kept with the newest number first, but drained from the front:
  after packets 1 and 2 arrive early, the arrival of packet 0 releases only packet 0; packets
  1 and 2 stay in the buffer although 1 is the next number expected.
\<close>

theorem deliver_strands_buffered:
  "deliver_all [(1, p1), (2, p2), (0, p0)] (receiver_new sid) =
     (\<lparr>rcv_stream_id = sid, next_expected = 1, ooo_buffer = [(2, p2), (1, p1)],
       last_ack_seq = 0, last_ack_bitmap = 0\<rparr>, [p0])"
  by (simp add: deliver_def insert_ooo_def receiver_new_def WINDOW_SIZE_def Let_def)

lemma deliver_bitmap: "last_ack_bitmap (fst (deliver sq p r)) = last_ack_bitmap r"
  by (simp add: deliver_def Let_def case_prod_unfold)

lemma deliver_all_bitmap: "last_ack_bitmap (fst (deliver_all ps r)) = last_ack_bitmap r"
  by (induction ps arbitrary: r) (auto simp: case_prod_unfold Let_def deliver_bitmap)

text \<open>
  A receiver acknowledges only the newest in-order packet: its bitmap is never set. So
  when the acknowledgement of the oldest pending packet is lost, no acknowledgement of a
  later packet moves the sender's window: \<open>on_ack\<close> is not cumulative.
\<close>

theorem lost_ack_blocks_window:
  assumes "sender_inv s" "slots s \<noteq> []" "\<not> acked (hd (slots s))"
    and "r = fst (deliver_all ps (receiver_new sid))"
    and "next_expected r - 1 \<noteq> window_base s"
  shows "window_base (fst (on_ack (fst (ack_info r)) (snd (ack_info r)) s)) = window_base s
    \<and> slots (fst (on_ack (fst (ack_info r)) (snd (ack_info r)) s)) \<noteq> []"
proof -
  obtain x xs where xs: "slots s = x # xs" using assms(2) by (cases "slots s") auto
  with assms(1,3) have x: "slot_seq x = window_base s" "\<not> acked x"
    by (auto simp: sender_inv_def)
  have bm: "snd (ack_info r) = 0"
    using assms(4) by (simp add: ack_info_def deliver_all_bitmap) (simp add: receiver_new_def)
  have "\<not> ack_hits (fst (ack_info r)) 0 (slot_seq x)"
    using assms(5) x(1) by (auto simp: ack_hits_iff ack_info_def)
  then have "fst (mark_acked (fst (ack_info r)) 0 (slots s))
      = x # fst (mark_acked (fst (ack_info r)) 0 xs)"
    using x(2) by (simp add: xs case_prod_unfold Let_def)
  with bm x(2) show ?thesis
    by (simp add: on_ack_def case_prod_unfold Let_def)
qed

theorem lost_ack_blocks_window_witness:
  "window_base (fst (on_ack 1 0 (fst (send 0 [8] (fst (send 0 [7] (sender_new 1 0))))))) = 0"
proof -
  let ?s = "fst (send 0 [8] (fst (send 0 [7] (sender_new 1 0))))"
  let ?r = "fst (deliver_all [(0, [7]), (1, [8])] (receiver_new 0))"
  have "sender_inv ?s" by (simp add: sender_inv_send sender_inv_new)
  moreover have "slots ?s \<noteq> []" "\<not> acked (hd (slots ?s))" "window_base ?s = 0"
    by (simp_all add: send_def sender_new_def WINDOW_SIZE_def Let_def)
  moreover have "ack_info ?r = (1, 0)" "next_expected ?r - 1 = 1"
    by (simp_all add: ack_info_def deliver_def receiver_new_def)
  ultimately show ?thesis
    using lost_ack_blocks_window [of ?s ?r "[(0, [7]), (1, [8])]" 0] by simp
qed

end
