(* ===== verification/Identity.thy ===== *)
theory Identity
  imports Prelude
begin

text \<open>
  Node identifiers, \<^verbatim>\<open>crates/vpn/src/vpn/identity.rs\<close>: 32-byte arrays, their hexadecimal form
  (the crate hex is a parameter) and the XOR distance. The source returns the distance as an
  \<^verbatim>\<open>f64\<close>; the model keeps the \<^verbatim>\<open>u128\<close> accumulator that is converted. The key pair, its hash
  and the identity file are randomness and I/O and are not modelled.
\<close>

type_synonym NodeID = bytes

definition node_ok :: "NodeID \<Rightarrow> bool" where
  "node_ok n = (length n = 32)"

datatype hex_error = InvalidStringLength | InvalidHex

record hex_codec =
  hex_encode :: "bytes \<Rightarrow> string"
  hex_decode :: "string \<Rightarrow> (hex_error, bytes) result"

definition hex_correct :: "hex_codec \<Rightarrow> bool" where
  "hex_correct H \<longleftrightarrow> (\<forall>b. hex_decode H (hex_encode H b) = Inr b)"

definition to_hex :: "hex_codec \<Rightarrow> NodeID \<Rightarrow> string" where
  "to_hex H n = hex_encode H n"

definition from_hex :: "hex_codec \<Rightarrow> string \<Rightarrow> (hex_error, NodeID) result" where
  "from_hex H s =
     and_then (hex_decode H s)
       (\<lambda>bs. if length bs \<noteq> 32 then Inl InvalidStringLength else Inr bs)"

fun distance_from :: "128 word \<Rightarrow> (u8 \<times> u8) list \<Rightarrow> 128 word" where
  "distance_from dist [] = dist"
| "distance_from dist ((a, b) # ps) = distance_from (push_bit 8 dist OR ucast (a XOR b)) ps"

definition node_distance :: "NodeID \<Rightarrow> NodeID \<Rightarrow> 128 word" where
  "node_distance x y = distance_from 0 (zip x y)"

lemma to_hex_inject: "hex_correct H \<Longrightarrow> to_hex H m = to_hex H n \<longleftrightarrow> m = n"
  by (metis hex_correct_def sum.inject(2) to_hex_def)

text \<open>A codec that satisfies the law, for evaluation.\<close>

definition plain_hex :: hex_codec where
  "plain_hex = \<lparr>hex_encode = bytes_str, hex_decode = (\<lambda>s. Inr (str_bytes s))\<rparr>"

lemma plain_hex_correct [simp]: "hex_correct plain_hex"
  by (simp add: hex_correct_def plain_hex_def)

lemma from_hex_to_hex: "hex_correct H \<Longrightarrow> node_ok n \<Longrightarrow> from_hex H (to_hex H n) = Inr n"
  by (simp add: hex_correct_def from_hex_def to_hex_def node_ok_def)

lemma from_hex_ok: "from_hex H s = Inr n \<Longrightarrow> node_ok n"
  by (auto simp: from_hex_def node_ok_def and_then_eq_Inr split: if_splits)

lemma distance_from_shift:
  "distance_from d ps = push_bit (8 * length ps) d OR distance_from 0 ps"
proof (induction ps arbitrary: d)
  case (Cons p ps)
  obtain a b where p: "p = (a, b)" by force
  have "distance_from d (p # ps)
      = push_bit (8 * length ps) (push_bit 8 d OR ucast (a XOR b)) OR distance_from 0 ps"
    using Cons.IH [of "push_bit 8 d OR ucast (a XOR b)"] by (simp add: p)
  moreover have "distance_from 0 (p # ps) = push_bit (8 * length ps) (ucast (a XOR b)) OR distance_from 0 ps"
    using Cons.IH [of "ucast (a XOR b)"] by (simp add: p)
  ultimately show ?case
    by (simp add: push_bit_or or.assoc ac_simps)
qed simp

lemma distance_from_append:
  "length qs = 16 \<Longrightarrow> distance_from 0 (ps @ qs) = distance_from 0 qs"
proof -
  assume q: "length qs = 16"
  have "distance_from d (ps @ qs) = distance_from (distance_from d ps) qs" for d
    by (induction d ps rule: distance_from.induct) auto
  then have "distance_from 0 (ps @ qs) = push_bit 128 (distance_from 0 ps) OR distance_from 0 qs"
    using distance_from_shift [of "distance_from 0 ps" qs] q by simp
  also have "push_bit 128 (distance_from 0 ps) = 0"
    by (rule bit_word_eqI) (simp add: bit_simps)
  finally show ?thesis by simp
qed

lemma node_distance_sym: "length x = length y \<Longrightarrow> node_distance x y = node_distance y x"
proof -
  have "length x = length y \<Longrightarrow> distance_from d (zip x y) = distance_from d (zip y x)" for d
    by (induction x y arbitrary: d rule: list_induct2) (simp_all add: xor.commute)
  then show "length x = length y \<Longrightarrow> node_distance x y = node_distance y x"
    by (simp add: node_distance_def)
qed

text \<open>
  The distance of two 32-byte identifiers is computed in a 128-bit accumulator that is shifted
  32 times by a byte, so only the last 16 bytes count: identifiers that differ in their first
  half only are at distance 0.
\<close>

theorem node_distance_ignores_prefix:
  assumes "node_ok x" "node_ok y"
  shows "node_distance x y = node_distance (drop 16 x) (drop 16 y)"
proof -
  have "zip x y = zip (take 16 x) (take 16 y) @ zip (drop 16 x) (drop 16 y)"
    using assms by (metis append_take_drop_id length_take node_ok_def zip_append)
  then show ?thesis
    using assms by (simp add: node_distance_def distance_from_append node_ok_def)
qed

theorem node_distance_ignores_prefix_witness:
  "node_distance (replicate 16 1 @ replicate 16 0) (replicate 16 2 @ replicate 16 0) = 0"
proof -
  have "distance_from 0 (replicate n (0, 0)) = 0" for n
    by (induction n) auto
  then show ?thesis
    using node_distance_ignores_prefix [of "replicate 16 1 @ replicate 16 0" "replicate 16 2 @ replicate 16 0"]
    by (simp add: node_ok_def) (simp add: node_distance_def zip_replicate)
qed

end
