(* ===== verification/Text.thy ===== *)
theory Text
  imports Prelude
begin

text \<open>
  The methods of Rust's \<^verbatim>\<open>str\<close> that the daemon's native commands, the bootstrap file and the
  command line use. A \<open>string\<close> holds the UTF-8 bytes of the text, one \<open>char\<close> per byte; searching
  and splitting at byte level agrees with the character level because no UTF-8 sequence is part
  of another one. White space is Unicode's \<^verbatim>\<open>White_Space\<close>: six characters of one byte, two of
  two bytes and seventeen of three bytes.
\<close>

section \<open>Splitting\<close>

fun split_once :: "char \<Rightarrow> string \<Rightarrow> string \<times> string option" where
  "split_once c [] = ([], None)"
| "split_once c (x # xs) =
     (if x = c then ([], Some xs) else (case split_once c xs of (a, r) \<Rightarrow> (x # a, r)))"

lemma split_once_notin: "c \<notin> set a \<Longrightarrow> split_once c a = (a, None)"
  by (induction a) auto

lemma split_once_append: "c \<notin> set a \<Longrightarrow> split_once c (a @ c # r) = (a, Some r)"
  by (induction a) auto

lemma split_once_SomeD: "split_once c s = (a, Some r) \<Longrightarrow> s = a @ c # r \<and> c \<notin> set a"
  by (induction s arbitrary: a) (auto split: if_splits prod.splits)

lemma split_once_NoneD: "split_once c s = (a, None) \<Longrightarrow> s = a \<and> c \<notin> set a"
  by (induction s arbitrary: a) (auto split: if_splits prod.splits)

text \<open>\<^verbatim>\<open>split(c)\<close>: all pieces, also empty ones.\<close>

fun split_all :: "char \<Rightarrow> string \<Rightarrow> string list" where
  "split_all c [] = [[]]"
| "split_all c (x # xs) =
     (if x = c then [] # split_all c xs
      else (case split_all c xs of [] \<Rightarrow> [[x]] | w # ws \<Rightarrow> (x # w) # ws))"

lemma split_all_notin: "c \<notin> set a \<Longrightarrow> split_all c a = [a]"
  by (induction a) auto

lemma split_all_append: "c \<notin> set a \<Longrightarrow> split_all c (a @ c # r) = a # split_all c r"
  by (induction a) auto

text \<open>
  \<^verbatim>\<open>lines\<close>: the pieces ended by a line feed, without it and without one carriage return before
  it; a last piece without line feed is kept as it is.
\<close>

definition strip_cr :: "string \<Rightarrow> string" where
  "strip_cr l = (if l \<noteq> [] \<and> last l = CHR 0x0D then butlast l else l)"

lemma split_once_shorter: "(a, Some r) = split_once c s \<Longrightarrow> length r < length s"
  by (drule sym) (auto dest!: split_once_SomeD)

function str_lines :: "string \<Rightarrow> string list" where
  "str_lines s =
     (if s = [] then []
      else (case split_once (CHR 0x0A) s of
              (l, None) \<Rightarrow> [l]
            | (l, Some r) \<Rightarrow> strip_cr l # str_lines r))"
  by auto
termination
  by (relation "measure length") (auto dest: split_once_shorter)

declare str_lines.simps [simp del]

definition plain_line :: "string \<Rightarrow> bool" where
  "plain_line l \<longleftrightarrow> CHR 0x0A \<notin> set l \<and> (l \<noteq> [] \<longrightarrow> last l \<noteq> CHR 0x0D)"

lemma str_lines_Nil [simp]: "str_lines [] = []"
  by (simp add: str_lines.simps)

lemma str_lines_append: "plain_line l \<Longrightarrow> str_lines (l @ CHR 0x0A # r) = l # str_lines r"
  by (subst str_lines.simps) (auto simp: split_once_append plain_line_def strip_cr_def)

lemma str_lines_no_newline: "l \<in> set (str_lines s) \<Longrightarrow> CHR 0x0A \<notin> set l"
proof (induction s rule: str_lines.induct)
  case (1 s)
  show ?case
  proof (cases "s = []")
    case False
    obtain a x where p: "split_once (CHR 0x0A) s = (a, x)" by force
    have a: "CHR 0x0A \<notin> set a" using p by (cases x) (auto dest: split_once_SomeD split_once_NoneD)
    then have "CHR 0x0A \<notin> set (strip_cr a)" by (auto simp: strip_cr_def dest: in_set_butlastD)
    with a "1.IH" [OF False p [symmetric]] "1.prems" False show ?thesis
      by (subst (asm) str_lines.simps) (auto simp: p split: option.splits)
  qed (use "1.prems" in simp)
qed

text \<open>Every line followed by a line feed.\<close>

definition unlines :: "string list \<Rightarrow> string" where
  "unlines ls = concat (map (\<lambda>l. l @ [CHR 0x0A]) ls)"

lemma unlines_simps [simp]: "unlines [] = []" "unlines (l # ls) = l @ CHR 0x0A # unlines ls"
  by (simp_all add: unlines_def)

lemma unlines_append [simp]: "unlines (a @ b) = unlines a @ unlines b"
  by (simp add: unlines_def)

lemma str_lines_unlines: "list_all plain_line ls \<Longrightarrow> str_lines (unlines ls) = ls"
  by (induction ls) (simp_all add: str_lines_append)

text \<open>\<^verbatim>\<open>join(sep)\<close>.\<close>

fun join_with :: "string \<Rightarrow> string list \<Rightarrow> string" where
  "join_with sep [] = []"
| "join_with sep [w] = w"
| "join_with sep (w # ws) = w @ sep @ join_with sep ws"

lemma join_newline: "ls \<noteq> [] \<Longrightarrow> join_with [CHR 0x0A] ls @ [CHR 0x0A] = unlines ls"
  by (induction "[CHR 0x0A]" ls rule: join_with.induct) auto

section \<open>White space\<close>

definition is_space :: "char \<Rightarrow> bool" where
  "is_space c = ((of_char c :: nat) \<in> {9, 10, 11, 12, 13, 32})"

definition is_space2 :: "char \<Rightarrow> char \<Rightarrow> bool" where
  "is_space2 c d \<longleftrightarrow> c = CHR 0xC2 \<and> (d = CHR 0x85 \<or> d = CHR 0xA0)"

definition is_space3 :: "char \<Rightarrow> char \<Rightarrow> char \<Rightarrow> bool" where
  "is_space3 c d e \<longleftrightarrow>
     c = CHR 0xE1 \<and> d = CHR 0x9A \<and> e = CHR 0x80
     \<or> c = CHR 0xE2 \<and> d = CHR 0x80
         \<and> (e \<in> {CHR 0xA8, CHR 0xA9, CHR 0xAF} \<or> (of_char e :: nat) \<in> {128..138})
     \<or> c = CHR 0xE2 \<and> d = CHR 0x81 \<and> e = CHR 0x9F
     \<or> c = CHR 0xE3 \<and> d = CHR 0x80 \<and> e = CHR 0x80"

fun trim_start :: "string \<Rightarrow> string" where
  "trim_start [] = []"
| "trim_start (c # s) =
     (if is_space c then trim_start s
      else (case s of [] \<Rightarrow> [c]
            | d # s' \<Rightarrow> if is_space2 c d then trim_start s'
                else (case s' of [] \<Rightarrow> c # s
                      | e # s'' \<Rightarrow> if is_space3 c d e then trim_start s'' else c # s)))"

text \<open>The same on the reversed text.\<close>

fun trim_rev :: "string \<Rightarrow> string" where
  "trim_rev [] = []"
| "trim_rev (e # s) =
     (if is_space e then trim_rev s
      else (case s of [] \<Rightarrow> [e]
            | d # s' \<Rightarrow> if is_space2 d e then trim_rev s'
                else (case s' of [] \<Rightarrow> e # s
                      | c # s'' \<Rightarrow> if is_space3 c d e then trim_rev s'' else e # s)))"

definition trim_end :: "string \<Rightarrow> string" where
  "trim_end s = rev (trim_rev (rev s))"

definition trim :: "string \<Rightarrow> string" where
  "trim s = trim_end (trim_start s)"

definition flush :: "string \<Rightarrow> string list \<Rightarrow> string list" where
  "flush w ws = (if w = [] then ws else w # ws)"

fun split_words :: "string \<Rightarrow> string \<Rightarrow> string list" where
  "split_words w [] = flush w []"
| "split_words w (c # s) =
     (if is_space c then flush w (split_words [] s)
      else (case s of [] \<Rightarrow> [w @ [c]]
            | d # s' \<Rightarrow> if is_space2 c d then flush w (split_words [] s')
                else (case s' of [] \<Rightarrow> split_words (w @ [c]) s
                      | e # s'' \<Rightarrow> if is_space3 c d e then flush w (split_words [] s'')
                          else split_words (w @ [c]) s)))"

declare split_words.simps(2) [simp del]

definition split_whitespace :: "string \<Rightarrow> string list" where
  "split_whitespace s = split_words [] s"

text \<open>Text of ASCII characters other than white space.\<close>

definition word_char :: "char \<Rightarrow> bool" where
  "word_char c \<longleftrightarrow> (of_char c :: nat) < 128 \<and> \<not> is_space c"

lemma word_char_not_multi:
  assumes "word_char c"
  shows "\<not> is_space c" "\<not> is_space2 c d" "\<not> is_space3 c d e" "\<not> is_space2 d c" "\<not> is_space3 d e c"
  using assms by (auto simp: word_char_def is_space2_def is_space3_def)

lemma trim_start_spaces: "list_all is_space w \<Longrightarrow> trim_start (w @ s) = trim_start s"
  by (induction w) auto

lemma trim_start_word: "s = [] \<or> word_char (hd s) \<Longrightarrow> trim_start s = s"
  by (cases s) (auto simp: word_char_not_multi split: list.splits)

lemma trim_rev_word: "s = [] \<or> word_char (hd s) \<Longrightarrow> trim_rev s = s"
  by (cases s) (auto simp: word_char_not_multi split: list.splits)

lemma trim_core:
  assumes "list_all is_space w" "x \<noteq> []" "word_char (hd x)" "word_char (last x)"
  shows "trim (w @ x) = x"
  using assms by (simp add: trim_def trim_end_def trim_start_spaces trim_start_word trim_rev_word hd_rev)

lemma split_words_char: "word_char x \<Longrightarrow> s \<noteq> [] \<Longrightarrow> split_words v (x # s) = split_words (v @ [x]) s"
  by (subst split_words.simps(2)) (simp add: word_char_not_multi split: list.split)

lemma split_words_word:
  "list_all word_char w \<Longrightarrow> is_space c \<Longrightarrow>
     split_words v (w @ c # s) = flush (v @ w) (split_words [] s)"
proof (induction w arbitrary: v)
  case (Cons x w)
  then have "split_words v (x # (w @ c # s)) = split_words (v @ [x]) (w @ c # s)"
    by (intro split_words_char) auto
  with Cons show ?case by simp
qed (simp add: split_words.simps(2))

lemma split_words_last: "list_all word_char w \<Longrightarrow> split_words v w = flush (v @ w) []"
proof (induction w arbitrary: v)
  case (Cons x w)
  show ?case
  proof (cases "w = []")
    case True
    with Cons.prems show ?thesis by (subst split_words.simps(2)) (simp add: word_char_not_multi flush_def)
  next
    case False
    with Cons show ?thesis by (simp add: split_words_char)
  qed
qed simp

lemma split_whitespace_word:
  "list_all word_char w \<Longrightarrow> w \<noteq> [] \<Longrightarrow> is_space c \<Longrightarrow> split_whitespace (w @ c # s) = w # split_whitespace s"
  by (simp add: split_whitespace_def split_words_word flush_def)

lemma split_whitespace_last: "list_all word_char w \<Longrightarrow> w \<noteq> [] \<Longrightarrow> split_whitespace w = [w]"
  by (simp add: split_whitespace_def split_words_last flush_def)

lemma split_whitespace_space: "is_space c \<Longrightarrow> split_whitespace (c # s) = split_whitespace s"
  by (simp add: split_whitespace_def flush_def split_words.simps(2))

section \<open>Searching and replacing\<close>

fun str_contains :: "string \<Rightarrow> string \<Rightarrow> bool" where
  "str_contains p [] = (p = [])"
| "str_contains p (c # s) = (starts_with p (c # s) \<or> str_contains p s)"

text \<open>\<^verbatim>\<open>find\<close>: the position of the first occurrence.\<close>

fun str_find :: "string \<Rightarrow> string \<Rightarrow> nat option" where
  "str_find p [] = (if p = [] then Some 0 else None)"
| "str_find p (c # s) = (if starts_with p (c # s) then Some 0 else map_option Suc (str_find p s))"

definition ends_with :: "string \<Rightarrow> string \<Rightarrow> bool" where
  "ends_with p s = (length p \<le> length s \<and> drop (length s - length p) s = p)"

definition strip_prefix :: "string \<Rightarrow> string \<Rightarrow> string option" where
  "strip_prefix p s = (if starts_with p s then Some (drop (length p) s) else None)"

text \<open>\<^verbatim>\<open>trim_end_matches\<close> removes the suffix as often as it occurs.\<close>

definition trim_end_matches :: "string \<Rightarrow> string \<Rightarrow> string" where
  "trim_end_matches p s = rev (trim_start_matches (rev p) (rev s))"

definition continues :: "char \<Rightarrow> bool" where
  "continues c \<longleftrightarrow> (of_char c :: nat) \<in> {128..191}"

text \<open>
  \<^verbatim>\<open>replace\<close>: the matches from the left that do not overlap. The empty pattern matches before
  every character and at the end.
\<close>

fun replace_empty :: "string \<Rightarrow> string \<Rightarrow> string" where
  "replace_empty t [] = t"
| "replace_empty t (c # s) = (if continues c then c # replace_empty t s else t @ c # replace_empty t s)"

fun replace_from :: "string \<Rightarrow> string \<Rightarrow> nat \<Rightarrow> string \<Rightarrow> string" where
  "replace_from p t n [] = []"
| "replace_from p t (Suc n) (c # s) = replace_from p t n s"
| "replace_from p t 0 (c # s) =
     (if starts_with p (c # s) then t @ replace_from p t (length p - 1) s
      else c # replace_from p t 0 s)"

definition str_replace :: "string \<Rightarrow> string \<Rightarrow> string \<Rightarrow> string" where
  "str_replace p t s = (if p = [] then replace_empty t s else replace_from p t 0 s)"

lemma starts_with_iff: "starts_with p s \<longleftrightarrow> (\<exists>b. s = p @ b)"
  by (metis append_eq_conv_conj starts_with_def)

lemma str_contains_iff: "str_contains p s \<longleftrightarrow> (\<exists>a b. s = a @ p @ b)"
proof (induction s)
  case (Cons c s)
  with starts_with_iff [of p "c # s"] show ?case
    by (auto simp: Cons_eq_append_conv)
qed simp

lemma str_contains_append: "str_contains p (a @ p @ b)"
  by (auto simp: str_contains_iff)

lemma replace_absent: "\<not> str_contains p s \<Longrightarrow> str_replace p t s = s"
proof -
  have "\<not> str_contains p s \<Longrightarrow> replace_from p t 0 s = s"
    by (induction s) auto
  moreover have "str_contains [] s"
    by (cases s) (simp_all add: starts_with_def)
  ultimately show "\<not> str_contains p s \<Longrightarrow> ?thesis" by (auto simp: str_replace_def)
qed

lemma replace_from_skip: "replace_from p t (length a) (a @ s) = replace_from p t 0 s"
  by (induction a) simp_all

lemma replace_here: "p \<noteq> [] \<Longrightarrow> str_replace p t (p @ s) = t @ str_replace p t s"
proof -
  assume "p \<noteq> []"
  then obtain c q where p: "p = c # q" by (cases p) auto
  have "starts_with (c # q) (c # q @ s)" by (simp add: starts_with_def)
  then show ?thesis by (simp add: str_replace_def p replace_from_skip)
qed

lemma replace_skip: "p \<noteq> [] \<Longrightarrow> \<not> starts_with p (c # s) \<Longrightarrow> str_replace p t (c # s) = c # str_replace p t s"
  by (simp add: str_replace_def)

section \<open>Numbers\<close>

text \<open>\<^verbatim>\<open>str::parse\<close> of an unsigned type whose values are below \<open>bound\<close>.\<close>

definition unsigned_digits :: "string \<Rightarrow> string" where
  "unsigned_digits s = (case s of c # cs \<Rightarrow> if c = CHR ''+'' then cs else s | [] \<Rightarrow> s)"

definition parse_below :: "nat \<Rightarrow> string \<Rightarrow> nat option" where
  "parse_below bound s =
     (let ds = unsigned_digits s
      in if ds \<noteq> [] \<and> list_all is_digit ds \<and> digits_value ds < bound
         then Some (digits_value ds) else None)"

lemma show_nat_no_plus: "hd (show_nat n) \<noteq> CHR ''+''"
proof -
  have "is_digit (hd (show_nat n))"
    using show_nat_digits [of n] show_nat_not_Nil [of n] by (cases "show_nat n") auto
  then show ?thesis by (auto simp: is_digit_def)
qed

lemma unsigned_digits_show [simp]: "unsigned_digits (show_nat n) = show_nat n"
  using show_nat_no_plus [of n] by (cases "show_nat n") (auto simp: unsigned_digits_def)

lemma parse_below_show: "n < b \<Longrightarrow> parse_below b (show_nat n) = Some n"
  by (simp add: parse_below_def show_nat_not_Nil show_nat_digits digits_value_show_nat)

lemma parse_below_bound: "parse_below b s = Some n \<Longrightarrow> n < b"
  by (auto simp: parse_below_def Let_def split: if_splits)

text \<open>\<^verbatim>\<open>from_str_radix(s, 16)\<close>.\<close>

definition hex_digit :: "char \<Rightarrow> nat option" where
  "hex_digit c =
     (let n = of_char c
      in if 48 \<le> n \<and> n \<le> 57 then Some (n - 48)
         else if 65 \<le> n \<and> n \<le> 70 then Some (n - 55)
         else if 97 \<le> n \<and> n \<le> 102 then Some (n - 87)
         else None)"

fun hex_value :: "nat \<Rightarrow> string \<Rightarrow> nat option" where
  "hex_value n [] = Some n"
| "hex_value n (c # cs) = (case hex_digit c of None \<Rightarrow> None | Some d \<Rightarrow> hex_value (16 * n + d) cs)"

definition parse_hex_below :: "nat \<Rightarrow> string \<Rightarrow> nat option" where
  "parse_hex_below bound s =
     (let ds = unsigned_digits s
      in if ds = [] then None
         else (case hex_value 0 ds of None \<Rightarrow> None | Some n \<Rightarrow> if n < bound then Some n else None))"

section \<open>Formatting\<close>

definition newline :: string where "newline = [CHR 0x0A]"

text \<open>\<^verbatim>\<open>{:<n}\<close> and \<^verbatim>\<open>{:>n}\<close> pad to \<open>n\<close> characters; a character is a byte that continues no other.\<close>

definition char_count :: "string \<Rightarrow> nat" where
  "char_count s = length (filter (\<lambda>b. \<not> utf8_cont b) (str_bytes s))"

definition ljust :: "nat \<Rightarrow> string \<Rightarrow> string" where
  "ljust n s = s @ replicate (n - char_count s) (CHR '' '')"

definition rjust :: "nat \<Rightarrow> string \<Rightarrow> string" where
  "rjust n s = replicate (n - char_count s) (CHR '' '') @ s"

definition show_u :: "'a::len word \<Rightarrow> string" where
  "show_u w = show_nat (unat w)"

text \<open>\<^verbatim>\<open>{:0n}\<close> and octal numbers.\<close>

definition zero_pad :: "nat \<Rightarrow> string \<Rightarrow> string" where
  "zero_pad n s = replicate (n - length s) (CHR ''0'') @ s"

fun show_octal :: "nat \<Rightarrow> string" where
  "show_octal n = (if n < 8 then [digit_char n] else show_octal (n div 8) @ [digit_char (n mod 8)])"

declare show_octal.simps [simp del]

definition hex_char :: "nat \<Rightarrow> char" where
  "hex_char d = char_of (if d < 10 then 48 + d else 87 + d)"

definition upper_hex_char :: "nat \<Rightarrow> char" where
  "upper_hex_char d = char_of (if d < 10 then 48 + d else 55 + d)"

text \<open>\<^verbatim>\<open>{:x}\<close> of a digest: two lower-case digits per byte.\<close>

definition lower_hex :: "bytes \<Rightarrow> string" where
  "lower_hex bs = concat (map (\<lambda>b. [hex_char (unat b div 16), hex_char (unat b mod 16)]) bs)"

section \<open>Lossy decoding\<close>

text \<open>
  \<^verbatim>\<open>String::from_utf8_lossy\<close>: every maximal part of an ill-formed sequence becomes U+FFFD.
\<close>

definition replacement_char :: bytes where
  "replacement_char = [0xEF, 0xBF, 0xBD]"

definition second_of_three :: "u8 \<Rightarrow> u8 \<Rightarrow> bool" where
  "second_of_three b c =
     (if b = 0xE0 then 0xA0 \<le> c \<and> c \<le> 0xBF
      else if b = 0xED then 0x80 \<le> c \<and> c \<le> 0x9F else utf8_cont c)"

definition second_of_four :: "u8 \<Rightarrow> u8 \<Rightarrow> bool" where
  "second_of_four b c =
     (if b = 0xF0 then 0x90 \<le> c \<and> c \<le> 0xBF
      else if b = 0xF4 then 0x80 \<le> c \<and> c \<le> 0x8F else utf8_cont c)"

fun utf8_lossy :: "bytes \<Rightarrow> bytes" where
  "utf8_lossy [] = []"
| "utf8_lossy (b # bs) =
     (if b < 0x80 then b # utf8_lossy bs
      else if 0xC2 \<le> b \<and> b \<le> 0xDF then
        (case bs of [] \<Rightarrow> replacement_char
         | c # r \<Rightarrow> if utf8_cont c then b # c # utf8_lossy r else replacement_char @ utf8_lossy bs)
      else if 0xE0 \<le> b \<and> b \<le> 0xEF then
        (case bs of [] \<Rightarrow> replacement_char
         | c # r \<Rightarrow>
             if \<not> second_of_three b c then replacement_char @ utf8_lossy bs
             else (case r of [] \<Rightarrow> replacement_char
                   | d # r' \<Rightarrow> if utf8_cont d then b # c # d # utf8_lossy r'
                       else replacement_char @ utf8_lossy r))
      else if 0xF0 \<le> b \<and> b \<le> 0xF4 then
        (case bs of [] \<Rightarrow> replacement_char
         | c # r \<Rightarrow>
             if \<not> second_of_four b c then replacement_char @ utf8_lossy bs
             else (case r of [] \<Rightarrow> replacement_char
                   | d # r' \<Rightarrow>
                       if \<not> utf8_cont d then replacement_char @ utf8_lossy r
                       else (case r' of [] \<Rightarrow> replacement_char
                             | e # r'' \<Rightarrow> if utf8_cont e then b # c # d # e # utf8_lossy r''
                                 else replacement_char @ utf8_lossy r')))
      else replacement_char @ utf8_lossy bs)"

definition lossy_str :: "bytes \<Rightarrow> string" where
  "lossy_str bs = bytes_str (utf8_lossy bs)"

declare utf8_lossy.simps(2) [simp del]

lemma lossy_valid: "utf8_valid bs \<Longrightarrow> utf8_lossy bs = bs"
proof (induction bs rule: length_induct)
  case (1 bs)
  show ?case
  proof (cases bs)
    case (Cons b s)
    note valid = "1.prems" [unfolded Cons utf8_valid.simps]
    note IH = "1.IH" [unfolded Cons, rule_format]
    consider "b < 0x80" | "\<not> b < 0x80" "0xC2 \<le> b \<and> b \<le> 0xDF"
      | "\<not> b < 0x80" "\<not> (0xC2 \<le> b \<and> b \<le> 0xDF)" "0xE0 \<le> b \<and> b \<le> 0xEF"
      | "\<not> b < 0x80" "\<not> (0xC2 \<le> b \<and> b \<le> 0xDF)" "\<not> (0xE0 \<le> b \<and> b \<le> 0xEF)"
      by blast
    then show ?thesis
    proof cases
      case 1
      have "utf8_valid s" using valid by (simp only: if_P [OF 1])
      then have "utf8_lossy s = s" by (intro IH) simp_all
      then show ?thesis by (simp only: Cons utf8_lossy.simps if_P [OF 1])
    next
      case 2
      obtain c r where s: "s = c # r" and c: "utf8_cont c" "utf8_valid r"
        using valid by (cases s) (simp_all only: if_not_P [OF 2(1)] if_P [OF 2(2)] list.case)
      have "utf8_lossy r = r" using c(2) by (intro IH) (simp_all add: s)
      then show ?thesis
        by (simp only: Cons s utf8_lossy.simps if_not_P [OF 2(1)] if_P [OF 2(2)] list.case if_P [OF c(1)])
    next
      case 3
      note b = if_not_P [OF 3(1)] if_not_P [OF 3(2)] if_P [OF 3(3)]
      obtain c d r where s: "s = c # d # r" and c: "second_of_three b c" "utf8_cont d" "utf8_valid r"
        using valid by (cases s; cases "tl s") (simp_all only: b list.case list.sel second_of_three_def, blast)
      have "utf8_lossy r = r" using c(3) by (intro IH) (simp_all add: s)
      then show ?thesis
        by (simp only: Cons s utf8_lossy.simps b list.case c(1) not_True_eq_False if_False if_P [OF c(2)])
    next
      case 4
      have "0xF0 \<le> b \<and> b \<le> 0xF4"
        using valid by (simp only: if_not_P [OF 4(1)] if_not_P [OF 4(2)] if_not_P [OF 4(3)] split: if_splits)
      note b = if_not_P [OF 4(1)] if_not_P [OF 4(2)] if_not_P [OF 4(3)] if_P [OF this]
      obtain c d e r where s: "s = c # d # e # r" and c: "second_of_four b c" "utf8_cont d" "utf8_cont e" "utf8_valid r"
        using valid by (cases s; cases "tl s"; cases "tl (tl s)") (simp_all only: b list.case list.sel second_of_four_def, blast)
      have "utf8_lossy r = r" using c(4) by (intro IH) (simp_all add: s)
      then show ?thesis
        by (simp only: Cons s utf8_lossy.simps b list.case c(1,2) not_True_eq_False if_False if_P [OF c(3)])
    qed
  qed simp
qed

section \<open>ASCII text\<close>

definition ascii_text :: "string \<Rightarrow> bool" where
  "ascii_text s \<longleftrightarrow> (\<forall>c \<in> set s. (of_char c :: nat) < 128)"

lemma ascii_text_simps [simp]:
  "ascii_text []" "ascii_text (c # s) \<longleftrightarrow> (of_char c :: nat) < 128 \<and> ascii_text s"
  "ascii_text (a @ b) \<longleftrightarrow> ascii_text a \<and> ascii_text b"
  by (auto simp: ascii_text_def)

lemma ascii_text_subset: "ascii_text s \<Longrightarrow> set t \<subseteq> set s \<Longrightarrow> ascii_text t"
  by (auto simp: ascii_text_def)

lemma ascii_take_drop: "ascii_text s \<Longrightarrow> ascii_text (take n s)" "ascii_text s \<Longrightarrow> ascii_text (drop n s)"
  by (auto intro: ascii_text_subset dest: in_set_takeD in_set_dropD)

lemma ascii_not_multi:
  assumes "(of_char c :: nat) < 128"
  shows "\<not> is_space2 c d" "\<not> is_space3 c d e" "\<not> is_space2 d c" "\<not> is_space3 d e c" "\<not> continues c"
  using assms by (auto simp: is_space2_def is_space3_def continues_def)

lemma trim_start_ascii: "ascii_text s \<Longrightarrow> trim_start s = dropWhile is_space s"
  by (induction s) (auto simp: ascii_not_multi split: list.split)

lemma trim_rev_ascii: "ascii_text s \<Longrightarrow> trim_rev s = dropWhile is_space s"
  by (induction s) (auto simp: ascii_not_multi split: list.split)

lemma ascii_rev [simp]: "ascii_text (rev s) = ascii_text s"
  by (simp add: ascii_text_def)

lemma ascii_dropWhile: "ascii_text s \<Longrightarrow> ascii_text (dropWhile p s)"
  by (auto intro: ascii_text_subset dest: set_dropWhileD)

lemma trim_ascii:
  assumes "ascii_text s"
  shows "trim s = rev (dropWhile is_space (rev (dropWhile is_space s)))" "ascii_text (trim s)"
  using assms by (simp_all add: trim_def trim_end_def trim_start_ascii trim_rev_ascii ascii_dropWhile)

lemma utf8_valid_ascii: "(\<forall>c \<in> set a. (of_char c :: nat) < 128) \<Longrightarrow> utf8_valid (str_bytes a @ bs) = utf8_valid bs"
proof (induction a)
  case (Cons c a)
  have "unat (of_nat (of_char c) :: u8) = of_char c"
    by (rule unat_of_nat_small) (use nat_of_char_less_256 [of c] in simp)
  then have "(of_nat (of_char c) :: u8) < 0x80" using Cons.prems by (simp add: word_less_nat_alt)
  then have "utf8_valid (of_nat (of_char c) # x) = utf8_valid x" for x
    by (subst utf8_valid.simps) (simp only: if_True)
  with Cons show ?case by (simp add: str_bytes_def)
qed (simp add: str_bytes_def)

lemma ascii_utf8: "ascii_text s \<Longrightarrow> utf8_valid (str_bytes s)"
  using utf8_valid_ascii [of s "[]"] by (simp add: ascii_text_def)

lemma trim_plain:
  assumes "ascii_text s" "\<forall>c \<in> set s. \<not> is_space c"
  shows "trim s = s"
proof -
  have "dropWhile is_space t = t" if "\<forall>c \<in> set t. \<not> is_space c" for t
    using that by (cases t) simp_all
  from this [of s] this [of "rev s"] assms show ?thesis by (simp add: trim_ascii(1))
qed

end
