(* ===== verification/Address.thy ===== *)
theory Address
  imports Identity HashMap Text
begin

text \<open>
  Address resolution, \<^verbatim>\<open>crates/vpn/src/address.rs\<close>: parsing \<^verbatim>\<open>node:<name>[:<port>]\<close>, the trait
  \<open>AddressResolver\<close> as the locale \<open>address_resolver\<close>, the in-memory resolver and the caching
  wrapper that turns any resolver into another one. The locale's laws say what a cached entry
  answers until it expires; both implementations are interpretations of it.
\<close>

datatype AddressError =
    InvalidFormat string
  | UnknownNode string
  | ResolveTimeout string
  | CacheExpired string

fun show_address_error :: "AddressError \<Rightarrow> string" where
  "show_address_error (InvalidFormat msg) = ''invalid address format: '' @ msg"
| "show_address_error (UnknownNode name) = ''unknown node: '' @ name"
| "show_address_error (ResolveTimeout name) = ''resolve timeout for node: '' @ name"
| "show_address_error (CacheExpired name) = ''cache expired for node: '' @ name"

record ParsedAddress =
  addr_name :: string
  addr_port :: "u16 option"

section \<open>Parsing\<close>

text \<open>\<^verbatim>\<open>splitn(3, ':')\<close>: at most three pieces, the last keeps further colons.\<close>

definition splitn3 :: "char \<Rightarrow> string \<Rightarrow> string list" where
  "splitn3 c s =
     (case split_once c s of
        (a, None) \<Rightarrow> [a]
      | (a, Some r) \<Rightarrow>
          (case split_once c r of (b, None) \<Rightarrow> [a, b] | (b, Some r') \<Rightarrow> [a, b, r']))"

text \<open>\<^verbatim>\<open>str::parse::<u16>\<close>: an optional plus sign and at least one digit, in range.\<close>

definition parse_u16 :: "string \<Rightarrow> u16 option" where
  "parse_u16 s = map_option of_nat (parse_below (2 ^ 16) s)"

definition parse_address :: "string \<Rightarrow> (AddressError, ParsedAddress) result" where
  "parse_address addr =
     (case splitn3 (CHR '':'') addr of
        [pre, name] \<Rightarrow>
          if pre \<noteq> ''node'' then Inl (InvalidFormat (''expected node:<name> or node:<name>:<port>, got: '' @ addr))
          else if name = [] then Inl (InvalidFormat ''node name cannot be empty'')
          else Inr \<lparr>addr_name = name, addr_port = None\<rparr>
      | [pre, name, port_str] \<Rightarrow>
          if pre \<noteq> ''node'' then Inl (InvalidFormat (''expected node:<name> or node:<name>:<port>, got: '' @ addr))
          else if name = [] then Inl (InvalidFormat ''node name cannot be empty'')
          else (case parse_u16 port_str of
                  None \<Rightarrow> Inl (InvalidFormat (''invalid port number: '' @ port_str))
                | Some port \<Rightarrow>
                    if port = 0 then Inl (InvalidFormat ''port number cannot be zero'')
                    else Inr \<lparr>addr_name = name, addr_port = Some port\<rparr>)
      | _ \<Rightarrow> Inl (InvalidFormat (''expected node:<name> or node:<name>:<port>, got: '' @ addr)))"

definition is_node_address :: "string \<Rightarrow> bool" where
  "is_node_address addr = (take 5 addr = ''node:'')"

section \<open>The trait AddressResolver\<close>

locale address_resolver =
  fixes resolve :: "instant \<Rightarrow> string \<Rightarrow> 's \<Rightarrow> 's \<times> (AddressError, NodeID) result"
    and cache :: "instant \<Rightarrow> string \<Rightarrow> NodeID \<Rightarrow> nat \<Rightarrow> 's \<Rightarrow> 's"
    and get_cached :: "instant \<Rightarrow> string \<Rightarrow> 's \<Rightarrow> NodeID option"
    and clear_cache :: "'s \<Rightarrow> 's"
  assumes get_cached_cache:
      "get_cached now n (cache t n i ttl s) = (if now - t > ttl then None else Some i)"
    and get_cached_other: "n' \<noteq> n \<Longrightarrow> get_cached now n' (cache t n i ttl s) = get_cached now n' s"
    and get_cached_clear: "get_cached now n (clear_cache s) = None"
    and resolve_hit: "get_cached now n s = Some i \<Longrightarrow> resolve now n s = (s, Inr i)"
    and resolve_caches: "resolve now n s = (s', Inr i) \<Longrightarrow> get_cached now n s' = Some i"
    and resolve_frame: "n' \<noteq> n \<Longrightarrow> get_cached t n' (fst (resolve now n s)) = get_cached t n' s"
begin

text \<open>Resolving is idempotent: the second call answers from the cache and changes nothing.\<close>

lemma resolve_again: "resolve now n s = (s', Inr i) \<Longrightarrow> resolve now n s' = (s', Inr i)"
  using resolve_caches resolve_hit by blast

text \<open>A cached name resolves to the cached node until its time to live is over.\<close>

lemma resolve_after_cache: "now - t \<le> ttl \<Longrightarrow> snd (resolve now n (cache t n i ttl s)) = Inr i"
  by (simp add: resolve_hit get_cached_cache)

lemma last_cache_wins:
  "now - t' \<le> ttl' \<Longrightarrow> snd (resolve now n (cache t' n i' ttl' (cache t n i ttl s))) = Inr i'"
  by (rule resolve_after_cache)

end

section \<open>The in-memory resolver\<close>

record CacheEntry =
  ce_id :: NodeID
  inserted_at :: instant
  ttl :: nat

definition is_expired :: "instant \<Rightarrow> CacheEntry \<Rightarrow> bool" where
  "is_expired now e = (now - inserted_at e > ttl e)"

record MemAddressResolver =
  mem_cache_map :: "(string, CacheEntry) hmap"
  static_map :: "(string, NodeID) hmap"
  default_ttl :: nat

definition mem_new :: MemAddressResolver where
  "mem_new = \<lparr>mem_cache_map = [], static_map = [], default_ttl = 300 * 1000\<rparr>"

definition mem_with_ttl :: "nat \<Rightarrow> MemAddressResolver" where
  "mem_with_ttl d = \<lparr>mem_cache_map = [], static_map = [], default_ttl = d\<rparr>"

definition add_static_mapping :: "string \<Rightarrow> NodeID \<Rightarrow> MemAddressResolver \<Rightarrow> MemAddressResolver" where
  "add_static_mapping n i s = s\<lparr>static_map := hm_insert n i (static_map s)\<rparr>"

definition remove_static_mapping ::
  "string \<Rightarrow> MemAddressResolver \<Rightarrow> MemAddressResolver \<times> NodeID option" where
  "remove_static_mapping n s = (s\<lparr>static_map := hm_remove n (static_map s)\<rparr>, hm_get (static_map s) n)"

definition known_nodes :: "instant \<Rightarrow> MemAddressResolver \<Rightarrow> nat" where
  "known_nodes now s = length (static_map s)
     + length (filter (\<lambda>e. \<not> is_expired now e) (hm_values (mem_cache_map s)))"

definition mem_cache :: "instant \<Rightarrow> string \<Rightarrow> NodeID \<Rightarrow> nat \<Rightarrow> MemAddressResolver \<Rightarrow> MemAddressResolver" where
  "mem_cache now n i d s =
     s\<lparr>mem_cache_map := hm_insert n \<lparr>ce_id = i, inserted_at = now, ttl = d\<rparr> (mem_cache_map s)\<rparr>"

definition mem_get_cached :: "instant \<Rightarrow> string \<Rightarrow> MemAddressResolver \<Rightarrow> NodeID option" where
  "mem_get_cached now n s =
     (case hm_get (mem_cache_map s) n of
        None \<Rightarrow> None
      | Some e \<Rightarrow> if is_expired now e then None else Some (ce_id e))"

definition mem_clear_cache :: "MemAddressResolver \<Rightarrow> MemAddressResolver" where
  "mem_clear_cache s = s\<lparr>mem_cache_map := []\<rparr>"

definition mem_resolve ::
  "instant \<Rightarrow> string \<Rightarrow> MemAddressResolver \<Rightarrow> MemAddressResolver \<times> (AddressError, NodeID) result" where
  "mem_resolve now n s =
     (let not_cached =
            (case hm_get (static_map s) n of
               Some i \<Rightarrow> (mem_cache now n i (default_ttl s) s, Inr i)
             | None \<Rightarrow> (s, Inl (UnknownNode n)))
      in case hm_get (mem_cache_map s) n of
           Some e \<Rightarrow> if \<not> is_expired now e then (s, Inr (ce_id e)) else not_cached
         | None \<Rightarrow> not_cached)"

interpretation mem: address_resolver mem_resolve mem_cache mem_get_cached mem_clear_cache
  by unfold_locales
     (auto simp: mem_resolve_def mem_cache_def mem_get_cached_def mem_clear_cache_def is_expired_def
        Let_def split: option.splits if_splits)

section \<open>The caching wrapper\<close>

text \<open>
  \<open>CachingResolver<R>\<close> over the operations of the inner resolver; its state pairs the inner
  state with its own cache.
\<close>

record 's CachingResolver =
  inner :: 's
  own_cache :: "(string, CacheEntry) hmap"

definition caching_new :: "'s \<Rightarrow> 's CachingResolver" where
  "caching_new s = \<lparr>inner = s, own_cache = []\<rparr>"

definition caching_cache ::
  "(instant \<Rightarrow> string \<Rightarrow> NodeID \<Rightarrow> nat \<Rightarrow> 's \<Rightarrow> 's)
     \<Rightarrow> instant \<Rightarrow> string \<Rightarrow> NodeID \<Rightarrow> nat \<Rightarrow> 's CachingResolver \<Rightarrow> 's CachingResolver" where
  "caching_cache inner_cache now n i d s =
     s\<lparr>own_cache := hm_insert n \<lparr>ce_id = i, inserted_at = now, ttl = d\<rparr> (own_cache s),
       inner := inner_cache now n i d (inner s)\<rparr>"

definition caching_get_cached :: "instant \<Rightarrow> string \<Rightarrow> 's CachingResolver \<Rightarrow> NodeID option" where
  "caching_get_cached now n s =
     (case hm_get (own_cache s) n of
        None \<Rightarrow> None
      | Some e \<Rightarrow> if is_expired now e then None else Some (ce_id e))"

definition caching_clear_cache :: "('s \<Rightarrow> 's) \<Rightarrow> 's CachingResolver \<Rightarrow> 's CachingResolver" where
  "caching_clear_cache inner_clear s = s\<lparr>own_cache := [], inner := inner_clear (inner s)\<rparr>"

definition caching_resolve ::
  "(instant \<Rightarrow> string \<Rightarrow> 's \<Rightarrow> 's \<times> (AddressError, NodeID) result)
     \<Rightarrow> (instant \<Rightarrow> string \<Rightarrow> NodeID \<Rightarrow> nat \<Rightarrow> 's \<Rightarrow> 's)
     \<Rightarrow> instant \<Rightarrow> string \<Rightarrow> 's CachingResolver \<Rightarrow> 's CachingResolver \<times> (AddressError, NodeID) result" where
  "caching_resolve inner_resolve inner_cache now n s =
     (let delegate =
            (let (t, r) = inner_resolve now n (inner s); s = s\<lparr>inner := t\<rparr>
             in case r of
                  Inl e \<Rightarrow> (s, Inl e)
                | Inr i \<Rightarrow> (caching_cache inner_cache now n i (300 * 1000) s, Inr i))
      in case hm_get (own_cache s) n of
           Some e \<Rightarrow> if \<not> is_expired now e then (s, Inr (ce_id e)) else delegate
         | None \<Rightarrow> delegate)"

context address_resolver
begin

text \<open>Wrapping a resolver gives a resolver.\<close>

lemma caching_is_resolver:
  "address_resolver (caching_resolve resolve cache) (caching_cache cache) caching_get_cached
     (caching_clear_cache clear_cache)"
  by unfold_locales
     (auto simp: caching_resolve_def caching_cache_def caching_get_cached_def caching_clear_cache_def
        is_expired_def Let_def split: option.splits if_splits sum.splits prod.splits)

end

interpretation caching: address_resolver "caching_resolve mem_resolve mem_cache"
    "caching_cache mem_cache" caching_get_cached "caching_clear_cache mem_clear_cache"
  by (rule mem.caching_is_resolver)

definition resolve_address ::
  "(string \<Rightarrow> 's \<Rightarrow> 's \<times> (AddressError, NodeID) result) \<Rightarrow> string \<Rightarrow> 's
     \<Rightarrow> 's \<times> (AddressError, ParsedAddress \<times> NodeID) result" where
  "resolve_address resolver addr s =
     (case parse_address addr of
        Inl e \<Rightarrow> (s, Inl e)
      | Inr parsed \<Rightarrow>
          (case resolver (addr_name parsed) s of
             (s', Inl e) \<Rightarrow> (s', Inl e)
           | (s', Inr i) \<Rightarrow> (s', Inr (parsed, i))))"

section \<open>Correctness\<close>

definition show_address :: "ParsedAddress \<Rightarrow> string" where
  "show_address p = ''node:'' @ addr_name p
     @ (case addr_port p of None \<Rightarrow> [] | Some port \<Rightarrow> CHR '':'' # show_nat (unat port))"

definition address_ok :: "ParsedAddress \<Rightarrow> bool" where
  "address_ok p \<longleftrightarrow> addr_name p \<noteq> [] \<and> CHR '':'' \<notin> set (addr_name p) \<and> addr_port p \<noteq> Some 0"

lemma parse_u16_show: "parse_u16 (show_nat (unat (p :: u16))) = Some p"
  using unsigned_less [of p, where 'a = nat] by (simp add: parse_u16_def parse_below_show)

text \<open>
  Addresses round-trip: printing a well-formed address (non-empty name without a colon, port
  absent or non-zero) as \<^verbatim>\<open>node:name[:port]\<close> and parsing it gives the address back.
\<close>

theorem parse_show_address:
  assumes "address_ok p"
  shows "parse_address (show_address p) = Inr p"
proof -
  have node: "split_once (CHR '':'') (''node:'' @ r) = (''node'', Some r)" for r
    using split_once_append [of "CHR '':''" "''node''" r] by simp
  show ?thesis
  proof (cases "addr_port p")
    case None
    with assms node show ?thesis
      by (cases p) (simp add: parse_address_def show_address_def splitn3_def split_once_notin address_ok_def)
  next
    case (Some port)
    with assms node show ?thesis
      by (cases p) (simp add: parse_address_def show_address_def splitn3_def split_once_append
          address_ok_def parse_u16_show)
  qed
qed

theorem parse_show_address_witness:
  "parse_address ''node:srv'' = Inr \<lparr>addr_name = ''srv'', addr_port = None\<rparr>"
  using parse_show_address [of "\<lparr>addr_name = ''srv'', addr_port = None\<rparr>"]
  by (simp add: address_ok_def show_address_def)

text \<open>
  Only such strings are accepted: whatever \<open>parse_address\<close> accepts yields a well-formed
  address whose name is the text between the first two colons.
\<close>

theorem parse_address_sound:
  assumes "parse_address s = Inr p"
  shows "address_ok p \<and> is_node_address s \<and>
    (\<exists>port_str. s = ''node:'' @ addr_name p @ port_str
       \<and> (addr_port p = None \<longleftrightarrow> port_str = [])
       \<and> (port_str \<noteq> [] \<longrightarrow> hd port_str = CHR '':'' \<and> parse_u16 (tl port_str) = addr_port p))"
proof -
  obtain a r where a: "split_once (CHR '':'') s = (a, Some r)"
    using assms by (auto simp: parse_address_def splitn3_def split: prod.splits option.splits if_splits)
  from split_once_SomeD [OF a] have s: "s = a @ CHR '':'' # r" by simp
  show ?thesis
  proof (cases "snd (split_once (CHR '':'') r)")
    case None
    then obtain b where b: "split_once (CHR '':'') r = (b, None)" by (cases "split_once (CHR '':'') r") auto
    from split_once_NoneD [OF b] assms a b s show ?thesis
      by (auto simp: parse_address_def splitn3_def address_ok_def is_node_address_def split: if_splits)
  next
    case (Some r')
    then obtain b where b: "split_once (CHR '':'') r = (b, Some r')" by (cases "split_once (CHR '':'') r") auto
    from split_once_SomeD [OF b] assms a b s show ?thesis
      by (auto simp: parse_address_def splitn3_def address_ok_def is_node_address_def
          split: if_splits option.splits)
  qed
qed

theorem parse_address_sound_witness:
  "is_node_address ''node:srv''"
  using parse_address_sound [of "''node:srv''" "\<lparr>addr_name = ''srv'', addr_port = None\<rparr>"]
  by (simp add: parse_address_def splitn3_def)

text \<open>
  The caching wrapper over the in-memory resolver: once a name was resolved to a node, further
  lookups of it within the five minutes of the wrapper's time to live give the same node,
  whatever happens to the inner resolver's static mapping, and do not touch the inner state.
\<close>

theorem caching_resolver_stable:
  assumes "caching_resolve mem_resolve mem_cache t n s = (s', Inr i)"
    and "caching_get_cached t n s = None" and "now - t \<le> 300 * 1000"
    and "own_cache s'' = own_cache s'"
  shows "caching_resolve mem_resolve mem_cache now n s'' = (s'', Inr i)"
proof -
  have "hm_get (own_cache s') n = Some \<lparr>ce_id = i, inserted_at = t, ttl = 300 * 1000\<rparr>"
    using assms(1,2)
    by (auto simp: caching_resolve_def caching_get_cached_def caching_cache_def Let_def
        split: option.splits if_splits sum.splits prod.splits)
  with assms(3,4) have "caching_get_cached now n s'' = Some i"
    by (simp add: caching_get_cached_def is_expired_def)
  then show ?thesis by (rule caching.resolve_hit)
qed

theorem caching_resolver_stable_witness:
  "let s = caching_new (add_static_mapping ''a'' [1] mem_new);
       s' = fst (caching_resolve mem_resolve mem_cache 0 ''a'' s)
   in snd (caching_resolve mem_resolve mem_cache 1000 ''a'' (s'\<lparr>inner := mem_new\<rparr>)) = Inr [1]"
proof -
  let ?s = "caching_new (add_static_mapping ''a'' [1] mem_new)"
  let ?r = "caching_resolve mem_resolve mem_cache 0 ''a'' ?s"
  have "snd ?r = Inr [1]" "caching_get_cached 0 ''a'' ?s = None"
    by (simp_all add: caching_resolve_def caching_new_def mem_resolve_def mem_new_def
        add_static_mapping_def caching_get_cached_def)
  then show ?thesis
    using caching_resolver_stable [of 0 "''a''" ?s "fst ?r" "[1]" 1000 "(fst ?r)\<lparr>inner := mem_new\<rparr>"]
    by (simp add: prod_eq_iff)
qed

end
