(* ===== verification/Router.thy ===== *)
theory Router
  imports Identity HashMap
begin

text \<open>
  The routing table, \<^verbatim>\<open>crates/vpn/src/router.rs\<close>: entries by target, with \<open>upsert\<close>,
  \<open>remove\<close>, \<open>lookup\<close> and \<open>best_route\<close>, and the manager that wraps one table. The table is
  keyed by target, so the choice by metric in \<open>best_route\<close> never has more than one candidate:
  on every table the operations can build it equals \<open>lookup\<close>.
\<close>

datatype ConnectionType = Lan | Vpn | Relay | Unknown

datatype NodeStatus = Online | Offline | Connecting | NodeError

datatype RouterError =
    Unreachable string
  | Timeout
  | NoRoute NodeID
  | SendFailed string
  | NodeOffline NodeID
  | InvalidData string

fun show_connection_type :: "ConnectionType \<Rightarrow> string" where
  "show_connection_type Lan = ''LAN''"
| "show_connection_type Vpn = ''VPN''"
| "show_connection_type Relay = ''Relay''"
| "show_connection_type Unknown = ''Unknown''"

fun show_node_status :: "NodeStatus \<Rightarrow> string" where
  "show_node_status Online = ''online''"
| "show_node_status Offline = ''offline''"
| "show_node_status Connecting = ''connecting''"
| "show_node_status NodeError = ''error''"

text \<open>The identifier is displayed in hexadecimal.\<close>

fun show_router_error :: "hex_codec \<Rightarrow> RouterError \<Rightarrow> string" where
  "show_router_error H (Unreachable tgt) = ''target unreachable: '' @ tgt"
| "show_router_error H Timeout = ''connection timeout''"
| "show_router_error H (NoRoute i) = ''no route to node: '' @ to_hex H i"
| "show_router_error H (SendFailed msg) = ''send failed: '' @ msg"
| "show_router_error H (NodeOffline i) = ''node offline: '' @ to_hex H i"
| "show_router_error H (InvalidData msg) = ''invalid data: '' @ msg"

record RouterStatus =
  node_status :: NodeStatus
  status_connection :: ConnectionType
  known_node_total :: nat
  active_routes :: nat
  last_update :: u64

record RouteEntry =
  target :: NodeID
  next_hop :: NodeID
  connection_type :: ConnectionType
  metric :: u32
  last_active :: u64

record RouteTable =
  routes :: "(NodeID, RouteEntry) hmap"

definition route_table_new :: RouteTable where
  "route_table_new = \<lparr>routes = []\<rparr>"

definition upsert :: "RouteEntry \<Rightarrow> RouteTable \<Rightarrow> RouteTable" where
  "upsert e t = t\<lparr>routes := hm_insert (target e) e (routes t)\<rparr>"

definition remove_route :: "NodeID \<Rightarrow> RouteTable \<Rightarrow> RouteTable \<times> RouteEntry option" where
  "remove_route n t = (t\<lparr>routes := hm_remove n (routes t)\<rparr>, hm_get (routes t) n)"

definition lookup :: "NodeID \<Rightarrow> RouteTable \<Rightarrow> RouteEntry option" where
  "lookup n t = hm_get (routes t) n"

definition entries :: "RouteTable \<Rightarrow> RouteEntry list" where
  "entries t = hm_values (routes t)"

definition route_len :: "RouteTable \<Rightarrow> nat" where
  "route_len t = length (routes t)"

definition route_is_empty :: "RouteTable \<Rightarrow> bool" where
  "route_is_empty t = (routes t = [])"

definition clear_routes :: "RouteTable \<Rightarrow> RouteTable" where
  "clear_routes t = t\<lparr>routes := []\<rparr>"

definition best_route :: "NodeID \<Rightarrow> RouteTable \<Rightarrow> RouteEntry option" where
  "best_route n t = min_by_key metric (filter (\<lambda>e. target e = n) (hm_values (routes t)))"

record RouterManager =
  route_table :: RouteTable
  manager_name :: string

definition manager_new :: "string \<Rightarrow> RouterManager" where
  "manager_new n = \<lparr>route_table = route_table_new, manager_name = n\<rparr>"

definition manager_add_route :: "RouteEntry \<Rightarrow> RouterManager \<Rightarrow> RouterManager" where
  "manager_add_route e m = m\<lparr>route_table := upsert e (route_table m)\<rparr>"

definition manager_remove_route :: "NodeID \<Rightarrow> RouterManager \<Rightarrow> RouterManager \<times> RouteEntry option" where
  "manager_remove_route n m =
     (let (t, r) = remove_route n (route_table m) in (m\<lparr>route_table := t\<rparr>, r))"

definition manager_find_route :: "NodeID \<Rightarrow> RouterManager \<Rightarrow> RouteEntry option" where
  "manager_find_route n m = lookup n (route_table m)"

section \<open>Reachable tables\<close>

inductive table_reachable :: "RouteTable \<Rightarrow> bool" where
  table_new: "table_reachable route_table_new"
| table_upsert: "table_reachable t \<Longrightarrow> table_reachable (upsert e t)"
| table_remove: "table_reachable t \<Longrightarrow> table_reachable (fst (remove_route n t))"
| table_clear: "table_reachable t \<Longrightarrow> table_reachable (clear_routes t)"

definition table_inv :: "RouteTable \<Rightarrow> bool" where
  "table_inv t \<longleftrightarrow> hm_ok (routes t) \<and> (\<forall>n e. hm_get (routes t) n = Some e \<longrightarrow> target e = n)"

lemma table_reachable_inv: "table_reachable t \<Longrightarrow> table_inv t"
  by (induction rule: table_reachable.induct)
     (auto simp: table_inv_def route_table_new_def upsert_def remove_route_def clear_routes_def
        split: if_splits)

lemma table_inv_filter:
  assumes "table_inv t"
  shows "filter (\<lambda>e. target e = n) (hm_values (routes t)) = (case lookup n t of None \<Rightarrow> [] | Some e \<Rightarrow> [e])"
proof -
  have one: "filter (\<lambda>e. target e = n) (map snd m) = (case hm_get m n of None \<Rightarrow> [] | Some e \<Rightarrow> [e])"
    if "hm_ok m" "\<forall>(k, e) \<in> set m. target e = k" for m :: "(NodeID, RouteEntry) hmap"
    using that
  proof (induction m)
    case (Cons p m)
    then have "hm_get m (fst p) = None" by (simp add: hm_ok_def map_of_eq_None_iff)
    with Cons show ?case by (cases p) (auto simp: hm_ok_def)
  qed simp
  have "\<forall>(k, e) \<in> set (routes t). target e = k" and "hm_ok (routes t)"
    using assms by (auto simp: table_inv_def hm_mem_get)
  from one [OF this(2,1)] show ?thesis
    by (simp add: hm_values_def lookup_def)
qed

text \<open>
  In every table that can be built from an empty one, \<open>best_route\<close> and \<open>lookup\<close> agree: there
  is at most one entry per target, and the metric never decides.
\<close>

theorem best_route_is_lookup:
  assumes "table_reachable t"
  shows "best_route n t = lookup n t"
  using table_inv_filter [OF table_reachable_inv [OF assms], of n]
  by (simp add: best_route_def split: option.splits)

theorem best_route_is_lookup_witness:
  "let e = \<lparr>target = [1], next_hop = [2], connection_type = Lan, metric = 9, last_active = 0\<rparr>;
       t = upsert e (upsert (e\<lparr>metric := 1\<rparr>) route_table_new)
   in best_route [1] t = Some e"
proof -
  let ?e = "\<lparr>target = [1], next_hop = [2], connection_type = Lan, metric = 9, last_active = 0\<rparr>"
  have "table_reachable (upsert ?e (upsert (?e\<lparr>metric := 1\<rparr>) route_table_new))"
    by (intro table_upsert table_new)
  from best_route_is_lookup [OF this, of "[1]"] show ?thesis
    by (simp add: lookup_def upsert_def)
qed

end
