(* ===== verification/Relaying.thy ===== *)
theory Relaying
  imports Identity HashMap
begin

text \<open>
  TCP relaying, \<^verbatim>\<open>crates/vpn/src/vpn/relay.rs\<close>: the length-prefixed message frame, the
  connection pool with its count of connections in use, and the relay manager's choice of a
  next hop. A TCP stream is a number; whether it is still connected and whether connecting
  succeeds are given by the caller. The frame is a \<open>prefix_codec\<close>.
\<close>

section \<open>Messages\<close>

datatype MessageType =
    MHandshake | MData | MAck | MHeartbeat | MRelay | MRegistry | MDht | MRoute | MSelfHeal

definition mt_from_u8 :: "u8 \<Rightarrow> MessageType option" where
  "mt_from_u8 b =
     (if b = 1 then Some MHandshake else if b = 2 then Some MData else if b = 3 then Some MAck
      else if b = 4 then Some MHeartbeat else if b = 5 then Some MRelay
      else if b = 6 then Some MRegistry else if b = 7 then Some MDht
      else if b = 8 then Some MRoute else if b = 9 then Some MSelfHeal else None)"

fun mt_to_u8 :: "MessageType \<Rightarrow> u8" where
  "mt_to_u8 MHandshake = 1"
| "mt_to_u8 MData = 2"
| "mt_to_u8 MAck = 3"
| "mt_to_u8 MHeartbeat = 4"
| "mt_to_u8 MRelay = 5"
| "mt_to_u8 MRegistry = 6"
| "mt_to_u8 MDht = 7"
| "mt_to_u8 MRoute = 8"
| "mt_to_u8 MSelfHeal = 9"

datatype RelayError = IoError | ConnectionError string | ParseError string | PoolFull
  | RelayUnreachable NodeID | RelayTimeout

record Message =
  msg_type :: MessageType
  payload :: bytes

definition message_new :: "MessageType \<Rightarrow> bytes \<Rightarrow> Message" where
  "message_new t p = \<lparr>msg_type = t, payload = p\<rparr>"

definition message_to_bytes :: "Message \<Rightarrow> bytes" where
  "message_to_bytes m =
     be_bytes 4 (of_nat (length (payload m)) :: u32) @ [mt_to_u8 (msg_type m)] @ payload m"

definition message_from_bytes :: "bytes \<Rightarrow> (RelayError, Message) result" where
  "message_from_bytes dat =
     (if length dat < 5 then Inl (ParseError ''message too short'')
      else
        let len = unat (be_word (take 4 dat) :: u32)
        in case mt_from_u8 (dat ! 4) of
             None \<Rightarrow> Inl (ParseError (''invalid message type: '' @ show_nat (unat (dat ! 4))))
           | Some t \<Rightarrow>
               if length dat < 5 + len
               then Inl (ParseError (''payload too short: expected '' @ show_nat len @ '' bytes''))
               else Inr \<lparr>msg_type = t, payload = take len (drop 5 dat)\<rparr>)"

text \<open>
  \<open>read_message\<close> on the bytes still in the stream, with the bytes left over. The sender is a
  placeholder: the source fills in 32 zero bytes.
\<close>

definition read_message :: "bytes \<Rightarrow> (RelayError, ((NodeID \<times> Message) \<times> bytes) option) result" where
  "read_message bs =
     (if length bs < 4 then Inr None
      else
        let len = unat (be_word (take 4 bs) :: u32)
        in if len > 1024 * 1024 then Inl (ParseError ''message too large'')
           else if length bs < 5 + len then Inl IoError
           else case mt_from_u8 (bs ! 4) of
                  None \<Rightarrow> Inl (ParseError (''invalid type: '' @ show_nat (unat (bs ! 4))))
                | Some t \<Rightarrow>
                    Inr (Some ((replicate 32 0, \<lparr>msg_type = t, payload = take len (drop 5 bs)\<rparr>),
                               drop (5 + len) bs)))"

section \<open>The connection pool\<close>

record PooledConnection =
  stream :: nat
  last_used :: instant
  in_use :: bool

record ConnectionPool =
  pool_conns :: "(string, PooledConnection list) hmap"
  max_size :: nat
  max_idle :: nat
  active_count :: u64

definition pool_new :: "nat \<Rightarrow> ConnectionPool" where
  "pool_new n = \<lparr>pool_conns = [], max_size = n, max_idle = 60 * 1000, active_count = 0\<rparr>"

text \<open>The search loop of \<open>get_connection\<close>: take the first usable connection.\<close>

fun take_idle ::
  "instant \<Rightarrow> (nat \<Rightarrow> bool) \<Rightarrow> PooledConnection list \<Rightarrow> (PooledConnection list \<times> nat) option" where
  "take_idle now alive [] = None"
| "take_idle now alive (c # cs) =
     (if \<not> in_use c \<and> alive (stream c) then Some (c\<lparr>in_use := True, last_used := now\<rparr> # cs, stream c)
      else map_option (\<lambda>(cs', s). (c # cs', s)) (take_idle now alive cs))"

definition get_connection ::
  "instant \<Rightarrow> (nat \<Rightarrow> bool) \<Rightarrow> nat option \<Rightarrow> string \<Rightarrow> ConnectionPool \<Rightarrow> ConnectionPool \<times> (RelayError, nat) result" where
  "get_connection now alive connect addr p =
     (let pool = (case hm_get (pool_conns p) addr of None \<Rightarrow> [] | Some cs \<Rightarrow> cs);
          put = (\<lambda>cs. p\<lparr>pool_conns := hm_insert addr cs (pool_conns p)\<rparr>)
      in case take_idle now alive pool of
           Some (pool', s) \<Rightarrow> ((put pool')\<lparr>active_count := active_count p + 1\<rparr>, Inr s)
         | None \<Rightarrow>
             if length pool < max_size p then
               (case connect of
                  None \<Rightarrow> (put pool, Inl IoError)
                | Some s \<Rightarrow>
                    ((put (pool @ [\<lparr>stream = s, last_used = now, in_use = True\<rparr>]))
                       \<lparr>active_count := active_count p + 1\<rparr>, Inr s))
             else (put pool, Inl PoolFull))"

fun release_first ::
  "instant \<Rightarrow> (nat \<Rightarrow> bool) \<Rightarrow> PooledConnection list \<Rightarrow> PooledConnection list option" where
  "release_first now alive [] = None"
| "release_first now alive (c # cs) =
     (if in_use c \<and> alive (stream c) then Some (c\<lparr>in_use := False, last_used := now\<rparr> # cs)
      else map_option (\<lambda>cs'. c # cs') (release_first now alive cs))"

definition return_connection :: "instant \<Rightarrow> (nat \<Rightarrow> bool) \<Rightarrow> string \<Rightarrow> ConnectionPool \<Rightarrow> ConnectionPool" where
  "return_connection now alive addr p =
     (let p' = p\<lparr>active_count := active_count p - 1\<rparr>
      in case hm_get (pool_conns p) addr of
           None \<Rightarrow> p'
         | Some cs \<Rightarrow>
             (case release_first now alive cs of
                None \<Rightarrow> p'
              | Some cs' \<Rightarrow> p'\<lparr>pool_conns := hm_insert addr cs' (pool_conns p)\<rparr>))"

definition is_idle :: "instant \<Rightarrow> nat \<Rightarrow> PooledConnection \<Rightarrow> bool" where
  "is_idle now idle c = (\<not> in_use c \<and> now - last_used c > idle)"

definition cleanup_idle :: "instant \<Rightarrow> ConnectionPool \<Rightarrow> ConnectionPool" where
  "cleanup_idle now p =
     p\<lparr>pool_conns := hm_map_values (filter (\<lambda>c. \<not> is_idle now (max_idle p) c)) (pool_conns p)\<rparr>"

definition pool_clear :: "ConnectionPool \<Rightarrow> ConnectionPool" where
  "pool_clear p = p\<lparr>pool_conns := [], active_count := 0\<rparr>"

section \<open>The relay manager\<close>

record RelayManager =
  rm_local_id :: NodeID
  rm_known_nodes :: "(NodeID, string) hmap"
  relay_table :: "(NodeID, string) hmap"

definition relay_manager_new :: "NodeID \<Rightarrow> RelayManager" where
  "relay_manager_new i = \<lparr>rm_local_id = i, rm_known_nodes = [], relay_table = []\<rparr>"

definition register_node :: "NodeID \<Rightarrow> string \<Rightarrow> RelayManager \<Rightarrow> RelayManager" where
  "register_node i addr m = m\<lparr>rm_known_nodes := hm_insert i addr (rm_known_nodes m)\<rparr>"

definition get_node_addr :: "NodeID \<Rightarrow> RelayManager \<Rightarrow> string option" where
  "get_node_addr i m = hm_get (rm_known_nodes m) i"

definition set_relay :: "NodeID \<Rightarrow> string \<Rightarrow> RelayManager \<Rightarrow> RelayManager" where
  "set_relay tgt hop m = m\<lparr>relay_table := hm_insert tgt hop (relay_table m)\<rparr>"

text \<open>
  What is written to which address: the argument of \<open>client.send_message\<close>. The error names
  the target, where the source has its hexadecimal text.
\<close>

definition relay_send :: "NodeID \<Rightarrow> Message \<Rightarrow> RelayManager \<Rightarrow> (RelayError, string \<times> Message) result" where
  "relay_send tgt msg m =
     (case get_node_addr tgt m of
        Some addr \<Rightarrow> Inr (addr, msg)
      | None \<Rightarrow>
          (case hm_get (relay_table m) tgt of
             Some hop \<Rightarrow> Inr (hop, message_new MRelay tgt)
           | None \<Rightarrow> Inl (RelayUnreachable tgt)))"

definition relay_forward :: "NodeID \<Rightarrow> bytes \<Rightarrow> RelayManager \<Rightarrow> (RelayError, string \<times> Message) result" where
  "relay_forward tgt dat m =
     and_then (ok_or (RelayUnreachable tgt) (get_node_addr tgt m))
       (\<lambda>addr. Inr (addr, message_new MData dat))"

section \<open>Correctness of the frame\<close>

lemma mt_from_to [simp]: "mt_from_u8 (mt_to_u8 t) = Some t"
  by (cases t) (simp_all add: mt_from_u8_def)

lemma be_length_u32 [codec_simps]: "n < 2 ^ 32 \<Longrightarrow> unat (be_word (be_bytes 4 (of_nat n :: u32)) :: u32) = n"
  by (simp add: be_word_be_bytes unat_of_nat_small)

lemma message_from_to:
  "length (payload m) < 2 ^ 32 \<Longrightarrow> message_from_bytes (message_to_bytes m @ rest) = Inr m"
  by (simp add: message_from_bytes_def message_to_bytes_def be_length_u32 nth_append Let_def)

lemma read_message_to_bytes:
  "length (payload m) \<le> 1024 * 1024 \<Longrightarrow>
     read_message (message_to_bytes m @ rest) = Inr (Some ((replicate 32 0, m), rest))"
  by (simp add: read_message_def message_to_bytes_def be_length_u32 nth_append Let_def)

definition read_one :: "bytes \<Rightarrow> (Message \<times> bytes) option" where
  "read_one bs = (case read_message bs of Inr (Some ((_, m), r)) \<Rightarrow> Some (m, r) | _ \<Rightarrow> None)"

interpretation message_codec: prefix_codec message_to_bytes read_one
    "\<lambda>m. length (payload m) \<le> 1024 * 1024"
  by unfold_locales (simp add: read_one_def read_message_to_bytes)

text \<open>
  Frames survive the stream: \<open>from_bytes\<close> inverts \<open>to_bytes\<close> whatever follows, for payloads
  below 4 GiB; the server's \<open>read_message\<close> accepts the frame, and leaves what follows it,
  exactly when the payload is at most 1 MiB.
\<close>

theorem message_frame_roundtrip:
  assumes "length (payload m) < 2 ^ 32"
  shows "message_from_bytes (message_to_bytes m @ rest) = Inr m
    \<and> (read_message (message_to_bytes m @ rest) =
        (if length (payload m) \<le> 1024 * 1024 then Inr (Some ((replicate 32 0, m), rest))
         else Inl (ParseError ''message too large'')))"
  using assms message_from_to [of m rest] read_message_to_bytes [of m rest]
  by (auto simp: read_message_def message_to_bytes_def be_length_u32 Let_def)

theorem message_frame_roundtrip_witness:
  "message_from_bytes (message_to_bytes \<lparr>msg_type = MDht, payload = [1, 2]\<rparr> @ [9])
     = Inr \<lparr>msg_type = MDht, payload = [1, 2]\<rparr>"
  using message_frame_roundtrip [of "\<lparr>msg_type = MDht, payload = [1, 2]\<rparr>" "[9]"] by simp

section \<open>The pool's bookkeeping\<close>

definition in_use_count :: "ConnectionPool \<Rightarrow> nat" where
  "in_use_count p = sum_list (map (\<lambda>cs. length (filter in_use cs)) (hm_values (pool_conns p)))"

definition pool_inv :: "ConnectionPool \<Rightarrow> bool" where
  "pool_inv p \<longleftrightarrow> hm_ok (pool_conns p) \<and> active_count p = of_nat (in_use_count p)
     \<and> (\<forall>cs \<in> set (hm_values (pool_conns p)). length cs \<le> max_size p)"

lemma take_idle_SomeD:
  "take_idle now alive cs = Some (cs', s) \<Longrightarrow>
     length cs' = length cs \<and> length (filter in_use cs') = Suc (length (filter in_use cs))"
  by (induction cs arbitrary: cs') (auto split: if_splits)

lemma release_first_SomeD:
  "release_first now alive cs = Some cs' \<Longrightarrow>
     length cs' = length cs \<and> length (filter in_use cs) = Suc (length (filter in_use cs'))"
  by (induction cs arbitrary: cs') (auto split: if_splits)

lemma in_use_count_insert:
  assumes "hm_ok (pool_conns p)"
  shows "in_use_count (p\<lparr>pool_conns := hm_insert a cs (pool_conns p)\<rparr>)
      + (case hm_get (pool_conns p) a of None \<Rightarrow> 0 | Some old \<Rightarrow> length (filter in_use old))
    = in_use_count p + length (filter in_use cs)"
  using sum_values_insert [OF assms, of "\<lambda>cs. length (filter in_use cs)" a cs]
  by (simp add: in_use_count_def)

lemma in_use_count_cong: "pool_conns p = pool_conns q \<Longrightarrow> in_use_count p = in_use_count q"
  by (simp add: in_use_count_def)

text \<open>Replacing the pool of one address, with the counter moved by the same amount.\<close>

lemma pool_inv_put:
  assumes "pool_inv p" and "length cs \<le> max_size p"
    and "pool = (case hm_get (pool_conns p) a of None \<Rightarrow> [] | Some old \<Rightarrow> old)"
    and "int (length (filter in_use cs)) = int (length (filter in_use pool)) + d"
  shows "pool_inv (p\<lparr>pool_conns := hm_insert a cs (pool_conns p), active_count := active_count p + of_int d\<rparr>)"
proof -
  let ?q = "p\<lparr>pool_conns := hm_insert a cs (pool_conns p)\<rparr>"
  have "in_use_count ?q + length (filter in_use pool) = in_use_count p + length (filter in_use cs)"
    using in_use_count_insert [of p a cs] assms(1,3) by (simp add: pool_inv_def split: option.splits)
  with assms(4) have i: "int (in_use_count ?q) = int (in_use_count p) + d" by linarith
  have "(of_nat (in_use_count ?q) :: u64) = of_int (int (in_use_count p) + d)"
    using i by (metis of_int_of_nat_eq)
  moreover have "in_use_count (p\<lparr>pool_conns := hm_insert a cs (pool_conns p),
      active_count := active_count p + of_int d\<rparr>) = in_use_count ?q"
    by (rule in_use_count_cong) simp
  ultimately show ?thesis
    using assms(1,2) set_values_insert [of a cs "pool_conns p"]
    by (auto simp: pool_inv_def)
qed

lemma pool_inv_get: "pool_inv p \<Longrightarrow> pool_inv (fst (get_connection now alive connect addr p))"
proof -
  assume p: "pool_inv p"
  define pool where "pool = (case hm_get (pool_conns p) addr of None \<Rightarrow> [] | Some cs \<Rightarrow> cs)"
  have len: "length pool \<le> max_size p"
    using p hm_get_values [of "pool_conns p" addr] by (auto simp: pool_def pool_inv_def split: option.splits)
  note put = pool_inv_put [OF p _ pool_def]
  have same: "pool_inv (p\<lparr>pool_conns := hm_insert addr pool (pool_conns p)\<rparr>)"
    using put [OF len, of 0] by simp
  show ?thesis
  proof (cases "take_idle now alive pool")
    case (Some r)
    obtain cs' s where r: "r = (cs', s)" by force
    with Some take_idle_SomeD [of now alive pool cs' s] len put [of cs' 1]
    show ?thesis by (simp add: get_connection_def flip: pool_def)
  next
    case None
    show ?thesis
    proof (cases "length pool < max_size p")
      case False
      with None same show ?thesis by (simp add: get_connection_def flip: pool_def)
    next
      case True
      note room = this
      show ?thesis
      proof (cases connect)
        case None
        with room same \<open>take_idle now alive pool = None\<close> show ?thesis
          by (simp add: get_connection_def flip: pool_def)
      next
        case (Some s)
        with room put [of "pool @ [\<lparr>stream = s, last_used = now, in_use = True\<rparr>]" 1]
          \<open>take_idle now alive pool = None\<close>
        show ?thesis by (simp add: get_connection_def flip: pool_def)
      qed
    qed
  qed
qed

lemma pool_inv_return:
  assumes "pool_inv p" "hm_get (pool_conns p) addr = Some cs" "release_first now alive cs \<noteq> None"
  shows "pool_inv (return_connection now alive addr p)"
proof -
  obtain cs' where cs': "release_first now alive cs = Some cs'" using assms(3) by blast
  note len = release_first_SomeD [OF cs']
  have "length cs' \<le> max_size p"
    using len assms(1,2) hm_get_values [of "pool_conns p" addr cs] by (auto simp: pool_inv_def)
  then have "pool_inv (p\<lparr>pool_conns := hm_insert addr cs' (pool_conns p), active_count := active_count p + of_int (-1)\<rparr>)"
    by (rule pool_inv_put [OF assms(1), where pool = cs]) (use len assms(2) in simp_all)
  then show ?thesis using assms(2) cs' by (simp add: return_connection_def pool_inv_def in_use_count_def)
qed

lemma pool_inv_cleanup: "pool_inv p \<Longrightarrow> pool_inv (cleanup_idle now p)"
proof -
  assume p: "pool_inv p"
  have "length (filter in_use (filter (\<lambda>c. \<not> is_idle now i c) cs)) = length (filter in_use cs)" for i cs
    by (induction cs) (auto simp: is_idle_def)
  then have "in_use_count (cleanup_idle now p) = in_use_count p"
    by (simp add: in_use_count_def cleanup_idle_def comp_def)
  with p show ?thesis
    by (auto simp: pool_inv_def cleanup_idle_def intro: le_trans [OF length_filter_le])
qed

text \<open>
  The pool's books: every way of getting a connection (a pooled one, a new one, or an error),
  returning one that is out, and the idle clean-up keep the count of active connections equal
  to the number of connections marked in use (modulo \<open>2^64\<close>), and no address ever has more
  than \<open>max_size\<close> pooled connections.
\<close>

theorem pool_accounting:
  assumes "pool_inv p"
  shows "pool_inv (fst (get_connection now alive connect addr p))
    \<and> pool_inv (cleanup_idle now p)
    \<and> (\<forall>cs. hm_get (pool_conns p) addr = Some cs \<longrightarrow> release_first now alive cs \<noteq> None \<longrightarrow>
         pool_inv (return_connection now alive addr p))"
  using assms pool_inv_get pool_inv_cleanup pool_inv_return by blast

theorem pool_accounting_witness:
  "pool_inv (fst (get_connection 0 (\<lambda>_. True) (Some 7) ''a'' (pool_new 10)))"
proof -
  have "pool_inv (pool_new 10)"
    by (simp add: pool_inv_def pool_new_def in_use_count_def hm_values_def)
  from pool_accounting [OF this] show ?thesis by blast
qed

text \<open>
  Clearing the pool while a connection is out breaks the count: the later return subtracts
  from zero and the active count wraps to \<open>2^64 - 1\<close>.
\<close>

theorem pool_clear_underflow:
  "unat (active_count (return_connection now alive addr (pool_clear p))) = 2 ^ 64 - 1"
  using unat_max_word [where 'a = 64]
  by (simp add: return_connection_def pool_clear_def)

section \<open>Relayed messages\<close>

text \<open>
  Sending to a node that is known only through a relay drops the message: what goes to the next
  hop depends on the target alone, two different messages to the same target are relayed as
  the same bytes.
\<close>

theorem relay_send_drops_payload:
  assumes "get_node_addr tgt m = None" and "hm_get (relay_table m) tgt = Some hop"
  shows "relay_send tgt msg m = Inr (hop, message_new MRelay tgt)"
  using assms by (simp add: relay_send_def)

theorem relay_send_drops_payload_witness:
  "relay_send [5] (message_new MData [1, 2, 3]) (set_relay [5] ''hop'' (relay_manager_new [0]))
     = Inr (''hop'', message_new MRelay [5])"
  by (rule relay_send_drops_payload)
     (simp_all add: get_node_addr_def set_relay_def relay_manager_new_def)

end
