(* ===== verification/Dht.thy ===== *)
theory Dht
  imports Relaying
begin

text \<open>
  Node discovery, \<^verbatim>\<open>crates/vpn/src/vpn/dht.rs\<close>: a Kademlia-style routing table of 256
  buckets of at most 20 nodes, the value store with expiry, and the DHT messages with their
  binary formats. SHA-256 is a parameter; the clock readings (\<open>Instant\<close> in milliseconds for
  the buckets, Unix seconds for the values) are arguments. An address is its UTF-8 bytes.
\<close>

definition K_BUCKET_SIZE :: nat where "K_BUCKET_SIZE = 20"
definition BUCKET_COUNT :: nat where "BUCKET_COUNT = 256"
definition DEFAULT_VALUE_TTL :: u64 where "DEFAULT_VALUE_TTL = 3600"
definition NODE_TIMEOUT_SECS :: nat where "NODE_TIMEOUT_SECS = 600"

datatype DhtMessageType = Ping | Pong | FindNode | Nodes | Put | Get | Value

definition dht_from_u8 :: "u8 \<Rightarrow> DhtMessageType option" where
  "dht_from_u8 b =
     (if b = 1 then Some Ping else if b = 2 then Some Pong else if b = 3 then Some FindNode
      else if b = 4 then Some Nodes else if b = 5 then Some Put else if b = 6 then Some Get
      else if b = 7 then Some Value else None)"

fun dht_to_u8 :: "DhtMessageType \<Rightarrow> u8" where
  "dht_to_u8 Ping = 1"
| "dht_to_u8 Pong = 2"
| "dht_to_u8 FindNode = 3"
| "dht_to_u8 Nodes = 4"
| "dht_to_u8 Put = 5"
| "dht_to_u8 Get = 6"
| "dht_to_u8 Value = 7"

lemma dht_from_to_u8 [codec_simps]: "dht_from_u8 (dht_to_u8 t) = Some t"
  by (cases t) (simp_all add: dht_from_u8_def)

section \<open>K-buckets\<close>

record BucketEntry =
  node_id :: NodeID
  addr :: bytes
  last_seen :: instant

record KBucket =
  kb_entries :: "BucketEntry list"
  kb_capacity :: nat

definition kbucket_new :: "nat \<Rightarrow> KBucket" where
  "kbucket_new c = \<lparr>kb_entries = [], kb_capacity = c\<rparr>"

text \<open>The search of \<open>insert\<close>: overwrite the first entry of the node, in place.\<close>

fun overwrite_entry :: "instant \<Rightarrow> NodeID \<Rightarrow> bytes \<Rightarrow> BucketEntry list \<Rightarrow> BucketEntry list option" where
  "overwrite_entry now n a [] = None"
| "overwrite_entry now n a (e # es) =
     (if node_id e = n then Some (e\<lparr>last_seen := now, addr := a\<rparr> # es)
      else map_option (\<lambda>es'. e # es') (overwrite_entry now n a es))"

definition kb_insert :: "instant \<Rightarrow> NodeID \<Rightarrow> bytes \<Rightarrow> KBucket \<Rightarrow> KBucket \<times> (BucketEntry, bool) result" where
  "kb_insert now n a b =
     (case overwrite_entry now n a (kb_entries b) of
        Some es \<Rightarrow> (b\<lparr>kb_entries := es\<rparr>, Inr False)
      | None \<Rightarrow>
          let e = \<lparr>node_id = n, addr = a, last_seen = now\<rparr>
          in if length (kb_entries b) < kb_capacity b
             then (b\<lparr>kb_entries := kb_entries b @ [e]\<rparr>, Inr True)
             else (b, Inl e))"

text \<open>\<^verbatim>\<open>entries.remove(position)\<close>: the entry found and the others.\<close>

fun take_entry :: "NodeID \<Rightarrow> BucketEntry list \<Rightarrow> (BucketEntry \<times> BucketEntry list) option" where
  "take_entry n [] = None"
| "take_entry n (e # es) =
     (if node_id e = n then Some (e, es) else map_option (\<lambda>(x, r). (x, e # r)) (take_entry n es))"

definition kb_touch :: "instant \<Rightarrow> NodeID \<Rightarrow> KBucket \<Rightarrow> KBucket \<times> bool" where
  "kb_touch now n b =
     (case take_entry n (kb_entries b) of
        None \<Rightarrow> (b, False)
      | Some (e, es) \<Rightarrow> (b\<lparr>kb_entries := es @ [e\<lparr>last_seen := now\<rparr>]\<rparr>, True))"

definition kb_remove :: "NodeID \<Rightarrow> KBucket \<Rightarrow> KBucket \<times> BucketEntry option" where
  "kb_remove n b =
     (case take_entry n (kb_entries b) of
        None \<Rightarrow> (b, None)
      | Some (e, es) \<Rightarrow> (b\<lparr>kb_entries := es\<rparr>, Some e))"

definition kb_is_full :: "KBucket \<Rightarrow> bool" where
  "kb_is_full b = (kb_capacity b \<le> length (kb_entries b))"

fun least_recently_seen :: "KBucket \<Rightarrow> BucketEntry option" where
  "least_recently_seen b = (case kb_entries b of [] \<Rightarrow> None | e # _ \<Rightarrow> Some e)"

definition kb_clear :: "KBucket \<Rightarrow> KBucket" where
  "kb_clear b = b\<lparr>kb_entries := []\<rparr>"

section \<open>Values\<close>

record ValueEntry =
  entry_value :: bytes
  created_at :: u64
  ttl :: u64

definition value_entry_new :: "u64 \<Rightarrow> bytes \<Rightarrow> u64 \<Rightarrow> ValueEntry" where
  "value_entry_new secs v t = \<lparr>entry_value = v, created_at = secs, ttl = t\<rparr>"

definition value_is_expired :: "u64 \<Rightarrow> ValueEntry \<Rightarrow> bool" where
  "value_is_expired secs v = (created_at v + ttl v \<le> secs)"

section \<open>The manager: routing table\<close>

record DhtManager =
  local_id :: NodeID
  buckets :: "KBucket list"
  dht_values :: "(bytes, ValueEntry) hmap"
  local_addr :: bytes
  dht_relay_manager :: "RelayManager option"
  dht_running :: bool

definition init_buckets :: "KBucket list" where
  "init_buckets = replicate BUCKET_COUNT (kbucket_new K_BUCKET_SIZE)"

definition dht_new :: "NodeID \<Rightarrow> DhtManager" where
  "dht_new n = \<lparr>local_id = n, buckets = init_buckets, dht_values = [], local_addr = [],
     dht_relay_manager = None, dht_running = False\<rparr>"

definition set_relay_manager :: "RelayManager \<Rightarrow> DhtManager \<Rightarrow> DhtManager" where
  "set_relay_manager r d = d\<lparr>dht_relay_manager := Some r\<rparr>"

definition set_local_addr :: "bytes \<Rightarrow> DhtManager \<Rightarrow> DhtManager" where
  "set_local_addr a d = d\<lparr>local_addr := a\<rparr>"

definition dht_start :: "DhtManager \<Rightarrow> DhtManager" where
  "dht_start d = d\<lparr>dht_running := True\<rparr>"

definition dht_stop :: "DhtManager \<Rightarrow> DhtManager" where
  "dht_stop d = d\<lparr>dht_running := False\<rparr>"

definition xor_distance :: "NodeID \<Rightarrow> NodeID \<Rightarrow> bytes" where
  "xor_distance a b = map2 (XOR) a b"

definition leading_zeros :: "u8 \<Rightarrow> nat" where
  "leading_zeros b = length (takeWhile Not (map (bit b) [7, 6, 5, 4, 3, 2, 1, 0]))"

fun first_nonzero :: "nat \<Rightarrow> bytes \<Rightarrow> (nat \<times> u8) option" where
  "first_nonzero i [] = None"
| "first_nonzero i (b # bs) = (if b \<noteq> 0 then Some (i, b) else first_nonzero (Suc i) bs)"

definition bucket_index :: "DhtManager \<Rightarrow> NodeID \<Rightarrow> nat" where
  "bucket_index d tgt =
     (case first_nonzero 0 (xor_distance (local_id d) tgt) of
        Some (i, b) \<Rightarrow> i * 8 + leading_zeros b
      | None \<Rightarrow> BUCKET_COUNT - 1)"

definition insert_node ::
  "instant \<Rightarrow> NodeID \<Rightarrow> bytes \<Rightarrow> DhtManager \<Rightarrow> DhtManager \<times> (BucketEntry option, bool) result" where
  "insert_node now n a d =
     (if n = local_id d then (d, Inr False)
      else
        let idx = bucket_index d n;
            (b, r) = kb_insert now n a (buckets d ! idx)
        in (d\<lparr>buckets := (buckets d)[idx := b]\<rparr>,
            case r of Inr is_new \<Rightarrow> Inr is_new | Inl e \<Rightarrow> Inl (Some e)))"

definition touch_node :: "instant \<Rightarrow> NodeID \<Rightarrow> DhtManager \<Rightarrow> DhtManager \<times> bool" where
  "touch_node now n d =
     (if n = local_id d then (d, False)
      else
        let idx = bucket_index d n;
            (b, r) = kb_touch now n (buckets d ! idx)
        in (d\<lparr>buckets := (buckets d)[idx := b]\<rparr>, r))"

definition remove_node :: "NodeID \<Rightarrow> DhtManager \<Rightarrow> DhtManager \<times> BucketEntry option" where
  "remove_node n d =
     (if n = local_id d then (d, None)
      else
        let idx = bucket_index d n;
            (b, r) = kb_remove n (buckets d ! idx)
        in (d\<lparr>buckets := (buckets d)[idx := b]\<rparr>, r))"

fun cmp_xor :: "bytes \<Rightarrow> bytes \<Rightarrow> ordering" where
  "cmp_xor (a # as) (b # bs) = (if a \<noteq> b then if a < b then Less else Greater else cmp_xor as bs)"
| "cmp_xor [] [] = Equal"
| "cmp_xor [] (b # bs) = Less"
| "cmp_xor (a # as) [] = Greater"

definition all_entries :: "DhtManager \<Rightarrow> BucketEntry list" where
  "all_entries d = concat (map kb_entries (buckets d))"

definition find_nearest :: "NodeID \<Rightarrow> nat \<Rightarrow> DhtManager \<Rightarrow> (NodeID \<times> bytes) list" where
  "find_nearest tgt cnt d =
     (let candidates = map (\<lambda>e. (node_id e, addr e, xor_distance tgt (node_id e))) (all_entries d)
      in map (\<lambda>(n, a, _). (n, a))
           (take cnt (sort_by (\<lambda>(_, _, x) (_, _, y). cmp_xor x y \<noteq> Greater) candidates)))"

definition find_node :: "NodeID \<Rightarrow> DhtManager \<Rightarrow> (NodeID \<times> bytes) list" where
  "find_node tgt d = find_nearest tgt K_BUCKET_SIZE d"

definition node_count :: "DhtManager \<Rightarrow> nat" where
  "node_count d = sum_list (map (\<lambda>b. length (kb_entries b)) (buckets d))"

definition bucket_size :: "nat \<Rightarrow> DhtManager \<Rightarrow> nat" where
  "bucket_size idx d = (if idx < BUCKET_COUNT then length (kb_entries (buckets d ! idx)) else 0)"

definition all_nodes :: "DhtManager \<Rightarrow> (NodeID \<times> bytes) list" where
  "all_nodes d = map (\<lambda>e. (node_id e, addr e)) (all_entries d)"

section \<open>The manager: values\<close>

definition put_value ::
  "(bytes \<Rightarrow> bytes) \<Rightarrow> u64 \<Rightarrow> bytes \<Rightarrow> bytes \<Rightarrow> u64 \<Rightarrow> DhtManager \<Rightarrow> DhtManager \<times> bytes" where
  "put_value sha256 secs key v t d =
     (let h = sha256 key
      in (d\<lparr>dht_values := hm_insert h (value_entry_new secs v t) (dht_values d)\<rparr>, h))"

definition get_value_by_hash :: "u64 \<Rightarrow> bytes \<Rightarrow> DhtManager \<Rightarrow> ValueEntry option" where
  "get_value_by_hash secs h d =
     (case hm_get (dht_values d) h of
        None \<Rightarrow> None
      | Some v \<Rightarrow> if \<not> value_is_expired secs v then Some v else None)"

definition get_value :: "(bytes \<Rightarrow> bytes) \<Rightarrow> u64 \<Rightarrow> bytes \<Rightarrow> DhtManager \<Rightarrow> ValueEntry option" where
  "get_value sha256 secs key d = get_value_by_hash secs (sha256 key) d"

definition cleanup_values :: "u64 \<Rightarrow> DhtManager \<Rightarrow> DhtManager \<times> nat" where
  "cleanup_values secs d =
     (let vs = hm_retain (\<lambda>_ v. \<not> value_is_expired secs v) (dht_values d)
      in (d\<lparr>dht_values := vs\<rparr>, length (dht_values d) - length vs))"

section \<open>Bootstrap and refresh\<close>

text \<open>\<open>bootstrap_from_nodes\<close>, given the address of each bootstrap node.\<close>

fun bootstrap_from_nodes :: "instant \<Rightarrow> bytes list \<Rightarrow> DhtManager \<Rightarrow> DhtManager" where
  "bootstrap_from_nodes now [] d = d"
| "bootstrap_from_nodes now (a # as) d =
     bootstrap_from_nodes now as (fst (insert_node now (replicate 32 0) a d))"

text \<open>
  One bucket of \<open>refresh\<close>: every node of a bucket whose front entry is older than half the
  timeout is removed (the source's stand-in for an unanswered ping).
\<close>

definition refresh_bucket :: "instant \<Rightarrow> KBucket \<Rightarrow> KBucket \<times> nat" where
  "refresh_bucket now b =
     (let should_ping = (case least_recently_seen b of
             None \<Rightarrow> False
           | Some e \<Rightarrow> now - last_seen e > NODE_TIMEOUT_SECS div 2 * 1000);
          stale = (if should_ping then map node_id (kb_entries b) else [])
      in (foldl (\<lambda>b n. fst (kb_remove n b)) b stale, length stale))"

definition refresh :: "instant \<Rightarrow> DhtManager \<Rightarrow> DhtManager \<times> nat" where
  "refresh now d =
     (let rs = map (refresh_bucket now) (buckets d)
      in (d\<lparr>buckets := map fst rs\<rparr>, sum_list (map snd rs)))"

section \<open>Node lists on the wire\<close>

fun encode_nodes :: "(NodeID \<times> bytes) list \<Rightarrow> bytes" where
  "encode_nodes [] = []"
| "encode_nodes ((n, a) # ns) =
     (let addr_len = min (length a) 65535
      in n @ be_bytes 2 (of_nat addr_len :: u16) @ take addr_len a @ encode_nodes ns)"

definition encode_node_list :: "(NodeID \<times> bytes) list \<Rightarrow> bytes" where
  "encode_node_list ns =
     (let cnt = min (length ns) 65535
      in be_bytes 2 (of_nat cnt :: u16) @ encode_nodes (take cnt ns))"

text \<open>The decoding loop on the bytes from \<open>offset\<close> on.\<close>

fun decode_nodes :: "nat \<Rightarrow> bytes \<Rightarrow> (NodeID \<times> bytes) list" where
  "decode_nodes 0 bs = []"
| "decode_nodes (Suc n) bs =
     (if 32 + 2 > length bs then []
      else
        let nid = take 32 bs;
            addr_len = unat (be_word (take 2 (drop 32 bs)) :: u16)
        in if addr_len > length (drop 34 bs) then []
           else (nid, from_utf8_or_default (take addr_len (drop 34 bs)))
                  # decode_nodes n (drop (34 + addr_len) bs))"

definition decode_node_list :: "bytes \<Rightarrow> (NodeID \<times> bytes) list" where
  "decode_node_list bs =
     (if length bs < 2 then []
      else decode_nodes (unat (be_word (take 2 bs) :: u16)) (drop 2 bs))"

section \<open>Messages\<close>

definition create_dht_message :: "DhtMessageType \<Rightarrow> bytes \<Rightarrow> Message" where
  "create_dht_message t p = message_new MDht (dht_to_u8 t # p)"

definition handle_put ::
  "(bytes \<Rightarrow> bytes) \<Rightarrow> u64 \<Rightarrow> bytes \<Rightarrow> DhtManager \<Rightarrow> DhtManager \<times> unit option" where
  "handle_put sha256 secs dat d =
     (if length dat < 2 then (d, None)
      else
        let key_len = unat (be_word (take 2 dat) :: u16)
        in if length dat < 2 + key_len + 4 then (d, None)
           else
             let key = take key_len (drop 2 dat);
                 value_len = unat (be_word (take 4 (drop (2 + key_len) dat)) :: u32)
             in if length dat < 2 + key_len + 4 + value_len + 8 then (d, None)
                else
                  let v = take value_len (drop (2 + key_len + 4) dat);
                      t = (be_word (take 8 (drop (2 + key_len + 4 + value_len) dat)) :: u64)
                  in (fst (put_value sha256 secs key v t d), Some ()))"

fun insert_nodes :: "instant \<Rightarrow> (NodeID \<times> bytes) list \<Rightarrow> DhtManager \<Rightarrow> DhtManager" where
  "insert_nodes now [] d = d"
| "insert_nodes now ((n, a) # ns) d = insert_nodes now ns (fst (insert_node now n a d))"

definition process_message ::
  "(bytes \<Rightarrow> bytes) \<Rightarrow> instant \<Rightarrow> u64 \<Rightarrow> NodeID \<Rightarrow> bytes \<Rightarrow> DhtManager \<Rightarrow> DhtManager \<times> Message list" where
  "process_message sha256 now secs sender p d =
     (case p of
        [] \<Rightarrow> (d, [])
      | tag # dat \<Rightarrow>
          (case dht_from_u8 tag of
             None \<Rightarrow> (d, [])
           | Some Ping \<Rightarrow> (fst (touch_node now sender d), [create_dht_message Pong []])
           | Some Pong \<Rightarrow> (fst (touch_node now sender d), [])
           | Some FindNode \<Rightarrow>
               if length dat < 32 then (d, [create_dht_message Nodes (encode_node_list [])])
               else (d, [create_dht_message Nodes (encode_node_list (find_node (take 32 dat) d))])
           | Some Nodes \<Rightarrow> (insert_nodes now (decode_node_list dat) d, [])
           | Some Put \<Rightarrow> (fst (handle_put sha256 secs dat d), [])
           | Some Get \<Rightarrow>
               if length dat < 32 then (d, [])
               else
                 let h = take 32 dat
                 in (case get_value_by_hash secs h d of
                       None \<Rightarrow> (d, [])
                     | Some e \<Rightarrow>
                         (d, [create_dht_message Value
                                (h @ be_bytes 4 (of_nat (length (entry_value e)) :: u32) @ entry_value e)]))
           | Some Value \<Rightarrow> (d, [])))"

section \<open>Bucket numbers\<close>

text \<open>Bit \<open>i\<close> of an identifier, counted from the most significant bit of the first byte.\<close>

definition id_bit :: "NodeID \<Rightarrow> nat \<Rightarrow> bool" where
  "id_bit n i = bit (n ! (i div 8)) (7 - i mod 8)"

lemma u8_nonzero_bit: "(b :: u8) \<noteq> 0 \<Longrightarrow> \<exists>n < 8. bit b n"
proof (rule ccontr)
  assume "b \<noteq> 0" and none: "\<not> (\<exists>n < 8. bit b n)"
  have "b = 0" by (rule bit_word_eqI) (use none in simp)
  with \<open>b \<noteq> 0\<close> show False ..
qed

lemma less_8_cases: "(n::nat) < 8 \<Longrightarrow> n \<in> {0, 1, 2, 3, 4, 5, 6, 7}"
  by auto

lemma nth_descending: "j < 8 \<Longrightarrow> [7, 6, 5, 4, 3, 2, 1, 0] ! j = 7 - (j :: nat)"
  by (drule less_8_cases) auto

lemma leading_zeros_first:
  assumes "b \<noteq> 0"
  shows "leading_zeros b < 8 \<and> bit b (7 - leading_zeros b) \<and> (\<forall>j < leading_zeros b. \<not> bit b (7 - j))"
proof -
  define ix where "ix = [7, 6, 5, 4, 3, 2, 1, 0 :: nat]"
  let ?bs = "map (bit b) ix"
  have nth: "?bs ! j = bit b (7 - j)" if "j < 8" for j
    using that nth_descending [of j] by (simp add: ix_def del: list.map)
  have lz: "leading_zeros b = length (takeWhile Not ?bs)" by (simp add: leading_zeros_def ix_def)
  have len: "length ?bs = 8" by (simp add: ix_def)
  obtain n where n: "n < 8" "bit b n" using u8_nonzero_bit [OF assms] by blast
  then have "\<exists>x \<in> set ?bs. \<not> Not x" using less_8_cases [of n] by (auto simp: ix_def)
  then have less: "leading_zeros b < 8"
    using length_takeWhile_le [of Not ?bs] takeWhile_eq_take [of Not ?bs] takeWhile_eq_all_conv [of Not ?bs] len
    unfolding lz by (metis le_neq_implies_less take_all_iff)
  moreover have "bit b (7 - leading_zeros b)"
    using nth_length_takeWhile [of Not ?bs] less len nth [OF less] by (simp add: lz)
  moreover have "\<not> bit b (7 - j)" if "j < leading_zeros b" for j
    using that less nth [of j] takeWhile_nth [of j Not ?bs] nth_mem [of j "takeWhile Not ?bs"]
    by (auto simp: lz dest!: set_takeWhileD)
  ultimately show ?thesis by blast
qed

lemma first_nonzero_SomeD:
  "first_nonzero i bs = Some (j, b) \<Longrightarrow>
     i \<le> j \<and> j - i < length bs \<and> bs ! (j - i) = b \<and> b \<noteq> 0 \<and> (\<forall>k < j - i. bs ! k = 0)"
proof (induction bs arbitrary: i)
  case (Cons x xs)
  show ?case
  proof (cases "x = 0")
    case True
    with Cons.IH [of "Suc i"] Cons.prems have "Suc i \<le> j \<and> j - Suc i < length xs \<and> xs ! (j - Suc i) = b \<and> b \<noteq> 0
        \<and> (\<forall>k < j - Suc i. xs ! k = 0)" by simp
    moreover from this have "j - i = Suc (j - Suc i)" by arith
    ultimately show ?thesis using True by (auto simp: less_Suc_eq_0_disj)
  qed (use Cons.prems in auto)
qed simp

lemma first_nonzero_None: "first_nonzero i bs = None \<longleftrightarrow> (\<forall>b \<in> set bs. b = 0)"
  by (induction bs arbitrary: i) auto

lemma xor_eq_0_iff: "(a :: 'a::len word) XOR b = 0 \<longleftrightarrow> a = b"
  by (metis xor.assoc xor.right_neutral xor_self_eq)

lemma xor_distance_zero:
  "length a = length b \<Longrightarrow> (\<forall>x \<in> set (xor_distance a b). x = 0) \<longleftrightarrow> a = b"
  by (induction a b rule: list_induct2) (auto simp: xor_distance_def xor_eq_0_iff)

lemma nth_xor_distance:
  "i < length a \<Longrightarrow> length a = length b \<Longrightarrow> xor_distance a b ! i = a ! i XOR b ! i"
  by (simp add: xor_distance_def)

lemma bucket_index_cases:
  assumes "node_ok (local_id d)" "node_ok n" "n \<noteq> local_id d"
  obtains i where "i < 32" "local_id d ! i XOR n ! i \<noteq> 0" "\<forall>k < i. local_id d ! k = n ! k"
    "bucket_index d n = i * 8 + leading_zeros (local_id d ! i XOR n ! i)"
proof -
  let ?x = "xor_distance (local_id d) n"
  have len: "length (local_id d) = 32" "length n = 32" using assms by (auto simp: node_ok_def)
  obtain i b where f: "first_nonzero 0 ?x = Some (i, b)"
    using xor_distance_zero [of "local_id d" n] assms(3) len first_nonzero_None [of 0 ?x]
    by (cases "first_nonzero 0 ?x") auto
  note D = first_nonzero_SomeD [OF f]
  have i: "i < 32" using D len by (simp add: xor_distance_def)
  have nth: "?x ! k = local_id d ! k XOR n ! k" if "k \<le> i" for k
    using that i len by (simp add: nth_xor_distance)
  show ?thesis
  proof (rule that [of i])
    show "\<forall>k < i. local_id d ! k = n ! k"
      using D nth by (auto simp: xor_eq_0_iff)
  qed (use i D nth f in \<open>auto simp: bucket_index_def\<close>)
qed

lemma bucket_index_less:
  assumes "node_ok (local_id d)" and "node_ok n" and "n \<noteq> local_id d"
  shows "bucket_index d n < BUCKET_COUNT"
proof -
  obtain i where "i < 32" "local_id d ! i XOR n ! i \<noteq> 0"
    and "bucket_index d n = i * 8 + leading_zeros (local_id d ! i XOR n ! i)"
    using bucket_index_cases [OF assms] by metis
  with leading_zeros_first [of "local_id d ! i XOR n ! i"] show ?thesis
    by (simp add: BUCKET_COUNT_def)
qed

lemma first_difference:
  assumes "node_ok (local_id d)" and "node_ok n" and "n \<noteq> local_id d"
  shows "id_bit n (bucket_index d n) \<noteq> id_bit (local_id d) (bucket_index d n)
    \<and> (\<forall>j < bucket_index d n. id_bit n j = id_bit (local_id d) j)"
proof -
  obtain i where i: "i < 32" "local_id d ! i XOR n ! i \<noteq> 0" "\<forall>k < i. local_id d ! k = n ! k"
    and idx: "bucket_index d n = i * 8 + leading_zeros (local_id d ! i XOR n ! i)"
    using bucket_index_cases [OF assms] .
  let ?l = "leading_zeros (local_id d ! i XOR n ! i)"
  note lz = leading_zeros_first [OF i(2)]
  have dm: "bucket_index d n div 8 = i" "bucket_index d n mod 8 = ?l" using lz by (simp_all add: idx)
  have "id_bit n j = id_bit (local_id d) j" if j: "j < bucket_index d n" for j
  proof (cases "j div 8 < i")
    case True
    then show ?thesis using i(3) by (simp add: id_bit_def)
  next
    case False
    with j dm(1) have "j div 8 = i" by (metis div_le_mono le_neq_implies_less less_imp_le_nat)
    with j have "j mod 8 < ?l" by (simp add: idx) (metis div_mult_mod_eq add_less_cancel_left)
    with lz have "\<not> bit (local_id d ! i XOR n ! i) (7 - j mod 8)" by blast
    with \<open>j div 8 = i\<close> show ?thesis by (auto simp: id_bit_def bit_xor_iff)
  qed
  moreover have "id_bit n (bucket_index d n) \<noteq> id_bit (local_id d) (bucket_index d n)"
    using lz by (auto simp: id_bit_def dm bit_xor_iff)
  ultimately show ?thesis by blast
qed

text \<open>
  The bucket of a node is the position of the first bit, from the most significant one, in which
  its identifier differs from the local one: for any other node it is below 256, the two
  identifiers agree on all bits before it and differ there.
\<close>

theorem bucket_index_first_difference:
  assumes "node_ok (local_id d)" and "node_ok n" and "n \<noteq> local_id d"
  shows "bucket_index d n < BUCKET_COUNT
    \<and> id_bit n (bucket_index d n) \<noteq> id_bit (local_id d) (bucket_index d n)
    \<and> (\<forall>j < bucket_index d n. id_bit n j = id_bit (local_id d) j)"
  using first_difference [OF assms] bucket_index_less [OF assms] by blast

theorem bucket_index_first_difference_witness:
  "bucket_index (dht_new (replicate 32 0)) (replicate 31 0 @ [1]) < BUCKET_COUNT"
  by (rule bucket_index_first_difference [THEN conjunct1])
     (simp_all add: dht_new_def node_ok_def replicate_eq_replicate numeral_eq_Suc)

section \<open>The routing table stays well formed\<close>

definition addr_ok :: "bytes \<Rightarrow> bool" where
  "addr_ok a \<longleftrightarrow> utf8_valid a \<and> length a < 65536"

definition kb_ok :: "(NodeID \<Rightarrow> bool) \<Rightarrow> KBucket \<Rightarrow> bool" where
  "kb_ok P b \<longleftrightarrow> kb_capacity b = K_BUCKET_SIZE \<and> length (kb_entries b) \<le> K_BUCKET_SIZE
     \<and> distinct (map node_id (kb_entries b))
     \<and> (\<forall>e \<in> set (kb_entries b). P (node_id e) \<and> addr_ok (addr e))"

definition belongs :: "DhtManager \<Rightarrow> nat \<Rightarrow> NodeID \<Rightarrow> bool" where
  "belongs d i n \<longleftrightarrow> node_ok n \<and> n \<noteq> local_id d \<and> bucket_index d n = i"

definition dht_inv :: "DhtManager \<Rightarrow> bool" where
  "dht_inv d \<longleftrightarrow> node_ok (local_id d) \<and> length (buckets d) = BUCKET_COUNT \<and> hm_ok (dht_values d)
     \<and> (\<forall>i < BUCKET_COUNT. kb_ok (belongs d i) (buckets d ! i))"

lemma overwrite_entry_SomeD:
  "overwrite_entry now n a es = Some es' \<Longrightarrow>
     map node_id es' = map node_id es
     \<and> (\<forall>e \<in> set es'. e \<in> set es \<or> node_id e = n \<and> addr e = a)"
  by (induction es arbitrary: es') (auto split: if_splits)

lemma overwrite_entry_None: "overwrite_entry now n a es = None \<longleftrightarrow> n \<notin> node_id ` set es"
  by (induction es) auto

lemma take_entry_SomeD:
  "take_entry n es = Some (e, r) \<Longrightarrow>
     node_id e = n \<and> (\<exists>xs ys. es = xs @ e # ys \<and> r = xs @ ys)"
proof (induction es arbitrary: r)
  case (Cons x es)
  then show ?case
  proof (cases "node_id x = n")
    case False
    with Cons.prems obtain r' where r': "take_entry n es = Some (e, r')" "r = x # r'" by auto
    with Cons.IH obtain xs ys where "node_id e = n" "es = xs @ e # ys" "r' = xs @ ys" by blast
    with r' have "x # es = (x # xs) @ e # ys \<and> r = (x # xs) @ ys" by simp
    with \<open>node_id e = n\<close> show ?thesis by blast
  qed (auto intro: exI [of _ "[]"])
qed simp

lemma kb_ok_new: "kb_ok P (kbucket_new K_BUCKET_SIZE)"
  by (simp add: kb_ok_def kbucket_new_def)

lemma kb_ok_insert:
  assumes "kb_ok P b" "P n" "addr_ok a"
  shows "kb_ok P (fst (kb_insert now n a b))"
proof (cases "overwrite_entry now n a (kb_entries b)")
  case None
  then have "n \<notin> node_id ` set (kb_entries b)" by (simp add: overwrite_entry_None)
  with None assms show ?thesis by (auto simp: kb_insert_def kb_ok_def Let_def)
next
  case (Some es)
  note D = overwrite_entry_SomeD [OF Some]
  from D have "length es = length (kb_entries b)" by (metis length_map)
  with D Some assms show ?thesis by (auto simp: kb_insert_def kb_ok_def)
qed

lemma kb_ok_touch: "kb_ok P b \<Longrightarrow> kb_ok P (fst (kb_touch now n b))"
  by (auto simp: kb_touch_def kb_ok_def split: option.splits dest!: take_entry_SomeD)

lemma kb_ok_remove: "kb_ok P b \<Longrightarrow> kb_ok P (fst (kb_remove n b))"
  by (auto simp: kb_remove_def kb_ok_def split: option.splits dest!: take_entry_SomeD)

lemma kb_ok_refresh: "kb_ok P b \<Longrightarrow> kb_ok P (fst (refresh_bucket now b))"
proof -
  assume b: "kb_ok P b"
  have "kb_ok P (foldl (\<lambda>b n. fst (kb_remove n b)) b ns)" for ns
    using b by (induction ns arbitrary: b) (auto intro: kb_ok_remove)
  then show ?thesis by (simp add: refresh_bucket_def Let_def)
qed

lemma bucket_index_buckets [simp]:
  "bucket_index (d\<lparr>buckets := bs\<rparr>) = bucket_index d"
  "bucket_index (d\<lparr>dht_values := vs\<rparr>) = bucket_index d"
  "bucket_index (d\<lparr>local_addr := la\<rparr>) = bucket_index d"
  "bucket_index (d\<lparr>dht_relay_manager := rm\<rparr>) = bucket_index d"
  "bucket_index (d\<lparr>dht_running := ru\<rparr>) = bucket_index d"
  by (auto simp: bucket_index_def)

lemma belongs_cong [simp]:
  "belongs (d\<lparr>buckets := bs\<rparr>) = belongs d"
  "belongs (d\<lparr>dht_values := vs\<rparr>) = belongs d"
  "belongs (d\<lparr>local_addr := la\<rparr>) = belongs d"
  "belongs (d\<lparr>dht_relay_manager := rm\<rparr>) = belongs d"
  "belongs (d\<lparr>dht_running := ru\<rparr>) = belongs d"
  by (auto simp: belongs_def fun_eq_iff)

lemma dht_inv_index:
  "dht_inv d \<Longrightarrow> node_ok n \<Longrightarrow> n \<noteq> local_id d \<Longrightarrow>
     bucket_index d n < BUCKET_COUNT \<and> belongs d (bucket_index d n) n"
  using bucket_index_less [of d n] by (simp add: dht_inv_def belongs_def)

lemma dht_inv_set:
  assumes "dht_inv d" "i < BUCKET_COUNT" "kb_ok (belongs d i) b"
  shows "dht_inv (d\<lparr>buckets := (buckets d)[i := b]\<rparr>)"
  using assms by (auto simp: dht_inv_def nth_list_update)

lemma dht_inv_new: "node_ok n \<Longrightarrow> dht_inv (dht_new n)"
  by (simp add: dht_inv_def dht_new_def init_buckets_def kb_ok_new)

lemma dht_inv_insert:
  assumes "dht_inv d" "node_ok n" "addr_ok a"
  shows "dht_inv (fst (insert_node now n a d))"
proof (cases "n = local_id d")
  case False
  note i = dht_inv_index [OF assms(1,2) False]
  have "kb_ok (belongs d (bucket_index d n)) (fst (kb_insert now n a (buckets d ! bucket_index d n)))"
    by (rule kb_ok_insert) (use assms i in \<open>auto simp: dht_inv_def\<close>)
  from dht_inv_set [OF assms(1) _ this] i False show ?thesis
    by (simp add: insert_node_def Let_def case_prod_unfold)
qed (simp add: insert_node_def assms(1))

lemma dht_inv_bucket: "dht_inv d \<Longrightarrow> i < BUCKET_COUNT \<Longrightarrow> kb_ok (belongs d i) (buckets d ! i)"
  by (simp add: dht_inv_def)

lemma dht_inv_touch:
  assumes "dht_inv d" "node_ok n"
  shows "dht_inv (fst (touch_node now n d))"
  using assms dht_inv_index [OF assms]
  by (auto simp: touch_node_def Let_def case_prod_unfold
      intro!: dht_inv_set kb_ok_touch dht_inv_bucket)

lemma dht_inv_remove:
  assumes "dht_inv d" "node_ok n"
  shows "dht_inv (fst (remove_node n d))"
  using assms dht_inv_index [OF assms]
  by (auto simp: remove_node_def Let_def case_prod_unfold
      intro!: dht_inv_set kb_ok_remove dht_inv_bucket)

lemma dht_inv_refresh: "dht_inv d \<Longrightarrow> dht_inv (fst (refresh now d))"
  by (auto simp: refresh_def Let_def dht_inv_def intro: kb_ok_refresh)

lemma dht_inv_put: "dht_inv d \<Longrightarrow> dht_inv (fst (put_value sha secs k v t d))"
  by (simp add: put_value_def Let_def dht_inv_def)

lemma dht_inv_handle_put: "dht_inv d \<Longrightarrow> dht_inv (fst (handle_put sha secs dat d))"
  by (simp add: handle_put_def Let_def dht_inv_put)

lemma dht_inv_cleanup: "dht_inv d \<Longrightarrow> dht_inv (fst (cleanup_values secs d))"
  by (simp add: cleanup_values_def Let_def dht_inv_def)

lemma dht_inv_bootstrap:
  "dht_inv d \<Longrightarrow> list_all addr_ok as \<Longrightarrow> dht_inv (bootstrap_from_nodes now as d)"
  by (induction as arbitrary: d) (simp_all add: dht_inv_insert node_ok_def)

lemma decode_nodes_ok:
  "\<forall>(n, a) \<in> set (decode_nodes k bs). node_ok n \<and> addr_ok a"
proof (induction k arbitrary: bs)
  case (Suc k)
  have "length (take (unat (w :: u16)) xs) < 65536" for w :: u16 and xs :: bytes
    using unsigned_less [of w, where 'a = nat] by simp
  then have "addr_ok (from_utf8_or_default (take (unat (be_word ys :: u16)) xs))" for ys xs
    by (simp add: addr_ok_def from_utf8_or_default_def)
  with Suc.IH show ?case by (auto simp: Let_def node_ok_def)
qed simp

lemma dht_inv_insert_nodes:
  "dht_inv d \<Longrightarrow> \<forall>(n, a) \<in> set ns. node_ok n \<and> addr_ok a \<Longrightarrow> dht_inv (insert_nodes now ns d)"
  by (induction ns arbitrary: d) (auto simp: dht_inv_insert)

lemma dht_inv_nodes_message: "dht_inv d \<Longrightarrow> dht_inv (insert_nodes now (decode_node_list dat) d)"
  using dht_inv_insert_nodes [of d "decode_node_list dat"] decode_nodes_ok
  by (simp add: decode_node_list_def)

lemma dht_inv_process:
  assumes "dht_inv d" "node_ok sender"
  shows "dht_inv (fst (process_message sha now secs sender p d))"
  using assms
  by (auto simp: process_message_def Let_def dht_inv_touch dht_inv_handle_put dht_inv_nodes_message
      split: list.splits option.splits DhtMessageType.splits)

lemma dht_inv_settings:
  "dht_inv d \<Longrightarrow> dht_inv (set_local_addr a d)"
  "dht_inv d \<Longrightarrow> dht_inv (set_relay_manager r d)"
  "dht_inv d \<Longrightarrow> dht_inv (dht_start d)"
  "dht_inv d \<Longrightarrow> dht_inv (dht_stop d)"
  by (simp_all add: dht_inv_def set_local_addr_def set_relay_manager_def dht_start_def dht_stop_def)

lemmas dht_inv_ops = dht_inv_new dht_inv_insert dht_inv_touch dht_inv_remove dht_inv_refresh
  dht_inv_put dht_inv_cleanup dht_inv_bootstrap dht_inv_process dht_inv_settings

text \<open>Managers reachable through the public operations, in any order.\<close>

inductive dht_reachable :: "(bytes \<Rightarrow> bytes) \<Rightarrow> DhtManager \<Rightarrow> bool" for sha where
  dht_create: "node_ok n \<Longrightarrow> dht_reachable sha (dht_new n)"
| dht_insert: "dht_reachable sha d \<Longrightarrow> node_ok n \<Longrightarrow> addr_ok a \<Longrightarrow>
    dht_reachable sha (fst (insert_node now n a d))"
| dht_touch: "dht_reachable sha d \<Longrightarrow> node_ok n \<Longrightarrow> dht_reachable sha (fst (touch_node now n d))"
| dht_remove: "dht_reachable sha d \<Longrightarrow> node_ok n \<Longrightarrow> dht_reachable sha (fst (remove_node n d))"
| dht_refresh: "dht_reachable sha d \<Longrightarrow> dht_reachable sha (fst (refresh now d))"
| dht_put: "dht_reachable sha d \<Longrightarrow> dht_reachable sha (fst (put_value sha secs k v t d))"
| dht_cleanup: "dht_reachable sha d \<Longrightarrow> dht_reachable sha (fst (cleanup_values secs d))"
| dht_bootstrap: "dht_reachable sha d \<Longrightarrow> list_all addr_ok as \<Longrightarrow>
    dht_reachable sha (bootstrap_from_nodes now as d)"
| dht_process: "dht_reachable sha d \<Longrightarrow> node_ok sender \<Longrightarrow>
    dht_reachable sha (fst (process_message sha now secs sender p d))"
| dht_set_addr: "dht_reachable sha d \<Longrightarrow> dht_reachable sha (set_local_addr a d)"
| dht_set_relay: "dht_reachable sha d \<Longrightarrow> dht_reachable sha (set_relay_manager r d)"
| dht_starts: "dht_reachable sha d \<Longrightarrow> dht_reachable sha (dht_start d)"
| dht_stops: "dht_reachable sha d \<Longrightarrow> dht_reachable sha (dht_stop d)"

lemma dht_reachable_inv: "dht_reachable sha d \<Longrightarrow> dht_inv d"
  by (induction rule: dht_reachable.induct) (auto intro: dht_inv_ops)

lemma distinct_concat_index:
  assumes "\<forall>i < length bs. distinct (map f (bs ! i)) \<and> (\<forall>x \<in> set (bs ! i). g (f x) = k + i)"
  shows "distinct (map f (concat bs))"
  using assms
proof (induction bs arbitrary: k)
  case (Cons b bs)
  have later: "\<forall>i < length bs. distinct (map f (bs ! i)) \<and> (\<forall>x \<in> set (bs ! i). g (f x) = Suc k + i)"
    using Cons.prems by (auto dest: spec [of _ "Suc _"])
  have "g (f x) = k" if "x \<in> set b" for x using Cons.prems that by (auto dest: spec [of _ 0])
  moreover have "g (f x) \<noteq> k" if x: "x \<in> set (concat bs)" for x
  proof -
    obtain i where "i < length bs" "x \<in> set (bs ! i)" using x by (auto simp: in_set_conv_nth [of _ bs])
    with later show ?thesis by auto
  qed
  ultimately have "f ` set b \<inter> f ` set (concat bs) = {}" by force
  moreover have "distinct (map f b)" using Cons.prems by (auto dest: spec [of _ 0])
  ultimately show ?case using Cons.IH [OF later] by simp
qed simp



section \<open>Nearest nodes\<close>

text \<open>The XOR distance as the 256-bit number it stands for.\<close>

fun bytes_number :: "bytes \<Rightarrow> nat" where
  "bytes_number [] = 0"
| "bytes_number (b # bs) = unat b * 256 ^ length bs + bytes_number bs"

definition xor_metric :: "NodeID \<Rightarrow> NodeID \<Rightarrow> nat" where
  "xor_metric a b = bytes_number (xor_distance a b)"

lemma bytes_number_bound: "bytes_number bs < 256 ^ length bs"
proof (induction bs)
  case (Cons b bs)
  have "unat b \<le> 255" using unsigned_less [of b, where 'a = nat] by simp
  then have "unat b * 256 ^ length bs \<le> 255 * 256 ^ length bs" by (rule mult_right_mono) simp
  with Cons.IH show ?case by (simp only: bytes_number.simps list.size power_Suc add_Suc_right add_0_right)
qed simp

lemma bytes_number_less:
  assumes "a < b" and "length as = length bs"
  shows "bytes_number (a # as) < bytes_number (b # bs)"
proof -
  have "(unat a + 1) * 256 ^ length as \<le> unat b * 256 ^ length as"
    using assms(1) by (intro mult_right_mono) (simp_all add: word_less_nat_alt)
  with bytes_number_bound [of as] assms(2) show ?thesis by (simp add: algebra_simps)
qed

lemma cmp_xor_number:
  "length a = length b \<Longrightarrow> cmp_xor a b \<noteq> Greater \<longleftrightarrow> bytes_number a \<le> bytes_number b"
proof (induction a b rule: list_induct2)
  case (Cons x xs y ys)
  consider "x = y" | "x < y" | "y < x" by force
  then show ?case
    using Cons bytes_number_less [of x y xs ys] bytes_number_less [of y x ys xs] by cases auto
qed simp

lemma cmp_xor_refl: "cmp_xor a a = Equal"
  by (induction a) auto

lemma cmp_xor_total: "cmp_xor a b \<noteq> Greater \<or> cmp_xor b a \<noteq> Greater"
  by (induction a b rule: cmp_xor.induct) auto

lemma cmp_xor_trans: "cmp_xor a b \<noteq> Greater \<Longrightarrow> cmp_xor b c \<noteq> Greater \<Longrightarrow> cmp_xor a c \<noteq> Greater"
proof (induction a b arbitrary: c rule: cmp_xor.induct)
  case (1 a as b bs)
  then show ?case by (cases c) (auto split: if_splits)
qed (auto elim: cmp_xor.elims)

lemma cmp_xor_order:
  fixes le :: "NodeID \<times> bytes \<times> bytes \<Rightarrow> NodeID \<times> bytes \<times> bytes \<Rightarrow> bool"
  defines "le \<equiv> (\<lambda>(_, _, x) (_, _, y). cmp_xor x y \<noteq> Greater)"
  shows "transp le \<and> totalp le \<and> reflp le"
proof (intro conjI)
  show "transp le"
    by (rule transpI) (use cmp_xor_trans in \<open>auto simp only: le_def split: prod.splits\<close>)
  show "totalp le"
    by (rule totalpI) (use cmp_xor_total in \<open>auto simp only: le_def split: prod.splits\<close>)
  show "reflp le"
    by (rule reflpI) (simp add: le_def cmp_xor_refl split: prod.splits)
qed

lemma find_nearest_spec:
  assumes "dht_inv d" and "node_ok tgt"
  shows "length (find_nearest tgt k d) = min k (node_count d)
    \<and> sorted (map (\<lambda>(n, _). xor_metric tgt n) (find_nearest tgt k d))
    \<and> (\<exists>rest. mset (all_nodes d) = mset (find_nearest tgt k d) + mset rest
         \<and> (\<forall>(n, _) \<in> set (find_nearest tgt k d). \<forall>(m, _) \<in> set rest.
              xor_metric tgt n \<le> xor_metric tgt m))"
proof -
  define le :: "NodeID \<times> bytes \<times> bytes \<Rightarrow> NodeID \<times> bytes \<times> bytes \<Rightarrow> bool"
    where "le = (\<lambda>(_, _, x) (_, _, y). cmp_xor x y \<noteq> Greater)"
  define cs where "cs = map (\<lambda>e. (node_id e, addr e, xor_distance tgt (node_id e))) (all_entries d)"
  define s where "s = sort_by le cs"
  let ?pr = "\<lambda>(n, a, _). (n, a)"
  have near: "find_nearest tgt k d = map ?pr (take k s)"
    by (simp add: find_nearest_def s_def cs_def le_def Let_def)
  have ok: "node_ok (node_id e)" if "e \<in> set (all_entries d)" for e
    using assms(1) that
    by (auto simp: dht_inv_def kb_ok_def belongs_def all_entries_def in_set_conv_nth [of _ "buckets d"])
  have dist: "length x = 32 \<and> bytes_number x = xor_metric tgt n" if "(n, a, x) \<in> set s" for n a x
    using that ok assms(2) by (auto simp: s_def cs_def xor_metric_def xor_distance_def node_ok_def)
  have "sorted_wrt le s"
    unfolding s_def using cmp_xor_order by (intro sorted_sort_by) (auto simp: le_def)
  then have "sorted_wrt (\<lambda>p q. xor_metric tgt (fst p) \<le> xor_metric tgt (fst q)) s"
    by (rule sorted_wrt_mono_rel [rotated])
       (use dist cmp_xor_number in \<open>fastforce simp: le_def\<close>)
  then have srt: "sorted (map (\<lambda>p. xor_metric tgt (fst p)) s)" by (simp add: sorted_map)
  have all: "mset (all_nodes d) = mset (map ?pr s)"
    by (simp only: s_def mset_map mset_sort_by)
       (simp add: cs_def all_nodes_def comp_def multiset.map_comp)
  have split: "s = take k s @ drop k s" by simp
  have "sorted (map (\<lambda>p. xor_metric tgt (fst p)) (take k s @ drop k s))" using srt by simp
  then have part: "sorted (map (\<lambda>p. xor_metric tgt (fst p)) (take k s))"
    "\<forall>p \<in> set (take k s). \<forall>q \<in> set (drop k s). xor_metric tgt (fst p) \<le> xor_metric tgt (fst q)"
    by (auto simp: sorted_append simp del: append_take_drop_id)
  have "mset (all_nodes d) = mset (find_nearest tgt k d) + mset (map ?pr (drop k s))"
    using all unfolding near by (metis mset_append map_append append_take_drop_id)
  moreover have "length (find_nearest tgt k d) = min k (node_count d)"
    by (simp add: near s_def cs_def node_count_def all_entries_def length_concat comp_def)
  ultimately show ?thesis
    using part by (intro conjI exI [of _ "map ?pr (drop k s)"])
      (auto simp: near case_prod_unfold comp_def)
qed

text \<open>
  C31. On every reachable table \<open>find_nearest\<close> returns as many nodes as asked for or as the table
  has, sorted by their XOR distance to the target as 256-bit numbers, and no node that is left
  out is nearer than one that is returned.
\<close>

theorem find_nearest_correct:
  assumes "dht_reachable sha d" and "node_ok tgt"
  shows "length (find_nearest tgt k d) = min k (node_count d)
    \<and> sorted (map (\<lambda>(n, _). xor_metric tgt n) (find_nearest tgt k d))
    \<and> (\<exists>rest. mset (all_nodes d) = mset (find_nearest tgt k d) + mset rest
         \<and> (\<forall>(n, _) \<in> set (find_nearest tgt k d). \<forall>(m, _) \<in> set rest.
              xor_metric tgt n \<le> xor_metric tgt m))"
  using dht_reachable_inv [OF assms(1)] assms(2) by (rule find_nearest_spec)

theorem find_nearest_correct_witness:
  "length (find_nearest (replicate 32 7) 5 (fst (insert_node 0 (replicate 32 1) [104] (dht_new (replicate 32 0)))))
     = min 5 (node_count (fst (insert_node 0 (replicate 32 1) [104] (dht_new (replicate 32 0)))))"
proof -
  have "dht_reachable (\<lambda>b. b) (fst (insert_node 0 (replicate 32 1) [104] (dht_new (replicate 32 0))))"
    by (intro dht_insert dht_create) (simp_all add: node_ok_def addr_ok_def)
  from find_nearest_correct [OF this, of "replicate 32 7" 5] show ?thesis by (simp add: node_ok_def)
qed

section \<open>Answers on the wire\<close>

lemma unat_be_u16 [codec_simps]: "n < 65536 \<Longrightarrow> unat (be_word (be_bytes 2 (of_nat n :: u16)) :: u16) = n"
  by (simp add: be_word_be_bytes unat_of_nat_small)

lemma decode_nodes_encode_nodes:
  "\<forall>(n, a) \<in> set ns. node_ok n \<and> addr_ok a \<Longrightarrow> decode_nodes (length ns) (encode_nodes ns) = ns"
proof (induction ns)
  case (Cons p ns)
  obtain n a where p: "p = (n, a)" by force
  with Cons.prems have n: "length n = 32" and a: "utf8_valid a" "length a < 65536"
    by (auto simp: node_ok_def addr_ok_def)
  have e: "encode_nodes (p # ns) = n @ be_bytes 2 (of_nat (length a) :: u16) @ a @ encode_nodes ns"
    using a by (simp add: p min_def)
  have "decode_nodes (length (p # ns)) (encode_nodes (p # ns)) = (n, a) # decode_nodes (length ns) (encode_nodes ns)"
    unfolding e using n a by (simp add: codec_simps from_utf8_or_default_def)
  with Cons p show ?case by simp
qed simp

lemma decode_encode_node_list [codec_simps]:
  assumes "\<forall>(n, a) \<in> set ns. node_ok n \<and> addr_ok a" "length ns < 65536"
  shows "decode_node_list (encode_node_list ns) = ns"
  using assms decode_nodes_encode_nodes [of ns]
  by (simp add: decode_node_list_def encode_node_list_def Let_def min_def codec_simps)

lemma find_nearest_mem:
  assumes "dht_inv d"
  shows "\<forall>(n, a) \<in> set (find_nearest tgt k d). node_ok n \<and> addr_ok a"
proof -
  have "node_ok (node_id e) \<and> addr_ok (addr e)" if "e \<in> set (all_entries d)" for e
    using assms that
    by (auto simp: dht_inv_def kb_ok_def belongs_def all_entries_def in_set_conv_nth [of _ "buckets d"])
  then show ?thesis by (auto simp: find_nearest_def Let_def dest!: in_set_takeD)
qed

text \<open>
  A \<open>FIND_NODE\<close> request is answered by one \<open>NODES\<close> message from which the receiver decodes
  exactly the nodes the sender found, addresses included.
\<close>

theorem find_node_answer_decodes:
  assumes "dht_reachable sha d" and "node_ok tgt"
  shows "\<exists>bs. process_message sha now secs sender (dht_to_u8 FindNode # tgt) d
           = (d, [create_dht_message Nodes bs])
         \<and> decode_node_list bs = find_node tgt d"
proof -
  have "length (find_node tgt d) < 65536"
    by (simp add: find_node_def find_nearest_def K_BUCKET_SIZE_def Let_def)
  with find_nearest_mem [OF dht_reachable_inv [OF assms(1)], of tgt K_BUCKET_SIZE]
  have "decode_node_list (encode_node_list (find_node tgt d)) = find_node tgt d"
    by (intro decode_encode_node_list) (auto simp: find_node_def)
  moreover have "process_message sha now secs sender (dht_to_u8 FindNode # tgt) d
      = (d, [create_dht_message Nodes (encode_node_list (find_node tgt d))])"
    using assms(2) by (simp add: process_message_def dht_from_to_u8 node_ok_def del: dht_to_u8.simps)
  ultimately show ?thesis by blast
qed

theorem find_node_answer_decodes_witness:
  "\<exists>bs. process_message (\<lambda>b. b) 0 0 [] (dht_to_u8 FindNode # replicate 32 7) (dht_new (replicate 32 0))
      = (dht_new (replicate 32 0), [create_dht_message Nodes bs])
    \<and> decode_node_list bs = find_node (replicate 32 7) (dht_new (replicate 32 0))"
  by (rule find_node_answer_decodes) (simp_all add: dht_create node_ok_def)

text \<open>The \<open>PUT\<close> format of the source's comment: key and value with their lengths, then the TTL.\<close>

definition put_message :: "bytes \<Rightarrow> bytes \<Rightarrow> u64 \<Rightarrow> bytes" where
  "put_message k v t = dht_to_u8 Put # be_bytes 2 (of_nat (length k) :: u16) @ k
     @ be_bytes 4 (of_nat (length v) :: u32) @ v @ be_bytes 8 t"

lemma handle_put_message:
  assumes "length k < 2 ^ 16" "length v < 2 ^ 32"
  shows "handle_put sha secs (be_bytes 2 (of_nat (length k) :: u16) @ k
     @ be_bytes 4 (of_nat (length v) :: u32) @ v @ be_bytes 8 t) d = (fst (put_value sha secs k v t d), Some ())"
proof -
  define A where "A = be_bytes 2 (of_nat (length k) :: u16)"
  define B where "B = be_bytes 4 (of_nat (length v) :: u32)"
  define C where "C = be_bytes 8 t"
  let ?dat = "A @ k @ B @ v @ C"
  have len: "length A = 2" "length B = 4" "length C = 8" by (simp_all add: A_def B_def C_def)
  have kl: "unat (be_word A :: u16) = length k" and vl: "unat (be_word B :: u32) = length v"
    using assms by (simp_all add: A_def B_def codec_simps)
  have t: "be_word C = t" by (simp add: C_def be_word_be_bytes)
  have parts: "take 2 ?dat = A" "take (length k) (drop 2 ?dat) = k"
    "take 4 (drop (2 + length k) ?dat) = B" "take (length v) (drop (2 + length k + 4) ?dat) = v"
    "take 8 (drop (2 + length k + 4 + length v) ?dat) = C"
    and total: "length ?dat = 2 + length k + 4 + length v + 8"
    using len by simp_all
  show ?thesis
    unfolding A_def [symmetric] B_def [symmetric] C_def [symmetric]
    by (simp only: handle_put_def Let_def parts kl vl t total) simp
qed

text \<open>
  C32. A value stored by a \<open>PUT\<close> message is returned by a \<open>GET\<close> message for its hash exactly until
  its time to live has passed, provided the sum of the clock and the time to live does not leave
  64 bits.
\<close>

theorem put_then_get:
  assumes "length (sha k) = 32" and "length k < 2 ^ 16" and "length v < 2 ^ 32"
    and "unat secs + unat t < 2 ^ 64"
  shows "snd (process_message sha now' secs' sender' (dht_to_u8 Get # sha k)
             (fst (process_message sha now secs sender (put_message k v t) d)))
    = (if unat secs' < unat secs + unat t
       then [create_dht_message Value (sha k @ be_bytes 4 (of_nat (length v) :: u32) @ v)] else [])"
proof -
  have put: "fst (process_message sha now secs sender (put_message k v t) d) = fst (put_value sha secs k v t d)"
    using handle_put_message [OF assms(2,3)]
    by (simp add: process_message_def put_message_def dht_from_to_u8 del: dht_to_u8.simps)
  have "unat (secs + t) = unat secs + unat t"
    using assms(4) by (simp add: unat_word_ariths)
  then have "secs + t \<le> secs' \<longleftrightarrow> unat secs + unat t \<le> unat secs'"
    by (simp add: word_le_nat_alt)
  then show ?thesis
    unfolding put using assms(1)
    by (simp add: process_message_def dht_from_to_u8 put_value_def get_value_by_hash_def
        value_entry_new_def value_is_expired_def Let_def not_le del: dht_to_u8.simps)
qed

theorem put_then_get_witness:
  "snd (process_message (\<lambda>_. replicate 32 9) 0 150 [] (dht_to_u8 Get # replicate 32 9)
     (fst (process_message (\<lambda>_. replicate 32 9) 0 100 [] (put_message [1] [2, 3] 60) (dht_new (replicate 32 0)))))
   = [create_dht_message Value (replicate 32 9 @ be_bytes 4 (of_nat (length [2 :: u8, 3]) :: u32) @ [2, 3])]"
  using put_then_get [of "\<lambda>_. replicate 32 9" "[1]" "[2, 3]" 100 60 0 150 "[]" 0 "[]" "dht_new (replicate 32 0)"]
  by simp

section \<open>Where the table does less than documented\<close>

lemma bootstrap_entry:
  assumes "n \<noteq> replicate 32 0" "node_ok n" "bucket_index d (replicate 32 0) = i" "i < length (buckets d)"
    "local_id d = n" "kb_entries (buckets d ! i) = [e]" "node_id e = replicate 32 0"
  shows "\<exists>e'. kb_entries (buckets (bootstrap_from_nodes now as d) ! i) = [e'] \<and> node_id e' = replicate 32 0
    \<and> addr e' = last (addr e # as)
    \<and> (\<forall>j. j \<noteq> i \<longrightarrow> buckets (bootstrap_from_nodes now as d) ! j = buckets d ! j)
    \<and> length (buckets (bootstrap_from_nodes now as d)) = length (buckets d)"
  using assms
proof (induction as arbitrary: d e)
  case (Cons a as)
  let ?d = "fst (insert_node now (replicate 32 0) a d)"
  let ?e = "e\<lparr>last_seen := now, addr := a\<rparr>"
  have d: "?d = d\<lparr>buckets := (buckets d)[i := (buckets d ! i)\<lparr>kb_entries := [?e]\<rparr>]\<rparr>"
    using Cons.prems by (simp add: insert_node_def kb_insert_def Let_def)
  have "\<exists>e'. kb_entries (buckets (bootstrap_from_nodes now as ?d) ! i) = [e'] \<and> node_id e' = replicate 32 0
    \<and> addr e' = last (addr ?e # as)
    \<and> (\<forall>j. j \<noteq> i \<longrightarrow> buckets (bootstrap_from_nodes now as ?d) ! j = buckets ?d ! j)
    \<and> length (buckets (bootstrap_from_nodes now as ?d)) = length (buckets ?d)"
    by (rule Cons.IH) (use Cons.prems d in simp_all)
  then show ?case using d by auto
qed auto

text \<open>
  All bootstrap nodes share the placeholder identifier zero, so that they overwrite each other:
  after bootstrapping a fresh manager from any number of nodes the bucket of the placeholder
  holds one entry, with the address of the last node.
\<close>

theorem bootstrap_keeps_only_last:
  assumes "node_ok n" and "n \<noteq> replicate 32 0"
  shows "let d = bootstrap_from_nodes now (as @ [a]) (dht_new n);
             i = bucket_index (dht_new n) (replicate 32 0)
         in map (\<lambda>e. (node_id e, addr e)) (kb_entries (buckets d ! i)) = [(replicate 32 0, a)]
          \<and> (\<forall>j < BUCKET_COUNT. j \<noteq> i \<longrightarrow> kb_entries (buckets d ! j) = [])"
proof -
  define i where "i = bucket_index (dht_new n) (replicate 32 0)"
  have len: "length (buckets (dht_new n)) = BUCKET_COUNT" by (simp add: dht_new_def init_buckets_def)
  have i: "i < BUCKET_COUNT"
    using bucket_index_less [of "dht_new n" "replicate 32 0"] assms by (auto simp: i_def dht_new_def node_ok_def)
  have empty: "buckets (dht_new n) ! j = kbucket_new K_BUCKET_SIZE" if "j < BUCKET_COUNT" for j
    using that by (simp add: dht_new_def init_buckets_def)
  have me: "local_id (dht_new n) = n" by (simp add: dht_new_def)
  obtain b bs where split: "as @ [a] = b # bs" by (cases as) auto
  define d1 where "d1 = fst (insert_node now (replicate 32 0) b (dht_new n))"
  let ?e = "\<lparr>node_id = replicate 32 0, addr = b, last_seen = now\<rparr>"
  have d1: "d1 = (dht_new n)\<lparr>buckets := (buckets (dht_new n))[i := \<lparr>kb_entries = [?e], kb_capacity = K_BUCKET_SIZE\<rparr>]\<rparr>"
    using assms(2) empty [OF i] me
    by (auto simp: d1_def insert_node_def kb_insert_def kbucket_new_def K_BUCKET_SIZE_def Let_def
        simp flip: i_def)
  have "bucket_index d1 (replicate 32 0) = i" "local_id d1 = n" by (simp_all add: d1 i_def me)
  with bootstrap_entry [of n d1 i ?e now bs] assms i len split empty d1
  have "\<exists>e'. kb_entries (buckets (bootstrap_from_nodes now bs d1) ! i) = [e'] \<and> node_id e' = replicate 32 0
    \<and> addr e' = last (b # bs)
    \<and> (\<forall>j. j \<noteq> i \<longrightarrow> buckets (bootstrap_from_nodes now bs d1) ! j = buckets d1 ! j)"
    by auto
  moreover have "last (b # bs) = a" using split by (metis last_snoc)
  moreover have "kb_entries (buckets d1 ! j) = []" if "j < BUCKET_COUNT" "j \<noteq> i" for j
    using that empty [OF that(1)] by (simp add: d1 kbucket_new_def)
  ultimately show ?thesis
    by (auto simp: split Let_def d1_def simp flip: i_def)
qed

theorem bootstrap_keeps_only_last_witness:
  "let d = bootstrap_from_nodes 0 ([[97], [98]] @ [[99]]) (dht_new (replicate 32 1));
       i = bucket_index (dht_new (replicate 32 1)) (replicate 32 0)
   in map (\<lambda>e. (node_id e, addr e)) (kb_entries (buckets d ! i)) = [(replicate 32 0, [99])]
    \<and> (\<forall>j < BUCKET_COUNT. j \<noteq> i \<longrightarrow> kb_entries (buckets d ! j) = [])"
  by (rule bootstrap_keeps_only_last) (simp_all add: node_ok_def)

lemma kb_remove_all:
  "foldl (\<lambda>b n. fst (kb_remove n b)) b (map node_id (kb_entries b)) = b\<lparr>kb_entries := []\<rparr>"
proof (induction "kb_entries b" arbitrary: b)
  case (Cons e es)
  then have e: "kb_entries b = e # es" by simp
  then have r: "fst (kb_remove (node_id e) b) = b\<lparr>kb_entries := es\<rparr>" by (simp add: kb_remove_def)
  with Cons.hyps(1) [of "b\<lparr>kb_entries := es\<rparr>"] show ?case by (simp add: e)
qed simp

text \<open>
  One stale node at the front of a bucket makes \<open>refresh\<close> drop the whole bucket, however
  recently the other nodes were seen.
\<close>

theorem refresh_drops_whole_bucket:
  assumes "kb_entries b = e # es" and "now - last_seen e > 300000"
  shows "refresh_bucket now b = (b\<lparr>kb_entries := []\<rparr>, Suc (length es))"
  using assms kb_remove_all [of b] by (simp add: refresh_bucket_def NODE_TIMEOUT_SECS_def Let_def)

theorem refresh_drops_whole_bucket_witness:
  "refresh_bucket 400000 \<lparr>kb_entries = [\<lparr>node_id = [1], addr = [], last_seen = 0\<rparr>,
      \<lparr>node_id = [2], addr = [], last_seen = 399999\<rparr>], kb_capacity = 20\<rparr>
   = (\<lparr>kb_entries = [], kb_capacity = 20\<rparr>, 2)"
  using refresh_drops_whole_bucket [of "\<lparr>kb_entries = [\<lparr>node_id = [1], addr = [], last_seen = 0\<rparr>,
      \<lparr>node_id = [2], addr = [], last_seen = 399999\<rparr>], kb_capacity = 20\<rparr>" _ _ 400000]
  by simp

end
