(* ===== verification/Election.thy ===== *)
theory Election
  imports Identity
begin

text \<open>
  The election of the registry, \<^verbatim>\<open>crates/vpn/src/registry/election.rs\<close>: a Raft-like state
  machine with terms, votes and majorities. SHA-256 and the JSON codec of serde are parameters;
  the callbacks the source has injected (sending, starting and stopping the registry, loading
  data) are the effects an operation returns, in the order of the calls. No code panics while it
  holds one of the locks, so that the branches for a poisoned lock do not occur; serialising the
  payload structures cannot fail. The monitor thread only watches its stop flag.

  The second half of the theory puts managers on a network that may lose, duplicate, delay and
  misdeliver messages and asks when there is at most one leader per term.
\<close>

definition DEFAULT_ELECTION_TIMEOUT_MS :: nat where "DEFAULT_ELECTION_TIMEOUT_MS = 1500"
definition DEFAULT_HEARTBEAT_MISS_THRESHOLD :: u32 where "DEFAULT_HEARTBEAT_MISS_THRESHOLD = 3"

datatype RegistryStatus = Follower | Candidate | Leader

datatype ElectionMessageType =
    TElectionRequest | TElectionVote | TElectionResult | TRegistryChange | TRegistrySync

definition em_from_u8 :: "u8 \<Rightarrow> ElectionMessageType option" where
  "em_from_u8 b =
     (if b = 0x11 then Some TElectionRequest else if b = 0x12 then Some TElectionVote
      else if b = 0x13 then Some TElectionResult else if b = 0x14 then Some TRegistryChange
      else if b = 0x15 then Some TRegistrySync else None)"

fun em_to_u8 :: "ElectionMessageType \<Rightarrow> u8" where
  "em_to_u8 TElectionRequest = 0x11"
| "em_to_u8 TElectionVote = 0x12"
| "em_to_u8 TElectionResult = 0x13"
| "em_to_u8 TRegistryChange = 0x14"
| "em_to_u8 TRegistrySync = 0x15"

record ElectionRequestPayload =
  req_candidate_id :: NodeID
  req_candidate_name :: string
  req_term :: u64

record ElectionVotePayload =
  vote_voter_id :: NodeID
  vote_candidate_id :: NodeID
  vote_term :: u64
  vote_granted :: bool

record ElectionResultPayload =
  res_leader_id :: NodeID
  res_leader_name :: string
  res_term :: u64

record RegistryChangePayload =
  chg_registry_id :: NodeID
  chg_registry_name :: string
  chg_registry_addr :: string
  chg_term :: u64

record RegistrySyncPayload =
  syn_requester_id :: NodeID
  syn_requester_name :: string
  syn_term :: u64

record RegistrySyncResponsePayload =
  rsp_leader_id :: NodeID
  rsp_leader_name :: string
  rsp_term :: u64
  rsp_registry_data :: string

text \<open>A message before it is serialised: the type byte and the payload structure.\<close>

datatype ElectionMsg =
    ElectionRequest ElectionRequestPayload
  | ElectionVote ElectionVotePayload
  | ElectionResult ElectionResultPayload
  | RegistryChange RegistryChangePayload
  | RegistrySync RegistrySyncPayload
  | RegistrySyncResponse RegistrySyncResponsePayload

record election_json =
  dec_request :: "bytes \<Rightarrow> ElectionRequestPayload option"
  dec_vote :: "bytes \<Rightarrow> ElectionVotePayload option"
  dec_result :: "bytes \<Rightarrow> ElectionResultPayload option"
  dec_change :: "bytes \<Rightarrow> RegistryChangePayload option"
  dec_sync :: "bytes \<Rightarrow> RegistrySyncPayload option"

record ElectionConfig =
  cfg_heartbeat_miss_threshold :: u32
  cfg_election_timeout :: nat

definition election_config_default :: ElectionConfig where
  "election_config_default =
     \<lparr>cfg_heartbeat_miss_threshold = DEFAULT_HEARTBEAT_MISS_THRESHOLD,
      cfg_election_timeout = DEFAULT_ELECTION_TIMEOUT_MS\<rparr>"

datatype ElectionError = NoRelayManager | SerializeError | ElectionSendFailed string | NotEnoughNodes

record KnownNode =
  kn_id :: NodeID
  kn_name :: string
  kn_addr :: string

record ElectionManager =
  em_local_id :: NodeID
  em_local_name :: string
  em_status :: RegistryStatus
  em_term :: u64
  voted_for :: "NodeID option"
  registry_id :: "NodeID option"
  registry_name :: "string option"
  registry_addr :: "string option"
  last_registry_heartbeat :: instant
  missed_heartbeats :: u32
  heartbeat_miss_threshold :: u32
  election_timeout :: nat
  em_known_nodes :: "KnownNode list"
  votes_received :: "NodeID list"
  em_running :: bool
  send_fn :: bool
  registry_control :: bool
  sync_callback :: bool
  load_callback :: bool

datatype effect = SendTo string ElectionMsg | RegistryControl bool | LoadData string

definition election_manager_new ::
  "instant \<Rightarrow> NodeID \<Rightarrow> string \<Rightarrow> ElectionConfig option \<Rightarrow> ElectionManager" where
  "election_manager_new now i nm config =
     (let c = (case config of None \<Rightarrow> election_config_default | Some c \<Rightarrow> c)
      in \<lparr>em_local_id = i, em_local_name = nm, em_status = Follower, em_term = 0, voted_for = None,
          registry_id = None, registry_name = None, registry_addr = None,
          last_registry_heartbeat = now, missed_heartbeats = 0,
          heartbeat_miss_threshold = cfg_heartbeat_miss_threshold c,
          election_timeout = cfg_election_timeout c, em_known_nodes = [], votes_received = [],
          em_running = False, send_fn = False, registry_control = False, sync_callback = False,
          load_callback = False\<rparr>)"

section \<open>Registration and monitoring\<close>

definition set_send_fn :: "ElectionManager \<Rightarrow> ElectionManager" where
  "set_send_fn s = s\<lparr>send_fn := True\<rparr>"

definition set_registry_control :: "ElectionManager \<Rightarrow> ElectionManager" where
  "set_registry_control s = s\<lparr>registry_control := True\<rparr>"

definition set_sync_callback :: "ElectionManager \<Rightarrow> ElectionManager" where
  "set_sync_callback s = s\<lparr>sync_callback := True\<rparr>"

definition set_load_callback :: "ElectionManager \<Rightarrow> ElectionManager" where
  "set_load_callback s = s\<lparr>load_callback := True\<rparr>"

definition add_known_node :: "NodeID \<Rightarrow> string \<Rightarrow> string \<Rightarrow> ElectionManager \<Rightarrow> ElectionManager" where
  "add_known_node i nm a s =
     (if \<not> list_ex (\<lambda>n. kn_id n = i) (em_known_nodes s)
      then s\<lparr>em_known_nodes := em_known_nodes s @ [\<lparr>kn_id = i, kn_name = nm, kn_addr = a\<rparr>]\<rparr> else s)"

definition remove_known_node :: "NodeID \<Rightarrow> ElectionManager \<Rightarrow> ElectionManager" where
  "remove_known_node i s = s\<lparr>em_known_nodes := filter (\<lambda>n. kn_id n \<noteq> i) (em_known_nodes s)\<rparr>"

definition reset_heartbeat_monitor :: "instant \<Rightarrow> ElectionManager \<Rightarrow> ElectionManager" where
  "reset_heartbeat_monitor now s = s\<lparr>last_registry_heartbeat := now, missed_heartbeats := 0\<rparr>"

definition set_registry :: "instant \<Rightarrow> NodeID \<Rightarrow> string \<Rightarrow> string \<Rightarrow> ElectionManager \<Rightarrow> ElectionManager" where
  "set_registry now i nm a s =
     reset_heartbeat_monitor now
       (s\<lparr>registry_id := Some i, registry_name := Some nm, registry_addr := Some a\<rparr>)"

definition record_missed_heartbeat :: "ElectionManager \<Rightarrow> ElectionManager" where
  "record_missed_heartbeat s = s\<lparr>missed_heartbeats := missed_heartbeats s + 1\<rparr>"

definition is_registry_healthy :: "ElectionManager \<Rightarrow> bool" where
  "is_registry_healthy s = (missed_heartbeats s < heartbeat_miss_threshold s)"

definition should_start_election :: "ElectionManager \<Rightarrow> bool" where
  "should_start_election s =
     (if em_status s \<noteq> Follower then False
      else if registry_id s = None then False
      else \<not> is_registry_healthy s)"

definition election_start :: "ElectionManager \<Rightarrow> ElectionManager" where
  "election_start s = s\<lparr>em_running := True\<rparr>"

definition election_stop :: "ElectionManager \<Rightarrow> ElectionManager" where
  "election_stop s = s\<lparr>em_running := False\<rparr>"

section \<open>Helpers\<close>

definition broadcast :: "ElectionMsg \<Rightarrow> ElectionManager \<Rightarrow> effect list" where
  "broadcast m s = (if send_fn s then map (\<lambda>n. SendTo (kn_addr n) m) (em_known_nodes s) else [])"

definition build_vote_message :: "NodeID \<Rightarrow> u64 \<Rightarrow> bool \<Rightarrow> ElectionManager \<Rightarrow> ElectionMsg" where
  "build_vote_message c t g s =
     ElectionVote \<lparr>vote_voter_id = em_local_id s, vote_candidate_id = c, vote_term = t, vote_granted = g\<rparr>"

definition compute_candidate_hash :: "(bytes \<Rightarrow> bytes) \<Rightarrow> NodeID \<Rightarrow> u64 \<Rightarrow> u64" where
  "compute_candidate_hash sha256 c t = be_word (take 8 (sha256 (c @ be_bytes 8 t)))"

definition should_vote_for :: "(bytes \<Rightarrow> bytes) \<Rightarrow> NodeID \<Rightarrow> u64 \<Rightarrow> ElectionManager \<Rightarrow> bool" where
  "should_vote_for sha256 c t s =
     (if voted_for s \<noteq> None then False
      else if c = em_local_id s then True
      else compute_candidate_hash sha256 c t > be_word (take 8 (em_local_id s)))"

definition get_local_addr :: "ElectionManager \<Rightarrow> string option" where
  "get_local_addr s = map_option kn_addr (find (\<lambda>n. kn_id n = em_local_id s) (em_known_nodes s))"

section \<open>State transitions\<close>

definition start_election :: "ElectionManager \<Rightarrow> ElectionManager \<times> effect list \<times> (ElectionError, unit) result" where
  "start_election s =
     (if em_status s = Candidate then (s, [], Inr ())
      else if length (em_known_nodes s) = 0 then (s, [], Inl NotEnoughNodes)
      else
        let new_term = em_term s + 1;
            s' = s\<lparr>em_status := Candidate, em_term := new_term, voted_for := Some (em_local_id s),
                   votes_received := [em_local_id s]\<rparr>
        in (s', broadcast (ElectionRequest \<lparr>req_candidate_id = em_local_id s,
                  req_candidate_name = em_local_name s, req_term = new_term\<rparr>) s', Inr ()))"

definition become_leader :: "ElectionManager \<Rightarrow> ElectionManager \<times> effect list" where
  "become_leader s =
     (let local_addr = get_local_addr s;
          s' = s\<lparr>em_status := Leader, registry_id := Some (em_local_id s),
                 registry_name := Some (em_local_name s), registry_addr := local_addr\<rparr>
      in (s',
          (if registry_control s then [RegistryControl True] else [])
          @ broadcast (ElectionResult \<lparr>res_leader_id = em_local_id s,
                res_leader_name = em_local_name s, res_term = em_term s\<rparr>) s'
          @ (case local_addr of
               None \<Rightarrow> []
             | Some a \<Rightarrow> broadcast (RegistryChange \<lparr>chg_registry_id = em_local_id s,
                 chg_registry_name = em_local_name s, chg_registry_addr = a, chg_term = em_term s\<rparr>) s')))"

definition become_follower ::
  "instant \<Rightarrow> u64 \<Rightarrow> NodeID option \<Rightarrow> ElectionManager \<Rightarrow> ElectionManager \<times> effect list" where
  "become_follower now new_term new_registry s =
     (let s1 = (if new_term > em_term s then s\<lparr>em_term := new_term\<rparr> else s);
          s2 = s1\<lparr>em_status := Follower, voted_for := None, votes_received := []\<rparr>;
          s3 = (case new_registry of None \<Rightarrow> s2 | Some r \<Rightarrow> s2\<lparr>registry_id := Some r\<rparr>);
          effs = (case new_registry of
                    None \<Rightarrow> []
                  | Some r \<Rightarrow> if r \<noteq> em_local_id s \<and> registry_control s then [RegistryControl False] else [])
      in (reset_heartbeat_monitor now s3, effs))"

section \<open>Message handlers\<close>

definition handle_election_request ::
  "(bytes \<Rightarrow> bytes) \<Rightarrow> instant \<Rightarrow> ElectionRequestPayload \<Rightarrow> ElectionManager
     \<Rightarrow> ElectionManager \<times> effect list \<times> ElectionMsg option" where
  "handle_election_request sha256 now req s =
     (if req_term req < em_term s
      then (s, [], Some (build_vote_message (req_candidate_id req) (req_term req) False s))
      else
        let (s1, effs) = (if req_term req > em_term s then become_follower now (req_term req) None s
                          else (s, []));
            granted = should_vote_for sha256 (req_candidate_id req) (req_term req) s1;
            s2 = (if granted then s1\<lparr>voted_for := Some (req_candidate_id req)\<rparr> else s1)
        in (s2, effs, Some (build_vote_message (req_candidate_id req) (req_term req) granted s2)))"

definition handle_election_vote ::
  "ElectionVotePayload \<Rightarrow> ElectionManager \<Rightarrow> ElectionManager \<times> effect list \<times> ElectionMsg option" where
  "handle_election_vote vote s =
     (if em_status s \<noteq> Candidate then (s, [], None)
      else if vote_term vote \<noteq> em_term s then (s, [], None)
      else if vote_candidate_id vote \<noteq> em_local_id s then (s, [], None)
      else if vote_granted vote \<and> vote_voter_id vote \<notin> set (votes_received s) then
        let s1 = s\<lparr>votes_received := votes_received s @ [vote_voter_id vote]\<rparr>;
            total_nodes = length (em_known_nodes s) + 1;
            votes = length (votes_received s1)
        in if votes > total_nodes div 2 then
             let (s2, effs) = become_leader s1 in (s2, effs, None)
           else (s1, [], None)
      else (s, [], None))"

definition handle_election_result ::
  "instant \<Rightarrow> ElectionResultPayload \<Rightarrow> ElectionManager \<Rightarrow> ElectionManager \<times> effect list \<times> ElectionMsg option" where
  "handle_election_result now r s =
     (if res_term r < em_term s then (s, [], None)
      else if res_leader_id r = em_local_id s then (s, [], None)
      else let (s', effs) = become_follower now (res_term r) (Some (res_leader_id r)) s
           in (s', effs, None))"

definition handle_registry_change ::
  "instant \<Rightarrow> RegistryChangePayload \<Rightarrow> ElectionManager \<Rightarrow> ElectionManager \<times> effect list \<times> ElectionMsg option" where
  "handle_registry_change now c s =
     (if chg_term c < em_term s then (s, [], None)
      else if chg_registry_id c = em_local_id s then (s, [], None)
      else
        let s1 = s\<lparr>registry_id := Some (chg_registry_id c), registry_name := Some (chg_registry_name c),
                   registry_addr := Some (chg_registry_addr c)\<rparr>;
            stop = (if em_status s1 = Leader \<and> registry_control s1 then [RegistryControl False] else []);
            (s2, effs) = become_follower now (chg_term c) (Some (chg_registry_id c)) s1
        in (s2, stop @ effs, None))"

text \<open>\<open>data\<close> is what the synchronisation callback returns, when one is set.\<close>

definition handle_registry_sync ::
  "string \<Rightarrow> instant \<Rightarrow> RegistrySyncPayload \<Rightarrow> ElectionManager \<Rightarrow> ElectionManager \<times> effect list \<times> ElectionMsg option" where
  "handle_registry_sync dat now sy s =
     (if em_status s \<noteq> Leader then (s, [], None)
      else if syn_term sy > em_term s then
        let (s', effs) = become_follower now (syn_term sy) (Some (syn_requester_id sy)) s
        in (s', effs, None)
      else
        (s, [], Some (RegistrySyncResponse \<lparr>rsp_leader_id = em_local_id s,
           rsp_leader_name = em_local_name s, rsp_term = em_term s,
           rsp_registry_data = (if sync_callback s then dat else [])\<rparr>)))"

definition request_sync ::
  "(string \<Rightarrow> (string, unit) result) \<Rightarrow> string \<Rightarrow> ElectionManager \<Rightarrow> effect list \<times> (ElectionError, unit) result" where
  "request_sync send leader_addr s =
     (let m = RegistrySync \<lparr>syn_requester_id = em_local_id s, syn_requester_name = em_local_name s,
                syn_term = em_term s\<rparr>
      in if send_fn s then
           ([SendTo leader_addr m],
            case send leader_addr of Inl e \<Rightarrow> Inl (ElectionSendFailed e) | Inr _ \<Rightarrow> Inr ())
         else ([], Inl NoRelayManager))"

definition handle_sync_response ::
  "RegistrySyncResponsePayload \<Rightarrow> ElectionManager \<Rightarrow> ElectionManager \<times> effect list" where
  "handle_sync_response r s =
     (let s1 = (if rsp_term r > em_term s then s\<lparr>em_term := rsp_term r\<rparr> else s);
          s2 = s1\<lparr>registry_id := Some (rsp_leader_id r), registry_name := Some (rsp_leader_name r)\<rparr>
      in (s2, if rsp_registry_data r \<noteq> [] \<and> load_callback s then [LoadData (rsp_registry_data r)] else []))"

text \<open>The dispatch on the first byte; a payload that does not parse is a serialisation error.\<close>

definition parse_election ::
  "election_json \<Rightarrow> ElectionMessageType \<Rightarrow> bytes \<Rightarrow> ElectionMsg option" where
  "parse_election J t p =
     (case t of
        TElectionRequest \<Rightarrow> map_option ElectionRequest (dec_request J p)
      | TElectionVote \<Rightarrow> map_option ElectionVote (dec_vote J p)
      | TElectionResult \<Rightarrow> map_option ElectionResult (dec_result J p)
      | TRegistryChange \<Rightarrow> map_option RegistryChange (dec_change J p)
      | TRegistrySync \<Rightarrow> map_option RegistrySync (dec_sync J p))"

fun dispatch ::
  "(bytes \<Rightarrow> bytes) \<Rightarrow> string \<Rightarrow> instant \<Rightarrow> ElectionMsg \<Rightarrow> ElectionManager
     \<Rightarrow> ElectionManager \<times> effect list \<times> ElectionMsg option" where
  "dispatch sha256 dat now (ElectionRequest r) s = handle_election_request sha256 now r s"
| "dispatch sha256 dat now (ElectionVote v) s = handle_election_vote v s"
| "dispatch sha256 dat now (ElectionResult r) s = handle_election_result now r s"
| "dispatch sha256 dat now (RegistryChange c) s = handle_registry_change now c s"
| "dispatch sha256 dat now (RegistrySync y) s = handle_registry_sync dat now y s"
| "dispatch sha256 dat now (RegistrySyncResponse r) s = (s, [], None)"

definition handle_message ::
  "election_json \<Rightarrow> (bytes \<Rightarrow> bytes) \<Rightarrow> string \<Rightarrow> instant \<Rightarrow> bytes \<Rightarrow> ElectionManager
     \<Rightarrow> ElectionManager \<times> effect list \<times> (ElectionError, ElectionMsg option) result" where
  "handle_message J sha256 dat now bs s =
     (case bs of
        [] \<Rightarrow> (s, [], Inr None)
      | b # p \<Rightarrow>
          (case em_from_u8 b of
             None \<Rightarrow> (s, [], Inr None)
           | Some t \<Rightarrow>
               (case parse_election J t p of
                  None \<Rightarrow> (s, [], Inl SerializeError)
                | Some m \<Rightarrow> let (s', effs, r) = dispatch sha256 dat now m s in (s', effs, Inr r))))"

section \<open>What one node does\<close>

lemma become_follower_simps [simp]:
  "em_local_id (fst (become_follower now t r s)) = em_local_id s"
  "send_fn (fst (become_follower now t r s)) = send_fn s"
  "em_known_nodes (fst (become_follower now t r s)) = em_known_nodes s"
  "em_status (fst (become_follower now t r s)) = Follower"
  "voted_for (fst (become_follower now t r s)) = None"
  "em_term (fst (become_follower now t r s)) = max t (em_term s)"
  by (auto simp: become_follower_def reset_heartbeat_monitor_def Let_def max_def split: option.splits)

lemma become_leader_simps [simp]:
  "em_local_id (fst (become_leader s)) = em_local_id s"
  "send_fn (fst (become_leader s)) = send_fn s"
  "em_known_nodes (fst (become_leader s)) = em_known_nodes s"
  "em_status (fst (become_leader s)) = Leader"
  "voted_for (fst (become_leader s)) = voted_for s"
  "em_term (fst (become_leader s)) = em_term s"
  by (simp_all add: become_leader_def Let_def)

text \<open>The messages among the effects and the reply of a step.\<close>

definition msgs :: "effect list \<Rightarrow> ElectionMsg option \<Rightarrow> ElectionMsg set" where
  "msgs effs reply = {m. \<exists>a. SendTo a m \<in> set effs} \<union> set_option reply"

lemma msgs_simps [simp]:
  "msgs [] None = {}" "msgs [] (Some m) = {m}" "msgs (RegistryControl b # effs) r = msgs effs r"
  by (auto simp: msgs_def)

lemma msgs_broadcast:
  "msgs (broadcast m s) None = (if send_fn s \<and> em_known_nodes s \<noteq> [] then {m} else {})"
  by (auto simp: msgs_def broadcast_def intro: hd_in_set)

lemma msgs_append: "msgs (xs @ ys) r = msgs xs None \<union> msgs ys r"
  by (auto simp: msgs_def)

lemma become_follower_silent: "msgs (snd (become_follower now t r s)) None = {}"
  by (auto simp: become_follower_def msgs_def Let_def split: option.splits)

lemma become_follower_msgs: "msgs (snd (become_follower now t r s)) reply = set_option reply"
  using become_follower_silent [of now t r s] by (auto simp: msgs_def)

lemma become_leader_msgs:
  "m \<in> msgs (snd (become_leader s)) None \<Longrightarrow>
     m = ElectionResult \<lparr>res_leader_id = em_local_id s, res_leader_name = em_local_name s, res_term = em_term s\<rparr>
     \<or> (\<exists>c. m = RegistryChange c)"
  by (auto simp: become_leader_def Let_def msgs_append msgs_broadcast split: if_splits option.splits)

lemmas handler_defs = handle_election_request_def handle_election_vote_def handle_election_result_def
  handle_registry_change_def handle_registry_sync_def

lemma dispatch_frame:
  assumes "dispatch sha dat now m s = (s', effs, reply)"
  shows "em_local_id s' = em_local_id s \<and> send_fn s' = send_fn s \<and> em_known_nodes s' = em_known_nodes s"
  using assms
  by (cases m) (auto simp: handler_defs Let_def case_prod_unfold split: if_splits)

lemma dispatch_votes_cast:
  assumes "dispatch sha dat now m s = (s', effs, reply)" and "ElectionVote v \<in> msgs effs reply"
  shows "vote_voter_id v = em_local_id s"
  using assms
  by (cases m)
     (auto simp: handler_defs Let_def case_prod_unfold build_vote_message_def become_follower_msgs
        msgs_append msgs_simps split: if_splits dest: become_leader_msgs)

lemma dispatch_no_request:
  assumes "dispatch sha dat now m s = (s', effs, reply)"
  shows "ElectionRequest r \<notin> msgs effs reply"
  using assms
  by (cases m)
     (auto simp: handler_defs Let_def case_prod_unfold build_vote_message_def become_follower_msgs
        msgs_append msgs_simps split: if_splits dest: become_leader_msgs)

lemma dispatch_granted:
  assumes "dispatch sha dat now m s = (s', effs, reply)" and "ElectionVote v \<in> msgs effs reply"
    and "vote_granted v"
  shows "vote_term v = em_term s' \<and> voted_for s' = Some (vote_candidate_id v)
    \<and> (em_term s < vote_term v \<or> voted_for s = None)"
  using assms
  by (cases m)
     (auto simp: handler_defs Let_def case_prod_unfold build_vote_message_def become_follower_msgs
        should_vote_for_def msgs_append msgs_simps split: if_splits dest: become_leader_msgs)

lemma dispatch_term:
  assumes "dispatch sha dat now m s = (s', effs, reply)"
  shows "em_term s \<le> em_term s'"
  using assms
  by (cases m) (auto simp: handler_defs Let_def case_prod_unfold split: if_splits)

text \<open>A message that announces a leader for a term the receiver has not entered yet, or none at all.\<close>

definition fresh_for :: "ElectionMsg \<Rightarrow> ElectionManager \<Rightarrow> bool" where
  "fresh_for m s =
     (case m of
        ElectionResult r \<Rightarrow> res_term r \<noteq> em_term s
      | RegistryChange c \<Rightarrow> chg_term c \<noteq> em_term s
      | _ \<Rightarrow> True)"

lemma max_eq_right: "max a (b :: u64) = b \<longleftrightarrow> a \<le> b"
  by (metis max.absorb_iff2)

lemma dispatch_keeps_vote:
  assumes "dispatch sha dat now m s = (s', effs, reply)" and "fresh_for m s" and "em_term s' = em_term s"
  shows "voted_for s' = voted_for s \<or> voted_for s = None"
proof -
  have s': "s' = fst (dispatch sha dat now m s)" using assms(1) by simp
  have newer: "\<not> t > em_term s" if "fst (become_follower now t r u) = s'" "em_term u = em_term s" for t r u
    using that assms(3) by (metis become_follower_simps(6) max_eq_right not_le)
  show ?thesis
  proof (cases m)
    case (ElectionRequest r)
    have "\<not> req_term r > em_term s"
    proof
      assume gt: "req_term r > em_term s"
      then have "em_term s' = req_term r"
        by (auto simp: s' ElectionRequest handle_election_request_def Let_def case_prod_unfold max_def)
      with assms(3) gt show False by simp
    qed
    then show ?thesis
      by (simp add: s' ElectionRequest handle_election_request_def should_vote_for_def Let_def)
  next
    case (ElectionVote v)
    then show ?thesis using s' by (auto simp: handle_election_vote_def Let_def case_prod_unfold)
  next
    case (ElectionResult r)
    with s' newer [of "res_term r" "Some (res_leader_id r)" s] assms(2) show ?thesis
      by (auto simp: handle_election_result_def fresh_for_def case_prod_unfold Let_def split: if_splits)
  next
    case (RegistryChange c)
    then show ?thesis using s' assms(2) newer [of "chg_term c" "Some (chg_registry_id c)"
        "s\<lparr>registry_id := Some (chg_registry_id c), registry_name := Some (chg_registry_name c),
          registry_addr := Some (chg_registry_addr c)\<rparr>"]
      by (auto simp: handle_registry_change_def fresh_for_def case_prod_unfold Let_def)
  next
    case (RegistrySync y)
    with s' newer [of "syn_term y" "Some (syn_requester_id y)" s] show ?thesis
      by (auto simp: handle_registry_sync_def case_prod_unfold Let_def split: if_splits)
  qed (use s' in simp)
qed

lemma dispatch_candidate:
  assumes "dispatch sha dat now m s = (s', effs, reply)" and "em_status s' = Candidate"
  shows "em_status s = Candidate \<and> em_term s' = em_term s
    \<and> (votes_received s' = votes_received s
       \<or> (\<exists>v. m = ElectionVote v \<and> vote_granted v \<and> vote_candidate_id v = em_local_id s
            \<and> vote_term v = em_term s \<and> vote_voter_id v \<notin> set (votes_received s)
            \<and> votes_received s' = votes_received s @ [vote_voter_id v]))"
  using assms
  by (cases m)
     (auto simp: handler_defs Let_def case_prod_unfold split: if_splits)

lemma dispatch_elected:
  assumes "dispatch sha dat now m s = (s', effs, reply)" and "ElectionResult r \<in> msgs effs reply"
  shows "\<exists>v. m = ElectionVote v \<and> em_status s = Candidate \<and> vote_granted v
    \<and> vote_candidate_id v = em_local_id s \<and> vote_term v = em_term s
    \<and> vote_voter_id v \<notin> set (votes_received s)
    \<and> res_leader_id r = em_local_id s \<and> res_term r = em_term s
    \<and> length (em_known_nodes s) + 1 < 2 * (length (votes_received s) + 1)"
  using assms
  by (cases m)
     (auto simp: handler_defs Let_def case_prod_unfold build_vote_message_def become_follower_msgs
        msgs_append msgs_simps split: if_splits dest: become_leader_msgs)

section \<open>A network of nodes\<close>

text \<open>
  The managers of a cluster and every message ever sent. A message that was sent may be
  delivered to any node, at any time and any number of times, or never.
\<close>

record net =
  mgr :: "NodeID \<Rightarrow> ElectionManager"
  sent :: "ElectionMsg set"

definition net_put :: "NodeID \<Rightarrow> ElectionManager \<Rightarrow> ElectionMsg set \<Rightarrow> net \<Rightarrow> net" where
  "net_put i s M n = \<lparr>mgr = (mgr n)(i := s), sent = sent n \<union> M\<rparr>"

definition net_init :: "NodeID set \<Rightarrow> net \<Rightarrow> bool" where
  "net_init N n \<longleftrightarrow> finite N \<and> sent n = {}
     \<and> (\<forall>i \<in> N. em_local_id (mgr n i) = i \<and> em_status (mgr n i) = Follower
          \<and> voted_for (mgr n i) = None \<and> send_fn (mgr n i)
          \<and> length (em_known_nodes (mgr n i)) + 1 = card N)"

text \<open>
  Steps of the network. With \<open>strict\<close> no node is handed the announcement of a leader for the
  term it is already in. An election is not started in the last of the \<open>2^64\<close> terms.
\<close>

inductive net_step :: "(bytes \<Rightarrow> bytes) \<Rightarrow> bool \<Rightarrow> NodeID set \<Rightarrow> net \<Rightarrow> net \<Rightarrow> bool" for sha strict N where
  net_start: "i \<in> N \<Longrightarrow> em_term (mgr n i) < - 1 \<Longrightarrow> start_election (mgr n i) = (s', effs, r) \<Longrightarrow>
    net_step sha strict N n (net_put i s' (msgs effs None) n)"
| net_deliver: "i \<in> N \<Longrightarrow> m \<in> sent n \<Longrightarrow> (strict \<Longrightarrow> fresh_for m (mgr n i)) \<Longrightarrow>
    dispatch sha dat now m (mgr n i) = (s', effs, reply) \<Longrightarrow>
    net_step sha strict N n (net_put i s' (msgs effs reply) n)"
| net_sync: "i \<in> N \<Longrightarrow> request_sync send a (mgr n i) = (effs, r) \<Longrightarrow>
    net_step sha strict N n (net_put i (mgr n i) (msgs effs None) n)"
| net_missed: "i \<in> N \<Longrightarrow> net_step sha strict N n (net_put i (record_missed_heartbeat (mgr n i)) {} n)"
| net_reset: "i \<in> N \<Longrightarrow> net_step sha strict N n (net_put i (reset_heartbeat_monitor now (mgr n i)) {} n)"
| net_registry: "i \<in> N \<Longrightarrow> net_step sha strict N n (net_put i (set_registry now j nm a (mgr n i)) {} n)"

inductive net_reachable :: "(bytes \<Rightarrow> bytes) \<Rightarrow> bool \<Rightarrow> NodeID set \<Rightarrow> net \<Rightarrow> bool" for sha strict N where
  reach_init: "net_init N n \<Longrightarrow> net_reachable sha strict N n"
| reach_step: "net_reachable sha strict N n \<Longrightarrow> net_step sha strict N n n' \<Longrightarrow> net_reachable sha strict N n'"

text \<open>
  Node \<open>v\<close> supports candidate \<open>c\<close> in term \<open>t\<close>: it sent a granted vote, or it is the candidate
  and has announced its candidature. Node \<open>l\<close> was elected in term \<open>t\<close>: it has announced so.
\<close>

definition supports :: "net \<Rightarrow> NodeID \<Rightarrow> NodeID \<Rightarrow> u64 \<Rightarrow> bool" where
  "supports n v c t \<longleftrightarrow>
     ElectionVote \<lparr>vote_voter_id = v, vote_candidate_id = c, vote_term = t, vote_granted = True\<rparr> \<in> sent n
     \<or> v = c \<and> (\<exists>nm. ElectionRequest \<lparr>req_candidate_id = c, req_candidate_name = nm, req_term = t\<rparr> \<in> sent n)"

definition elected :: "net \<Rightarrow> NodeID \<Rightarrow> u64 \<Rightarrow> bool" where
  "elected n l t \<longleftrightarrow>
     (\<exists>nm. ElectionResult \<lparr>res_leader_id = l, res_leader_name = nm, res_term = t\<rparr> \<in> sent n)"

definition net_inv :: "NodeID set \<Rightarrow> net \<Rightarrow> bool" where
  "net_inv N n \<longleftrightarrow> finite N
     \<and> (\<forall>i \<in> N. em_local_id (mgr n i) = i \<and> send_fn (mgr n i) \<and> length (em_known_nodes (mgr n i)) + 1 = card N)
     \<and> (\<forall>v. ElectionVote v \<in> sent n \<longrightarrow> vote_voter_id v \<in> N)
     \<and> (\<forall>i \<in> N. em_status (mgr n i) = Candidate \<longrightarrow>
          distinct (votes_received (mgr n i))
          \<and> (\<forall>v \<in> set (votes_received (mgr n i)). v \<in> N \<and> supports n v i (em_term (mgr n i))))
     \<and> (\<forall>l t. elected n l t \<longrightarrow> (\<exists>V \<subseteq> N. card N < 2 * card V \<and> (\<forall>v \<in> V. supports n v l t)))"

lemma net_put_simps [simp]:
  "mgr (net_put i s M n) = (mgr n)(i := s)" "sent (net_put i s M n) = sent n \<union> M"
  by (simp_all add: net_put_def)

lemma supports_mono: "supports n v c t \<Longrightarrow> supports (net_put i s M n) v c t"
  by (auto simp: supports_def)

lemma net_inv_put:
  assumes inv: "net_inv N n" and i: "i \<in> N"
    and frame: "em_local_id s' = i" "send_fn s'" "em_known_nodes s' = em_known_nodes (mgr n i)"
    and votes: "\<And>v. ElectionVote v \<in> M \<Longrightarrow> vote_voter_id v = i"
    and cand: "em_status s' = Candidate \<Longrightarrow> distinct (votes_received s')
      \<and> (\<forall>v \<in> set (votes_received s'). v \<in> N \<and> supports (net_put i s' M n) v i (em_term s'))"
    and won: "\<And>r. ElectionResult r \<in> M \<Longrightarrow>
      \<exists>V \<subseteq> N. card N < 2 * card V \<and> (\<forall>v \<in> V. supports n v (res_leader_id r) (res_term r))"
  shows "net_inv N (net_put i s' M n)"
proof -
  let ?n = "net_put i s' M n"
  have "\<exists>V \<subseteq> N. card N < 2 * card V \<and> (\<forall>v \<in> V. supports ?n v l t)" if "elected ?n l t" for l t
  proof -
    from that obtain nm where "ElectionResult \<lparr>res_leader_id = l, res_leader_name = nm, res_term = t\<rparr> \<in> sent n \<union> M"
      by (auto simp: elected_def)
    then have "\<exists>V \<subseteq> N. card N < 2 * card V \<and> (\<forall>v \<in> V. supports n v l t)"
    proof
      assume "ElectionResult \<lparr>res_leader_id = l, res_leader_name = nm, res_term = t\<rparr> \<in> sent n"
      then have "elected n l t" by (auto simp: elected_def)
      then show ?thesis using inv unfolding net_inv_def by blast
    next
      assume "ElectionResult \<lparr>res_leader_id = l, res_leader_name = nm, res_term = t\<rparr> \<in> M"
      from won [OF this] show ?thesis by simp
    qed
    then show ?thesis by (meson supports_mono)
  qed
  moreover have "distinct (votes_received (mgr ?n j))
      \<and> (\<forall>v \<in> set (votes_received (mgr ?n j)). v \<in> N \<and> supports ?n v j (em_term (mgr ?n j)))"
    if "j \<in> N" "em_status (mgr ?n j) = Candidate" for j
  proof (cases "j = i")
    case True
    then show ?thesis using cand that(2) by simp
  next
    case False
    then have "mgr ?n j = mgr n j" by simp
    then show ?thesis using inv that by (auto simp: net_inv_def intro: supports_mono)
  qed
  moreover have "em_local_id (mgr ?n j) = j \<and> send_fn (mgr ?n j) \<and> length (em_known_nodes (mgr ?n j)) + 1 = card N"
    if "j \<in> N" for j
    using that frame inv i by (auto simp: net_inv_def)
  moreover have "vote_voter_id v \<in> N" if "ElectionVote v \<in> sent ?n" for v
    using that votes i inv by (auto simp: net_inv_def)
  moreover have "finite N" using inv by (simp add: net_inv_def)
  ultimately show ?thesis unfolding net_inv_def by blast
qed

lemma start_election_cases:
  assumes "start_election s = (s', effs, r)" and "send_fn s"
  shows "s' = s \<and> effs = [] \<or>
    em_known_nodes s \<noteq> [] \<and> em_status s' = Candidate \<and> em_term s' = em_term s + 1
    \<and> voted_for s' = Some (em_local_id s) \<and> votes_received s' = [em_local_id s]
    \<and> em_local_id s' = em_local_id s \<and> send_fn s' = send_fn s \<and> em_known_nodes s' = em_known_nodes s
    \<and> msgs effs None = {ElectionRequest \<lparr>req_candidate_id = em_local_id s,
         req_candidate_name = em_local_name s, req_term = em_term s + 1\<rparr>}"
  using assms by (auto simp: start_election_def Let_def msgs_broadcast split: if_splits)

lemma supports_vote:
  assumes "ElectionVote v \<in> sent n" "vote_granted v"
  shows "supports n (vote_voter_id v) (vote_candidate_id v) (vote_term v)"
proof -
  have "v = \<lparr>vote_voter_id = vote_voter_id v, vote_candidate_id = vote_candidate_id v,
      vote_term = vote_term v, vote_granted = True\<rparr>" using assms(2) by simp
  with assms(1) show ?thesis by (auto simp: supports_def)
qed

lemma net_inv_deliver:
  assumes inv: "net_inv N n" and i: "i \<in> N" and m: "m \<in> sent n"
    and d: "dispatch sha dat now m (mgr n i) = (s', effs, reply)"
  shows "net_inv N (net_put i s' (msgs effs reply) n)"
proof (rule net_inv_put [OF inv i])
  let ?s = "mgr n i"
  have s: "em_local_id ?s = i" "send_fn ?s" "length (em_known_nodes ?s) + 1 = card N"
    and voter: "\<And>v. ElectionVote v \<in> sent n \<Longrightarrow> vote_voter_id v \<in> N"
    using inv i by (auto simp: net_inv_def)
  have cand: "distinct (votes_received ?s)" "\<forall>v \<in> set (votes_received ?s). v \<in> N \<and> supports n v i (em_term ?s)"
    if "em_status ?s = Candidate" using inv i that by (auto simp: net_inv_def)
  show "em_local_id s' = i" "send_fn s'" "em_known_nodes s' = em_known_nodes ?s"
    using dispatch_frame [OF d] s by auto
  show "vote_voter_id v = i" if "ElectionVote v \<in> msgs effs reply" for v
    using dispatch_votes_cast [OF d that] s by simp
  show "distinct (votes_received s')
      \<and> (\<forall>v \<in> set (votes_received s'). v \<in> N \<and> supports (net_put i s' (msgs effs reply) n) v i (em_term s'))"
    if "em_status s' = Candidate"
  proof -
    note c = dispatch_candidate [OF d that]
    have old: "v \<in> N \<and> supports (net_put i s' (msgs effs reply) n) v i (em_term s')"
      if "v \<in> set (votes_received ?s)" for v using c cand(2) that by (auto intro: supports_mono)
    have new: "vote_voter_id v \<in> N \<and> supports (net_put i s' (msgs effs reply) n) (vote_voter_id v) i (em_term s')"
      if "m = ElectionVote v" "vote_granted v" "vote_candidate_id v = i" "vote_term v = em_term s'" for v
      using that m voter supports_vote [of v n] by (metis supports_mono)
    from c s(1) consider "votes_received s' = votes_received ?s"
      | v where "m = ElectionVote v" "vote_granted v" "vote_candidate_id v = i" "vote_term v = em_term s'"
          "vote_voter_id v \<notin> set (votes_received ?s)" "votes_received s' = votes_received ?s @ [vote_voter_id v]"
      by metis
    then show ?thesis
    proof cases
      case 1
      then show ?thesis using c cand(1) old by simp
    next
      case (2 v)
      from new [OF 2(1-4)] 2(5,6) c cand(1) old show ?thesis by (simp add: ball_Un)
    qed
  qed
  show "\<exists>V \<subseteq> N. card N < 2 * card V \<and> (\<forall>v \<in> V. supports n v (res_leader_id r) (res_term r))"
    if res: "ElectionResult r \<in> msgs effs reply" for r
  proof -
    obtain v where v: "m = ElectionVote v" "em_status ?s = Candidate" "vote_granted v"
        "vote_candidate_id v = i" "vote_term v = em_term ?s" "vote_voter_id v \<notin> set (votes_received ?s)"
        "res_leader_id r = i" "res_term r = em_term ?s" "card N < 2 * (length (votes_received ?s) + 1)"
      using dispatch_elected [OF d res, unfolded s(1) s(3)] by blast
    let ?V = "insert (vote_voter_id v) (set (votes_received ?s))"
    have "card ?V = length (votes_received ?s) + 1"
      using v(6) cand(1) [OF v(2)] by (simp add: distinct_card)
    moreover have "?V \<subseteq> N" using cand(2) [OF v(2)] voter m v(1) by auto
    moreover have "\<forall>x \<in> ?V. supports n x i (em_term ?s)"
      using cand(2) [OF v(2)] supports_vote [of v n] m v by auto
    ultimately show ?thesis using v by (intro exI [of _ ?V]) auto
  qed
qed

lemma net_inv_local:
  assumes "net_inv N n" "i \<in> N" "\<forall>v. ElectionVote v \<notin> M" "\<forall>r. ElectionResult r \<notin> M"
    and "em_local_id s' = em_local_id (mgr n i)" "send_fn s' = send_fn (mgr n i)"
    "em_known_nodes s' = em_known_nodes (mgr n i)" "em_status s' = em_status (mgr n i)"
    "em_term s' = em_term (mgr n i)" "votes_received s' = votes_received (mgr n i)"
  shows "net_inv N (net_put i s' M n)"
  by (rule net_inv_put [OF assms(1,2)])
     (use assms in \<open>auto simp: net_inv_def intro: supports_mono\<close>)

lemma net_inv_start:
  assumes inv: "net_inv N n" and i: "i \<in> N" and e: "start_election (mgr n i) = (s', effs, r)"
  shows "net_inv N (net_put i s' (msgs effs None) n)"
proof -
  have s: "em_local_id (mgr n i) = i" "send_fn (mgr n i)" using inv i by (auto simp: net_inv_def)
  from start_election_cases [OF e s(2)] show ?thesis
  proof
    assume "s' = mgr n i \<and> effs = []"
    then show ?thesis by (intro net_inv_local [OF inv i]) auto
  next
    assume c: "em_known_nodes (mgr n i) \<noteq> [] \<and> em_status s' = Candidate \<and> em_term s' = em_term (mgr n i) + 1
      \<and> voted_for s' = Some (em_local_id (mgr n i)) \<and> votes_received s' = [em_local_id (mgr n i)]
      \<and> em_local_id s' = em_local_id (mgr n i) \<and> send_fn s' = send_fn (mgr n i)
      \<and> em_known_nodes s' = em_known_nodes (mgr n i)
      \<and> msgs effs None = {ElectionRequest \<lparr>req_candidate_id = em_local_id (mgr n i),
           req_candidate_name = em_local_name (mgr n i), req_term = em_term (mgr n i) + 1\<rparr>}"
    show ?thesis by (rule net_inv_put [OF inv i]) (use c s i in \<open>auto simp: supports_def\<close>)
  qed
qed

lemma request_sync_msgs:
  "request_sync send a s = (effs, r) \<Longrightarrow>
     ElectionVote v \<notin> msgs effs None \<and> ElectionResult x \<notin> msgs effs None \<and> ElectionRequest y \<notin> msgs effs None"
  by (auto simp: request_sync_def Let_def msgs_def split: if_splits)

lemmas monitor_defs = record_missed_heartbeat_def reset_heartbeat_monitor_def set_registry_def

lemma net_reachable_inv: "net_reachable sha strict N n \<Longrightarrow> net_inv N n"
proof (induction rule: net_reachable.induct)
  case (reach_init n)
  then show ?case by (auto simp: net_init_def net_inv_def elected_def)
next
  case (reach_step n n')
  note inv = reach_step.IH
  from reach_step(2) show ?case
  proof (cases rule: net_step.cases)
    case (net_start i s' effs r)
    then show ?thesis using net_inv_start [OF inv] by blast
  next
    case (net_deliver i m dat now s' effs reply)
    then show ?thesis using net_inv_deliver [OF inv] by blast
  next
    case (net_sync i send a effs r)
    then show ?thesis using inv request_sync_msgs [of send a "mgr n i" effs r]
      by (auto intro!: net_inv_local)
  qed (use inv in \<open>auto simp: monitor_defs intro!: net_inv_local\<close>)
qed

lemma quorums_intersect:
  assumes "finite N" "V \<subseteq> N" "W \<subseteq> N" "card N < 2 * card V" "card N < 2 * card W"
  shows "V \<inter> W \<noteq> {}"
proof
  assume "V \<inter> W = {}"
  then have "card (V \<union> W) = card V + card W"
    using assms by (intro card_Un_disjoint) (auto intro: finite_subset)
  moreover have "card (V \<union> W) \<le> card N" using assms by (intro card_mono) auto
  ultimately show False using assms(4,5) by simp
qed

lemma common_supporter:
  assumes "net_inv N n" "elected n l t" "elected n l' t"
  shows "\<exists>v \<in> N. supports n v l t \<and> supports n v l' t"
proof -
  from assms obtain V W where V: "V \<subseteq> N" "card N < 2 * card V" "\<forall>v \<in> V. supports n v l t"
    and W: "W \<subseteq> N" "card N < 2 * card W" "\<forall>v \<in> W. supports n v l' t"
    unfolding net_inv_def by meson
  have "finite N" using assms(1) by (simp add: net_inv_def)
  with quorums_intersect [OF this V(1) W(1) V(2) W(2)] V W show ?thesis by blast
qed

text \<open>
  Whatever the network does, a node that announces its election in a term has the support of a
  majority of the cluster in that term; hence if two nodes are elected in one term, some node
  has supported both.
\<close>

theorem two_leaders_share_a_voter:
  assumes "net_reachable sha False N n" and "elected n l t" and "elected n l' t"
  shows "(\<exists>V \<subseteq> N. card N < 2 * card V \<and> (\<forall>v \<in> V. supports n v l t))
    \<and> (\<exists>v \<in> N. supports n v l t \<and> supports n v l' t)"
proof -
  note inv = net_reachable_inv [OF assms(1)]
  then have "\<exists>V \<subseteq> N. card N < 2 * card V \<and> (\<forall>v \<in> V. supports n v l t)"
    using assms(2) by (simp add: net_inv_def)
  with common_supporter [OF inv assms(2,3)] show ?thesis by blast
qed

section \<open>One vote per term\<close>

definition vote_inv :: "NodeID set \<Rightarrow> net \<Rightarrow> bool" where
  "vote_inv N n \<longleftrightarrow>
     (\<forall>v \<in> N. \<forall>c t. supports n v c t \<longrightarrow>
        t < em_term (mgr n v) \<or> t = em_term (mgr n v) \<and> voted_for (mgr n v) = Some c)
     \<and> (\<forall>v \<in> N. \<forall>c c' t. supports n v c t \<longrightarrow> supports n v c' t \<longrightarrow> c = c')"

lemma vote_inv_put:
  assumes inv: "vote_inv N n" and i: "i \<in> N"
    and later: "em_term (mgr n i) \<le> em_term s'"
    and keep: "em_term s' = em_term (mgr n i) \<Longrightarrow>
      voted_for s' = voted_for (mgr n i) \<or> voted_for (mgr n i) = None"
    and new: "\<And>v c t. supports (net_put i s' M n) v c t \<Longrightarrow> supports n v c t
      \<or> v = i \<and> t = em_term s' \<and> voted_for s' = Some c
        \<and> (em_term (mgr n i) < t \<or> voted_for (mgr n i) = None)"
  shows "vote_inv N (net_put i s' M n)"
proof -
  let ?n = "net_put i s' M n"
  have cur: "t < em_term (mgr n v) \<or> t = em_term (mgr n v) \<and> voted_for (mgr n v) = Some c"
    if "v \<in> N" "supports n v c t" for v c t using inv that by (auto simp: vote_inv_def)
  have now: "t < em_term (mgr ?n v) \<or> t = em_term (mgr ?n v) \<and> voted_for (mgr ?n v) = Some c"
    if "v \<in> N" "supports ?n v c t" for v c t
    using new [OF that(2)] cur [OF that(1), of c t] later keep by (cases "v = i") auto
  have clash: False if "supports n i c' (em_term s')" "em_term (mgr n i) < em_term s' \<or> voted_for (mgr n i) = None" for c'
    using cur [OF i that(1)] that(2) later by auto
  have "c = c'" if "v \<in> N" "supports ?n v c t" "supports ?n v c' t" for v c c' t
    using new [OF that(2)] new [OF that(3)] clash inv that(1) by (auto simp: vote_inv_def)
  with now show ?thesis by (auto simp: vote_inv_def simp del: net_put_simps)
qed

lemma net_reachable_vote_inv: "net_reachable sha True N n \<Longrightarrow> vote_inv N n"
proof (induction rule: net_reachable.induct)
  case (reach_init n)
  then show ?case by (auto simp: net_init_def vote_inv_def supports_def)
next
  case (reach_step n n')
  note inv = reach_step.IH and ninv = net_reachable_inv [OF reach_step(1)]
  have me: "em_local_id (mgr n i) = i" "send_fn (mgr n i)" if "i \<in> N" for i
    using ninv that by (auto simp: net_inv_def)
  from reach_step(2) show ?case
  proof (cases rule: net_step.cases)
    case (net_start i s' effs r)
    have "em_term (mgr n i) < em_term (mgr n i) + 1"
      using net_start(3) unat_add_one [of "em_term (mgr n i)"] unat_max_word [where 'a = 64]
      by (simp add: word_less_nat_alt)
    note up = this
    note local = me [OF net_start(2)]
    from start_election_cases [OF net_start(4) local(2)] show ?thesis
      unfolding net_start(1)
    proof
      assume "s' = mgr n i \<and> effs = []"
      then show "vote_inv N (net_put i s' (msgs effs None) n)"
        by (intro vote_inv_put [OF inv net_start(2)]) (auto simp: supports_def)
    next
      assume c: "em_known_nodes (mgr n i) \<noteq> [] \<and> em_status s' = Candidate \<and> em_term s' = em_term (mgr n i) + 1
        \<and> voted_for s' = Some (em_local_id (mgr n i)) \<and> votes_received s' = [em_local_id (mgr n i)]
        \<and> em_local_id s' = em_local_id (mgr n i) \<and> send_fn s' = send_fn (mgr n i)
        \<and> em_known_nodes s' = em_known_nodes (mgr n i)
        \<and> msgs effs None = {ElectionRequest \<lparr>req_candidate_id = em_local_id (mgr n i),
             req_candidate_name = em_local_name (mgr n i), req_term = em_term (mgr n i) + 1\<rparr>}"
      show "vote_inv N (net_put i s' (msgs effs None) n)"
        by (rule vote_inv_put [OF inv net_start(2)]) (use c up local(1) in \<open>auto simp: supports_def\<close>)
    qed
  next
    case (net_deliver i m dat now s' effs reply)
    note d = net_deliver(5)
    show ?thesis unfolding net_deliver(1)
    proof (rule vote_inv_put [OF inv net_deliver(2) dispatch_term [OF d]])
      show "voted_for s' = voted_for (mgr n i) \<or> voted_for (mgr n i) = None"
        if "em_term s' = em_term (mgr n i)"
        using dispatch_keeps_vote [OF d _ that] net_deliver(4) by simp
    next
      fix v c t
      assume "supports (net_put i s' (msgs effs reply) n) v c t"
      then consider "supports n v c t"
        | "ElectionVote \<lparr>vote_voter_id = v, vote_candidate_id = c, vote_term = t, vote_granted = True\<rparr> \<in> msgs effs reply"
        using dispatch_no_request [OF d] by (auto simp: supports_def)
      then show "supports n v c t \<or> v = i \<and> t = em_term s' \<and> voted_for s' = Some c
          \<and> (em_term (mgr n i) < t \<or> voted_for (mgr n i) = None)"
        using dispatch_granted [OF d] dispatch_votes_cast [OF d] me(1) [OF net_deliver(2)] by cases force+
    qed
  next
    case (net_sync i send a effs r)
    then show ?thesis using inv request_sync_msgs [of send a "mgr n i" effs r]
      by (auto simp: supports_def intro!: vote_inv_put)
  qed (use inv in \<open>auto simp: supports_def monitor_defs intro!: vote_inv_put\<close>)
qed

text \<open>
  C7. Election safety: as long as no node is handed the announcement of a leader for the term it is
  already in, no node supports two candidates in one term, and at most one node is ever elected
  per term, however messages are lost, repeated, delayed or misdelivered.
\<close>

theorem election_safety:
  assumes "net_reachable sha True N n"
  shows "(\<forall>v \<in> N. \<forall>c c' t. supports n v c t \<longrightarrow> supports n v c' t \<longrightarrow> c = c')
    \<and> (\<forall>l l' t. elected n l t \<longrightarrow> elected n l' t \<longrightarrow> l = l')"
proof -
  have one: "\<forall>v \<in> N. \<forall>c c' t. supports n v c t \<longrightarrow> supports n v c' t \<longrightarrow> c = c'"
    using net_reachable_vote_inv [OF assms] by (simp add: vote_inv_def)
  with common_supporter [OF net_reachable_inv [OF assms]] show ?thesis by blast
qed

section \<open>A cluster of three\<close>

text \<open>
  Three nodes that know each other, and functions that perform one network step; the runs below
  are built from them.
\<close>

definition cluster_node :: "NodeID \<Rightarrow> NodeID \<Rightarrow> NodeID \<Rightarrow> ElectionManager" where
  "cluster_node i j k =
     set_send_fn (add_known_node k [] [] (add_known_node j [] [] (election_manager_new 0 i [] None)))"

definition cluster :: "NodeID \<Rightarrow> NodeID \<Rightarrow> NodeID \<Rightarrow> net" where
  "cluster a b c = \<lparr>mgr = (\<lambda>i. if i = a then cluster_node a b c else if i = b then cluster_node b a c
     else cluster_node c a b), sent = {}\<rparr>"

definition do_start :: "NodeID \<Rightarrow> net \<Rightarrow> net" where
  "do_start i n = (let (s', effs, r) = start_election (mgr n i) in net_put i s' (msgs effs None) n)"

definition do_deliver :: "(bytes \<Rightarrow> bytes) \<Rightarrow> ElectionMsg \<Rightarrow> NodeID \<Rightarrow> net \<Rightarrow> net" where
  "do_deliver sha m i n =
     (let (s', effs, reply) = dispatch sha [] 0 m (mgr n i) in net_put i s' (msgs effs reply) n)"

lemma cluster_init: "distinct [a, b, c] \<Longrightarrow> net_init {a, b, c} (cluster a b c)"
  by (auto simp: net_init_def cluster_def cluster_node_def set_send_fn_def add_known_node_def election_manager_new_def)

lemma cluster_node_simps [simp]:
  "em_local_id (cluster_node i j k) = i" "em_local_name (cluster_node i j k) = []"
  "em_status (cluster_node i j k) = Follower" "em_term (cluster_node i j k) = 0"
  "voted_for (cluster_node i j k) = None" "send_fn (cluster_node i j k)"
  "\<not> registry_control (cluster_node i j k)"
  "j \<noteq> k \<Longrightarrow> em_known_nodes (cluster_node i j k) =
     [\<lparr>kn_id = j, kn_name = [], kn_addr = []\<rparr>, \<lparr>kn_id = k, kn_name = [], kn_addr = []\<rparr>]"
  by (auto simp: cluster_node_def set_send_fn_def add_known_node_def election_manager_new_def)

lemma reach_start:
  "net_reachable sha strict N n \<Longrightarrow> i \<in> N \<Longrightarrow> em_term (mgr n i) < - 1 \<Longrightarrow> net_reachable sha strict N (do_start i n)"
  unfolding do_start_def Let_def
  by (cases "start_election (mgr n i)") (auto intro: reach_step net_start)

lemma reach_deliver:
  "net_reachable sha strict N n \<Longrightarrow> i \<in> N \<Longrightarrow> m \<in> sent n \<Longrightarrow> (strict \<Longrightarrow> fresh_for m (mgr n i)) \<Longrightarrow>
     net_reachable sha strict N (do_deliver sha m i n)"
  unfolding do_deliver_def Let_def
  by (cases "dispatch sha [] 0 m (mgr n i)") (auto intro: reach_step net_deliver)

definition req_of :: "NodeID \<Rightarrow> ElectionMsg" where
  "req_of i = ElectionRequest \<lparr>req_candidate_id = i, req_candidate_name = [], req_term = 1\<rparr>"

definition vote_of :: "NodeID \<Rightarrow> NodeID \<Rightarrow> ElectionMsg" where
  "vote_of v i = ElectionVote \<lparr>vote_voter_id = v, vote_candidate_id = i, vote_term = 1, vote_granted = True\<rparr>"

definition result_of :: "NodeID \<Rightarrow> ElectionMsg" where
  "result_of i = ElectionResult \<lparr>res_leader_id = i, res_leader_name = [], res_term = 1\<rparr>"

definition first_win :: "(bytes \<Rightarrow> bytes) \<Rightarrow> NodeID \<Rightarrow> NodeID \<Rightarrow> NodeID \<Rightarrow> net" where
  "first_win sha a b c =
     do_deliver sha (vote_of b a) a (do_deliver sha (req_of a) b (do_start c (do_start a (cluster a b c))))"

definition second_win :: "(bytes \<Rightarrow> bytes) \<Rightarrow> NodeID \<Rightarrow> NodeID \<Rightarrow> NodeID \<Rightarrow> net" where
  "second_win sha a b c =
     do_deliver sha (vote_of b c) c (do_deliver sha (req_of c) b (do_deliver sha (result_of a) b (first_win sha a b c)))"

lemmas run_defs = do_start_def do_deliver_def start_election_def msgs_broadcast Let_def net_put_def
  become_follower_def reset_heartbeat_monitor_def become_leader_def get_local_addr_def msgs_append
  should_vote_for_def build_vote_message_def handler_defs

lemma distinct3: "distinct [a, b, c] \<Longrightarrow> a \<noteq> b \<and> b \<noteq> a \<and> a \<noteq> c \<and> c \<noteq> a \<and> b \<noteq> c \<and> c \<noteq> b"
  by auto

lemma u64_zero_less_max: "0 < (- 1 :: u64)"
  by (simp add: word_gt_0)

lemma first_win_eq:
  assumes "distinct [a, b, c]" "compute_candidate_hash sha a 1 > be_word (take 8 b)"
  shows "first_win sha a b c =
    \<lparr>mgr = (mgr (cluster a b c))
       (c := (cluster_node c a b)\<lparr>em_status := Candidate, em_term := 1, voted_for := Some c, votes_received := [c]\<rparr>,
        b := (cluster_node b a c)\<lparr>em_term := 1, em_status := Follower, votes_received := [],
                last_registry_heartbeat := 0, missed_heartbeats := 0, voted_for := Some a\<rparr>,
        a := (cluster_node a b c)\<lparr>em_term := 1, voted_for := Some a, votes_received := [a, b],
                em_status := Leader, registry_id := Some a, registry_name := Some [], registry_addr := None\<rparr>),
     sent = {req_of a, req_of c, vote_of b a, result_of a}\<rparr>"
  using distinct3 [OF assms(1)] assms(2)
  by (simp add: first_win_def req_of_def vote_of_def result_of_def run_defs cluster_def)

lemma first_win_reachable:
  assumes "distinct [a, b, c]" "compute_candidate_hash sha a 1 > be_word (take 8 b)"
  shows "net_reachable sha strict {a, b, c} (first_win sha a b c)"
proof -
  let ?N = "{a, b, c}"
  have "net_reachable sha strict ?N (cluster a b c)"
    by (rule reach_init) (use cluster_init assms in blast)
  then have "net_reachable sha strict ?N (do_start a (cluster a b c))"
    by (rule reach_start) (use distinct3 [OF assms(1)] assms(2) in \<open>simp_all add: cluster_def u64_zero_less_max\<close>)
  then have "net_reachable sha strict ?N (do_start c (do_start a (cluster a b c)))"
    by (rule reach_start) (use distinct3 [OF assms(1)] assms(2) in \<open>simp_all add: run_defs cluster_def u64_zero_less_max\<close>)
  then have "net_reachable sha strict ?N (do_deliver sha (req_of a) b (do_start c (do_start a (cluster a b c))))"
    by (rule reach_deliver) (use distinct3 [OF assms(1)] assms(2) in \<open>simp_all add: req_of_def fresh_for_def run_defs cluster_def\<close>)
  then show ?thesis
    unfolding first_win_def
    by (rule reach_deliver)
       (use distinct3 [OF assms(1)] assms(2) in \<open>simp_all add: req_of_def vote_of_def fresh_for_def run_defs cluster_def\<close>)
qed

lemma first_win_elected:
  assumes "distinct [a, b, c]" "compute_candidate_hash sha a 1 > be_word (take 8 b)"
  shows "elected (first_win sha a b c) a 1"
  unfolding first_win_eq [OF assms] elected_def by (auto simp: result_of_def)

lemma second_win_eq:
  assumes "distinct [a, b, c]" "compute_candidate_hash sha a 1 > be_word (take 8 b)"
    "compute_candidate_hash sha c 1 > be_word (take 8 b)"
  defines "n \<equiv> do_deliver sha (req_of c) b (do_deliver sha (result_of a) b (first_win sha a b c))"
  shows "sent n = {req_of a, req_of c, vote_of b a, result_of a, vote_of b c}
    \<and> mgr n a = mgr (first_win sha a b c) a \<and> mgr n c = mgr (first_win sha a b c) c"
proof -
  define n4 where "n4 = do_deliver sha (result_of a) b (first_win sha a b c)"
  have n4: "sent n4 = {req_of a, req_of c, vote_of b a, result_of a}"
    "mgr n4 a = mgr (first_win sha a b c) a" "mgr n4 c = mgr (first_win sha a b c) c"
    "em_term (mgr n4 b) = 1" "voted_for (mgr n4 b) = None" "em_local_id (mgr n4 b) = b"
    using distinct3 [OF assms(1)]
    by (simp_all add: n4_def first_win_eq [OF assms(1,2)] do_deliver_def result_of_def handle_election_result_def
        become_follower_def reset_heartbeat_monitor_def Let_def cluster_def)
  then show ?thesis
    using distinct3 [OF assms(1)] assms(3) unfolding n_def n4_def [symmetric]
    by (auto simp: do_deliver_def req_of_def vote_of_def handle_election_request_def should_vote_for_def
        build_vote_message_def Let_def)
qed

lemma second_win_reachable:
  assumes "distinct [a, b, c]" "compute_candidate_hash sha a 1 > be_word (take 8 b)"
    "compute_candidate_hash sha c 1 > be_word (take 8 b)"
  shows "net_reachable sha False {a, b, c} (second_win sha a b c)"
proof -
  let ?n4 = "do_deliver sha (result_of a) b (first_win sha a b c)"
  have 4: "net_reachable sha False {a, b, c} ?n4"
    by (rule reach_deliver [OF first_win_reachable [OF assms(1,2)]]) (simp_all add: first_win_eq [OF assms(1,2)])
  have "req_of c \<in> sent ?n4"
    by (simp add: do_deliver_def case_prod_unfold Let_def first_win_eq [OF assms(1,2)])
  then have 5: "net_reachable sha False {a, b, c} (do_deliver sha (req_of c) b ?n4)"
    by (intro reach_deliver [OF 4]) simp_all
  show ?thesis
    unfolding second_win_def using second_win_eq [OF assms] by (intro reach_deliver [OF 5]) simp_all
qed

lemma second_win_leaders:
  assumes "distinct [a, b, c]" "compute_candidate_hash sha a 1 > be_word (take 8 b)"
    "compute_candidate_hash sha c 1 > be_word (take 8 b)"
  shows "elected (second_win sha a b c) a 1 \<and> elected (second_win sha a b c) c 1
    \<and> em_status (mgr (second_win sha a b c) a) = Leader \<and> em_term (mgr (second_win sha a b c) a) = 1
    \<and> em_status (mgr (second_win sha a b c) c) = Leader \<and> em_term (mgr (second_win sha a b c) c) = 1"
proof -
  define n where "n = do_deliver sha (req_of c) b (do_deliver sha (result_of a) b (first_win sha a b c))"
  note n = second_win_eq [OF assms, folded n_def] and ne = distinct3 [OF assms(1)]
  have c: "mgr n c = (cluster_node c a b)\<lparr>em_status := Candidate, em_term := 1, voted_for := Some c, votes_received := [c]\<rparr>"
    and a: "em_status (mgr n a) = Leader" "em_term (mgr n a) = 1"
    using n ne by (simp_all add: first_win_eq [OF assms(1,2)])
  have w: "second_win sha a b c = do_deliver sha (vote_of b c) c n" by (simp add: second_win_def n_def)
  have "result_of c \<in> sent (second_win sha a b c)" "result_of a \<in> sent (second_win sha a b c)"
    "mgr (second_win sha a b c) a = mgr n a"
    "em_status (mgr (second_win sha a b c) c) = Leader" "em_term (mgr (second_win sha a b c) c) = 1"
    unfolding w using n [THEN conjunct1] ne c
    by (simp_all add: do_deliver_def vote_of_def handle_election_vote_def become_leader_def get_local_addr_def
        Let_def msgs_broadcast result_of_def)
  then show ?thesis using a by (auto simp: elected_def result_of_def)
qed

text \<open>
  C40. Without that restriction there can be two leaders in one term. In a cluster of three nodes
  \<open>a\<close> and \<open>c\<close> stand in term 1 and \<open>b\<close> votes for \<open>a\<close>; the announcement of \<open>a\<close>'s election makes
  \<open>b\<close> forget its vote, so that it votes for \<open>c\<close> in the same term as well: both are leaders
  of term 1.
\<close>

theorem two_leaders_same_term:
  assumes "distinct [a, b, c]" and "compute_candidate_hash sha a 1 > be_word (take 8 b)"
    and "compute_candidate_hash sha c 1 > be_word (take 8 b)"
  shows "\<exists>n. net_reachable sha False {a, b, c} n
    \<and> em_status (mgr n a) = Leader \<and> em_term (mgr n a) = 1
    \<and> em_status (mgr n c) = Leader \<and> em_term (mgr n c) = 1"
  using second_win_reachable [OF assms] second_win_leaders [OF assms] by blast

lemma hash_positive:
  "compute_candidate_hash (\<lambda>_. replicate 32 255) i t > be_word (take 8 (replicate 32 0))"
proof -
  have "be_word (take 8 (replicate 32 255)) > (be_word (take 8 (replicate 32 0)) :: u64)" by code_simp
  then show ?thesis by (simp only: compute_candidate_hash_def)
qed

lemma ids_distinct: "distinct [replicate 32 1, replicate 32 0, replicate 32 (2 :: u8)]"
  by simp

theorem two_leaders_same_term_witness:
  "\<exists>n. net_reachable (\<lambda>_. replicate 32 255) False {replicate 32 1, replicate 32 0, replicate 32 2} n
    \<and> em_status (mgr n (replicate 32 1)) = Leader \<and> em_term (mgr n (replicate 32 1)) = 1
    \<and> em_status (mgr n (replicate 32 2)) = Leader \<and> em_term (mgr n (replicate 32 2)) = 1"
  by (rule two_leaders_same_term [OF ids_distinct hash_positive hash_positive])

theorem two_leaders_share_a_voter_witness:
  "let n = second_win (\<lambda>_. replicate 32 255) (replicate 32 1) (replicate 32 0) (replicate 32 2)
   in \<exists>v \<in> {replicate 32 1, replicate 32 0, replicate 32 2}.
        supports n v (replicate 32 1) 1 \<and> supports n v (replicate 32 2) 1"
  using two_leaders_share_a_voter [OF second_win_reachable [OF ids_distinct hash_positive hash_positive],
      of "replicate 32 1" 1 "replicate 32 2"]
    second_win_leaders [OF ids_distinct hash_positive hash_positive]
  unfolding Let_def by blast

theorem election_safety_witness:
  "let n = first_win (\<lambda>_. replicate 32 255) (replicate 32 1) (replicate 32 0) (replicate 32 2)
   in elected n (replicate 32 1) 1 \<and> (\<forall>l. elected n l 1 \<longrightarrow> l = replicate 32 1)"
  using election_safety [OF first_win_reachable [OF ids_distinct hash_positive]]
    first_win_elected [OF ids_distinct hash_positive]
  unfolding Let_def by blast

end
