(* ===== verification/Chunking.thy ===== *)
theory Chunking
  imports Prelude
begin

text \<open>
  Chunking of files, \<^verbatim>\<open>crates/vpn/src/storage/chunk.rs\<close>: a file is cut into blocks of a fixed
  size, described by a manifest with the hash of every block and of the whole file, and put
  together again with its sizes and its hash checked. SHA-256 is a parameter.
\<close>

type_synonym Hash = bytes

definition DEFAULT_CHUNK_SIZE :: nat where "DEFAULT_CHUNK_SIZE = 4 * 1024 * 1024"

record ChunkMeta =
  cm_hash :: Hash
  cm_index :: u32
  cm_offset :: u64
  cm_size :: u64

record FileManifest =
  fm_file_hash :: Hash
  fm_file_size :: u64
  fm_chunks :: "ChunkMeta list"
  fm_chunk_size :: u64

record Chunker =
  chunk_size :: nat

definition chunker_new :: Chunker where
  "chunker_new = \<lparr>chunk_size = DEFAULT_CHUNK_SIZE\<rparr>"

definition chunker_with_chunk_size :: "nat \<Rightarrow> Chunker" where
  "chunker_with_chunk_size n = \<lparr>chunk_size = (if n = 0 then DEFAULT_CHUNK_SIZE else n)\<rparr>"

text \<open>The slice \<open>data[start..end]\<close>.\<close>

definition slice :: "nat \<Rightarrow> nat \<Rightarrow> 'a list \<Rightarrow> 'a list" where
  "slice s e xs = take (e - s) (drop s xs)"

definition num_chunks :: "nat \<Rightarrow> bytes \<Rightarrow> nat" where
  "num_chunks cs dat = (if dat = [] then 0 else (length dat + cs - 1) div cs)"

definition block :: "nat \<Rightarrow> bytes \<Rightarrow> nat \<Rightarrow> bytes" where
  "block cs dat i = (let start = i * cs; e = min (start + cs) (length dat) in slice start e dat)"

definition chunk_data :: "(bytes \<Rightarrow> Hash) \<Rightarrow> Chunker \<Rightarrow> bytes \<Rightarrow> FileManifest \<times> bytes list" where
  "chunk_data sha256 c dat =
     (let cs = chunk_size c; is = [0..<num_chunks cs dat]
      in (\<lparr>fm_file_hash = sha256 dat, fm_file_size = of_nat (length dat),
           fm_chunks = map (\<lambda>i. \<lparr>cm_hash = sha256 (block cs dat i), cm_index = of_nat i,
              cm_offset = of_nat (i * cs), cm_size = of_nat (length (block cs dat i))\<rparr>) is,
           fm_chunk_size = of_nat cs\<rparr>,
          map (block cs dat) is))"

text \<open>The size check of \<open>reassemble\<close>: the first block whose length differs from its entry.\<close>

fun size_mismatch :: "(ChunkMeta \<times> bytes) list \<Rightarrow> (ChunkMeta \<times> bytes) option" where
  "size_mismatch [] = None"
| "size_mismatch ((m, d) # ps) = (if (of_nat (length d) :: u64) \<noteq> cm_size m then Some (m, d) else size_mismatch ps)"

definition reassemble ::
  "(bytes \<Rightarrow> Hash) \<Rightarrow> FileManifest \<Rightarrow> bytes list \<Rightarrow> (string, bytes) result" where
  "reassemble sha256 m chunks =
     (if length chunks \<noteq> length (fm_chunks m) then
        Inl (''chunk count mismatch: expected '' @ show_nat (length (fm_chunks m)) @ '' chunks, got ''
             @ show_nat (length chunks))
      else
        case size_mismatch (zip (fm_chunks m) chunks) of
          Some (meta, d) \<Rightarrow>
            Inl (''chunk '' @ show_nat (unat (cm_index meta)) @ '' size mismatch: expected ''
                 @ show_nat (unat (cm_size meta)) @ '', got '' @ show_nat (length d))
        | None \<Rightarrow>
            let r = concat chunks
            in if sha256 r \<noteq> fm_file_hash m
               then Inl ''file hash mismatch: data integrity check failed'' else Inr r)"

definition verify_chunk :: "(bytes \<Rightarrow> Hash) \<Rightarrow> ChunkMeta \<Rightarrow> bytes \<Rightarrow> bool" where
  "verify_chunk sha256 m d = (sha256 d = cm_hash m)"

definition verify_file :: "(bytes \<Rightarrow> Hash) \<Rightarrow> FileManifest \<Rightarrow> bytes \<Rightarrow> bool" where
  "verify_file sha256 m d = (sha256 d = fm_file_hash m)"

section \<open>Round trip\<close>

lemma block_eq: "block cs dat i = take cs (drop (i * cs) dat)"
proof -
  have "min (i * cs + cs) (length dat) - i * cs = min cs (length dat - i * cs)" by auto
  then show ?thesis by (simp add: block_def slice_def Let_def min_def)
qed

lemma concat_blocks: "concat (map (block cs dat) [0..<n]) = take (n * cs) dat"
proof (induction n)
  case (Suc n)
  have "take (n * cs) dat @ take cs (drop (n * cs) dat) = take (n * cs + cs) dat" by (simp add: take_add)
  with Suc show ?case by (simp add: block_eq add.commute)
qed simp

lemma num_chunks_covers:
  assumes "0 < cs"
  shows "length dat \<le> num_chunks cs dat * cs"
proof (cases "dat = []")
  case False
  let ?q = "(length dat + cs - 1) div cs" and ?r = "(length dat + cs - 1) mod cs"
  have "?q * cs + ?r = length dat + cs - 1" by (rule div_mult_mod_eq)
  moreover have "?r < cs" using assms by simp
  ultimately have "length dat \<le> ?q * cs" by linarith
  then show ?thesis using False by (simp add: num_chunks_def)
qed simp

lemma concat_all_blocks: "0 < cs \<Longrightarrow> concat (map (block cs dat) [0..<num_chunks cs dat]) = dat"
  using num_chunks_covers by (simp add: concat_blocks)

lemma block_in_range:
  assumes "0 < cs" "i < num_chunks cs dat"
  shows "i * cs < length dat"
proof -
  have ne: "dat \<noteq> []" using assms by (auto simp: num_chunks_def)
  then have "i + 1 \<le> (length dat + cs - 1) div cs" using assms by (simp add: num_chunks_def)
  then have "(i + 1) * cs \<le> length dat + cs - 1"
    by (meson assms(1) div_times_less_eq_dividend dual_order.trans mult_le_mono1)
  with ne assms(1) show ?thesis by (cases dat) auto
qed

lemma size_mismatch_None:
  "length ms = length ds \<Longrightarrow>
     size_mismatch (zip ms ds) = None \<longleftrightarrow> list_all2 (\<lambda>m d. of_nat (length d) = cm_size m) ms ds"
  by (induction ms ds rule: list_induct2) auto

lemma reassemble_Inr:
  "reassemble sha m chunks = Inr r \<longleftrightarrow>
     length chunks = length (fm_chunks m)
     \<and> list_all2 (\<lambda>meta d. of_nat (length d) = cm_size meta) (fm_chunks m) chunks
     \<and> sha r = fm_file_hash m \<and> r = concat chunks"
proof (cases "length chunks = length (fm_chunks m)")
  case True
  note none = size_mismatch_None [of "fm_chunks m" chunks]
  show ?thesis
  proof (cases "size_mismatch (zip (fm_chunks m) chunks)")
    case None
    with True none show ?thesis by (auto simp: reassemble_def Let_def)
  next
    case (Some p)
    with True none show ?thesis by (cases p) (auto simp: reassemble_def)
  qed
qed (simp add: reassemble_def)

lemma reassemble_chunk_data:
  "0 < chunk_size c \<Longrightarrow> reassemble sha (fst (chunk_data sha c dat)) (snd (chunk_data sha c dat)) = Inr dat"
  unfolding reassemble_Inr using concat_all_blocks [of "chunk_size c" dat]
  by (simp add: chunk_data_def Let_def list_all2_conv_all_nth)

lemma chunk_data_simps:
  "fm_file_hash (fst (chunk_data sha c dat)) = sha dat"
  "fm_chunk_size (fst (chunk_data sha c dat)) = of_nat (chunk_size c)"
  "length (fm_chunks (fst (chunk_data sha c dat))) = num_chunks (chunk_size c) dat"
  "snd (chunk_data sha c dat) = map (block (chunk_size c) dat) [0..<num_chunks (chunk_size c) dat]"
  "i < num_chunks (chunk_size c) dat \<Longrightarrow>
     cm_hash (fm_chunks (fst (chunk_data sha c dat)) ! i) = sha (block (chunk_size c) dat i)"
  by (simp_all add: chunk_data_def Let_def)

text \<open>
  Cutting a file and putting the blocks together again succeeds and gives the file back, for
  every chunker that can be made; every block matches its entry, all blocks but the last are
  full, and a block's entry gives its position in the file.
\<close>

theorem chunk_reassemble_roundtrip:
  "let c = chunker_with_chunk_size n; (m, chunks) = chunk_data sha c dat
   in reassemble sha m chunks = Inr dat
    \<and> length (fm_chunks m) = length chunks
    \<and> (\<forall>i < length chunks.
         verify_chunk sha (fm_chunks m ! i) (chunks ! i)
         \<and> cm_offset (fm_chunks m ! i) = of_nat (i * chunk_size c)
         \<and> chunks ! i = take (chunk_size c) (drop (i * chunk_size c) dat)
         \<and> (Suc i < length chunks \<longrightarrow> length (chunks ! i) = chunk_size c))"
proof -
  let ?c = "chunker_with_chunk_size n"
  have cs: "0 < chunk_size ?c" by (simp add: chunker_with_chunk_size_def DEFAULT_CHUNK_SIZE_def)
  let ?m = "fst (chunk_data sha ?c dat)" and ?ch = "snd (chunk_data sha ?c dat)"
  let ?k = "num_chunks (chunk_size ?c) dat"
  have "reassemble sha ?m ?ch = Inr dat"
    by (rule reassemble_chunk_data [OF cs])
  moreover have "length (?ch ! i) = chunk_size ?c" if "Suc i < ?k" for i
    using block_in_range [OF cs that] that by (simp add: chunk_data_def Let_def block_eq)
  ultimately show ?thesis
    by (simp add: chunk_data_def Let_def verify_chunk_def block_eq)
qed

theorem chunk_reassemble_roundtrip_witness:
  "let (m, chunks) = chunk_data (\<lambda>b. b) (chunker_with_chunk_size 2) [1, 2, 3]
   in reassemble (\<lambda>b. b) m chunks = Inr [1, 2, 3] \<and> verify_chunk (\<lambda>b. b) (fm_chunks m ! 0) (chunks ! 0)"
proof -
  let ?cd = "chunk_data (\<lambda>b. b) (chunker_with_chunk_size 2) [1, 2, 3]"
  have "0 < length (snd ?cd)"
    by (simp add: chunk_data_def chunker_with_chunk_size_def num_chunks_def Let_def)
  with chunk_reassemble_roundtrip [where n = 2 and sha = "\<lambda>b. b" and dat = "[1, 2, 3]"]
  show ?thesis unfolding Let_def case_prod_unfold by blast
qed

end
