(* ===== verification/Sync.thy ===== *)
theory Sync
  imports Chunking HashMap
begin

text \<open>
  Incremental synchronisation: the block comparison of \<^verbatim>\<open>crates/vpn/src/storage/diff.rs\<close> and
  the upload and download built on it in \<^verbatim>\<open>crates/vpn/src/storage/incremental.rs\<close>. Files, the
  network and the clock enter as arguments: what the local file holds, what the remote node
  answers, and whether a message can be sent. What is sent is recorded in order.
\<close>

section \<open>Comparing blocks\<close>

definition MIN_DIFF_CHUNK_SIZE :: nat where "MIN_DIFF_CHUNK_SIZE = 4096"

datatype BlockDiffStatus = Unchanged | Modified | Added | Deleted

record BlockDiff =
  bd_index :: u32
  bd_offset :: u64
  bd_size :: u64
  bd_status :: BlockDiffStatus
  new_hash :: Hash
  old_hash :: Hash

record FileDiff =
  fd_file_name :: string
  old_size :: u64
  new_size :: u64
  changed_blocks :: "BlockDiff list"
  unchanged_count :: u32
  files_match :: bool

record DiffReport =
  rep_diff :: FileDiff
  blocks_to_transfer :: u32
  bytes_to_transfer :: u64
  estimated_secs :: u64

record BlockDiffEngine =
  engine_chunk_size :: nat

definition diff_engine_new :: "nat \<Rightarrow> BlockDiffEngine" where
  "diff_engine_new n = \<lparr>engine_chunk_size = max n MIN_DIFF_CHUNK_SIZE\<rparr>"

definition diff_engine_default :: BlockDiffEngine where
  "diff_engine_default = \<lparr>engine_chunk_size = DEFAULT_CHUNK_SIZE\<rparr>"

text \<open>The body of the loop: \<open>None\<close> counts an unchanged block.\<close>

definition diff_block ::
  "(bytes \<Rightarrow> Hash) \<Rightarrow> nat \<Rightarrow> ChunkMeta list \<Rightarrow> bytes \<Rightarrow> nat \<Rightarrow> BlockDiff option" where
  "diff_block sha256 cs remote_chunks dat i =
     (let local_num_chunks = num_chunks cs dat;
          local_slice = block cs dat i;
          r_chunk = remote_chunks ! i
      in if i < length remote_chunks then
           if i < local_num_chunks then
             if sha256 local_slice = cm_hash r_chunk then None
             else Some \<lparr>bd_index = of_nat i, bd_offset = cm_offset r_chunk,
                        bd_size = of_nat (length local_slice), bd_status = Modified,
                        new_hash = sha256 local_slice, old_hash = cm_hash r_chunk\<rparr>
           else Some \<lparr>bd_index = of_nat i, bd_offset = cm_offset r_chunk, bd_size = 0,
                      bd_status = Deleted, new_hash = replicate 32 0, old_hash = cm_hash r_chunk\<rparr>
         else Some \<lparr>bd_index = of_nat i, bd_offset = of_nat (i * cs),
                    bd_size = of_nat (length local_slice), bd_status = Added,
                    new_hash = sha256 local_slice, old_hash = replicate 32 0\<rparr>)"

definition diff_files ::
  "(bytes \<Rightarrow> Hash) \<Rightarrow> BlockDiffEngine \<Rightarrow> FileManifest \<Rightarrow> bytes \<Rightarrow> (string, FileDiff) result" where
  "diff_files sha256 e m dat =
     (let cs = engine_chunk_size e
      in if unat (fm_chunk_size m) \<noteq> cs then
           Inl (''chunk size mismatch: manifest has '' @ show_nat (unat (fm_chunk_size m))
                @ '' bytes, engine has '' @ show_nat cs @ '' bytes'')
         else if sha256 dat = fm_file_hash m then
           Inr \<lparr>fd_file_name = [], old_size = fm_file_size m, new_size = of_nat (length dat),
                changed_blocks = [], unchanged_count = of_nat (length (fm_chunks m)), files_match = True\<rparr>
         else
           let max_index = max (of_nat (length (fm_chunks m)) :: u32) (of_nat (num_chunks cs dat));
               rs = map (diff_block sha256 cs (fm_chunks m) dat) [0..<unat max_index]
           in Inr \<lparr>fd_file_name = [], old_size = fm_file_size m, new_size = of_nat (length dat),
                   changed_blocks = List.map_filter id rs,
                   unchanged_count = of_nat (length (filter (\<lambda>r. r = None) rs)), files_match = False\<rparr>)"

fun transferred :: "BlockDiff \<Rightarrow> bool" where
  "transferred b = (bd_status b = Added \<or> bd_status b = Modified)"

definition generate_report :: "FileDiff \<Rightarrow> string \<Rightarrow> DiffReport" where
  "generate_report d name =
     (let bs = filter transferred (changed_blocks d);
          bytes = sum_list (map bd_size bs);
          secs = (if bytes > 0 then if bytes div 1000000 < 1 then 1 else bytes div 1000000 else 0)
      in \<lparr>rep_diff = d\<lparr>fd_file_name := name\<rparr>, blocks_to_transfer = of_nat (length bs),
          bytes_to_transfer = bytes, estimated_secs = secs\<rparr>)"

section \<open>State and messages\<close>

record SyncStateEntry =
  sse_file_name :: string
  last_synced_hash :: Hash
  last_synced_at :: u64
  last_size :: u64

record SyncStateStore =
  sync_entries :: "(string, SyncStateEntry) hmap"

definition sync_store_new :: SyncStateStore where
  "sync_store_new = \<lparr>sync_entries = []\<rparr>"

definition sync_store_get :: "string \<Rightarrow> SyncStateStore \<Rightarrow> SyncStateEntry option" where
  "sync_store_get f st = hm_get (sync_entries st) f"

definition sync_store_upsert :: "u64 \<Rightarrow> string \<Rightarrow> Hash \<Rightarrow> u64 \<Rightarrow> SyncStateStore \<Rightarrow> SyncStateStore" where
  "sync_store_upsert now f h sz st =
     st\<lparr>sync_entries := hm_insert f \<lparr>sse_file_name = f, last_synced_hash = h,
          last_synced_at = now, last_size = sz\<rparr> (sync_entries st)\<rparr>"

definition sync_store_remove :: "string \<Rightarrow> SyncStateStore \<Rightarrow> SyncStateStore" where
  "sync_store_remove f st = st\<lparr>sync_entries := hm_remove f (sync_entries st)\<rparr>"

record SyncResult =
  total_blocks :: u32
  transferred_blocks :: u32
  bytes_transferred :: u64
  already_in_sync :: bool
  elapsed_secs :: u64

record IncrementalSync =
  sync_chunker :: Chunker
  diff_engine :: BlockDiffEngine
  sync_state :: SyncStateStore

definition incremental_new :: IncrementalSync where
  "incremental_new = \<lparr>sync_chunker = chunker_new, diff_engine = diff_engine_default, sync_state = sync_store_new\<rparr>"

definition incremental_with_chunk_size :: "nat \<Rightarrow> IncrementalSync" where
  "incremental_with_chunk_size n =
     (let cs = max n 4096
      in \<lparr>sync_chunker = chunker_with_chunk_size cs, diff_engine = diff_engine_new cs,
          sync_state = sync_store_new\<rparr>)"

datatype SyncMsg =
    IncrBlock string string u32 bytes
  | IncrManifest string string FileManifest

text \<open>The answer of the remote node to a manifest request: none means it has no such file.\<close>

definition request_remote_manifest ::
  "IncrementalSync \<Rightarrow> (string, FileManifest option) result \<Rightarrow> (string, FileManifest) result" where
  "request_remote_manifest s answer =
     (case answer of
        Inl e \<Rightarrow> Inl e
      | Inr (Some m) \<Rightarrow> Inr m
      | Inr None \<Rightarrow>
          Inr \<lparr>fm_file_hash = replicate 32 0, fm_file_size = 0, fm_chunks = [],
               fm_chunk_size = of_nat (chunk_size (sync_chunker s))\<rparr>)"

section \<open>Upload\<close>

text \<open>The sending loop: the messages sent, and the counters or the first error.\<close>

fun send_blocks ::
  "(SyncMsg \<Rightarrow> (string, unit) result) \<Rightarrow> string \<Rightarrow> string \<Rightarrow> bytes list \<Rightarrow> BlockDiff list
     \<Rightarrow> SyncMsg list \<times> (string, u32 \<times> u64) result" where
  "send_blocks send tgt f chunks [] = ([], Inr (0, 0))"
| "send_blocks send tgt f chunks (b # bs) =
     (if transferred b then
        let d = chunks ! unat (bd_index b); m = IncrBlock tgt f (bd_index b) d
        in (case send m of
              Inl e \<Rightarrow> ([], Inl (''failed to send block '' @ show_nat (unat (bd_index b)) @ '': '' @ e))
            | Inr _ \<Rightarrow>
                let (ms, r) = send_blocks send tgt f chunks bs
                in (m # ms, and_then r (\<lambda>(n, k). Inr (1 + n, of_nat (length d) + k))))
      else send_blocks send tgt f chunks bs)"

text \<open>
  \<open>sync_file\<close> with the file name and the contents of the local file, or the error of reading it;
  \<open>t0\<close> and \<open>t1\<close> are the clock at the start and at the end.
\<close>

definition sync_file ::
  "(bytes \<Rightarrow> Hash) \<Rightarrow> (SyncMsg \<Rightarrow> (string, unit) result) \<Rightarrow> (string, FileManifest option) result
     \<Rightarrow> u64 \<Rightarrow> u64 \<Rightarrow> string \<Rightarrow> (string, bytes) result \<Rightarrow> string \<Rightarrow> IncrementalSync
     \<Rightarrow> IncrementalSync \<times> SyncMsg list \<times> (string, SyncResult) result" where
  "sync_file sha256 send answer t0 t1 f file tgt s =
     (case file of
        Inl e \<Rightarrow> (s, [], Inl e)
      | Inr dat \<Rightarrow>
          let (m, chunks) = chunk_data sha256 (sync_chunker s) dat;
              synced = (case sync_store_get f (sync_state s) of
                          None \<Rightarrow> False | Some e \<Rightarrow> last_synced_hash e = fm_file_hash m)
          in if synced then
               (s, [], Inr \<lparr>total_blocks = of_nat (length (fm_chunks m)), transferred_blocks = 0,
                  bytes_transferred = 0, already_in_sync = True, elapsed_secs = saturating_sub t1 t0\<rparr>)
             else
               (case request_remote_manifest s answer of
                  Inl e \<Rightarrow> (s, [], Inl e)
                | Inr remote \<Rightarrow>
                    (case diff_files sha256 (diff_engine s) remote dat of
                       Inl e \<Rightarrow> (s, [], Inl (''diff computation failed: '' @ e))
                     | Inr d \<Rightarrow>
                         let (ms, r) = send_blocks send tgt f chunks (changed_blocks d)
                         in (case r of
                               Inl e \<Rightarrow> (s, ms, Inl e)
                             | Inr (n, k) \<Rightarrow>
                                 (case send (IncrManifest tgt f m) of
                                    Inl e \<Rightarrow> (s, ms, Inl (''failed to send manifest: '' @ e))
                                  | Inr _ \<Rightarrow>
                                      (s\<lparr>sync_state := sync_store_upsert t1 f (fm_file_hash m) (fm_file_size m) (sync_state s)\<rparr>,
                                       ms @ [IncrManifest tgt f m],
                                       Inr \<lparr>total_blocks = of_nat (length (fm_chunks m)),
                                            transferred_blocks = n, bytes_transferred = k,
                                            already_in_sync = False,
                                            elapsed_secs = saturating_sub t1 t0\<rparr>))))))"

definition needs_sync ::
  "(bytes \<Rightarrow> Hash) \<Rightarrow> string \<Rightarrow> (string, bytes) result \<Rightarrow> IncrementalSync \<Rightarrow> (string, bool) result" where
  "needs_sync sha256 f file s =
     and_then file (\<lambda>dat. Inr (case sync_store_get f (sync_state s) of
        None \<Rightarrow> True | Some e \<Rightarrow> last_synced_hash e \<noteq> sha256 dat))"

definition set_sync_state :: "SyncStateStore \<Rightarrow> IncrementalSync \<Rightarrow> IncrementalSync" where
  "set_sync_state st s = s\<lparr>sync_state := st\<rparr>"

section \<open>Download\<close>

text \<open>The local blocks that match the remote hash at the same index.\<close>

definition have_blocks ::
  "(bytes \<Rightarrow> Hash) \<Rightarrow> FileManifest \<Rightarrow> bytes list \<Rightarrow> (u32, bytes) hmap" where
  "have_blocks sha256 m chunks =
     foldl (\<lambda>have i. if i < length (fm_chunks m) \<and> cm_hash (fm_chunks m ! i) = sha256 (chunks ! i)
                     then hm_insert (of_nat i) (chunks ! i) have else have)
       [] [0..<length chunks]"

fun fetch_blocks ::
  "(u32 \<Rightarrow> (string, bytes) result) \<Rightarrow> u32 list \<Rightarrow> (u32, bytes) hmap
     \<Rightarrow> (string, (u32, bytes) hmap \<times> u64) result" where
  "fetch_blocks request [] blocks = Inr (blocks, 0)"
| "fetch_blocks request (i # is) blocks =
     and_then (request i)
       (\<lambda>d. and_then (fetch_blocks request is (hm_insert i d blocks))
          (\<lambda>(blocks', k). Inr (blocks', of_nat (length d) + k)))"

text \<open>The collecting loop; the tail of the error's text is left out.\<close>

fun collect_blocks :: "u32 list \<Rightarrow> (u32, bytes) hmap \<Rightarrow> (string, bytes list) result" where
  "collect_blocks [] blocks = Inr []"
| "collect_blocks (i # is) blocks =
     (case hm_get blocks i of
        None \<Rightarrow> Inl (''missing block '' @ show_nat (unat i) @ '' after download'')
      | Some d \<Rightarrow> and_then (collect_blocks is (hm_remove i blocks)) (\<lambda>ds. Inr (d # ds)))"

text \<open>
  \<open>download_file\<close>: \<open>file\<close> is the local file before, when there is one (or the error of reading
  it), \<open>write\<close> whether the new contents can be written. The first component of the result is
  the contents written.
\<close>

definition download_file ::
  "(bytes \<Rightarrow> Hash) \<Rightarrow> (string, FileManifest option) result \<Rightarrow> (u32 \<Rightarrow> (string, bytes) result)
     \<Rightarrow> (bytes \<Rightarrow> (string, unit) result) \<Rightarrow> u64 \<Rightarrow> u64 \<Rightarrow> string \<Rightarrow> (string, bytes) result option
     \<Rightarrow> IncrementalSync \<Rightarrow> bytes option \<times> IncrementalSync \<times> (string, SyncResult) result" where
  "download_file sha256 answer request write t0 t1 f file s =
     (case request_remote_manifest s answer of
        Inl e \<Rightarrow> (None, s, Inl e)
      | Inr m \<Rightarrow>
          let n = (of_nat (length (fm_chunks m)) :: u32);
              all = map of_nat [0..<unat n];
              blocks = (case file of
                 None \<Rightarrow> Inr []
               | Some (Inl e) \<Rightarrow> Inl e
               | Some (Inr dat) \<Rightarrow>
                   (case diff_files sha256 (diff_engine s) m dat of
                      Inl e \<Rightarrow> Inl (''diff computation failed: '' @ e)
                    | Inr _ \<Rightarrow> Inr (have_blocks sha256 m (snd (chunk_data sha256 (sync_chunker s) dat)))))
          in (case blocks of
                Inl e \<Rightarrow> (None, s, Inl e)
              | Inr have \<Rightarrow>
                  let need = filter (\<lambda>i. hm_get have i = None) all
                  in (case and_then (fetch_blocks request need have)
                             (\<lambda>(bs, k). and_then (collect_blocks all bs) (\<lambda>ds. Inr (ds, k))) of
                        Inl e \<Rightarrow> (None, s, Inl e)
                      | Inr (ds, k) \<Rightarrow>
                          (case reassemble sha256 m ds of
                             Inl e \<Rightarrow> (None, s, Inl (''reassembly failed: '' @ e))
                           | Inr restored \<Rightarrow>
                               (case write restored of
                                  Inl e \<Rightarrow> (None, s, Inl e)
                                | Inr _ \<Rightarrow>
                                    (Some restored,
                                     s\<lparr>sync_state := sync_store_upsert t1 f (fm_file_hash m) (fm_file_size m) (sync_state s)\<rparr>,
                                     Inr \<lparr>total_blocks = n, transferred_blocks = of_nat (length need),
                                          bytes_transferred = k, already_in_sync = (need = []),
                                          elapsed_secs = saturating_sub t1 t0\<rparr>))))))"

section \<open>Uploads send what is missing\<close>

text \<open>The chunker and the comparison of an \<open>IncrementalSync\<close> use one block size.\<close>

definition sync_ok :: "IncrementalSync \<Rightarrow> bool" where
  "sync_ok s \<longleftrightarrow> 0 < chunk_size (sync_chunker s) \<and> chunk_size (sync_chunker s) < 2 ^ 64
     \<and> engine_chunk_size (diff_engine s) = chunk_size (sync_chunker s)"

lemma sync_ok_new: "sync_ok incremental_new" "n < 2 ^ 64 \<Longrightarrow> sync_ok (incremental_with_chunk_size n)"
  by (auto simp: sync_ok_def incremental_new_def incremental_with_chunk_size_def chunker_new_def
      diff_engine_default_def diff_engine_new_def chunker_with_chunk_size_def DEFAULT_CHUNK_SIZE_def
      MIN_DIFF_CHUNK_SIZE_def Let_def max_def)

text \<open>The blocks a receiver finds among the messages, by index.\<close>

definition received :: "SyncMsg list \<Rightarrow> (u32, bytes) hmap" where
  "received ms = List.map_filter (\<lambda>m. case m of IncrBlock _ _ i d \<Rightarrow> Some (i, d) | _ \<Rightarrow> None) ms"

lemma send_blocks_Inr:
  "send_blocks send tgt f chunks bs = (ms, Inr r) \<Longrightarrow>
     ms = map (\<lambda>b. IncrBlock tgt f (bd_index b) (chunks ! unat (bd_index b))) (filter transferred bs)"
  by (induction bs arbitrary: ms r)
     (auto simp: Let_def and_then_eq_Inr split: if_splits sum.splits prod.splits)

lemma map_of_functional:
  "map_of (map (\<lambda>b. (k b, g (k b))) bs) x = (if x \<in> k ` set bs then Some (g x) else None)"
  by (induction bs) auto

lemma received_blocks:
  "received (map (\<lambda>b. IncrBlock tgt f (bd_index b) (chunks ! unat (bd_index b))) bs)
     = map (\<lambda>b. (bd_index b, chunks ! unat (bd_index b))) bs"
  by (induction bs) (simp_all add: received_def List.map_filter_def)

lemma received_append: "received (xs @ ys) = received xs @ received ys"
  by (simp add: received_def List.map_filter_def)

lemma diff_block_index: "diff_block sha cs rc dat i = Some b \<Longrightarrow> bd_index b = of_nat i"
  by (auto simp: diff_block_def Let_def split: if_splits)

lemma diff_block_local:
  assumes "i < num_chunks cs dat"
  shows "(diff_block sha cs rc dat i = None \<longleftrightarrow> i < length rc \<and> sha (block cs dat i) = cm_hash (rc ! i))
    \<and> (\<forall>b. diff_block sha cs rc dat i = Some b \<longrightarrow> transferred b)"
  using assms by (auto simp: diff_block_def Let_def split: if_splits)

lemma set_map_filter_id: "set (List.map_filter id xs) = {b. Some b \<in> set xs}"
  by (force simp: List.map_filter_def)

text \<open>Which blocks a comparison of files of fewer than \<open>2^32\<close> blocks marks for transfer.\<close>

lemma transferred_index:
  fixes sha :: "bytes \<Rightarrow> Hash"
  assumes "length rc < 2 ^ 32" "num_chunks cs dat < 2 ^ 32" "i < num_chunks cs dat"
  defines "bs \<equiv> List.map_filter id (map (diff_block sha cs rc dat)
     [0..<unat (max (of_nat (length rc) :: u32) (of_nat (num_chunks cs dat)))])"
  shows "of_nat i \<in> bd_index ` set (filter transferred bs) \<longleftrightarrow>
    \<not> (i < length rc \<and> sha (block cs dat i) = cm_hash (rc ! i))"
proof -
  let ?N = "unat (max (of_nat (length rc) :: u32) (of_nat (num_chunks cs dat)))"
  have N: "?N = max (length rc) (num_chunks cs dat)"
    using assms(1,2) by (simp add: max_def word_le_nat_alt unat_of_nat_small)
  have bs: "set bs = {b. \<exists>j < ?N. diff_block sha cs rc dat j = Some b}"
    unfolding bs_def set_map_filter_id set_map set_upt by (auto simp: image_def Bex_def)
  have "j = i" if "j < ?N" "(of_nat j :: u32) = of_nat i" for j
    using that of_nat_u32_inject [of j i] N assms(1-3) by auto
  moreover have "i < ?N" using N assms(3) by auto
  ultimately show ?thesis
    using diff_block_local [OF assms(3), of sha rc] diff_block_index [of sha cs rc dat]
    unfolding bs image_def set_filter by (auto 4 4)
qed

lemma sync_file_sent:
  assumes "sync_file sha send (Inr (Some m)) t0 t1 f (Inr dat) tgt s = (s', ms, Inr r)"
    and "\<not> already_in_sync r"
  obtains d where "diff_files sha (diff_engine s) m dat = Inr d"
    and "ms = map (\<lambda>b. IncrBlock tgt f (bd_index b)
                  (snd (chunk_data sha (sync_chunker s) dat) ! unat (bd_index b))) (filter transferred (changed_blocks d))
              @ [IncrManifest tgt f (fst (chunk_data sha (sync_chunker s) dat))]"
    and "s' = s\<lparr>sync_state := sync_store_upsert t1 f (sha dat)
           (fm_file_size (fst (chunk_data sha (sync_chunker s) dat))) (sync_state s)\<rparr>"
proof -
  let ?m = "fst (chunk_data sha (sync_chunker s) dat)" and ?c = "snd (chunk_data sha (sync_chunker s) dat)"
  let ?synced = "case sync_store_get f (sync_state s) of None \<Rightarrow> False | Some e \<Rightarrow> last_synced_hash e = fm_file_hash ?m"
  have run: "sync_file sha send (Inr (Some m)) t0 t1 f (Inr dat) tgt s = (s', ms, Inr r)"
    "\<not> already_in_sync r" by fact+
  have not_synced: "\<not> ?synced"
    using run by (auto simp: sync_file_def Let_def case_prod_unfold)
  obtain d where d: "diff_files sha (diff_engine s) m dat = Inr d"
    using run(1) not_synced
    by (cases "diff_files sha (diff_engine s) m dat")
       (simp_all add: sync_file_def request_remote_manifest_def Let_def case_prod_unfold)
  obtain ms0 r0 where sb: "send_blocks send tgt f ?c (changed_blocks d) = (ms0, r0)" by force
  obtain n k where r0: "r0 = Inr (n, k)"
    using run(1) not_synced d sb
    by (cases r0) (auto simp: sync_file_def request_remote_manifest_def Let_def case_prod_unfold)
  obtain u where u: "send (IncrManifest tgt f ?m) = Inr u"
    using run(1) not_synced d sb r0
    by (cases "send (IncrManifest tgt f ?m)")
       (simp_all add: sync_file_def request_remote_manifest_def Let_def case_prod_unfold)
  show thesis
  proof (rule that [OF d])
    show "ms = map (\<lambda>b. IncrBlock tgt f (bd_index b) (?c ! unat (bd_index b))) (filter transferred (changed_blocks d))
              @ [IncrManifest tgt f ?m]"
      and "s' = s\<lparr>sync_state := sync_store_upsert t1 f (sha dat) (fm_file_size ?m) (sync_state s)\<rparr>"
      using run(1) not_synced d sb r0 u send_blocks_Inr [of send tgt f ?c "changed_blocks d" ms0 "(n, k)"]
      by (simp_all add: sync_file_def request_remote_manifest_def Let_def case_prod_unfold chunk_data_simps(1))
  qed
qed

lemma diff_files_changed:
  assumes "diff_files sha e m dat = Inr d" and "sha dat \<noteq> fm_file_hash m"
  shows "changed_blocks d = List.map_filter id (map (diff_block sha (engine_chunk_size e) (fm_chunks m) dat)
    [0..<unat (max (of_nat (length (fm_chunks m)) :: u32) (of_nat (num_chunks (engine_chunk_size e) dat)))])"
  using assms by (auto simp: diff_files_def Let_def split: if_splits)


text \<open>
  The record of what was synchronised is kept per file name, not per target: after a successful
  upload to one node, an upload of the same contents to any other node sends nothing and
  reports that the file is already there, whatever that node has.
\<close>

theorem sync_skips_other_targets:
  assumes "sync_file sha send (Inr (Some m)) t0 t1 f (Inr dat) tgt s = (s', ms, Inr r)"
    and "\<not> already_in_sync r"
  shows "\<exists>r'. sync_file sha send' answer t2 t3 f (Inr dat) other s' = (s', [], Inr r')
    \<and> already_in_sync r' \<and> transferred_blocks r' = 0"
proof -
  obtain d where "s' = s\<lparr>sync_state := sync_store_upsert t1 f (sha dat)
      (fm_file_size (fst (chunk_data sha (sync_chunker s) dat))) (sync_state s)\<rparr>"
    by (rule sync_file_sent [OF assms])
  then show ?thesis
    by (simp add: sync_file_def Let_def case_prod_unfold chunk_data_simps(1) sync_store_get_def sync_store_upsert_def)
qed

section \<open>Downloads rebuild the remote file\<close>

lemma have_blocks_get:
  assumes "length chunks \<le> 2 ^ 32" "i < 2 ^ 32"
  shows "hm_get (have_blocks sha m chunks) (of_nat i) =
    (if i < length chunks \<and> i < length (fm_chunks m) \<and> cm_hash (fm_chunks m ! i) = sha (chunks ! i)
     then Some (chunks ! i) else None)"
proof -
  let ?step = "\<lambda>have j. if j < length (fm_chunks m) \<and> cm_hash (fm_chunks m ! j) = sha (chunks ! j)
                     then hm_insert (of_nat j :: u32) (chunks ! j) have else have"
  have "n \<le> length chunks \<Longrightarrow> hm_get (foldl ?step [] [0..<n]) (of_nat i) =
      (if i < n \<and> i < length (fm_chunks m) \<and> cm_hash (fm_chunks m ! i) = sha (chunks ! i)
       then Some (chunks ! i) else None)" for n
  proof (induction n)
    case (Suc n)
    have "(of_nat i :: u32) = of_nat n \<longleftrightarrow> i = n"
      using of_nat_u32_inject [of i n] Suc.prems assms by simp
    with Suc show ?case by (auto simp: less_Suc_eq)
  qed simp
  from this [of "length chunks"] show ?thesis by (simp add: have_blocks_def)
qed

lemma fetch_blocks_ok:
  "\<forall>i \<in> set is. request i = Inr (g i) \<Longrightarrow>
     \<exists>blocks' k. fetch_blocks request is blocks = Inr (blocks', k)
       \<and> (\<forall>i. hm_get blocks' i = (if i \<in> set is then Some (g i) else hm_get blocks i))"
proof (induction "is" arbitrary: blocks)
  case (Cons i "is")
  from Cons.IH [of "hm_insert i (g i) blocks"] Cons.prems obtain blocks' k
    where "fetch_blocks request is (hm_insert i (g i) blocks) = Inr (blocks', k)"
      "\<forall>j. hm_get blocks' j = (if j \<in> set is then Some (g j) else hm_get (hm_insert i (g i) blocks) j)"
    by auto
  with Cons.prems show ?case by auto
qed simp

lemma collect_blocks_ok:
  "distinct is \<Longrightarrow> \<forall>i \<in> set is. hm_get blocks i = Some (g i) \<Longrightarrow> collect_blocks is blocks = Inr (map g is)"
proof (induction "is" arbitrary: blocks)
  case (Cons i "is")
  then have "collect_blocks is (hm_remove i blocks) = Inr (map g is)" by (intro Cons.IH) auto
  with Cons.prems show ?case by simp
qed simp

lemma u32_indices:
  assumes "n < 2 ^ 32"
  shows "unat (of_nat n :: u32) = n" "distinct (map (of_nat :: nat \<Rightarrow> u32) [0..<n])"
    "map unat (map (of_nat :: nat \<Rightarrow> u32) [0..<n]) = [0..<n]"
proof -
  have small: "unat (of_nat i :: u32) = i" if "i < n" for i
    using that assms by (intro unat_of_nat_small) simp
  show "unat (of_nat n :: u32) = n" using assms by (intro unat_of_nat_small) simp
  show "distinct (map (of_nat :: nat \<Rightarrow> u32) [0..<n])"
    using assms by (auto simp: distinct_map inj_on_def of_nat_u32_inject)
  show "map unat (map (of_nat :: nat \<Rightarrow> u32) [0..<n]) = [0..<n]"
    by (rule nth_equalityI) (simp_all add: small)
qed

lemma diff_files_total:
  "unat (fm_chunk_size m) = engine_chunk_size e \<Longrightarrow> \<exists>d. diff_files sha e m dat = Inr d"
  by (simp add: diff_files_def Let_def)

text \<open>
  A download from a node that serves the file \<open>dat\<close>, cut with the same block size, succeeds and
  writes exactly \<open>dat\<close>, whatever the local file held before (or if there was none), provided
  that different blocks at one position have different hashes.
\<close>

theorem download_writes_remote_file:
  assumes "sync_ok s" and "file = None \<or> file = Some (Inr local)"
    and "num_chunks (chunk_size (sync_chunker s)) dat < 2 ^ 32"
    and "num_chunks (chunk_size (sync_chunker s)) local < 2 ^ 32"
    and "\<forall>i < num_chunks (chunk_size (sync_chunker s)) dat.
       request (of_nat i) = Inr (block (chunk_size (sync_chunker s)) dat i)"
    and "write dat = Inr ()"
    and "\<forall>i. sha (block (chunk_size (sync_chunker s)) dat i) = sha (block (chunk_size (sync_chunker s)) local i) \<longrightarrow>
       block (chunk_size (sync_chunker s)) dat i = block (chunk_size (sync_chunker s)) local i"
  shows "\<exists>s' r. download_file sha (Inr (Some (fst (chunk_data sha (sync_chunker s) dat)))) request write t0 t1 f file s
    = (Some dat, s', Inr r)"
proof -
  let ?c = "sync_chunker s" and ?cs = "chunk_size (sync_chunker s)"
  let ?m = "fst (chunk_data sha ?c dat)" and ?n = "num_chunks ?cs dat"
  let ?all = "map (of_nat :: nat \<Rightarrow> u32) [0..<?n]" and ?g = "\<lambda>i :: u32. block ?cs dat (unat i)"
  let ?lc = "snd (chunk_data sha ?c local)"
  have cs: "engine_chunk_size (diff_engine s) = ?cs" "0 < ?cs" "?cs < 2 ^ 64" using assms(1) by (auto simp: sync_ok_def)
  have small: "unat (of_nat i :: u32) = i" if "i < ?n" for i
    using that assms(3) by (intro unat_of_nat_small) simp
  have len: "length (fm_chunks ?m) = ?n" by (simp add: chunk_data_simps)
  have req: "\<forall>i \<in> set (filter P ?all). request i = Inr (?g i)" for P
    using assms(5) small by auto
  define have0 where "have0 = (case file of None \<Rightarrow> [] | Some _ \<Rightarrow> have_blocks sha ?m ?lc)"
  have "unat (of_nat ?cs :: u64) = ?cs" using cs(3) by (intro unat_of_nat_small) simp
  then obtain d where d: "diff_files sha (diff_engine s) ?m local = Inr d"
    using diff_files_total [of ?m "diff_engine s" sha local] by (auto simp: chunk_data_simps cs(1))
  have old: "hm_get have0 i = None \<or> hm_get have0 i = Some (?g i)" if "i \<in> set ?all" for i
  proof -
    obtain j where j: "i = of_nat j" "j < ?n" using \<open>i \<in> set ?all\<close> by auto
    have "length ?lc \<le> 2 ^ 32" "j < 2 ^ 32" using assms(3,4) j by (simp_all add: chunk_data_simps)
    from have_blocks_get [OF this, of sha ?m] show ?thesis
      using assms(2) assms(7) [rule_format, of j] j small [of j] by (auto simp: have0_def chunk_data_simps)
  qed
  define need where "need = filter (\<lambda>i. hm_get have0 i = None) ?all"
  obtain blocks' k where f: "fetch_blocks request need have0 = Inr (blocks', k)"
    and get: "\<And>i. hm_get blocks' i = (if i \<in> set need then Some (?g i) else hm_get have0 i)"
    using fetch_blocks_ok [of need request ?g have0] req by (auto simp: need_def)
  have "\<forall>i \<in> set ?all. hm_get blocks' i = Some (?g i)"
  proof
    fix i assume i: "i \<in> set ?all"
    show "hm_get blocks' i = Some (?g i)"
      using get [of i] old [OF i] i by (cases "hm_get have0 i") (simp_all add: need_def)
  qed
  then have "collect_blocks ?all blocks' = Inr (map ?g ?all)"
    by (rule collect_blocks_ok [OF u32_indices(2) [OF assms(3)]])
  moreover have "map ?g ?all = snd (chunk_data sha ?c dat)"
    using small by (simp add: chunk_data_simps)
  ultimately have col: "collect_blocks ?all blocks' = Inr (snd (chunk_data sha ?c dat))" by simp
  have "(case file of None \<Rightarrow> Inr [] | Some (Inl e) \<Rightarrow> Inl e
      | Some (Inr l) \<Rightarrow> (case diff_files sha (diff_engine s) ?m l of
            Inl e \<Rightarrow> Inl (''diff computation failed: '' @ e)
          | Inr _ \<Rightarrow> Inr (have_blocks sha ?m (snd (chunk_data sha ?c l))))) = Inr have0"
    using assms(2) d by (auto simp: have0_def)
  then show ?thesis
    using f col reassemble_chunk_data [OF cs(2), of sha dat] assms(6) small u32_indices(1) [OF assms(3)]
    by (simp add: download_file_def request_remote_manifest_def Let_def len need_def [symmetric])
qed

section \<open>Witnesses\<close>

lemma demo_simps:
  "sync_chunker (incremental_with_chunk_size 4096) = \<lparr>chunk_size = 4096\<rparr>"
  "diff_engine (incremental_with_chunk_size 4096) = \<lparr>engine_chunk_size = 4096\<rparr>"
  "sync_state (incremental_with_chunk_size 4096) = sync_store_new"
  by (simp_all add: incremental_with_chunk_size_def chunker_with_chunk_size_def diff_engine_new_def
      MIN_DIFF_CHUNK_SIZE_def Let_def)

lemma demo_run:
  "\<exists>s' ms r. sync_file (\<lambda>b. b) (\<lambda>_. Inr ())
      (Inr (Some (fst (chunk_data (\<lambda>b. b) (sync_chunker (incremental_with_chunk_size 4096)) [3])))) 0 0 ''f''
      (Inr [1, 2]) ''a'' (incremental_with_chunk_size 4096) = (s', ms, Inr r) \<and> \<not> already_in_sync r"
  by (simp add: sync_file_def demo_simps sync_store_get_def sync_store_new_def request_remote_manifest_def
      diff_files_def diff_block_def chunk_data_def num_chunks_def block_eq Let_def
      List.map_filter_def case_prod_unfold)


theorem sync_skips_other_targets_witness:
  "\<exists>s' r'. sync_file (\<lambda>b. b) (\<lambda>_. Inr ()) (Inr None) 0 0 ''f'' (Inr [1, 2]) ''other'' s' = (s', [], Inr r')
    \<and> already_in_sync r'"
proof -
  obtain s' ms r where r: "sync_file (\<lambda>b. b) (\<lambda>_. Inr ())
      (Inr (Some (fst (chunk_data (\<lambda>b. b) (sync_chunker (incremental_with_chunk_size 4096)) [3])))) 0 0 ''f''
      (Inr [1, 2]) ''a'' (incremental_with_chunk_size 4096) = (s', ms, Inr r)" "\<not> already_in_sync r"
    using demo_run by blast
  from sync_skips_other_targets [OF r] show ?thesis by blast
qed

theorem download_writes_remote_file_witness:
  "\<exists>s' r. download_file (\<lambda>b. b) (Inr (Some (fst (chunk_data (\<lambda>b. b) (sync_chunker (incremental_with_chunk_size 4096)) [1, 2]))))
     (\<lambda>_. Inr [1, 2]) (\<lambda>_. Inr ()) 0 0 ''f'' (Some (Inr [3])) (incremental_with_chunk_size 4096)
     = (Some [1, 2], s', Inr r)"
  by (rule download_writes_remote_file [where local = "[3]"])
     (auto simp: sync_ok_new demo_simps num_chunks_def block_eq)

end
