(* ===== verification/Versions.thy ===== *)
theory Versions
  imports Chunking HashMap "HOL-Library.List_Lexorder" "HOL-Library.Char_ord"
begin

text \<open>
  Version history, \<^verbatim>\<open>crates/vpn/src/storage/version.rs\<close>: snapshots of file manifests, newest
  first, named by a UTC timestamp and a sequence number; restoring and pruning them. The clock
  and the outcome of writing the database file are arguments. The locks are never poisoned.
\<close>

section \<open>Version identifiers\<close>

text \<open>
  The civil calendar date of a day number. The day numbers are not negative, so that integer
  division and truncating division agree.
\<close>

definition civil_date_from_days :: "int \<Rightarrow> int \<times> int \<times> int" where
  "civil_date_from_days days =
     (let z = days + 719468;
          era = (if z \<ge> 0 then z else z - 146096) div 146097;
          doe = z - era * 146097;
          yoe = (doe - doe div 1460 + doe div 36524 - doe div 146096) div 365;
          y = yoe + era * 400;
          doy = doe - (365 * yoe + yoe div 4 - yoe div 100);
          mp = (5 * doy + 2) div 153;
          d = doy - (153 * mp + 2) div 5 + 1;
          m = (if mp < 10 then mp + 3 else mp - 9);
          y' = (if m \<le> 2 then y + 1 else y)
      in (y', m, d))"

text \<open>\<^verbatim>\<open>{:0w}\<close> for a number that is not negative.\<close>

definition pad :: "nat \<Rightarrow> nat \<Rightarrow> string" where
  "pad w n = replicate (w - length (show_nat n)) (CHR ''0'') @ show_nat n"

definition format_timestamp :: "u64 \<Rightarrow> string" where
  "format_timestamp unix_secs =
     (let secs = unat unix_secs;
          days = secs div 86400;
          t = secs mod 86400;
          hours = t div 3600; minutes = (t mod 3600) div 60; seconds = t mod 60;
          (year, month, day) = civil_date_from_days (int days)
      in pad 4 (nat year) @ pad 2 (nat month) @ pad 2 (nat day) @ pad 2 hours @ pad 2 minutes @ pad 2 seconds)"

section \<open>The store\<close>

record VersionEntry =
  version_id :: string
  timestamp :: string
  unix_secs :: u64
  seq :: u32
  manifest :: FileManifest
  annotation :: string

record FileVersions =
  fv_file_name :: string
  versions :: "VersionEntry list"

definition file_versions_new :: "string \<Rightarrow> FileVersions" where
  "file_versions_new f = \<lparr>fv_file_name = f, versions = []\<rparr>"

definition fv_push :: "VersionEntry \<Rightarrow> FileVersions \<Rightarrow> FileVersions" where
  "fv_push e fv = fv\<lparr>versions := e # versions fv\<rparr>"

definition fv_latest :: "FileVersions \<Rightarrow> VersionEntry option" where
  "fv_latest fv = (case versions fv of [] \<Rightarrow> None | e # _ \<Rightarrow> Some e)"

definition fv_get :: "string \<Rightarrow> FileVersions \<Rightarrow> VersionEntry option" where
  "fv_get i fv = find (\<lambda>v. version_id v = i) (versions fv)"

definition fv_prune :: "nat \<Rightarrow> FileVersions \<Rightarrow> FileVersions \<times> nat" where
  "fv_prune n fv =
     (if length (versions fv) \<le> n then (fv, 0)
      else (fv\<lparr>versions := take n (versions fv)\<rparr>, length (versions fv) - n))"

record VersionStore =
  files :: "(string, FileVersions) hmap"

definition get_or_create :: "string \<Rightarrow> VersionStore \<Rightarrow> FileVersions" where
  "get_or_create f st = (case hm_get (files st) f of None \<Rightarrow> file_versions_new f | Some fv \<Rightarrow> fv)"

definition store_list_files :: "VersionStore \<Rightarrow> string list" where
  "store_list_files st = sort (hm_keys (files st))"

definition store_total_versions :: "VersionStore \<Rightarrow> nat" where
  "store_total_versions st = sum_list (map (\<lambda>fv. length (versions fv)) (hm_values (files st)))"

definition store_prune_all :: "nat \<Rightarrow> VersionStore \<Rightarrow> VersionStore \<times> nat" where
  "store_prune_all n st =
     (st\<lparr>files := hm_map_values (\<lambda>fv. fst (fv_prune n fv)) (files st)\<rparr>,
      sum_list (map (\<lambda>fv. snd (fv_prune n fv)) (hm_values (files st))))"

section \<open>The manager\<close>

record VersionManager =
  store :: VersionStore
  seq_counter :: u64
  db_path :: string
  dirty :: bool

definition version_manager_new :: "string \<Rightarrow> VersionManager" where
  "version_manager_new p = \<lparr>store = \<lparr>files = []\<rparr>, seq_counter = 0, db_path = p, dirty = False\<rparr>"

text \<open>Loading, given the parsed contents of the database file (none: no file, or an empty one).\<close>

definition version_load_from_file ::
  "string \<Rightarrow> (string, VersionStore option) result \<Rightarrow> (string, VersionManager) result" where
  "version_load_from_file p contents =
     and_then contents (\<lambda>c. Inr \<lparr>store = (case c of None \<Rightarrow> \<lparr>files = []\<rparr> | Some st \<Rightarrow> st),
        seq_counter = 0, db_path = p, dirty = False\<rparr>)"

text \<open>\<open>save\<close> with the outcome of writing the file.\<close>

definition version_save :: "(string, unit) result \<Rightarrow> VersionManager \<Rightarrow> VersionManager \<times> (string, unit) result" where
  "version_save w s = (case w of Inl e \<Rightarrow> (s, Inl e) | Inr _ \<Rightarrow> (s\<lparr>dirty := False\<rparr>, Inr ()))"

definition save_if_dirty :: "(string, unit) result \<Rightarrow> VersionManager \<Rightarrow> VersionManager" where
  "save_if_dirty w s = (if dirty s then fst (version_save w s) else s)"

definition create_snapshot ::
  "u64 \<Rightarrow> (string, unit) result \<Rightarrow> string \<Rightarrow> FileManifest \<Rightarrow> string \<Rightarrow> VersionManager
     \<Rightarrow> VersionManager \<times> (string, string) result" where
  "create_snapshot now w f m ann s =
     (let ts = format_timestamp now;
          q = (ucast (seq_counter s) :: u32);
          vid = ts @ ''-'' @ pad 4 (unat q);
          e = \<lparr>version_id = vid, timestamp = ts, unix_secs = now, seq = q, manifest = m, annotation = ann\<rparr>;
          st = (store s)\<lparr>files := hm_insert f (fv_push e (get_or_create f (store s))) (files (store s))\<rparr>
      in (save_if_dirty w (s\<lparr>seq_counter := seq_counter s + 1, store := st, dirty := True\<rparr>), Inr vid))"

definition list_versions :: "string \<Rightarrow> VersionManager \<Rightarrow> VersionEntry list" where
  "list_versions f s = (case hm_get (files (store s)) f of None \<Rightarrow> [] | Some fv \<Rightarrow> versions fv)"

definition get_version :: "string \<Rightarrow> string \<Rightarrow> VersionManager \<Rightarrow> VersionEntry option" where
  "get_version f i s = (case hm_get (files (store s)) f of None \<Rightarrow> None | Some fv \<Rightarrow> fv_get i fv)"

definition latest_version :: "string \<Rightarrow> VersionManager \<Rightarrow> VersionEntry option" where
  "latest_version f s = (case hm_get (files (store s)) f of None \<Rightarrow> None | Some fv \<Rightarrow> fv_latest fv)"

definition restore_version :: "string \<Rightarrow> string \<Rightarrow> VersionManager \<Rightarrow> (string, FileManifest) result" where
  "restore_version f i s =
     ok_or (''version '' @ [CHR 0x27] @ i @ [CHR 0x27] @ '' not found for file '' @ [CHR 0x27] @ f @ [CHR 0x27])
       (map_option manifest (get_version f i s))"

definition no_versions :: "string \<Rightarrow> string" where
  "no_versions f = ''no versions found for '' @ [CHR 0x27] @ f @ [CHR 0x27]"

text \<open>
  When versions were pruned, the write guard of \<open>dirty\<close> is still held when \<open>save_if_dirty\<close> asks for
  the same lock: the thread blocks (Rust leaves it open whether it panics instead). \<open>None\<close> is a call
  that does not return.
\<close>

definition mark_pruned :: "nat \<Rightarrow> VersionManager \<Rightarrow> (VersionManager \<times> (string, nat) result) option" where
  "mark_pruned pruned s = (if pruned > 0 then None else Some (s, Inr pruned))"

definition prune_versions ::
  "string \<Rightarrow> nat \<Rightarrow> VersionManager \<Rightarrow> (VersionManager \<times> (string, nat) result) option" where
  "prune_versions f n s =
     (case hm_get (files (store s)) f of
        None \<Rightarrow> Some (s, Inl (no_versions f))
      | Some fv \<Rightarrow>
          let (fv', pruned) = fv_prune n fv
          in mark_pruned pruned (s\<lparr>store := (store s)\<lparr>files := hm_insert f fv' (files (store s))\<rparr>\<rparr>))"

definition prune_all_versions ::
  "nat \<Rightarrow> VersionManager \<Rightarrow> (VersionManager \<times> (string, nat) result) option" where
  "prune_all_versions n s =
     (let (st, pruned) = store_prune_all n (store s) in mark_pruned pruned (s\<lparr>store := st\<rparr>))"

definition version_remove_file ::
  "(string, unit) result \<Rightarrow> string \<Rightarrow> VersionManager \<Rightarrow> VersionManager \<times> (string, unit) result" where
  "version_remove_file w f s =
     (if hm_get (files (store s)) f = None then (s, Inl (no_versions f))
      else (save_if_dirty w (s\<lparr>store := (store s)\<lparr>files := hm_remove f (files (store s))\<rparr>, dirty := True\<rparr>), Inr ()))"

definition version_list_files :: "VersionManager \<Rightarrow> string list" where
  "version_list_files s = store_list_files (store s)"

definition total_versions :: "VersionManager \<Rightarrow> nat" where
  "total_versions s = store_total_versions (store s)"

definition has_versions :: "string \<Rightarrow> VersionManager \<Rightarrow> bool" where
  "has_versions f s = (case hm_get (files (store s)) f of None \<Rightarrow> False | Some fv \<Rightarrow> versions fv \<noteq> [])"

section \<open>Histories\<close>

lemma store_save_if_dirty [simp]:
  "store (save_if_dirty w s) = store s" "seq_counter (save_if_dirty w s) = seq_counter s"
  by (auto simp: save_if_dirty_def version_save_def split: sum.splits)

lemma list_versions_create:
  assumes "create_snapshot now w f m ann s = (s', Inr vid)"
  shows "\<exists>e. version_id e = vid \<and> manifest e = m
    \<and> (\<forall>g. list_versions g s' = (if g = f then e # list_versions f s else list_versions g s))"
  using assms
  by (auto simp: create_snapshot_def list_versions_def get_or_create_def file_versions_new_def fv_push_def
      Let_def split: option.splits)

lemma get_version_list: "get_version f i s = find (\<lambda>v. version_id v = i) (list_versions f s)"
  by (simp add: get_version_def list_versions_def fv_get_def split: option.splits)

text \<open>
  C21. The store is a map from file and version to manifest: a snapshot is what is restored under the
  identifier it returned, it becomes the latest version, and every other version of every file
  is restored as before.
\<close>

theorem snapshot_then_restore:
  assumes "create_snapshot now w f m ann s = (s', Inr vid)"
  shows "restore_version f vid s' = Inr m
    \<and> map_option manifest (latest_version f s') = Some m
    \<and> (\<forall>g i. (g, i) \<noteq> (f, vid) \<longrightarrow> restore_version g i s' = restore_version g i s)"
proof -
  obtain e where e: "version_id e = vid" "manifest e = m"
    and l: "\<And>g. list_versions g s' = (if g = f then e # list_versions f s else list_versions g s)"
    using list_versions_create [OF assms] by blast
  have "latest_version f s' = (case list_versions f s' of [] \<Rightarrow> None | v # _ \<Rightarrow> Some v)"
    by (simp add: latest_version_def list_versions_def fv_latest_def split: option.splits)
  with e l show ?thesis by (auto simp: restore_version_def get_version_list)
qed

theorem snapshot_then_restore_witness:
  "restore_version ''f'' (format_timestamp 0 @ ''-'' @ pad 4 0)
     (fst (create_snapshot 0 (Inr ()) ''f'' \<lparr>fm_file_hash = [1], fm_file_size = 0, fm_chunks = [], fm_chunk_size = 1\<rparr>
        [] (version_manager_new [])))
   = Inr \<lparr>fm_file_hash = [1], fm_file_size = 0, fm_chunks = [], fm_chunk_size = 1\<rparr>"
proof -
  let ?r = "create_snapshot 0 (Inr ()) ''f'' \<lparr>fm_file_hash = [1], fm_file_size = 0, fm_chunks = [], fm_chunk_size = 1\<rparr>
        [] (version_manager_new [])"
  have "?r = (fst ?r, Inr (format_timestamp 0 @ ''-'' @ pad 4 0))"
    by (simp add: create_snapshot_def version_manager_new_def Let_def)
  from snapshot_then_restore [OF this] show ?thesis by blast
qed

section \<open>Pruning\<close>

lemma fv_prune_0: "snd (fv_prune n fv) = 0 \<longleftrightarrow> length (versions fv) \<le> n" "snd (fv_prune n fv) = 0 \<Longrightarrow> fst (fv_prune n fv) = fv"
  by (auto simp: fv_prune_def)

lemma store_prune_all_0:
  "snd (store_prune_all n st) = 0 \<longleftrightarrow> (\<forall>fv \<in> set (hm_values (files st)). length (versions fv) \<le> n)"
  by (simp add: store_prune_all_def fv_prune_0 sum_list_eq_0_iff)

lemma list_versions_values:
  "hm_ok (files (store s)) \<Longrightarrow>
     (\<forall>fv \<in> set (hm_values (files (store s))). length (versions fv) \<le> n) \<longleftrightarrow> (\<forall>f. length (list_versions f s) \<le> n)"
  by (auto simp: list_versions_def hm_values_iff split: option.splits)

lemma prune_all_blocks:
  assumes "hm_ok (files (store s))"
  shows "prune_all_versions n s = None \<longleftrightarrow> (\<exists>f. n < length (list_versions f s))"
proof -
  have "prune_all_versions n s = None \<longleftrightarrow> snd (store_prune_all n (store s)) \<noteq> 0"
    by (simp add: prune_all_versions_def mark_pruned_def Let_def case_prod_unfold)
  then show ?thesis
    using store_prune_all_0 [of n "store s"] list_versions_values [OF assms, of n] by (metis not_le)
qed



end
