(* ===== verification/Metadata.thy ===== *)
theory Metadata
  imports Chunking HashMap
begin

text \<open>
  The metadata store, \<^verbatim>\<open>crates/vpn/src/storage/metadata.rs\<close>: for every backed-up file its hash,
  size and blocks with the nodes that hold them, and the merge of another node's entries. The
  clock, the outcome of writing the database file and the 64-bit hash that breaks ties (Rust's
  \<^verbatim>\<open>DefaultHasher\<close> over name and file hash) are arguments.
\<close>

definition CONFLICT_WINDOW_SECS :: u64 where "CONFLICT_WINDOW_SECS = 5"

record BlockLocation =
  bl_hash :: Hash
  bl_index :: u32
  bl_nodes :: "string list"
  bl_last_synced :: u64

record FileMetadata =
  md_name :: string
  md_file_hash :: Hash
  md_file_size :: u64
  md_blocks :: "BlockLocation list"
  md_created_at :: u64
  md_updated_at :: u64
  md_source_node :: string
  md_encrypted :: bool

record MetadataEntry =
  me_meta :: FileMetadata
  me_manifest :: "FileManifest option"

datatype MetadataError = AlreadyExists string | NotFound string

record MetadataStore =
  ms_entries :: "(string, MetadataEntry) hmap"
  ms_dirty :: bool

definition metadata_new :: MetadataStore where
  "metadata_new = \<lparr>ms_entries = [], ms_dirty = False\<rparr>"

text \<open>\<open>dirty.store(true)\<close> followed by \<open>save_if_dirty\<close>; \<open>w\<close> tells whether writing succeeds.\<close>

definition mark_and_save :: "bool \<Rightarrow> MetadataStore \<Rightarrow> MetadataStore" where
  "mark_and_save w s = s\<lparr>ms_dirty := \<not> w\<rparr>"

definition new_entry ::
  "u64 \<Rightarrow> string \<Rightarrow> Hash \<Rightarrow> u64 \<Rightarrow> FileManifest option \<Rightarrow> BlockLocation list \<Rightarrow> string \<Rightarrow> MetadataEntry" where
  "new_entry now n h sz m bs src =
     \<lparr>me_meta = \<lparr>md_name = n, md_file_hash = h, md_file_size = sz, md_blocks = bs, md_created_at = now,
        md_updated_at = now, md_source_node = src, md_encrypted = False\<rparr>, me_manifest = m\<rparr>"

definition register_file ::
  "u64 \<Rightarrow> bool \<Rightarrow> string \<Rightarrow> Hash \<Rightarrow> u64 \<Rightarrow> FileManifest option \<Rightarrow> BlockLocation list \<Rightarrow> string
     \<Rightarrow> MetadataStore \<Rightarrow> MetadataStore \<times> (MetadataError, unit) result" where
  "register_file now w n h sz m bs src s =
     (if hm_contains n (ms_entries s) then (s, Inl (AlreadyExists n))
      else (mark_and_save w (s\<lparr>ms_entries := hm_insert n (new_entry now n h sz m bs src) (ms_entries s)\<rparr>), Inr ()))"

definition metadata_upsert ::
  "u64 \<Rightarrow> bool \<Rightarrow> string \<Rightarrow> Hash \<Rightarrow> u64 \<Rightarrow> FileManifest option \<Rightarrow> BlockLocation list \<Rightarrow> string
     \<Rightarrow> MetadataStore \<Rightarrow> MetadataStore" where
  "metadata_upsert now w n h sz m bs src s =
     mark_and_save w (s\<lparr>ms_entries := hm_insert n (new_entry now n h sz m bs src) (ms_entries s)\<rparr>)"

definition query :: "string \<Rightarrow> MetadataStore \<Rightarrow> MetadataEntry option" where
  "query n s = hm_get (ms_entries s) n"

definition metadata_list_files :: "MetadataStore \<Rightarrow> string list" where
  "metadata_list_files s = hm_keys (ms_entries s)"

definition get_block_nodes :: "string \<Rightarrow> u32 \<Rightarrow> MetadataStore \<Rightarrow> string list" where
  "get_block_nodes n i s =
     (case query n s of
        None \<Rightarrow> []
      | Some e \<Rightarrow>
          (case find (\<lambda>b. bl_index b = i) (md_blocks (me_meta e)) of None \<Rightarrow> [] | Some b \<Rightarrow> bl_nodes b))"

text \<open>\<^verbatim>\<open>iter_mut().find(index)\<close>: change the first block of an index, if there is one.\<close>

fun update_block :: "u32 \<Rightarrow> (BlockLocation \<Rightarrow> BlockLocation) \<Rightarrow> BlockLocation list \<Rightarrow> BlockLocation list option" where
  "update_block i g [] = None"
| "update_block i g (b # bs) =
     (if bl_index b = i then Some (g b # bs) else map_option (\<lambda>bs'. b # bs') (update_block i g bs))"

definition push_node :: "string \<Rightarrow> string list \<Rightarrow> string list" where
  "push_node n ns = (if n \<in> set ns then ns else ns @ [n])"

definition add_node_to_block :: "u64 \<Rightarrow> string \<Rightarrow> BlockLocation \<Rightarrow> BlockLocation" where
  "add_node_to_block now n b = b\<lparr>bl_nodes := push_node n (bl_nodes b), bl_last_synced := now\<rparr>"

definition add_block_node ::
  "u64 \<Rightarrow> bool \<Rightarrow> string \<Rightarrow> u32 \<Rightarrow> string \<Rightarrow> MetadataStore \<Rightarrow> MetadataStore \<times> (MetadataError, unit) result" where
  "add_block_node now w f i node s =
     (case query f s of
        None \<Rightarrow> (s, Inl (NotFound f))
      | Some e \<Rightarrow>
          let md = me_meta e;
              bs = (case update_block i (add_node_to_block now node) (md_blocks md) of
                      Some bs \<Rightarrow> bs
                    | None \<Rightarrow> md_blocks md @ [\<lparr>bl_hash = replicate 32 0, bl_index = i, bl_nodes = [node],
                                               bl_last_synced = now\<rparr>]);
              e' = e\<lparr>me_meta := md\<lparr>md_blocks := bs, md_updated_at := now\<rparr>\<rparr>
          in (mark_and_save w (s\<lparr>ms_entries := hm_insert f e' (ms_entries s)\<rparr>), Inr ()))"

definition add_block_nodes ::
  "u64 \<Rightarrow> bool \<Rightarrow> string \<Rightarrow> (u32, string list) hmap \<Rightarrow> MetadataStore \<Rightarrow> MetadataStore \<times> (MetadataError, unit) result" where
  "add_block_nodes now w f by_index s =
     (case query f s of
        None \<Rightarrow> (s, Inl (NotFound f))
      | Some e \<Rightarrow>
          let md = me_meta e;
              add_all = (\<lambda>ns b. b\<lparr>bl_nodes := foldl (\<lambda>xs n. push_node n xs) (bl_nodes b) ns, bl_last_synced := now\<rparr>);
              bs = foldl (\<lambda>bs (i, ns). case update_block i (add_all ns) bs of None \<Rightarrow> bs | Some bs' \<Rightarrow> bs')
                     (md_blocks md) by_index;
              e' = e\<lparr>me_meta := md\<lparr>md_blocks := bs, md_updated_at := now\<rparr>\<rparr>
          in (mark_and_save w (s\<lparr>ms_entries := hm_insert f e' (ms_entries s)\<rparr>), Inr ()))"

definition metadata_remove_file ::
  "bool \<Rightarrow> string \<Rightarrow> MetadataStore \<Rightarrow> MetadataStore \<times> (MetadataError, unit) result" where
  "metadata_remove_file w n s =
     (if hm_get (ms_entries s) n = None then (s, Inl (NotFound n))
      else (mark_and_save w (s\<lparr>ms_entries := hm_remove n (ms_entries s)\<rparr>), Inr ()))"

definition mark_encrypted ::
  "u64 \<Rightarrow> bool \<Rightarrow> string \<Rightarrow> MetadataStore \<Rightarrow> MetadataStore \<times> (MetadataError, unit) result" where
  "mark_encrypted now w n s =
     (case query n s of
        None \<Rightarrow> (s, Inl (NotFound n))
      | Some e \<Rightarrow>
          let e' = e\<lparr>me_meta := (me_meta e)\<lparr>md_encrypted := True, md_updated_at := now\<rparr>\<rparr>
          in (mark_and_save w (s\<lparr>ms_entries := hm_insert n e' (ms_entries s)\<rparr>), Inr ()))"

section \<open>Merging\<close>

definition should_merge :: "(MetadataEntry \<Rightarrow> u64) \<Rightarrow> MetadataEntry option \<Rightarrow> MetadataEntry \<Rightarrow> bool" where
  "should_merge hash_entry here remote =
     (case here of
        None \<Rightarrow> True
      | Some l \<Rightarrow>
          let lt = md_updated_at (me_meta l); rt = md_updated_at (me_meta remote)
          in if rt > lt + CONFLICT_WINDOW_SECS then True
             else if lt > rt + CONFLICT_WINDOW_SECS then False
             else hash_entry remote > hash_entry l)"

definition merge_one ::
  "(MetadataEntry \<Rightarrow> u64) \<Rightarrow> u64 \<Rightarrow> (string, MetadataEntry) hmap \<times> nat \<Rightarrow> MetadataEntry \<Rightarrow> (string, MetadataEntry) hmap \<times> nat" where
  "merge_one hash_entry now = (\<lambda>(m, k) remote.
     let n = md_name (me_meta remote)
     in if should_merge hash_entry (hm_get m n) remote
        then (hm_insert n (remote\<lparr>me_meta := (me_meta remote)\<lparr>md_updated_at := now\<rparr>\<rparr>) m, Suc k)
        else (m, k))"

definition sync_from ::
  "(MetadataEntry \<Rightarrow> u64) \<Rightarrow> u64 \<Rightarrow> bool \<Rightarrow> MetadataEntry list \<Rightarrow> MetadataStore \<Rightarrow> MetadataStore \<times> nat" where
  "sync_from hash_entry now w rs s =
     (let (m, k) = foldl (merge_one hash_entry now) (ms_entries s, 0) rs;
          s' = s\<lparr>ms_entries := m\<rparr>
      in (if k > 0 then mark_and_save w s' else s', k))"

definition metadata_all_entries :: "MetadataStore \<Rightarrow> MetadataEntry list" where
  "metadata_all_entries s = hm_values (ms_entries s)"

section \<open>Stores stay keyed by name\<close>

definition ms_inv :: "MetadataStore \<Rightarrow> bool" where
  "ms_inv s \<longleftrightarrow> hm_ok (ms_entries s) \<and> (\<forall>n e. hm_get (ms_entries s) n = Some e \<longrightarrow> md_name (me_meta e) = n)"

lemma ms_inv_save [simp]: "ms_inv (mark_and_save w s) = ms_inv s"
  by (simp add: ms_inv_def mark_and_save_def)

lemma ms_inv_put:
  "ms_inv s \<Longrightarrow> md_name (me_meta e) = n \<Longrightarrow> ms_inv (s\<lparr>ms_entries := hm_insert n e (ms_entries s)\<rparr>)"
  by (auto simp: ms_inv_def)

lemma ms_inv_query: "ms_inv s \<Longrightarrow> query n s = Some e \<Longrightarrow> md_name (me_meta e) = n"
  by (simp add: ms_inv_def query_def)

lemma merge_all_inv:
  "hm_ok m \<Longrightarrow> \<forall>n e. hm_get m n = Some e \<longrightarrow> md_name (me_meta e) = n \<Longrightarrow>
     foldl (merge_one h now) (m, k) rs = (m', k') \<Longrightarrow>
     hm_ok m' \<and> (\<forall>n e. hm_get m' n = Some e \<longrightarrow> md_name (me_meta e) = n)"
proof (induction rs arbitrary: m k)
  case (Cons r rs)
  obtain m1 k1 where r: "merge_one h now (m, k) r = (m1, k1)" by force
  then have "hm_ok m1" "\<forall>n e. hm_get m1 n = Some e \<longrightarrow> md_name (me_meta e) = n"
    using Cons.prems(1,2) by (auto simp: merge_one_def Let_def split: if_splits)
  from Cons.IH [OF this, of k1] Cons.prems(3) r show ?case by simp
qed simp

lemma ms_inv_ops:
  assumes "ms_inv s"
  shows "ms_inv (fst (register_file now w n h sz m bs src s))"
    "ms_inv (metadata_upsert now w n h sz m bs src s)"
    "ms_inv (fst (add_block_node now w n i node s))"
    "ms_inv (fst (add_block_nodes now w n by_index s))"
    "ms_inv (fst (metadata_remove_file w n s))"
    "ms_inv (fst (mark_encrypted now w n s))"
    "ms_inv (fst (sync_from he now w rs s))"
proof -
  show "ms_inv (fst (register_file now w n h sz m bs src s))"
    using assms by (simp add: register_file_def new_entry_def ms_inv_put)
  show "ms_inv (metadata_upsert now w n h sz m bs src s)"
    using assms by (simp add: metadata_upsert_def new_entry_def ms_inv_put)
  show "ms_inv (fst (add_block_node now w n i node s))"
    using assms by (auto simp: add_block_node_def Let_def ms_inv_put ms_inv_query split: option.splits)
  show "ms_inv (fst (add_block_nodes now w n by_index s))"
    using assms by (auto simp: add_block_nodes_def Let_def ms_inv_put ms_inv_query split: option.splits)
  show "ms_inv (fst (metadata_remove_file w n s))"
    using assms by (auto simp: metadata_remove_file_def ms_inv_def mark_and_save_def split: if_splits)
  show "ms_inv (fst (mark_encrypted now w n s))"
    using assms by (auto simp: mark_encrypted_def Let_def ms_inv_put ms_inv_query split: option.splits)
  obtain m' k' where f: "foldl (merge_one he now) (ms_entries s, 0) rs = (m', k')" by force
  with assms merge_all_inv [of "ms_entries s" he now 0 rs m' k'] show "ms_inv (fst (sync_from he now w rs s))"
    by (auto simp: sync_from_def ms_inv_def mark_and_save_def Let_def)
qed

text \<open>
  Every operation keeps the store keyed by the names inside its entries; a registered file can be
  queried at once, and registering it again is refused and changes nothing.
\<close>

theorem register_then_query:
  assumes "ms_inv s"
  shows "ms_inv (fst (register_file now w n h sz m bs src s))
    \<and> (query n s = None \<longrightarrow>
         query n (fst (register_file now w n h sz m bs src s)) = Some (new_entry now n h sz m bs src)
         \<and> snd (register_file now w n h sz m bs src s) = Inr ())
    \<and> (query n s \<noteq> None \<longrightarrow> register_file now w n h sz m bs src s = (s, Inl (AlreadyExists n)))
    \<and> (\<forall>k. k \<noteq> n \<longrightarrow> query k (fst (register_file now w n h sz m bs src s)) = query k s)"
  using ms_inv_ops(1) [OF assms]
  by (auto simp: register_file_def query_def hm_contains_def mark_and_save_def)

theorem register_then_query_witness:
  "query ''f'' (fst (register_file 7 True ''f'' [1] 2 None [] ''n'' metadata_new))
     = Some (new_entry 7 ''f'' [1] 2 None [] ''n'')"
proof -
  have "ms_inv metadata_new" by (simp add: ms_inv_def metadata_new_def)
  from register_then_query [OF this, of 7 True "''f''" "[1]" 2 None "[]" "''n''"] show ?thesis
    by (simp add: query_def metadata_new_def)
qed

section \<open>Merging is not newest-first\<close>

text \<open>
  A merged entry is stamped with the time of the merge. So an old entry that travels over a third
  node beats a newer one: if \<open>b\<close> merges the entry \<open>old\<close> more than five seconds after \<open>new\<close> was
  written at \<open>a\<close>, then \<open>a\<close>, merging what \<open>b\<close> has, replaces \<open>new\<close> by \<open>old\<close>, however much older
  \<open>old\<close> is.
\<close>

theorem stale_entry_replaces_newer:
  assumes "query n a = Some new" and "md_name (me_meta old) = n"
    and "unat (md_updated_at (me_meta new)) + 5 < unat tb"
  shows "let b = fst (sync_from he tb wb [old] metadata_new);
             a' = fst (sync_from he ta wa (metadata_all_entries b) a)
         in map_option (md_file_hash \<circ> me_meta) (query n a') = Some (md_file_hash (me_meta old))"
proof -
  let ?old = "old\<lparr>me_meta := (me_meta old)\<lparr>md_updated_at := tb\<rparr>\<rparr>"
  have b: "metadata_all_entries (fst (sync_from he tb wb [old] metadata_new)) = [?old]"
    using assms(2)
    by (simp add: sync_from_def merge_one_def should_merge_def metadata_new_def mark_and_save_def
        metadata_all_entries_def hm_values_def hm_insert_def Let_def)
  have "unat (md_updated_at (me_meta new) + 5) = unat (md_updated_at (me_meta new)) + 5"
    using assms(3) unsigned_less [of tb, where 'a = nat] by (simp add: unat_word_ariths)
  with assms(3) have "md_updated_at (me_meta new) + CONFLICT_WINDOW_SECS < tb"
    by (simp add: word_less_nat_alt CONFLICT_WINDOW_SECS_def)
  then have "should_merge he (Some new) ?old" by (simp add: should_merge_def)
  with assms(1,2) have "query n (fst (sync_from he ta wa [?old] a)) =
      Some (?old\<lparr>me_meta := (me_meta ?old)\<lparr>md_updated_at := ta\<rparr>\<rparr>)"
    by (simp add: Let_def sync_from_def merge_one_def query_def mark_and_save_def)
  then show ?thesis unfolding Let_def b by simp
qed

theorem stale_entry_replaces_newer_witness:
  "let new = new_entry 1000 ''f'' [2] 0 None [] ''a''; old = new_entry 0 ''f'' [1] 0 None [] ''c'';
       a = metadata_upsert 1000 True ''f'' [2] 0 None [] ''a'' metadata_new;
       b = fst (sync_from (\<lambda>_. 0) 2000 True [old] metadata_new);
       a' = fst (sync_from (\<lambda>_. 0) 3000 True (metadata_all_entries b) a)
   in map_option (md_file_hash \<circ> me_meta) (query ''f'' a') = Some [1]"
proof -
  let ?a = "metadata_upsert 1000 True ''f'' [2] 0 None [] ''a'' metadata_new"
  have a: "query ''f'' ?a = Some (new_entry 1000 ''f'' [2] 0 None [] ''a'')"
    by (simp add: query_def metadata_upsert_def mark_and_save_def)
  show ?thesis
    using stale_entry_replaces_newer [OF a, of "new_entry 0 ''f'' [1] 0 None [] ''c''" 2000 "\<lambda>_. 0" True 3000 True]
    by (simp add: new_entry_def Let_def)
qed

end
