(* ===== verification/Gc.thy ===== *)
theory Gc
  imports Versions Metadata
begin

text \<open>
  Garbage collection, \<^verbatim>\<open>crates/vpn/src/storage/gc.rs\<close>: which blocks of the metadata store no
  version refers to, and the storage statistics. A \<^verbatim>\<open>HashSet\<close> is a list without repetition, in
  some order.
\<close>

record StorageStats =
  total_files :: nat
  stat_total_blocks :: nat
  total_bytes :: u64
  versioned_files :: nat
  stat_total_versions :: nat
  referenced_blocks :: nat
  unreferenced_blocks :: nat
  stat_reclaimable_bytes :: u64

record CollectResult =
  unreferenced_count :: nat
  reclaimable_bytes :: u64
  unreferenced_hashes :: "Hash list"

definition collect_referenced_blocks :: "VersionManager \<Rightarrow> Hash list" where
  "collect_referenced_blocks vm =
     remdups (concat (map (\<lambda>f. concat (map (\<lambda>v. map cm_hash (fm_chunks (manifest v))) (list_versions f vm)))
       (version_list_files vm)))"

text \<open>The entries of the store, in the order of \<open>list_files\<close>.\<close>

definition queried :: "MetadataStore \<Rightarrow> MetadataEntry list" where
  "queried ms = List.map_filter (\<lambda>f. query f ms) (metadata_list_files ms)"

definition collect_all_metadata_blocks :: "MetadataStore \<Rightarrow> Hash list" where
  "collect_all_metadata_blocks ms =
     remdups (concat (map (\<lambda>e. map bl_hash (md_blocks (me_meta e))) (queried ms)))"

definition estimate_average_block_size :: "MetadataStore \<Rightarrow> u64" where
  "estimate_average_block_size ms =
     (let es = filter (\<lambda>e. (of_nat (length (md_blocks (me_meta e))) :: u64) > 0) (queried ms);
          total_size = sum_list (map (\<lambda>e. md_file_size (me_meta e)) es);
          total_blocks = sum_list (map (\<lambda>e. of_nat (length (md_blocks (me_meta e)))) es) :: u64
      in if total_blocks = 0 then 4 * 1024 * 1024 else total_size div total_blocks)"

definition collect :: "VersionManager \<Rightarrow> MetadataStore \<Rightarrow> CollectResult" where
  "collect vm ms =
     (let referenced = collect_referenced_blocks vm;
          all_blocks = collect_all_metadata_blocks ms;
          unreferenced = filter (\<lambda>h. h \<notin> set referenced) all_blocks;
          avg = (if all_blocks = [] then 4 * 1024 * 1024 else estimate_average_block_size ms)
      in \<lparr>unreferenced_count = length unreferenced,
          reclaimable_bytes = of_nat (length unreferenced) * avg,
          unreferenced_hashes = unreferenced\<rparr>)"

definition prune_old_versions ::
  "nat \<Rightarrow> VersionManager \<Rightarrow> (VersionManager \<times> (string, nat) result) option" where
  "prune_old_versions n vm = prune_all_versions n vm"

definition storage_stats :: "VersionManager \<Rightarrow> MetadataStore \<Rightarrow> StorageStats" where
  "storage_stats vm ms =
     (let es = queried ms;
          referenced = collect_referenced_blocks vm;
          all_blocks = collect_all_metadata_blocks ms;
          unref = length all_blocks - length referenced;
          avg = (if all_blocks = [] then 0 else estimate_average_block_size ms)
      in \<lparr>total_files = length (metadata_list_files ms),
          stat_total_blocks = sum_list (map (\<lambda>e. length (md_blocks (me_meta e))) es),
          total_bytes = sum_list (map (\<lambda>e. md_file_size (me_meta e)) es),
          versioned_files = length (version_list_files vm),
          stat_total_versions = total_versions vm,
          referenced_blocks = length referenced,
          unreferenced_blocks = unref,
          stat_reclaimable_bytes = of_nat unref * avg\<rparr>)"

section \<open>What is collected\<close>

lemma set_referenced:
  "set (collect_referenced_blocks vm) =
     {cm_hash c | c v f. v \<in> set (list_versions f vm) \<and> c \<in> set (fm_chunks (manifest v))}"
proof -
  have "f \<in> set (version_list_files vm)" if "v \<in> set (list_versions f vm)" for v f
    using that hm_keys_iff [of f "files (store vm)"]
    by (auto simp: version_list_files_def store_list_files_def list_versions_def split: option.splits)
  then show ?thesis by (fastforce simp: collect_referenced_blocks_def)
qed

lemma set_queried: "ms_inv ms \<Longrightarrow> set (queried ms) = {e. \<exists>f. query f ms = Some e}"
  using hm_keys_iff [of _ "ms_entries ms"]
  by (force simp: queried_def List.map_filter_def metadata_list_files_def query_def)

lemma restored_listed:
  "restore_version f i vm = Inr m \<Longrightarrow> \<exists>v \<in> set (list_versions f vm). manifest v = m"
  by (auto simp: restore_version_def ok_or_eq_Inr get_version_list find_Some_iff intro: nth_mem)

text \<open>
  C22. The collector reports exactly the blocks of registered files that no version contains: no block
  of any version that can be restored is ever reported, every reported block belongs to a
  registered file, and every block of a registered file that no version lists is reported, once.
\<close>

theorem collect_exact:
  assumes "ms_inv ms"
  shows "distinct (unreferenced_hashes (collect vm ms))
    \<and> set (unreferenced_hashes (collect vm ms)) =
        {bl_hash b | b e f. query f ms = Some e \<and> b \<in> set (md_blocks (me_meta e))}
        - {cm_hash c | c v f. v \<in> set (list_versions f vm) \<and> c \<in> set (fm_chunks (manifest v))}
    \<and> (\<forall>f i m c. restore_version f i vm = Inr m \<longrightarrow> c \<in> set (fm_chunks m) \<longrightarrow>
         cm_hash c \<notin> set (unreferenced_hashes (collect vm ms)))"
proof -
  have all: "set (collect_all_metadata_blocks ms) =
      {bl_hash b | b e f. query f ms = Some e \<and> b \<in> set (md_blocks (me_meta e))}"
    unfolding collect_all_metadata_blocks_def by (auto simp: set_queried [OF assms])
  have set: "set (unreferenced_hashes (collect vm ms)) =
      set (collect_all_metadata_blocks ms) - set (collect_referenced_blocks vm)"
    by (auto simp: collect_def Let_def)
  have "distinct (unreferenced_hashes (collect vm ms))"
    by (simp add: collect_def collect_all_metadata_blocks_def Let_def)
  moreover have "cm_hash c \<notin> set (unreferenced_hashes (collect vm ms))"
    if "restore_version f i vm = Inr m" "c \<in> set (fm_chunks m)" for f i m c
    using restored_listed [OF that(1)] that(2) unfolding set set_referenced by blast
  ultimately show ?thesis unfolding set all set_referenced by blast
qed

theorem collect_exact_witness:
  "distinct (unreferenced_hashes (collect (version_manager_new [])
     (metadata_upsert 0 True ''f'' [9] 1 None [\<lparr>bl_hash = [1], bl_index = 0, bl_nodes = [], bl_last_synced = 0\<rparr>] ''n'' metadata_new)))"
proof -
  have "ms_inv metadata_new" by (simp add: ms_inv_def metadata_new_def)
  from collect_exact [OF ms_inv_ops(2) [OF this]] show ?thesis by blast
qed

text \<open>
  The statistics subtract the number of referenced blocks from the number of known blocks, as if
  every referenced block were a known one. With one registered block and one version of another
  block, the collector reports one block to reclaim and the statistics none.
\<close>

theorem stats_disagree_with_collect:
  "\<exists>vm ms. ms_inv ms \<and> unreferenced_count (collect vm ms) = 1 \<and> unreferenced_blocks (storage_stats vm ms) = 0"
proof (intro exI conjI)
  let ?b = "\<lparr>bl_hash = [1], bl_index = 0, bl_nodes = [], bl_last_synced = 0\<rparr>"
  let ?ms = "metadata_upsert 0 True ''f'' [9] 1 None [?b] ''n'' metadata_new"
  let ?m = "\<lparr>fm_file_hash = [8], fm_file_size = 1, fm_chunks = [\<lparr>cm_hash = [2], cm_index = 0, cm_offset = 0, cm_size = 1\<rparr>],
     fm_chunk_size = 1\<rparr>"
  let ?vm = "fst (create_snapshot 0 (Inr ()) ''g'' ?m [] (version_manager_new []))"
  have ref: "collect_referenced_blocks ?vm = [[2]]"
    by (simp add: collect_referenced_blocks_def version_list_files_def store_list_files_def create_snapshot_def
        version_manager_new_def get_or_create_def file_versions_new_def fv_push_def list_versions_def
        hm_keys_def hm_insert_def Let_def)
  have all: "collect_all_metadata_blocks ?ms = [[1]]"
    by (simp add: collect_all_metadata_blocks_def queried_def metadata_upsert_def metadata_new_def new_entry_def
        mark_and_save_def metadata_list_files_def query_def hm_keys_def hm_insert_def List.map_filter_def)
  show "ms_inv ?ms" by (rule ms_inv_ops) (simp add: ms_inv_def metadata_new_def)
  show "unreferenced_count (collect ?vm ?ms) = 1" by (simp add: collect_def ref all)
  show "unreferenced_blocks (storage_stats ?vm ?ms) = 0" by (simp add: storage_stats_def ref all Let_def)
qed

end
