(* ===== verification/RegistryCenter.thy ===== *)
theory RegistryCenter
  imports Relaying
begin

text \<open>
  The registry centre, \<^verbatim>\<open>crates/vpn/src/registry/center.rs\<close>: the server's two maps (name to entry,
  node to name), its messages and its JSON file, the client, and the client's cache with a time to
  live. serde's JSON codec is a parameter per payload type; the file at the server's path is the
  field \<open>rs_db\<close>, and whether writing it succeeds is given by the caller. Locks are never poisoned
  (no code panics while it holds one), so \<open>LockPoisoned\<close> is not produced.
\<close>

section \<open>Messages and data\<close>

definition DEFAULT_CACHE_TTL :: u64 where "DEFAULT_CACHE_TTL = 60"
definition DEFAULT_REGISTRY_PORT :: u16 where "DEFAULT_REGISTRY_PORT = 9880"

datatype RegistryMessageType =
    Register | RegisterAck | Lookup | LookupResponse | ReverseLookup | ReverseLookupResponse
  | ListNodes | ListNodesResponse

definition rmt_from_u8 :: "u8 \<Rightarrow> RegistryMessageType option" where
  "rmt_from_u8 b =
     (if b = 1 then Some Register else if b = 2 then Some RegisterAck
      else if b = 3 then Some Lookup else if b = 4 then Some LookupResponse
      else if b = 5 then Some ReverseLookup else if b = 6 then Some ReverseLookupResponse
      else if b = 7 then Some ListNodes else if b = 8 then Some ListNodesResponse else None)"

fun rmt_to_u8 :: "RegistryMessageType \<Rightarrow> u8" where
  "rmt_to_u8 Register = 1"
| "rmt_to_u8 RegisterAck = 2"
| "rmt_to_u8 Lookup = 3"
| "rmt_to_u8 LookupResponse = 4"
| "rmt_to_u8 ReverseLookup = 5"
| "rmt_to_u8 ReverseLookupResponse = 6"
| "rmt_to_u8 ListNodes = 7"
| "rmt_to_u8 ListNodesResponse = 8"

datatype RegistryError = AlreadyRegistered string | NotFound string | RegIoError
  | SerializeError string | LockPoisoned

text \<open>The texts of \<^verbatim>\<open>Display\<close>; the operating system's text of an I/O error is not modelled.\<close>

fun registry_error_text :: "RegistryError \<Rightarrow> string" where
  "registry_error_text (AlreadyRegistered name) = ''name '' @ [CHR 0x27] @ name @ [CHR 0x27] @ '' is already registered''"
| "registry_error_text (NotFound name) = ''name '' @ [CHR 0x27] @ name @ [CHR 0x27] @ '' not found''"
| "registry_error_text RegIoError = ''io error: ''"
| "registry_error_text (SerializeError msg) = ''serialize error: '' @ msg"
| "registry_error_text LockPoisoned = ''lock poisoned''"

record RegistryEntry =
  re_name :: string
  re_node_id :: NodeID
  registered_at :: u64
  re_last_seen :: u64
  re_ttl :: u64

definition registry_entry_new :: "u64 \<Rightarrow> string \<Rightarrow> NodeID \<Rightarrow> RegistryEntry" where
  "registry_entry_new now name n =
     \<lparr>re_name = name, re_node_id = n, registered_at = now, re_last_seen = now, re_ttl = DEFAULT_CACHE_TTL\<rparr>"

definition registry_entry_touch :: "u64 \<Rightarrow> RegistryEntry \<Rightarrow> RegistryEntry" where
  "registry_entry_touch now e = e\<lparr>re_last_seen := now\<rparr>"

record RegistryData =
  rd_names :: "(string, RegistryEntry) hmap"
  rd_reverse :: "(string, string) hmap"

record NodeInfo =
  ni_name :: string
  ni_node_id :: NodeID
  ni_registered_at :: u64
  ni_last_seen :: u64

record RegisterPayload =
  rp_name :: string
  rp_node_id :: NodeID

record RegisterAckPayload =
  success :: bool
  message :: string

record LookupResponsePayload =
  found :: bool
  lr_node_id :: "NodeID option"

record ReverseLookupResponsePayload =
  rl_found :: bool
  rl_name :: "string option"

record ListNodesResponsePayload =
  nodes :: "NodeInfo list"
  node_total :: nat

text \<open>
  The JSON codec of one payload type. \<^verbatim>\<open>LookupPayload\<close> and \<^verbatim>\<open>ReverseLookupPayload\<close> have one
  field each and are that field.
\<close>

record 'a json_codec =
  to_vec :: "'a \<Rightarrow> bytes option"
  from_slice :: "bytes \<Rightarrow> 'a option"

definition json_trips :: "'a json_codec \<Rightarrow> 'a \<Rightarrow> bool" where
  "json_trips J x = (case to_vec J x of None \<Rightarrow> False | Some b \<Rightarrow> from_slice J b = Some x)"

record registry_json =
  j_register :: "RegisterPayload json_codec"
  j_ack :: "RegisterAckPayload json_codec"
  j_lookup :: "string json_codec"
  j_lookup_response :: "LookupResponsePayload json_codec"
  j_reverse :: "NodeID json_codec"
  j_reverse_response :: "ReverseLookupResponsePayload json_codec"
  j_nodes :: "ListNodesResponsePayload json_codec"
  j_data :: "RegistryData \<Rightarrow> string"
  j_data_parse :: "string \<Rightarrow> (string, RegistryData) result"

section \<open>The server\<close>

record RegistryServer =
  rs_names :: "(string, RegistryEntry) hmap"
  rs_reverse :: "(NodeID, string) hmap"
  rs_db :: "string option"
  rs_running :: bool
  rs_dirty :: bool

definition registry_server_new :: "string option \<Rightarrow> RegistryServer" where
  "registry_server_new db =
     \<lparr>rs_names = [], rs_reverse = [], rs_db = db, rs_running = False, rs_dirty = False\<rparr>"

text \<open>Reading back the reverse map: keys that are no node identifier are skipped.\<close>

definition load_reverse :: "hex_codec \<Rightarrow> (string, string) hmap \<Rightarrow> (NodeID, string) hmap \<Rightarrow> (NodeID, string) hmap" where
  "load_reverse H kvs rmap =
     foldl (\<lambda>rmap (k, name). case from_hex H k of Inr n \<Rightarrow> hm_insert n name rmap | Inl _ \<Rightarrow> rmap) rmap kvs"

text \<open>\<^verbatim>\<open>trim().is_empty()\<close>, for the ASCII white space.\<close>

definition is_blank :: "string \<Rightarrow> bool" where
  "is_blank s = list_all (\<lambda>c. of_char c \<in> {9, 10, 11, 12, 13, 32 :: nat}) s"

definition registry_load ::
  "registry_json \<Rightarrow> hex_codec \<Rightarrow> RegistryServer \<Rightarrow> RegistryServer \<times> (RegistryError, unit) result" where
  "registry_load J H s =
     (case rs_db s of
        None \<Rightarrow> (s, Inr ())
      | Some data_str \<Rightarrow>
          if is_blank data_str then (s, Inr ())
          else case j_data_parse J data_str of
                 Inl e \<Rightarrow> (s, Inl (SerializeError e))
               | Inr d \<Rightarrow>
                   (s\<lparr>rs_names := rd_names d, rs_reverse := load_reverse H (rd_reverse d) (rs_reverse s)\<rparr>,
                    Inr ()))"

text \<open>What is serialised: the reverse map with hexadecimal keys.\<close>

definition registry_data :: "hex_codec \<Rightarrow> RegistryServer \<Rightarrow> RegistryData" where
  "registry_data H s =
     \<lparr>rd_names = rs_names s,
      rd_reverse = foldl (\<lambda>m (n, name). hm_insert (to_hex H n) name m) [] (rs_reverse s)\<rparr>"

text \<open>\<open>ok\<close>: whether creating the directory and writing the file succeed.\<close>

definition registry_save ::
  "registry_json \<Rightarrow> hex_codec \<Rightarrow> bool \<Rightarrow> RegistryServer \<Rightarrow> RegistryServer \<times> (RegistryError, unit) result" where
  "registry_save J H ok s =
     (let json = j_data J (registry_data H s)
      in if ok then (s\<lparr>rs_db := Some json, rs_dirty := False\<rparr>, Inr ())
         else (s, Inl RegIoError))"

definition registry_save_if_dirty :: "registry_json \<Rightarrow> hex_codec \<Rightarrow> bool \<Rightarrow> RegistryServer \<Rightarrow> RegistryServer" where
  "registry_save_if_dirty J H ok s = (if rs_dirty s then fst (registry_save J H ok s) else s)"

definition start_auto_save :: "RegistryServer \<Rightarrow> RegistryServer" where
  "start_auto_save s = s\<lparr>rs_running := True\<rparr>"

definition stop_auto_save :: "RegistryServer \<Rightarrow> RegistryServer" where
  "stop_auto_save s = s\<lparr>rs_running := False\<rparr>"

record reg_env =
  re_json :: registry_json
  re_hex :: hex_codec
  re_ok :: bool
  re_now :: u64

definition persist :: "reg_env \<Rightarrow> RegistryServer \<Rightarrow> RegistryServer" where
  "persist E s = registry_save_if_dirty (re_json E) (re_hex E) (re_ok E) (s\<lparr>rs_dirty := True\<rparr>)"

definition registry_register ::
  "reg_env \<Rightarrow> string \<Rightarrow> NodeID \<Rightarrow> RegistryServer \<Rightarrow> RegistryServer \<times> (RegistryError, unit) result" where
  "registry_register E name n s =
     (if hm_contains name (rs_names s) then (s, Inl (AlreadyRegistered name))
      else
        let s = s\<lparr>rs_names := hm_insert name (registry_entry_new (re_now E) name n) (rs_names s)\<rparr>;
            s = s\<lparr>rs_reverse := hm_insert n name (rs_reverse s)\<rparr>
        in (persist E s, Inr ()))"

definition registry_upsert ::
  "reg_env \<Rightarrow> string \<Rightarrow> NodeID \<Rightarrow> RegistryServer \<Rightarrow> RegistryServer \<times> (RegistryError, unit) result" where
  "registry_upsert E name n s =
     (let old = map_option re_node_id (hm_get (rs_names s) name);
          s = s\<lparr>rs_names := hm_insert name (registry_entry_new (re_now E) name n) (rs_names s)\<rparr>;
          rmap = (case old of None \<Rightarrow> rs_reverse s | Some old_id \<Rightarrow> hm_remove old_id (rs_reverse s));
          s = s\<lparr>rs_reverse := hm_insert n name rmap\<rparr>
      in (persist E s, Inr ()))"

definition registry_lookup :: "string \<Rightarrow> RegistryServer \<Rightarrow> NodeID option" where
  "registry_lookup name s = map_option re_node_id (hm_get (rs_names s) name)"

definition reverse_lookup :: "NodeID \<Rightarrow> RegistryServer \<Rightarrow> string option" where
  "reverse_lookup n s = hm_get (rs_reverse s) n"

definition list_nodes :: "RegistryServer \<Rightarrow> RegistryEntry list" where
  "list_nodes s = hm_values (rs_names s)"

definition registry_len :: "RegistryServer \<Rightarrow> nat" where
  "registry_len s = hm_len (rs_names s)"

definition registry_is_empty :: "RegistryServer \<Rightarrow> bool" where
  "registry_is_empty s = (registry_len s = 0)"

definition update_heartbeat ::
  "reg_env \<Rightarrow> string \<Rightarrow> RegistryServer \<Rightarrow> RegistryServer \<times> (RegistryError, unit) result" where
  "update_heartbeat E name s =
     (case hm_get (rs_names s) name of
        None \<Rightarrow> (s, Inl (NotFound name))
      | Some e \<Rightarrow>
          (persist E (s\<lparr>rs_names := hm_insert name (registry_entry_touch (re_now E) e) (rs_names s)\<rparr>), Inr ()))"

text \<open>A response: the type byte and the JSON of its payload.\<close>

definition respond :: "RegistryMessageType \<Rightarrow> 'a json_codec \<Rightarrow> 'a \<Rightarrow> bytes option" where
  "respond t J x = map_option (\<lambda>json. rmt_to_u8 t # json) (to_vec J x)"

definition node_info :: "RegistryEntry \<Rightarrow> NodeInfo" where
  "node_info e = \<lparr>ni_name = re_name e, ni_node_id = re_node_id e, ni_registered_at = registered_at e,
                  ni_last_seen = re_last_seen e\<rparr>"

definition quoted_registered :: "string \<Rightarrow> string" where
  "quoted_registered name = ''registered '' @ [CHR 0x27] @ name @ [CHR 0x27]"

definition registry_process_message ::
  "reg_env \<Rightarrow> bytes \<Rightarrow> RegistryServer \<Rightarrow> RegistryServer \<times> bytes option" where
  "registry_process_message E pl s =
     (case pl of
        [] \<Rightarrow> (s, None)
      | b # dat \<Rightarrow>
          (case rmt_from_u8 b of
             None \<Rightarrow> (s, None)
           | Some Register \<Rightarrow>
               (case from_slice (j_register (re_json E)) dat of
                  None \<Rightarrow> (s, None)
                | Some req \<Rightarrow>
                    (case registry_register E (rp_name req) (rp_node_id req) s of
                       (s', Inr _) \<Rightarrow>
                         (s', respond RegisterAck (j_ack (re_json E))
                                \<lparr>success = True, message = quoted_registered (rp_name req)\<rparr>)
                     | (s', Inl e) \<Rightarrow>
                         (s', respond RegisterAck (j_ack (re_json E))
                                \<lparr>success = False, message = registry_error_text e\<rparr>)))
           | Some Lookup \<Rightarrow>
               (case from_slice (j_lookup (re_json E)) dat of
                  None \<Rightarrow> (s, None)
                | Some name \<Rightarrow>
                    let n = registry_lookup name s
                    in (s, respond LookupResponse (j_lookup_response (re_json E))
                             \<lparr>found = (n \<noteq> None), lr_node_id = n\<rparr>))
           | Some ReverseLookup \<Rightarrow>
               (case from_slice (j_reverse (re_json E)) dat of
                  None \<Rightarrow> (s, None)
                | Some n \<Rightarrow>
                    let name = reverse_lookup n s
                    in (s, respond ReverseLookupResponse (j_reverse_response (re_json E))
                             \<lparr>rl_found = (name \<noteq> None), rl_name = name\<rparr>))
           | Some ListNodes \<Rightarrow>
               (let ns = map node_info (list_nodes s)
                in (s, respond ListNodesResponse (j_nodes (re_json E)) \<lparr>nodes = ns, node_total = length ns\<rparr>))
           | Some _ \<Rightarrow> (s, None)))"

section \<open>The cache\<close>

record RegistryCache =
  rc_cache :: "(string, NodeID \<times> instant) hmap"
  rc_ttl :: u64

definition cache_new :: "u64 \<Rightarrow> RegistryCache" where
  "cache_new ttl = \<lparr>rc_cache = [], rc_ttl = ttl\<rparr>"

definition cache_fresh :: "instant \<Rightarrow> RegistryCache \<Rightarrow> instant \<Rightarrow> bool" where
  "cache_fresh now c t = (now - t < unat (rc_ttl c) * 1000)"

definition cache_get :: "instant \<Rightarrow> string \<Rightarrow> RegistryCache \<Rightarrow> NodeID option" where
  "cache_get now name c =
     (case hm_get (rc_cache c) name of
        None \<Rightarrow> None
      | Some (n, t) \<Rightarrow> if cache_fresh now c t then Some n else None)"

definition cache_insert :: "instant \<Rightarrow> string \<Rightarrow> NodeID \<Rightarrow> RegistryCache \<Rightarrow> RegistryCache" where
  "cache_insert now name n c = c\<lparr>rc_cache := hm_insert name (n, now) (rc_cache c)\<rparr>"

definition cache_remove :: "string \<Rightarrow> RegistryCache \<Rightarrow> RegistryCache" where
  "cache_remove name c = c\<lparr>rc_cache := hm_remove name (rc_cache c)\<rparr>"

definition cache_clear :: "RegistryCache \<Rightarrow> RegistryCache" where
  "cache_clear c = c\<lparr>rc_cache := []\<rparr>"

definition cache_len :: "RegistryCache \<Rightarrow> nat" where
  "cache_len c = hm_len (rc_cache c)"

definition cache_cleanup :: "instant \<Rightarrow> RegistryCache \<Rightarrow> RegistryCache" where
  "cache_cleanup now c = c\<lparr>rc_cache := hm_retain (\<lambda>_ (_, t). cache_fresh now c t) (rc_cache c)\<rparr>"

section \<open>The client\<close>

text \<open>
  A request is what \<open>send_message\<close> is called with: the server's address and the message; \<open>sent\<close>
  is its outcome. \<open>to_vec(\<dots>).unwrap()\<close> on a payload that does not serialise panics, which is
  \<open>None\<close> of the outer option.
\<close>

record RegistryClient =
  server_addr :: string
  rcl_cache :: RegistryCache

definition registry_client_new :: "string \<Rightarrow> RegistryClient" where
  "registry_client_new a = \<lparr>server_addr = a, rcl_cache = cache_new DEFAULT_CACHE_TTL\<rparr>"

definition request :: "RegistryMessageType \<Rightarrow> 'a json_codec \<Rightarrow> 'a \<Rightarrow> RegistryClient \<Rightarrow> (string \<times> Message) option" where
  "request t J x c =
     map_option (\<lambda>json. (server_addr c, message_new MRegistry (rmt_to_u8 t # json))) (to_vec J x)"

definition client_register ::
  "registry_json \<Rightarrow> (RelayError, unit) result \<Rightarrow> string \<Rightarrow> NodeID \<Rightarrow> RegistryClient
     \<Rightarrow> ((string \<times> Message) \<times> (RelayError, RegisterAckPayload) result) option" where
  "client_register J sent name n c =
     map_option
       (\<lambda>req. (req, and_then sent (\<lambda>_. Inr \<lparr>success = True, message = ''register request sent''\<rparr>)))
       (request Register (j_register J) \<lparr>rp_name = name, rp_node_id = n\<rparr> c)"

definition client_lookup ::
  "registry_json \<Rightarrow> instant \<Rightarrow> string \<Rightarrow> RegistryClient \<Rightarrow> ((string \<times> Message) list \<times> NodeID option) option" where
  "client_lookup J now name c =
     (case cache_get now name (rcl_cache c) of
        Some n \<Rightarrow> Some ([], Some n)
      | None \<Rightarrow> map_option (\<lambda>req. ([req], None)) (request Lookup (j_lookup J) name c))"

definition client_reverse_lookup ::
  "registry_json \<Rightarrow> NodeID \<Rightarrow> RegistryClient \<Rightarrow> ((string \<times> Message) list \<times> string option) option" where
  "client_reverse_lookup J n c =
     map_option (\<lambda>req. ([req], None)) (request ReverseLookup (j_reverse J) n c)"

text \<open>The four response parsers differ in the type byte and the payload type.\<close>

definition parse_response :: "RegistryMessageType \<Rightarrow> 'a json_codec \<Rightarrow> bytes \<Rightarrow> 'a option" where
  "parse_response t J dat =
     (case dat of [] \<Rightarrow> None | b # r \<Rightarrow> if b \<noteq> rmt_to_u8 t then None else from_slice J r)"

definition parse_register_ack :: "registry_json \<Rightarrow> bytes \<Rightarrow> RegisterAckPayload option" where
  "parse_register_ack J = parse_response RegisterAck (j_ack J)"

definition parse_lookup_response :: "registry_json \<Rightarrow> bytes \<Rightarrow> LookupResponsePayload option" where
  "parse_lookup_response J = parse_response LookupResponse (j_lookup_response J)"

definition parse_reverse_lookup_response :: "registry_json \<Rightarrow> bytes \<Rightarrow> ReverseLookupResponsePayload option" where
  "parse_reverse_lookup_response J = parse_response ReverseLookupResponse (j_reverse_response J)"

definition parse_list_nodes_response :: "registry_json \<Rightarrow> bytes \<Rightarrow> ListNodesResponsePayload option" where
  "parse_list_nodes_response J = parse_response ListNodesResponse (j_nodes J)"

section \<open>The directory is sound\<close>

lemma rmt_from_to [simp]: "rmt_from_u8 (rmt_to_u8 t) = Some t"
  by (cases t) (simp_all add: rmt_from_u8_def)

lemma persist_frame [simp]:
  "rs_names (persist E s) = rs_names s" "rs_reverse (persist E s) = rs_reverse s"
  by (simp_all add: persist_def registry_save_if_dirty_def registry_save_def Let_def)

text \<open>The abstract directory of a server: which node a name stands for.\<close>

definition directory :: "RegistryServer \<Rightarrow> string \<rightharpoonup> NodeID" where
  "directory s = (\<lambda>name. registry_lookup name s)"

lemma directory_register:
  "directory (fst (registry_register E name n s)) =
     (if directory s name = None then (directory s)(name \<mapsto> n) else directory s)"
  "snd (registry_register E name n s) =
     (if directory s name = None then Inr () else Inl (AlreadyRegistered name))"
  by (auto simp: directory_def registry_lookup_def registry_register_def registry_entry_new_def
      hm_contains_def Let_def)

lemma directory_upsert:
  "directory (fst (registry_upsert E name n s)) = (directory s)(name \<mapsto> n)"
  "snd (registry_upsert E name n s) = Inr ()"
  by (auto simp: directory_def registry_lookup_def registry_upsert_def registry_entry_new_def Let_def)

lemma directory_heartbeat: "directory (fst (update_heartbeat E name s)) = directory s"
  by (auto simp: directory_def registry_lookup_def update_heartbeat_def registry_entry_touch_def
      split: option.splits)

definition registry_sound :: "RegistryServer \<Rightarrow> bool" where
  "registry_sound s \<longleftrightarrow> hm_ok (rs_names s) \<and> hm_ok (rs_reverse s)
     \<and> (\<forall>name e. hm_get (rs_names s) name = Some e \<longrightarrow> re_name e = name)
     \<and> (\<forall>n name. reverse_lookup n s = Some name \<longrightarrow> directory s name = Some n)"

lemma registry_soundD:
  "registry_sound s \<Longrightarrow> hm_get (rs_reverse s) n = Some name \<Longrightarrow>
     \<exists>e. hm_get (rs_names s) name = Some e \<and> re_node_id e = n"
  by (auto simp: registry_sound_def reverse_lookup_def directory_def registry_lookup_def)

lemma registry_sound_cong:
  "registry_sound s \<Longrightarrow> rs_names t = rs_names s \<Longrightarrow> rs_reverse t = rs_reverse s \<Longrightarrow> registry_sound t"
  by (simp add: registry_sound_def reverse_lookup_def directory_def registry_lookup_def)

lemma registry_sound_register: "registry_sound s \<Longrightarrow> registry_sound (fst (registry_register E name n s))"
  by (cases "hm_get (rs_names s) name")
     (fastforce simp: registry_register_def registry_sound_def reverse_lookup_def directory_def
        registry_lookup_def hm_contains_def Let_def registry_entry_new_def split: if_splits)+

lemma registry_sound_upsert:
  assumes s: "registry_sound s"
  shows "registry_sound (fst (registry_upsert E name n s))"
proof -
  have "re_node_id e = m" if "hm_get (rs_reverse s) m = Some name" "hm_get (rs_names s) name = Some e" for m e
    using registry_soundD [OF s that(1)] that(2) by simp
  moreover have "hm_get (rs_names s) name \<noteq> None" if "hm_get (rs_reverse s) m = Some name" for m
    using registry_soundD [OF s that] by auto
  ultimately show ?thesis
    using s by (auto simp: registry_upsert_def registry_sound_def reverse_lookup_def directory_def
        registry_lookup_def Let_def registry_entry_new_def split: option.splits if_splits)
qed

lemma registry_sound_heartbeat: "registry_sound s \<Longrightarrow> registry_sound (fst (update_heartbeat E name s))"
  by (fastforce simp: update_heartbeat_def registry_sound_def reverse_lookup_def directory_def
      registry_lookup_def registry_entry_touch_def split: option.splits)

lemma process_message_cases:
  "fst (registry_process_message E pl s) = s
   \<or> (\<exists>name n. fst (registry_process_message E pl s) = fst (registry_register E name n s))"
  by (auto simp: registry_process_message_def Let_def split: list.splits option.splits
      RegistryMessageType.splits prod.splits sum.splits) (metis fst_conv)+

lemma registry_sound_process:
  "registry_sound s \<Longrightarrow> registry_sound (fst (registry_process_message E pl s))"
  using process_message_cases [of E pl s] registry_sound_register by metis

inductive registry_reachable :: "RegistryServer \<Rightarrow> bool" where
  rr_new: "registry_reachable (registry_server_new db)"
| rr_register: "registry_reachable s \<Longrightarrow> registry_reachable (fst (registry_register E name n s))"
| rr_upsert: "registry_reachable s \<Longrightarrow> registry_reachable (fst (registry_upsert E name n s))"
| rr_heartbeat: "registry_reachable s \<Longrightarrow> registry_reachable (fst (update_heartbeat E name s))"
| rr_message: "registry_reachable s \<Longrightarrow> registry_reachable (fst (registry_process_message E pl s))"
| rr_start: "registry_reachable s \<Longrightarrow> registry_reachable (start_auto_save s)"
| rr_stop: "registry_reachable s \<Longrightarrow> registry_reachable (stop_auto_save s)"

lemma registry_reachable_sound: "registry_reachable s \<Longrightarrow> registry_sound s"
proof (induction rule: registry_reachable.induct)
  case (rr_new db)
  then show ?case
    by (simp add: registry_sound_def registry_server_new_def reverse_lookup_def)
next
  case (rr_start s)
  then show ?case by (auto simp: start_auto_save_def intro: registry_sound_cong)
next
  case (rr_stop s)
  then show ?case by (auto simp: stop_auto_save_def intro: registry_sound_cong)
qed (simp_all add: registry_sound_register registry_sound_upsert registry_sound_heartbeat
    registry_sound_process)

text \<open>
  In every server reached by registrations, updates, heartbeats and messages, a
  name that a reverse lookup returns is registered for that very node, every entry is stored
  under its own name, and the node list has one entry per registered name.
\<close>

theorem reverse_lookup_sound:
  assumes "registry_reachable s"
  shows "(\<forall>n name. reverse_lookup n s = Some name \<longrightarrow> registry_lookup name s = Some n)
    \<and> (\<forall>e \<in> set (list_nodes s). registry_lookup (re_name e) s = Some (re_node_id e))
    \<and> distinct (map re_name (list_nodes s)) \<and> registry_len s = card (dom (directory s))"
proof -
  have s: "registry_sound s" using assms by (rule registry_reachable_sound)
  then have "map re_name (hm_values (rs_names s)) = map fst (rs_names s)"
    by (auto simp: hm_values_def registry_sound_def hm_ok_def)
  moreover have "dom (directory s) = dom (hm_get (rs_names s))"
    by (auto simp: directory_def registry_lookup_def dom_def)
  moreover have "registry_lookup (re_name e) s = Some (re_node_id e)" if "e \<in> set (list_nodes s)" for e
    using s that by (fastforce simp: registry_sound_def list_nodes_def hm_values_iff registry_lookup_def)
  ultimately show ?thesis
    using s by (auto simp: registry_sound_def directory_def list_nodes_def hm_ok_def registry_len_def
        hm_len_dom)
qed

text \<open>A demonstration codec: a string preceded by its length in unary.\<close>

definition demo_pair :: "bytes \<Rightarrow> bytes \<Rightarrow> bytes" where
  "demo_pair xs ys = replicate (length xs) 1 @ 0 # xs @ ys"

definition demo_split :: "bytes \<Rightarrow> bytes \<times> bytes" where
  "demo_split bs = (let k = length (takeWhile ((=) 1) bs); r = drop (Suc k) bs in (take k r, drop k r))"

lemma demo_split_pair [simp]: "demo_split (demo_pair xs ys) = (xs, ys)"
proof -
  have "takeWhile ((=) 1) (replicate k 1 @ (0 :: u8) # zs) = replicate k 1" for k zs
    by (induction k) auto
  then show ?thesis by (simp add: demo_split_def demo_pair_def)
qed

definition demo_json :: registry_json where
  "demo_json =
     \<lparr>j_register = \<lparr>to_vec = (\<lambda>r. Some (demo_pair (str_bytes (rp_name r)) (rp_node_id r))),
                     from_slice = (\<lambda>b. let (x, y) = demo_split b in Some \<lparr>rp_name = bytes_str x, rp_node_id = y\<rparr>)\<rparr>,
      j_ack = \<lparr>to_vec = (\<lambda>a. Some ((if success a then 1 else 0) # str_bytes (message a))),
               from_slice = (\<lambda>b. Some \<lparr>success = (hd b = 1), message = bytes_str (tl b)\<rparr>)\<rparr>,
      j_lookup = \<lparr>to_vec = (\<lambda>n. Some (str_bytes n)), from_slice = (\<lambda>b. Some (bytes_str b))\<rparr>,
      j_lookup_response =
        \<lparr>to_vec = (\<lambda>r. Some ((if found r then 1 else 0)
                       # (case lr_node_id r of None \<Rightarrow> [] | Some n \<Rightarrow> 1 # n))),
         from_slice = (\<lambda>b. Some \<lparr>found = (hd b = 1),
                                 lr_node_id = (if tl b = [] then None else Some (tl (tl b)))\<rparr>)\<rparr>,
      j_reverse = \<lparr>to_vec = Some, from_slice = Some\<rparr>,
      j_reverse_response =
        \<lparr>to_vec = (\<lambda>r. Some ((if rl_found r then 1 else 0)
                       # (case rl_name r of None \<Rightarrow> [] | Some n \<Rightarrow> 1 # str_bytes n))),
         from_slice = (\<lambda>b. Some \<lparr>rl_found = (hd b = 1),
                                 rl_name = (if tl b = [] then None else Some (bytes_str (tl (tl b))))\<rparr>)\<rparr>,
      j_nodes = \<lparr>to_vec = (\<lambda>_. None), from_slice = (\<lambda>_. None)\<rparr>,
      j_data = (\<lambda>_. ''{}''), j_data_parse = (\<lambda>_. Inl ''unused'')\<rparr>"

text \<open>What the messages rely on: serde's JSON gives back every payload that was written.\<close>

definition registry_json_ok :: "registry_json \<Rightarrow> bool" where
  "registry_json_ok J \<longleftrightarrow>
     (\<forall>x. json_trips (j_register J) x) \<and> (\<forall>x. json_trips (j_ack J) x) \<and> (\<forall>x. json_trips (j_lookup J) x)
     \<and> (\<forall>x. json_trips (j_lookup_response J) x) \<and> (\<forall>x. json_trips (j_reverse J) x)
     \<and> (\<forall>x. json_trips (j_reverse_response J) x)"

lemma demo_json_ok: "registry_json_ok demo_json"
  by (simp add: registry_json_ok_def json_trips_def demo_json_def split: option.splits)

section \<open>Client and server\<close>

lemma json_tripsE:
  assumes "json_trips J x"
  obtains b where "to_vec J x = Some b" "from_slice J b = Some x"
  using assms by (auto simp: json_trips_def split: option.splits)

lemma parse_respond: "json_trips J x \<Longrightarrow> \<exists>b. respond t J x = Some b \<and> parse_response t J b = Some x"
  by (erule json_tripsE) (simp add: respond_def parse_response_def)

lemma request_payload:
  "request t J x c = Some (a, m) \<Longrightarrow> json_trips J x \<Longrightarrow>
     a = server_addr c \<and> msg_type m = MRegistry \<and> (\<exists>b. payload m = rmt_to_u8 t # b \<and> from_slice J b = Some x)"
  by (erule json_tripsE) (auto simp: request_def message_new_def)

text \<open>
  C20. The registry implements a directory from names to nodes over its messages. The
  client's registration request, handed to the server, adds the name if it is free and answers
  whether it did; the client's lookup request is answered with the directory's entry and its
  reverse request with the name recorded for the node, and neither changes the server.
\<close>

theorem registry_serves_directory:
  assumes J: "re_json E = J" "registry_json_ok J"
  shows "(\<forall>req r. client_register J sent name n c = Some (req, r) \<longrightarrow>
           fst req = server_addr c \<and>
           (let (s', resp) = registry_process_message E (payload (snd req)) s
            in (\<exists>b ack. resp = Some b \<and> parse_register_ack J b = Some ack
                  \<and> success ack = (directory s name = None))
               \<and> directory s' = (if directory s name = None then (directory s)(name \<mapsto> n) else directory s)))
    \<and> (\<forall>req r. client_lookup J now name c = Some ([req], r) \<longrightarrow>
           (let (s', resp) = registry_process_message E (payload (snd req)) s
            in s' = s \<and> (\<exists>b. resp = Some b \<and> parse_lookup_response J b
                  = Some \<lparr>found = (directory s name \<noteq> None), lr_node_id = directory s name\<rparr>)))
    \<and> (\<forall>req r. client_reverse_lookup J n c = Some ([req], r) \<longrightarrow>
           (let (s', resp) = registry_process_message E (payload (snd req)) s
            in s' = s \<and> (\<exists>b. resp = Some b \<and> parse_reverse_lookup_response J b
                  = Some \<lparr>rl_found = (reverse_lookup n s \<noteq> None), rl_name = reverse_lookup n s\<rparr>)))"
proof (intro conjI allI impI)
  fix req r
  assume "client_register J sent name n c = Some (req, r)"
  then have rq: "request Register (j_register J) \<lparr>rp_name = name, rp_node_id = n\<rparr> c = Some (fst req, snd req)"
    by (auto simp: client_register_def)
  obtain b where b: "payload (snd req) = rmt_to_u8 Register # b"
    "from_slice (j_register J) b = Some \<lparr>rp_name = name, rp_node_id = n\<rparr>" "fst req = server_addr c"
    using request_payload [OF rq] J by (auto simp: registry_json_ok_def)
  show "fst req = server_addr c" by (rule b)
  have ack: "\<exists>b. respond RegisterAck (j_ack J) a = Some b \<and> parse_response RegisterAck (j_ack J) b = Some a" for a
    using J by (intro parse_respond) (simp add: registry_json_ok_def)
  show "let (s', resp) = registry_process_message E (payload (snd req)) s
        in (\<exists>b ack. resp = Some b \<and> parse_register_ack J b = Some ack \<and> success ack = (directory s name = None))
           \<and> directory s' = (if directory s name = None then (directory s)(name \<mapsto> n) else directory s)"
    using directory_register [of E name n s] b ack J
    by (cases "registry_register E name n s", cases "snd (registry_register E name n s)")
       (fastforce simp: registry_process_message_def parse_register_ack_def simp del: rmt_to_u8.simps split: if_splits)+
next
  fix req r
  assume "client_lookup J now name c = Some ([req], r)"
  then have rq: "request Lookup (j_lookup J) name c = Some (fst req, snd req)"
    by (auto simp: client_lookup_def split: option.splits)
  then show "let (s', resp) = registry_process_message E (payload (snd req)) s
        in s' = s \<and> (\<exists>b. resp = Some b \<and> parse_lookup_response J b
              = Some \<lparr>found = (directory s name \<noteq> None), lr_node_id = directory s name\<rparr>)"
    using request_payload [OF rq] J parse_respond [of "j_lookup_response J"]
    by (fastforce simp: registry_json_ok_def registry_process_message_def parse_lookup_response_def
        directory_def Let_def simp del: rmt_to_u8.simps)
next
  fix req r
  assume "client_reverse_lookup J n c = Some ([req], r)"
  then have rq: "request ReverseLookup (j_reverse J) n c = Some (fst req, snd req)"
    by (auto simp: client_reverse_lookup_def)
  then show "let (s', resp) = registry_process_message E (payload (snd req)) s
        in s' = s \<and> (\<exists>b. resp = Some b \<and> parse_reverse_lookup_response J b
              = Some \<lparr>rl_found = (reverse_lookup n s \<noteq> None), rl_name = reverse_lookup n s\<rparr>)"
    using request_payload [OF rq] J parse_respond [of "j_reverse_response J"]
    by (fastforce simp: registry_json_ok_def registry_process_message_def parse_reverse_lookup_response_def
        Let_def simp del: rmt_to_u8.simps)
qed

definition demo_env :: "registry_json \<Rightarrow> reg_env" where
  "demo_env J = \<lparr>re_json = J, re_hex = \<lparr>hex_encode = bytes_str, hex_decode = (\<lambda>t. Inr (str_bytes t))\<rparr>,
                 re_ok = True, re_now = 5\<rparr>"

theorem registry_serves_directory_witness:
  "directory (fst (registry_process_message (demo_env demo_json)
     (1 # demo_pair (str_bytes ''web'') [7]) (registry_server_new None))) = [''web'' \<mapsto> [7]]"
proof -
  have "client_register demo_json (Inr ()) ''web'' [7] (registry_client_new ''c'')
      = Some ((''c'', message_new MRegistry (1 # demo_pair (str_bytes ''web'') [7])),
              Inr \<lparr>success = True, message = ''register request sent''\<rparr>)"
    by (simp add: client_register_def request_def demo_json_def registry_client_new_def)
  moreover have "directory (registry_server_new None) = Map.empty"
    by (simp add: directory_def registry_lookup_def registry_server_new_def)
  moreover have "re_json (demo_env demo_json) = demo_json"
    by (simp add: demo_env_def)
  ultimately show ?thesis
    using conjunct1 [OF registry_serves_directory [of "demo_env demo_json" demo_json "Inr ()" "''web''" "[7]"
          "registry_client_new ''c''" "registry_server_new None"]] demo_json_ok
    by (simp add: case_prod_unfold message_new_def Let_def)
qed

theorem reverse_lookup_sound_witness:
  "registry_lookup ''web'' (fst (registry_upsert (demo_env demo_json) ''web'' [7] (registry_server_new None))) = Some [7]"
proof -
  let ?s = "fst (registry_upsert (demo_env demo_json) ''web'' [7] (registry_server_new None))"
  have "reverse_lookup [7] ?s = Some ''web''"
    by (simp add: registry_upsert_def reverse_lookup_def Let_def)
  moreover have "registry_reachable ?s"
    by (intro rr_upsert rr_new)
  ultimately show ?thesis
    using reverse_lookup_sound [of ?s] by blast
qed

text \<open>
  Two names of one node: moving one of them to another node removes the node from
  the reverse map although the other name still stands for it.
\<close>

theorem upsert_forgets_other_name:
  assumes "registry_lookup a s = Some n" "registry_lookup b s = Some n" "a \<noteq> b" "n \<noteq> n'"
  shows "let s' = fst (registry_upsert E a n' s)
    in registry_lookup b s' = Some n \<and> reverse_lookup n s' = None"
  using assms by (auto simp: registry_upsert_def registry_lookup_def reverse_lookup_def Let_def)

theorem upsert_forgets_other_name_witness:
  "let E = demo_env demo_json;
       s = fst (registry_register E ''b'' [7] (fst (registry_register E ''a'' [7] (registry_server_new None))))
   in reverse_lookup [7] (fst (registry_upsert E ''a'' [8] s)) = None"
  using upsert_forgets_other_name [where a = "''a''" and b = "''b''" and n = "[7]" and n' = "[8]"
      and E = "demo_env demo_json"
      and s = "fst (registry_register (demo_env demo_json) ''b'' [7]
                 (fst (registry_register (demo_env demo_json) ''a'' [7] (registry_server_new None))))"]
  by (simp add: registry_register_def registry_lookup_def registry_entry_new_def registry_server_new_def
      hm_contains_def Let_def)

section \<open>The file\<close>

text \<open>
  What a restart relies on: the text of the saved data is not blank and parses to maps with the
  same entries (in whatever order).
\<close>

definition json_file_ok :: "registry_json \<Rightarrow> RegistryData \<Rightarrow> bool" where
  "json_file_ok J d \<longleftrightarrow> \<not> is_blank (j_data J d) \<and>
     (case j_data_parse J (j_data J d) of
        Inl _ \<Rightarrow> False
      | Inr d' \<Rightarrow> hm_get (rd_names d') = hm_get (rd_names d) \<and> hm_get (rd_reverse d') = hm_get (rd_reverse d)
                 \<and> hm_ok (rd_names d') \<and> hm_ok (rd_reverse d'))"

lemma save_reverse_get:
  assumes "hex_correct H"
  shows "hm_get (foldl (\<lambda>m (n, name). hm_insert (to_hex H n) name m) [] kvs) (to_hex H n) = map_of (rev kvs) n"
  using assms by (induction kvs rule: rev_induct) (auto simp: to_hex_inject)

lemma save_reverse_keys:
  "hm_get (foldl (\<lambda>m (n, name). hm_insert (to_hex H n) name m) [] kvs) k \<noteq> None \<Longrightarrow>
     \<exists>n \<in> fst ` set kvs. k = to_hex H n"
  by (induction kvs rule: rev_induct) (auto split: if_splits)

lemma load_reverse_get:
  assumes "hex_correct H" "\<forall>k \<in> fst ` set kvs. \<exists>n. node_ok n \<and> k = to_hex H n" "node_ok n"
  shows "hm_get (load_reverse H kvs []) n = map_of (rev kvs) (to_hex H n)"
  using assms(2)
proof (induction kvs rule: rev_induct)
  case (snoc x kvs)
  obtain k v where x: "x = (k, v)" by force
  with snoc.prems obtain m where m: "node_ok m" "k = to_hex H m" by auto
  then have "from_hex H k = Inr m" using assms(1) by (simp add: from_hex_to_hex)
  with snoc x m show ?case
    using assms(1) by (auto simp: load_reverse_def to_hex_inject)
qed (simp add: load_reverse_def)

text \<open>
  A server that saved its data and is started again from the file answers every lookup
  and every reverse lookup as before.
\<close>

theorem registry_restart:
  assumes H: "hex_correct H" and J: "json_file_ok J (registry_data H s)"
    and s: "hm_ok (rs_reverse s)" "\<forall>n \<in> fst ` set (rs_reverse s). node_ok n"
  shows "let (s', r) = registry_save J H True s;
             (t, r') = registry_load J H (registry_server_new (rs_db s'))
         in r = Inr () \<and> r' = Inr () \<and> rs_dirty s' = False \<and> directory t = directory s
            \<and> (\<forall>n. node_ok n \<longrightarrow> reverse_lookup n t = reverse_lookup n s)"
proof -
  let ?d = "registry_data H s"
  obtain d' where d': "j_data_parse J (j_data J ?d) = Inr d'" "\<not> is_blank (j_data J ?d)"
    "hm_get (rd_names d') = hm_get (rs_names s)" "hm_get (rd_reverse d') = hm_get (rd_reverse ?d)"
    "hm_ok (rd_reverse d')"
    using J by (auto simp: json_file_ok_def registry_data_def split: sum.splits)
  have keys: "\<forall>k \<in> fst ` set (rd_reverse d'). \<exists>n. node_ok n \<and> k = to_hex H n"
  proof
    fix k assume "k \<in> fst ` set (rd_reverse d')"
    then have "hm_get (rd_reverse ?d) k \<noteq> None"
      using d'(4) by (metis map_of_eq_None_iff)
    then show "\<exists>n. node_ok n \<and> k = to_hex H n"
      using save_reverse_keys [of H "rs_reverse s" k] s(2) by (auto simp: registry_data_def)
  qed
  have "hm_get (load_reverse H (rd_reverse d') []) n = hm_get (rs_reverse s) n" if "node_ok n" for n
    using load_reverse_get [OF H keys that] d'(4,5) s(1) save_reverse_get [OF H, of "rs_reverse s" n]
    by (simp add: map_of_rev registry_data_def)
  then show ?thesis
    using d'(1-3) by (simp add: registry_save_def registry_load_def registry_server_new_def directory_def
        registry_lookup_def reverse_lookup_def)
qed

definition demo_server :: RegistryServer where
  "demo_server = fst (registry_register (demo_env demo_json) ''web'' (replicate 32 7) (registry_server_new None))"

theorem registry_restart_witness:
  "let H = re_hex (demo_env demo_json);
       J = demo_json\<lparr>j_data_parse := (\<lambda>_. Inr (registry_data H demo_server))\<rparr>
   in directory (fst (registry_load J H (registry_server_new (rs_db (fst (registry_save J H True demo_server))))))
        ''web'' = Some (replicate 32 7)"
proof -
  let ?H = "re_hex (demo_env demo_json)"
  let ?J = "demo_json\<lparr>j_data_parse := (\<lambda>_. Inr (registry_data ?H demo_server))\<rparr>"
  have srv: "rs_names demo_server = [(''web'', registry_entry_new 5 ''web'' (replicate 32 7))]"
    "rs_reverse demo_server = [(replicate 32 7, ''web'')]"
    by (simp_all add: demo_server_def registry_register_def registry_server_new_def Let_def hm_contains_def
        hm_insert_def) (simp add: demo_env_def)
  have "hex_correct ?H"
    by (simp add: hex_correct_def demo_env_def)
  moreover have "json_file_ok ?J (registry_data ?H demo_server)"
    by (simp add: json_file_ok_def demo_json_def is_blank_def registry_data_def srv hm_insert_def hm_ok_def)
  moreover have "directory demo_server ''web'' = Some (replicate 32 7)"
    by (simp add: directory_def registry_lookup_def srv registry_entry_new_def)
  ultimately show ?thesis
    using registry_restart [of ?H ?J demo_server] srv
    by (simp add: case_prod_unfold hm_ok_def node_ok_def Let_def)
qed

section \<open>The cache\<close>

definition cache_ok :: "RegistryCache \<Rightarrow> bool" where
  "cache_ok c = hm_ok (rc_cache c)"

definition cache_life :: "RegistryCache \<Rightarrow> nat" where
  "cache_life c = unat (rc_ttl c) * 1000"

lemma cache_fresh_frame [simp]: "cache_fresh now (c\<lparr>rc_cache := m\<rparr>) t = cache_fresh now c t"
  by (simp add: cache_fresh_def)

interpretation rc: expiring_map cache_get cache_insert cache_cleanup cache_life cache_ok
proof
  fix t t' k k' v and c :: RegistryCache
  show "t \<le> t' \<Longrightarrow> cache_get t' k' (cache_insert t k v c) =
      (if k' = k then if t' - t < cache_life c then Some v else None else cache_get t' k' c)"
    by (auto simp: cache_get_def cache_insert_def split: option.splits) (simp_all add: cache_fresh_def cache_life_def)
  show "cache_ok c \<Longrightarrow> t \<le> t' \<Longrightarrow> cache_get t' k (cache_cleanup t c) = cache_get t' k c"
    by (simp add: cache_get_def cache_cleanup_def cache_ok_def hm_get_retain split: option.splits)
       (auto simp: cache_fresh_def)
qed (simp_all add: cache_life_def cache_ok_def cache_insert_def cache_cleanup_def)

text \<open>
  A cached name is answered without a request for exactly the cache's time to live,
  whatever other names are cached and whenever expired entries are removed in between; after
  that the client asks the server again, and returns no node.
\<close>

theorem client_lookup_cached:
  assumes "cache_ok c" "\<not> rc.puts name ops" "\<forall>(u, _) \<in> set ops. u \<le> t'" "t \<le> t'"
    and J: "registry_json_ok J"
  shows "let cl = \<lparr>server_addr = a, rcl_cache = rc.cache_run ops (cache_insert t name n c)\<rparr>
    in (t' - t < unat (rc_ttl c) * 1000 \<longrightarrow> client_lookup J t' name cl = Some ([], Some n))
     \<and> (t' - t \<ge> unat (rc_ttl c) * 1000 \<longrightarrow> (\<exists>req. client_lookup J t' name cl = Some ([req], None) \<and> fst req = a))"
proof -
  obtain b where "to_vec (j_lookup J) name = Some b"
    using J by (meson json_tripsE registry_json_ok_def)
  then show ?thesis
    using rc.cache_served [OF assms(1-4), of n]
    by (auto simp: client_lookup_def cache_life_def request_def)
qed

theorem client_lookup_cached_witness:
  "client_lookup demo_json 59999 ''web''
     \<lparr>server_addr = ''c'', rcl_cache = rc.cache_run [(100, CClean)] (cache_insert 0 ''web'' [7] (cache_new DEFAULT_CACHE_TTL))\<rparr>
   = Some ([], Some [7])"
  using client_lookup_cached [of "cache_new DEFAULT_CACHE_TTL" "''web''" "[(100, CClean)]" 59999 0 demo_json "''c''" "[7]"]
    demo_json_ok
  by (simp add: cache_ok_def cache_new_def DEFAULT_CACHE_TTL_def rc.puts_def)

end
