(* ===== verification/Session.thy ===== *)
theory Session
  imports Identity HashMap
begin

text \<open>
  Encrypted sessions, \<^verbatim>\<open>crates/vpn/src/vpn/session.rs\<close>: the session state machine, its counters and
  keys, and the manager's table of sessions by remote node. Times are milliseconds; the bytes of an
  erased key are gone, so the random overwriting before \<^verbatim>\<open>clear()\<close> is not visible. A
  \<^verbatim>\<open>SessionGuard\<close> is never handed out (\<open>get_mut\<close> always returns \<open>None\<close>).
\<close>

definition DEFAULT_SESSION_TIMEOUT_SECS :: nat where "DEFAULT_SESSION_TIMEOUT_SECS = 1800"
definition DEFAULT_KEY_ROTATION_SECS :: nat where "DEFAULT_KEY_ROTATION_SECS = 86400"

datatype SessionError = SessNotFound string | InvalidState string | Expired string | CreationFailed string

datatype SessionState = Init | Handshake | SessEstablished | Closing | SessClosed

fun show_state :: "SessionState \<Rightarrow> string" where
  "show_state Init = ''INIT''"
| "show_state Handshake = ''HANDSHAKE''"
| "show_state SessEstablished = ''ESTABLISHED''"
| "show_state Closing = ''CLOSING''"
| "show_state SessClosed = ''CLOSED''"

record SessionKeys =
  send_key :: bytes
  recv_key :: bytes
  sk_created_at :: instant

definition session_keys_new :: "instant \<Rightarrow> bytes \<Rightarrow> bytes \<Rightarrow> SessionKeys" where
  "session_keys_new now k1 k2 = \<lparr>send_key = k1, recv_key = k2, sk_created_at = now\<rparr>"

definition needs_rotation :: "instant \<Rightarrow> SessionKeys \<Rightarrow> bool" where
  "needs_rotation now k = (now - sk_created_at k > DEFAULT_KEY_ROTATION_SECS * 1000)"

definition secure_erase :: "SessionKeys \<Rightarrow> SessionKeys" where
  "secure_erase k = k\<lparr>send_key := [], recv_key := []\<rparr>"

record Session =
  sess_id :: string
  sess_local_id :: NodeID
  sess_remote_id :: NodeID
  sess_state :: SessionState
  sess_keys :: "SessionKeys option"
  sess_created_at :: instant
  last_active :: instant
  sess_timeout :: nat
  send_counter :: u64
  recv_counter :: u64

definition session_new :: "hex_codec \<Rightarrow> instant \<Rightarrow> NodeID \<Rightarrow> NodeID \<Rightarrow> Session" where
  "session_new H now l r =
     \<lparr>sess_id = take 8 (to_hex H l) @ ''-'' @ take 8 (to_hex H r), sess_local_id = l, sess_remote_id = r,
      sess_state = Init, sess_keys = None, sess_created_at = now, last_active = now,
      sess_timeout = DEFAULT_SESSION_TIMEOUT_SECS * 1000, send_counter = 0, recv_counter = 0\<rparr>"

definition session_with_timeout :: "hex_codec \<Rightarrow> instant \<Rightarrow> NodeID \<Rightarrow> NodeID \<Rightarrow> nat \<Rightarrow> Session" where
  "session_with_timeout H now l r t = (session_new H now l r)\<lparr>sess_timeout := t\<rparr>"

definition session_is_expired :: "instant \<Rightarrow> Session \<Rightarrow> bool" where
  "session_is_expired now s = (now - last_active s > sess_timeout s)"

definition session_is_active :: "instant \<Rightarrow> Session \<Rightarrow> bool" where
  "session_is_active now s = (sess_state s = SessEstablished \<and> \<not> session_is_expired now s)"

definition session_touch :: "instant \<Rightarrow> Session \<Rightarrow> Session" where
  "session_touch now s = s\<lparr>last_active := now\<rparr>"

fun valid_transitions :: "SessionState \<Rightarrow> SessionState list" where
  "valid_transitions Init = [Handshake, SessClosed]"
| "valid_transitions Handshake = [SessEstablished, SessClosed]"
| "valid_transitions SessEstablished = [Closing]"
| "valid_transitions Closing = [SessClosed]"
| "valid_transitions SessClosed = []"

definition transition :: "instant \<Rightarrow> SessionState \<Rightarrow> Session \<Rightarrow> Session \<times> (SessionError, unit) result" where
  "transition now st s =
     (if st \<in> set (valid_transitions (sess_state s))
      then (session_touch now (s\<lparr>sess_state := st\<rparr>), Inr ())
      else (s, Inl (InvalidState (''cannot transition from '' @ show_state (sess_state s)
                      @ '' to '' @ show_state st))))"

definition session_set_keys :: "instant \<Rightarrow> bytes \<Rightarrow> bytes \<Rightarrow> Session \<Rightarrow> Session" where
  "session_set_keys now k1 k2 s = session_touch now (s\<lparr>sess_keys := Some (session_keys_new now k1 k2)\<rparr>)"

definition needs_key_rotation :: "instant \<Rightarrow> Session \<Rightarrow> bool" where
  "needs_key_rotation now s = (case sess_keys s of None \<Rightarrow> False | Some k \<Rightarrow> needs_rotation now k)"

text \<open>The keys that are taken out of the session and erased are the second component.\<close>

definition secure_close :: "Session \<Rightarrow> Session \<times> SessionKeys option" where
  "secure_close s = (s\<lparr>sess_keys := None, sess_state := SessClosed\<rparr>, map_option secure_erase (sess_keys s))"

definition next_send_counter :: "instant \<Rightarrow> Session \<Rightarrow> Session \<times> u64" where
  "next_send_counter now s =
     (session_touch now (s\<lparr>send_counter := send_counter s + 1\<rparr>), send_counter s)"

definition verify_recv_counter :: "instant \<Rightarrow> u64 \<Rightarrow> Session \<Rightarrow> Session \<times> (SessionError, unit) result" where
  "verify_recv_counter now c s =
     (if c < recv_counter s
      then (s, Inl (InvalidState (''counter '' @ show_nat (unat c) @ '' < expected ''
                      @ show_nat (unat (recv_counter s)))))
      else (session_touch now (s\<lparr>recv_counter := c + 1\<rparr>), Inr ()))"

section \<open>The manager\<close>

record SessionManager =
  sessions :: "(NodeID, Session) hmap"
  sm_local_id :: NodeID
  default_timeout :: nat

definition session_manager_new :: "NodeID \<Rightarrow> SessionManager" where
  "session_manager_new l =
     \<lparr>sessions = [], sm_local_id = l, default_timeout = DEFAULT_SESSION_TIMEOUT_SECS * 1000\<rparr>"

definition session_manager_with_timeout :: "NodeID \<Rightarrow> nat \<Rightarrow> SessionManager" where
  "session_manager_with_timeout l t = \<lparr>sessions = [], sm_local_id = l, default_timeout = t\<rparr>"

definition sess_get_or_create ::
  "hex_codec \<Rightarrow> instant \<Rightarrow> NodeID \<Rightarrow> SessionManager \<Rightarrow> SessionManager \<times> Session" where
  "sess_get_or_create H now r m =
     (let fresh = session_with_timeout H now (sm_local_id m) r (default_timeout m);
          create = (m\<lparr>sessions := hm_insert r fresh (sessions m)\<rparr>, fresh)
      in case hm_get (sessions m) r of
           Some s \<Rightarrow> if \<not> session_is_expired now s then (m, s) else create
         | None \<Rightarrow> create)"

definition sess_get :: "NodeID \<Rightarrow> SessionManager \<Rightarrow> Session option" where
  "sess_get r m = hm_get (sessions m) r"

text \<open>\<^verbatim>\<open>get_mut\<close> on the table followed by an operation on the session.\<close>

definition with_session ::
  "hex_codec \<Rightarrow> NodeID \<Rightarrow> (Session \<Rightarrow> Session \<times> (SessionError, unit) result) \<Rightarrow> SessionManager
     \<Rightarrow> SessionManager \<times> (SessionError, unit) result" where
  "with_session H r f m =
     (case hm_get (sessions m) r of
        None \<Rightarrow> (m, Inl (SessNotFound (to_hex H r)))
      | Some s \<Rightarrow> let (s', res) = f s in (m\<lparr>sessions := hm_insert r s' (sessions m)\<rparr>, res))"

definition update_state ::
  "hex_codec \<Rightarrow> instant \<Rightarrow> NodeID \<Rightarrow> SessionState \<Rightarrow> SessionManager
     \<Rightarrow> SessionManager \<times> (SessionError, unit) result" where
  "update_state H now r st m = with_session H r (transition now st) m"

definition manager_set_keys ::
  "hex_codec \<Rightarrow> instant \<Rightarrow> NodeID \<Rightarrow> bytes \<Rightarrow> bytes \<Rightarrow> SessionManager
     \<Rightarrow> SessionManager \<times> (SessionError, unit) result" where
  "manager_set_keys H now r k1 k2 m = with_session H r (\<lambda>s. (session_set_keys now k1 k2 s, Inr ())) m"

definition sess_remove :: "NodeID \<Rightarrow> SessionManager \<Rightarrow> SessionManager \<times> Session option" where
  "sess_remove r m = (m\<lparr>sessions := hm_remove r (sessions m)\<rparr>, hm_get (sessions m) r)"

definition secure_remove :: "NodeID \<Rightarrow> SessionManager \<Rightarrow> SessionManager" where
  "secure_remove r m = m\<lparr>sessions := hm_remove r (sessions m)\<rparr>"

definition cleanup_expired :: "instant \<Rightarrow> SessionManager \<Rightarrow> SessionManager \<times> NodeID list" where
  "cleanup_expired now m =
     (let expired = map fst (filter (\<lambda>(_, s). session_is_expired now s) (sessions m))
      in (m\<lparr>sessions := foldl (\<lambda>t r. hm_remove r t) (sessions m) expired\<rparr>, expired))"

definition active_sessions :: "instant \<Rightarrow> SessionManager \<Rightarrow> Session list" where
  "active_sessions now m = filter (session_is_active now) (hm_values (sessions m))"

definition session_count :: "SessionManager \<Rightarrow> nat" where
  "session_count m = hm_len (sessions m)"

definition has_active_session :: "instant \<Rightarrow> NodeID \<Rightarrow> SessionManager \<Rightarrow> bool" where
  "has_active_session now r m =
     (case hm_get (sessions m) r of None \<Rightarrow> False | Some s \<Rightarrow> session_is_active now s)"

definition manager_touch ::
  "hex_codec \<Rightarrow> instant \<Rightarrow> NodeID \<Rightarrow> SessionManager \<Rightarrow> SessionManager \<times> (SessionError, unit) result" where
  "manager_touch H now r m = with_session H r (\<lambda>s. (session_touch now s, Inr ())) m"

section \<open>The state machine ends\<close>

fun state_rank :: "SessionState \<Rightarrow> nat" where
  "state_rank Init = 0"
| "state_rank Handshake = 1"
| "state_rank SessEstablished = 2"
| "state_rank Closing = 3"
| "state_rank SessClosed = 4"

text \<open>Requested transitions with their times, applied one after the other; the accepted ones.\<close>

fun transitions :: "(instant \<times> SessionState) list \<Rightarrow> Session \<Rightarrow> Session \<times> SessionState list" where
  "transitions [] s = (s, [])"
| "transitions ((now, st) # rs) s =
     (case transition now st s of
        (s', Inl _) \<Rightarrow> transitions rs s'
      | (s', Inr _) \<Rightarrow> let (s'', sts) = transitions rs s' in (s'', st # sts))"

lemma valid_rank: "u \<in> set (valid_transitions st) \<Longrightarrow> state_rank st < state_rank u"
  by (cases st) auto

lemma transition_cases:
  obtains (acc) s' where "transition now st s = (s', Inr ())" "sess_state s' = st"
      "st \<in> set (valid_transitions (sess_state s))"
  | (rej) e where "transition now st s = (s, Inl e)"
  by (cases "st \<in> set (valid_transitions (sess_state s))") (auto simp: transition_def session_touch_def)

lemma transitions_path:
  assumes "transitions rs s = (s', sts)"
  shows "successively (\<lambda>a b. b \<in> set (valid_transitions a)) (sess_state s # sts)
    \<and> sess_state s' = last (sess_state s # sts)"
  using assms
proof (induction rs arbitrary: s sts)
  case (Cons r rs)
  obtain now st where r: "r = (now, st)" by force
  show ?case
  proof (cases now st s rule: transition_cases)
    case (acc t)
    then obtain sts' where "sts = st # sts'" "transitions rs t = (s', sts')"
      using Cons.prems r by (auto simp: Let_def split: prod.splits)
    with Cons.IH [of t sts'] acc show ?thesis by (cases sts') auto
  next
    case (rej e)
    with Cons r show ?thesis by simp
  qed
qed simp

lemma path_length:
  "successively (\<lambda>a b. b \<in> set (valid_transitions a)) (st # sts) \<Longrightarrow> length sts + state_rank st \<le> 4"
proof (induction sts arbitrary: st)
  case (Cons u us)
  then have "state_rank st < state_rank u" "length us + state_rank u \<le> 4"
    by (simp_all add: valid_rank)
  then show ?case by simp
next
  case Nil
  then show ?case by (cases st) auto
qed


section \<open>Counters\<close>

text \<open>The counters of arriving packets, with their times; those that are accepted.\<close>

fun recv_all :: "(instant \<times> u64) list \<Rightarrow> Session \<Rightarrow> Session \<times> u64 list" where
  "recv_all [] s = (s, [])"
| "recv_all ((now, c) # ps) s =
     (case verify_recv_counter now c s of
        (s', Inl _) \<Rightarrow> recv_all ps s'
      | (s', Inr _) \<Rightarrow> let (s'', cs) = recv_all ps s' in (s'', c # cs))"

lemma verify_cases:
  obtains (old) e where "c < recv_counter s" "verify_recv_counter now c s = (s, Inl e)"
  | (new) s' where "recv_counter s \<le> c" "verify_recv_counter now c s = (s', Inr ())" "recv_counter s' = c + 1"
  by (cases "c < recv_counter s") (auto simp: verify_recv_counter_def session_touch_def)

lemma less_plus_one:
  fixes c d :: u64
  assumes "c \<noteq> - 1"
  shows "c + 1 \<le> d \<longleftrightarrow> c < d"
proof -
  have "unat c \<noteq> unat (- 1 :: u64)" using assms unsigned_word_eqI by blast
  then have "unat c + 1 < 2 ^ LENGTH(64)"
    using unsigned_less [of c, where 'a = nat] by (simp add: unat_max_word)
  then show ?thesis
    by (simp add: word_le_nat_alt word_less_nat_alt unat_add_one Suc_le_eq)
qed

lemma recv_all_increasing:
  assumes "\<forall>(t, c) \<in> set ps. c \<noteq> - 1" "recv_all ps s = (s', acc)"
  shows "sorted_wrt (<) acc \<and> (\<forall>c \<in> set acc. recv_counter s \<le> c)"
  using assms
proof (induction ps arbitrary: s acc)
  case (Cons p ps)
  obtain now c where p: "p = (now, c)" by force
  show ?case
  proof (rule verify_cases [of c s now])
    fix e
    assume "c < recv_counter s" "verify_recv_counter now c s = (s, Inl e)"
    with Cons p show ?thesis by auto
  next
    fix t
    assume new: "recv_counter s \<le> c" "verify_recv_counter now c s = (t, Inr ())" "recv_counter t = c + 1"
    then obtain cs where cs: "acc = c # cs" "recv_all ps t = (s', cs)"
      using Cons.prems p by (auto simp: Let_def split: prod.splits)
    then have "sorted_wrt (<) cs \<and> (\<forall>d \<in> set cs. c + 1 \<le> d)"
      using Cons.IH [of t cs] Cons.prems(1) p new by auto
    moreover have "c \<noteq> - 1" using Cons.prems(1) p by auto
    ultimately show ?thesis
      using cs new by (fastforce simp: less_plus_one)
  qed
qed simp

lemma recv_all_accepts:
  assumes "sorted_wrt (<) (map snd ps)" "\<forall>(t, c) \<in> set ps. recv_counter s \<le> c \<and> c \<noteq> - 1"
  shows "snd (recv_all ps s) = map snd ps"
  using assms
proof (induction ps arbitrary: s)
  case (Cons p ps)
  obtain now c where p: "p = (now, c)" by force
  show ?case
  proof (rule verify_cases [of c s now])
    fix e
    assume "c < recv_counter s"
    with Cons.prems p show ?thesis by auto
  next
    fix t
    assume new: "recv_counter s \<le> c" "verify_recv_counter now c s = (t, Inr ())" "recv_counter t = c + 1"
    then have "\<forall>(u, d) \<in> set ps. recv_counter t \<le> d \<and> d \<noteq> - 1"
      using Cons.prems p by (fastforce simp: less_plus_one)
    then have "snd (recv_all ps t) = map snd ps"
      using Cons.IH [of t] Cons.prems(1) p by simp
    with new p show ?thesis by (simp add: case_prod_unfold Let_def)
  qed
qed simp

text \<open>
  The receive counter rejects replays: whatever packets arrive, the accepted counters
  are strictly increasing and not below the session's counter, and packets that arrive in the
  order of their counters are all accepted, however many were lost in between. The counter
  \<open>2^64 - 1\<close> is excluded.
\<close>

theorem recv_counter_no_replay:
  assumes "\<forall>(t, c) \<in> set ps. c \<noteq> - 1"
  shows "(let (s', acc) = recv_all ps s
          in sorted_wrt (<) acc \<and> (\<forall>c \<in> set acc. recv_counter s \<le> c))
    \<and> (sorted_wrt (<) (map snd ps) \<and> (\<forall>(t, c) \<in> set ps. recv_counter s \<le> c)
         \<longrightarrow> snd (recv_all ps s) = map snd ps)"
proof (intro conjI impI)
  show "let (s', acc) = recv_all ps s in sorted_wrt (<) acc \<and> (\<forall>c \<in> set acc. recv_counter s \<le> c)"
    using recv_all_increasing [OF assms prod.collapse [symmetric]] by (simp add: Let_def case_prod_unfold)
  show "snd (recv_all ps s) = map snd ps"
    if "sorted_wrt (<) (map snd ps) \<and> (\<forall>(t, c) \<in> set ps. recv_counter s \<le> c)"
    using that assms by (intro recv_all_accepts) auto
qed

definition demo_hex :: hex_codec where
  "demo_hex = \<lparr>hex_encode = (\<lambda>b. map (\<lambda>x. char_of (unat x)) b), hex_decode = (\<lambda>_. Inl InvalidHex)\<rparr>"

theorem recv_counter_no_replay_witness:
  "snd (recv_all [(0, 3), (1, 7)] (session_new demo_hex 0 [1] [2])) = [3, 7]"
  using recv_counter_no_replay [of "[(0, 3), (1, 7)]" "session_new demo_hex 0 [1] [2]"]
  by (simp add: session_new_def)

text \<open>A packet with the largest counter wraps the expected counter to 0 and reopens the window.\<close>

theorem last_counter_reopens:
  "let s' = fst (verify_recv_counter now (- 1) s)
   in snd (verify_recv_counter now (- 1) s) = Inr () \<and> snd (verify_recv_counter now' c s') = Inr ()"
  by (simp add: verify_recv_counter_def session_touch_def Let_def)

section \<open>The session table\<close>

lemma remove_all: "hm_get (foldl (\<lambda>t r. hm_remove r t) m rs) k = (if k \<in> set rs then None else hm_get m k)"
  by (induction rs arbitrary: m) auto

text \<open>
  Cleaning up removes exactly the sessions idle longer than their timeout, reports
  exactly their nodes, and touches no active session.
\<close>

theorem cleanup_expired_exact:
  assumes "hm_ok (sessions m)"
  shows "let (m', gone) = cleanup_expired now m
    in (\<forall>r. sess_get r m' = (case sess_get r m of None \<Rightarrow> None
                             | Some s \<Rightarrow> if session_is_expired now s then None else Some s))
     \<and> (\<forall>r. r \<in> set gone \<longleftrightarrow> (\<exists>s. sess_get r m = Some s \<and> session_is_expired now s))
     \<and> (\<forall>r. has_active_session now r m' = has_active_session now r m)"
proof -
  have gone: "r \<in> set (snd (cleanup_expired now m)) \<longleftrightarrow>
      (\<exists>s. hm_get (sessions m) r = Some s \<and> session_is_expired now s)" for r
    using assms by (force simp: cleanup_expired_def Let_def hm_mem_get)
  then have get: "hm_get (sessions (fst (cleanup_expired now m))) r =
      (case hm_get (sessions m) r of None \<Rightarrow> None
       | Some s \<Rightarrow> if session_is_expired now s then None else Some s)" for r
    by (auto simp: cleanup_expired_def Let_def remove_all split: option.splits)
  with gone show ?thesis
    by (auto simp: case_prod_unfold Let_def sess_get_def has_active_session_def session_is_active_def
        split: option.splits)
qed

theorem cleanup_expired_exact_witness:
  "snd (cleanup_expired 2000000 \<lparr>sessions = [([2], session_new demo_hex 0 [1] [2])], sm_local_id = [1], default_timeout = 5\<rparr>)
     = [[2]]"
proof -
  let ?m = "\<lparr>sessions = [([2], session_new demo_hex 0 [1] [2])], sm_local_id = [1], default_timeout = 5\<rparr>"
  have "sess_get [2] (fst (cleanup_expired 2000000 ?m)) = None"
    using cleanup_expired_exact [of ?m 2000000]
    by (simp add: case_prod_unfold Let_def sess_get_def hm_ok_def session_is_expired_def session_new_def
        DEFAULT_SESSION_TIMEOUT_SECS_def)
  then show ?thesis
    by (simp add: cleanup_expired_def session_is_expired_def session_new_def DEFAULT_SESSION_TIMEOUT_SECS_def)
qed

text \<open>
  The manager hands out copies of its sessions: two users of one session draw the same
  send counter, so their packets share a nonce.
\<close>

theorem session_counter_reused:
  assumes "sess_get_or_create H t1 r m = (m1, s1)" "\<not> session_is_expired t2 s1"
  shows "let (m2, s2) = sess_get_or_create H t2 r m1
    in m2 = m1 \<and> snd (next_send_counter t2 s2) = snd (next_send_counter t1 s1)"
  using assms by (auto simp: sess_get_or_create_def Let_def next_send_counter_def split: option.splits if_splits)

theorem session_counter_reused_witness:
  "let (m1, s1) = sess_get_or_create demo_hex 0 [2] (session_manager_new [1]);
       (m2, s2) = sess_get_or_create demo_hex 100 [2] m1
   in snd (next_send_counter 100 s2) = snd (next_send_counter 0 s1)"
  using session_counter_reused [of demo_hex 0 "[2]" "session_manager_new [1]"
      "fst (sess_get_or_create demo_hex 0 [2] (session_manager_new [1]))"
      "snd (sess_get_or_create demo_hex 0 [2] (session_manager_new [1]))" 100]
  by (simp add: case_prod_unfold Let_def)
     (simp add: sess_get_or_create_def session_manager_new_def session_is_expired_def session_with_timeout_def
        session_new_def DEFAULT_SESSION_TIMEOUT_SECS_def Let_def)

end
