(* ===== verification/Heartbeat.thy ===== *)
theory Heartbeat
  imports Identity HashMap
begin

text \<open>
  Heartbeats between nodes, \<^verbatim>\<open>crates/vpn/src/vpn/heartbeat.rs\<close>: the 49-byte message, the table of
  monitored nodes and the failure detector. The loop of \<open>start\<close> is split at the points where it
  releases the table's lock: \<open>send_round\<close> (sending to the listed nodes) and \<open>check_round\<close> (counting
  nodes that have been silent), so that other operations can come in between. Calls of the
  callback are returned as events, messages handed to the send function as a list; which sends
  succeed is given by the caller.
\<close>

definition DEFAULT_HEARTBEAT_INTERVAL_SECS :: nat where "DEFAULT_HEARTBEAT_INTERVAL_SECS = 5"
definition DEFAULT_OFFLINE_THRESHOLD :: u32 where "DEFAULT_OFFLINE_THRESHOLD = 3"

datatype HeartbeatError = SendFailed string | NodeNotFound string | HbTimeout string

datatype HeartbeatMsgType = HbRequest | HbResponse

definition hbt_from_u8 :: "u8 \<Rightarrow> HeartbeatMsgType option" where
  "hbt_from_u8 b = (if b = 1 then Some HbRequest else if b = 2 then Some HbResponse else None)"

fun hbt_to_u8 :: "HeartbeatMsgType \<Rightarrow> u8" where
  "hbt_to_u8 HbRequest = 1"
| "hbt_to_u8 HbResponse = 2"

record HeartbeatMessage =
  hb_type :: HeartbeatMsgType
  hb_sender :: NodeID
  hb_timestamp :: u64
  hb_sequence :: u64

definition hb_to_bytes :: "HeartbeatMessage \<Rightarrow> bytes" where
  "hb_to_bytes m =
     [hbt_to_u8 (hb_type m)] @ hb_sender m @ be_bytes 8 (hb_timestamp m) @ be_bytes 8 (hb_sequence m)"

definition hb_from_bytes :: "bytes \<Rightarrow> HeartbeatMessage option" where
  "hb_from_bytes dat =
     (if length dat < 1 + 32 + 8 + 8 then None
      else case hbt_from_u8 (dat ! 0) of
             None \<Rightarrow> None
           | Some t \<Rightarrow>
               Some \<lparr>hb_type = t, hb_sender = take 32 (drop 1 dat),
                     hb_timestamp = be_word (take 8 (drop 33 dat)),
                     hb_sequence = be_word (take 8 (drop 41 dat))\<rparr>)"

record NodeHeartbeatState =
  nh_node_id :: NodeID
  last_heartbeat :: instant
  missed_count :: u32
  is_online :: bool
  send_sequence :: u64
  recv_sequence :: u64

definition node_heartbeat_new :: "instant \<Rightarrow> NodeID \<Rightarrow> NodeHeartbeatState" where
  "node_heartbeat_new now n =
     \<lparr>nh_node_id = n, last_heartbeat = now, missed_count = 0, is_online = True,
      send_sequence = 0, recv_sequence = 0\<rparr>"

definition should_be_offline :: "u32 \<Rightarrow> NodeHeartbeatState \<Rightarrow> bool" where
  "should_be_offline threshold s = (missed_count s \<ge> threshold)"

datatype hb_event = OnNodeOnline NodeID | OnNodeOffline NodeID | OnSent NodeID u64 | OnReceived NodeID u64

record HeartbeatManager =
  hb_local_id :: NodeID
  hb_interval :: nat
  offline_threshold :: u32
  hb_nodes :: "(NodeID, NodeHeartbeatState) hmap"
  hb_running :: bool

definition heartbeat_new :: "NodeID \<Rightarrow> HeartbeatManager" where
  "heartbeat_new l =
     \<lparr>hb_local_id = l, hb_interval = DEFAULT_HEARTBEAT_INTERVAL_SECS * 1000,
      offline_threshold = DEFAULT_OFFLINE_THRESHOLD, hb_nodes = [], hb_running = False\<rparr>"

definition heartbeat_with_interval :: "NodeID \<Rightarrow> nat \<Rightarrow> HeartbeatManager" where
  "heartbeat_with_interval l i = (heartbeat_new l)\<lparr>hb_interval := i\<rparr>"

definition set_offline_threshold :: "u32 \<Rightarrow> HeartbeatManager \<Rightarrow> HeartbeatManager" where
  "set_offline_threshold t m = m\<lparr>offline_threshold := t\<rparr>"

definition hb_add_node :: "instant \<Rightarrow> NodeID \<Rightarrow> HeartbeatManager \<Rightarrow> HeartbeatManager" where
  "hb_add_node now n m =
     (if \<not> hm_contains n (hb_nodes m)
      then m\<lparr>hb_nodes := hm_insert n (node_heartbeat_new now n) (hb_nodes m)\<rparr> else m)"

definition hb_remove_node :: "NodeID \<Rightarrow> HeartbeatManager \<Rightarrow> HeartbeatManager" where
  "hb_remove_node n m = m\<lparr>hb_nodes := hm_remove n (hb_nodes m)\<rparr>"

definition get_node_state :: "NodeID \<Rightarrow> HeartbeatManager \<Rightarrow> NodeHeartbeatState option" where
  "get_node_state n m = hm_get (hb_nodes m) n"

definition get_all_states :: "HeartbeatManager \<Rightarrow> NodeHeartbeatState list" where
  "get_all_states m = hm_values (hb_nodes m)"

definition online_nodes :: "HeartbeatManager \<Rightarrow> NodeID list" where
  "online_nodes m = map nh_node_id (filter is_online (hm_values (hb_nodes m)))"

definition offline_nodes :: "HeartbeatManager \<Rightarrow> NodeID list" where
  "offline_nodes m = map nh_node_id (filter (\<lambda>s. \<not> is_online s) (hm_values (hb_nodes m)))"

definition hb_message :: "HeartbeatMsgType \<Rightarrow> u64 \<Rightarrow> u64 \<Rightarrow> HeartbeatManager \<Rightarrow> HeartbeatMessage" where
  "hb_message t secs sq m =
     \<lparr>hb_type = t, hb_sender = hb_local_id m, hb_timestamp = secs, hb_sequence = sq\<rparr>"

text \<open>\<open>sent n\<close>: whether sending to \<open>n\<close> succeeds. \<open>ns\<close> is the list of keys taken at the start of the round.\<close>

fun send_round ::
  "u64 \<Rightarrow> u64 \<Rightarrow> (NodeID \<Rightarrow> bool) \<Rightarrow> NodeID list \<Rightarrow> HeartbeatManager
     \<Rightarrow> HeartbeatManager \<times> (NodeID \<times> HeartbeatMessage) list \<times> hb_event list" where
  "send_round secs sq sent [] m = (m, [], [])"
| "send_round secs sq sent (n # ns) m =
     (let msg = hb_message HbRequest secs sq m;
          m1 = (if sent n then m\<lparr>hb_nodes := hm_modify n (\<lambda>s. s\<lparr>send_sequence := sq\<rparr>) (hb_nodes m)\<rparr> else m);
          (m2, out, evs) = send_round secs sq sent ns m1
      in (m2, (n, msg) # out, (if sent n then [OnSent n sq] else []) @ evs))"

definition check_node ::
  "instant \<Rightarrow> nat \<Rightarrow> u32 \<Rightarrow> NodeHeartbeatState \<Rightarrow> NodeHeartbeatState \<times> hb_event list" where
  "check_node now interval threshold s =
     (if is_online s \<and> now - last_heartbeat s > interval * 2 then
        let s = s\<lparr>missed_count := missed_count s + 1\<rparr>
        in if should_be_offline threshold s then (s\<lparr>is_online := False\<rparr>, [OnNodeOffline (nh_node_id s)])
           else (s, [])
      else (s, []))"

definition check_round :: "instant \<Rightarrow> HeartbeatManager \<Rightarrow> HeartbeatManager \<times> hb_event list" where
  "check_round now m =
     (let check = check_node now (hb_interval m) (offline_threshold m)
      in (m\<lparr>hb_nodes := hm_map_values (\<lambda>s. fst (check s)) (hb_nodes m)\<rparr>,
          concat (map (\<lambda>s. snd (check s)) (hm_values (hb_nodes m)))))"

definition hb_start :: "HeartbeatManager \<Rightarrow> HeartbeatManager" where
  "hb_start m = m\<lparr>hb_running := True\<rparr>"

definition hb_stop :: "HeartbeatManager \<Rightarrow> HeartbeatManager" where
  "hb_stop m = m\<lparr>hb_running := False\<rparr>"

definition handle_heartbeat :: "instant \<Rightarrow> HeartbeatMessage \<Rightarrow> HeartbeatManager \<Rightarrow> HeartbeatManager \<times> hb_event list" where
  "handle_heartbeat now msg m =
     (let n = hb_sender msg;
          state = (case hm_get (hb_nodes m) n of None \<Rightarrow> node_heartbeat_new now n | Some s \<Rightarrow> s);
          was_offline = (\<not> is_online state);
          state = state\<lparr>last_heartbeat := now, missed_count := 0, is_online := True,
                        recv_sequence := hb_sequence msg\<rparr>
      in (m\<lparr>hb_nodes := hm_insert n state (hb_nodes m)\<rparr>,
          (if was_offline then [OnNodeOnline n] else []) @ [OnReceived n (hb_sequence msg)]))"

definition send_response :: "u64 \<Rightarrow> NodeID \<Rightarrow> u64 \<Rightarrow> HeartbeatManager \<Rightarrow> NodeID \<times> HeartbeatMessage" where
  "send_response secs tgt sq m = (tgt, hb_message HbResponse secs sq m)"

section \<open>The message\<close>

lemma hbt_from_to [simp]: "hbt_from_u8 (hbt_to_u8 t) = Some t"
  by (cases t) (simp_all add: hbt_from_u8_def)

definition hb_wf :: "HeartbeatMessage \<Rightarrow> bool" where
  "hb_wf m = node_ok (hb_sender m)"

definition hb_dec :: "bytes \<Rightarrow> (HeartbeatMessage \<times> bytes) option" where
  "hb_dec bs = map_option (\<lambda>m. (m, drop 49 bs)) (hb_from_bytes bs)"

interpretation hb_codec: prefix_codec hb_to_bytes hb_dec hb_wf
proof
  fix m rest
  assume "hb_wf m"
  moreover obtain t n ts sq where "m = \<lparr>hb_type = t, hb_sender = n, hb_timestamp = ts, hb_sequence = sq\<rparr>"
    by (cases m)
  ultimately show "hb_dec (hb_to_bytes m @ rest) = Some (m, rest)"
    by (simp add: hb_dec_def hb_from_bytes_def hb_to_bytes_def hb_wf_def node_ok_def be_word_be_bytes)
qed

lemma hb_roundtrip: "node_ok (hb_sender m) \<Longrightarrow> hb_from_bytes (hb_to_bytes m) = Some m"
  using hb_codec.dec_enc [of m "[]"] by (auto simp: hb_wf_def hb_dec_def)

section \<open>The failure detector\<close>

datatype hb_op = Check instant | Recv instant HeartbeatMessage | SendRound u64 u64 "NodeID list" "NodeID list"
  | AddNode instant NodeID | RemoveNode NodeID

definition hb_op_step :: "hb_op \<Rightarrow> HeartbeatManager \<Rightarrow> HeartbeatManager \<times> hb_event list" where
  "hb_op_step p m =
     (case p of
        Check now \<Rightarrow> check_round now m
      | Recv now msg \<Rightarrow> handle_heartbeat now msg m
      | SendRound secs sq ok ns \<Rightarrow> (let (m', _, evs) = send_round secs sq (\<lambda>n. n \<in> set ok) ns m in (m', evs))
      | AddNode now n \<Rightarrow> (hb_add_node now n m, [])
      | RemoveNode n \<Rightarrow> (hb_remove_node n m, []))"

fun hb_run :: "hb_op list \<Rightarrow> HeartbeatManager \<Rightarrow> HeartbeatManager \<times> hb_event list" where
  "hb_run [] m = (m, [])"
| "hb_run (p # ps) m = (let (m1, e1) = hb_op_step p m; (m2, e2) = hb_run ps m1 in (m2, e1 @ e2))"

text \<open>A check that comes late for a node last heard of at \<open>t0\<close>.\<close>

fun late_check :: "nat \<Rightarrow> instant \<Rightarrow> hb_op \<Rightarrow> bool" where
  "late_check interval t0 (Check now) = (now - t0 > interval * 2)"
| "late_check interval t0 _ = False"

text \<open>The operations that hear of a node or stop watching it.\<close>

fun concerns :: "NodeID \<Rightarrow> hb_op \<Rightarrow> bool" where
  "concerns n (Recv _ msg) = (hb_sender msg = n)"
| "concerns n (RemoveNode k) = (k = n)"
| "concerns n _ = False"

definition hb_keyed :: "HeartbeatManager \<Rightarrow> bool" where
  "hb_keyed m \<longleftrightarrow> hm_ok (hb_nodes m) \<and> (\<forall>n s. hm_get (hb_nodes m) n = Some s \<longrightarrow> nh_node_id s = n)"

lemma hb_keyed_insert:
  "hb_keyed m \<Longrightarrow> nh_node_id s = n \<Longrightarrow> hb_keyed (m\<lparr>hb_nodes := hm_insert n s (hb_nodes m)\<rparr>)"
  by (simp add: hb_keyed_def)

lemma send_round_frame:
  assumes "send_round secs sq sent ns m = (m', out, evs)"
  shows "hb_interval m' = hb_interval m \<and> offline_threshold m' = offline_threshold m
    \<and> (hb_keyed m \<longrightarrow> hb_keyed m') \<and> OnNodeOffline k \<notin> set evs
    \<and> (\<forall>n s. hm_get (hb_nodes m) n = Some s \<longrightarrow>
         (\<exists>s'. hm_get (hb_nodes m') n = Some s' \<and> last_heartbeat s' = last_heartbeat s
            \<and> missed_count s' = missed_count s \<and> is_online s' = is_online s))"
  using assms
proof (induction ns arbitrary: m out evs)
  case (Cons a ns)
  let ?m = "if sent a then m\<lparr>hb_nodes := hm_modify a (\<lambda>s. s\<lparr>send_sequence := sq\<rparr>) (hb_nodes m)\<rparr> else m"
  obtain out' evs' where r: "send_round secs sq sent ns ?m = (m', out', evs')"
    "evs = (if sent a then [OnSent a sq] else []) @ evs'"
    using Cons.prems by (auto simp: Let_def split: prod.splits)
  have "hb_keyed m \<Longrightarrow> hb_keyed ?m"
    by (auto simp: hb_keyed_def hm_get_modify split: if_splits)
  moreover have "\<exists>s'. hm_get (hb_nodes ?m) n = Some s' \<and> last_heartbeat s' = last_heartbeat s
      \<and> missed_count s' = missed_count s \<and> is_online s' = is_online s"
    if "hm_get (hb_nodes m) n = Some s" for n s
    using that by (cases "sent a"; cases "n = a") (auto simp: hm_get_modify)
  ultimately show ?case
    using Cons.IH [OF r(1)] r(2) by (fastforce split: if_splits)
qed simp

lemma check_node_id [simp]: "nh_node_id (fst (check_node now i th s)) = nh_node_id s"
  by (simp add: check_node_def Let_def)

lemma check_round_events:
  assumes "hm_ok m" "\<forall>(k, s) \<in> set m. nh_node_id s = k"
  shows "count_list (concat (map (\<lambda>s. snd (check_node now i th s)) (hm_values m))) (OnNodeOffline n) =
    (case hm_get m n of None \<Rightarrow> 0 | Some s \<Rightarrow> count_list (snd (check_node now i th s)) (OnNodeOffline n))"
  using assms
proof (induction m)
  case (Cons p m)
  obtain k s where p: "p = (k, s)" by force
  have "count_list (snd (check_node now i th s)) (OnNodeOffline n) = 0" if "k \<noteq> n"
    using that Cons.prems(2) p by (auto simp: check_node_def Let_def)
  moreover have "hm_get m k = None"
    using Cons.prems(1) p by (simp add: hm_ok_def map_of_eq_None_iff)
  ultimately show ?case
    using Cons p by (auto simp: hm_values_def hm_ok_def)
qed (simp add: hm_values_def)

text \<open>\<open>watch m n t0 k\<close>: the manager last heard of \<open>n\<close> at \<open>t0\<close> and has made \<open>k\<close> late checks since.\<close>

definition watch :: "HeartbeatManager \<Rightarrow> NodeID \<Rightarrow> instant \<Rightarrow> nat \<Rightarrow> bool" where
  "watch m n t0 k \<longleftrightarrow> hb_keyed m \<and> 0 < offline_threshold m \<and>
     (\<exists>s. hm_get (hb_nodes m) n = Some s \<and> last_heartbeat s = t0
        \<and> unat (missed_count s) = min k (unat (offline_threshold m))
        \<and> is_online s = (k < unat (offline_threshold m)))"

lemma check_node_watch:
  assumes "unat (missed_count s) = min k (unat th)" "is_online s = (k < unat th)" "last_heartbeat s = t0"
    and k': "k' = k + of_bool (now - t0 > i * 2)"
  shows "last_heartbeat (fst (check_node now i th s)) = t0
    \<and> unat (missed_count (fst (check_node now i th s))) = min k' (unat th)
    \<and> is_online (fst (check_node now i th s)) = (k' < unat th)
    \<and> count_list (snd (check_node now i th s)) (OnNodeOffline (nh_node_id s))
        = of_bool (k < unat th \<and> unat th \<le> k')"
proof (cases "k < unat th \<and> now - t0 > i * 2")
  case True
  then have k: "unat (missed_count s) = k" using assms(1) by simp
  moreover have "k + 1 < 2 ^ LENGTH(32)"
    using True unsigned_less [of th, where 'a = nat] by simp
  ultimately have "unat (missed_count s + 1) = k + 1"
    by (simp add: unat_add_one)
  with True assms k show ?thesis
    by (auto simp: check_node_def should_be_offline_def Let_def word_le_nat_alt)
next
  case False
  with assms show ?thesis by (auto simp: check_node_def)
qed

lemma hb_step_watch:
  assumes w: "watch m n t0 k" and c: "\<not> concerns n p"
  shows "let (m', evs) = hb_op_step p m; k' = k + of_bool (late_check (hb_interval m) t0 p)
    in watch m' n t0 k' \<and> hb_interval m' = hb_interval m \<and> offline_threshold m' = offline_threshold m
       \<and> count_list evs (OnNodeOffline n)
           = of_bool (k < unat (offline_threshold m) \<and> unat (offline_threshold m) \<le> k')"
proof (cases p)
  case (Check now)
  let ?c = "check_node now (hb_interval m) (offline_threshold m)"
  obtain s where s: "hm_get (hb_nodes m) n = Some s" "last_heartbeat s = t0"
    "unat (missed_count s) = min k (unat (offline_threshold m))" "is_online s = (k < unat (offline_threshold m))"
    using w by (auto simp: watch_def)
  have keyed: "hb_keyed m" using w by (simp add: watch_def)
  have 0: "nh_node_id s = n" "hb_keyed (fst (check_round now m))"
    using keyed s(1) by (auto simp: check_round_def Let_def hb_keyed_def)
  have "hm_ok (hb_nodes m)" "\<forall>(k, s) \<in> set (hb_nodes m). nh_node_id s = k"
    using keyed by (auto simp: hb_keyed_def hm_mem_get)
  from check_round_events [OF this, of now "hb_interval m" "offline_threshold m" n]
  have 1: "count_list (snd (check_round now m)) (OnNodeOffline n) = count_list (snd (?c s)) (OnNodeOffline n)"
    by (simp add: check_round_def Let_def s(1))
  have 2: "hm_get (hb_nodes (fst (check_round now m))) n = Some (fst (?c s))"
    "hb_interval (fst (check_round now m)) = hb_interval m"
    "offline_threshold (fst (check_round now m)) = offline_threshold m"
    using s(1) by (simp_all add: check_round_def Let_def)
  have "0 < offline_threshold m" using w by (simp add: watch_def)
  moreover define k' where "k' = k + of_bool (late_check (hb_interval m) t0 p)"
  then have "k' = k + of_bool (now - t0 > hb_interval m * 2)"
    by (simp add: Check)
  note check = check_node_watch [OF s(3,4,2) this]
  ultimately show ?thesis
    unfolding k'_def [symmetric] using 0 1 2
    by (simp add: hb_op_step_def watch_def Let_def case_prod_unfold Check check)
next
  case (Recv now msg)
  then show ?thesis
    using w c by (auto simp: hb_op_step_def handle_heartbeat_def watch_def Let_def hb_keyed_def
        node_heartbeat_new_def split: option.splits)
next
  case (SendRound secs sq ok ns)
  obtain m' out evs where r: "send_round secs sq (\<lambda>n. n \<in> set ok) ns m = (m', out, evs)"
    by (metis prod_cases3)
  show ?thesis
    using send_round_frame [OF r, of n] r SendRound w
    by (fastforce simp: hb_op_step_def watch_def Let_def)
next
  case (AddNode now a)
  then show ?thesis
    using w by (auto simp: hb_op_step_def hb_add_node_def watch_def Let_def hb_keyed_def hm_contains_def
        node_heartbeat_new_def)
next
  case (RemoveNode a)
  then show ?thesis
    using w c by (auto simp: hb_op_step_def hb_remove_node_def watch_def Let_def hb_keyed_def)
qed

lemma hb_run_watch:
  assumes "watch m n t0 k" "\<not> list_ex (concerns n) ps"
  shows "let (m', evs) = hb_run ps m; k' = k + length (filter (late_check (hb_interval m) t0) ps)
    in watch m' n t0 k' \<and> offline_threshold m' = offline_threshold m
       \<and> count_list evs (OnNodeOffline n)
           = of_bool (k < unat (offline_threshold m) \<and> unat (offline_threshold m) \<le> k')"
  using assms
proof (induction ps arbitrary: m k)
  case (Cons p ps)
  obtain m1 e1 where 1: "hb_op_step p m = (m1, e1)" by force
  obtain m2 e2 where 2: "hb_run ps m1 = (m2, e2)" by force
  show ?case
    using hb_step_watch [OF Cons.prems(1), of p] Cons.prems(2)
      Cons.IH [of m1 "k + of_bool (late_check (hb_interval m) t0 p)"] 1 2
    by (auto simp: Let_def)
qed simp

text \<open>
  C29. The failure detector. While nothing is heard of a monitored node, whatever else
  happens, it stays online for fewer than \<open>offline_threshold\<close> checks later than two intervals after
  its last heartbeat, is offline from that check on, and is reported offline exactly once; checks
  within two intervals never count against it. Its next heartbeat brings it back online, which is
  reported exactly if it was offline.
\<close>

theorem silent_node_detected:
  assumes "hb_keyed m" "0 < offline_threshold m" "hm_get (hb_nodes m) n = Some s"
    and "is_online s" "missed_count s = 0" "\<not> list_ex (concerns n) ps"
  shows "let (m', evs) = hb_run ps m;
             missed = length (filter (late_check (hb_interval m) (last_heartbeat s)) ps);
             offline = (unat (offline_threshold m) \<le> missed)
    in (\<exists>s'. get_node_state n m' = Some s' \<and> is_online s' = (\<not> offline))
     \<and> count_list evs (OnNodeOffline n) = of_bool offline
     \<and> (hb_sender msg = n \<longrightarrow>
          (let (m'', evs') = handle_heartbeat now msg m'
           in map_option is_online (get_node_state n m'') = Some True
              \<and> (OnNodeOnline n \<in> set evs') = offline))"
proof -
  have "watch m n (last_heartbeat s) 0"
    using assms(1-5) by (auto simp: watch_def word_less_nat_alt)
  then have "let (m', evs) = hb_run ps m; k' = 0 + length (filter (late_check (hb_interval m) (last_heartbeat s)) ps)
    in watch m' n (last_heartbeat s) k' \<and> offline_threshold m' = offline_threshold m
       \<and> count_list evs (OnNodeOffline n) = of_bool (0 < unat (offline_threshold m) \<and> unat (offline_threshold m) \<le> k')"
    using assms(6) by (rule hb_run_watch)
  then show ?thesis
    using assms(2)
    by (auto simp: Let_def watch_def get_node_state_def handle_heartbeat_def word_less_nat_alt)
qed

theorem silent_node_detected_witness:
  "count_list (snd (hb_run (map Check [5000, 11000, 16000, 21000, 26000]) (hb_add_node 0 [7] (heartbeat_new [1]))))
     (OnNodeOffline [7]) = 1"
proof -
  let ?m = "hb_add_node 0 [7] (heartbeat_new [1])"
  have m: "hb_nodes ?m = [([7], node_heartbeat_new 0 [7])]" "offline_threshold ?m = 3" "hb_interval ?m = 5000"
    by (simp_all add: hb_add_node_def heartbeat_new_def hm_contains_def hm_insert_def
        DEFAULT_OFFLINE_THRESHOLD_def DEFAULT_HEARTBEAT_INTERVAL_SECS_def)
  have "hb_keyed ?m"
    by (simp add: hb_keyed_def m hm_ok_def node_heartbeat_new_def)
  moreover have "is_online (node_heartbeat_new 0 [7])" "missed_count (node_heartbeat_new 0 [7]) = 0"
    "last_heartbeat (node_heartbeat_new 0 [7]) = 0"
    by (simp_all add: node_heartbeat_new_def)
  ultimately show ?thesis
    using silent_node_detected [of ?m "[7]" "node_heartbeat_new 0 [7]" "map Check [5000, 11000, 16000, 21000, 26000]"]
    by (simp add: m case_prod_unfold Let_def del: hb_run.simps)
qed

text \<open>A heartbeat message of a well-formed sender is read back from its 49 bytes.\<close>

theorem heartbeat_message_roundtrip:
  assumes "node_ok (hb_sender m)"
  shows "hb_from_bytes (hb_to_bytes m) = Some m \<and> length (hb_to_bytes m) = 49"
  using assms hb_roundtrip by (simp add: hb_to_bytes_def node_ok_def)

theorem heartbeat_message_roundtrip_witness:
  "hb_from_bytes (hb_to_bytes (hb_message HbRequest 5 9 (heartbeat_new (replicate 32 1))))
     = Some (hb_message HbRequest 5 9 (heartbeat_new (replicate 32 1)))"
  using heartbeat_message_roundtrip [of "hb_message HbRequest 5 9 (heartbeat_new (replicate 32 1))"]
  by (simp add: hb_message_def heartbeat_new_def node_ok_def)

end
