(* ===== verification/Multihop.thy ===== *)
theory Multihop
  imports Dht Router
begin

text \<open>
  Multi-hop routes, \<^verbatim>\<open>crates/vpn/src/vpn/multihop.rs\<close>: route discovery over the DHT of theory
  \<open>Dht\<close>, the bounded route table with eviction, switching to an alternative next hop, refreshing
  and cleaning up. An address is its bytes, as in the DHT.
\<close>

definition MAX_ROUTE_ENTRIES :: nat where "MAX_ROUTE_ENTRIES = 1000"
definition DEFAULT_ROUTE_TIMEOUT_SECS :: nat where "DEFAULT_ROUTE_TIMEOUT_SECS = 300"
definition METRIC_PER_HOP :: u32 where "METRIC_PER_HOP = 100"
definition METRIC_RELAY_PENALTY :: u32 where "METRIC_RELAY_PENALTY = 50"
definition METRIC_DIRECT_PENALTY :: u32 where "METRIC_DIRECT_PENALTY = 10"
definition CLEANUP_INTERVAL_SECS :: nat where "CLEANUP_INTERVAL_SECS = 60"
definition K_CANDIDATES_MAX :: nat where "K_CANDIDATES_MAX = 10"

datatype RouteMessageType = RouteDiscovery | RouteReply | RouteErrorMsg

definition route_msg_from_u8 :: "u8 \<Rightarrow> RouteMessageType option" where
  "route_msg_from_u8 b =
     (if b = 1 then Some RouteDiscovery else if b = 2 then Some RouteReply
      else if b = 3 then Some RouteErrorMsg else None)"

record MultiHopEntry =
  mh_target :: NodeID
  mh_next_hop :: NodeID
  mh_hop_count :: u8
  mh_metric :: u32
  mh_connection_type :: ConnectionType
  mh_last_active :: instant
  expires_at :: instant
  candidates :: "(NodeID \<times> bytes) list"

definition calculate_metric :: "u8 \<Rightarrow> ConnectionType \<Rightarrow> u32" where
  "calculate_metric h ct =
     (let base = ucast h * METRIC_PER_HOP
      in case ct of
           Relay \<Rightarrow> base + METRIC_RELAY_PENALTY
         | Lan \<Rightarrow> base + METRIC_DIRECT_PENALTY
         | Vpn \<Rightarrow> base + METRIC_DIRECT_PENALTY
         | Unknown \<Rightarrow> base + 999)"

definition route_expiry :: "instant \<Rightarrow> instant" where
  "route_expiry now = now + DEFAULT_ROUTE_TIMEOUT_SECS * 1000"

definition multi_hop_entry_new ::
  "instant \<Rightarrow> NodeID \<Rightarrow> NodeID \<Rightarrow> u8 \<Rightarrow> ConnectionType \<Rightarrow> (NodeID \<times> bytes) list \<Rightarrow> MultiHopEntry" where
  "multi_hop_entry_new now tgt nh h ct cs =
     \<lparr>mh_target = tgt, mh_next_hop = nh, mh_hop_count = h, mh_metric = calculate_metric h ct,
      mh_connection_type = ct, mh_last_active = now, expires_at = route_expiry now, candidates = cs\<rparr>"

definition route_is_expired :: "instant \<Rightarrow> MultiHopEntry \<Rightarrow> bool" where
  "route_is_expired now e = (now \<ge> expires_at e)"

definition entry_refresh :: "instant \<Rightarrow> MultiHopEntry \<Rightarrow> MultiHopEntry" where
  "entry_refresh now e = e\<lparr>mh_last_active := now, expires_at := route_expiry now\<rparr>"

definition is_direct :: "MultiHopEntry \<Rightarrow> bool" where
  "is_direct e = (mh_hop_count e = 1)"

record MultihopManager =
  mh_local_id :: NodeID
  mh_routes :: "(NodeID, MultiHopEntry) hmap"
  mh_dht :: "DhtManager option"
  mh_relay :: "RelayManager option"
  max_entries :: nat
  last_cleanup :: instant

definition multihop_new :: "instant \<Rightarrow> NodeID \<Rightarrow> MultihopManager" where
  "multihop_new now l =
     \<lparr>mh_local_id = l, mh_routes = [], mh_dht = None, mh_relay = None,
      max_entries = MAX_ROUTE_ENTRIES, last_cleanup = now\<rparr>"

definition mh_set_dht :: "DhtManager \<Rightarrow> MultihopManager \<Rightarrow> MultihopManager" where
  "mh_set_dht d m = m\<lparr>mh_dht := Some d\<rparr>"

definition mh_set_relay :: "RelayManager \<Rightarrow> MultihopManager \<Rightarrow> MultihopManager" where
  "mh_set_relay r m = m\<lparr>mh_relay := Some r\<rparr>"

definition insert_or_evict :: "MultiHopEntry \<Rightarrow> MultihopManager \<Rightarrow> MultihopManager" where
  "insert_or_evict e m =
     (if hm_contains (mh_target e) (mh_routes m)
      then m\<lparr>mh_routes := hm_insert (mh_target e) e (mh_routes m)\<rparr>
      else if hm_len (mh_routes m) < max_entries m
      then m\<lparr>mh_routes := hm_insert (mh_target e) e (mh_routes m)\<rparr>
      else
        let oldest = map_option fst (min_by_key (\<lambda>(_, x). mh_last_active x) (mh_routes m));
            rts = (case oldest of None \<Rightarrow> mh_routes m | Some k \<Rightarrow> hm_remove k (mh_routes m))
        in m\<lparr>mh_routes := hm_insert (mh_target e) e rts\<rparr>)"

text \<open>The first 16 bytes, as the source computes it.\<close>

definition xor_distance_u128 :: "NodeID \<Rightarrow> NodeID \<Rightarrow> 128 word" where
  "xor_distance_u128 a b = distance_from 0 (zip (take 16 a) (take 16 b))"

definition sort_candidates :: "NodeID \<Rightarrow> (NodeID \<times> bytes) list \<Rightarrow> (NodeID \<times> bytes) list" where
  "sort_candidates tgt = sort_by (\<lambda>(a, _) (b, _). xor_distance_u128 a tgt \<le> xor_distance_u128 b tgt)"

definition discovered :: "instant \<Rightarrow> NodeID \<Rightarrow> (NodeID \<times> bytes) list \<Rightarrow> MultiHopEntry" where
  "discovered now tgt srt =
     (let nh = fst (hd srt);
          (h, ct) = (if nh = tgt then (1, Lan) else (2, Relay));
          fallback = take K_CANDIDATES_MAX (filter (\<lambda>(n, _). n \<noteq> nh) (tl srt))
      in multi_hop_entry_new now tgt nh h ct fallback)"

definition discover_route ::
  "instant \<Rightarrow> NodeID \<Rightarrow> MultihopManager \<Rightarrow> MultihopManager \<times> (RouterError, unit) result" where
  "discover_route now tgt m =
     (if tgt = mh_local_id m then (m, Inl (InvalidData ''cannot route to self''))
      else case mh_dht m of
             None \<Rightarrow> (m, Inl (SendFailed ''DHT not bound''))
           | Some d \<Rightarrow>
               let cs = find_node tgt d
               in if cs = [] then (m, Inl (NoRoute tgt))
                  else (insert_or_evict (discovered now tgt (sort_candidates tgt cs)) m, Inr ()))"

definition add_direct_route :: "instant \<Rightarrow> NodeID \<Rightarrow> bytes \<Rightarrow> MultihopManager \<Rightarrow> MultihopManager" where
  "add_direct_route now tgt a m =
     (if tgt = mh_local_id m then m
      else insert_or_evict (multi_hop_entry_new now tgt tgt 1 Lan [(tgt, a)]) m)"

definition find_route :: "instant \<Rightarrow> NodeID \<Rightarrow> MultihopManager \<Rightarrow> MultiHopEntry option" where
  "find_route now tgt m =
     (case hm_get (mh_routes m) tgt of
        None \<Rightarrow> None
      | Some e \<Rightarrow> if route_is_expired now e then None else Some e)"

definition next_hop_to :: "instant \<Rightarrow> NodeID \<Rightarrow> MultihopManager \<Rightarrow> (RouterError, NodeID) result" where
  "next_hop_to now tgt m = ok_or (NoRoute tgt) (map_option mh_next_hop (find_route now tgt m))"

definition mh_remove_route :: "NodeID \<Rightarrow> MultihopManager \<Rightarrow> MultihopManager \<times> MultiHopEntry option" where
  "mh_remove_route tgt m = (m\<lparr>mh_routes := hm_remove tgt (mh_routes m)\<rparr>, hm_get (mh_routes m) tgt)"

definition mark_invalid :: "instant \<Rightarrow> NodeID \<Rightarrow> MultihopManager \<Rightarrow> MultihopManager" where
  "mark_invalid now tgt m =
     m\<lparr>mh_routes := hm_modify tgt (\<lambda>e. e\<lparr>expires_at := now - 1000\<rparr>) (mh_routes m)\<rparr>"

definition find_alternative ::
  "instant \<Rightarrow> NodeID \<Rightarrow> MultihopManager \<Rightarrow> MultihopManager \<times> (RouterError, unit) result" where
  "find_alternative now tgt m =
     (case hm_get (mh_routes m) tgt of
        None \<Rightarrow> (m, Inl (NoRoute tgt))
      | Some e \<Rightarrow>
          (case find (\<lambda>(n, _). n \<noteq> mh_next_hop e \<and> n \<noteq> mh_local_id m) (candidates e) of
             None \<Rightarrow> (m, Inl (NoRoute tgt))
           | Some (n, _) \<Rightarrow>
               (m\<lparr>mh_routes := hm_insert tgt
                    \<lparr>mh_target = tgt, mh_next_hop = n, mh_hop_count = mh_hop_count e,
                     mh_metric = calculate_metric (mh_hop_count e) Relay, mh_connection_type = Relay,
                     mh_last_active = now, expires_at = route_expiry now, candidates = candidates e\<rparr>
                    (mh_routes m)\<rparr>, Inr ())))"

text \<open>One target of \<open>refresh_stale_routes\<close>: rediscovered, or kept for another timeout.\<close>

definition refresh_one :: "instant \<Rightarrow> NodeID \<Rightarrow> MultihopManager \<Rightarrow> MultihopManager \<times> nat" where
  "refresh_one now tgt m =
     (case discover_route now tgt m of
        (m', Inr _) \<Rightarrow> (m', 1)
      | (m', Inl _) \<Rightarrow>
          (m'\<lparr>mh_routes := hm_modify tgt (\<lambda>e. e\<lparr>expires_at := route_expiry now\<rparr>) (mh_routes m')\<rparr>, 0))"

fun refresh_all :: "instant \<Rightarrow> NodeID list \<Rightarrow> MultihopManager \<Rightarrow> MultihopManager \<times> nat" where
  "refresh_all now [] m = (m, 0)"
| "refresh_all now (t # ts) m =
     (let (m1, a) = refresh_one now t m; (m2, b) = refresh_all now ts m1 in (m2, a + b))"

definition refresh_stale_routes :: "instant \<Rightarrow> MultihopManager \<Rightarrow> MultihopManager \<times> nat" where
  "refresh_stale_routes now m =
     refresh_all now (map fst (filter (\<lambda>(_, e). route_is_expired now e) (mh_routes m))) m"

definition route_count :: "MultihopManager \<Rightarrow> nat" where
  "route_count m = hm_len (mh_routes m)"

definition insert_route :: "MultiHopEntry \<Rightarrow> MultihopManager \<Rightarrow> MultihopManager" where
  "insert_route e m = insert_or_evict e m"

definition find_routes_by_next_hop :: "NodeID \<Rightarrow> MultihopManager \<Rightarrow> NodeID list" where
  "find_routes_by_next_hop n m = map fst (filter (\<lambda>(_, e). mh_next_hop e = n) (mh_routes m))"

definition mh_cleanup_expired :: "instant \<Rightarrow> MultihopManager \<Rightarrow> MultihopManager \<times> nat" where
  "mh_cleanup_expired now m =
     (if now - last_cleanup m < CLEANUP_INTERVAL_SECS * 1000 then (m, 0)
      else
        let m = m\<lparr>last_cleanup := now\<rparr>;
            kept = hm_retain (\<lambda>_ e. \<not> route_is_expired now e) (mh_routes m)
        in (m\<lparr>mh_routes := kept\<rparr>, hm_len (mh_routes m) - hm_len kept))"

section \<open>The table\<close>

definition mh_inv :: "MultihopManager \<Rightarrow> bool" where
  "mh_inv m \<longleftrightarrow> hm_ok (mh_routes m) \<and> hm_len (mh_routes m) \<le> max_entries m \<and> 0 < max_entries m
     \<and> (\<forall>k e. hm_get (mh_routes m) k = Some e \<longrightarrow> mh_target e = k)"

lemma mh_inv_new: "mh_inv (multihop_new now l)"
  by (simp add: mh_inv_def multihop_new_def MAX_ROUTE_ENTRIES_def)

lemma evict_len:
  assumes "hm_ok m" "m \<noteq> []" "min_by_key (\<lambda>(_, x). f x) m = Some (k, x)"
  shows "hm_len (hm_remove k m) < hm_len m"
proof -
  have "hm_get m k \<noteq> None"
    using min_by_key_SomeD [OF assms(3)] assms(1) by (auto simp: hm_mem_get)
  then have "dom (hm_get (hm_remove k m)) \<subset> dom (hm_get m)" by (auto simp: dom_def split: if_splits)
  then show ?thesis
    using assms(1) by (simp add: hm_len_dom psubset_card_mono finite_dom_map_of)
qed

lemma mh_inv_insert: "mh_inv m \<Longrightarrow> mh_inv (insert_or_evict e m)"
proof (cases "hm_contains (mh_target e) (mh_routes m) \<or> hm_len (mh_routes m) < max_entries m")
  case True
  assume "mh_inv m"
  with True show ?thesis
    using hm.len_insert_old [of "mh_routes m" "mh_target e" e] hm.len_insert_le [of "mh_routes m" "mh_target e" e]
    by (auto simp: insert_or_evict_def mh_inv_def hm_contains_def)
next
  case False
  assume inv: "mh_inv m"
  with False have "mh_routes m \<noteq> []" "hm_ok (mh_routes m)" by (auto simp: mh_inv_def)
  then obtain k x where k: "min_by_key (\<lambda>(_, x). mh_last_active x) (mh_routes m) = Some (k, x)"
    by (metis min_by_key_None not_None_eq surj_pair)
  have "hm_len (hm_remove k (mh_routes m)) < hm_len (mh_routes m)"
    using evict_len [OF \<open>hm_ok (mh_routes m)\<close> \<open>mh_routes m \<noteq> []\<close> k] .
  with False inv k show ?thesis
    using hm.len_insert_le [of "hm_remove k (mh_routes m)" "mh_target e" e]
    by (auto simp: insert_or_evict_def mh_inv_def Let_def)
qed

lemma mh_inv_cong:
  "mh_inv m \<Longrightarrow> mh_routes m' = mh_routes m \<Longrightarrow> max_entries m' = max_entries m \<Longrightarrow> mh_inv m'"
  by (simp add: mh_inv_def)

lemma insert_or_evict_frame [simp]:
  "max_entries (insert_or_evict e m) = max_entries m" "mh_local_id (insert_or_evict e m) = mh_local_id m"
  "mh_dht (insert_or_evict e m) = mh_dht m"
  by (simp_all add: insert_or_evict_def Let_def)

lemma mh_inv_modify:
  "mh_inv m \<Longrightarrow> (\<And>e. mh_target (f e) = mh_target e) \<Longrightarrow> mh_inv (m\<lparr>mh_routes := hm_modify k f (mh_routes m)\<rparr>)"
  by (auto simp: mh_inv_def hm_get_modify split: if_splits)

lemma mh_inv_discover: "mh_inv m \<Longrightarrow> mh_inv (fst (discover_route now tgt m))"
  by (simp add: discover_route_def Let_def mh_inv_insert split: option.splits)

lemma mh_inv_alternative:
  assumes "mh_inv m"
  shows "mh_inv (fst (find_alternative now tgt m))"
proof -
  have "hm_len (hm_insert tgt e (mh_routes m)) \<le> max_entries m" if "hm_get (mh_routes m) tgt \<noteq> None" for e
    using assms that hm.len_insert_old [of "mh_routes m" tgt e] by (simp add: mh_inv_def)
  then show ?thesis
    using assms by (auto simp: find_alternative_def mh_inv_def split: option.splits)
qed

lemma mh_inv_refresh_one: "mh_inv m \<Longrightarrow> mh_inv (fst (refresh_one now tgt m))"
  using mh_inv_discover [of m now tgt]
  by (auto simp: refresh_one_def mh_inv_modify split: prod.splits sum.splits)

lemma mh_inv_refresh_all: "mh_inv m \<Longrightarrow> mh_inv (fst (refresh_all now ts m))"
  by (induction ts arbitrary: m) (simp_all add: Let_def case_prod_unfold mh_inv_refresh_one)

lemma mh_inv_remove: "mh_inv m \<Longrightarrow> mh_inv (fst (mh_remove_route tgt m))"
  using hm.len_remove_le [of "mh_routes m" tgt]
  by (auto simp: mh_inv_def mh_remove_route_def split: if_splits)

lemma mh_inv_cleanup: "mh_inv m \<Longrightarrow> mh_inv (fst (mh_cleanup_expired now m))"
  using hm.len_retain_le [of "mh_routes m" "\<lambda>_ e. \<not> route_is_expired now e"]
  by (auto simp: mh_inv_def mh_cleanup_expired_def Let_def hm_get_retain split: option.splits if_splits)

inductive mh_reachable :: "MultihopManager \<Rightarrow> bool" where
  mh_init: "mh_reachable (multihop_new now l)"
| mh_bind_dht: "mh_reachable m \<Longrightarrow> mh_reachable (mh_set_dht d m)"
| mh_bind_relay: "mh_reachable m \<Longrightarrow> mh_reachable (mh_set_relay r m)"
| mh_discover: "mh_reachable m \<Longrightarrow> mh_reachable (fst (discover_route now tgt m))"
| mh_direct: "mh_reachable m \<Longrightarrow> mh_reachable (add_direct_route now tgt a m)"
| mh_insert: "mh_reachable m \<Longrightarrow> mh_reachable (insert_route e m)"
| mh_remove: "mh_reachable m \<Longrightarrow> mh_reachable (fst (mh_remove_route tgt m))"
| mh_invalid: "mh_reachable m \<Longrightarrow> mh_reachable (mark_invalid now tgt m)"
| mh_alternative: "mh_reachable m \<Longrightarrow> mh_reachable (fst (find_alternative now tgt m))"
| mh_refresh: "mh_reachable m \<Longrightarrow> mh_reachable (fst (refresh_stale_routes now m))"
| mh_clean: "mh_reachable m \<Longrightarrow> mh_reachable (fst (mh_cleanup_expired now m))"

lemmas mh_inv_ops = mh_inv_new mh_inv_insert mh_inv_discover mh_inv_alternative mh_inv_refresh_all
  mh_inv_remove mh_inv_cleanup mh_inv_modify

lemma mh_reachable_inv: "mh_reachable m \<Longrightarrow> mh_inv m"
  by (induction rule: mh_reachable.induct)
     (auto simp: mh_inv_ops mh_set_dht_def mh_set_relay_def add_direct_route_def insert_route_def
        mark_invalid_def refresh_stale_routes_def intro: mh_inv_cong)

lemma max_entries_frame [simp]:
  "max_entries (fst (discover_route now tgt m)) = max_entries m"
  "max_entries (fst (refresh_one now tgt m)) = max_entries m"
  "max_entries (fst (refresh_all now ts m)) = max_entries m"
proof -
  show d: "max_entries (fst (discover_route now tgt m)) = max_entries m" for tgt m
    by (simp add: discover_route_def Let_def split: option.splits)
  show r: "max_entries (fst (refresh_one now tgt m)) = max_entries m" for tgt m
    using d [of tgt m] by (auto simp: refresh_one_def split: prod.splits sum.splits)
  show "max_entries (fst (refresh_all now ts m)) = max_entries m"
    by (induction ts arbitrary: m) (simp_all add: Let_def case_prod_unfold r)
qed

lemma mh_reachable_max: "mh_reachable m \<Longrightarrow> max_entries m = MAX_ROUTE_ENTRIES"
  by (induction rule: mh_reachable.induct)
     (auto simp: multihop_new_def mh_set_dht_def mh_set_relay_def add_direct_route_def insert_route_def
        mark_invalid_def refresh_stale_routes_def mh_remove_route_def find_alternative_def
        mh_cleanup_expired_def Let_def split: option.splits)

lemma find_route_insert:
  "find_route now (mh_target e) (insert_or_evict e m) = (if now < expires_at e then Some e else None)"
  by (simp add: find_route_def insert_or_evict_def Let_def route_is_expired_def)

text \<open>
  Whatever sequence of operations built it, the route table has at most 1000 routes,
  each stored under its target; a route that is not expired can be looked up, and inserting a new
  route keeps every other route except at most one, of the smallest activity time in a full table.
\<close>

theorem route_table_bounded:
  assumes "mh_reachable m"
  shows "route_count m \<le> 1000
    \<and> (\<forall>tgt e. find_route now tgt m = Some e \<longrightarrow> mh_target e = tgt \<and> now < expires_at e)
    \<and> find_route now (mh_target e) (insert_route e m) = (if now < expires_at e then Some e else None)
    \<and> (\<forall>k x. k \<noteq> mh_target e \<and> hm_get (mh_routes m) k = Some x \<and> hm_get (mh_routes (insert_route e m)) k = None
         \<longrightarrow> route_count m = 1000 \<and> (\<forall>k' x'. hm_get (mh_routes m) k' = Some x'
                \<longrightarrow> mh_last_active x \<le> mh_last_active x'))"
proof -
  have inv: "mh_inv m" using assms by (rule mh_reachable_inv)
  have mx: "max_entries m = 1000" using mh_reachable_max [OF assms] by (simp add: MAX_ROUTE_ENTRIES_def)
  have "route_count m = 1000 \<and> mh_last_active x \<le> mh_last_active x'"
    if "k \<noteq> mh_target e" "hm_get (mh_routes m) k = Some x" "hm_get (mh_routes (insert_route e m)) k = None"
      and "hm_get (mh_routes m) k' = Some x'" for k x k' x'
  proof -
    have "\<not> hm_len (mh_routes m) < max_entries m" "\<not> hm_contains (mh_target e) (mh_routes m)"
      using that(1-3) by (auto simp: insert_route_def insert_or_evict_def split: if_splits)
    moreover have "mh_routes m \<noteq> []" using that(2) by auto
    then obtain a y where a: "min_by_key (\<lambda>(_, x). mh_last_active x) (mh_routes m) = Some (a, y)"
      by (metis min_by_key_None not_None_eq surj_pair)
    ultimately have "a = k"
      using that(1-3) by (auto simp: insert_route_def insert_or_evict_def Let_def split: if_splits)
    moreover have "hm_ok (mh_routes m)" using inv by (simp add: mh_inv_def)
    then have "hm_get (mh_routes m) a = Some y" "(k', x') \<in> set (mh_routes m)"
      using min_by_key_SomeD [OF a] that(4) by (simp_all add: hm_mem_get)
    ultimately show ?thesis
      using min_by_key_SomeD [OF a] that(2) inv mx \<open>\<not> hm_len (mh_routes m) < max_entries m\<close>
      by (auto simp: mh_inv_def route_count_def)
  qed
  moreover have "find_route now (mh_target e) (insert_route e m) = (if now < expires_at e then Some e else None)"
    by (simp add: insert_route_def find_route_insert)
  moreover have "mh_target e = tgt \<and> now < expires_at e" if "find_route now tgt m = Some e" for tgt e
    using that inv by (auto simp: mh_inv_def find_route_def route_is_expired_def split: option.splits if_splits)
  moreover have "route_count m \<le> 1000" using inv mx by (simp add: mh_inv_def route_count_def)
  ultimately show ?thesis by blast
qed

theorem route_table_bounded_witness:
  "route_count (add_direct_route 5 [2] [104] (multihop_new 0 [1])) \<le> 1000"
  using route_table_bounded [of "add_direct_route 5 [2] [104] (multihop_new 0 [1])"]
  by (simp add: mh_direct mh_init)

section \<open>Discovery\<close>

lemma bytes_number_append: "bytes_number (xs @ ys) = bytes_number xs * 256 ^ length ys + bytes_number ys"
  by (induction xs) (simp_all add: algebra_simps power_add)

lemma unat_shift_byte:
  fixes d :: "128 word" and b :: u8
  assumes "unat d < 256 ^ 15"
  shows "unat (push_bit 8 d OR ucast b) = unat d * 256 + unat b"
proof -
  have b: "unat b < 256" using unsigned_less [of b, where 'a = nat] by simp
  have "push_bit 8 d OR ucast b = push_bit 8 d + ucast b"
    by (rule disjunctive_add [symmetric]) (auto simp: bit_simps dest: bit_imp_le_length)
  moreover have "unat (push_bit 8 d) = unat d * 256"
    using assms by (simp add: push_bit_eq_mult unat_word_ariths)
  moreover have "unat (ucast b :: 128 word) = unat b"
    using b by (simp add: unsigned_ucast_eq take_bit_nat_eq_self_iff)
  ultimately show ?thesis
    using assms b by (simp add: unat_word_ariths)
qed

lemma distance_from_number:
  "length ps \<le> 16 \<Longrightarrow> unat (distance_from 0 ps) = bytes_number (map (\<lambda>(a, b). a XOR b) ps)"
proof (induction ps rule: rev_induct)
  case (snoc p ps)
  obtain a b where p: "p = (a, b)" by force
  let ?n = "bytes_number (map (\<lambda>(a, b). a XOR b) ps)"
  have "?n < 256 ^ length ps"
    using bytes_number_bound [of "map (\<lambda>(a, b). a XOR b) ps"] by simp
  also have "\<dots> \<le> 256 ^ 15" using snoc.prems by (intro power_increasing) auto
  finally have "unat (distance_from 0 ps) < 256 ^ 15" using snoc by simp
  moreover have "distance_from d (ps @ [(a, b)]) = push_bit 8 (distance_from d ps) OR ucast (a XOR b)" for d
    by (induction d ps rule: distance_from.induct) auto
  ultimately show ?case
    using snoc p unat_shift_byte [of "distance_from 0 ps" "a XOR b"] by (simp add: bytes_number_append)
qed simp

lemma xor_u128_number:
  assumes "node_ok n" "node_ok tgt"
  shows "unat (xor_distance_u128 n tgt) = xor_metric tgt n div 256 ^ 16"
proof -
  let ?x = "xor_distance tgt n"
  have len: "length ?x = 32" using assms by (simp add: xor_distance_def node_ok_def)
  have "map (\<lambda>(a, b). a XOR b) (zip (take 16 n) (take 16 tgt)) = take 16 ?x"
    using assms by (intro nth_equalityI) (simp_all add: xor_distance_def node_ok_def xor.commute)
  then have "unat (xor_distance_u128 n tgt) = bytes_number (take 16 ?x)"
    using distance_from_number [of "zip (take 16 n) (take 16 tgt)"] by (simp add: xor_distance_u128_def)
  moreover have "xor_metric tgt n = bytes_number (take 16 ?x) * 256 ^ 16 + bytes_number (drop 16 ?x)"
    using bytes_number_append [of "take 16 ?x" "drop 16 ?x"] len by (simp add: xor_metric_def)
  moreover have "bytes_number (drop 16 ?x) < 256 ^ 16"
    using bytes_number_bound [of "drop 16 ?x"] len by simp
  ultimately show ?thesis by simp
qed

text \<open>The DHT returns its nodes in the order of the full distance, so sorting them again by the
  first half of the distance changes nothing.\<close>

lemma sort_candidates_nearest:
  assumes d: "dht_inv d" and t: "node_ok tgt"
  shows "sort_candidates tgt (find_node tgt d) = find_node tgt d"
proof -
  let ?cs = "find_node tgt d"
  have ok: "\<forall>(n, a) \<in> set ?cs. node_ok n"
    using find_nearest_mem [OF d, of tgt K_BUCKET_SIZE] by (auto simp: find_node_def)
  have S: "sorted_wrt (\<lambda>p q. xor_metric tgt (fst p) \<le> xor_metric tgt (fst q)) ?cs"
    using find_nearest_spec [OF d t, of K_BUCKET_SIZE] by (simp add: find_node_def sorted_map case_prod_unfold)
  have mono: "xor_distance_u128 (fst p) tgt \<le> xor_distance_u128 (fst q) tgt"
    if "p \<in> set ?cs" "q \<in> set ?cs" "xor_metric tgt (fst p) \<le> xor_metric tgt (fst q)" for p q
  proof -
    have p: "node_ok (fst p)" and q: "node_ok (fst q)" using that(1,2) ok by auto
    show ?thesis
      unfolding word_le_nat_alt xor_u128_number [OF p t] xor_u128_number [OF q t]
      by (rule div_le_mono [OF that(3)])
  qed
  from sorted_wrt_mono_rel [OF mono S]
  show ?thesis by (simp add: sort_candidates_def sort_by_sorted case_prod_unfold)
qed

lemma xor_metric_zero: "node_ok a \<Longrightarrow> node_ok b \<Longrightarrow> xor_metric a b = 0 \<longleftrightarrow> a = b"
proof -
  have "bytes_number bs = 0 \<longleftrightarrow> (\<forall>b \<in> set bs. b = 0)" for bs
    by (induction bs) (auto simp: unat_eq_zero)
  then show "node_ok a \<Longrightarrow> node_ok b \<Longrightarrow> xor_metric a b = 0 \<longleftrightarrow> a = b"
    using xor_distance_zero [of a b] by (simp add: xor_metric_def node_ok_def)
qed

text \<open>
  Route discovery over a reachable DHT. With an empty routing table there is no route
  and nothing changes; otherwise a route is stored whose next hop is a known node at the least XOR
  distance of the target, and it is a direct route exactly if the DHT knows the target itself.
\<close>

theorem discover_route_nearest:
  assumes "dht_reachable sha d" "mh_dht m = Some d" "node_ok tgt" "tgt \<noteq> mh_local_id m"
  shows "let (m', r) = discover_route now tgt m
    in if all_nodes d = [] then m' = m \<and> r = Inl (NoRoute tgt)
       else r = Inr () \<and> (\<exists>e. find_route now tgt m' = Some e
              \<and> mh_next_hop e \<in> fst ` set (all_nodes d)
              \<and> (\<forall>(n, _) \<in> set (all_nodes d). xor_metric tgt (mh_next_hop e) \<le> xor_metric tgt n)
              \<and> (is_direct e \<longleftrightarrow> mh_next_hop e = tgt)
              \<and> (is_direct e \<longleftrightarrow> tgt \<in> fst ` set (all_nodes d)))"
proof -
  have d: "dht_inv d" using assms(1) by (rule dht_reachable_inv)
  let ?cs = "find_node tgt d"
  obtain rest where spec: "length ?cs = min K_BUCKET_SIZE (node_count d)"
    "sorted (map (\<lambda>(n, _). xor_metric tgt n) ?cs)" "mset (all_nodes d) = mset ?cs + mset rest"
    "\<forall>(n, _) \<in> set ?cs. \<forall>(k, _) \<in> set rest. xor_metric tgt n \<le> xor_metric tgt k"
    using find_nearest_spec [OF d assms(3), of K_BUCKET_SIZE] by (auto simp: find_node_def)
  have cnt: "node_count d = length (all_nodes d)"
    by (simp add: node_count_def all_nodes_def all_entries_def length_concat comp_def)
  show ?thesis
  proof (cases "all_nodes d = []")
    case True
    then have "?cs = []" using spec(3) by simp
    with True assms(2,4) show ?thesis by (simp add: discover_route_def Let_def)
  next
    case False
    then have ne: "?cs \<noteq> []" using spec(1) cnt by (auto simp: K_BUCKET_SIZE_def min_def split: if_splits)
    let ?e = "discovered now tgt ?cs"
    have set: "set (all_nodes d) = set ?cs \<union> set rest"
      using arg_cong [OF spec(3), of set_mset] by simp
    have hd: "hd ?cs \<in> set ?cs" using ne by simp
    have "\<forall>q \<in> set ?cs. xor_metric tgt (fst (hd ?cs)) \<le> xor_metric tgt (fst q)"
      using spec(2) ne by (cases ?cs) (auto simp: case_prod_unfold)
    with spec(4) hd set
    have least: "\<forall>(n, _) \<in> set (all_nodes d). xor_metric tgt (fst (hd ?cs)) \<le> xor_metric tgt n"
      by (fastforce simp: case_prod_unfold)
    have "node_ok (fst (hd ?cs))"
      using find_nearest_mem [OF d, of tgt K_BUCKET_SIZE] hd by (auto simp: find_node_def case_prod_unfold)
    then have direct: "fst (hd ?cs) = tgt \<longleftrightarrow> tgt \<in> fst ` set (all_nodes d)"
      using least set hd xor_metric_zero [OF assms(3,3)] xor_metric_zero [OF assms(3), of "fst (hd ?cs)"]
      by force
    have e: "mh_target ?e = tgt" "mh_next_hop ?e = fst (hd ?cs)" "now < expires_at ?e"
      "is_direct ?e \<longleftrightarrow> fst (hd ?cs) = tgt"
      by (auto simp: discovered_def multi_hop_entry_new_def Let_def route_expiry_def is_direct_def
          DEFAULT_ROUTE_TIMEOUT_SECS_def)
    have "find_route now tgt (insert_or_evict ?e m) = Some ?e"
      using find_route_insert [of now ?e m] e(1,3) by simp
    moreover have "fst (hd ?cs) \<in> fst ` set (all_nodes d)" using hd set by auto
    moreover have "discover_route now tgt m = (insert_or_evict ?e m, Inr ())"
      using ne assms(2,4) sort_candidates_nearest [OF d assms(3)] by (simp add: discover_route_def Let_def)
    ultimately show ?thesis
      using False least e(2,4) direct by simp
  qed
qed

lemma demo_dht_nodes:
  "all_nodes (fst (insert_node 0 (replicate 32 2) [104] (dht_new (replicate 32 0)))) = [(replicate 32 2, [104])]"
  by code_simp

lemma demo_dht_find:
  "find_node (replicate 32 7) (fst (insert_node 0 (replicate 32 2) [104] (dht_new (replicate 32 0)))) = [(replicate 32 2, [104])]"
  by code_simp

theorem discover_route_nearest_witness:
  "let d = fst (insert_node 0 (replicate 32 2) [104] (dht_new (replicate 32 0)));
       m = mh_set_dht d (multihop_new 0 (replicate 32 0))
   in snd (discover_route 9 (replicate 32 7) m) = Inr ()"
proof -
  let ?d = "fst (insert_node 0 (replicate 32 2) [104] (dht_new (replicate 32 0)))"
  have "dht_reachable (\<lambda>b. b) ?d"
    by (intro dht_insert dht_create) (simp_all add: node_ok_def addr_ok_def)
  from discover_route_nearest [OF this, of "mh_set_dht ?d (multihop_new 0 (replicate 32 0))" "replicate 32 7" 9]
  show ?thesis
    by (simp add: demo_dht_nodes mh_set_dht_def multihop_new_def node_ok_def case_prod_unfold Let_def)
qed

section \<open>Alternatives\<close>

text \<open>Switching again and again, at the given times.\<close>

definition switch_all :: "instant list \<Rightarrow> NodeID \<Rightarrow> MultihopManager \<Rightarrow> MultihopManager" where
  "switch_all ts tgt m = foldl (\<lambda>m now. fst (find_alternative now tgt m)) m ts"

lemma find_alternative_step:
  assumes "hm_get (mh_routes m) tgt = Some e" "candidates e = (b, x) # (c, y) # cs"
    and "b \<noteq> c" "b \<noteq> mh_local_id m" "c \<noteq> mh_local_id m"
  shows "let m' = fst (find_alternative now tgt m)
    in mh_local_id m' = mh_local_id m
       \<and> (\<exists>e'. hm_get (mh_routes m') tgt = Some e' \<and> candidates e' = candidates e \<and> mh_hop_count e' = mh_hop_count e
            \<and> mh_connection_type e' = Relay \<and> mh_next_hop e' = (if mh_next_hop e = b then c else b))"
  using assms by (auto simp: find_alternative_def Let_def)

text \<open>
  Failing over. Each switch leaves the failed next hop, but the list of candidates never
  shrinks: repeated switches alternate between the first two candidates and never reach a third,
  and the hop count of a formerly direct route stays 1.
\<close>

theorem alternatives_alternate:
  assumes "hm_get (mh_routes m) tgt = Some e" "candidates e = (b, x) # (c, y) # cs"
    and "b \<noteq> c" "b \<noteq> mh_local_id m" "c \<noteq> mh_local_id m" "mh_next_hop e \<noteq> b" "ts \<noteq> []"
  shows "\<exists>e'. hm_get (mh_routes (switch_all ts tgt m)) tgt = Some e'
    \<and> mh_next_hop e' = (if odd (length ts) then b else c) \<and> mh_hop_count e' = mh_hop_count e
    \<and> mh_connection_type e' = Relay"
proof -
  have "let m' = switch_all ts tgt m
    in mh_local_id m' = mh_local_id m
       \<and> (\<exists>e'. hm_get (mh_routes m') tgt = Some e' \<and> candidates e' = candidates e \<and> mh_hop_count e' = mh_hop_count e
            \<and> (ts \<noteq> [] \<longrightarrow> mh_connection_type e' = Relay)
            \<and> mh_next_hop e' = (if ts = [] then mh_next_hop e else if odd (length ts) then b else c))"
  proof (induction ts rule: rev_induct)
    case Nil
    then show ?case using assms(1) by (simp add: switch_all_def)
  next
    case (snoc t ts)
    then obtain e' where e': "hm_get (mh_routes (switch_all ts tgt m)) tgt = Some e'" "candidates e' = candidates e"
      "mh_hop_count e' = mh_hop_count e" "mh_local_id (switch_all ts tgt m) = mh_local_id m"
      "mh_next_hop e' = (if ts = [] then mh_next_hop e else if odd (length ts) then b else c)"
      by (auto simp: Let_def)
    have "switch_all (ts @ [t]) tgt m = fst (find_alternative t tgt (switch_all ts tgt m))"
      by (simp add: switch_all_def)
    then show ?case
      using find_alternative_step [OF e'(1), of b x c y cs t] e' assms(2-6) by (auto simp: Let_def)
  qed
  then show ?thesis using assms(7) by (auto simp: Let_def)
qed

definition demo_route :: MultihopManager where
  "demo_route = insert_route (multi_hop_entry_new 0 [9] [9] 1 Lan [([2], []), ([3], []), ([4], [])]) (multihop_new 0 [1])"

theorem alternatives_alternate_witness:
  "map_option mh_next_hop (hm_get (mh_routes (switch_all [1, 2, 3, 4] [9] demo_route)) [9]) = Some [3]"
proof -
  let ?e = "multi_hop_entry_new 0 [9] [9] 1 Lan [([2], []), ([3], []), ([4], [])]"
  have "hm_get (mh_routes demo_route) [9] = Some ?e" "mh_local_id demo_route = [1]"
    by (simp_all add: demo_route_def insert_route_def insert_or_evict_def multihop_new_def Let_def)
       (simp_all add: multi_hop_entry_new_def)
  then show ?thesis
    using alternatives_alternate [of demo_route "[9]" ?e "[2]" "[]" "[3]" "[]" "[([4], [])]" "[1, 2, 3, 4]"]
    by (auto simp: multi_hop_entry_new_def)
qed

end
