(* ===== verification/Multipath.thy ===== *)
theory Multipath
  imports Identity HashMap
begin

text \<open>
  Multipath transfer, \<^verbatim>\<open>crates/vpn/src/vpn/multipath.rs\<close>: paths with a quality score, cutting data
  into numbered fragments spread over the paths, and the reorder buffer at the other end. Scores
  and weights are \<^verbatim>\<open>f64\<close>; the model takes the floating-point operations as a parameter, so what is
  proved holds for any rounding. The loop that empties the buffer ends because each turn removes an
  entry; the loop over the data ends because every fragment is non-empty.
\<close>

definition DEFAULT_FRAGMENT_SIZE :: nat where "DEFAULT_FRAGMENT_SIZE = 1400"
definition DEFAULT_ACK_TIMEOUT_MS :: nat where "DEFAULT_ACK_TIMEOUT_MS = 3000"
definition DEFAULT_MAX_RETRANSMITS :: u32 where "DEFAULT_MAX_RETRANSMITS = 3"

definition LATENCY_WEIGHT :: "'f float_ops \<Rightarrow> 'f" where "LATENCY_WEIGHT F = f_lit F 7 10"
definition HOP_WEIGHT :: "'f float_ops \<Rightarrow> 'f" where "HOP_WEIGHT F = f_lit F 3 10"
definition HOP_PENALTY :: "'f float_ops \<Rightarrow> 'f" where "HOP_PENALTY F = f_lit F 100 1"

type_synonym PathId = u64
type_synonym SeqNumber = u64

record Fragment =
  fr_seq :: SeqNumber
  fr_stream_id :: u64
  fr_data :: bytes
  total_fragments :: u32

datatype PathState = Active | Degraded | Dead

record 'f PathInfo =
  pi_id :: PathId
  pi_target :: NodeID
  pi_addr :: string
  pi_hop_count :: u8
  latency_ms :: 'f
  score :: 'f
  weight :: 'f
  pi_state :: PathState
  bytes_sent :: u64
  bytes_acked :: u64
  lost_packets :: u32
  last_updated :: instant
  pi_last_active :: instant

definition calculate_score :: "'f float_ops \<Rightarrow> 'f \<Rightarrow> u8 \<Rightarrow> 'f" where
  "calculate_score F lat hops =
     f_add F (f_mul F lat (LATENCY_WEIGHT F))
       (f_mul F (f_mul F (f_of_nat F (unat hops)) (HOP_PENALTY F)) (HOP_WEIGHT F))"

definition update_metrics :: "'f float_ops \<Rightarrow> 'f PathInfo \<Rightarrow> 'f PathInfo" where
  "update_metrics F p =
     (let s = calculate_score F (latency_ms p) (pi_hop_count p)
      in p\<lparr>score := s,
           weight := f_max F (f_min F (f_div F (f_lit F 1 1) (f_max F s (f_lit F 1 1))) (f_lit F 1 1))
                       (f_lit F 1 10)\<rparr>)"

definition update_latency :: "'f float_ops \<Rightarrow> instant \<Rightarrow> 'f \<Rightarrow> 'f PathInfo \<Rightarrow> 'f PathInfo" where
  "update_latency F now lat p =
     update_metrics F
       (p\<lparr>latency_ms := f_add F (f_mul F (latency_ms p) (f_lit F 7 10)) (f_mul F lat (f_lit F 3 10)),
          pi_last_active := now\<rparr>)"

definition path_record_loss :: "'f PathInfo \<Rightarrow> 'f PathInfo" where
  "path_record_loss p =
     (let p = p\<lparr>lost_packets := lost_packets p + 1\<rparr>;
          p = (if lost_packets p > 5 then p\<lparr>pi_state := Degraded\<rparr> else p)
      in if lost_packets p > 20 then p\<lparr>pi_state := Dead\<rparr> else p)"

section \<open>The reorder buffer\<close>

record ReorderBuffer =
  rb_buffer :: "(SeqNumber, bytes) hmap"
  expected_seq :: SeqNumber
  rb_max_size :: nat
  rb_timeout :: nat

definition reorder_buffer_new :: "nat \<Rightarrow> ReorderBuffer" where
  "reorder_buffer_new n =
     \<lparr>rb_buffer = [], expected_seq = 0, rb_max_size = n, rb_timeout = DEFAULT_ACK_TIMEOUT_MS\<rparr>"

function rb_drain :: "SeqNumber \<Rightarrow> (SeqNumber, bytes) hmap \<Rightarrow> SeqNumber \<times> (SeqNumber, bytes) hmap \<times> bytes list" where
  "rb_drain n buf =
     (case hm_get buf n of
        None \<Rightarrow> (n, buf, [])
      | Some d \<Rightarrow> let (n', buf', out) = rb_drain (n + 1) (hm_remove n buf) in (n', buf', d # out))"
  by auto
termination
  by (relation "measure (\<lambda>(_, buf). length buf)") (auto intro: length_hm_remove)

declare rb_drain.simps [simp del]

definition rb_insert :: "SeqNumber \<Rightarrow> bytes \<Rightarrow> ReorderBuffer \<Rightarrow> ReorderBuffer \<times> bytes list option" where
  "rb_insert sq dat b =
     (if sq < expected_seq b then (b, None)
      else if sq = expected_seq b then
        (let (n, buf, out) = rb_drain (expected_seq b + 1) (rb_buffer b)
         in (b\<lparr>expected_seq := n, rb_buffer := buf\<rparr>, Some (dat # out)))
      else if hm_len (rb_buffer b) < rb_max_size b
      then (b\<lparr>rb_buffer := hm_insert sq dat (rb_buffer b)\<rparr>, None)
      else (b, None))"

definition buffered_count :: "ReorderBuffer \<Rightarrow> nat" where
  "buffered_count b = hm_len (rb_buffer b)"

definition buffered_sequences :: "ReorderBuffer \<Rightarrow> SeqNumber list" where
  "buffered_sequences b = sort (hm_keys (rb_buffer b))"

definition min_buffered :: "ReorderBuffer \<Rightarrow> SeqNumber option" where
  "min_buffered b = min_by_key (\<lambda>k. k) (hm_keys (rb_buffer b))"

definition rb_has_timeout :: "ReorderBuffer \<Rightarrow> bool" where
  "rb_has_timeout b = (case min_buffered b of Some m \<Rightarrow> m > expected_seq b + 10 | None \<Rightarrow> False)"

definition skip_lost :: "ReorderBuffer \<Rightarrow> ReorderBuffer \<times> u64" where
  "skip_lost b =
     (case min_buffered b of
        Some m \<Rightarrow> if m > expected_seq b then (b\<lparr>expected_seq := m\<rparr>, m - expected_seq b) else (b, 0)
      | None \<Rightarrow> (b, 0))"

definition rb_clear :: "ReorderBuffer \<Rightarrow> ReorderBuffer" where
  "rb_clear b = b\<lparr>rb_buffer := [], expected_seq := 0\<rparr>"

definition rb_is_empty :: "ReorderBuffer \<Rightarrow> bool" where
  "rb_is_empty b = (rb_buffer b = [])"

definition rb_set_timeout :: "nat \<Rightarrow> ReorderBuffer \<Rightarrow> ReorderBuffer" where
  "rb_set_timeout t b = b\<lparr>rb_timeout := t\<rparr>"

section \<open>The manager\<close>

record 'f MultiPathManager =
  mp_local_id :: NodeID
  paths :: "(PathId, 'f PathInfo) hmap"
  reorder_buffer :: ReorderBuffer
  next_path_id :: u64
  mp_next_seq :: u64
  fragment_size :: nat
  ack_timeout :: nat
  max_retransmits :: u32

definition multipath_new :: "NodeID \<Rightarrow> 'f MultiPathManager" where
  "multipath_new l =
     \<lparr>mp_local_id = l, paths = [], reorder_buffer = reorder_buffer_new 1024, next_path_id = 1,
      mp_next_seq = 0, fragment_size = DEFAULT_FRAGMENT_SIZE, ack_timeout = DEFAULT_ACK_TIMEOUT_MS,
      max_retransmits = DEFAULT_MAX_RETRANSMITS\<rparr>"

definition add_path ::
  "'f float_ops \<Rightarrow> instant \<Rightarrow> NodeID \<Rightarrow> string \<Rightarrow> u8 \<Rightarrow> 'f MultiPathManager \<Rightarrow> 'f MultiPathManager \<times> PathId" where
  "add_path F now tgt a hops m =
     (let i = next_path_id m;
          info = \<lparr>pi_id = i, pi_target = tgt, pi_addr = a, pi_hop_count = hops, latency_ms = f_lit F 50 1,
                  score = calculate_score F (f_lit F 50 1) hops, weight = f_lit F 1 1, pi_state = Active,
                  bytes_sent = 0, bytes_acked = 0, lost_packets = 0, last_updated = now, pi_last_active = now\<rparr>
      in (m\<lparr>next_path_id := i + 1, paths := hm_insert i info (paths m)\<rparr>, i))"

definition remove_path :: "PathId \<Rightarrow> 'f MultiPathManager \<Rightarrow> 'f MultiPathManager \<times> 'f PathInfo option" where
  "remove_path i m = (m\<lparr>paths := hm_remove i (paths m)\<rparr>, hm_get (paths m) i)"

definition path_count :: "'f MultiPathManager \<Rightarrow> nat" where
  "path_count m = hm_len (paths m)"

definition active_path_count :: "'f MultiPathManager \<Rightarrow> nat" where
  "active_path_count m = length (filter (\<lambda>p. pi_state p \<noteq> Dead) (hm_values (paths m)))"

definition path_score :: "PathId \<Rightarrow> 'f MultiPathManager \<Rightarrow> 'f option" where
  "path_score i m = map_option score (hm_get (paths m) i)"

definition all_paths :: "'f MultiPathManager \<Rightarrow> 'f PathInfo list" where
  "all_paths m = hm_values (paths m)"

text \<open>The loop of \<open>fragment_data\<close>.\<close>

function fragments_from :: "nat \<Rightarrow> SeqNumber \<Rightarrow> nat \<Rightarrow> bytes \<Rightarrow> (SeqNumber \<times> bytes) list" where
  "fragments_from fs sq off dat =
     (if off < length dat \<and> 0 < fs then
        let e = min (off + fs) (length dat)
        in (sq, take (e - off) (drop off dat)) # fragments_from fs (sq + 1) e dat
      else [])"
  by auto
termination
  by (relation "measure (\<lambda>(fs, sq, off, dat). length dat - off)") auto

declare fragments_from.simps [simp del]

text \<open>\<open>None\<close>: a fragment size of 0 divides by zero and panics.\<close>

definition fragment_data :: "bytes \<Rightarrow> 'f MultiPathManager \<Rightarrow> ('f MultiPathManager \<times> (SeqNumber \<times> bytes) list) option" where
  "fragment_data dat m =
     (if fragment_size m = 0 then None
      else
        let seq_start = mp_next_seq m;
            n = (length dat + fragment_size m - 1) div fragment_size m
        in Some (m\<lparr>mp_next_seq := seq_start + of_nat n\<rparr>, fragments_from (fragment_size m) seq_start 0 dat))"

text \<open>The inner loop of \<open>send_via_paths\<close>: moving on to a later path.\<close>

function advance :: "'f float_ops \<Rightarrow> 'f list \<Rightarrow> nat \<Rightarrow> 'f \<Rightarrow> SeqNumber \<Rightarrow> nat \<times> 'f" where
  "advance F ws i acc sq =
     (if i < length ws - 1 \<and> f_less F acc (f_of_nat F (unat sq))
      then advance F ws (i + 1) (f_add F acc (ws ! (i + 1))) sq
      else (i, acc))"
  by auto
termination
  by (relation "measure (\<lambda>(F, ws, i, acc, sq). length ws - i)") auto

declare advance.simps [simp del]

fun assign_paths ::
  "'f float_ops \<Rightarrow> 'f PathInfo list \<Rightarrow> u64 \<Rightarrow> u32 \<Rightarrow> nat \<Rightarrow> 'f \<Rightarrow> (SeqNumber \<times> bytes) list \<Rightarrow> (PathId \<times> Fragment) list" where
  "assign_paths F ps sid tot i acc [] = []"
| "assign_paths F ps sid tot i acc ((sq, d) # fs) =
     (let (i', acc') = advance F (map weight ps) i acc sq;
          p = ps ! (i' mod length ps)
      in (pi_id p, \<lparr>fr_seq = sq, fr_stream_id = sid, fr_data = d, total_fragments = tot\<rparr>)
         # assign_paths F ps sid tot i' acc' fs)"

definition send_via_paths ::
  "'f float_ops \<Rightarrow> bytes \<Rightarrow> u64 \<Rightarrow> 'f MultiPathManager \<Rightarrow> ('f MultiPathManager \<times> (PathId \<times> Fragment) list) option" where
  "send_via_paths F dat sid m =
     (let active_paths = filter (\<lambda>p. pi_state p \<noteq> Dead) (hm_values (paths m))
      in if active_paths = [] then Some (m, [])
         else map_option
                (\<lambda>(m', fragments).
                   (m', assign_paths F active_paths sid (of_nat (length fragments)) 0
                          (weight (hd active_paths)) fragments))
                (fragment_data dat m))"

definition update_path_latency ::
  "'f float_ops \<Rightarrow> instant \<Rightarrow> PathId \<Rightarrow> 'f \<Rightarrow> 'f MultiPathManager \<Rightarrow> 'f MultiPathManager" where
  "update_path_latency F now i lat m = m\<lparr>paths := hm_modify i (update_latency F now lat) (paths m)\<rparr>"

definition record_ack :: "instant \<Rightarrow> PathId \<Rightarrow> u64 \<Rightarrow> 'f MultiPathManager \<Rightarrow> 'f MultiPathManager" where
  "record_ack now i n m =
     m\<lparr>paths := hm_modify i (\<lambda>p. p\<lparr>bytes_acked := bytes_acked p + n, pi_last_active := now, pi_state := Active\<rparr>)
                 (paths m)\<rparr>"

definition record_loss :: "PathId \<Rightarrow> 'f MultiPathManager \<Rightarrow> 'f MultiPathManager" where
  "record_loss i m = m\<lparr>paths := hm_modify i path_record_loss (paths m)\<rparr>"

definition set_fragment_size :: "nat \<Rightarrow> 'f MultiPathManager \<Rightarrow> 'f MultiPathManager" where
  "set_fragment_size n m = m\<lparr>fragment_size := n\<rparr>"

section \<open>In-order delivery\<close>

text \<open>Fragments arriving one after the other, and everything handed out.\<close>

fun rb_run :: "(SeqNumber \<times> bytes) list \<Rightarrow> ReorderBuffer \<Rightarrow> ReorderBuffer \<times> bytes list" where
  "rb_run [] b = (b, [])"
| "rb_run ((sq, d) # xs) b =
     (let (b1, o1) = rb_insert sq d b; (b2, o2) = rb_run xs b1
      in (b2, (case o1 of None \<Rightarrow> [] | Some ds \<Rightarrow> ds) @ o2))"

text \<open>The payloads of the sequence numbers from \<open>a\<close> up to \<open>b\<close>.\<close>

definition payloads :: "(SeqNumber \<Rightarrow> bytes) \<Rightarrow> SeqNumber \<Rightarrow> SeqNumber \<Rightarrow> bytes list" where
  "payloads src a b = map (\<lambda>i. src (of_nat i)) [unat a..<unat b]"

lemma unat_plus_one_u64: "n \<noteq> - 1 \<Longrightarrow> unat (n + 1 :: u64) = unat n + 1"
proof -
  assume "n \<noteq> - 1"
  then have "unat n \<noteq> unat (- 1 :: u64)" using unsigned_word_eqI by blast
  then have "unat n + 1 < 2 ^ LENGTH(64)"
    using unsigned_less [of n, where 'a = nat] by (simp add: unat_max_word)
  then show ?thesis by (rule unat_add_one)
qed

lemma payloads_Cons: "n \<noteq> - 1 \<Longrightarrow> n < m \<Longrightarrow> payloads src n m = src n # payloads src (n + 1) m"
  by (simp add: payloads_def unat_plus_one_u64 word_less_nat_alt upt_conv_Cons)

lemma upt_split: "i \<le> j \<Longrightarrow> j \<le> k \<Longrightarrow> [i..<k] = [i..<j] @ [j..<k]"
  by (metis le_Suc_ex upt_add_eq_append)

lemma payloads_append: "a \<le> b \<Longrightarrow> b \<le> c \<Longrightarrow> payloads src a b @ payloads src b c = payloads src a c"
  by (simp add: payloads_def word_le_nat_alt upt_split [of "unat a" "unat b" "unat c"])

lemma payloads_empty [simp]: "payloads src a a = []"
  by (simp add: payloads_def)

lemma plus_one_bounds:
  assumes "(n :: u64) \<noteq> - 1"
  shows "n < n + 1" "n + 1 \<le> m \<longleftrightarrow> n < m" "m < n + 1 \<longleftrightarrow> m \<le> n"
  using unat_plus_one_u64 [OF assms] by (auto simp: word_less_nat_alt word_le_nat_alt)

lemma rb_drain_spec:
  assumes "rb_drain n buf = (n', buf', out)" "hm_ok buf"
    and "\<forall>s d. hm_get buf s = Some d \<longrightarrow> d = src s \<and> s \<noteq> - 1"
  shows "n \<le> n' \<and> out = payloads src n n' \<and> hm_ok buf' \<and> hm_get buf n' = None
    \<and> (\<forall>s. n \<le> s \<and> s < n' \<longrightarrow> hm_get buf s \<noteq> None)
    \<and> (\<forall>s. hm_get buf' s = (if n \<le> s \<and> s < n' then None else hm_get buf s))"
  using assms
proof (induction n buf arbitrary: out rule: rb_drain.induct)
  case (1 n buf)
  show ?case
  proof (cases "hm_get buf n")
    case None
    with "1.prems" have "n' = n" "buf' = buf" "out = []"
      by (simp_all add: rb_drain.simps [of n buf])
    with None "1.prems"(2) show ?thesis by auto
  next
    case (Some d)
    obtain out' where r: "rb_drain (n + 1) (hm_remove n buf) = (n', buf', out')" "out = d # out'"
      using "1.prems"(1) Some by (auto simp: rb_drain.simps [of n buf] split: prod.splits)
    have n: "n \<noteq> - 1" and d: "d = src n" using "1.prems"(3) Some by auto
    have IH: "n + 1 \<le> n'" "out' = payloads src (n + 1) n'" "hm_ok buf'" "hm_get (hm_remove n buf) n' = None"
      "\<forall>s. n + 1 \<le> s \<and> s < n' \<longrightarrow> hm_get (hm_remove n buf) s \<noteq> None"
      "\<forall>s. hm_get buf' s = (if n + 1 \<le> s \<and> s < n' then None else hm_get (hm_remove n buf) s)"
      using "1.IH" [OF Some r(1)] "1.prems"(2,3) by (auto split: if_splits)
    have lt: "n < n'" using IH(1) plus_one_bounds(2) [OF n] by blast
    moreover have "hm_get buf n' = None" using IH(4) lt by (auto split: if_splits)
    moreover have "out = payloads src n n'" using r(2) d IH(2) payloads_Cons [OF n lt] by simp
    moreover have "hm_get buf s \<noteq> None" if "n \<le> s \<and> s < n'" for s
      using IH(5) that Some plus_one_bounds(2) [OF n, of s] by (cases "s = n") (auto split: if_splits)
    moreover have "hm_get buf' s = (if n \<le> s \<and> s < n' then None else hm_get buf s)" for s
      using IH(6) lt plus_one_bounds(2) [OF n, of s] by (cases "s = n") auto
    ultimately show ?thesis using IH(3) by auto
  qed
qed

text \<open>
  \<open>rb_state src e0 A b\<close>: the buffer after the fragments numbered \<open>A\<close> arrived, having started empty
  at \<open>e0\<close>.
\<close>

definition rb_state :: "(SeqNumber \<Rightarrow> bytes) \<Rightarrow> SeqNumber \<Rightarrow> SeqNumber set \<Rightarrow> ReorderBuffer \<Rightarrow> bool" where
  "rb_state src e0 A b \<longleftrightarrow> hm_ok (rb_buffer b) \<and> e0 \<le> expected_seq b \<and> expected_seq b \<notin> A
     \<and> (\<forall>s d. hm_get (rb_buffer b) s = Some d \<longrightarrow> d = src s \<and> s \<noteq> - 1 \<and> s \<in> A \<and> expected_seq b < s)
     \<and> (\<forall>s. e0 \<le> s \<and> s < expected_seq b \<longrightarrow> s \<in> A)
     \<and> (\<forall>s \<in> A. e0 \<le> s \<longrightarrow> s < expected_seq b \<or> hm_get (rb_buffer b) s \<noteq> None)"

lemma rb_insert_state:
  assumes st: "rb_state src e0 A b" and sq: "sq \<noteq> - 1" and cap: "hm_len (rb_buffer b) < rb_max_size b"
    and r: "rb_insert sq (src sq) b = (b', res)"
  shows "rb_state src e0 (insert sq A) b' \<and> rb_max_size b' = rb_max_size b
    \<and> hm_len (rb_buffer b') \<le> Suc (hm_len (rb_buffer b)) \<and> expected_seq b \<le> expected_seq b'
    \<and> (case res of None \<Rightarrow> [] | Some ds \<Rightarrow> ds) = payloads src (expected_seq b) (expected_seq b')"
proof -
  consider "sq < expected_seq b" | "sq = expected_seq b" | "expected_seq b < sq" by force
  then show ?thesis
  proof cases
    case 1
    with st r show ?thesis by (auto simp: rb_insert_def rb_state_def)
  next
    case 2
    obtain n' buf' out where d: "rb_drain (expected_seq b + 1) (rb_buffer b) = (n', buf', out)"
      by (metis prod_cases3)
    have e: "expected_seq b \<noteq> - 1" using 2 sq by simp
    have ok: "hm_ok (rb_buffer b)" "\<forall>s d. hm_get (rb_buffer b) s = Some d \<longrightarrow> d = src s \<and> s \<noteq> - 1"
      using st by (auto simp: rb_state_def)
    have D: "expected_seq b + 1 \<le> n'" "out = payloads src (expected_seq b + 1) n'" "hm_ok buf'"
      "hm_get (rb_buffer b) n' = None"
      "\<And>s. expected_seq b + 1 \<le> s \<and> s < n' \<Longrightarrow> hm_get (rb_buffer b) s \<noteq> None"
      "\<And>s. hm_get buf' s = (if expected_seq b + 1 \<le> s \<and> s < n' then None else hm_get (rb_buffer b) s)"
      using rb_drain_spec [OF d ok] by blast+
    have lt: "expected_seq b < n'" using D(1) plus_one_bounds(2) [OF e] by blast
    have b': "b' = b\<lparr>expected_seq := n', rb_buffer := buf'\<rparr>" "res = Some (src sq # out)"
      using r 2 d by (auto simp: rb_insert_def)
    have S: "e0 \<le> expected_seq b"
      "\<And>s d. hm_get (rb_buffer b) s = Some d \<Longrightarrow> d = src s \<and> s \<noteq> - 1 \<and> s \<in> A \<and> expected_seq b < s"
      "\<And>s. e0 \<le> s \<Longrightarrow> s < expected_seq b \<Longrightarrow> s \<in> A"
      "\<And>s. s \<in> A \<Longrightarrow> e0 \<le> s \<Longrightarrow> s < expected_seq b \<or> hm_get (rb_buffer b) s \<noteq> None"
      using st by (auto simp: rb_state_def)
    have up: "expected_seq b + 1 \<le> s \<longleftrightarrow> expected_seq b < s" for s
      by (rule plus_one_bounds(2) [OF e])
    have e0: "e0 \<le> n'" using S(1) lt by (meson less_imp_le order_trans)
    have "n' \<notin> insert sq A" using S(4) [of n'] e0 D(4) lt 2 by auto
    moreover have "d = src s \<and> s \<noteq> - 1 \<and> s \<in> insert sq A \<and> n' < s" if "hm_get buf' s = Some d" for s d
    proof -
      have "hm_get (rb_buffer b) s = Some d" "\<not> (expected_seq b < s \<and> s < n')"
        using that D(6) [of s] up [of s] by (auto split: if_splits)
      with S(2) [of s d] D(4) show ?thesis by (cases "s = n'") auto
    qed
    moreover have "s \<in> insert sq A" if "e0 \<le> s" "s < n'" for s
      using that S(3) [of s] D(5) [of s] S(2) [of s] up [of s] 2
      by (cases s "expected_seq b" rule: linorder_cases) auto
    moreover have "s < n' \<or> hm_get buf' s \<noteq> None" if "s \<in> insert sq A" "e0 \<le> s" for s
      using that S(4) [of s] D(6) [of s] lt 2 by auto
    ultimately have "rb_state src e0 (insert sq A) b'"
      using D(3) e0 by (simp add: b' rb_state_def)
    moreover have "dom (hm_get buf') \<subseteq> dom (hm_get (rb_buffer b))" using D(6) by (auto simp: dom_def split: if_splits)
    then have "hm_len buf' \<le> hm_len (rb_buffer b)"
      using ok(1) D(3) by (simp add: hm_len_dom card_mono finite_dom_map_of)
    ultimately show ?thesis
      using b' lt D(2) 2 payloads_Cons [OF e lt] by simp
  next
    case 3
    then have "b' = b\<lparr>rb_buffer := hm_insert sq (src sq) (rb_buffer b)\<rparr>" "res = None"
      using r cap by (auto simp: rb_insert_def split: if_splits)
    with 3 st sq show ?thesis
      using hm.len_insert_le [of "rb_buffer b" sq "src sq"] by (auto simp: rb_state_def)
  qed
qed

lemma rb_run_state:
  assumes "rb_state src e0 A b" "\<forall>(s, d) \<in> set xs. d = src s \<and> s \<noteq> - 1"
    and "hm_len (rb_buffer b) + length xs \<le> rb_max_size b" "rb_run xs b = (b', out)"
  shows "rb_state src e0 (A \<union> fst ` set xs) b' \<and> expected_seq b \<le> expected_seq b'
    \<and> out = payloads src (expected_seq b) (expected_seq b')"
  using assms
proof (induction xs arbitrary: b A out)
  case (Cons x xs)
  obtain sq d where x: "x = (sq, d)" by force
  obtain b1 o1 where r1: "rb_insert sq (src sq) b = (b1, o1)" by force
  obtain o2 where r2: "rb_run xs b1 = (b', o2)" "out = (case o1 of None \<Rightarrow> [] | Some ds \<Rightarrow> ds) @ o2"
    using Cons.prems x r1 by (auto split: prod.splits)
  have sq: "sq \<noteq> - 1" "hm_len (rb_buffer b) < rb_max_size b" using Cons.prems(2,3) x by auto
  note I = rb_insert_state [OF Cons.prems(1) sq r1]
  have "rb_state src e0 (insert sq A \<union> fst ` set xs) b' \<and> expected_seq b1 \<le> expected_seq b'
    \<and> o2 = payloads src (expected_seq b1) (expected_seq b')"
    using Cons.IH [of "insert sq A" b1 o2] I r2(1) Cons.prems(2,3) x by auto
  then show ?case
    using I r2(2) payloads_append [of "expected_seq b" "expected_seq b1" "expected_seq b'" src] x
    by (auto intro: order_trans)
qed simp

lemma reorder_buffer_run:
  assumes "rb_buffer b = []" "\<forall>(s, d) \<in> set xs. d = src s \<and> s \<noteq> - 1" "length xs \<le> rb_max_size b"
  shows "let (b', out) = rb_run xs b
    in out = payloads src (expected_seq b) (expected_seq b') \<and> expected_seq b \<le> expected_seq b'
       \<and> expected_seq b' \<notin> fst ` set xs
       \<and> (\<forall>s. expected_seq b \<le> s \<and> s < expected_seq b' \<longrightarrow> s \<in> fst ` set xs)"
proof -
  obtain b' out where r: "rb_run xs b = (b', out)" by force
  have "rb_state src (expected_seq b) {} b"
    using assms(1) by (auto simp: rb_state_def)
  from rb_run_state [OF this assms(2) _ r] assms(1,3) r show ?thesis
    by (auto simp: rb_state_def)
qed

text \<open>
  The reorder buffer. Starting empty, and never fuller than its size, whatever fragments
  of a stream arrive in whatever order and however often, it hands out exactly the longest run of
  consecutive fragments that have arrived, in order and each once, and waits for the first one that
  has not.
\<close>

theorem reorder_buffer_exact:
  assumes "rb_buffer b = []" "\<forall>(s, d) \<in> set xs. d = src s \<and> s \<noteq> - 1" "length xs \<le> rb_max_size b"
  shows "let (b', out) = rb_run xs b
    in out = payloads src (expected_seq b) (expected_seq b') \<and> expected_seq b \<le> expected_seq b'
       \<and> expected_seq b' \<notin> fst ` set xs
       \<and> (\<forall>s. expected_seq b \<le> s \<and> s < expected_seq b' \<longrightarrow> s \<in> fst ` set xs)"
  using assms by (rule reorder_buffer_run)

theorem reorder_buffer_exact_witness:
  "snd (rb_run [(2, [2]), (0, [0]), (2, [2]), (1, [1])] (reorder_buffer_new 10)) = [[0], [1], [2]]"
proof -
  let ?xs = "[(2, [2]), (0, [0]), (2, [2]), (1, [1])] :: (u64 \<times> bytes) list"
  have "let (b', out) = rb_run ?xs (reorder_buffer_new 10)
    in out = payloads (\<lambda>s. [ucast s]) 0 (expected_seq b') \<and> (0 :: u64) \<le> expected_seq b'
       \<and> expected_seq b' \<notin> fst ` set ?xs
       \<and> (\<forall>s. 0 \<le> s \<and> s < expected_seq b' \<longrightarrow> s \<in> fst ` set ?xs)"
    using reorder_buffer_exact [of "reorder_buffer_new 10" ?xs "\<lambda>s. [ucast s]"]
    by (simp add: reorder_buffer_new_def)
  then show ?thesis
    by (simp add: reorder_buffer_new_def rb_insert_def rb_drain.simps hm_insert_def hm_remove_def)
qed

section \<open>A transfer over several paths\<close>

lemma fragments_concat: "0 < fs \<Longrightarrow> concat (map snd (fragments_from fs sq off dat)) = drop off dat"
proof (induction fs sq off dat rule: fragments_from.induct)
  case (1 fs sq off dat)
  show ?case
  proof (cases "off < length dat")
    case True
    define e where "e = min (off + fs) (length dat)"
    have "take (e - off) (drop off dat) @ drop e dat = drop off dat"
      using True append_take_drop_id [of "e - off" "drop off dat"] 1(2) by (simp add: e_def drop_drop min_def)
    moreover have "concat (map snd (fragments_from fs (sq + 1) e dat)) = drop e dat"
      using 1(1) [OF _ e_def] True 1(2) by simp
    ultimately show ?thesis
      using True 1(2) by (simp add: fragments_from.simps [of fs sq off dat] e_def Let_def)
  next
    case False
    then show ?thesis by (simp add: fragments_from.simps)
  qed
qed

lemma fragments_seqs:
  "map fst (fragments_from fs sq off dat) = map (\<lambda>i. sq + of_nat i) [0..<length (fragments_from fs sq off dat)]"
proof (induction fs sq off dat rule: fragments_from.induct)
  case (1 fs sq off dat)
  show ?case
  proof (cases "off < length dat \<and> 0 < fs")
    case True
    define e where "e = min (off + fs) (length dat)"
    let ?r = "fragments_from fs (sq + 1) e dat"
    have "map fst ?r = map (\<lambda>i. sq + of_nat (Suc i)) [0..<length ?r]"
      using 1 [OF True e_def] by (simp add: add.assoc)
    moreover have "map (\<lambda>i. sq + of_nat i) [0..<Suc (length ?r)] = sq # map (\<lambda>i. sq + of_nat (Suc i)) [0..<length ?r]"
      by (simp add: map_upt_Suc del: upt_Suc)
    ultimately show ?thesis
      using True by (simp add: fragments_from.simps [of fs sq off dat] e_def [symmetric] Let_def del: upt_Suc)
  next
    case False
    then show ?thesis by (simp add: fragments_from.simps)
  qed
qed

lemma fragments_length:
  "0 < fs \<Longrightarrow> length (fragments_from fs sq off dat) = (length dat - off + fs - 1) div fs"
proof (induction fs sq off dat rule: fragments_from.induct)
  case (1 fs sq off dat)
  show ?case
  proof (cases "off < length dat")
    case True
    define e where "e = min (off + fs) (length dat)"
    have IH: "length (fragments_from fs (sq + 1) e dat) = (length dat - e + fs - 1) div fs"
      using 1(1) [OF _ e_def] True 1(2) by simp
    have "Suc ((length dat - e + fs - 1) div fs) = (length dat - off + fs - 1) div fs"
    proof (cases "off + fs \<le> length dat")
      case True
      then have "length dat - off + fs - 1 = (length dat - e + fs - 1) + fs" by (simp add: e_def)
      moreover have "(x + fs) div fs = Suc (x div fs)" for x using 1(2) div_add_self2 [of fs x] by linarith
      ultimately show ?thesis by (simp only:)
    next
      case False
      with True have "length dat - e = 0" "length dat - off + fs - 1 = (length dat - off - 1) + fs"
        "length dat - off - 1 < fs"
        by (auto simp: e_def)
      then show ?thesis
        using 1(2) div_add_self2 [of fs "length dat - off - 1"] by simp
    qed
    with IH show ?thesis
      using True 1(2) by (simp add: fragments_from.simps [of fs sq off dat] e_def [symmetric] Let_def)
  next
    case False
    then show ?thesis using 1(2) by (simp add: fragments_from.simps)
  qed
qed

lemma assign_paths_fragments:
  "map (\<lambda>(p, f). (fr_seq f, fr_data f)) (assign_paths F ps sid tot i acc fs) = fs"
  by (induction F ps sid tot i acc fs rule: assign_paths.induct) (simp_all add: Let_def case_prod_unfold)

lemma assign_paths_ids:
  assumes "ps \<noteq> []"
  shows "(p, f) \<in> set (assign_paths F ps sid tot i acc fs) \<Longrightarrow> p \<in> pi_id ` set ps"
proof (induction fs arbitrary: i acc)
  case (Cons x fs)
  then show ?case
    using assms by (cases x) (auto simp: Let_def case_prod_unfold)
qed simp

lemma unat_seq: "unat start + n < 2 ^ 64 \<Longrightarrow> i \<le> n \<Longrightarrow> unat (start + of_nat i :: u64) = unat start + i"
  by (simp add: unat_word_ariths unat_of_nat_small)

lemma reorder_whole_stream:
  assumes xs: "map fst xs = map (\<lambda>i. start + of_nat i) [0..<length xs]" "unat start + length xs < 2 ^ 64"
    and rs: "set rs = set xs" "length rs \<le> rb_max_size b" "rb_buffer b = []" "expected_seq b = start"
  shows "snd (rb_run rs b) = map snd xs \<and> expected_seq (fst (rb_run rs b)) = start + of_nat (length xs)"
proof -
  let ?n = "length xs"
  obtain b' out where r: "rb_run rs b = (b', out)" by force
  note un = unat_seq [OF xs(2)]
  have fst_nth: "fst (xs ! i) = start + of_nat i" if "i < ?n" for i
    using arg_cong [OF xs(1), of "\<lambda>l. l ! i"] that by simp
  have dist: "distinct (map fst xs)"
    unfolding xs(1) distinct_map
  proof (intro conjI inj_onI)
    fix i j assume ij: "i \<in> set [0..<?n]" "j \<in> set [0..<?n]" "start + of_nat i = start + of_nat j"
    have "unat (start + of_nat i) = unat start + i" "unat (start + of_nat j) = unat start + j"
      using ij(1,2) by (auto intro!: un)
    with ij(3) show "i = j" by (metis add_left_cancel)
  qed simp
  define src where "src = (\<lambda>s. the (map_of xs s))"
  have src: "\<forall>(s, d) \<in> set rs. d = src s \<and> s \<noteq> - 1"
  proof (clarify, intro conjI)
    fix s d assume sd: "(s, d) \<in> set rs"
    then show "d = src s" using dist rs(1) by (simp add: src_def)
    obtain i where "i < ?n" "s = start + of_nat i" using sd rs(1) fst_nth by (metis fst_conv in_set_conv_nth)
    then have "unat s < 2 ^ 64 - 1" using un [of i] xs(2) by simp
    then show "s \<noteq> - 1" by (auto simp: unat_max_word)
  qed
  have E: "out = payloads src start (expected_seq b')" "start \<le> expected_seq b'" "expected_seq b' \<notin> fst ` set xs"
    "\<And>s. start \<le> s \<Longrightarrow> s < expected_seq b' \<Longrightarrow> s \<in> fst ` set xs"
    using reorder_buffer_run [OF rs(3) src rs(2)] r rs(1,4) by auto
  have img: "fst ` set xs = (\<lambda>i. start + of_nat i) ` {0..<?n}"
    using arg_cong [OF xs(1), of set] by simp
  have "\<not> unat (expected_seq b') < unat start + ?n"
  proof
    assume lt: "unat (expected_seq b') < unat start + ?n"
    define i where "i = unat (expected_seq b') - unat start"
    have "i < ?n" "unat (expected_seq b') = unat (start + of_nat i)"
      using lt E(2) un [of i] by (auto simp: i_def word_le_nat_alt)
    then have "expected_seq b' = start + of_nat i" using unsigned_word_eqI by blast
    with \<open>i < ?n\<close> E(3) show False by (auto simp: img)
  qed
  moreover have "\<not> unat start + ?n < unat (expected_seq b')"
  proof
    assume "unat start + ?n < unat (expected_seq b')"
    then have "start + of_nat ?n \<in> fst ` set xs"
      using un [of ?n] by (intro E(4)) (auto simp: word_le_nat_alt word_less_nat_alt)
    then obtain i where "i < ?n" "unat (start + of_nat ?n) = unat (start + of_nat i)"
      unfolding img by auto
    then show False using un [of i] un [of ?n] by simp
  qed
  ultimately have e': "unat (expected_seq b') = unat start + ?n" by simp
  then have "expected_seq b' = start + of_nat ?n"
    using un [of ?n] unsigned_word_eqI [of "expected_seq b'" "start + of_nat ?n", where 'a = nat] by simp
  moreover have "out = map snd xs"
  proof (rule nth_equalityI)
    show "length out = length (map snd xs)" by (simp add: E(1) payloads_def e')
    fix i assume "i < length out"
    then have i: "i < ?n" by (simp add: E(1) payloads_def e')
    then have "out ! i = src (start + of_nat i)" by (simp add: E(1) payloads_def e')
    also have "\<dots> = snd (xs ! i)"
      using dist i fst_nth [OF i] map_of_eq_Some_iff [OF dist, of "start + of_nat i" "snd (xs ! i)"]
      by (metis nth_mem option.sel prod.collapse src_def)
    finally show "out ! i = map snd xs ! i" using i by simp
  qed
  ultimately show ?thesis using r by simp
qed


definition demo_float :: "int float_ops" where
  "demo_float = \<lparr>f_add = (+), f_sub = (-), f_mul = (*), f_div = (div), f_max = max, f_min = min, f_less = (<),
                 f_of_nat = int, f_lit = (\<lambda>n d. int n div int d), f_to_nat = nat, f_is_duration = (\<lambda>x. 0 \<le> x)\<rparr>"

definition demo_paths :: "int MultiPathManager" where
  "demo_paths = set_fragment_size 2 (fst (add_path demo_float 0 [9] ''a'' 1 (multipath_new [1])))"


section \<open>Skipping lost fragments\<close>

text \<open>
  Giving up on a gap strands what is behind it: after \<open>skip_lost\<close> the buffer waits for
  the very fragment it already holds, and every other fragment that arrives is only buffered.
\<close>

theorem skip_lost_strands:
  assumes "min_buffered b = Some n" "expected_seq b < n"
  shows "let (b', skipped) = skip_lost b
    in skipped = n - expected_seq b \<and> expected_seq b' = n \<and> hm_get (rb_buffer b') n \<noteq> None
       \<and> (\<forall>sq d. sq \<noteq> n \<longrightarrow> snd (rb_insert sq d b') = None \<and> expected_seq (fst (rb_insert sq d b')) = n)"
proof -
  have "n \<in> set (hm_keys (rb_buffer b))"
    using min_by_key_SomeD [OF assms(1) [unfolded min_buffered_def]] by blast
  then show ?thesis
    using assms by (auto simp: skip_lost_def rb_insert_def hm_keys_iff)
qed

definition demo_gap :: ReorderBuffer where
  "demo_gap = \<lparr>rb_buffer = [(3, [3])], expected_seq = 0, rb_max_size = 8, rb_timeout = 3000\<rparr>"

theorem skip_lost_strands_witness:
  "snd (rb_insert 4 [4] (fst (skip_lost demo_gap))) = None"
proof -
  have "min_buffered demo_gap = Some 3" "expected_seq demo_gap < 3"
    by (simp_all add: demo_gap_def min_buffered_def hm_keys_def)
  from skip_lost_strands [OF this] show ?thesis
    by (simp add: case_prod_unfold Let_def)
qed

end
