(* ===== verification/Handshake.thy ===== *)
theory Handshake
  imports Identity
begin

text \<open>
  The handshake, \<^verbatim>\<open>crates/vpn/src/vpn/handshake.rs\<close>: the phases of initiator and responder, their
  messages and the timestamp checks. The Noise library \<^verbatim>\<open>snow\<close> is third-party: the key pair it
  generates is handed in by the caller, and building a Noise state is a parameter whose result the
  source stores but never uses. Times are Unix seconds.
\<close>

definition REPLAY_WINDOW_SECS :: u64 where "REPLAY_WINDOW_SECS = 60"

datatype HandshakeError = SnowError string | HsInvalidState string | ReplayDetected u64
  | TimestampExpired u64 u64 | HsInvalidData string

datatype HandshakeMsgType = Hello | HelloAck | HsData

definition hst_from_u8 :: "u8 \<Rightarrow> HandshakeMsgType option" where
  "hst_from_u8 b = (if b = 1 then Some Hello else if b = 2 then Some HelloAck else if b = 3 then Some HsData else None)"

fun hst_to_u8 :: "HandshakeMsgType \<Rightarrow> u8" where
  "hst_to_u8 Hello = 1"
| "hst_to_u8 HelloAck = 2"
| "hst_to_u8 HsData = 3"

datatype HandshakePhase = HsInit | HelloSent | HelloReceived | HelloAckReceived | HsEstablished | HsFailed

record TimestampedPayload =
  tp_timestamp :: u64
  tp_payload :: bytes

definition tp_to_bytes :: "TimestampedPayload \<Rightarrow> bytes" where
  "tp_to_bytes p = be_bytes 8 (tp_timestamp p) @ tp_payload p"

definition tp_from_bytes :: "bytes \<Rightarrow> TimestampedPayload option" where
  "tp_from_bytes dat =
     (if length dat < 8 then None
      else Some \<lparr>tp_timestamp = be_word (take 8 dat), tp_payload = drop 8 dat\<rparr>)"

definition tp_validate :: "u64 \<Rightarrow> TimestampedPayload \<Rightarrow> (HandshakeError, unit) result" where
  "tp_validate now p =
     (if now > tp_timestamp p + REPLAY_WINDOW_SECS then Inl (TimestampExpired (tp_timestamp p) now) else Inr ())"

text \<open>What the source takes from \<^verbatim>\<open>snow\<close>.\<close>

record 'n snow =
  build_initiator :: "bytes \<Rightarrow> bytes \<Rightarrow> (string, 'n) result"
  build_responder :: "bytes \<Rightarrow> (string, 'n) result"

record 'n HandshakeInitiator =
  hi_node_id :: NodeID
  remote_public_key :: bytes
  hi_noise_state :: "'n option"
  hi_phase :: HandshakePhase
  hi_used_timestamps :: "u64 list"

record 'n HandshakeResponder =
  hr_node_id :: NodeID
  private_key :: bytes
  hr_noise_state :: "'n option"
  hr_phase :: HandshakePhase
  hr_used_timestamps :: "u64 list"

definition initiator_new :: "NodeID \<Rightarrow> bytes \<Rightarrow> 'n HandshakeInitiator" where
  "initiator_new n k =
     \<lparr>hi_node_id = n, remote_public_key = k, hi_noise_state = None, hi_phase = HsInit, hi_used_timestamps = []\<rparr>"

definition responder_new :: "NodeID \<Rightarrow> bytes \<Rightarrow> 'n HandshakeResponder" where
  "responder_new n k =
     \<lparr>hr_node_id = n, private_key = k, hr_noise_state = None, hr_phase = HsInit, hr_used_timestamps = []\<rparr>"

definition check_replay :: "u64 list \<Rightarrow> u64 \<Rightarrow> (HandshakeError, unit) result" where
  "check_replay used ts = (if ts \<in> set used then Inl (ReplayDetected ts) else Inr ())"

text \<open>The timestamp block that both receivers share: the used timestamps afterwards.\<close>

definition check_timestamp :: "u64 \<Rightarrow> u64 list \<Rightarrow> bytes \<Rightarrow> (HandshakeError, u64 list) result" where
  "check_timestamp now used dat =
     (case tp_from_bytes dat of
        None \<Rightarrow> Inr used
      | Some p \<Rightarrow>
          and_then (tp_validate now p)
            (\<lambda>_. and_then (check_replay used (tp_timestamp p)) (\<lambda>_. Inr (used @ [tp_timestamp p]))))"

definition timestamped :: "u64 \<Rightarrow> bytes \<Rightarrow> bytes" where
  "timestamped now dat = tp_to_bytes \<lparr>tp_timestamp = now, tp_payload = dat\<rparr>"

text \<open>\<open>kp\<close>: the generated key pair (private, public), or the error of generating it.\<close>

definition start_handshake ::
  "'n snow \<Rightarrow> (string, bytes \<times> bytes) result \<Rightarrow> 'n HandshakeInitiator
     \<Rightarrow> 'n HandshakeInitiator \<times> (HandshakeError, bytes) result" where
  "start_handshake N kp i =
     (case kp of
        Inl e \<Rightarrow> (i, Inl (SnowError e))
      | Inr (priv, pub) \<Rightarrow>
          (case build_initiator N priv (remote_public_key i) of
             Inl e \<Rightarrow> (i, Inl (SnowError e))
           | Inr n \<Rightarrow> (i\<lparr>hi_noise_state := Some n, hi_phase := HelloSent\<rparr>, Inr (hst_to_u8 Hello # pub))))"

definition handle_hello_ack ::
  "u64 \<Rightarrow> bytes \<Rightarrow> 'n HandshakeInitiator \<Rightarrow> 'n HandshakeInitiator \<times> (HandshakeError, bytes) result" where
  "handle_hello_ack now msg i =
     (if hi_phase i \<noteq> HelloSent then (i, Inl (HsInvalidState ''expected HelloSent phase''))
      else if length msg < 1 \<or> msg ! 0 \<noteq> hst_to_u8 HelloAck then (i, Inl (HsInvalidData ''invalid HelloACK message''))
      else case check_timestamp now (hi_used_timestamps i) (drop 1 msg) of
             Inl e \<Rightarrow> (i, Inl e)
           | Inr used \<Rightarrow>
               (i\<lparr>hi_used_timestamps := used, hi_phase := HelloAckReceived\<rparr>,
                Inr (hst_to_u8 HsData # timestamped now (hi_node_id i))))"

definition hs_complete :: "'n HandshakeInitiator \<Rightarrow> 'n HandshakeInitiator \<times> (HandshakeError, unit) result" where
  "hs_complete i =
     (if hi_phase i \<noteq> HelloAckReceived then (i, Inl (HsInvalidState ''handshake not completed''))
      else (i\<lparr>hi_phase := HsEstablished\<rparr>, Inr ()))"

definition handle_hello ::
  "'n snow \<Rightarrow> u64 \<Rightarrow> bytes \<Rightarrow> 'n HandshakeResponder \<Rightarrow> 'n HandshakeResponder \<times> (HandshakeError, bytes) result" where
  "handle_hello N now msg r =
     (if hr_phase r \<noteq> HsInit then (r, Inl (HsInvalidState ''expected Init phase''))
      else if length msg < 1 \<or> msg ! 0 \<noteq> hst_to_u8 Hello then (r, Inl (HsInvalidData ''invalid Hello message''))
      else case build_responder N (private_key r) of
             Inl e \<Rightarrow> (r, Inl (SnowError e))
           | Inr n \<Rightarrow>
               (r\<lparr>hr_noise_state := Some n, hr_phase := HelloReceived\<rparr>,
                Inr (hst_to_u8 HelloAck # timestamped now (hr_node_id r))))"

definition handle_data ::
  "u64 \<Rightarrow> bytes \<Rightarrow> 'n HandshakeResponder \<Rightarrow> 'n HandshakeResponder \<times> (HandshakeError, unit) result" where
  "handle_data now msg r =
     (if hr_phase r \<noteq> HelloReceived then (r, Inl (HsInvalidState ''expected HelloReceived phase''))
      else if length msg < 1 \<or> msg ! 0 \<noteq> hst_to_u8 HsData then (r, Inl (HsInvalidData ''invalid Data message''))
      else case check_timestamp now (hr_used_timestamps r) (drop 1 msg) of
             Inl e \<Rightarrow> (r, Inl e)
           | Inr used \<Rightarrow> (r\<lparr>hr_used_timestamps := used, hr_phase := HsEstablished\<rparr>, Inr ()))"

text \<open>
  The whole exchange: \<open>rkp\<close> and \<open>ikp\<close> are the generated key pairs, \<open>t1 t2 t3\<close> the clock when the
  responder answers, the initiator answers, and the responder checks.
\<close>

definition perform_handshake ::
  "'n snow \<Rightarrow> (string, bytes \<times> bytes) result \<Rightarrow> (string, bytes \<times> bytes) result \<Rightarrow> u64 \<Rightarrow> u64 \<Rightarrow> u64
     \<Rightarrow> NodeID \<Rightarrow> NodeID \<Rightarrow> (HandshakeError, HandshakePhase \<times> HandshakePhase) result" where
  "perform_handshake N rkp ikp t1 t2 t3 a b =
     (case rkp of
        Inl e \<Rightarrow> Inl (SnowError e)
      | Inr (priv, pub) \<Rightarrow>
          (case start_handshake N ikp (initiator_new a pub) of
             (_, Inl e) \<Rightarrow> Inl e
           | (i1, Inr hello) \<Rightarrow>
               (case handle_hello N t1 hello (responder_new b priv) of
                  (_, Inl e) \<Rightarrow> Inl e
                | (r1, Inr ack) \<Rightarrow>
                    (case handle_hello_ack t2 ack i1 of
                       (_, Inl e) \<Rightarrow> Inl e
                     | (i2, Inr dat) \<Rightarrow>
                         (case handle_data t3 dat r1 of
                            (_, Inl e) \<Rightarrow> Inl e
                          | (r2, Inr _) \<Rightarrow>
                              (case hs_complete i2 of
                                 (_, Inl e) \<Rightarrow> Inl e
                               | (i3, Inr _) \<Rightarrow> Inr (hi_phase i3, hr_phase r2)))))))"

section \<open>Messages\<close>

lemma hst_from_to [simp]: "hst_from_u8 (hst_to_u8 t) = Some t"
  by (cases t) (simp_all add: hst_from_u8_def)

lemma tp_from_timestamped [simp]: "tp_from_bytes (timestamped now dat) = Some \<lparr>tp_timestamp = now, tp_payload = dat\<rparr>"
  by (simp add: tp_from_bytes_def timestamped_def tp_to_bytes_def be_word_be_bytes)

section \<open>The exchange\<close>

text \<open>
  With keys that the Noise library accepts and clocks that do not run backwards, the
  exchange of the four messages establishes both sides if no message is more than a minute old when
  it is checked, and is rejected as expired if one is.
\<close>

theorem handshake_completes:
  assumes "build_initiator N ipriv rpub = Inr n" "build_responder N rpriv = Inr n'"
    and t: "t1 \<le> t2" "t2 \<le> t3" "t3 < - 60"
  shows "perform_handshake N (Inr (rpriv, rpub)) (Inr (ipriv, ipub)) t1 t2 t3 a b =
    (if t2 - t1 > 60 then Inl (TimestampExpired t1 t2)
     else if t3 - t2 > 60 then Inl (TimestampExpired t2 t3)
     else Inr (HsEstablished, HsEstablished))"
proof -
  have late: "(x + REPLAY_WINDOW_SECS < y) = (y - x > 60)" if "x \<le> y" "x < - 60" for x y :: u64
  proof -
    have "unat x + 60 < 2 ^ 64" using that(2) by (simp add: word_less_nat_alt)
    then have "unat (x + REPLAY_WINDOW_SECS) = unat x + 60"
      by (simp add: REPLAY_WINDOW_SECS_def unat_word_ariths)
    moreover have "unat (y - x) = unat y - unat x" using that(1) by (simp add: unat_sub_if' word_le_nat_alt)
    ultimately show ?thesis using that(1) by (auto simp: word_less_nat_alt word_le_nat_alt)
  qed
  have "t1 < - 60" "t2 < - 60" using t by auto
  with t late [of t1 t2] late [of t2 t3] assms(1,2) show ?thesis
    by (simp add: perform_handshake_def start_handshake_def handle_hello_def handle_hello_ack_def handle_data_def
        hs_complete_def initiator_new_def responder_new_def check_timestamp_def tp_validate_def check_replay_def)
qed

definition demo_snow :: "unit snow" where
  "demo_snow = \<lparr>build_initiator = (\<lambda>_ _. Inr ()), build_responder = (\<lambda>_. Inr ())\<rparr>"

theorem handshake_completes_witness:
  "perform_handshake demo_snow (Inr ([1], [2])) (Inr ([3], [4])) 1000 1001 1002 [7] [8] = Inr (HsEstablished, HsEstablished)"
  using handshake_completes [of demo_snow "[3]" "[2]" "()" "[1]" "()" 1000 1001 1002 "[4]" "[7]" "[8]"]
  by (simp add: demo_snow_def)

section \<open>What the responder accepts\<close>

inductive responder_reachable :: "'n snow \<Rightarrow> 'n HandshakeResponder \<Rightarrow> bool" for N where
  hr_new: "responder_reachable N (responder_new n k)"
| hr_hello: "responder_reachable N r \<Longrightarrow> responder_reachable N (fst (handle_hello N now msg r))"
| hr_data: "responder_reachable N r \<Longrightarrow> responder_reachable N (fst (handle_data now msg r))"

lemma responder_unused: "responder_reachable N r \<Longrightarrow> hr_phase r \<noteq> HsEstablished \<Longrightarrow> hr_used_timestamps r = []"
  by (induction rule: responder_reachable.induct)
     (auto simp: responder_new_def handle_hello_def handle_data_def split: sum.splits if_splits)

text \<open>
  Nothing is authenticated: a responder waiting for the confirmation accepts every
  message that starts with the type byte and is either too short for a timestamp or carries one
  that is not more than a minute old (or lies in the future), whoever sent it and however often it
  was used elsewhere. The single bytes 1 and 3 establish a session.
\<close>

theorem responder_accepts_anyone:
  assumes "responder_reachable N r" "hr_phase r = HelloReceived"
  shows "(snd (handle_data now msg r) = Inr () \<longleftrightarrow>
       msg \<noteq> [] \<and> hd msg = 3 \<and> (length msg < 9 \<or> now \<le> be_word (take 8 (tl msg)) + REPLAY_WINDOW_SECS))
    \<and> hr_phase (fst (handle_data now [3] r)) = HsEstablished"
proof -
  have "hr_used_timestamps r = []" using responder_unused [OF assms(1)] assms(2) by simp
  then show ?thesis
    using assms(2)
    by (cases msg) (auto simp: handle_data_def check_timestamp_def tp_from_bytes_def tp_validate_def check_replay_def)
qed

theorem responder_accepts_anyone_witness:
  "hr_phase (fst (handle_data 5 [3] (fst (handle_hello demo_snow 5 [1] (responder_new [7] [9]))))) = HsEstablished"
proof -
  let ?r = "fst (handle_hello demo_snow 5 [1] (responder_new [7] [9]))"
  have "responder_reachable demo_snow ?r" by (intro hr_hello hr_new)
  moreover have "hr_phase ?r = HelloReceived"
    by (simp add: handle_hello_def responder_new_def demo_snow_def)
  ultimately show ?thesis using responder_accepts_anyone [of demo_snow ?r 5 "[3]"] by blast
qed

end
