(* ===== verification/HolePunch.thy ===== *)
theory HolePunch
  imports Identity HashMap
begin

text \<open>
  UDP hole punching, \<^verbatim>\<open>crates/vpn/src/vpn/hole_punch.rs\<close>: the punch packet, the three attempts of
  \<open>punch_hole\<close> and the tables of running and finished punches. What the socket does in an attempt
  (the outcome of sending and of receiving) is handed in by the caller, as is the outcome of
  creating a socket when none is bound; an address is opaque.
\<close>

definition PUNCH_TIMEOUT_SECS :: nat where "PUNCH_TIMEOUT_SECS = 5"
definition PUNCH_RETRY_COUNT :: nat where "PUNCH_RETRY_COUNT = 3"
definition PUNCH_PACKET_SIZE :: nat where "PUNCH_PACKET_SIZE = 64"

datatype NatType = Cone | Restricted | Symmetric | NatUnknown

definition is_punchable :: "NatType \<Rightarrow> bool" where
  "is_punchable t = (case t of Cone \<Rightarrow> True | Restricted \<Rightarrow> True | _ \<Rightarrow> False)"

fun nat_as_str :: "NatType \<Rightarrow> string" where
  "nat_as_str Cone = ''cone''"
| "nat_as_str Restricted = ''restricted''"
| "nat_as_str Symmetric = ''symmetric''"
| "nat_as_str NatUnknown = ''unknown''"

datatype PunchResult = PunchSuccess | PunchFailed string | DegradedToRelay string

record 'a HolePunchConn =
  hp_target :: NodeID
  public_addr :: 'a
  hp_started :: instant
  hp_retries :: u32
  established :: bool

record 'a HolePunchManager =
  hp_local_id :: NodeID
  nat_type :: NatType
  active_punches :: "(NodeID, 'a HolePunchConn) hmap"
  punched_peers :: "(NodeID, 'a) hmap"
  hp_running :: bool
  hp_socket :: bool

definition hole_punch_new :: "NodeID \<Rightarrow> 'a HolePunchManager" where
  "hole_punch_new l =
     \<lparr>hp_local_id = l, nat_type = NatUnknown, active_punches = [], punched_peers = [], hp_running = False,
      hp_socket = False\<rparr>"

definition bind_socket :: "'a HolePunchManager \<Rightarrow> 'a HolePunchManager" where
  "bind_socket m = m\<lparr>hp_socket := True\<rparr>"

definition set_nat_type :: "NatType \<Rightarrow> 'a HolePunchManager \<Rightarrow> 'a HolePunchManager" where
  "set_nat_type t m = m\<lparr>nat_type := t\<rparr>"

definition active_punch_count :: "'a HolePunchManager \<Rightarrow> nat" where
  "active_punch_count m = hm_len (active_punches m)"

definition punched_peer_count :: "'a HolePunchManager \<Rightarrow> nat" where
  "punched_peer_count m = hm_len (punched_peers m)"

definition detect_nat_type :: "'a HolePunchManager \<Rightarrow> 'a HolePunchManager \<times> NatType" where
  "detect_nat_type m = (m\<lparr>nat_type := Cone\<rparr>, Cone)"

definition is_symmetric_nat :: "'a HolePunchManager \<Rightarrow> bool" where
  "is_symmetric_nat m = (nat_type m = Symmetric)"

definition LLHP :: bytes where "LLHP = [76, 76, 72, 80]"

definition resize :: "nat \<Rightarrow> bytes \<Rightarrow> bytes" where
  "resize n bs = take n bs @ replicate (n - length bs) 0"

definition build_punch_packet :: "NodeID \<Rightarrow> 'a HolePunchManager \<Rightarrow> bytes" where
  "build_punch_packet tgt m = resize PUNCH_PACKET_SIZE (LLHP @ take 28 (hp_local_id m) @ take 28 tgt)"

definition is_valid_punch_response :: "bytes \<Rightarrow> NodeID \<Rightarrow> bool" where
  "is_valid_punch_response buf peer =
     (if length buf < 4 + 28 then False
      else if take 4 buf \<noteq> LLHP then False
      else take 28 (drop 4 buf) = take 28 peer)"

text \<open>An attempt: how sending ended and what was received into the 64-byte buffer.\<close>

datatype 'a recv_outcome = Received bytes 'a | WouldBlock | RecvError string

text \<open>
  The loop over the attempts: how many packets were sent, and the sender of a valid response or the
  text of the last error.
\<close>

fun punch_attempts :: "NodeID \<Rightarrow> (string option \<times> 'a recv_outcome) list \<Rightarrow> string \<Rightarrow> nat \<times> (string + 'a)" where
  "punch_attempts peer [] last_error = (0, Inl last_error)"
| "punch_attempts peer ((sent, rcv) # rest) last_error =
     (let err = (case sent of None \<Rightarrow> last_error | Some e \<Rightarrow> ''send error: '' @ e);
          more = (\<lambda>e. let (n, r) = punch_attempts peer rest e in (Suc n, r))
      in case rcv of
           Received buf src \<Rightarrow> if is_valid_punch_response buf peer then (1, Inr src) else more err
         | WouldBlock \<Rightarrow> more err
         | RecvError e \<Rightarrow> more (''recv error: '' @ e))"

text \<open>
  The packets sent are the middle component; \<open>bound\<close> is the error of creating a socket, \<open>io\<close> what the
  socket does in each attempt.
\<close>

definition punch_hole ::
  "instant \<Rightarrow> string option \<Rightarrow> (nat \<Rightarrow> string option \<times> 'a recv_outcome) \<Rightarrow> NodeID \<Rightarrow> 'a
     \<Rightarrow> 'a HolePunchManager \<Rightarrow> 'a HolePunchManager \<times> (bytes \<times> 'a) list \<times> (string, PunchResult) result" where
  "punch_hole now bound io peer a m =
     (if is_symmetric_nat m then (m, [], Inr (DegradedToRelay ''symmetric NAT cannot punch''))
      else if hm_contains peer (punched_peers m) then (m, [], Inr PunchSuccess)
      else if \<not> hp_socket m \<and> bound \<noteq> None then (m, [], Inl (the bound))
      else
        let conn = \<lparr>hp_target = peer, public_addr = a, hp_started = now, hp_retries = 0, established = False\<rparr>;
            m1 = m\<lparr>active_punches := hm_insert peer conn (active_punches m)\<rparr>;
            (n, r) = punch_attempts peer (map io [0..<PUNCH_RETRY_COUNT]) [];
            sent = replicate n (build_punch_packet peer m1, a)
        in case r of
             Inr src \<Rightarrow>
               (m1\<lparr>punched_peers := hm_insert peer src (punched_peers m1),
                   active_punches := hm_remove peer (active_punches m1)\<rparr>, sent, Inr PunchSuccess)
           | Inl e \<Rightarrow>
               (m1\<lparr>active_punches := hm_remove peer (active_punches m1)\<rparr>, sent,
                Inr (DegradedToRelay (''all '' @ show_nat PUNCH_RETRY_COUNT @ '' attempts failed: ''
                       @ (if e = [] then ''no response'' else e)))))"

definition LLKA :: bytes where "LLKA = [76, 76, 75, 65]"

text \<open>What is sent to which address; \<open>sent\<close> is the error of sending.\<close>

definition send_keepalive ::
  "string option \<Rightarrow> NodeID \<Rightarrow> 'a HolePunchManager \<Rightarrow> (bytes \<times> 'a) list \<times> (string, unit) result" where
  "send_keepalive sent peer m =
     (case hm_get (punched_peers m) peer of
        None \<Rightarrow> ([], Inl ''peer not punched'')
      | Some a \<Rightarrow>
          if \<not> hp_socket m then ([], Inl ''no UDP socket'')
          else ([(LLKA, a)], case sent of None \<Rightarrow> Inr () | Some e \<Rightarrow> Inl (''keepalive send failed: '' @ e)))"

definition get_punched_addr :: "NodeID \<Rightarrow> 'a HolePunchManager \<Rightarrow> 'a option" where
  "get_punched_addr peer m = hm_get (punched_peers m) peer"

definition hp_remove_peer :: "NodeID \<Rightarrow> 'a HolePunchManager \<Rightarrow> 'a HolePunchManager" where
  "hp_remove_peer peer m =
     m\<lparr>punched_peers := hm_remove peer (punched_peers m), active_punches := hm_remove peer (active_punches m)\<rparr>"

definition hp_clear :: "'a HolePunchManager \<Rightarrow> 'a HolePunchManager" where
  "hp_clear m = m\<lparr>punched_peers := [], active_punches := []\<rparr>"

section \<open>Correctness\<close>

lemma length_LLHP [simp]: "length LLHP = 4"
  by (simp add: LLHP_def)

lemma punch_packet_layout:
  assumes "node_ok (hp_local_id m)" "node_ok tgt"
  shows "build_punch_packet tgt m = LLHP @ take 28 (hp_local_id m) @ take 28 tgt @ replicate 4 0"
  using assms by (simp add: build_punch_packet_def resize_def PUNCH_PACKET_SIZE_def node_ok_def)

lemma punch_packet_valid_iff:
  assumes "node_ok (hp_local_id m)" "node_ok tgt"
  shows "is_valid_punch_response (build_punch_packet tgt m) peer \<longleftrightarrow> take 28 (hp_local_id m) = take 28 peer"
  using assms by (simp add: punch_packet_layout is_valid_punch_response_def node_ok_def min_def)

definition answers :: "NodeID \<Rightarrow> 'a \<Rightarrow> string option \<times> 'a recv_outcome \<Rightarrow> bool" where
  "answers peer src x = (case x of (_, Received buf s) \<Rightarrow> s = src \<and> is_valid_punch_response buf peer | _ \<Rightarrow> False)"

lemma punch_attempts_result:
  "(case snd (punch_attempts peer io e) of
      Inr src \<Rightarrow> \<exists>x \<in> set io. answers peer src x
    | Inl _ \<Rightarrow> (\<forall>x \<in> set io. \<forall>src. \<not> answers peer src x) \<and> fst (punch_attempts peer io e) = length io)
   \<and> fst (punch_attempts peer io e) \<le> length io"
proof (induction io arbitrary: e)
  case (Cons x io)
  obtain st rcv where x: "x = (st, rcv)" by force
  let ?err = "case st of None \<Rightarrow> e | Some e \<Rightarrow> ''send error: '' @ e"
  show ?case
  proof (cases rcv)
    case (Received buf src)
    then show ?thesis
      using Cons.IH [of ?err] x by (simp add: Let_def answers_def case_prod_unfold split: sum.splits)
  next
    case WouldBlock
    then show ?thesis
      using Cons.IH [of ?err] x by (simp add: Let_def answers_def case_prod_unfold split: sum.splits)
  next
    case (RecvError t)
    then show ?thesis
      using Cons.IH [of "''recv error: '' @ t"] x
      by (simp add: Let_def answers_def case_prod_unfold split: sum.splits)
  qed
qed simp

text \<open>
  A punch that is tried succeeds exactly if one of the three attempts receives a valid
  response; the peer is then recorded under the address of such a response, otherwise the
  connection falls back to the relay after three packets. In both cases no punch stays active for
  the peer and nothing changes for the others. The packets of the peer itself are valid responses.
\<close>

theorem punch_hole_outcome:
  assumes "\<not> is_symmetric_nat m" "\<not> hm_contains peer (punched_peers m)" "hp_socket m \<or> bound = None"
  shows "let (m', sent, r) = punch_hole now bound io peer a m
    in (r = Inr PunchSuccess \<longleftrightarrow> (\<exists>i < 3. \<exists>src. answers peer src (io i)))
     \<and> (case r of
          Inr PunchSuccess \<Rightarrow> \<exists>i < 3. \<exists>src. answers peer src (io i) \<and> get_punched_addr peer m' = Some src
        | Inr (DegradedToRelay _) \<Rightarrow> punched_peers m' = punched_peers m \<and> length sent = 3
        | _ \<Rightarrow> False)
     \<and> hm_get (active_punches m') peer = None
     \<and> (\<forall>k. k \<noteq> peer \<longrightarrow> hm_get (active_punches m') k = hm_get (active_punches m) k
                     \<and> get_punched_addr k m' = get_punched_addr k m)"
proof -
  obtain n r where pa: "punch_attempts peer (map io [0..<PUNCH_RETRY_COUNT]) [] = (n, r)" by force
  have three: "set (map io [0..<PUNCH_RETRY_COUNT]) = io ` {..<3}"
    by (auto simp: PUNCH_RETRY_COUNT_def)
  have R: "case r of Inr src \<Rightarrow> \<exists>i < 3. answers peer src (io i)
      | Inl _ \<Rightarrow> (\<forall>i < 3. \<forall>src. \<not> answers peer src (io i)) \<and> n = 3"
    using punch_attempts_result [where peer = peer and io = "map io [0..<PUNCH_RETRY_COUNT]" and e = "[]"]
    unfolding pa three by (auto simp: PUNCH_RETRY_COUNT_def split: sum.splits)
  show ?thesis
  proof (cases r)
    case (Inl e)
    with R assms pa show ?thesis
      by (auto simp: punch_hole_def Let_def get_punched_addr_def)
  next
    case (Inr src)
    with R assms pa show ?thesis
      by (auto simp: punch_hole_def Let_def get_punched_addr_def)
  qed
qed

theorem punch_hole_outcome_witness:
  "snd (snd (punch_hole 0 None (\<lambda>i. (None, if i = 2 then Received (LLHP @ replicate 28 7) (5 :: nat) else WouldBlock))
      (replicate 32 7) 9 (hole_punch_new (replicate 32 1)))) = Inr PunchSuccess"
proof -
  let ?io = "\<lambda>i :: nat. (None, if i = 2 then Received (LLHP @ replicate 28 7) (5 :: nat) else WouldBlock)"
  have "answers (replicate 32 7) 5 (?io 2)"
    by (simp add: answers_def is_valid_punch_response_def)
  then have "\<exists>i < 3. \<exists>src. answers (replicate 32 7) src (?io i)" by (intro exI [of _ "2 :: nat"] conjI exI [of _ 5]) simp_all
  then show ?thesis
    using punch_hole_outcome [of "hole_punch_new (replicate 32 1)" "replicate 32 7" None 0 ?io 9]
    by (simp add: hole_punch_new_def is_symmetric_nat_def hm_contains_def case_prod_unfold Let_def)
qed

text \<open>
  A packet that a node sends to a peer is a valid response for everyone who waits for
  that node, whoever the packet was addressed to: the target in the packet is not looked at, and
  nodes are told apart by the first 28 bytes of their identifier only.
\<close>

theorem punch_packet_for_anyone:
  assumes "node_ok (hp_local_id m)" "node_ok tgt"
  shows "length (build_punch_packet tgt m) = PUNCH_PACKET_SIZE
    \<and> (is_valid_punch_response (build_punch_packet tgt m) peer \<longleftrightarrow> take 28 (hp_local_id m) = take 28 peer)"
  using assms punch_packet_valid_iff [OF assms]
  by (simp add: punch_packet_layout PUNCH_PACKET_SIZE_def node_ok_def)

theorem punch_packet_for_anyone_witness:
  "is_valid_punch_response (build_punch_packet (replicate 32 2) (hole_punch_new (replicate 32 1) :: nat HolePunchManager))
     (replicate 28 1 @ replicate 4 9)"
  using punch_packet_for_anyone [of "hole_punch_new (replicate 32 1) :: nat HolePunchManager" "replicate 32 2"
      "replicate 28 1 @ replicate 4 9"]
  by (simp add: hole_punch_new_def node_ok_def)

end
