(* ===== verification/Bootstrap.thy ===== *)
theory Bootstrap
  imports Address
begin

text \<open>
  Bootstrap nodes, \<^verbatim>\<open>crates/vpn/src/vpn/bootstrap.rs\<close>: the configuration with its two text formats,
  the manager, and the request message. serde's JSON value is a parameter, reduced to what is read
  of it: the list under \<^verbatim>\<open>bootstrap.nodes\<close>, if there is one, with the optional fields of its items.
  A request's name is its UTF-8 bytes; the strings of configurations are text of which the ASCII
  white space is trimmed.
\<close>

definition DEFAULT_BOOTSTRAP_PORT :: u16 where "DEFAULT_BOOTSTRAP_PORT = 9876"
definition BOOTSTRAP_TIMEOUT_SECS :: nat where "BOOTSTRAP_TIMEOUT_SECS = 10"

datatype BootstrapError = ConfigError string | ConnectionFailed string | HandshakeFailed string
  | BsTimeout | AllNodesUnreachable

record BootstrapNode =
  bn_host :: string
  bn_port :: u16
  priority :: u32

definition bootstrap_node_new :: "string \<Rightarrow> u16 \<Rightarrow> BootstrapNode" where
  "bootstrap_node_new h p = \<lparr>bn_host = h, bn_port = p, priority = 0\<rparr>"

definition bootstrap_node_with_priority :: "string \<Rightarrow> u16 \<Rightarrow> u32 \<Rightarrow> BootstrapNode" where
  "bootstrap_node_with_priority h p pr = \<lparr>bn_host = h, bn_port = p, priority = pr\<rparr>"

definition bn_addr :: "BootstrapNode \<Rightarrow> string" where
  "bn_addr n = bn_host n @ '':'' @ show_nat (unat (bn_port n))"

record BootstrapConfig =
  bc_nodes :: "BootstrapNode list"
  bc_timeout :: nat

definition bootstrap_config_new :: BootstrapConfig where
  "bootstrap_config_new = \<lparr>bc_nodes = [], bc_timeout = BOOTSTRAP_TIMEOUT_SECS * 1000\<rparr>"

definition sort_nodes :: "BootstrapNode list \<Rightarrow> BootstrapNode list" where
  "sort_nodes = sort_by (\<lambda>a b. priority a \<le> priority b)"

section \<open>JSON\<close>

record json_node =
  jn_host :: "string option"
  jn_port :: "u64 option"
  jn_priority :: "u64 option"

fun json_nodes :: "nat \<Rightarrow> json_node list \<Rightarrow> (BootstrapError, BootstrapNode list) result" where
  "json_nodes i [] = Inr []"
| "json_nodes i (n # ns) =
     (case jn_host n of
        None \<Rightarrow> Inl (ConfigError ''missing host'')
      | Some h \<Rightarrow>
          (let port = ucast (case jn_port n of None \<Rightarrow> ucast DEFAULT_BOOTSTRAP_PORT | Some p \<Rightarrow> p);
               prio = ucast (case jn_priority n of None \<Rightarrow> of_nat i | Some p \<Rightarrow> p)
           in and_then (json_nodes (Suc i) ns)
                (\<lambda>bs. Inr (bootstrap_node_with_priority h port prio # bs))))"

definition from_json ::
  "(string \<Rightarrow> (string, json_node list option) result) \<Rightarrow> string \<Rightarrow> (BootstrapError, BootstrapConfig) result" where
  "from_json parse json =
     (case parse json of
        Inl e \<Rightarrow> Inl (ConfigError e)
      | Inr val \<Rightarrow>
          and_then (case val of None \<Rightarrow> Inr [] | Some ns \<Rightarrow> json_nodes 0 ns)
            (\<lambda>bs. Inr (bootstrap_config_new\<lparr>bc_nodes := sort_nodes bs\<rparr>)))"

section \<open>YAML\<close>

definition trim_matches :: "char \<Rightarrow> string \<Rightarrow> string" where
  "trim_matches c s = rev (dropWhile ((=) c) (rev (dropWhile ((=) c) s)))"

text \<open>One line: the nodes so far, the host being read and its port.\<close>

definition yaml_line ::
  "BootstrapNode list \<times> string option \<times> u16 \<Rightarrow> string \<Rightarrow> BootstrapNode list \<times> string option \<times> u16" where
  "yaml_line st line =
     (let (nodes, host, port) = st;
          line = trim line
      in if starts_with ''- host:'' line then
           (let (nodes, port) =
                  (case host of None \<Rightarrow> (nodes, port)
                   | Some h \<Rightarrow> (nodes @ [bootstrap_node_new h port], DEFAULT_BOOTSTRAP_PORT))
            in (nodes, Some (trim_matches (CHR 0x22) (trim (trim_start_matches ''- host:'' line))), port))
         else if starts_with ''port:'' line then
           (case parse_u16 (trim (trim_start_matches ''port:'' line)) of
              Some p \<Rightarrow> (nodes, host, p)
            | None \<Rightarrow> (nodes, host, port))
         else (nodes, host, port))"

definition from_yaml_simple :: "string \<Rightarrow> (BootstrapError, BootstrapConfig) result" where
  "from_yaml_simple yaml =
     (let (nodes, host, port) = foldl yaml_line ([], None, DEFAULT_BOOTSTRAP_PORT) (str_lines yaml);
          nodes = (case host of None \<Rightarrow> nodes | Some h \<Rightarrow> nodes @ [bootstrap_node_new h port])
      in Inr (bootstrap_config_new\<lparr>bc_nodes := nodes\<rparr>))"

definition config_add_node :: "BootstrapNode \<Rightarrow> BootstrapConfig \<Rightarrow> BootstrapConfig" where
  "config_add_node n c = c\<lparr>bc_nodes := sort_nodes (bc_nodes c @ [n])\<rparr>"

definition config_node_count :: "BootstrapConfig \<Rightarrow> nat" where
  "config_node_count c = length (bc_nodes c)"

section \<open>The manager\<close>

record BsKnownNode =
  bk_id :: NodeID
  bk_name :: string
  bk_addr :: string
  discovered_at :: instant
  bk_source :: string

record BootstrapManager =
  bm_local_id :: NodeID
  local_name :: string
  bm_config :: BootstrapConfig
  bm_known_nodes :: "(NodeID, BsKnownNode) hmap"
  connected_bootstrap :: "string list"

definition bootstrap_manager_new :: "NodeID \<Rightarrow> string \<Rightarrow> BootstrapConfig \<Rightarrow> BootstrapManager" where
  "bootstrap_manager_new l n c =
     \<lparr>bm_local_id = l, local_name = n, bm_config = c, bm_known_nodes = [], connected_bootstrap = []\<rparr>"

text \<open>The source's stub: no connection is made and the list is empty.\<close>

definition connect_to_bootstrap_node :: "BootstrapNode \<Rightarrow> (BootstrapError, BsKnownNode list) result" where
  "connect_to_bootstrap_node n = Inr []"

fun try_nodes :: "BootstrapNode list \<Rightarrow> BootstrapManager \<Rightarrow> BootstrapManager \<times> BsKnownNode list" where
  "try_nodes [] m = (m, [])"
| "try_nodes (n # ns) m =
     (case connect_to_bootstrap_node n of
        Inr found \<Rightarrow>
          (let (m', rest) = try_nodes ns (m\<lparr>connected_bootstrap := connected_bootstrap m @ [bn_addr n]\<rparr>)
           in (m', found @ rest))
      | Inl _ \<Rightarrow> try_nodes ns m)"

definition bootstrap :: "BootstrapManager \<Rightarrow> BootstrapManager \<times> (BootstrapError, BsKnownNode list) result" where
  "bootstrap m =
     (if bc_nodes (bm_config m) = [] then (m, Inl (ConfigError ''no bootstrap nodes configured''))
      else
        let (m', found) = try_nodes (bc_nodes (bm_config m)) m
        in if found = [] then (m', Inl AllNodesUnreachable) else (m', Inr found))"

definition bm_add_known_node :: "BsKnownNode \<Rightarrow> BootstrapManager \<Rightarrow> BootstrapManager" where
  "bm_add_known_node n m = m\<lparr>bm_known_nodes := hm_insert (bk_id n) n (bm_known_nodes m)\<rparr>"

definition bm_remove_known_node :: "NodeID \<Rightarrow> BootstrapManager \<Rightarrow> BootstrapManager \<times> BsKnownNode option" where
  "bm_remove_known_node i m = (m\<lparr>bm_known_nodes := hm_remove i (bm_known_nodes m)\<rparr>, hm_get (bm_known_nodes m) i)"

definition get_known_node :: "NodeID \<Rightarrow> BootstrapManager \<Rightarrow> BsKnownNode option" where
  "get_known_node i m = hm_get (bm_known_nodes m) i"

definition get_all_known_nodes :: "BootstrapManager \<Rightarrow> BsKnownNode list" where
  "get_all_known_nodes m = hm_values (bm_known_nodes m)"

definition known_node_count :: "BootstrapManager \<Rightarrow> nat" where
  "known_node_count m = hm_len (bm_known_nodes m)"

definition is_bootstrapped :: "BootstrapManager \<Rightarrow> bool" where
  "is_bootstrapped m = (connected_bootstrap m \<noteq> [])"

section \<open>Requests\<close>

datatype BootstrapRequestType = GetNodeList | ReportNode | NodeListResponse

definition brt_from_u8 :: "u8 \<Rightarrow> BootstrapRequestType option" where
  "brt_from_u8 b =
     (if b = 1 then Some GetNodeList else if b = 2 then Some ReportNode
      else if b = 3 then Some NodeListResponse else None)"

fun brt_to_u8 :: "BootstrapRequestType \<Rightarrow> u8" where
  "brt_to_u8 GetNodeList = 1"
| "brt_to_u8 ReportNode = 2"
| "brt_to_u8 NodeListResponse = 3"

record BootstrapRequest =
  request_type :: BootstrapRequestType
  br_sender_id :: NodeID
  sender_name :: bytes
  br_timestamp :: u64

definition br_to_bytes :: "BootstrapRequest \<Rightarrow> bytes" where
  "br_to_bytes r =
     [brt_to_u8 (request_type r)] @ br_sender_id r @ [of_nat (length (sender_name r))] @ sender_name r
     @ be_bytes 8 (br_timestamp r)"

definition br_from_bytes :: "bytes \<Rightarrow> BootstrapRequest option" where
  "br_from_bytes dat =
     (if length dat < 1 + 32 + 1 + 8 then None
      else case brt_from_u8 (dat ! 0) of
             None \<Rightarrow> None
           | Some t \<Rightarrow>
               (let name_len = unat (dat ! 33)
                in if length dat < 34 + name_len + 8 then None
                   else
                     let name = take name_len (drop 34 dat)
                     in if \<not> utf8_valid name then None
                        else Some \<lparr>request_type = t, br_sender_id = take 32 (drop 1 dat), sender_name = name,
                                   br_timestamp = be_word (take 8 (drop (34 + name_len) dat))\<rparr>))"

section \<open>The request message\<close>

lemma brt_from_to [simp]: "brt_from_u8 (brt_to_u8 t) = Some t"
  by (cases t) (simp_all add: brt_from_u8_def)

definition br_wf :: "BootstrapRequest \<Rightarrow> bool" where
  "br_wf r \<longleftrightarrow> node_ok (br_sender_id r) \<and> length (sender_name r) < 256 \<and> utf8_valid (sender_name r)"

definition br_dec :: "bytes \<Rightarrow> (BootstrapRequest \<times> bytes) option" where
  "br_dec bs = map_option (\<lambda>r. (r, drop (42 + length (sender_name r)) bs)) (br_from_bytes bs)"

lemma br_layout:
  assumes "node_ok n" and d_def: "d = [brt_to_u8 t] @ n @ [l] @ rest"
  shows "d ! 0 = brt_to_u8 t" "d ! 33 = l" "drop 34 d = rest" "take 32 (drop 1 d) = n" "drop (34 + k) d = drop k rest"
proof -
  show 3: "drop 34 d = rest" using assms(1) by (simp add: d_def node_ok_def)
  show "drop (34 + k) d = drop k rest" by (simp add: drop_drop [symmetric, of k 34] add.commute 3 del: drop_drop)
  show "d ! 0 = brt_to_u8 t" "d ! 33 = l" "take 32 (drop 1 d) = n"
    using assms(1) by (simp_all add: d_def node_ok_def nth_append nth_Cons')
qed

lemma br_name_length: "br_from_bytes dat = Some r \<Longrightarrow> length (sender_name r) < 256"
proof -
  have "unat (l :: u8) < 256" for l using unsigned_less [of l, where 'a = nat] by simp
  then show "br_from_bytes dat = Some r \<Longrightarrow> length (sender_name r) < 256"
    by (auto simp: br_from_bytes_def Let_def split: if_splits option.splits)
qed

interpretation br_codec: prefix_codec br_to_bytes br_dec br_wf
proof
  fix r rest
  assume wf: "br_wf r"
  obtain t n nm ts where r: "r = \<lparr>request_type = t, br_sender_id = n, sender_name = nm, br_timestamp = ts\<rparr>"
    by (cases r)
  have n: "length n = 32" "node_ok n" and nm: "length nm < 256" "utf8_valid nm" using wf r by (simp_all add: br_wf_def node_ok_def)
  then have l: "unat (of_nat (length nm) :: u8) = length nm" by (simp add: unat_of_nat_small)
  let ?d = "br_to_bytes r @ rest"
  have d: "?d = [brt_to_u8 t] @ n @ [of_nat (length nm)] @ (nm @ be_bytes 8 ts @ rest)"
    by (simp add: br_to_bytes_def r)
  note parts = br_layout [OF n(2) d]
  have len: "length ?d = 42 + length nm + length rest" unfolding d using n(1) by simp
  have "br_from_bytes ?d = Some r"
    unfolding br_from_bytes_def Let_def parts l len by (simp add: r nm be_word_be_bytes)
  moreover have "drop (34 + (8 + length nm)) ?d = rest"
    unfolding parts by simp
  ultimately show "br_dec ?d = Some (r, rest)" by (simp add: br_dec_def r)
qed

text \<open>
  A bootstrap request whose name has at most 255 bytes is read back from its bytes,
  whatever follows them; a longer name is never recovered, since its length is sent in one byte.
\<close>

theorem bootstrap_request_roundtrip:
  assumes "node_ok (br_sender_id r)" "utf8_valid (sender_name r)"
  shows "br_from_bytes (br_to_bytes r @ rest) = Some r \<longleftrightarrow> length (sender_name r) < 256"
proof
  assume "length (sender_name r) < 256"
  then show "br_from_bytes (br_to_bytes r @ rest) = Some r"
    using br_codec.dec_enc [of r rest] assms by (auto simp: br_wf_def br_dec_def)
next
  assume dec: "br_from_bytes (br_to_bytes r @ rest) = Some r"
  then show "length (sender_name r) < 256" by (rule br_name_length)
qed

theorem bootstrap_request_roundtrip_witness:
  "br_from_bytes (br_to_bytes \<lparr>request_type = ReportNode, br_sender_id = replicate 32 1, sender_name = [97],
     br_timestamp = 5\<rparr> @ [9]) = Some \<lparr>request_type = ReportNode, br_sender_id = replicate 32 1, sender_name = [97],
     br_timestamp = 5\<rparr>"
  using bootstrap_request_roundtrip [of "\<lparr>request_type = ReportNode, br_sender_id = replicate 32 1, sender_name = [97],
     br_timestamp = 5\<rparr>" "[9]"]
  by (simp add: node_ok_def)

section \<open>Bootstrapping\<close>

lemma try_nodes_stub:
  "try_nodes ns m = (m\<lparr>connected_bootstrap := connected_bootstrap m @ map bn_addr ns\<rparr>, [])"
  by (induction ns arbitrary: m) (simp_all add: connect_to_bootstrap_node_def)

text \<open>
  Bootstrapping never succeeds: with any configured nodes it reports that all of them
  are unreachable, and yet records every one of them as connected.
\<close>

theorem bootstrap_always_unreachable:
  assumes "bc_nodes (bm_config m) \<noteq> []"
  shows "let (m', r) = bootstrap m
    in r = Inl AllNodesUnreachable \<and> is_bootstrapped m'
       \<and> connected_bootstrap m' = connected_bootstrap m @ map bn_addr (bc_nodes (bm_config m))"
  using assms by (simp add: bootstrap_def try_nodes_stub is_bootstrapped_def)

definition demo_config :: BootstrapConfig where
  "demo_config = config_add_node (bootstrap_node_new ''h'' 1) bootstrap_config_new"

theorem bootstrap_always_unreachable_witness:
  "snd (bootstrap (bootstrap_manager_new [1] ''n'' demo_config)) = Inl AllNodesUnreachable"
  using bootstrap_always_unreachable [of "bootstrap_manager_new [1] ''n'' demo_config"]
  by (simp add: bootstrap_manager_new_def demo_config_def config_add_node_def sort_nodes_def bootstrap_config_new_def
      case_prod_unfold Let_def)

section \<open>Configurations\<close>

text \<open>The node that an entry of the JSON list, with its position, stands for.\<close>

definition json_entry :: "nat \<times> json_node \<Rightarrow> BootstrapNode" where
  "json_entry x = (case x of (i, n) \<Rightarrow>
     \<lparr>bn_host = the (jn_host n),
      bn_port = ucast (case jn_port n of None \<Rightarrow> 9876 | Some p \<Rightarrow> p),
      priority = ucast (case jn_priority n of None \<Rightarrow> of_nat i | Some p \<Rightarrow> p)\<rparr>)"

lemma json_nodes_result:
  "json_nodes i ns =
     (if \<forall>n \<in> set ns. jn_host n \<noteq> None then Inr (map json_entry (zip [i..<i + length ns] ns))
      else Inl (ConfigError ''missing host''))"
proof (induction ns arbitrary: i)
  case (Cons n ns)
  have "zip [i..<i + length (n # ns)] (n # ns) = (i, n) # zip [Suc i..<Suc i + length ns] ns"
    by (simp add: upt_conv_Cons del: upt_Suc)
  with Cons [of "Suc i"] show ?case
    by (auto simp: json_entry_def bootstrap_node_with_priority_def DEFAULT_BOOTSTRAP_PORT_def Let_def
        simp del: upt_Suc split: option.splits)
qed simp

text \<open>
  A JSON configuration is accepted exactly if it parses and every listed node has a
  host; its nodes are then exactly the listed ones, in the order of their priorities, with the port
  reduced to 16 bits, defaulting to 9876, and the priority defaulting to the position.
\<close>

theorem from_json_by_priority:
  "from_json parse json =
     (case parse json of
        Inl e \<Rightarrow> Inl (ConfigError e)
      | Inr val \<Rightarrow>
          (let ns = (case val of None \<Rightarrow> [] | Some ns \<Rightarrow> ns); bs = map json_entry (zip [0..<length ns] ns)
           in if \<forall>n \<in> set ns. jn_host n \<noteq> None
              then Inr \<lparr>bc_nodes = sort_nodes bs, bc_timeout = 10000\<rparr>
              else Inl (ConfigError ''missing host'')))
   \<and> mset (sort_nodes xs) = mset xs \<and> sorted (map priority (sort_nodes xs))"
proof -
  have le: "transp (\<lambda>a b. priority a \<le> priority b)" "totalp (\<lambda>a b. priority a \<le> priority b)"
    "reflp (\<lambda>a b. priority a \<le> priority b)"
    by (auto simp: transp_def totalp_on_def reflp_def)
  have "sorted (map priority (sort_nodes xs))"
    using sorted_sort_by [OF le, of xs] by (simp add: sort_nodes_def sorted_map)
  moreover have "mset (sort_nodes xs) = mset xs" by (simp add: sort_nodes_def)
  ultimately show ?thesis
    by (auto simp: from_json_def json_nodes_result bootstrap_config_new_def BOOTSTRAP_TIMEOUT_SECS_def Let_def
        sort_nodes_def split: sum.splits option.splits)
qed

section \<open>The text format\<close>

text \<open>A node written the way the simple format expects it.\<close>

definition render_node :: "BootstrapNode \<Rightarrow> string" where
  "render_node n =
     ''  - host: '' @ [CHR 0x22] @ bn_host n @ [CHR 0x22, CHR 0x0A] @ ''    port: '' @ show_nat (unat (bn_port n)) @ [CHR 0x0A]"

lemma trim_quotes: "CHR 0x22 \<notin> set h \<Longrightarrow> trim_matches (CHR 0x22) (CHR 0x22 # h @ [CHR 0x22]) = h"
proof -
  assume q: "CHR 0x22 \<notin> set h"
  show ?thesis
  proof (cases "h = []")
    case False
    then have "dropWhile ((=) (CHR 0x22)) (h @ [CHR 0x22]) = h @ [CHR 0x22]" using q by (cases h) auto
    moreover have "dropWhile ((=) (CHR 0x22)) (rev h) = rev h" using q False by (cases h rule: rev_cases) auto
    ultimately show ?thesis by (simp add: trim_matches_def)
  qed (simp add: trim_matches_def)
qed

lemma digit_word_char: "is_digit c \<Longrightarrow> word_char c"
  by (auto simp: is_digit_def is_space_def word_char_def)

lemma show_nat_ends: "word_char (hd (show_nat n))" "word_char (last (show_nat n))"
  using show_nat_digits [of n] show_nat_not_Nil [of n]
  by (auto intro!: digit_word_char simp: list_all_iff)

lemma yaml_host_line:
  assumes "CHR 0x22 \<notin> set h"
  shows "yaml_line (ns, host, p) (''  - host: '' @ [CHR 0x22] @ h @ [CHR 0x22]) =
    (case host of None \<Rightarrow> (ns, Some h, p)
     | Some g \<Rightarrow> (ns @ [bootstrap_node_new g p], Some h, DEFAULT_BOOTSTRAP_PORT))"
proof -
  let ?q = "[CHR 0x22] @ h @ [CHR 0x22]"
  have "trim (''  '' @ (''- host: '' @ ?q)) = ''- host: '' @ ?q"
    by (rule trim_core) (simp_all add: is_space_def word_char_def)
  then have t: "trim (''  - host: '' @ ?q) = ''- host:'' @ ('' '' @ ?q)" by simp
  have "trim ('' '' @ ?q) = ?q"
    by (rule trim_core) (simp_all add: is_space_def word_char_def)
  then have "trim_matches (CHR 0x22) (trim (trim_start_matches ''- host:'' (''- host:'' @ ('' '' @ ?q)))) = h"
    using trim_quotes [OF assms] by (subst trim_start_once) (simp_all add: starts_with_def)
  with t show ?thesis
    by (simp add: yaml_line_def starts_with_def split: option.splits)
qed

lemma yaml_port_line: "yaml_line (ns, host, p) (''    port: '' @ show_nat (unat q)) = (ns, host, q)"
proof -
  have "trim (''    '' @ (''port: '' @ show_nat (unat q))) = ''port: '' @ show_nat (unat q)"
    by (rule trim_core) (simp_all add: show_nat_not_Nil show_nat_ends, simp_all add: is_space_def word_char_def)
  then have t: "trim (''    port: '' @ show_nat (unat q)) = ''port:'' @ ('' '' @ show_nat (unat q))" by simp
  have "trim ('' '' @ show_nat (unat q)) = show_nat (unat q)"
    by (rule trim_core) (simp_all add: show_nat_not_Nil show_nat_ends, simp add: is_space_def)
  then have "trim (trim_start_matches ''port:'' (''port:'' @ ('' '' @ show_nat (unat q)))) = show_nat (unat q)"
    by (subst trim_start_once) (simp_all add: starts_with_def)
  with t show ?thesis
    by (simp add: yaml_line_def starts_with_def parse_u16_show)
qed

lemma show_nat_no_newline: "CHR 0x0A \<notin> set (show_nat n)"
  using show_nat_digits [of n] by (auto simp: list_all_iff is_digit_def)

lemma lines_render:
  assumes "CHR 0x0A \<notin> set (bn_host n)"
  shows "str_lines (render_node n @ r) =
    (''  - host: '' @ [CHR 0x22] @ bn_host n @ [CHR 0x22]) # (''    port: '' @ show_nat (unat (bn_port n))) # str_lines r"
proof -
  let ?h = "''  - host: '' @ [CHR 0x22] @ bn_host n @ [CHR 0x22]"
  let ?p = "''    port: '' @ show_nat (unat (bn_port n))"
  have "last ?p \<noteq> CHR 0x0D"
    using show_nat_ends(2) [of "unat (bn_port n)"] by (auto simp: word_char_def is_space_def show_nat_not_Nil)
  then have plain: "plain_line ?h" "plain_line ?p"
    using assms show_nat_no_newline by (simp_all add: plain_line_def show_nat_not_Nil)
  have "render_node n @ r = ?h @ CHR 0x0A # (?p @ CHR 0x0A # r)"
    by (simp add: render_node_def)
  then show ?thesis by (simp only: str_lines_append [OF plain(1)] str_lines_append [OF plain(2)])
qed

text \<open>The state after reading all nodes but for the last one, which is still open.\<close>

lemma yaml_nodes:
  assumes "\<forall>n \<in> set ns. priority n = 0 \<and> CHR 0x0A \<notin> set (bn_host n) \<and> CHR 0x22 \<notin> set (bn_host n)"
  shows "(case foldl yaml_line (acc, host, p) (str_lines (concat (map render_node ns))) of
      (nodes, h, q) \<Rightarrow> case h of None \<Rightarrow> nodes | Some g \<Rightarrow> nodes @ [bootstrap_node_new g q])
    = (case host of None \<Rightarrow> acc | Some g \<Rightarrow> acc @ [bootstrap_node_new g p]) @ ns"
  using assms
proof (induction ns arbitrary: acc host p)
  case (Cons n ns)
  have n: "bootstrap_node_new (bn_host n) (bn_port n) = n" "CHR 0x0A \<notin> set (bn_host n)" "CHR 0x22 \<notin> set (bn_host n)"
    using Cons.prems by (simp_all add: bootstrap_node_new_def)
  show ?case
    using Cons.IH [of "case host of None \<Rightarrow> acc | Some g \<Rightarrow> acc @ [bootstrap_node_new g p]" "Some (bn_host n)" "bn_port n"]
      Cons.prems n(1)
    by (cases host) (simp_all only: concat.simps list.map lines_render [OF n(2)] foldl_Cons yaml_host_line [OF n(3)]
        option.case yaml_port_line, simp_all)
qed (simp split: option.splits)

text \<open>
  Configurations written in the simple text format are read back: any number of nodes
  with quoted hosts (without quotes and line feeds in them) and their ports, in their order.
\<close>

theorem yaml_roundtrip:
  assumes "\<forall>n \<in> set ns. priority n = 0 \<and> CHR 0x0A \<notin> set (bn_host n) \<and> CHR 0x22 \<notin> set (bn_host n)"
  shows "from_yaml_simple (concat (map render_node ns)) = Inr (bootstrap_config_new\<lparr>bc_nodes := ns\<rparr>)"
  using yaml_nodes [OF assms, of "[]" None DEFAULT_BOOTSTRAP_PORT]
  by (simp add: from_yaml_simple_def Let_def case_prod_unfold)

theorem yaml_roundtrip_witness:
  "from_yaml_simple (render_node (bootstrap_node_new ''10.0.0.1'' 9000) @ render_node (bootstrap_node_new ''b'' 1))
     = Inr (bootstrap_config_new\<lparr>bc_nodes := [bootstrap_node_new ''10.0.0.1'' 9000, bootstrap_node_new ''b'' 1]\<rparr>)"
  using yaml_roundtrip [of "[bootstrap_node_new ''10.0.0.1'' 9000, bootstrap_node_new ''b'' 1]"]
  by (simp add: bootstrap_node_new_def)

end
