(* ===== verification/LanRouter.thy ===== *)
theory LanRouter
  imports Address Router
begin

text \<open>
  The LAN router, \<^verbatim>\<open>crates/vpn/src/lan_router.rs\<close>: the UDP frames, discovery by broadcast, the
  table of discovered nodes and sending of data. The receive thread is the function
  \<open>lan_receive\<close> of one datagram; the outcome of socket calls, and the datagrams that arrive
  while \<open>send\<close> sleeps, are arguments, and every operation returns the datagrams it sends.
\<close>

definition DEFAULT_PORT :: u16 where "DEFAULT_PORT = 9876"
definition BROADCAST_ADDR :: string where "BROADCAST_ADDR = ''255.255.255.255''"
definition LAN_HEADER_SIZE :: nat where "LAN_HEADER_SIZE = 1 + 1"
definition NODE_ID_SIZE :: nat where "NODE_ID_SIZE = 32"
definition DATA_LEN_SIZE :: nat where "DATA_LEN_SIZE = 2"

lemmas lan_sizes = LAN_HEADER_SIZE_def NODE_ID_SIZE_def DATA_LEN_SIZE_def

section \<open>Frames\<close>

datatype UdpMessageType = Discover | DiscoverReply | UdpData | UdpHeartbeat

definition udp_from_u8 :: "u8 \<Rightarrow> UdpMessageType option" where
  "udp_from_u8 b =
     (if b = 1 then Some Discover else if b = 2 then Some DiscoverReply
      else if b = 3 then Some UdpData else if b = 4 then Some UdpHeartbeat else None)"

fun udp_to_u8 :: "UdpMessageType \<Rightarrow> u8" where
  "udp_to_u8 Discover = 1"
| "udp_to_u8 DiscoverReply = 2"
| "udp_to_u8 UdpData = 3"
| "udp_to_u8 UdpHeartbeat = 4"

definition build_discover_msg :: "string \<Rightarrow> NodeID \<Rightarrow> bytes" where
  "build_discover_msg name i =
     [udp_to_u8 Discover, of_nat (length (str_bytes name))] @ str_bytes name @ i"

definition build_discover_reply :: "string \<Rightarrow> NodeID \<Rightarrow> bytes" where
  "build_discover_reply name i =
     [udp_to_u8 DiscoverReply, of_nat (length (str_bytes name))] @ str_bytes name @ i"

definition build_data_msg :: "string \<Rightarrow> NodeID \<Rightarrow> bytes \<Rightarrow> bytes" where
  "build_data_msg name i dat =
     [udp_to_u8 UdpData, of_nat (length (str_bytes name))] @ str_bytes name @ i
       @ be_bytes 2 (of_nat (length dat) :: u16) @ dat"

definition parse_udp_frame ::
  "bytes \<Rightarrow> (UdpMessageType \<times> string \<times> NodeID \<times> bytes option) option" where
  "parse_udp_frame buf =
     (if length buf < LAN_HEADER_SIZE + NODE_ID_SIZE then None
      else case udp_from_u8 (buf ! 0) of None \<Rightarrow> None
      | Some t \<Rightarrow>
          let name_len = unat (buf ! 1)
          in if length buf < LAN_HEADER_SIZE + name_len + NODE_ID_SIZE then None
             else
               let raw = take name_len (drop LAN_HEADER_SIZE buf)
               in if \<not> utf8_valid raw then None
                  else
                    let id_start = LAN_HEADER_SIZE + name_len;
                        i = take NODE_ID_SIZE (drop id_start buf)
                    in if t = UdpData then
                         let data_offset = id_start + NODE_ID_SIZE
                         in if length buf < data_offset + DATA_LEN_SIZE then None
                            else
                              let data_len = unat (be_word [buf ! data_offset, buf ! (data_offset + 1)] :: u16);
                                  data_start = data_offset + DATA_LEN_SIZE
                              in if length buf < data_start + data_len then None
                                 else Some (t, bytes_str raw, i, Some (take data_len (drop data_start buf)))
                       else Some (t, bytes_str raw, i, None))"

section \<open>The router\<close>

text \<open>A socket address is an IP address in text form and a port.\<close>

type_synonym sock_addr = "string \<times> u16"

definition show_sock :: "string \<Rightarrow> u16 \<Rightarrow> string" where
  "show_sock ip port = ip @ '':'' @ show_nat (unat port)"

record LanNode =
  ln_name :: string
  ln_id :: NodeID
  ln_addr :: sock_addr
  ln_last_seen :: instant
  ln_status :: NodeStatus

definition lan_is_online :: "instant \<Rightarrow> LanNode \<Rightarrow> bool" where
  "lan_is_online now n = (now - ln_last_seen n < 5 * 1000)"

record LanRouter =
  lr_name :: string
  lr_id :: NodeID
  lr_port :: u16
  lr_nodes :: "(string, LanNode) hmap"
  lr_resolver :: MemAddressResolver
  lr_running :: bool
  received_data :: "(string \<times> bytes) list"
  lr_socket :: bool

definition lan_with_port :: "string \<Rightarrow> NodeID \<Rightarrow> u16 \<Rightarrow> LanRouter" where
  "lan_with_port name i port =
     \<lparr>lr_name = name, lr_id = i, lr_port = port, lr_nodes = [], lr_resolver = mem_new,
      lr_running = False, received_data = [], lr_socket = False\<rparr>"

definition lan_new :: "string \<Rightarrow> NodeID \<Rightarrow> LanRouter" where
  "lan_new name i = lan_with_port name i DEFAULT_PORT"

definition discovered_nodes :: "LanRouter \<Rightarrow> LanNode list" where
  "discovered_nodes r = hm_values (lr_nodes r)"

definition online_node_count :: "instant \<Rightarrow> LanRouter \<Rightarrow> nat" where
  "online_node_count now r = length (filter (lan_is_online now) (hm_values (lr_nodes r)))"

definition take_received_data :: "LanRouter \<Rightarrow> LanRouter \<times> (string \<times> bytes) list" where
  "take_received_data r = (r\<lparr>received_data := []\<rparr>, received_data r)"

definition find_lan_node :: "string \<Rightarrow> LanRouter \<Rightarrow> LanNode option" where
  "find_lan_node name r = hm_get (lr_nodes r) name"

definition lan_stop :: "LanRouter \<Rightarrow> LanRouter" where
  "lan_stop r = r\<lparr>lr_running := False\<rparr>"

text \<open>Recording the sender of a discovery message.\<close>

definition record_node :: "instant \<Rightarrow> string \<Rightarrow> NodeID \<Rightarrow> sock_addr \<Rightarrow> LanRouter \<Rightarrow> LanRouter" where
  "record_node now name i src r =
     (if name \<noteq> lr_name r
      then r\<lparr>lr_nodes := hm_insert name
               \<lparr>ln_name = name, ln_id = i, ln_addr = src, ln_last_seen = now, ln_status = Online\<rparr>
               (lr_nodes r)\<rparr>
      else r)"

text \<open>
  One turn of the receive thread: the datagram is cut to the 4096 bytes of the buffer. The
  second component is the datagrams sent in answer.
\<close>

definition lan_receive ::
  "instant \<Rightarrow> sock_addr \<Rightarrow> bytes \<Rightarrow> LanRouter \<Rightarrow> LanRouter \<times> (string \<times> bytes) list" where
  "lan_receive now src datagram r =
     (if \<not> lr_running r then (r, [])
      else case parse_udp_frame (take 4096 datagram) of
        None \<Rightarrow> (r, [])
      | Some (t, name, i, dat) \<Rightarrow>
          (case t of
             Discover \<Rightarrow>
               (record_node now name i src r,
                [(show_sock (fst src) (snd src), build_discover_reply (lr_name r) (lr_id r))])
           | DiscoverReply \<Rightarrow> (record_node now name i src r, [])
           | UdpData \<Rightarrow>
               (case dat of None \<Rightarrow> (r, [])
                | Some d \<Rightarrow> (r\<lparr>received_data := received_data r @ [(name, d)]\<rparr>, []))
           | UdpHeartbeat \<Rightarrow>
               (case hm_get (lr_nodes r) name of None \<Rightarrow> (r, [])
                | Some n \<Rightarrow>
                    (r\<lparr>lr_nodes := hm_insert name (n\<lparr>ln_last_seen := now, ln_status := Online\<rparr>) (lr_nodes r)\<rparr>, []))))"

fun lan_receive_all ::
  "(instant \<times> sock_addr \<times> bytes) list \<Rightarrow> LanRouter \<Rightarrow> LanRouter \<times> (string \<times> bytes) list" where
  "lan_receive_all [] r = (r, [])"
| "lan_receive_all ((now, src, d) # ds) r =
     (let (r1, out1) = lan_receive now src d r; (r2, out2) = lan_receive_all ds r1 in (r2, out1 @ out2))"

definition broadcast_discover :: "string option \<Rightarrow> LanRouter \<Rightarrow> (RouterError, (string \<times> bytes) list) result" where
  "broadcast_discover io_error r =
     (if \<not> lr_socket r then Inl (SendFailed ''socket not initialized'')
      else case io_error of
             Some e \<Rightarrow> Inl (SendFailed (''broadcast failed: '' @ e))
           | None \<Rightarrow>
               Inr [(show_sock BROADCAST_ADDR (lr_port r), build_discover_msg (lr_name r) (lr_id r))])"

text \<open>
  \<open>start\<close>: the first argument is the error text of binding or configuring the socket, the
  second that of the broadcast.
\<close>

definition lan_start ::
  "string option \<Rightarrow> string option \<Rightarrow> LanRouter \<Rightarrow> LanRouter \<times> (RouterError, (string \<times> bytes) list) result" where
  "lan_start bind_error io_error r =
     (case bind_error of
        Some e \<Rightarrow> (r, Inl (SendFailed e))
      | None \<Rightarrow>
          let r' = r\<lparr>lr_socket := True, lr_running := True\<rparr>
          in (r', broadcast_discover io_error r'))"

definition update_node_status :: "instant \<Rightarrow> LanRouter \<Rightarrow> LanRouter" where
  "update_node_status now r =
     r\<lparr>lr_nodes := hm_map_values (\<lambda>n. if \<not> lan_is_online now n then n\<lparr>ln_status := Offline\<rparr> else n) (lr_nodes r)\<rparr>"

record lan_env =
  broadcast_error :: "string option"
  arrivals :: "(instant \<times> sock_addr \<times> bytes) list"
  send_error :: "string option"

text \<open>The part of \<open>send\<close> after the target node is known.\<close>

definition send_to_node ::
  "lan_env \<Rightarrow> ParsedAddress \<Rightarrow> LanNode \<Rightarrow> bytes \<Rightarrow> LanRouter \<Rightarrow> (RouterError, (string \<times> bytes) list) result" where
  "send_to_node E parsed node dat r =
     (let target_port = (case addr_port parsed of None \<Rightarrow> lr_port r | Some p \<Rightarrow> p);
          target_addr = show_sock (fst (ln_addr node)) target_port;
          msg = build_data_msg (lr_name r) (lr_id r) dat
      in if \<not> lr_socket r then Inl (SendFailed ''socket not initialized'')
         else case send_error E of
                Some e \<Rightarrow> Inl (SendFailed (''send to '' @ target_addr @ '' failed: '' @ e))
              | None \<Rightarrow> Inr [(target_addr, msg)])"

definition lan_send ::
  "lan_env \<Rightarrow> string \<Rightarrow> bytes \<Rightarrow> LanRouter
     \<Rightarrow> LanRouter \<times> (string \<times> bytes) list \<times> (RouterError, unit) result" where
  "lan_send E tgt dat r =
     (let finish = (\<lambda>r sent res. case res of Inl e \<Rightarrow> (r, sent, Inl e) | Inr ds \<Rightarrow> (r, sent @ ds, Inr ()))
      in case parse_address tgt of
           Inl e \<Rightarrow> (r, [], Inl (InvalidData (show_address_error e)))
         | Inr parsed \<Rightarrow>
             (case hm_get (lr_nodes r) (addr_name parsed) of
                Some node \<Rightarrow> finish r [] (send_to_node E parsed node dat r)
              | None \<Rightarrow>
                  (case broadcast_discover (broadcast_error E) r of
                     Inl e \<Rightarrow> (r, [], Inl e)
                   | Inr out \<Rightarrow>
                       let (r', answers) = lan_receive_all (arrivals E) r; sent = out @ answers
                       in case hm_get (lr_nodes r') (addr_name parsed) of
                            None \<Rightarrow> (r', sent, Inl (Unreachable (''node not found: '' @ addr_name parsed)))
                          | Some node \<Rightarrow> finish r' sent (send_to_node E parsed node dat r'))))"

definition lan_status :: "instant \<Rightarrow> u64 \<Rightarrow> LanRouter \<Rightarrow> RouterStatus" where
  "lan_status now unix r =
     \<lparr>node_status = (if lr_running r then Online else Offline), status_connection = Lan,
      known_node_total = length (lr_nodes r),
      active_routes = length (filter (lan_is_online now) (hm_values (lr_nodes r))),
      last_update = unix\<rparr>"

section \<open>Frames survive the wire\<close>

definition lan_name_ok :: "string \<Rightarrow> bool" where
  "lan_name_ok name \<longleftrightarrow> length name < 256 \<and> utf8_valid (str_bytes name)"

lemma length_str_bytes [simp]: "length (str_bytes s) = length s"
  by (simp add: str_bytes_def)

lemma udp_from_to [simp]: "udp_from_u8 (udp_to_u8 t) = Some t"
  by (cases t) (simp_all add: udp_from_u8_def)

lemma unat_name_len: "length name < 256 \<Longrightarrow> unat (of_nat (length name) :: u8) = length name"
  by (rule unat_of_nat_small) simp

text \<open>The common part of the frames, whatever follows the identifier.\<close>

lemma parse_udp_frame_build:
  assumes "lan_name_ok name" "node_ok i"
  shows "parse_udp_frame ([udp_to_u8 t, of_nat (length name)] @ str_bytes name @ i @ rest) =
    (if t = UdpData then
       (if length rest < 2 then None
        else let n = unat (be_word (take 2 rest) :: u16)
             in if length rest < 2 + n then None
                else Some (t, name, i, Some (take n (drop 2 rest))))
     else Some (t, name, i, None))"
proof -
  define buf where "buf = [udp_to_u8 t, of_nat (length name)] @ str_bytes name @ i @ rest"
  have n: "length name < 256" "utf8_valid (str_bytes name)" "length i = 32"
    using assms by (simp_all add: lan_name_ok_def node_ok_def)
  have len: "length buf = 34 + length name + length rest"
    and b0: "buf ! 0 = udp_to_u8 t" and b1: "unat (buf ! 1) = length name"
    and nm: "take (length name) (drop 2 buf) = str_bytes name"
    and nid: "take 32 (drop (2 + length name) buf) = i"
    using n by (simp_all add: buf_def unat_name_len)
  have at_rest: "buf ! (2 + length name + 32 + k) = rest ! k" for k
    using n(3) by (simp add: buf_def nth_append)
  have "drop (length ([udp_to_u8 t, of_nat (length name)] @ str_bytes name @ i) + 2) buf = drop 2 rest"
    unfolding buf_def by simp
  then have rest: "drop (2 + length name + 32 + 2) buf = drop 2 rest" using n(3) by (simp add: add.commute)
  have two: "[rest ! 0, rest ! 1] = take 2 rest" if "2 \<le> length rest"
    using that by (cases rest; cases "tl rest") auto
  have "parse_udp_frame buf = (if t = UdpData then
       (if length rest < 2 then None
        else let n = unat (be_word (take 2 rest) :: u16)
             in if length rest < 2 + n then None
                else Some (t, name, i, Some (take n (drop 2 rest))))
     else Some (t, name, i, None))"
    unfolding parse_udp_frame_def lan_sizes one_add_one
    using n(2) two [simplified]
    by (auto simp: len b0 [simplified] b1 [simplified] nm nid [simplified] rest [simplified]
        at_rest [of 0, simplified] at_rest [of 1, simplified] Let_def not_less)
  then show ?thesis by (simp add: buf_def)
qed

lemma take_frame:
  assumes "lan_name_ok name" "node_ok i"
  shows "take 4096 ([a, b] @ str_bytes name @ i @ rest) = [a, b] @ str_bytes name @ i @ take (4062 - length name) rest"
proof -
  let ?h = "[a, b] @ str_bytes name @ i"
  have l: "length ?h = 34 + length name" "length name < 256"
    using assms by (simp_all add: lan_name_ok_def node_ok_def)
  then have "take 4096 (?h @ rest) = ?h @ take (4096 - length ?h) rest"
    by (subst take_append) simp
  with l show ?thesis by simp
qed

lemma parse_discover:
  assumes "lan_name_ok name" "node_ok i"
  shows "parse_udp_frame (take 4096 (build_discover_msg name i)) = Some (Discover, name, i, None)"
    and "parse_udp_frame (take 4096 (build_discover_reply name i)) = Some (DiscoverReply, name, i, None)"
  using parse_udp_frame_build [OF assms, of Discover "[]"] parse_udp_frame_build [OF assms, of DiscoverReply "[]"]
    take_frame [OF assms, where rest = "[]"]
  by (simp_all add: build_discover_msg_def build_discover_reply_def)

lemma parse_data:
  assumes nm: "lan_name_ok name" and i: "node_ok i" and d: "length dat < 65536"
  shows "parse_udp_frame (take 4096 (build_data_msg name i dat)) =
    (if length name + length dat \<le> 4060 then Some (UdpData, name, i, Some dat) else None)"
proof -
  let ?n = "of_nat (length dat) :: u16" and ?k = "4062 - length name"
  let ?rest = "take ?k (be_bytes 2 ?n @ dat)"
  have k: "2 \<le> ?k" using nm unfolding lan_name_ok_def by linarith
  then have rest: "?rest = be_bytes 2 ?n @ take (?k - 2) dat" by simp
  have n: "unat (be_word (be_bytes 2 ?n) :: u16) = length dat"
    using d by (simp add: be_word_be_bytes unat_of_nat_small)
  have "parse_udp_frame (take 4096 (build_data_msg name i dat)) =
      parse_udp_frame ([udp_to_u8 UdpData, of_nat (length name)] @ str_bytes name @ i @ ?rest)"
    by (simp only: build_data_msg_def length_str_bytes take_frame [OF nm i])
  also have "\<dots> = (if length ?rest < 2 + length dat then None
      else Some (UdpData, name, i, Some (take (length dat) (take (?k - 2) dat))))"
    unfolding parse_udp_frame_build [OF nm i] rest using n by (simp add: Let_def)
  also have "\<dots> = (if length name + length dat \<le> 4060 then Some (UdpData, name, i, Some dat) else None)"
    using k by (auto simp: rest)
  finally show ?thesis .
qed

section \<open>Sending and discovery\<close>

lemma lan_send_known:
  assumes "parse_address tgt = Inr p" "hm_get (lr_nodes a) (addr_name p) = Some n"
    and "lr_socket a" "send_error E = None"
  shows "lan_send E tgt dat a =
    (a, [(show_sock (fst (ln_addr n)) (case addr_port p of None \<Rightarrow> lr_port a | Some q \<Rightarrow> q),
          build_data_msg (lr_name a) (lr_id a) dat)], Inr ())"
  using assms by (simp add: lan_send_def send_to_node_def Let_def)

text \<open>
  Sending to a node that is in the table always reports success once the datagram left the
  socket; a running receiver takes exactly the sender's name and the data from it if the name
  and the data together have at most 4060 bytes, and drops the datagram without a trace
  otherwise.
\<close>

theorem lan_data_delivered:
  assumes "parse_address tgt = Inr p" "hm_get (lr_nodes a) (addr_name p) = Some n"
    and "lr_socket a" "send_error E = None" "lan_name_ok (lr_name a)" "node_ok (lr_id a)"
    and "length dat < 65536" "lr_running b"
  shows "\<exists>addr msg. lan_send E tgt dat a = (a, [(addr, msg)], Inr ())
    \<and> addr = show_sock (fst (ln_addr n)) (case addr_port p of None \<Rightarrow> lr_port a | Some q \<Rightarrow> q)
    \<and> lan_receive now src msg b =
        ((if length (lr_name a) + length dat \<le> 4060
          then b\<lparr>received_data := received_data b @ [(lr_name a, dat)]\<rparr> else b), [])"
  using lan_send_known [OF assms(1-4), of dat] parse_data [OF assms(5-7)] assms(8)
  by (simp add: lan_receive_def)

definition demo_lan :: "string \<Rightarrow> LanRouter" where
  "demo_lan name = (lan_with_port name (replicate 32 1) 9876)\<lparr>lr_socket := True, lr_running := True\<rparr>"

definition demo_peer :: LanNode where
  "demo_peer = \<lparr>ln_name = ''b'', ln_id = replicate 32 2, ln_addr = (''10.0.0.2'', 9876), ln_last_seen = 0, ln_status = Online\<rparr>"

definition demo_lan_env :: lan_env where
  "demo_lan_env = \<lparr>broadcast_error = None, arrivals = [], send_error = None\<rparr>"

lemma demo_name_ok: "lan_name_ok ''a''" "lan_name_ok ''b''" "node_ok (replicate 32 x)"
  by (simp_all add: lan_name_ok_def str_bytes_def node_ok_def)

lemma show_9876: "show_nat 9876 = ''9876''"
  by (simp add: show_nat.simps digit_char_def char_of_def bit_0)

lemma parse_node_b: "parse_address ''node:b'' = Inr \<lparr>addr_name = ''b'', addr_port = None\<rparr>"
  by (simp add: parse_address_def splitn3_def)

theorem lan_data_delivered_witness:
  "\<exists>addr msg. lan_send demo_lan_env ''node:b'' [7, 8] ((demo_lan ''a'')\<lparr>lr_nodes := [(''b'', demo_peer)]\<rparr>)
       = ((demo_lan ''a'')\<lparr>lr_nodes := [(''b'', demo_peer)]\<rparr>, [(addr, msg)], Inr ())
     \<and> received_data (fst (lan_receive 5 (''10.0.0.1'', 9876) msg (demo_lan ''b''))) = [(''a'', [7, 8])]"
  using lan_data_delivered [OF parse_node_b, of "(demo_lan ''a'')\<lparr>lr_nodes := [(''b'', demo_peer)]\<rparr>" demo_peer
      demo_lan_env "[7, 8]" "demo_lan ''b''" 5 "(''10.0.0.1'', 9876)"]
  by (fastforce simp: demo_lan_def lan_with_port_def demo_lan_env_def demo_name_ok)

text \<open>
  Discovery is mutual: when the broadcast of one running router reaches another with a
  different name, and its answer comes back, each has the other in its table under its name,
  online, with its identifier and the address its datagram came from; other entries are as
  before. From then on data for \<^verbatim>\<open>node:<name>\<close> goes to the answering host.
\<close>

theorem lan_discovery_mutual:
  assumes "lan_name_ok (lr_name a)" "lan_name_ok (lr_name b)" "node_ok (lr_id a)" "node_ok (lr_id b)"
    and "lr_name a \<noteq> lr_name b" "lr_running a" "lr_running b" "lr_socket a"
    and "address_ok \<lparr>addr_name = lr_name b, addr_port = None\<rparr>" "send_error E = None"
  shows "\<exists>msg reply a' b'.
      broadcast_discover None a = Inr [(show_sock BROADCAST_ADDR (lr_port a), msg)]
    \<and> lan_receive t src_a msg b = (b', [(show_sock (fst src_a) (snd src_a), reply)])
    \<and> lan_receive t' src_b reply a = (a', [])
    \<and> (\<forall>n. find_lan_node n b' = (if n = lr_name a
         then Some \<lparr>ln_name = n, ln_id = lr_id a, ln_addr = src_a, ln_last_seen = t, ln_status = Online\<rparr>
         else find_lan_node n b))
    \<and> (\<forall>n. find_lan_node n a' = (if n = lr_name b
         then Some \<lparr>ln_name = n, ln_id = lr_id b, ln_addr = src_b, ln_last_seen = t', ln_status = Online\<rparr>
         else find_lan_node n a))
    \<and> fst (snd (lan_send E (''node:'' @ lr_name b) dat a')) =
        [(show_sock (fst src_b) (lr_port a), build_data_msg (lr_name a) (lr_id a) dat)]"
proof -
  have p: "parse_address (''node:'' @ lr_name b) = Inr \<lparr>addr_name = lr_name b, addr_port = None\<rparr>"
    using parse_show_address [OF assms(9)] by (simp add: show_address_def)
  show ?thesis
    using assms p
    by (simp add: broadcast_discover_def lan_receive_def parse_discover record_node_def find_lan_node_def
        lan_send_def send_to_node_def Let_def)
qed

theorem lan_discovery_mutual_witness:
  "\<exists>msg reply a'. broadcast_discover None (demo_lan ''a'') = Inr [(show_sock BROADCAST_ADDR 9876, msg)]
    \<and> snd (lan_receive 1 (''10.0.0.1'', 9876) msg (demo_lan ''b'')) = [(''10.0.0.1:9876'', reply)]
    \<and> lan_receive 2 (''10.0.0.2'', 9876) reply (demo_lan ''a'') = (a', [])
    \<and> map_option ln_addr (find_lan_node ''b'' a') = Some (''10.0.0.2'', 9876)"
proof -
  have "address_ok \<lparr>addr_name = ''b'', addr_port = None\<rparr>" by (simp add: address_ok_def)
  then show ?thesis
    using lan_discovery_mutual [of "demo_lan ''a''" "demo_lan ''b''" demo_lan_env 1 "(''10.0.0.1'', 9876)" 2 "(''10.0.0.2'', 9876)" "[]"]
    by (fastforce simp: demo_lan_def lan_with_port_def demo_lan_env_def demo_name_ok show_9876 show_sock_def)
qed

text \<open>
  Names are not authenticated: any host that sends a discovery frame with the name of a known
  node takes over its entry, and data for that node goes to the host that sent the frame.
\<close>

theorem lan_name_taken_over:
  assumes "lan_name_ok name" "node_ok i" "lr_running a" "lr_socket a" "name \<noteq> lr_name a"
    and "send_error E = None" "address_ok \<lparr>addr_name = name, addr_port = None\<rparr>"
  shows "\<exists>a'. lan_receive t evil (build_discover_reply name i) a = (a', [])
    \<and> fst (snd (lan_send E (''node:'' @ name) dat a')) =
        [(show_sock (fst evil) (lr_port a), build_data_msg (lr_name a) (lr_id a) dat)]"
  using assms parse_show_address [OF assms(7)]
  by (simp add: show_address_def lan_receive_def parse_discover record_node_def lan_send_def send_to_node_def Let_def)

theorem lan_name_taken_over_witness:
  "map fst (fst (snd (lan_send demo_lan_env ''node:b'' [1]
      (fst (lan_receive 9 (''6.6.6.6'', 1) (build_discover_reply ''b'' (replicate 32 3))
        ((demo_lan ''a'')\<lparr>lr_nodes := [(''b'', demo_peer)]\<rparr>)))))) = [''6.6.6.6:9876'']"
proof -
  have "address_ok \<lparr>addr_name = ''b'', addr_port = None\<rparr>" by (simp add: address_ok_def)
  then show ?thesis
    using lan_name_taken_over [of "''b''" "replicate 32 3" "(demo_lan ''a'')\<lparr>lr_nodes := [(''b'', demo_peer)]\<rparr>"
        demo_lan_env 9 "(''6.6.6.6'', 1)" "[1]"]
    by (fastforce simp: demo_lan_def lan_with_port_def demo_lan_env_def demo_name_ok show_9876 show_sock_def)
qed

end
