(* ===== verification/RelayServer.thy ===== *)
theory RelayServer
  imports Relaying
begin

text \<open>
  The running relay of \<^verbatim>\<open>crates/vpn/src/vpn/relay.rs\<close>: the TCP server with its queue of received
  messages, the client that sends over pooled connections, and the relay manager that joins
  them. A connection is the bytes its peer writes until it closes; the accept loop starts
  \<open>handle_connection\<close> for each connection and has no state of its own.
\<close>

definition DEFAULT_POOL_SIZE :: nat where "DEFAULT_POOL_SIZE = 10"

text \<open>The text of an error; \<open>io\<close> is the operating system's text of the I/O error.\<close>

fun show_relay_error :: "hex_codec \<Rightarrow> string \<Rightarrow> RelayError \<Rightarrow> string" where
  "show_relay_error H io IoError = ''io error: '' @ io"
| "show_relay_error H io (ConnectionError msg) = ''connection error: '' @ msg"
| "show_relay_error H io (ParseError msg) = ''parse error: '' @ msg"
| "show_relay_error H io PoolFull = ''connection pool full''"
| "show_relay_error H io (RelayUnreachable n) = ''unreachable: '' @ to_hex H n"
| "show_relay_error H io RelayTimeout = ''timeout''"

section \<open>The server\<close>

record TcpServer =
  listen_addr :: string
  ts_local_id :: NodeID
  ts_running :: bool
  received :: "(NodeID \<times> Message) list"

definition server_new :: "NodeID \<Rightarrow> u16 \<Rightarrow> TcpServer" where
  "server_new i port =
     \<lparr>listen_addr = ''0.0.0.0:'' @ show_nat (unat port), ts_local_id = i, ts_running = False, received = []\<rparr>"

definition server_start :: "bool \<Rightarrow> TcpServer \<Rightarrow> TcpServer \<times> (RelayError, unit) result" where
  "server_start bound s = (if bound then (s\<lparr>ts_running := True\<rparr>, Inr ()) else (s, Inl IoError))"

definition server_stop :: "TcpServer \<Rightarrow> TcpServer" where
  "server_stop s = s\<lparr>ts_running := False\<rparr>"

lemma read_message_shorter:
  "read_message bs = Inr (Some (m, rest)) \<Longrightarrow> length rest < length bs"
  by (auto simp: read_message_def Let_def split: if_splits option.splits)

function handle_connection :: "bytes \<Rightarrow> TcpServer \<Rightarrow> TcpServer" where
  "handle_connection bs s =
     (if ts_running s then
        (case read_message bs of
           Inr (Some (m, rest)) \<Rightarrow> handle_connection rest (s\<lparr>received := received s @ [m]\<rparr>)
         | Inr None \<Rightarrow> s
         | Inl e \<Rightarrow> s)
      else s)"
  by pat_completeness auto
termination
  by (relation "measure (\<lambda>(bs, s). length bs)") (auto dest: read_message_shorter)

declare handle_connection.simps [simp del]

definition take_received :: "TcpServer \<Rightarrow> TcpServer \<times> (NodeID \<times> Message) list" where
  "take_received s = (s\<lparr>received := []\<rparr>, received s)"

section \<open>The client and the manager\<close>

text \<open>
  The outcome of connecting and writing at one moment. A write that fails leaves the stream
  in an unknown state; what it wrote is not recorded.
\<close>

record tcp_env =
  te_now :: instant
  te_alive :: "nat \<Rightarrow> bool"
  te_connect :: "string \<Rightarrow> nat option"
  te_write :: "nat \<Rightarrow> bool"

text \<open>\<open>send_message\<close> returns the stream and the bytes written to it.\<close>

definition send_message ::
  "tcp_env \<Rightarrow> string \<Rightarrow> Message \<Rightarrow> ConnectionPool \<Rightarrow> ConnectionPool \<times> (RelayError, nat \<times> bytes) result" where
  "send_message E addr msg p =
     (case get_connection (te_now E) (te_alive E) (te_connect E addr) addr p of
        (p', Inl e) \<Rightarrow> (p', Inl e)
      | (p', Inr s) \<Rightarrow>
          (return_connection (te_now E) (te_alive E) addr p',
           if te_write E s then Inr (s, message_to_bytes msg) else Inl IoError))"

record RelayNode =
  rn_manager :: RelayManager
  rn_server :: TcpServer
  rn_pool :: ConnectionPool

definition relay_node_new :: "NodeID \<Rightarrow> u16 \<Rightarrow> RelayNode" where
  "relay_node_new i port =
     \<lparr>rn_manager = relay_manager_new i, rn_server = server_new i port, rn_pool = pool_new DEFAULT_POOL_SIZE\<rparr>"

definition relay_node_start :: "bool \<Rightarrow> RelayNode \<Rightarrow> RelayNode \<times> (RelayError, unit) result" where
  "relay_node_start bound n =
     (let (s, r) = server_start bound (rn_server n) in (n\<lparr>rn_server := s\<rparr>, r))"

definition relay_node_stop :: "RelayNode \<Rightarrow> RelayNode" where
  "relay_node_stop n = n\<lparr>rn_server := server_stop (rn_server n)\<rparr>"

definition relay_node_send ::
  "tcp_env \<Rightarrow> NodeID \<Rightarrow> Message \<Rightarrow> RelayNode \<Rightarrow> RelayNode \<times> (RelayError, nat \<times> bytes) result" where
  "relay_node_send E tgt msg n =
     (case relay_send tgt msg (rn_manager n) of
        Inl e \<Rightarrow> (n, Inl e)
      | Inr (addr, m) \<Rightarrow>
          let (p, r) = send_message E addr m (rn_pool n) in (n\<lparr>rn_pool := p\<rparr>, r))"

section \<open>What arrives\<close>

text \<open>The server queues exactly the frames of the stream, up to the first it cannot read.\<close>

lemma handle_connection_frame:
  assumes "length (payload m) \<le> 1024 * 1024" "ts_running s"
  shows "handle_connection (message_to_bytes m @ rest) s =
    handle_connection rest (s\<lparr>received := received s @ [(replicate 32 0, m)]\<rparr>)"
  using assms by (subst handle_connection.simps) (simp add: read_message_to_bytes)

lemma handle_connection_frames:
  assumes "list_all (\<lambda>m. length (payload m) \<le> 1024 * 1024) ms" "ts_running s"
  shows "handle_connection (concat (map message_to_bytes ms) @ rest) s =
    handle_connection rest (s\<lparr>received := received s @ map (\<lambda>m. (replicate 32 0, m)) ms\<rparr>)"
  using assms
proof (induction ms arbitrary: s)
  case (Cons m ms)
  then show ?case by (simp add: handle_connection_frame)
qed simp

lemma handle_connection_end: "handle_connection [] s = s"
  by (subst handle_connection.simps) (simp add: read_message_def)

text \<open>A sequence of sends of one node, with the result of each.\<close>

fun relay_send_all ::
  "(tcp_env \<times> NodeID \<times> Message) list \<Rightarrow> RelayNode \<Rightarrow> RelayNode \<times> (RelayError, nat \<times> bytes) result list" where
  "relay_send_all [] n = (n, [])"
| "relay_send_all ((E, tgt, m) # ops) n =
     (let (n1, r) = relay_node_send E tgt m n; (n2, rs) = relay_send_all ops n1 in (n2, r # rs))"

text \<open>The bytes written to a stream, and the messages whose sending was reported successful on it.\<close>

definition written :: "nat \<Rightarrow> (RelayError, nat \<times> bytes) result list \<Rightarrow> bytes" where
  "written s rs = concat (map (\<lambda>r. case r of Inr (s', b) \<Rightarrow> if s' = s then b else [] | Inl _ \<Rightarrow> []) rs)"

definition sent_on ::
  "nat \<Rightarrow> (tcp_env \<times> NodeID \<times> Message) list \<Rightarrow> (RelayError, nat \<times> bytes) result list \<Rightarrow> Message list" where
  "sent_on s ops rs =
     map (\<lambda>((E, tgt, m), r). m) (filter (\<lambda>(op, r). case r of Inr (s', b) \<Rightarrow> s' = s | Inl _ \<Rightarrow> False) (zip ops rs))"

lemma relay_node_send_manager [simp]: "rn_manager (fst (relay_node_send E tgt m n)) = rn_manager n"
  by (auto simp: relay_node_send_def Let_def split: sum.splits prod.splits)

lemma relay_node_send_bytes:
  assumes "get_node_addr tgt (rn_manager n) \<noteq> None" "snd (relay_node_send E tgt m n) = Inr (s, b)"
  shows "b = message_to_bytes m"
  using assms
  by (auto simp: relay_node_send_def relay_send_def send_message_def Let_def split: prod.splits sum.splits if_splits option.splits)

lemma written_sent:
  assumes "list_all (\<lambda>(E, tgt, m). get_node_addr tgt (rn_manager n) \<noteq> None) ops"
  shows "written s (snd (relay_send_all ops n)) =
    concat (map message_to_bytes (sent_on s ops (snd (relay_send_all ops n))))"
  using assms
proof (induction ops arbitrary: n)
  case (Cons op ops)
  obtain E tgt m where op: "op = (E, tgt, m)" by (cases op) auto
  obtain n1 r where r: "relay_node_send E tgt m n = (n1, r)" by force
  have man: "rn_manager n1 = rn_manager n" using relay_node_send_manager [of E tgt m n] r by simp
  have "written s (snd (relay_send_all ops n1)) =
      concat (map message_to_bytes (sent_on s ops (snd (relay_send_all ops n1))))"
    using Cons.IH [of n1] Cons.prems man by (simp add: op)
  moreover have "b = message_to_bytes m" if "r = Inr (s', b)" for s' b
    using relay_node_send_bytes [of tgt n E m s' b] Cons.prems r that by (simp add: op)
  moreover have "snd (relay_send_all (op # ops) n) = r # snd (relay_send_all ops n1)"
    by (simp add: op r Let_def case_prod_unfold)
  ultimately show ?case
    by (cases r) (auto simp: op written_def sent_on_def split: prod.splits)
qed (simp add: written_def sent_on_def)

lemma sent_on_subset: "set (sent_on s ops rs) \<subseteq> (\<lambda>(E, tgt, m). m) ` set ops"
  by (auto simp: sent_on_def dest!: set_zip_leftD intro!: rev_image_eqI)

text \<open>
  Messages survive the relay: whatever sequence of sends a node makes to peers it has an address
  for, and whichever connections the pool hands out, the server behind a connection queues
  exactly the messages whose sending over that connection was reported successful, in the
  order they were sent, with the bytes written and nothing else.
\<close>

theorem relay_stream_delivery:
  assumes "list_all (\<lambda>(E, tgt, m). get_node_addr tgt (rn_manager n) \<noteq> None
      \<and> length (payload m) \<le> 1024 * 1024) ops"
    and "ts_running srv" and "rs = snd (relay_send_all ops n)"
  shows "received (handle_connection (written s rs) srv) =
    received srv @ map (\<lambda>m. (replicate 32 0, m)) (sent_on s ops rs)"
proof -
  have "list_all (\<lambda>m. length (payload m) \<le> 1024 * 1024) (sent_on s ops rs)"
    using assms(1) sent_on_subset [of s ops rs] by (fastforce simp: list_all_iff)
  moreover have "written s rs = concat (map message_to_bytes (sent_on s ops rs))"
    unfolding assms(3) by (rule written_sent) (use assms(1) in \<open>auto simp: list_all_iff\<close>)
  ultimately show ?thesis
    using handle_connection_frames [of "sent_on s ops rs" srv "[]"] assms(2)
    by (simp add: handle_connection_end)
qed

definition demo_tcp :: tcp_env where
  "demo_tcp = \<lparr>te_now = 0, te_alive = (\<lambda>_. True), te_connect = (\<lambda>_. Some 7), te_write = (\<lambda>_. True)\<rparr>"

definition demo_node :: RelayNode where
  "demo_node = (relay_node_new [0] 1)\<lparr>rn_manager := register_node [5] ''b'' (relay_manager_new [0])\<rparr>"

theorem relay_stream_delivery_witness:
  "let ops = [(demo_tcp, [5], message_new MData [1]), (demo_tcp, [5], message_new MAck [2])];
       rs = snd (relay_send_all ops demo_node)
   in received (handle_connection (written 7 rs) ((server_new [5] 1)\<lparr>ts_running := True\<rparr>)) =
        [(replicate 32 0, message_new MData [1]), (replicate 32 0, message_new MAck [2])]"
proof -
  let ?ops = "[(demo_tcp, [5], message_new MData [1]), (demo_tcp, [5], message_new MAck [2])]"
  have "sent_on 7 ?ops (snd (relay_send_all ?ops demo_node)) = [message_new MData [1], message_new MAck [2]]"
    by (simp add: relay_node_send_def relay_send_def send_message_def get_connection_def return_connection_def
        demo_tcp_def demo_node_def relay_node_new_def register_node_def relay_manager_new_def get_node_addr_def
        pool_new_def DEFAULT_POOL_SIZE_def sent_on_def Let_def)
  then show ?thesis
    using relay_stream_delivery [of demo_node ?ops "(server_new [5] 1)\<lparr>ts_running := True\<rparr>" _ 7, OF _ _ refl]
    by (simp add: demo_node_def register_node_def get_node_addr_def message_new_def server_new_def Let_def)
qed

text \<open>
  One message above 1 MiB cuts the connection: the server drops it and everything written after
  it, while the sender sees success for all of them.
\<close>

theorem oversized_message_cuts_stream:
  assumes "1024 * 1024 < length (payload m)" "length (payload m) < 2 ^ 32" "ts_running srv"
    and "list_all (\<lambda>m. length (payload m) \<le> 1024 * 1024) before"
  shows "received (handle_connection (concat (map message_to_bytes (before @ m # after))) srv)
    = received srv @ map (\<lambda>m. (replicate 32 0, m)) before"
proof -
  have "read_message (message_to_bytes m @ rest) = Inl (ParseError ''message too large'')" for rest
    using assms(1,2) by (simp add: read_message_def message_to_bytes_def be_length_u32 Let_def)
  then have "handle_connection (message_to_bytes m @ rest) s = s" for rest s
    by (subst handle_connection.simps) simp
  with handle_connection_frames [OF assms(4,3), of "message_to_bytes m @ concat (map message_to_bytes after)"]
  show ?thesis by simp
qed

theorem oversized_message_cuts_stream_witness:
  "received (handle_connection (concat (map message_to_bytes
      [message_new MData [1], message_new MData (replicate 1048577 0), message_new MAck [2]]))
      ((server_new [5] 1)\<lparr>ts_running := True\<rparr>)) = [(replicate 32 0, message_new MData [1])]"
  using oversized_message_cuts_stream [of "message_new MData (replicate 1048577 0)"
      "(server_new [5] 1)\<lparr>ts_running := True\<rparr>" "[message_new MData [1]]" "[message_new MAck [2]]"]
  by (simp add: message_new_def server_new_def)

section \<open>The pool of the client\<close>

lemma release_first_alive:
  "(\<forall>s. alive s) \<Longrightarrow> (\<exists>c \<in> set cs. in_use c) \<Longrightarrow> release_first now alive cs \<noteq> None"
  by (induction cs) auto

lemma take_idle_in_use: "take_idle now alive cs = Some (cs', s) \<Longrightarrow> \<exists>c \<in> set cs'. in_use c"
  by (induction cs arbitrary: cs') (auto split: if_splits)

lemma get_connection_out:
  assumes "get_connection now alive con addr p = (p', Inr s)"
  obtains cs where "hm_get (pool_conns p') addr = Some cs" "\<exists>c \<in> set cs. in_use c"
  using assms by (fastforce simp: get_connection_def Let_def dest: take_idle_in_use split: option.splits if_splits)

text \<open>
  Every send borrows and returns: as long as the streams stay connected, a send of whatever
  outcome keeps the pool's count exact and its size bound.
\<close>

theorem send_message_keeps_pool:
  assumes "pool_inv p" "\<forall>s. te_alive E s"
  shows "pool_inv (fst (send_message E addr msg p))"
proof -
  obtain p' r where g: "get_connection (te_now E) (te_alive E) (te_connect E addr) addr p = (p', r)" by force
  have inv: "pool_inv p'" using pool_inv_get [OF assms(1), of "te_now E" "te_alive E" "te_connect E addr" addr] g by simp
  show ?thesis
  proof (cases r)
    case (Inr s)
    with g obtain cs where "hm_get (pool_conns p') addr = Some cs" "\<exists>c \<in> set cs. in_use c"
      by (metis get_connection_out)
    then have "pool_inv (return_connection (te_now E) (te_alive E) addr p')"
      by (intro pool_inv_return [OF inv] release_first_alive assms(2))
    with g Inr show ?thesis by (simp add: send_message_def)
  qed (use g inv in \<open>simp add: send_message_def\<close>)
qed

theorem send_message_keeps_pool_witness:
  "pool_inv (fst (send_message demo_tcp ''b'' (message_new MData [1]) (pool_new 10)))"
proof -
  have "pool_inv (pool_new 10)"
    by (simp add: pool_inv_def pool_new_def in_use_count_def hm_values_def)
  then show ?thesis by (rule send_message_keeps_pool) (simp add: demo_tcp_def)
qed

end
