(* ===== verification/VpnRouter.thy ===== *)
theory VpnRouter
  imports LanRouter RelayServer Session
begin

text \<open>
  The VPN router, \<^verbatim>\<open>crates/vpn/src/vpn/vpn_router.rs\<close>: it sends over the LAN router if there is
  one and falls back to the relay, and hands the data messages the relay server received to
  the registered listeners. The resolver is the operation \<open>resolve\<close> of the trait
  \<open>AddressResolver\<close> on its state; socket outcomes are in \<open>vpn_env\<close>.
\<close>

definition DEFAULT_VPN_PORT :: u16 where "DEFAULT_VPN_PORT = 9877"

text \<open>
  A listener is one an application registered, the one a ping registers for its number, or one that
  waits for the answer with a given beginning.
\<close>

datatype DataListener = AppListener nat | PongListener string | RespListener string

type_synonym KnownNodeInfo = "NodeID \<times> ConnectionType \<times> NodeStatus"

record 's VpnRouter =
  vr_name :: string
  vr_id :: NodeID
  vr_port :: u16
  vr_resolver :: 's
  vr_lan :: "LanRouter option"
  vr_relay :: RelayNode
  vr_sessions :: SessionManager
  vr_running :: bool
  vr_listeners :: "DataListener list"
  vr_known :: "(string, KnownNodeInfo) hmap"

definition vpn_with_port ::
  "string \<Rightarrow> NodeID \<Rightarrow> 's \<Rightarrow> LanRouter option \<Rightarrow> RelayNode \<Rightarrow> u16 \<Rightarrow> 's VpnRouter" where
  "vpn_with_port name i res lan relay port =
     \<lparr>vr_name = name, vr_id = i, vr_port = port, vr_resolver = res, vr_lan = lan, vr_relay = relay,
      vr_sessions = session_manager_new i, vr_running = False, vr_listeners = [], vr_known = []\<rparr>"

definition vpn_new :: "string \<Rightarrow> NodeID \<Rightarrow> 's \<Rightarrow> LanRouter option \<Rightarrow> RelayNode \<Rightarrow> 's VpnRouter" where
  "vpn_new name i res lan relay = vpn_with_port name i res lan relay DEFAULT_VPN_PORT"

definition register_listener :: "DataListener \<Rightarrow> 's VpnRouter \<Rightarrow> 's VpnRouter" where
  "register_listener l r = r\<lparr>vr_listeners := vr_listeners r @ [l]\<rparr>"

definition known_nodes_info :: "'s VpnRouter \<Rightarrow> (string \<times> NodeID \<times> ConnectionType \<times> NodeStatus) list" where
  "known_nodes_info r = vr_known r"

definition known_nodes_count :: "'s VpnRouter \<Rightarrow> nat" where
  "known_nodes_count r = length (vr_known r)"

datatype vpn_out = Datagram string bytes | Written nat bytes

record vpn_env =
  ve_now :: instant
  ve_lan :: lan_env
  ve_tcp :: tcp_env
  ve_io :: string

definition vpn_start ::
  "hex_codec \<Rightarrow> string \<Rightarrow> bool \<Rightarrow> 's VpnRouter \<Rightarrow> 's VpnRouter \<times> (RouterError, unit) result" where
  "vpn_start H io bound r =
     (case relay_node_start bound (vr_relay r) of
        (n, Inl e) \<Rightarrow> (r\<lparr>vr_relay := n\<rparr>, Inl (SendFailed (''relay start failed: '' @ show_relay_error H io e)))
      | (n, Inr _) \<Rightarrow> (r\<lparr>vr_relay := n, vr_running := True\<rparr>, Inr ()))"

definition vpn_stop :: "'s VpnRouter \<Rightarrow> 's VpnRouter" where
  "vpn_stop r = r\<lparr>vr_running := False, vr_relay := relay_node_stop (vr_relay r)\<rparr>"

text \<open>
  One turn of the receive loop: the queue is emptied and every data message is given to every
  listener, in order. The result lists the calls: listener, sender and data.
\<close>

definition dispatch_received ::
  "hex_codec \<Rightarrow> 's VpnRouter \<Rightarrow> 's VpnRouter \<times> (DataListener \<times> string \<times> bytes) list" where
  "dispatch_received H r =
     (if \<not> vr_running r then (r, [])
      else
        let (srv, msgs) = take_received (rn_server (vr_relay r))
        in (r\<lparr>vr_relay := (vr_relay r)\<lparr>rn_server := srv\<rparr>\<rparr>,
            concat (map (\<lambda>(sender, msg).
              if msg_type msg = MData then map (\<lambda>l. (l, to_hex H sender, payload msg)) (vr_listeners r)
              else []) msgs)))"

definition update_node :: "string \<Rightarrow> NodeID \<Rightarrow> ConnectionType \<Rightarrow> NodeStatus \<Rightarrow> 's VpnRouter \<Rightarrow> 's VpnRouter" where
  "update_node name i ct st r = r\<lparr>vr_known := hm_insert name (i, ct, st) (vr_known r)\<rparr>"

text \<open>Trying the LAN router: its datagrams, and whether it reported success.\<close>

definition try_lan ::
  "vpn_env \<Rightarrow> string \<Rightarrow> bytes \<Rightarrow> 's VpnRouter \<Rightarrow> 's VpnRouter \<times> vpn_out list \<times> bool" where
  "try_lan E tgt dat r =
     (case vr_lan r of
        None \<Rightarrow> (r, [], False)
      | Some lan \<Rightarrow>
          (case lan_send (ve_lan E) tgt dat lan of
             (lan', sent, res) \<Rightarrow>
               (r\<lparr>vr_lan := Some lan'\<rparr>, map (\<lambda>(a, b). Datagram a b) sent, res = Inr ())))"

definition vpn_send ::
  "hex_codec \<Rightarrow> (instant \<Rightarrow> string \<Rightarrow> 's \<Rightarrow> 's \<times> (AddressError, NodeID) result) \<Rightarrow> vpn_env
     \<Rightarrow> string \<Rightarrow> bytes \<Rightarrow> 's VpnRouter \<Rightarrow> 's VpnRouter \<times> vpn_out list \<times> (RouterError, unit) result" where
  "vpn_send H resolve E tgt dat r =
     (case parse_address tgt of
        Inl e \<Rightarrow> (r, [], Inl (InvalidData (show_address_error e)))
      | Inr parsed \<Rightarrow>
          (case resolve (ve_now E) (addr_name parsed) (vr_resolver r) of
             (res, Inl e) \<Rightarrow> (r\<lparr>vr_resolver := res\<rparr>, [], Inl (Unreachable (show_address_error e)))
           | (res, Inr node_id) \<Rightarrow>
               (case try_lan E tgt dat (r\<lparr>vr_resolver := res\<rparr>) of
                  (r, sent, True) \<Rightarrow> (update_node (addr_name parsed) node_id Lan Online r, sent, Inr ())
                | (r, sent, False) \<Rightarrow>
                    (case relay_node_send (ve_tcp E) node_id (message_new MData dat) (vr_relay r) of
                       (n, Inl e) \<Rightarrow>
                         (r\<lparr>vr_relay := n\<rparr>, sent, Inl (SendFailed (show_relay_error H (ve_io E) e)))
                     | (n, Inr (s, b)) \<Rightarrow>
                         (update_node (addr_name parsed) node_id Vpn Online (r\<lparr>vr_relay := n\<rparr>),
                          sent @ [Written s b], Inr ())))))"

section \<open>Ping\<close>

definition pong_matches :: "string \<Rightarrow> bytes \<Rightarrow> bool" where
  "pong_matches ping_id dat \<longleftrightarrow>
     utf8_valid dat \<and> take 5 dat = str_bytes ''PONG:'' \<and> trim_end (bytes_str dat) = ''PONG:'' @ ping_id"

text \<open>
  \<open>ping_node\<close>: \<open>rnd\<close> is the random number, \<open>calls\<close> the listener calls of the receive loop in
  the five seconds the ping waits, \<open>elapsed\<close> the time measured. The listener it registers
  stays registered.
\<close>

definition ping_node ::
  "hex_codec \<Rightarrow> (instant \<Rightarrow> string \<Rightarrow> 's \<Rightarrow> 's \<times> (AddressError, NodeID) result) \<Rightarrow> vpn_env
     \<Rightarrow> u64 \<Rightarrow> (DataListener \<times> string \<times> bytes) list \<Rightarrow> nat \<Rightarrow> string \<Rightarrow> 's VpnRouter
     \<Rightarrow> 's VpnRouter \<times> vpn_out list \<times> (RouterError, nat) result" where
  "ping_node H resolve E rnd calls elapsed tgt r =
     (case parse_address tgt of
        Inl e \<Rightarrow> (r, [], Inl (InvalidData (show_address_error e)))
      | Inr parsed \<Rightarrow>
          (case resolve (ve_now E) (addr_name parsed) (vr_resolver r) of
             (res, Inl e) \<Rightarrow> (r\<lparr>vr_resolver := res\<rparr>, [], Inl (Unreachable (show_address_error e)))
           | (res, Inr node_id) \<Rightarrow>
               let ping_id = ''ping-'' @ show_nat (unat rnd);
                   r = register_listener (PongListener ping_id) (r\<lparr>vr_resolver := res\<rparr>);
                   msg = message_new MData (str_bytes (''PING:'' @ ping_id))
               in (case try_lan E tgt (message_to_bytes msg) r of
                     (r, sent, True) \<Rightarrow> (update_node (addr_name parsed) node_id Lan Online r, sent, Inr elapsed)
                   | (r, sent, False) \<Rightarrow>
                       (case relay_node_send (ve_tcp E) node_id msg (vr_relay r) of
                          (n, Inl e) \<Rightarrow>
                            (r\<lparr>vr_relay := n\<rparr>, sent, Inl (SendFailed (show_relay_error H (ve_io E) e)))
                        | (n, Inr (s, b)) \<Rightarrow>
                            (let r = r\<lparr>vr_relay := n\<rparr>; sent = sent @ [Written s b]
                             in if \<exists>(l, src, dat) \<in> set calls. l = PongListener ping_id \<and> pong_matches ping_id dat
                                then (update_node (addr_name parsed) node_id Vpn Online r, sent, Inr elapsed)
                                else (r, sent, Inl Timeout))))))"

definition vpn_status :: "u64 \<Rightarrow> 's VpnRouter \<Rightarrow> RouterStatus" where
  "vpn_status unix r =
     \<lparr>node_status = (if vr_running r then Online else Offline), status_connection = Vpn,
      known_node_total = known_nodes_count r + session_count (vr_sessions r),
      active_routes = length (filter (\<lambda>(_, _, st). st = Online) (hm_values (vr_known r))),
      last_update = unix\<rparr>"

section \<open>Delivery over the relay\<close>

text \<open>The in-memory resolver answers \<open>i\<close> for \<open>n\<close>, now and after any further lookups.\<close>

definition resolves_to :: "string \<Rightarrow> NodeID \<Rightarrow> MemAddressResolver \<Rightarrow> bool" where
  "resolves_to n i s \<longleftrightarrow> hm_get (static_map s) n = Some i
     \<and> (\<forall>e. hm_get (mem_cache_map s) n = Some e \<longrightarrow> ce_id e = i)"

lemma resolves_to_resolve: "resolves_to n i s \<Longrightarrow> snd (mem_resolve t n s) = Inr i"
  by (auto simp: resolves_to_def mem_resolve_def Let_def split: option.splits)

lemma resolves_to_keep: "resolves_to n i s \<Longrightarrow> resolves_to n i (fst (mem_resolve t m s))"
  by (auto simp: resolves_to_def mem_resolve_def mem_cache_def Let_def split: option.splits if_splits)

text \<open>The router has a relay address for the target.\<close>

definition relay_known :: "MemAddressResolver VpnRouter \<Rightarrow> string \<Rightarrow> bool" where
  "relay_known r tgt \<longleftrightarrow>
     (case parse_address tgt of Inl e \<Rightarrow> False
      | Inr p \<Rightarrow> \<exists>i. resolves_to (addr_name p) i (vr_resolver r) \<and> get_node_addr i (rn_manager (vr_relay r)) \<noteq> None)"

fun vpn_send_all ::
  "hex_codec \<Rightarrow> (vpn_env \<times> string \<times> bytes) list \<Rightarrow> MemAddressResolver VpnRouter
     \<Rightarrow> MemAddressResolver VpnRouter \<times> (vpn_out list \<times> (RouterError, unit) result) list" where
  "vpn_send_all H [] r = (r, [])"
| "vpn_send_all H ((E, tgt, dat) # ops) r =
     (let (r1, out) = vpn_send H mem_resolve E tgt dat r; (r2, outs) = vpn_send_all H ops r1 in (r2, out # outs))"

definition out_bytes :: "nat \<Rightarrow> vpn_out list \<Rightarrow> bytes" where
  "out_bytes s outs = concat (map (\<lambda>out. case out of Written s' b \<Rightarrow> if s' = s then b else [] | _ \<Rightarrow> []) outs)"

text \<open>The data of the sends that were reported successful and went over stream \<open>s\<close>.\<close>

fun sent_data ::
  "nat \<Rightarrow> (vpn_env \<times> string \<times> bytes) list \<Rightarrow> (vpn_out list \<times> (RouterError, unit) result) list \<Rightarrow> bytes list" where
  "sent_data s ((E, tgt, dat) # ops) ((out, res) # outs) =
     (if res = Inr () \<and> (\<exists>b. Written s b \<in> set out) then [dat] else []) @ sent_data s ops outs"
| "sent_data s _ _ = []"

text \<open>One send of a router without a LAN: one frame on one stream and success, or nothing and an error.\<close>

lemma vpn_send_relay:
  assumes "relay_known r tgt" "vr_lan r = None" "vpn_send H mem_resolve E tgt dat r = (r', outs, res)"
  shows "(\<exists>s. outs = [Written s (message_to_bytes (message_new MData dat))] \<and> res = Inr ()) \<or> outs = [] \<and> res \<noteq> Inr ()"
    and "vr_lan r' = None"
    and "relay_known r t \<Longrightarrow> relay_known r' t"
proof -
  obtain p i where p: "parse_address tgt = Inr p" "resolves_to (addr_name p) i (vr_resolver r)"
      "get_node_addr i (rn_manager (vr_relay r)) \<noteq> None"
    using assms(1) by (auto simp: relay_known_def split: sum.splits)
  obtain rs where rs: "mem_resolve (ve_now E) (addr_name p) (vr_resolver r) = (rs, Inr i)"
    using resolves_to_resolve [OF p(2), of "ve_now E"] by (metis prod.collapse)
  obtain n q where q: "relay_node_send (ve_tcp E) i (message_new MData dat) (vr_relay r) = (n, q)" by force
  have man: "rn_manager n = rn_manager (vr_relay r)"
    using relay_node_send_manager [of "ve_tcp E" i "message_new MData dat" "vr_relay r"] q by simp
  have frame: "b = message_to_bytes (message_new MData dat)" if "q = Inr (s, b)" for s b
    using relay_node_send_bytes [OF p(3), of "ve_tcp E" "message_new MData dat" s b] q that by simp
  note run = assms(3) [unfolded vpn_send_def]
  show "(\<exists>s. outs = [Written s (message_to_bytes (message_new MData dat))] \<and> res = Inr ()) \<or> outs = [] \<and> res \<noteq> Inr ()"
    and "vr_lan r' = None"
    using run p(1) rs q frame assms(2)
    by (auto simp: try_lan_def update_node_def split: sum.splits prod.splits)
  have keep: "resolves_to m j rs" if "resolves_to m j (vr_resolver r)" for m j
    using resolves_to_keep [OF that, of "ve_now E" "addr_name p"] rs by simp
  have "vr_resolver r' = rs" "rn_manager (vr_relay r') = rn_manager (vr_relay r)"
    using run p(1) rs q man assms(2)
    by (auto simp: try_lan_def update_node_def split: sum.splits prod.splits)
  then show "relay_known r t \<Longrightarrow> relay_known r' t"
    using keep by (auto simp: relay_known_def split: sum.splits)
qed

lemma out_bytes_sent:
  assumes "list_all (\<lambda>(E, tgt, dat). relay_known r tgt) ops" "vr_lan r = None"
  shows "concat (map (\<lambda>(out, res). out_bytes s out) (snd (vpn_send_all H ops r))) =
    concat (map (\<lambda>d. message_to_bytes (message_new MData d)) (sent_data s ops (snd (vpn_send_all H ops r))))"
  using assms
proof (induction ops arbitrary: r)
  case (Cons op ops)
  obtain E tgt dat where op: "op = (E, tgt, dat)" by (cases op) auto
  obtain r1 out res where v: "vpn_send H mem_resolve E tgt dat r = (r1, out, res)" by (metis prod_cases3)
  have k: "relay_known r tgt" using Cons.prems by (simp add: op)
  note one = vpn_send_relay [OF k Cons.prems(2) v]
  have "list_all (\<lambda>(E, tgt, dat). relay_known r1 tgt) ops"
    using Cons.prems(1) one(3) by (auto simp: op list_all_iff)
  note IH = Cons.IH [OF this one(2)]
  have "snd (vpn_send_all H (op # ops) r) = (out, res) # snd (vpn_send_all H ops r1)"
    by (simp add: op v Let_def case_prod_unfold)
  with one(1) IH show ?case by (auto simp: op out_bytes_def)
qed simp

lemma sent_data_subset: "set (sent_data s ops outs) \<subseteq> (\<lambda>(E, tgt, dat). dat) ` set ops"
  by (induction s ops outs rule: sent_data.induct) (auto split: if_splits intro: rev_image_eqI)


definition demo_vpn :: "MemAddressResolver VpnRouter" where
  "demo_vpn = (vpn_new ''a'' [0] (add_static_mapping ''b'' [5] mem_new) None demo_node)\<lparr>vr_running := True\<rparr>"

definition demo_vpn_peer :: "MemAddressResolver VpnRouter" where
  "demo_vpn_peer = (vpn_new ''b'' [5] mem_new None
     ((relay_node_new [5] 1)\<lparr>rn_server := (server_new [5] 1)\<lparr>ts_running := True\<rparr>\<rparr>))
       \<lparr>vr_running := True, vr_listeners := [AppListener 0]\<rparr>"

definition demo_vpn_env :: vpn_env where
  "demo_vpn_env = \<lparr>ve_now = 0, ve_lan = demo_lan_env, ve_tcp = demo_tcp, ve_io = []\<rparr>"

lemma demo_relay_known: "relay_known demo_vpn ''node:b''"
  by (simp add: relay_known_def parse_node_b resolves_to_def demo_vpn_def vpn_new_def vpn_with_port_def
      add_static_mapping_def mem_new_def demo_node_def register_node_def get_node_addr_def)

lemmas demo_vpn_defs = demo_vpn_def vpn_new_def vpn_with_port_def add_static_mapping_def mem_new_def
  demo_node_def register_node_def get_node_addr_def demo_vpn_env_def demo_lan_env_def demo_tcp_def relay_node_new_def
  relay_manager_new_def pool_new_def DEFAULT_POOL_SIZE_def


section \<open>The LAN path\<close>

text \<open>
  With a LAN router that knows the target, \<open>send\<close> takes the LAN and reports success without
  writing anything to the relay; the receiving host has the data in the queue of its LAN
  router. Its VPN router never takes from that queue: the dispatch of the received messages
  calls the listeners exactly as if nothing had been sent.
\<close>

theorem lan_data_reaches_no_listener:
  assumes "parse_address tgt = Inr p" "resolve (ve_now E) (addr_name p) (vr_resolver a) = (rs, Inr i)"
    and "vr_lan a = Some la" "hm_get (lr_nodes la) (addr_name p) = Some n"
    and "lr_socket la" "send_error (ve_lan E) = None" "lan_name_ok (lr_name la)" "node_ok (lr_id la)"
    and "length (lr_name la) + length dat \<le> 4060" "vr_lan b = Some lb" "lr_running lb"
  shows "\<exists>a' msg addr lb'. vpn_send H resolve E tgt dat a = (a', [Datagram addr msg], Inr ())
    \<and> hm_get (vr_known a') (addr_name p) = Some (i, Lan, Online)
    \<and> lan_receive t src msg lb = (lb', [])
    \<and> received_data lb' = received_data lb @ [(lr_name la, dat)]
    \<and> snd (dispatch_received H (b\<lparr>vr_lan := Some lb'\<rparr>)) = snd (dispatch_received H b)"
proof -
  have d: "length dat < 65536" using assms(9) by simp
  note send = lan_send_known [OF assms(1,4-6), of dat]
  note recv = parse_data [OF assms(7,8) d]
  have "snd (dispatch_received H (b\<lparr>vr_lan := l\<rparr>)) = snd (dispatch_received H b)" for l
    by (simp add: dispatch_received_def take_received_def cong: if_cong)
  with assms send recv show ?thesis
    by (simp add: vpn_send_def try_lan_def update_node_def lan_receive_def)
qed

theorem lan_data_reaches_no_listener_witness:
  "let a = demo_vpn\<lparr>vr_lan := Some ((demo_lan ''a'')\<lparr>lr_nodes := [(''b'', demo_peer)]\<rparr>)\<rparr>;
       b = demo_vpn_peer\<lparr>vr_lan := Some (demo_lan ''b'')\<rparr>
   in \<exists>a' msg addr lb'. vpn_send demo_hex mem_resolve demo_vpn_env ''node:b'' [9] a = (a', [Datagram addr msg], Inr ())
    \<and> lan_receive 1 (''10.0.0.1'', 9876) msg (demo_lan ''b'') = (lb', [])
    \<and> received_data lb' = [(''a'', [9])]
    \<and> snd (dispatch_received demo_hex (b\<lparr>vr_lan := Some lb'\<rparr>)) = []"
proof -
  let ?a = "demo_vpn\<lparr>vr_lan := Some ((demo_lan ''a'')\<lparr>lr_nodes := [(''b'', demo_peer)]\<rparr>)\<rparr>"
  let ?b = "demo_vpn_peer\<lparr>vr_lan := Some (demo_lan ''b'')\<rparr>"
  obtain rs where rs: "mem_resolve 0 ''b'' (vr_resolver ?a) = (rs, Inr [5])"
    by (simp add: demo_vpn_defs mem_resolve_def)
  have "snd (dispatch_received demo_hex ?b) = []"
    by (simp add: dispatch_received_def take_received_def demo_vpn_peer_def demo_vpn_defs server_new_def)
  then show ?thesis
    using lan_data_reaches_no_listener [OF parse_node_b, of mem_resolve demo_vpn_env ?a rs "[5]"
        "(demo_lan ''a'')\<lparr>lr_nodes := [(''b'', demo_peer)]\<rparr>" demo_peer "[9]" ?b "demo_lan ''b''" demo_hex 1 "(''10.0.0.1'', 9876)"] rs
    by (fastforce simp: demo_vpn_env_def demo_lan_env_def demo_lan_env_def demo_lan_def lan_with_port_def demo_name_ok)
qed

section \<open>Ping over the LAN\<close>

text \<open>
  A ping of a node in the LAN router's table succeeds as soon as the datagram left the socket:
  no answer is waited for, whatever the listeners are called with, and the listener
  registered for the answer stays behind.
\<close>

theorem lan_ping_never_waits:
  assumes "parse_address tgt = Inr p" "resolve (ve_now E) (addr_name p) (vr_resolver r) = (rs, Inr i)"
    and "vr_lan r = Some la" "hm_get (lr_nodes la) (addr_name p) = Some n"
    and "lr_socket la" "send_error (ve_lan E) = None"
  shows "\<exists>r' outs. ping_node H resolve E rnd calls elapsed tgt r = (r', outs, Inr elapsed)
    \<and> hm_get (vr_known r') (addr_name p) = Some (i, Lan, Online)
    \<and> vr_listeners r' = vr_listeners r @ [PongListener (''ping-'' @ show_nat (unat rnd))]"
  using assms lan_send_known [OF assms(1,4-6)]
  by (simp add: ping_node_def try_lan_def update_node_def register_listener_def Let_def)

theorem lan_ping_never_waits_witness:
  "\<exists>r' outs. ping_node demo_hex mem_resolve demo_vpn_env 3 [] 4 ''node:b''
      (demo_vpn\<lparr>vr_lan := Some ((demo_lan ''a'')\<lparr>lr_nodes := [(''b'', demo_peer)]\<rparr>)\<rparr>) = (r', outs, Inr 4)"
proof -
  let ?a = "demo_vpn\<lparr>vr_lan := Some ((demo_lan ''a'')\<lparr>lr_nodes := [(''b'', demo_peer)]\<rparr>)\<rparr>"
  obtain rs where rs: "mem_resolve 0 ''b'' (vr_resolver ?a) = (rs, Inr [5])"
    by (simp add: demo_vpn_defs mem_resolve_def)
  then show ?thesis
    using lan_ping_never_waits [OF parse_node_b, of mem_resolve demo_vpn_env ?a rs "[5]"
        "(demo_lan ''a'')\<lparr>lr_nodes := [(''b'', demo_peer)]\<rparr>" demo_peer demo_hex 3 "[]" 4]
    by (fastforce simp: demo_vpn_env_def demo_lan_env_def demo_lan_env_def demo_lan_def lan_with_port_def)
qed

end
