(* ===== verification/Download.thy ===== *)
theory Download
  imports Chunking HashMap
begin

text \<open>
  Downloads from several sources, \<^verbatim>\<open>crates/vpn/src/storage/download.rs\<close>: the reorder buffer of
  file blocks, the progress record and the manager that assigns blocks to nodes and counts
  their load. A quotient in \<^verbatim>\<open>f64\<close> is kept as the pair of integers that is divided. A panic
  (division by the number of sources, when there are none) happens while the task table is
  locked and poisons the lock: from then on every operation on the table reports it.
\<close>

definition MAX_FAILED_BLOCKS :: u32 where "MAX_FAILED_BLOCKS = 3"

type_synonym quotient = "nat \<times> nat"

datatype DownloadStatus =
    DlPending
  | Downloading quotient u64 u64
  | DlCompleted bytes
  | DlFailed string

record DownloadTask =
  dt_file_name :: string
  dt_file_hash :: Hash
  total_size :: u64
  dt_manifest :: "FileManifest option"
  block_sources :: "(u32, string list) hmap"

section \<open>The reorder buffer\<close>

record DlReorderBuffer =
  rob_blocks :: "(u32, bytes) hmap"
  expected_count :: u32
  next_expected :: u32

definition rob_new :: "u32 \<Rightarrow> DlReorderBuffer" where
  "rob_new n = \<lparr>rob_blocks = [], expected_count = n, next_expected = 0\<rparr>"

definition rob_push :: "u32 \<Rightarrow> bytes \<Rightarrow> DlReorderBuffer \<Rightarrow> (string, DlReorderBuffer) result" where
  "rob_push i dat b =
     (if expected_count b \<le> i then
        Inl (''block index '' @ show_nat (unat i) @ '' out of range [0, '' @ show_nat (unat (expected_count b)) @ '')'')
      else if hm_contains i (rob_blocks b) then Inl (''block index '' @ show_nat (unat i) @ '' already received'')
      else Inr (b\<lparr>rob_blocks := hm_insert i dat (rob_blocks b)\<rparr>))"

definition can_assemble :: "DlReorderBuffer \<Rightarrow> bool" where
  "can_assemble b = (length (rob_blocks b) = unat (expected_count b))"

function drain_ordered :: "DlReorderBuffer \<Rightarrow> DlReorderBuffer \<times> (u32 \<times> bytes) list" where
  "drain_ordered b =
     (case hm_get (rob_blocks b) (next_expected b) of
        None \<Rightarrow> (b, [])
      | Some dat \<Rightarrow>
          let (b', out) = drain_ordered (b\<lparr>rob_blocks := hm_remove (next_expected b) (rob_blocks b),
                                            next_expected := next_expected b + 1\<rparr>)
          in (b', (next_expected b, dat) # out))"
  by pat_completeness auto
termination
  by (relation "measure (\<lambda>b. length (rob_blocks b))") (simp_all add: length_hm_remove)

declare drain_ordered.simps [simp del]

definition rob_remaining :: "DlReorderBuffer \<Rightarrow> u32" where
  "rob_remaining b = saturating_sub (expected_count b) (of_nat (length (rob_blocks b)))"

definition is_complete :: "DlReorderBuffer \<Rightarrow> bool" where
  "is_complete b = can_assemble b"

section \<open>Progress\<close>

record DownloadProgress =
  dp_file_name :: string
  dp_total_blocks :: u32
  dp_completed_blocks :: u32
  dp_failed_blocks :: u32
  dp_total_bytes :: u64
  downloaded_bytes :: u64
  started_at :: u64
  estimated_remaining_secs :: "u64 option"

definition progress_new :: "u64 \<Rightarrow> string \<Rightarrow> u32 \<Rightarrow> u64 \<Rightarrow> DownloadProgress" where
  "progress_new now file blocks bs =
     \<lparr>dp_file_name = file, dp_total_blocks = blocks, dp_completed_blocks = 0, dp_failed_blocks = 0,
      dp_total_bytes = bs, downloaded_bytes = 0, started_at = now, estimated_remaining_secs = None\<rparr>"

definition update_eta :: "u64 \<Rightarrow> DownloadProgress \<Rightarrow> DownloadProgress" where
  "update_eta now p =
     (if dp_completed_blocks p = 0 \<or> dp_total_blocks p = 0 then p\<lparr>estimated_remaining_secs := None\<rparr>
      else
        let elapsed = saturating_sub now (started_at p)
        in if elapsed = 0 then p\<lparr>estimated_remaining_secs := None\<rparr>
           else
             let bytes_per_sec = downloaded_bytes p div elapsed
             in if bytes_per_sec = 0 then p\<lparr>estimated_remaining_secs := None\<rparr>
                else p\<lparr>estimated_remaining_secs :=
                         Some (saturating_sub (dp_total_bytes p) (downloaded_bytes p) div bytes_per_sec)\<rparr>)"

definition progress_update :: "u64 \<Rightarrow> u32 \<Rightarrow> u32 \<Rightarrow> u64 \<Rightarrow> DownloadProgress \<Rightarrow> DownloadProgress" where
  "progress_update now completed failed bs p =
     update_eta now (p\<lparr>dp_completed_blocks := completed, dp_failed_blocks := failed, downloaded_bytes := bs\<rparr>)"

definition progress_fraction :: "DownloadProgress \<Rightarrow> quotient" where
  "progress_fraction p =
     (if dp_total_blocks p = 0 then (1, 1) else (unat (dp_completed_blocks p), unat (dp_total_blocks p)))"

section \<open>The manager\<close>

record InternalTask =
  it_task :: DownloadTask
  it_status :: DownloadStatus
  it_progress :: DownloadProgress
  it_buffer :: DlReorderBuffer
  completed_blocks :: "u32 list"
  failed_blocks :: "(u32, string list) hmap"
  node_assignments :: "(u32, string) hmap"

definition internal_task_new :: "u64 \<Rightarrow> DownloadTask \<Rightarrow> InternalTask" where
  "internal_task_new now t =
     (let total_blocks = of_nat (length (block_sources t))
      in \<lparr>it_task = t, it_status = DlPending,
          it_progress = progress_new now (dt_file_name t) total_blocks (total_size t),
          it_buffer = rob_new total_blocks, completed_blocks = [], failed_blocks = [], node_assignments = []\<rparr>)"

record DownloadManager =
  dm_tasks :: "(string, InternalTask) hmap"
  node_load :: "(string, u32) hmap"
  tasks_poisoned :: bool

datatype dl_error = DlErr string | DlPanic

abbreviation lock_poisoned :: dl_error where
  "lock_poisoned \<equiv> DlErr ''lock poisoned''"

definition task_not_found :: "string \<Rightarrow> dl_error" where
  "task_not_found file = DlErr (''download task '' @ [CHR 0x27] @ file @ [CHR 0x27] @ '' not found'')"

definition download_manager_new :: DownloadManager where
  "download_manager_new = \<lparr>dm_tasks = [], node_load = [], tasks_poisoned = False\<rparr>"

definition create_task ::
  "u64 \<Rightarrow> string \<Rightarrow> FileManifest \<Rightarrow> (u32, string list) hmap \<Rightarrow> DownloadManager \<Rightarrow> DownloadManager \<times> DownloadTask" where
  "create_task now file manifest sources m =
     (let task = \<lparr>dt_file_name = file, dt_file_hash = fm_file_hash manifest, total_size = fm_file_size manifest,
                  dt_manifest = Some manifest, block_sources = sources\<rparr>
      in ((if tasks_poisoned m then m
           else m\<lparr>dm_tasks := hm_insert file (internal_task_new now task) (dm_tasks m)\<rparr>), task))"

definition get_status :: "string \<Rightarrow> DownloadManager \<Rightarrow> DownloadStatus option" where
  "get_status file m = (if tasks_poisoned m then None else map_option it_status (hm_get (dm_tasks m) file))"

definition load_of :: "DownloadManager \<Rightarrow> string \<Rightarrow> u32" where
  "load_of m n = (case hm_get (node_load m) n of None \<Rightarrow> 0 | Some c \<Rightarrow> c)"

definition select_source :: "string list \<Rightarrow> DownloadManager \<Rightarrow> string option" where
  "select_source nodes m = (if nodes = [] then None else min_by_key (load_of m) nodes)"

definition dl_cancel :: "string \<Rightarrow> DownloadManager \<Rightarrow> DownloadManager \<times> (dl_error, unit) result" where
  "dl_cancel file m =
     (if tasks_poisoned m then (m, Inl lock_poisoned)
      else case hm_get (dm_tasks m) file of
             None \<Rightarrow> (m, Inl (task_not_found file))
           | Some _ \<Rightarrow> (m\<lparr>dm_tasks := hm_remove file (dm_tasks m)\<rparr>, Inr ()))"

fun is_active :: "DownloadStatus \<Rightarrow> bool" where
  "is_active DlPending = True"
| "is_active (Downloading _ _ _) = True"
| "is_active _ = False"

definition active_downloads :: "DownloadManager \<Rightarrow> string list" where
  "active_downloads m =
     (if tasks_poisoned m then [] else map fst (filter (\<lambda>(n, t). is_active (it_status t)) (dm_tasks m)))"

definition assign_block :: "string \<Rightarrow> u32 \<Rightarrow> string \<Rightarrow> DownloadManager \<Rightarrow> DownloadManager \<times> (dl_error, unit) result" where
  "assign_block file i node m =
     (if tasks_poisoned m then (m, Inl lock_poisoned)
      else if (case hm_get (dm_tasks m) file of None \<Rightarrow> False | Some t \<Rightarrow> i \<in> set (completed_blocks t))
      then (m, Inl (DlErr (''block '' @ show_nat (unat i) @ '' already completed'')))
      else
        (m\<lparr>node_load := hm_insert node (load_of m node + 1) (node_load m),
           dm_tasks := hm_modify file
             (\<lambda>t. t\<lparr>node_assignments := hm_insert i node (node_assignments t)\<rparr>) (dm_tasks m)\<rparr>, Inr ()))"

text \<open>The node a block is assigned to, and giving back its load.\<close>

definition assigned_node :: "string \<Rightarrow> u32 \<Rightarrow> DownloadManager \<Rightarrow> string option" where
  "assigned_node file i m =
     Option.bind (hm_get (dm_tasks m) file) (\<lambda>t. hm_get (node_assignments t) i)"

definition release_load :: "string option \<Rightarrow> DownloadManager \<Rightarrow> DownloadManager" where
  "release_load node m =
     (case node of None \<Rightarrow> m
      | Some n \<Rightarrow>
          (case hm_get (node_load m) n of None \<Rightarrow> m
           | Some c \<Rightarrow>
               let c' = saturating_sub c 1
               in m\<lparr>node_load := (if c' = 0 then hm_remove n (node_load m) else hm_insert n c' (node_load m))\<rparr>))"

text \<open>
  The estimate of the bytes received: the average block size for every completed block;
  \<open>None\<close> is the division by zero.
\<close>

definition estimate_downloaded :: "InternalTask \<Rightarrow> u64 option" where
  "estimate_downloaded t =
     (if completed_blocks t = [] then Some 0
      else if block_sources (it_task t) = [] then None
      else Some (of_nat (length (completed_blocks t))
                 * (total_size (it_task t) div of_nat (length (block_sources (it_task t))))))"

definition put_task :: "string \<Rightarrow> InternalTask \<Rightarrow> DownloadManager \<Rightarrow> DownloadManager" where
  "put_task file t m = m\<lparr>dm_tasks := hm_insert file t (dm_tasks m)\<rparr>"

definition complete_block ::
  "u64 \<Rightarrow> string \<Rightarrow> u32 \<Rightarrow> bytes \<Rightarrow> DownloadManager \<Rightarrow> DownloadManager \<times> (dl_error, unit) result" where
  "complete_block now file i dat m =
     (if tasks_poisoned m then (m, Inl lock_poisoned)
      else
        let m = release_load (assigned_node file i m) m
        in case hm_get (dm_tasks m) file of
             None \<Rightarrow> (m, Inl (task_not_found file))
           | Some t \<Rightarrow>
               let t = t\<lparr>completed_blocks := List.insert i (completed_blocks t),
                         node_assignments := hm_remove i (node_assignments t)\<rparr>
               in case rob_push i dat (it_buffer t) of
                    Inl e \<Rightarrow> (put_task file t m, Inl (DlErr (''reorder buffer push failed: '' @ e)))
                  | Inr b \<Rightarrow>
                      let t = t\<lparr>it_buffer := b\<rparr>
                      in case estimate_downloaded t of
                           None \<Rightarrow> ((put_task file t m)\<lparr>tasks_poisoned := True\<rparr>, Inl DlPanic)
                         | Some downloaded \<Rightarrow>
                             let t = t\<lparr>it_progress := progress_update now (of_nat (length (completed_blocks t)))
                                        (of_nat (length (failed_blocks t))) downloaded (it_progress t)\<rparr>;
                                 tot = total_size (it_task t)
                             in (put_task file (t\<lparr>it_status :=
                                   (if is_complete (it_buffer t) then Downloading (1, 1) tot tot
                                    else Downloading (progress_fraction (it_progress t)) downloaded tot)\<rparr>) m, Inr ()))"

text \<open>Recording a failure, and failing the whole download at the limit.\<close>

definition record_failure :: "string option \<Rightarrow> u32 \<Rightarrow> InternalTask \<Rightarrow> InternalTask" where
  "record_failure node i t =
     (let old = (case hm_get (failed_blocks t) i of None \<Rightarrow> [] | Some ns \<Rightarrow> ns);
          t = t\<lparr>node_assignments := hm_remove i (node_assignments t),
                failed_blocks := hm_insert i (case node of None \<Rightarrow> old | Some n \<Rightarrow> old @ [n]) (failed_blocks t)\<rparr>;
          total_failed = of_nat (length (failed_blocks t)) :: u32
      in if MAX_FAILED_BLOCKS \<le> total_failed
         then t\<lparr>it_status := DlFailed (''too many failed blocks: '' @ show_nat (unat total_failed)
                  @ '' (max '' @ show_nat (unat MAX_FAILED_BLOCKS) @ '')'')\<rparr>
         else t)"

definition fail_block ::
  "u64 \<Rightarrow> string \<Rightarrow> u32 \<Rightarrow> string \<Rightarrow> DownloadManager \<Rightarrow> DownloadManager \<times> (dl_error, unit) result" where
  "fail_block now file i err m =
     (if tasks_poisoned m then (m, Inl lock_poisoned)
      else
        let node = assigned_node file i m; m = release_load node m
        in case hm_get (dm_tasks m) file of
             None \<Rightarrow> (m, Inl (task_not_found file))
           | Some t \<Rightarrow>
               let t = record_failure node i t
               in case estimate_downloaded t of
                    None \<Rightarrow> ((put_task file t m)\<lparr>tasks_poisoned := True\<rparr>, Inl DlPanic)
                  | Some downloaded \<Rightarrow>
                      (put_task file (t\<lparr>it_progress := progress_update now (of_nat (length (completed_blocks t)))
                         (of_nat (length (failed_blocks t))) downloaded (it_progress t)\<rparr>) m, Inr ()))"

lemma record_failure_simps [simp]:
  "node_assignments (record_failure node i t) = hm_remove i (node_assignments t)"
  "it_task (record_failure node i t) = it_task t"
  "completed_blocks (record_failure node i t) = completed_blocks t"
  by (simp_all add: record_failure_def Let_def)

section \<open>Blocks come out in order\<close>

datatype rob_op = Push u32 bytes | Drain

fun rob_step :: "rob_op \<Rightarrow> DlReorderBuffer \<Rightarrow> DlReorderBuffer \<times> (u32 \<times> bytes) list" where
  "rob_step (Push i d) b = (case rob_push i d b of Inl e \<Rightarrow> (b, []) | Inr b' \<Rightarrow> (b', []))"
| "rob_step Drain b = drain_ordered b"

fun rob_run :: "rob_op list \<Rightarrow> DlReorderBuffer \<Rightarrow> DlReorderBuffer \<times> (u32 \<times> bytes) list" where
  "rob_run [] b = (b, [])"
| "rob_run (op # ops) b =
     (let (b1, o1) = rob_step op b; (b2, o2) = rob_run ops b1 in (b2, o1 @ o2))"

lemma rob_run_snoc:
  "rob_run (ops @ [op]) b = (let (b1, o1) = rob_run ops b; (b2, o2) = rob_step op b1 in (b2, o1 @ o2))"
  by (induction ops arbitrary: b) (simp_all add: Let_def case_prod_unfold)

text \<open>The data of the first push of an index.\<close>

fun first_push :: "u32 \<Rightarrow> rob_op list \<Rightarrow> bytes option" where
  "first_push i [] = None"
| "first_push i (Push j d # ops) = (if i = j then Some d else first_push i ops)"
| "first_push i (Drain # ops) = first_push i ops"

lemma first_push_snoc:
  "first_push i (ops @ [op]) =
     (case first_push i ops of Some d \<Rightarrow> Some d | None \<Rightarrow> first_push i [op])"
  by (induction i ops rule: first_push.induct) auto

text \<open>
  The buffer after some operations: the next index is the number of blocks put out, and for
  the indices not yet put out the buffer holds the first data pushed.
\<close>

definition rob_inv :: "u32 \<Rightarrow> (u32 \<Rightarrow> bytes option) \<Rightarrow> nat \<Rightarrow> DlReorderBuffer \<Rightarrow> bool" where
  "rob_inv n first k b \<longleftrightarrow> expected_count b = n \<and> next_expected b = of_nat k \<and> k \<le> unat n
     \<and> (\<forall>i. hm_get (rob_blocks b) i \<noteq> None \<longrightarrow> i < n)
     \<and> (\<forall>i. k \<le> unat i \<longrightarrow> i < n \<longrightarrow> hm_get (rob_blocks b) i = first i)"

definition outputs :: "(u32 \<Rightarrow> bytes option) \<Rightarrow> nat \<Rightarrow> nat \<Rightarrow> (u32 \<times> bytes) list" where
  "outputs first k k' = map (\<lambda>i. (of_nat i, the (first (of_nat i)))) [k..<k']"

lemma unat_of_nat_le: "k \<le> unat (n :: u32) \<Longrightarrow> unat (of_nat k :: u32) = k"
  using unsigned_less [of n, where 'a = nat] by (intro unat_of_nat_small) simp

lemma drain_ordered_spec:
  assumes "rob_inv n first k b" "drain_ordered b = (b', out)"
  shows "\<exists>k'. k \<le> k' \<and> rob_inv n first k' b' \<and> out = outputs first k k'
    \<and> (\<forall>i. k \<le> i \<longrightarrow> i < k' \<longrightarrow> first (of_nat i) \<noteq> None) \<and> (k' = unat n \<or> first (of_nat k') = None)"
  using assms
proof (induction b arbitrary: k b' out rule: drain_ordered.induct)
  case (1 b)
  note inv = "1.prems"(1) [unfolded rob_inv_def]
  then have nx: "next_expected b = of_nat k" and kn: "k \<le> unat n" by simp_all
  note k = unat_of_nat_le [OF kn]
  show ?case
  proof (cases "hm_get (rob_blocks b) (next_expected b)")
    case None
    with "1.prems"(2) have "b' = b" "out = []" by (simp_all add: drain_ordered.simps)
    moreover have "first (of_nat k) = None" if "k < unat n"
      using inv None k that by (metis nx order_refl word_less_nat_alt)
    then have "k = unat n \<or> first (of_nat k) = None" using kn by (meson le_neq_implies_less)
    ultimately show ?thesis using "1.prems"(1) by (intro exI [of _ k]) (simp add: outputs_def)
  next
    case (Some dat)
    let ?b = "b\<lparr>rob_blocks := hm_remove (next_expected b) (rob_blocks b), next_expected := next_expected b + 1\<rparr>"
    obtain out2 where d: "drain_ordered ?b = (b', out2)" and out: "out = (of_nat k, dat) # out2"
      using "1.prems"(2) Some by (auto simp: drain_ordered.simps [of b] nx Let_def split: prod.splits)
    have lt: "(of_nat k :: u32) < n" using inv Some nx by auto
    then have kn: "k < unat n" using k by (simp add: word_less_nat_alt)
    have fk: "first (of_nat k) = Some dat" using inv Some nx k lt by auto
    have "rob_inv n first (Suc k) ?b"
      using inv kn k by (auto simp: rob_inv_def nx add.commute)
    from "1.IH" [OF Some this d] obtain k' where k': "Suc k \<le> k'" "rob_inv n first k' b'" "out2 = outputs first (Suc k) k'"
        "\<forall>i. Suc k \<le> i \<longrightarrow> i < k' \<longrightarrow> first (of_nat i) \<noteq> None" "k' = unat n \<or> first (of_nat k') = None" by blast
    have "out = outputs first k k'"
      using k'(1,3) fk out by (simp add: outputs_def upt_conv_Cons)
    moreover have "\<forall>i. k \<le> i \<longrightarrow> i < k' \<longrightarrow> first (of_nat i) \<noteq> None"
      using k'(4) fk by (metis Suc_leI le_neq_implies_less option.distinct(1))
    ultimately show ?thesis using k' by (intro exI [of _ k']) simp
  qed
qed

lemma outputs_append:
  assumes "k \<le> k'"
  shows "outputs first 0 k @ outputs first k k' = outputs first 0 k'"
proof -
  have "[0..<k'] = [0..<k] @ [k..<k']"
    using upt_add_eq_append [of 0 k "k' - k"] assms by simp
  then show ?thesis by (simp add: outputs_def)
qed

lemma outputs_cong: "(\<And>i. k \<le> i \<Longrightarrow> i < k' \<Longrightarrow> f (of_nat i) = g (of_nat i)) \<Longrightarrow> outputs f k k' = outputs g k k'"
  by (simp add: outputs_def)

lemma rob_inv_push:
  assumes "rob_inv n f k b"
  shows "rob_inv n (\<lambda>i. case f i of Some d' \<Rightarrow> Some d' | None \<Rightarrow> if i = j then Some d else None) k
    (fst (rob_step (Push j d) b))"
proof -
  let ?g = "\<lambda>i. case f i of Some d' \<Rightarrow> Some d' | None \<Rightarrow> if i = j then Some d else None"
  let ?b = "fst (rob_step (Push j d) b)"
  note inv = assms [unfolded rob_inv_def]
  have same: "expected_count ?b = n" "next_expected ?b = of_nat k" "k \<le> unat n"
    using inv by (auto simp: rob_push_def)
  have blocks: "hm_get (rob_blocks ?b) i =
      (if i = j \<and> j < n \<and> hm_get (rob_blocks b) j = None then Some d else hm_get (rob_blocks b) i)" for i
    using inv by (auto simp: rob_push_def hm_contains_def not_le)
  have "hm_get (rob_blocks ?b) i = ?g i" if "k \<le> unat i" "i < n" for i
  proof -
    have "hm_get (rob_blocks b) i = f i" using inv that by blast
    with that(2) show ?thesis unfolding blocks by (cases "f i") auto
  qed
  moreover have "i < n" if "hm_get (rob_blocks ?b) i \<noteq> None" for i
    using inv that unfolding blocks by (metis (full_types))
  ultimately show ?thesis unfolding rob_inv_def using same by blast
qed

lemma rob_run_inv:
  "\<exists>k. rob_inv n (\<lambda>i. first_push i ops) k (fst (rob_run ops (rob_new n)))
    \<and> snd (rob_run ops (rob_new n)) = outputs (\<lambda>i. first_push i ops) 0 k
    \<and> (\<forall>i < k. first_push (of_nat i) ops \<noteq> None)"
proof (induction ops rule: rev_induct)
  case Nil
  show ?case by (intro exI [of _ 0]) (simp add: rob_inv_def rob_new_def outputs_def)
next
  case (snoc op ops)
  let ?f = "\<lambda>i. first_push i ops" and ?g = "\<lambda>i. first_push i (ops @ [op])"
  obtain b1 o1 where r: "rob_run ops (rob_new n) = (b1, o1)" by force
  with snoc.IH obtain k where k: "rob_inv n ?f k b1" "o1 = outputs ?f 0 k" "\<forall>i < k. ?f (of_nat i) \<noteq> None" by auto
  have fg: "?g (of_nat i) = ?f (of_nat i)" if "i < k" for i
    using k(3) that by (auto simp: first_push_snoc split: option.splits)
  have o1: "o1 = outputs ?g 0 k" unfolding k(2) by (rule outputs_cong) (rule fg [symmetric])
  have some: "\<forall>i < k. ?g (of_nat i) \<noteq> None" using k(3) by (intro allI impI) (simp only: fg not_False_eq_True)
  show ?case
  proof (cases op)
    case (Push j d)
    have "?g = (\<lambda>i. case ?f i of Some d' \<Rightarrow> Some d' | None \<Rightarrow> if i = j then Some d else None)"
      by (simp add: Push first_push_snoc cong: option.case_cong if_cong)
    with rob_inv_push [OF k(1), of j d] have "rob_inv n ?g k (fst (rob_step op b1))" by (simp only: Push)
    moreover have "snd (rob_step op b1) = []" by (simp add: Push split: sum.splits)
    moreover note o1 some
    ultimately show ?thesis
      by (intro exI [of _ k]) (simp add: rob_run_snoc r case_prod_unfold Let_def)
  next
    case Drain
    obtain b2 o2 where d: "drain_ordered b1 = (b2, o2)" by force
    have g: "first_push i (ops @ [Drain]) = first_push i ops" for i
      by (simp add: first_push_snoc split: option.splits)
    from drain_ordered_spec [OF k(1) d] obtain k' where k': "k \<le> k'" "rob_inv n ?f k' b2" "o2 = outputs ?f k k'"
        "\<forall>i. k \<le> i \<longrightarrow> i < k' \<longrightarrow> ?f (of_nat i) \<noteq> None" by blast
    then have "\<forall>i < k'. ?f (of_nat i) \<noteq> None" using k(3) by (meson not_le)
    with k k' d show ?thesis
      unfolding Drain g by (intro exI [of _ k']) (simp add: rob_run_snoc r outputs_append)
  qed
qed

lemma rob_run_drained:
  assumes "\<forall>i < unat n. first_push (of_nat i) ops \<noteq> None"
  shows "snd (rob_run (ops @ [Drain]) (rob_new n)) = outputs (\<lambda>i. first_push i ops) 0 (unat n)"
proof -
  let ?f = "\<lambda>i. first_push i ops"
  obtain b1 o1 where r: "rob_run ops (rob_new n) = (b1, o1)" by force
  with rob_run_inv [of n ops] obtain k where k: "rob_inv n ?f k b1" "o1 = outputs ?f 0 k" by auto
  obtain b2 o2 where d: "drain_ordered b1 = (b2, o2)" by force
  from drain_ordered_spec [OF k(1) d] obtain k' where k': "k \<le> k'" "rob_inv n ?f k' b2" "o2 = outputs ?f k k'"
      "k' = unat n \<or> ?f (of_nat k') = None" by blast
  have "k' = unat n"
    using k'(2,4) assms by (metis rob_inv_def le_neq_implies_less)
  with k k' d show ?thesis by (simp add: rob_run_snoc r outputs_append)
qed

text \<open>
  C12. Blocks of a file in any order: let the blocks of a file (fewer than \<open>2^32\<close>) arrive in any
  order, any number of times, with drains at any moments between, and with pushes of indices
  out of range. Once each has arrived, what the buffer has put out is the blocks in order,
  without repetition, and they reassemble to the file.
\<close>

theorem downloaded_blocks_reassemble:
  assumes "chunk_data sha c dat = (m, bs)" "0 < chunk_size c" "length bs < 2 ^ 32"
    and "\<forall>i d. Push i d \<in> set ops \<longrightarrow> unat i < length bs \<longrightarrow> d = bs ! unat i"
    and "\<forall>i < length bs. \<exists>d. Push (of_nat i) d \<in> set ops"
    and "out = snd (rob_run (ops @ [Drain]) (rob_new (of_nat (length bs))))"
  shows "map snd out = bs \<and> map fst out = map of_nat [0..<length bs]
    \<and> reassemble sha m (map snd out) = Inr dat"
proof -
  have n: "unat (of_nat (length bs) :: u32) = length bs" using assms(3) by (intro unat_of_nat_small) simp
  have first: "first_push i ops = Some d \<Longrightarrow> Push i d \<in> set ops" for i d
    by (induction i ops rule: first_push.induct) (auto split: if_splits)
  have found: "Push i d \<in> set ops \<Longrightarrow> first_push i ops \<noteq> None" for i d
    by (induction i ops rule: first_push.induct) auto
  have small: "unat (of_nat i :: u32) = i" if "i < length bs" for i
    using that assms(3) by (intro unat_of_nat_small) simp
  have eq: "first_push (of_nat i) ops = Some (bs ! i)" if "i < length bs" for i
    using assms(4,5) found first small that by (metis not_None_eq)
  have "out = outputs (\<lambda>i. first_push i ops) 0 (length bs)"
    using rob_run_drained [of "of_nat (length bs)" ops] eq by (simp add: assms(6) n)
  then have "out = map (\<lambda>i. (of_nat i, bs ! i)) [0..<length bs]"
    using eq by (simp add: outputs_def)
  then have "map snd out = bs" "map fst out = map of_nat [0..<length bs]"
    by (simp_all add: comp_def map_nth)
  moreover have "reassemble sha m bs = Inr dat"
    using reassemble_chunk_data [OF assms(2), of sha dat] assms(1) by simp
  ultimately show ?thesis by simp
qed

theorem downloaded_blocks_reassemble_witness:
  "let (m, bs) = chunk_data (\<lambda>b. b) \<lparr>chunk_size = 2\<rparr> [1, 2, 3];
       ops = [Push 1 [3], Drain, Push 1 [3], Push 9 [], Push 0 [1, 2], Drain, Push 0 [1, 2]]
   in map snd (snd (rob_run (ops @ [Drain]) (rob_new 2))) = [[1, 2], [3]]"
proof -
  let ?c = "chunk_data (\<lambda>b. b) \<lparr>chunk_size = 2\<rparr> [1, 2, 3]"
  let ?ops = "[Push 1 [3], Drain, Push 1 [3], Push 9 [], Push 0 [1, 2], Drain, Push 0 [1, 2]]"
  have bs: "snd ?c = [[1, 2], [3]]" by (simp add: chunk_data_def num_chunks_def block_def slice_def upt_rec)
  then obtain m where c: "?c = (m, [[1, 2], [3]])" by (metis prod.collapse)
  have "\<forall>i < length [[1, 2], [3 :: u8]]. \<exists>d. Push (of_nat i) d \<in> set ?ops"
    by (auto simp: less_Suc_eq numeral_2_eq_2)
  moreover have "\<forall>i d. Push i d \<in> set ?ops \<longrightarrow> unat i < length [[1, 2], [3 :: u8]] \<longrightarrow> d = [[1, 2], [3]] ! unat i"
    by simp
  ultimately have "map snd (snd (rob_run (?ops @ [Drain]) (rob_new (of_nat (length [[1, 2], [3 :: u8]]))))) = [[1, 2], [3]]"
    by (intro downloaded_blocks_reassemble [OF c _ _ _ _ refl, THEN conjunct1]) simp_all
  then show ?thesis by (simp add: c del: rob_run.simps)
qed

section \<open>The load of the nodes\<close>

definition count_assigned :: "string \<Rightarrow> InternalTask \<Rightarrow> nat" where
  "count_assigned n t = sum_list (map (\<lambda>v. if v = n then 1 else 0) (hm_values (node_assignments t)))"

definition assigned_total :: "DownloadManager \<Rightarrow> string \<Rightarrow> nat" where
  "assigned_total m n = sum_list (map (count_assigned n) (hm_values (dm_tasks m)))"

definition load_inv :: "DownloadManager \<Rightarrow> bool" where
  "load_inv m \<longleftrightarrow> hm_ok (dm_tasks m) \<and> (\<forall>f t. hm_get (dm_tasks m) f = Some t \<longrightarrow> hm_ok (node_assignments t))
     \<and> (\<forall>n. unat (load_of m n) = assigned_total m n)"

text \<open>Replacing one task, with its count of a node changed.\<close>

lemma assigned_total_put:
  assumes "hm_ok (dm_tasks m)" "dm_tasks m' = hm_insert f t (dm_tasks m)"
  shows "assigned_total m' n + (case hm_get (dm_tasks m) f of None \<Rightarrow> 0 | Some u \<Rightarrow> count_assigned n u)
    = assigned_total m n + count_assigned n t"
  using sum_values_insert [OF assms(1), of "count_assigned n" f t] by (simp add: assigned_total_def assms(2))

lemma count_assigned_insert:
  assumes "hm_ok (node_assignments t)" "hm_get (node_assignments t) i = None"
    and "node_assignments t' = hm_insert i v (node_assignments t)"
  shows "count_assigned n t' = count_assigned n t + (if v = n then 1 else 0)"
  using sum_values_insert [OF assms(1), of "\<lambda>v. if v = n then 1 else 0" i v] assms(2)
  by (simp add: count_assigned_def assms(3))

lemma count_assigned_remove:
  assumes "hm_ok (node_assignments t)" "node_assignments t' = hm_remove i (node_assignments t)"
  shows "count_assigned n t' + (if hm_get (node_assignments t) i = Some n then 1 else 0) = count_assigned n t"
  using sum_values_remove [OF assms(1), of "\<lambda>v. if v = n then 1 else 0" i]
  by (auto simp: count_assigned_def assms(2) split: option.splits)

lemma load_of_release:
  "load_of (release_load node m) n = (if node = Some n \<and> load_of m n \<noteq> 0 then load_of m n - 1 else load_of m n)"
proof -
  have one: "(1 :: u32) \<le> c \<longleftrightarrow> c \<noteq> 0" for c
    by (metis word_le_nat_alt unsigned_1 One_nat_def Suc_leI le_zero_eq not_one_le_zero unat_eq_0 neq0_conv)
  show ?thesis
    by (auto simp: release_load_def load_of_def Let_def saturating_sub_def one split: option.splits)
qed

lemma release_load_tasks [simp]: "dm_tasks (release_load node m) = dm_tasks m"
    "tasks_poisoned (release_load node m) = tasks_poisoned m"
  by (simp_all add: release_load_def Let_def split: option.splits)

lemma load_inv_assign:
  assumes "load_inv m" "hm_get (dm_tasks m) file = Some t" "hm_get (node_assignments t) i = None"
    and "unat (load_of m node) + 1 < 2 ^ 32"
  shows "load_inv (fst (assign_block file i node m))"
proof (cases "tasks_poisoned m \<or> i \<in> set (completed_blocks t)")
  case False
  let ?t = "t\<lparr>node_assignments := hm_insert i node (node_assignments t)\<rparr>"
  let ?m = "fst (assign_block file i node m)"
  have tasks: "dm_tasks ?m = hm_insert file ?t (dm_tasks m)"
    using False assms(2) by (simp add: assign_block_def hm_modify_def)
  have load: "load_of ?m n = (if n = node then load_of m n + 1 else load_of m n)" for n
    using False assms(2) by (simp add: assign_block_def load_of_def)
  have ok: "hm_ok (dm_tasks m)" "hm_ok (node_assignments t)" using assms(1,2) by (auto simp: load_inv_def)
  have "assigned_total ?m n = assigned_total m n + (if node = n then 1 else 0)" for n
    using assigned_total_put [OF ok(1) tasks, of n] count_assigned_insert [OF ok(2) assms(3), of ?t node n] assms(2)
    by simp
  moreover have "unat (load_of m node + 1) = unat (load_of m node) + 1" using assms(4) by (intro unat_add_one) simp
  ultimately have "unat (load_of ?m n) = assigned_total ?m n" for n
    using assms(1) load [of n] by (auto simp: load_inv_def)
  with assms(1,2) tasks ok show ?thesis by (auto simp: load_inv_def split: if_splits)
qed (use assms in \<open>auto simp: assign_block_def\<close>)

text \<open>The common part of completing and failing a block.\<close>

lemma load_inv_release:
  assumes "load_inv m" "hm_get (dm_tasks m) file = Some t"
    and "node_assignments t' = hm_remove i (node_assignments t)"
    and "dm_tasks m' = hm_insert file t' (dm_tasks m)"
    and "node_load m' = node_load (release_load (assigned_node file i m) m)"
  shows "load_inv m'"
proof -
  have ok: "hm_ok (dm_tasks m)" "hm_ok (node_assignments t)" using assms(1,2) by (auto simp: load_inv_def)
  have a: "assigned_node file i m = hm_get (node_assignments t) i" by (simp add: assigned_node_def assms(2))
  have tot: "assigned_total m' n + count_assigned n t = assigned_total m n + count_assigned n t'" for n
    using assigned_total_put [OF ok(1) assms(4), of n] assms(2) by simp
  have rem: "count_assigned n t' + (if hm_get (node_assignments t) i = Some n then 1 else 0) = count_assigned n t" for n
    by (rule count_assigned_remove [OF ok(2) assms(3)])
  have cnt: "assigned_total m' n + (if hm_get (node_assignments t) i = Some n then 1 else 0) = assigned_total m n" for n
    using tot [of n] rem [of n] by linarith
  have load: "load_of m' n = load_of (release_load (assigned_node file i m) m) n" for n
    by (simp add: load_of_def assms(5))
  have "unat (load_of m' n) = assigned_total m' n" for n
  proof (cases "hm_get (node_assignments t) i = Some n")
    case True
    then have pos: "unat (load_of m n) = Suc (assigned_total m' n)"
      using cnt [of n] assms(1) by (simp add: load_inv_def)
    then have "load_of m n \<noteq> 0" "(1 :: u32) \<le> load_of m n" by (auto simp: word_le_nat_alt)
    then show ?thesis using pos True by (simp add: load a load_of_release unat_sub)
  next
    case False
    then show ?thesis using cnt [of n] assms(1) by (auto simp: load a load_of_release load_inv_def)
  qed
  with assms(1-4) ok show ?thesis by (auto simp: load_inv_def split: if_splits)
qed

lemma load_inv_same:
  "load_inv m \<Longrightarrow> dm_tasks m' = dm_tasks m \<Longrightarrow> node_load m' = node_load m \<Longrightarrow> load_inv m'"
  by (simp add: load_inv_def assigned_total_def load_of_def)

lemma release_load_None: "release_load None m = m"
  by (simp add: release_load_def)

text \<open>What completing and failing do to the task table and to the load, on every branch.\<close>

definition releases :: "string \<Rightarrow> u32 \<Rightarrow> InternalTask \<Rightarrow> DownloadManager \<Rightarrow> DownloadManager \<Rightarrow> bool" where
  "releases file i t m m' \<longleftrightarrow>
     (\<exists>t'. dm_tasks m' = hm_insert file t' (dm_tasks m) \<and> node_assignments t' = hm_remove i (node_assignments t))
     \<and> node_load m' = node_load (release_load (assigned_node file i m) m)"

lemma complete_block_releases:
  assumes "\<not> tasks_poisoned m" "hm_get (dm_tasks m) file = Some t"
  shows "releases file i t m (fst (complete_block now file i dat m))"
  using assms
  by (fastforce simp: releases_def complete_block_def Let_def put_task_def split: sum.splits option.splits)

lemma fail_block_releases:
  assumes "\<not> tasks_poisoned m" "hm_get (dm_tasks m) file = Some t"
  shows "releases file i t m (fst (fail_block now file i err m))"
  using assms
  by (fastforce simp: releases_def fail_block_def Let_def put_task_def split: option.splits)

lemma load_inv_releases:
  "load_inv m \<Longrightarrow> hm_get (dm_tasks m) file = Some t \<Longrightarrow> releases file i t m m' \<Longrightarrow> load_inv m'"
  unfolding releases_def using load_inv_release by blast

lemma load_inv_complete:
  assumes "load_inv m"
  shows "load_inv (fst (complete_block now file i dat m))"
proof (cases "hm_get (dm_tasks m) file")
  case None
  with assms show ?thesis by (simp add: complete_block_def assigned_node_def release_load_None)
next
  case (Some t)
  show ?thesis
  proof (cases "tasks_poisoned m")
    case True
    with assms show ?thesis by (simp add: complete_block_def)
  next
    case False
    show ?thesis by (rule load_inv_releases [OF assms Some complete_block_releases [OF False Some]])
  qed
qed

lemma load_inv_fail:
  assumes "load_inv m"
  shows "load_inv (fst (fail_block now file i err m))"
proof (cases "hm_get (dm_tasks m) file")
  case None
  with assms show ?thesis by (simp add: fail_block_def assigned_node_def release_load_None)
next
  case (Some t)
  show ?thesis
  proof (cases "tasks_poisoned m")
    case True
    with assms show ?thesis by (simp add: fail_block_def)
  next
    case False
    show ?thesis by (rule load_inv_releases [OF assms Some fail_block_releases [OF False Some]])
  qed
qed

lemma load_inv_create:
  assumes "load_inv m" "hm_get (dm_tasks m) file = None"
  shows "load_inv (fst (create_task now file manifest sources m))"
proof (cases "tasks_poisoned m")
  case False
  let ?m = "fst (create_task now file manifest sources m)"
  obtain t where t: "dm_tasks ?m = hm_insert file t (dm_tasks m)" "node_assignments t = []" "node_load ?m = node_load m"
    using False by (simp add: create_task_def internal_task_new_def Let_def)
  have ok: "hm_ok (dm_tasks m)" using assms(1) by (simp add: load_inv_def)
  have "assigned_total ?m n = assigned_total m n" for n
    using assigned_total_put [OF ok t(1), of n] assms(2) t(2) by (simp add: count_assigned_def hm_values_def)
  then show ?thesis using assms(1) t ok by (auto simp: load_inv_def load_of_def split: if_splits)
qed (use assms(1) in \<open>simp add: create_task_def\<close>)

text \<open>
  Managers in disciplined use: a file is not started twice, a block is not assigned to a second
  node while the first works on it, and no node has \<open>2^32\<close> blocks at a time.
\<close>

inductive dl_reach :: "DownloadManager \<Rightarrow> bool" where
  dl_new: "dl_reach download_manager_new"
| dl_create: "dl_reach m \<Longrightarrow> hm_get (dm_tasks m) file = None \<Longrightarrow> dl_reach (fst (create_task now file manifest sources m))"
| dl_assign: "dl_reach m \<Longrightarrow> hm_get (dm_tasks m) file = Some t \<Longrightarrow> hm_get (node_assignments t) i = None \<Longrightarrow>
    unat (load_of m node) + 1 < 2 ^ 32 \<Longrightarrow> dl_reach (fst (assign_block file i node m))"
| dl_complete: "dl_reach m \<Longrightarrow> dl_reach (fst (complete_block now file i dat m))"
| dl_fail: "dl_reach m \<Longrightarrow> dl_reach (fst (fail_block now file i err m))"

lemma dl_reach_load: "dl_reach m \<Longrightarrow> load_inv m"
proof (induction rule: dl_reach.induct)
  case dl_new
  show ?case by (simp add: load_inv_def download_manager_new_def load_of_def assigned_total_def hm_values_def)
qed (blast intro: load_inv_create load_inv_assign load_inv_complete load_inv_fail)+

text \<open>
  The load the manager keeps is the number of blocks a node is working on, and the source
  selected for a block is one with the fewest blocks in work, the first of them in the list.
\<close>

theorem select_source_least_busy:
  assumes "dl_reach m" "select_source nodes m = Some n"
  shows "unat (load_of m n) = assigned_total m n \<and> n \<in> set nodes
    \<and> (\<forall>n' \<in> set nodes. assigned_total m n \<le> assigned_total m n')"
proof -
  note inv = dl_reach_load [OF assms(1), unfolded load_inv_def]
  have "min_by_key (load_of m) nodes = Some n" using assms(2) by (simp add: select_source_def split: if_splits)
  from min_by_key_SomeD [OF this] inv show ?thesis by (metis word_le_nat_alt)
qed

theorem select_source_least_busy_witness:
  "let m = fst (assign_block ''f'' 0 ''a'' (fst (create_task 0 ''f''
             \<lparr>fm_file_hash = [], fm_file_size = 2, fm_chunks = [], fm_chunk_size = 1\<rparr>
             [(0, [''a'', ''b'']), (1, [''a'', ''b''])] download_manager_new)))
   in select_source [''a'', ''b''] m = Some ''b'' \<and> assigned_total m ''b'' \<le> assigned_total m ''a''"
proof -
  let ?mf = "\<lparr>fm_file_hash = [], fm_file_size = 2, fm_chunks = [], fm_chunk_size = 1\<rparr>"
  let ?start = "fst (create_task 0 ''f'' ?mf [(0, [''a'', ''b'']), (1, [''a'', ''b''])] download_manager_new)"
  let ?m = "fst (assign_block ''f'' 0 ''a'' ?start)"
  have r0: "dl_reach ?start" by (intro dl_create dl_new) (simp add: download_manager_new_def)
  obtain t where t: "hm_get (dm_tasks ?start) ''f'' = Some t" "node_assignments t = []" "completed_blocks t = []"
    by (simp add: create_task_def internal_task_new_def download_manager_new_def Let_def)
  have r: "dl_reach ?m"
    using dl_assign [OF r0 t(1), of 0 "''a''"] t(2)
    by (simp add: load_of_def create_task_def download_manager_new_def Let_def)
  have s: "select_source [''a'', ''b''] ?m = Some ''b''"
    by (simp add: select_source_def load_of_def assign_block_def create_task_def internal_task_new_def
        download_manager_new_def Let_def)
  from select_source_least_busy [OF r s] s show ?thesis by (simp add: Let_def)
qed

section \<open>Life of a download\<close>

text \<open>
  A block that is completed puts the download back to work whatever its state was: also after the
  download has failed, and also when the block was the last one. No operation ever reports
  the download as completed.
\<close>

theorem completing_a_block_revives:
  assumes "complete_block now file i dat m = (m', Inr ())"
  shows "\<exists>q done_bytes t. get_status file m' = Some (Downloading q done_bytes (total_size (it_task t)))
    \<and> hm_get (dm_tasks m) file = Some t
    \<and> (can_assemble (it_buffer t\<lparr>rob_blocks := hm_insert i dat (rob_blocks (it_buffer t))\<rparr>) \<longrightarrow> q = (1, 1))"
  using assms
  by (auto simp: complete_block_def Let_def get_status_def put_task_def rob_push_def is_complete_def
      split: if_splits option.splits sum.splits)

theorem completing_a_block_revives_witness:
  "let m0 = fst (create_task 0 ''f'' \<lparr>fm_file_hash = [], fm_file_size = 4, fm_chunks = [], fm_chunk_size = 1\<rparr>
             [(0, [''a'']), (1, [''a'']), (2, [''a'']), (3, [''a''])] download_manager_new);
       m1 = fst (fail_block 1 ''f'' 2 [] (fst (fail_block 1 ''f'' 1 [] (fst (fail_block 1 ''f'' 0 [] m0)))));
       m2 = fst (complete_block 2 ''f'' 3 [9] m1)
   in active_downloads m1 = [] \<and> (\<exists>q b t. get_status ''f'' m2 = Some (Downloading q b t))"
proof -
  define m0 where "m0 = fst (create_task 0 ''f'' \<lparr>fm_file_hash = [], fm_file_size = 4, fm_chunks = [], fm_chunk_size = 1\<rparr>
             [(0, [''a'']), (1, [''a'']), (2, [''a'']), (3, [''a''])] download_manager_new)"
  define m1 where "m1 = fst (fail_block 1 ''f'' 2 [] (fst (fail_block 1 ''f'' 1 [] (fst (fail_block 1 ''f'' 0 [] m0)))))"
  have act: "active_downloads m1 = []" unfolding m1_def m0_def by code_simp
  have "snd (complete_block 2 ''f'' 3 [9] m1) = Inr ()" unfolding m1_def m0_def by code_simp
  then have "complete_block 2 ''f'' 3 [9] m1 = (fst (complete_block 2 ''f'' 3 [9] m1), Inr ())"
    by (simp add: prod_eq_iff)
  from completing_a_block_revives [OF this] act show ?thesis by (auto simp: m1_def m0_def)
qed

text \<open>
  A task without sources breaks the manager: a block reported complete is refused by the buffer
  but counted, and the next failure report divides by the number of sources. The panic poisons
  the table, and every later operation on any file is refused.
\<close>

theorem sourceless_task_poisons:
  assumes "\<not> tasks_poisoned m" "hm_get (dm_tasks m) file = Some t" "block_sources (it_task t) = []"
    and "it_buffer t = rob_new 0"
    and "m1 = fst (complete_block now file i dat m)" "m2 = fst (fail_block now' file j err m1)"
  shows "(\<exists>e. snd (complete_block now file i dat m) = Inl (DlErr e))
    \<and> snd (fail_block now' file j err m1) = Inl DlPanic
    \<and> (\<forall>f k n d x. snd (assign_block f k n m2) = Inl lock_poisoned \<and> snd (complete_block x f k d m2) = Inl lock_poisoned
         \<and> snd (dl_cancel f m2) = Inl lock_poisoned \<and> get_status f m2 = None)"
proof -
  have m1: "snd (complete_block now file i dat m) = Inl (DlErr (''reorder buffer push failed: '' @
        ''block index '' @ show_nat (unat i) @ '' out of range [0, '' @ show_nat 0 @ '')''))"
      "\<not> tasks_poisoned m1" "\<exists>t'. hm_get (dm_tasks m1) file = Some t' \<and> i \<in> set (completed_blocks t')
         \<and> block_sources (it_task t') = []"
    using assms(1-4) by (simp_all add: assms(5) complete_block_def rob_push_def rob_new_def put_task_def Let_def)
  then obtain t' where t': "hm_get (dm_tasks m1) file = Some t'" "i \<in> set (completed_blocks t')" "block_sources (it_task t') = []"
    by blast
  have "estimate_downloaded (record_failure node j t') = None" for node
    using t'(2,3) by (auto simp: estimate_downloaded_def)
  then have "snd (fail_block now' file j err m1) = Inl DlPanic" "tasks_poisoned m2"
    using m1(2) t'(1) by (simp_all add: assms(6) fail_block_def Let_def)
  with m1(1) show ?thesis
    by (simp add: assign_block_def complete_block_def dl_cancel_def get_status_def)
qed

theorem sourceless_task_poisons_witness:
  "let m = fst (create_task 0 ''f'' \<lparr>fm_file_hash = [], fm_file_size = 0, fm_chunks = [], fm_chunk_size = 1\<rparr> []
             download_manager_new)
   in snd (fail_block 0 ''f'' 0 [] (fst (complete_block 0 ''f'' 0 [] m))) = Inl DlPanic"
  using sourceless_task_poisons [of
      "fst (create_task 0 ''f'' \<lparr>fm_file_hash = [], fm_file_size = 0, fm_chunks = [], fm_chunk_size = 1\<rparr> [] download_manager_new)"
      "''f''" _ _ 0 0 "[]" _ 0 0 "[]", OF _ _ _ _ refl refl]
  by (simp add: create_task_def internal_task_new_def download_manager_new_def Let_def)

text \<open>
  Cancelling a download leaves the load of its nodes behind: no task is left that could give
  it back.
\<close>

theorem cancel_leaks_load:
  assumes "dl_cancel file m = (m', Inr ())"
  shows "load_of m' n = load_of m n \<and> hm_get (dm_tasks m') file = None
    \<and> assigned_node file i m' = None"
  using assms by (auto simp: dl_cancel_def load_of_def assigned_node_def split: if_splits option.splits)

end
