(* ===== verification/BlockEncryption.thy ===== *)
theory BlockEncryption
  imports Chunking Crypto
begin

text \<open>
  Encrypted blocks, \<^verbatim>\<open>crates/vpn/src/storage/encrypt.rs\<close>: every block is encrypted under a nonce
  made of its index and eight random bytes, and decrypted only under the index it was
  encrypted for. AES-256-GCM is third-party code: the record \<open>aead\<close> with the law
  \<open>aead_correct\<close>. Random bytes are an argument; \<open>None\<close> is the panic of \<open>expect\<close>.
\<close>

definition KEY_LEN :: nat where "KEY_LEN = 32"
definition NONCE_LEN :: nat where "NONCE_LEN = 12"
definition TAG_LEN :: nat where "TAG_LEN = 16"
definition NONCE_RANDOM_BYTES :: nat where "NONCE_RANDOM_BYTES = 8"

record EncryptedChunk =
  ec_nonce :: bytes
  ec_data :: bytes

record Encryptor =
  enc_key :: bytes

definition encryptor_new :: "bytes \<Rightarrow> Encryptor" where
  "encryptor_new key = \<lparr>enc_key = key\<rparr>"

definition chunk_encrypt :: "aead \<Rightarrow> bytes \<Rightarrow> Encryptor \<Rightarrow> u32 \<Rightarrow> bytes \<Rightarrow> EncryptedChunk option" where
  "chunk_encrypt A rnd e i plaintext =
     (let non = le_bytes 4 i @ rnd
      in map_option (\<lambda>c. \<lparr>ec_nonce = non, ec_data = c\<rparr>) (aead_encrypt A (enc_key e) non plaintext))"

definition chunk_decrypt :: "aead \<Rightarrow> Encryptor \<Rightarrow> u32 \<Rightarrow> EncryptedChunk \<Rightarrow> (string, bytes) result" where
  "chunk_decrypt A e i c =
     (let stored_index = le_word (take 4 (ec_nonce c)) :: u32
      in if stored_index \<noteq> i
         then Inl (''chunk index mismatch: nonce has '' @ show_nat (unat stored_index) @ '', expected '' @ show_nat (unat i))
         else ok_or ''decryption failed: authentication tag mismatch or wrong key''
                (aead_decrypt A (enc_key e) (ec_nonce c) (ec_data c)))"

section \<open>Encrypting a file\<close>

text \<open>The blocks of a file encrypted in order, with the random bytes of each.\<close>

fun encrypt_from :: "aead \<Rightarrow> Encryptor \<Rightarrow> nat \<Rightarrow> (bytes \<times> bytes) list \<Rightarrow> EncryptedChunk list option" where
  "encrypt_from A e i [] = Some []"
| "encrypt_from A e i ((rnd, p) # ps) =
     (case chunk_encrypt A rnd e (of_nat i) p of None \<Rightarrow> None
      | Some c \<Rightarrow> map_option ((#) c) (encrypt_from A e (Suc i) ps))"

fun decrypt_from :: "aead \<Rightarrow> Encryptor \<Rightarrow> nat \<Rightarrow> EncryptedChunk list \<Rightarrow> (string, bytes list) result" where
  "decrypt_from A e i [] = Inr []"
| "decrypt_from A e i (c # cs) =
     and_then (chunk_decrypt A e (of_nat i) c) (\<lambda>p. and_then (decrypt_from A e (Suc i) cs) (\<lambda>ps. Inr (p # ps)))"

lemma chunk_encrypt_SomeD:
  assumes "aead_correct A" "chunk_encrypt A rnd e i p = Some c"
  shows "take 4 (ec_nonce c) = le_bytes 4 i" "length (ec_data c) = length p + TAG_LEN"
    "chunk_decrypt A e j c = (if j = i then Inr p
       else Inl (''chunk index mismatch: nonce has '' @ show_nat (unat i) @ '', expected '' @ show_nat (unat j)))"
  using assms by (auto simp: chunk_encrypt_def chunk_decrypt_def aead_correct_def le_word_le_bytes TAG_LEN_def Let_def)

lemma decrypt_encrypt_from:
  assumes "aead_correct A" "encrypt_from A e i ps = Some cs"
  shows "decrypt_from A e i cs = Inr (map snd ps)" "length cs = length ps"
    "k < length ps \<Longrightarrow> chunk_encrypt A (fst (ps ! k)) e (of_nat (i + k)) (snd (ps ! k)) = Some (cs ! k)"
proof -
  show "decrypt_from A e i cs = Inr (map snd ps)" "length cs = length ps"
    using assms(2)
    by (induction ps arbitrary: i cs)
       (fastforce simp: chunk_encrypt_SomeD(3) [OF assms(1)] split: option.splits)+
  show "k < length ps \<Longrightarrow> chunk_encrypt A (fst (ps ! k)) e (of_nat (i + k)) (snd (ps ! k)) = Some (cs ! k)"
    using assms(2)
  proof (induction ps arbitrary: i k cs)
    case (Cons p ps)
    then obtain c cs' where c: "chunk_encrypt A (fst p) e (of_nat i) (snd p) = Some c"
        "encrypt_from A e (Suc i) ps = Some cs'" "cs = c # cs'"
      by (cases p) (auto split: option.splits)
    with Cons.IH [of "k - 1" "Suc i" cs'] Cons.prems(1) show ?case
      by (cases k) auto
  qed simp
qed

text \<open>
  C36. A file kept by other nodes: its blocks (fewer than \<open>2^32\<close>), encrypted one after the other with
  any random bytes, decrypt to the file; no two of them share a nonce; and a block offered in
  the place of another one is refused with the error that names both indices, so blocks
  cannot be exchanged.
\<close>

theorem encrypted_file_roundtrip:
  assumes "aead_correct A" "chunk_data sha c dat = (m, bs)" "0 < chunk_size c" "length bs < 2 ^ 32"
    and "length rnds = length bs" "encrypt_from A e 0 (zip rnds bs) = Some cs"
  shows "and_then (decrypt_from A e 0 cs) (reassemble sha m) = Inr dat
    \<and> (\<forall>i < length bs. \<forall>j < length bs. i \<noteq> j \<longrightarrow> ec_nonce (cs ! i) \<noteq> ec_nonce (cs ! j)
      \<and> chunk_decrypt A e (of_nat j) (cs ! i) =
          Inl (''chunk index mismatch: nonce has '' @ show_nat i @ '', expected '' @ show_nat j))"
proof (intro conjI)
  have map: "map snd (zip rnds bs) = bs" using assms(5) by simp
  have "reassemble sha m bs = Inr dat"
    using reassemble_chunk_data [OF assms(3), of sha dat] assms(2) by simp
  then show "and_then (decrypt_from A e 0 cs) (reassemble sha m) = Inr dat"
    using decrypt_encrypt_from(1) [OF assms(1,6)] map by simp
  have enc: "chunk_encrypt A (rnds ! k) e (of_nat k) (bs ! k) = Some (cs ! k)" if "k < length bs" for k
    using decrypt_encrypt_from(3) [OF assms(1,6), of k] that assms(5) by simp
  have u: "unat (of_nat k :: u32) = k" if "k < length bs" for k
    using that assms(4) by (intro unat_of_nat_small) simp
  show "\<forall>i < length bs. \<forall>j < length bs. i \<noteq> j \<longrightarrow> ec_nonce (cs ! i) \<noteq> ec_nonce (cs ! j)
      \<and> chunk_decrypt A e (of_nat j) (cs ! i) =
          Inl (''chunk index mismatch: nonce has '' @ show_nat i @ '', expected '' @ show_nat j)"
  proof (intro allI impI)
    fix i j assume ij: "i < length bs" "j < length bs" "i \<noteq> j"
    then have ne: "(of_nat i :: u32) \<noteq> of_nat j" using u by metis
    then have "le_bytes 4 (of_nat i :: u32) \<noteq> le_bytes 4 (of_nat j :: u32)" by (simp add: le_bytes_inject)
    then have "ec_nonce (cs ! i) \<noteq> ec_nonce (cs ! j)"
      using chunk_encrypt_SomeD(1) [OF assms(1) enc [OF ij(1)]] chunk_encrypt_SomeD(1) [OF assms(1) enc [OF ij(2)]] by metis
    with chunk_encrypt_SomeD(3) [OF assms(1) enc [OF ij(1)], of "of_nat j"] ne u ij
    show "ec_nonce (cs ! i) \<noteq> ec_nonce (cs ! j) \<and> chunk_decrypt A e (of_nat j) (cs ! i) =
          Inl (''chunk index mismatch: nonce has '' @ show_nat i @ '', expected '' @ show_nat j)"
      by auto
  qed
qed

theorem encrypted_file_roundtrip_witness:
  "let (m, bs) = chunk_data (\<lambda>b. b) \<lparr>chunk_size = 1\<rparr> [7, 7]
   in \<exists>cs. encrypt_from demo_aead (encryptor_new []) 0 (zip [replicate 8 0, replicate 8 0] bs) = Some cs
        \<and> and_then (decrypt_from demo_aead (encryptor_new []) 0 cs) (reassemble (\<lambda>b. b) m) = Inr [7, 7]
        \<and> ec_nonce (cs ! 0) \<noteq> ec_nonce (cs ! 1)"
proof -
  let ?c = "chunk_data (\<lambda>b. b) \<lparr>chunk_size = 1\<rparr> [7, 7]" and ?rnd = "[replicate 8 0, replicate 8 (0 :: u8)]"
  have "snd ?c = [[7], [7]]" by (simp add: chunk_data_def num_chunks_def block_def slice_def upt_rec)
  then obtain m where c: "?c = (m, [[7], [7]])" by (metis prod.collapse)
  obtain cs where cs: "encrypt_from demo_aead (encryptor_new []) 0 (zip ?rnd [[7], [7]]) = Some cs"
    by (simp add: chunk_encrypt_def demo_aead_def)
  have len: "0 < chunk_size \<lparr>chunk_size = 1\<rparr>" "length [[7], [7 :: u8]] < 2 ^ 32" "length ?rnd = length [[7], [7 :: u8]]"
    by simp_all
  note r = encrypted_file_roundtrip [OF demo_aead_correct c len cs]
  have "ec_nonce (cs ! 0) \<noteq> ec_nonce (cs ! 1)"
    using r [THEN conjunct2, rule_format, of 0 1] by simp
  with cs r [THEN conjunct1] show ?thesis unfolding c Let_def prod.case by blast
qed

end
