(* ===== verification/Stats.thy ===== *)
theory Stats
  imports Complex_Main Prelude
begin

text \<open>
  Traffic statistics and the token bucket, \<^verbatim>\<open>crates/vpn/src/vpn/stats.rs\<close>. Floating-point numbers
  are a type parameter with the operations \<open>float_ops\<close>; \<open>float_laws\<close> states what IEEE 754
  guarantees of them: rounding is monotone and integers up to \<open>2^53\<close> are exact. Durations
  are in milliseconds.
\<close>

definition DEFAULT_RATE_LIMIT_BYTES_PER_SEC :: nat where "DEFAULT_RATE_LIMIT_BYTES_PER_SEC = 1048576"
definition DEFAULT_BUCKET_CAPACITY :: nat where "DEFAULT_BUCKET_CAPACITY = 10485760"
definition STATS_RATE_WINDOW_SECS :: nat where "STATS_RATE_WINDOW_SECS = 5"

section \<open>Counters\<close>

record 'f TrafficSummary =
  sum_total_tx :: u64
  sum_total_rx :: u64
  tx_rate :: 'f
  rx_rate :: 'f
  sum_tx_peak :: 'f
  sum_rx_peak :: 'f
  sum_connection_count :: u64

definition total_bytes :: "'f TrafficSummary \<Rightarrow> u64" where
  "total_bytes s = sum_total_tx s + sum_total_rx s"

record RateSample =
  timestamp :: instant
  sample_bytes :: u64

record 'f TrafficStats =
  total_tx :: u64
  total_rx :: u64
  tx_peak :: 'f
  rx_peak :: 'f
  tx_samples :: "RateSample list"
  rx_samples :: "RateSample list"
  connection_count :: u64

definition stats_new :: "'f float_ops \<Rightarrow> 'f TrafficStats" where
  "stats_new F = \<lparr>total_tx = 0, total_rx = 0, tx_peak = f_lit F 0 1, rx_peak = f_lit F 0 1,
     tx_samples = [], rx_samples = [], connection_count = 0\<rparr>"

definition cleanup_old_samples :: "instant \<Rightarrow> RateSample list \<Rightarrow> RateSample list" where
  "cleanup_old_samples now samples =
     (let cutoff = now - STATS_RATE_WINDOW_SECS * 1000 in filter (\<lambda>s. cutoff \<le> timestamp s) samples)"

definition calculate_rate :: "'f float_ops \<Rightarrow> RateSample list \<Rightarrow> 'f" where
  "calculate_rate F samples =
     (if length samples < 2 then f_lit F 0 1
      else
        let duration = timestamp (last samples) - timestamp (hd samples)
        in if duration < 100 then f_lit F 0 1
           else f_div F (f_of_nat F (unat (sum_list (map sample_bytes samples)))) (f_lit F duration 1000))"

definition record_tx :: "'f float_ops \<Rightarrow> instant \<Rightarrow> u64 \<Rightarrow> 'f TrafficStats \<Rightarrow> 'f TrafficStats" where
  "record_tx F now n s =
     (let samples = cleanup_old_samples now (tx_samples s @ [\<lparr>timestamp = now, sample_bytes = n\<rparr>]);
          rate = calculate_rate F samples
      in s\<lparr>total_tx := total_tx s + n, tx_samples := samples,
           tx_peak := (if f_less F (tx_peak s) rate then rate else tx_peak s)\<rparr>)"

definition record_rx :: "'f float_ops \<Rightarrow> instant \<Rightarrow> u64 \<Rightarrow> 'f TrafficStats \<Rightarrow> 'f TrafficStats" where
  "record_rx F now n s =
     (let samples = cleanup_old_samples now (rx_samples s @ [\<lparr>timestamp = now, sample_bytes = n\<rparr>]);
          rate = calculate_rate F samples
      in s\<lparr>total_rx := total_rx s + n, rx_samples := samples,
           rx_peak := (if f_less F (rx_peak s) rate then rate else rx_peak s)\<rparr>)"

definition add_connection :: "'f TrafficStats \<Rightarrow> 'f TrafficStats" where
  "add_connection s = s\<lparr>connection_count := connection_count s + 1\<rparr>"

definition remove_connection :: "'f TrafficStats \<Rightarrow> 'f TrafficStats" where
  "remove_connection s = s\<lparr>connection_count := connection_count s - 1\<rparr>"

definition stats_summary :: "'f float_ops \<Rightarrow> 'f TrafficStats \<Rightarrow> 'f TrafficSummary" where
  "stats_summary F s =
     \<lparr>sum_total_tx = total_tx s, sum_total_rx = total_rx s,
      tx_rate = calculate_rate F (tx_samples s), rx_rate = calculate_rate F (rx_samples s),
      sum_tx_peak = tx_peak s, sum_rx_peak = rx_peak s, sum_connection_count = connection_count s\<rparr>"

definition stats_reset :: "'f float_ops \<Rightarrow> 'f TrafficStats \<Rightarrow> 'f TrafficStats" where
  "stats_reset F s = s\<lparr>total_tx := 0, total_rx := 0, tx_samples := [], rx_samples := [],
     tx_peak := f_lit F 0 1, rx_peak := f_lit F 0 1, connection_count := 0\<rparr>"

section \<open>The token bucket\<close>

record 'f VpnRateLimiter =
  rate_per_sec :: u64
  capacity :: u64
  tokens :: 'f
  last_refill :: instant

definition limiter_new :: "'f float_ops \<Rightarrow> instant \<Rightarrow> u64 \<Rightarrow> u64 \<Rightarrow> 'f VpnRateLimiter" where
  "limiter_new F now rate cap =
     \<lparr>rate_per_sec = rate, capacity = cap, tokens = f_of_nat F (unat cap), last_refill = now\<rparr>"

definition limiter_default :: "'f float_ops \<Rightarrow> instant \<Rightarrow> 'f VpnRateLimiter" where
  "limiter_default F now =
     limiter_new F now (of_nat DEFAULT_RATE_LIMIT_BYTES_PER_SEC) (of_nat DEFAULT_BUCKET_CAPACITY)"

definition new_tokens :: "'f float_ops \<Rightarrow> instant \<Rightarrow> 'f VpnRateLimiter \<Rightarrow> 'f" where
  "new_tokens F now l = f_mul F (f_lit F (now - last_refill l) 1000) (f_of_nat F (unat (rate_per_sec l)))"

definition refill :: "'f float_ops \<Rightarrow> instant \<Rightarrow> 'f VpnRateLimiter \<Rightarrow> 'f VpnRateLimiter" where
  "refill F now l =
     l\<lparr>tokens := f_min F (f_add F (tokens l) (new_tokens F now l)) (f_of_nat F (unat (capacity l))),
       last_refill := now\<rparr>"

definition check_tokens :: "'f float_ops \<Rightarrow> instant \<Rightarrow> u64 \<Rightarrow> 'f VpnRateLimiter \<Rightarrow> 'f VpnRateLimiter \<times> bool" where
  "check_tokens F now n l =
     (let l = refill F now l
      in if \<not> f_less F (tokens l) (f_of_nat F (unat n))
         then (l\<lparr>tokens := f_sub F (tokens l) (f_of_nat F (unat n))\<rparr>, True)
         else (l, False))"

definition consume :: "'f float_ops \<Rightarrow> instant \<Rightarrow> u64 \<Rightarrow> 'f VpnRateLimiter \<Rightarrow> 'f VpnRateLimiter \<times> u64" where
  "consume F now n l =
     (let l = refill F now l;
          consumed = f_to_nat F (f_min F (f_of_nat F (unat n)) (tokens l))
      in (l\<lparr>tokens := f_sub F (tokens l) (f_of_nat F consumed)\<rparr>, of_nat consumed))"

definition set_rate :: "u64 \<Rightarrow> 'f VpnRateLimiter \<Rightarrow> 'f VpnRateLimiter" where
  "set_rate r l = l\<lparr>rate_per_sec := r\<rparr>"

definition limiter_reset :: "'f float_ops \<Rightarrow> instant \<Rightarrow> 'f VpnRateLimiter \<Rightarrow> 'f VpnRateLimiter" where
  "limiter_reset F now l = l\<lparr>tokens := f_of_nat F (unat (capacity l)), last_refill := now\<rparr>"

text \<open>
  \<open>wait_for\<close>: the time of the first check, and that of the second after the sleep. The second
  check's answer is ignored. \<open>None\<close> is the panic of \<^verbatim>\<open>Duration::from_secs_f64\<close> on a waiting time that
  is not a duration, as at rate 0.
\<close>

definition wait_for ::
  "'f float_ops \<Rightarrow> instant \<Rightarrow> instant \<Rightarrow> u64 \<Rightarrow> 'f VpnRateLimiter \<Rightarrow> 'f VpnRateLimiter \<times> 'f option" where
  "wait_for F now now' n l =
     (case check_tokens F now n l of
        (l, True) \<Rightarrow> (l, Some (f_lit F 0 1))
      | (l, False) \<Rightarrow>
          let needed = f_sub F (f_of_nat F (unat n)) (tokens l);
              wait_secs = f_max F (f_div F needed (f_of_nat F (unat (rate_per_sec l)))) (f_lit F 0 1)
          in if f_is_duration F wait_secs then (fst (check_tokens F now' n l), Some wait_secs) else (l, None))"

record 'f PeerTrafficTracker =
  pt_stats :: "'f TrafficStats"
  pt_limiter :: "'f VpnRateLimiter"

definition tracker_new :: "'f float_ops \<Rightarrow> instant \<Rightarrow> u64 \<Rightarrow> u64 \<Rightarrow> 'f PeerTrafficTracker" where
  "tracker_new F now rate cap = \<lparr>pt_stats = stats_new F, pt_limiter = limiter_new F now rate cap\<rparr>"

definition tracker_record_tx ::
  "'f float_ops \<Rightarrow> instant \<Rightarrow> u64 \<Rightarrow> 'f PeerTrafficTracker \<Rightarrow> 'f PeerTrafficTracker \<times> bool" where
  "tracker_record_tx F now n p =
     (let (l, ok) = check_tokens F now n (pt_limiter p)
      in (p\<lparr>pt_stats := record_tx F now n (pt_stats p), pt_limiter := l\<rparr>, ok))"

definition tracker_record_rx ::
  "'f float_ops \<Rightarrow> instant \<Rightarrow> u64 \<Rightarrow> 'f PeerTrafficTracker \<Rightarrow> 'f PeerTrafficTracker \<times> bool" where
  "tracker_record_rx F now n p =
     (let (l, ok) = check_tokens F now n (pt_limiter p)
      in (p\<lparr>pt_stats := record_rx F now n (pt_stats p), pt_limiter := l\<rparr>, ok))"

section \<open>The rate limit\<close>

text \<open>
  What IEEE 754 double precision guarantees (\<open>val\<close> is the number a finite \<^verbatim>\<open>f64\<close> stands for):
  comparisons and minima are those of the numbers; integers up to \<open>2^53\<close> are exact and larger
  ones do not become smaller; and a sum or difference never crosses an integer of that range
  by rounding; the conversion to an integer rounds towards zero and saturates.
\<close>

definition float_laws :: "'f float_ops \<Rightarrow> ('f \<Rightarrow> real) \<Rightarrow> bool" where
  "float_laws F val \<longleftrightarrow>
     (\<forall>x y. f_less F x y \<longleftrightarrow> val x < val y)
     \<and> (\<forall>x y. val (f_min F x y) = min (val x) (val y))
     \<and> (\<forall>n. n \<le> 2 ^ 53 \<longrightarrow> val (f_of_nat F n) = of_nat n)
     \<and> (\<forall>n. 2 ^ 53 \<le> n \<longrightarrow> 2 ^ 53 \<le> val (f_of_nat F n))
     \<and> (\<forall>x y k. k \<le> 2 ^ 53 \<longrightarrow> val x + val y \<le> of_nat k \<longrightarrow> val (f_add F x y) \<le> of_nat k)
     \<and> (\<forall>x y k. k \<le> 2 ^ 53 \<longrightarrow> val x - val y \<le> of_nat k \<longrightarrow> val (f_sub F x y) \<le> of_nat k)
     \<and> (\<forall>x. of_nat (f_to_nat F x) \<le> max 0 (val x))"

datatype tok_op = Check u64 | Consume u64

text \<open>The bytes let through by a sequence of requests, and the tokens that were added, each rounded up.\<close>

fun tok_run ::
  "'f float_ops \<Rightarrow> (instant \<times> tok_op) list \<Rightarrow> 'f VpnRateLimiter \<Rightarrow> 'f VpnRateLimiter \<times> nat" where
  "tok_run F [] l = (l, 0)"
| "tok_run F ((now, Check n) # ops) l =
     (let (l', ok) = check_tokens F now n l; (l'', passed) = tok_run F ops l'
      in (l'', (if ok then unat n else 0) + passed))"
| "tok_run F ((now, Consume n) # ops) l =
     (let (l', c) = consume F now n l; (l'', passed) = tok_run F ops l' in (l'', unat c + passed))"

fun tok_added :: "'f float_ops \<Rightarrow> ('f \<Rightarrow> real) \<Rightarrow> (instant \<times> tok_op) list \<Rightarrow> 'f VpnRateLimiter \<Rightarrow> nat" where
  "tok_added F val [] l = 0"
| "tok_added F val ((now, op) # ops) l =
     nat \<lceil>val (new_tokens F now l)\<rceil>
       + tok_added F val ops (case op of Check n \<Rightarrow> fst (check_tokens F now n l) | Consume n \<Rightarrow> fst (consume F now n l))"

lemma refill_bound:
  assumes F: "float_laws F val" and c: "unat (capacity l) < 2 ^ 53" and U: "val (tokens l) \<le> real U"
  shows "val (tokens (refill F now l)) \<le> real (min (U + nat \<lceil>val (new_tokens F now l)\<rceil>) (unat (capacity l)))"
proof -
  let ?n = "val (new_tokens F now l)"
  define k where "k = unat (capacity l)"
  have cap: "val (f_of_nat F k) = real k" using F c unfolding k_def float_laws_def by (meson less_imp_le)
  have min: "val (tokens (refill F now l)) = min (val (f_add F (tokens l) (new_tokens F now l))) (real k)"
    using F cap by (simp add: float_laws_def refill_def k_def)
  have "val (tokens l) + ?n \<le> real (U + nat \<lceil>?n\<rceil>)" using U real_nat_ceiling_ge [of ?n] by simp
  then have "val (f_add F (tokens l) (new_tokens F now l)) \<le> real (U + nat \<lceil>?n\<rceil>)" if "U + nat \<lceil>?n\<rceil> \<le> 2 ^ 53"
    using F that unfolding float_laws_def by blast
  then show ?thesis using c unfolding min k_def [symmetric] by (cases "U + nat \<lceil>?n\<rceil> \<le> 2 ^ 53") auto
qed

lemma refill_capacity [simp]: "capacity (refill F now l) = capacity l"
  by (simp add: refill_def)

lemma take_tokens_bound:
  assumes F: "float_laws F val" and t: "val t \<le> real U" and n: "n \<le> U" "U \<le> 2 ^ 53"
  shows "val (f_sub F t (f_of_nat F n)) \<le> real (U - n)"
proof -
  have "val (f_of_nat F n) = real n" using F n by (simp add: float_laws_def)
  then have "val t - val (f_of_nat F n) \<le> real (U - n)" using t n by simp
  moreover have "U - n \<le> 2 ^ 53" using n by simp
  ultimately show ?thesis using F unfolding float_laws_def by blast
qed

lemma check_tokens_bound:
  assumes F: "float_laws F val" and c: "unat (capacity l) < 2 ^ 53" and U: "val (tokens l) \<le> real U"
    and r: "check_tokens F now n l = (l', ok)"
  shows "\<exists>V. val (tokens l') \<le> real V \<and> (if ok then unat n else 0) + V \<le> U + nat \<lceil>val (new_tokens F now l)\<rceil>"
    and "capacity l' = capacity l"
proof -
  define V where "V = min (U + nat \<lceil>val (new_tokens F now l)\<rceil>) (unat (capacity l))"
  note b = refill_bound [OF F c U, of now, folded V_def]
  have V: "V < 2 ^ 53" "V \<le> U + nat \<lceil>val (new_tokens F now l)\<rceil>" using c by (auto simp: V_def)
  show "capacity l' = capacity l" using r by (auto simp: check_tokens_def Let_def split: if_splits)
  show "\<exists>V. val (tokens l') \<le> real V \<and> (if ok then unat n else 0) + V \<le> U + nat \<lceil>val (new_tokens F now l)\<rceil>"
  proof (cases ok)
    case False
    then have "l' = refill F now l" using r by (auto simp: check_tokens_def Let_def split: if_splits)
    with b V False show ?thesis by (intro exI [of _ V]) simp
  next
    case True
    then have l': "tokens l' = f_sub F (tokens (refill F now l)) (f_of_nat F (unat n))"
      and "\<not> f_less F (tokens (refill F now l)) (f_of_nat F (unat n))"
      using r by (auto simp: check_tokens_def Let_def split: if_splits)
    then have le: "val (f_of_nat F (unat n)) \<le> real V" using F b by (simp add: float_laws_def)
    have "real V < 2 ^ 53" using V(1) by (metis of_nat_less_iff of_nat_numeral of_nat_power)
    then have "\<not> 2 ^ 53 \<le> unat n" using F le unfolding float_laws_def by (meson le_less_trans not_le order_trans)
    then have "val (f_of_nat F (unat n)) = real (unat n)" using F unfolding float_laws_def by (meson nat_le_linear)
    with le have n: "unat n \<le> V" by (metis of_nat_le_iff)
    with take_tokens_bound [OF F b n] V show ?thesis
      unfolding l' by (intro exI [of _ "V - unat n"]) (simp add: True)
  qed
qed

lemma consume_bound:
  assumes F: "float_laws F val" and c: "unat (capacity l) < 2 ^ 53" and U: "val (tokens l) \<le> real U"
    and r: "consume F now n l = (l', k)"
  shows "\<exists>V. val (tokens l') \<le> real V \<and> unat k + V \<le> U + nat \<lceil>val (new_tokens F now l)\<rceil>"
    and "capacity l' = capacity l"
proof -
  define V where "V = min (U + nat \<lceil>val (new_tokens F now l)\<rceil>) (unat (capacity l))"
  note b = refill_bound [OF F c U, of now, folded V_def]
  have V: "V < 2 ^ 53" "V \<le> U + nat \<lceil>val (new_tokens F now l)\<rceil>" using c by (auto simp: V_def)
  define q where "q = f_to_nat F (f_min F (f_of_nat F (unat n)) (tokens (refill F now l)))"
  have l': "tokens l' = f_sub F (tokens (refill F now l)) (f_of_nat F q)" "capacity l' = capacity l" "k = of_nat q"
    using r by (auto simp: consume_def q_def Let_def)
  have "real q \<le> max 0 (min (val (f_of_nat F (unat n))) (val (tokens (refill F now l))))"
    using F unfolding q_def float_laws_def by metis
  then have "real q \<le> real V" using b by linarith
  then have q: "q \<le> V" by simp
  have "unat k = q" unfolding l'(3) using q V by (intro unat_of_nat_small) simp
  with take_tokens_bound [OF F b q] V q show "\<exists>V. val (tokens l') \<le> real V \<and> unat k + V \<le> U + nat \<lceil>val (new_tokens F now l)\<rceil>"
    unfolding l'(1) by (intro exI [of _ "V - q"]) simp
  show "capacity l' = capacity l" by (fact l')
qed

lemma tok_run_bound:
  assumes "float_laws F val" "unat (capacity l) < 2 ^ 53" "val (tokens l) \<le> real U"
  shows "snd (tok_run F ops l) \<le> U + tok_added F val ops l"
  using assms
proof (induction F ops l arbitrary: U rule: tok_run.induct)
  case (2 F now n ops l)
  obtain l' ok where r: "check_tokens F now n l = (l', ok)" by force
  from check_tokens_bound [OF "2.prems" r] obtain V where V: "val (tokens l') \<le> real V"
      "(if ok then unat n else 0) + V \<le> U + nat \<lceil>val (new_tokens F now l)\<rceil>" and c: "capacity l' = capacity l" by blast
  have "snd (tok_run F ops l') \<le> V + tok_added F val ops l'"
    using "2.IH" [OF r [symmetric] refl] "2.prems" V(1) c by simp
  with V(2) show ?case by (simp add: r case_prod_unfold Let_def)
next
  case (3 F now n ops l)
  obtain l' k where r: "consume F now n l = (l', k)" by force
  from consume_bound [OF "3.prems" r] obtain V where V: "val (tokens l') \<le> real V"
      "unat k + V \<le> U + nat \<lceil>val (new_tokens F now l)\<rceil>" and c: "capacity l' = capacity l" by blast
  have "snd (tok_run F ops l') \<le> V + tok_added F val ops l'"
    using "3.IH" [OF r [symmetric] refl] "3.prems" V(1) c by simp
  with V(2) show ?case by (simp add: r case_prod_unfold Let_def)
qed simp


definition real_ops :: "real float_ops" where
  "real_ops = \<lparr>f_add = (+), f_sub = (-), f_mul = (*), f_div = (/), f_max = max, f_min = min, f_less = (<),
     f_of_nat = real, f_lit = (\<lambda>n d. real n / real d), f_to_nat = (\<lambda>x. nat \<lfloor>x\<rfloor>),
     f_is_duration = (\<lambda>x. 0 \<le> x)\<rparr>"

lemma real_ops_laws: "float_laws real_ops (\<lambda>x. x)"
proof -
  have "real (nat \<lfloor>x\<rfloor>) \<le> max 0 x" for x :: real
    by (cases "0 \<le> x") (simp_all add: max_def of_nat_floor)
  then show ?thesis by (simp add: float_laws_def real_ops_def numeral_power_le_of_nat_cancel_iff)
qed


lemma oversized_refused:
  assumes F: "float_laws F val" and c: "unat (capacity l) < 2 ^ 53" "capacity l < n"
  shows "check_tokens F now n l = (refill F now l, False)"
proof -
  define k where "k = unat (capacity l)"
  have kn: "k < unat n" "k < 2 ^ 53" using c by (simp_all add: k_def word_less_nat_alt)
  have "val (f_of_nat F k) = real k" using F kn(2) unfolding float_laws_def by (meson less_imp_le)
  then have "val (tokens (refill F now l)) \<le> real k"
    using F by (simp add: float_laws_def refill_def k_def)
  moreover have "real k < val (f_of_nat F (unat n))"
  proof (cases "unat n \<le> 2 ^ 53")
    case True
    then have "val (f_of_nat F (unat n)) = real (unat n)" using F unfolding float_laws_def by blast
    with kn(1) show ?thesis by (metis of_nat_less_iff)
  next
    case False
    then have "2 ^ 53 \<le> val (f_of_nat F (unat n))" using F unfolding float_laws_def by (meson nat_le_linear)
    moreover have "real k < 2 ^ 53" using kn(2) by (metis of_nat_less_iff of_nat_numeral of_nat_power)
    ultimately show ?thesis by linarith
  qed
  ultimately have "f_less F (tokens (refill F now l)) (f_of_nat F (unat n))"
    using F unfolding float_laws_def by (meson le_less_trans)
  then show ?thesis by (simp add: check_tokens_def Let_def)
qed

text \<open>
  Waiting for more bytes than the bucket holds never succeeds but returns: both checks refuse,
  whenever they are made, no token is taken, and the caller is told only how long it waited. (The
  call panics before the second check if the waiting time is no duration.)
\<close>

theorem wait_for_oversized_returns:
  assumes "float_laws F val" "unat (capacity l) < 2 ^ 53" "capacity l < n"
  shows "snd (check_tokens F now n l) = False \<and> snd (check_tokens F now' n (refill F now l)) = False
    \<and> fst (wait_for F now now' n l) =
        (if snd (wait_for F now now' n l) = None then refill F now l else refill F now' (refill F now l))"
  using oversized_refused [OF assms, of now] oversized_refused [OF assms(1), of "refill F now l" n now'] assms
  by (simp add: wait_for_def Let_def)

theorem wait_for_oversized_returns_witness:
  "fst (wait_for real_ops 0 500 101 (limiter_new real_ops 0 10 100))
     = refill real_ops 500 (refill real_ops 0 (limiter_new real_ops 0 10 100))"
proof -
  have "snd (wait_for real_ops 0 500 101 (limiter_new real_ops 0 10 100)) \<noteq> None"
    by (simp add: wait_for_def limiter_new_def check_tokens_def refill_def new_tokens_def real_ops_def Let_def)
  then show ?thesis
    using wait_for_oversized_returns [OF real_ops_laws, of "limiter_new real_ops 0 10 100" 101 0 500]
    by (auto simp: limiter_new_def)
qed

section \<open>The counters\<close>

fun record_all :: "'f float_ops \<Rightarrow> (instant \<times> u64) list \<Rightarrow> 'f PeerTrafficTracker \<Rightarrow> 'f PeerTrafficTracker" where
  "record_all F [] p = p"
| "record_all F ((now, n) # rs) p = record_all F rs (fst (tracker_record_tx F now n p))"

lemma record_all_snoc: "record_all F (rs @ [(now, n)]) p = fst (tracker_record_tx F now n (record_all F rs p))"
  by (induction rs arbitrary: p) auto

lemma cleanup_twice:
  "now \<le> now' \<Longrightarrow> cleanup_old_samples now' (cleanup_old_samples now ss @ ts) = cleanup_old_samples now' (ss @ ts)"
  by (auto simp: cleanup_old_samples_def Let_def intro!: filter_cong)

text \<open>
  The sent-bytes counter of a peer counts every request, the refused ones too: after any requests
  with a clock that does not run backwards it is their sum modulo \<open>2^64\<close>, whatever the
  limiter answered, and the samples kept are exactly the requests of the last five seconds.
\<close>

theorem tracker_counts_refused_bytes:
  assumes "sorted (map fst rs)" "rs \<noteq> []"
  shows "total_tx (pt_stats (record_all F rs (tracker_new F start rate cap))) = sum_list (map snd rs)
    \<and> tx_samples (pt_stats (record_all F rs (tracker_new F start rate cap))) =
        map (\<lambda>(t, n). \<lparr>timestamp = t, sample_bytes = n\<rparr>) (filter (\<lambda>(t, n). fst (last rs) - 5000 \<le> t) rs)"
  using assms
proof (induction rs rule: rev_induct)
  case (snoc r rs)
  let ?p = "\<lambda>rs. record_all F rs (tracker_new F start rate cap)"
  let ?mk = "\<lambda>(t, n). \<lparr>timestamp = t, sample_bytes = n\<rparr>"
  obtain now n where r: "r = (now, n)" by force
  have step: "total_tx (pt_stats (?p (rs @ [r]))) = total_tx (pt_stats (?p rs)) + n"
      "tx_samples (pt_stats (?p (rs @ [r]))) = cleanup_old_samples now (tx_samples (pt_stats (?p rs)) @ [?mk (now, n)])"
    by (simp_all add: r record_all_snoc tracker_record_tx_def record_tx_def Let_def case_prod_unfold)
  have clean: "cleanup_old_samples t (map ?mk xs) = map ?mk (filter (\<lambda>(u, n). t - 5000 \<le> u) xs)" for t xs
    by (simp add: cleanup_old_samples_def STATS_RATE_WINDOW_SECS_def filter_map comp_def case_prod_unfold)
  show ?case
  proof (cases "rs = []")
    case True
    then show ?thesis using step clean [of now "[(now, n)]"] by (simp add: r tracker_new_def stats_new_def)
  next
    case False
    then have s: "sorted (map fst rs)" "fst (last rs) \<le> now" using snoc.prems by (auto simp: r sorted_append)
    note IH = snoc.IH [OF s(1) False]
    have "tx_samples (pt_stats (?p rs)) = cleanup_old_samples (fst (last rs)) (map ?mk rs)"
      using IH by (simp add: clean)
    then have "tx_samples (pt_stats (?p (rs @ [r]))) = cleanup_old_samples now (map ?mk (rs @ [(now, n)]))"
      using step(2) cleanup_twice [OF s(2)] by simp
    then show ?thesis using IH step(1) unfolding clean by (simp add: r)
  qed
qed simp

theorem tracker_counts_refused_bytes_witness:
  "total_tx (pt_stats (record_all real_ops [(0, 80), (10, 70)] (tracker_new real_ops 0 1 100))) = 150"
  using tracker_counts_refused_bytes [of "[(0, 80), (10, 70)]" real_ops 0 1 100] by simp

text \<open>
  Resetting the statistics while connections are open makes the connection count wrap below zero
  when one of them closes.
\<close>

theorem connection_count_wraps:
  "unat (connection_count (remove_connection (stats_reset F s))) = 2 ^ 64 - 1"
  using unat_max_word [where 'a = 64] by (simp add: remove_connection_def stats_reset_def)

end
