(* ===== verification/SelfHeal.thy ===== *)
theory SelfHeal
  imports Multihop
begin

text \<open>
  Self-healing, \<^verbatim>\<open>crates/vpn/src/vpn/selfheal.rs\<close>: the state of tracked nodes, what happens to the
  routes of theory \<open>Multihop\<close> when a node goes offline or comes back, the messages, one turn
  of the healing loop and the persisted state. \<open>now\<close> is the monotonic clock in milliseconds,
  \<open>unix\<close> the wall clock in seconds; the JSON text is a parameter. An operation returns the calls
  of the registered callbacks, which are numbered.
\<close>

definition DEFAULT_HEAL_INTERVAL_SECS :: nat where "DEFAULT_HEAL_INTERVAL_SECS = 10"
definition DEFAULT_MAX_FAILED_ATTEMPTS :: u32 where "DEFAULT_MAX_FAILED_ATTEMPTS = 5"
definition DEFAULT_RECOVERY_CHECK_SECS :: nat where "DEFAULT_RECOVERY_CHECK_SECS = 30"
definition HEAL_MSG_HEADER_LEN :: nat where "HEAL_MSG_HEADER_LEN = 1 + 32 + 8"
definition PERSIST_INTERVAL_SECS :: nat where "PERSIST_INTERVAL_SECS = 30"

section \<open>Messages\<close>

datatype HealMsgType = HealPing | HealPong | PartitionSync

definition heal_from_u8 :: "u8 \<Rightarrow> HealMsgType option" where
  "heal_from_u8 b =
     (if b = 1 then Some HealPing else if b = 2 then Some HealPong else if b = 3 then Some PartitionSync else None)"

fun heal_to_u8 :: "HealMsgType \<Rightarrow> u8" where
  "heal_to_u8 HealPing = 1"
| "heal_to_u8 HealPong = 2"
| "heal_to_u8 PartitionSync = 3"

record SelfHealMessage =
  hm_msg_type :: HealMsgType
  hm_sender_id :: NodeID
  hm_timestamp :: u64
  hm_payload :: bytes

definition heal_message_new :: "u64 \<Rightarrow> HealMsgType \<Rightarrow> NodeID \<Rightarrow> SelfHealMessage" where
  "heal_message_new unix t sender =
     \<lparr>hm_msg_type = t, hm_sender_id = sender, hm_timestamp = unix, hm_payload = []\<rparr>"

definition heal_with_payload :: "u64 \<Rightarrow> HealMsgType \<Rightarrow> NodeID \<Rightarrow> bytes \<Rightarrow> SelfHealMessage" where
  "heal_with_payload unix t sender p = (heal_message_new unix t sender)\<lparr>hm_payload := p\<rparr>"

definition heal_to_bytes :: "SelfHealMessage \<Rightarrow> bytes" where
  "heal_to_bytes m =
     [heal_to_u8 (hm_msg_type m)] @ hm_sender_id m @ be_bytes 8 (hm_timestamp m) @ hm_payload m"

definition heal_from_bytes :: "bytes \<Rightarrow> SelfHealMessage option" where
  "heal_from_bytes dat =
     (if length dat < HEAL_MSG_HEADER_LEN then None
      else case heal_from_u8 (dat ! 0) of None \<Rightarrow> None
      | Some t \<Rightarrow>
          Some \<lparr>hm_msg_type = t, hm_sender_id = take 32 (drop 1 dat),
                hm_timestamp = be_word (take 8 (drop 33 dat)), hm_payload = drop HEAL_MSG_HEADER_LEN dat\<rparr>)"

section \<open>Tracked nodes\<close>

record SelfHealNodeState =
  sh_node_id :: NodeID
  sh_last_seen :: u64
  failed_attempts :: u32
  is_offline :: bool
  last_recovery_attempt :: u64

definition heal_state_new :: "u64 \<Rightarrow> NodeID \<Rightarrow> SelfHealNodeState" where
  "heal_state_new unix i =
     \<lparr>sh_node_id = i, sh_last_seen = unix, failed_attempts = 0, is_offline = False, last_recovery_attempt = 0\<rparr>"

definition mark_offline :: "SelfHealNodeState \<Rightarrow> SelfHealNodeState" where
  "mark_offline s = s\<lparr>is_offline := True, failed_attempts := 0\<rparr>"

definition mark_online :: "u64 \<Rightarrow> SelfHealNodeState \<Rightarrow> SelfHealNodeState" where
  "mark_online unix s = s\<lparr>is_offline := False, sh_last_seen := unix, failed_attempts := 0\<rparr>"

definition record_failed_attempt :: "u64 \<Rightarrow> SelfHealNodeState \<Rightarrow> SelfHealNodeState" where
  "record_failed_attempt unix s = s\<lparr>failed_attempts := failed_attempts s + 1, last_recovery_attempt := unix\<rparr>"

definition has_exceeded_max_attempts :: "u32 \<Rightarrow> SelfHealNodeState \<Rightarrow> bool" where
  "has_exceeded_max_attempts mx s = (failed_attempts s \<ge> mx)"

datatype HealEvent =
    NodeOfflineEv NodeID u64
  | NodeRecovered NodeID u64
  | PathFailed NodeID NodeID
  | PathRestored NodeID NodeID
  | PartitionDetected "NodeID list"
  | PartitionMerged
  | StateRestored nat

section \<open>The manager\<close>

record SelfHealManager =
  sh_local_id :: NodeID
  sh_states :: "(NodeID, SelfHealNodeState) hmap"
  sh_callbacks :: "nat list"
  sh_multihop :: "MultihopManager option"
  sh_dht :: "DhtManager option"
  persist_path :: "string option"
  sh_running :: bool
  heal_interval :: nat
  max_failed_attempts :: u32
  recovery_check_interval :: nat
  heal_pongs :: "NodeID list"

type_synonym heal_calls = "(nat \<times> HealEvent) list"

definition selfheal_new :: "NodeID \<Rightarrow> SelfHealManager" where
  "selfheal_new i =
     \<lparr>sh_local_id = i, sh_states = [], sh_callbacks = [], sh_multihop = None, sh_dht = None,
      persist_path = None, sh_running = False, heal_interval = DEFAULT_HEAL_INTERVAL_SECS * 1000,
      max_failed_attempts = DEFAULT_MAX_FAILED_ATTEMPTS,
      recovery_check_interval = DEFAULT_RECOVERY_CHECK_SECS * 1000, heal_pongs = []\<rparr>"

definition set_heal_interval :: "nat \<Rightarrow> SelfHealManager \<Rightarrow> SelfHealManager" where
  "set_heal_interval secs m = m\<lparr>heal_interval := secs * 1000\<rparr>"

definition set_max_failed_attempts :: "u32 \<Rightarrow> SelfHealManager \<Rightarrow> SelfHealManager" where
  "set_max_failed_attempts mx m = m\<lparr>max_failed_attempts := mx\<rparr>"

definition sh_set_multihop :: "MultihopManager \<Rightarrow> SelfHealManager \<Rightarrow> SelfHealManager" where
  "sh_set_multihop mh m = m\<lparr>sh_multihop := Some mh\<rparr>"

definition sh_set_dht :: "DhtManager \<Rightarrow> SelfHealManager \<Rightarrow> SelfHealManager" where
  "sh_set_dht d m = m\<lparr>sh_dht := Some d\<rparr>"

definition set_persist_path :: "string \<Rightarrow> SelfHealManager \<Rightarrow> SelfHealManager" where
  "set_persist_path p m = m\<lparr>persist_path := Some p\<rparr>"

definition register_callback :: "nat \<Rightarrow> SelfHealManager \<Rightarrow> SelfHealManager" where
  "register_callback cb m = m\<lparr>sh_callbacks := sh_callbacks m @ [cb]\<rparr>"

definition emit_event :: "SelfHealManager \<Rightarrow> HealEvent \<Rightarrow> heal_calls" where
  "emit_event m e = map (\<lambda>cb. (cb, e)) (sh_callbacks m)"

definition sh_get_state :: "NodeID \<Rightarrow> SelfHealManager \<Rightarrow> SelfHealNodeState option" where
  "sh_get_state i m = hm_get (sh_states m) i"

definition sh_offline_nodes :: "SelfHealManager \<Rightarrow> NodeID list" where
  "sh_offline_nodes m = map sh_node_id (filter is_offline (hm_values (sh_states m)))"

definition sh_online_nodes :: "SelfHealManager \<Rightarrow> NodeID list" where
  "sh_online_nodes m = map sh_node_id (filter (\<lambda>s. \<not> is_offline s) (hm_values (sh_states m)))"

definition sh_add_node :: "u64 \<Rightarrow> NodeID \<Rightarrow> SelfHealManager \<Rightarrow> SelfHealManager" where
  "sh_add_node unix i m =
     (if hm_contains i (sh_states m) then m
      else m\<lparr>sh_states := hm_insert i (heal_state_new unix i) (sh_states m)\<rparr>)"

definition sh_remove_node :: "NodeID \<Rightarrow> SelfHealManager \<Rightarrow> SelfHealManager" where
  "sh_remove_node i m = m\<lparr>sh_states := hm_remove i (sh_states m)\<rparr>"

text \<open>\<^verbatim>\<open>entry(id).or_insert_with(new)\<close> followed by a change of the state.\<close>

definition update_node_state ::
  "u64 \<Rightarrow> NodeID \<Rightarrow> (SelfHealNodeState \<Rightarrow> SelfHealNodeState) \<Rightarrow> SelfHealManager \<Rightarrow> SelfHealManager" where
  "update_node_state unix i f m =
     (let s = (case hm_get (sh_states m) i of None \<Rightarrow> heal_state_new unix i | Some s \<Rightarrow> s)
      in m\<lparr>sh_states := hm_insert i (f s) (sh_states m)\<rparr>)"

text \<open>One route whose next hop went away: the new routes and the events.\<close>

definition reroute ::
  "instant \<Rightarrow> bool \<Rightarrow> NodeID \<Rightarrow> NodeID \<Rightarrow> MultihopManager \<Rightarrow> MultihopManager \<times> HealEvent list" where
  "reroute now has_dht node tgt mh =
     (let mh = mark_invalid now tgt mh
      in case find_alternative now tgt mh of
           (mh', Inr _) \<Rightarrow>
             (mh', PathFailed tgt node #
                (case find_route now tgt mh' of None \<Rightarrow> [] | Some e \<Rightarrow> [PathRestored tgt (mh_next_hop e)]))
         | (mh', Inl _) \<Rightarrow>
             ((if has_dht then fst (discover_route now tgt mh') else mh'), [PathFailed tgt node]))"

fun reroute_all ::
  "instant \<Rightarrow> bool \<Rightarrow> NodeID \<Rightarrow> NodeID list \<Rightarrow> MultihopManager \<Rightarrow> MultihopManager \<times> HealEvent list" where
  "reroute_all now has_dht node [] mh = (mh, [])"
| "reroute_all now has_dht node (t # ts) mh =
     (let (mh1, e1) = reroute now has_dht node t mh; (mh2, e2) = reroute_all now has_dht node ts mh1
      in (mh2, e1 @ e2))"

definition on_node_offline :: "instant \<Rightarrow> u64 \<Rightarrow> NodeID \<Rightarrow> SelfHealManager \<Rightarrow> SelfHealManager \<times> heal_calls" where
  "on_node_offline now unix node m =
     (let m = update_node_state unix node mark_offline m;
          (m, evs) =
            (case sh_multihop m of None \<Rightarrow> (m, [])
             | Some mh \<Rightarrow>
                 let mh = fst (mh_remove_route node mh);
                     (mh, evs) = reroute_all now (sh_dht m \<noteq> None) node (find_routes_by_next_hop node mh) mh
                 in (m\<lparr>sh_multihop := Some mh\<rparr>, evs))
      in (m, concat (map (emit_event m) (evs @ [NodeOfflineEv node unix]))))"

text \<open>Rebuilding the route to a node that came back.\<close>

definition rebuild_route :: "instant \<Rightarrow> NodeID \<Rightarrow> SelfHealManager \<Rightarrow> SelfHealManager" where
  "rebuild_route now node m =
     (case sh_multihop m of None \<Rightarrow> m
      | Some mh \<Rightarrow>
          if find_route now node mh = None \<and> sh_dht m \<noteq> None
          then m\<lparr>sh_multihop := Some (fst (discover_route now node mh))\<rparr> else m)"

definition on_node_recovered :: "instant \<Rightarrow> u64 \<Rightarrow> NodeID \<Rightarrow> SelfHealManager \<Rightarrow> SelfHealManager \<times> heal_calls" where
  "on_node_recovered now unix node m =
     (let m = rebuild_route now node (update_node_state unix node (mark_online unix) m)
      in (m, emit_event m (NodeRecovered node unix)))"

definition handle_path_failure :: "instant \<Rightarrow> NodeID \<Rightarrow> SelfHealManager \<Rightarrow> SelfHealManager \<times> heal_calls" where
  "handle_path_failure now tgt m =
     (case sh_multihop m of None \<Rightarrow> (m, [])
      | Some mh \<Rightarrow>
          let restored = (\<lambda>mh. case find_route now tgt mh of None \<Rightarrow> []
                            | Some e \<Rightarrow> emit_event m (PathRestored tgt (mh_next_hop e)))
          in case find_alternative now tgt (mark_invalid now tgt mh) of
               (mh, Inr _) \<Rightarrow> (m\<lparr>sh_multihop := Some mh\<rparr>, restored mh)
             | (mh, Inl _) \<Rightarrow>
                 if sh_dht m \<noteq> None then
                   (case discover_route now tgt mh of
                      (mh, Inr _) \<Rightarrow> (m\<lparr>sh_multihop := Some mh\<rparr>, restored mh)
                    | (mh, Inl _) \<Rightarrow> (m\<lparr>sh_multihop := Some mh\<rparr>, []))
                 else (m\<lparr>sh_multihop := Some mh\<rparr>, []))"

definition handle_heal_pong :: "NodeID \<Rightarrow> SelfHealManager \<Rightarrow> SelfHealManager" where
  "handle_heal_pong sender m = m\<lparr>heal_pongs := heal_pongs m @ [sender]\<rparr>"

definition process_heal_message ::
  "instant \<Rightarrow> u64 \<Rightarrow> SelfHealMessage \<Rightarrow> SelfHealManager
     \<Rightarrow> SelfHealManager \<times> SelfHealMessage option \<times> heal_calls" where
  "process_heal_message now unix msg m =
     (case hm_msg_type msg of
        HealPing \<Rightarrow>
          (m, Some ((heal_message_new unix HealPong (sh_local_id m))\<lparr>hm_payload := hm_sender_id msg\<rparr>), [])
      | HealPong \<Rightarrow> (handle_heal_pong (hm_sender_id msg) m, None, [])
      | PartitionSync \<Rightarrow>
          let m = sh_add_node unix (hm_sender_id msg) m
          in case sh_get_state (hm_sender_id msg) m of
               None \<Rightarrow> (m, None, [])
             | Some s \<Rightarrow>
                 if is_offline s
                 then let (m, calls) = on_node_recovered now unix (hm_sender_id msg) m in (m, None, calls)
                 else (m, None, []))"

section \<open>The healing loop\<close>

text \<open>Part 1: the nodes that answered.\<close>

fun handle_pongs :: "instant \<Rightarrow> u64 \<Rightarrow> NodeID list \<Rightarrow> SelfHealManager \<Rightarrow> SelfHealManager \<times> heal_calls" where
  "handle_pongs now unix [] m = (m, [])"
| "handle_pongs now unix (sender # ps) m =
     (let (m1, c1) =
            (if (case hm_get (sh_states m) sender of None \<Rightarrow> False | Some s \<Rightarrow> is_offline s)
             then on_node_recovered now unix sender m else (m, []));
          (m2, c2) = handle_pongs now unix ps m1
      in (m2, c1 @ c2))"

text \<open>Part 2: the offline nodes whose turn it is, and the attempt for one of them.\<close>

definition due_nodes :: "u64 \<Rightarrow> SelfHealManager \<Rightarrow> NodeID list" where
  "due_nodes unix m =
     map sh_node_id (filter (\<lambda>s. is_offline s \<and> \<not> has_exceeded_max_attempts (max_failed_attempts m) s
        \<and> (last_recovery_attempt s = 0
           \<or> unix - last_recovery_attempt s \<ge> of_nat (recovery_check_interval m div 1000)))
       (hm_values (sh_states m)))"

definition attempt_recovery :: "instant \<Rightarrow> u64 \<Rightarrow> NodeID \<Rightarrow> SelfHealManager \<Rightarrow> SelfHealManager \<times> heal_calls" where
  "attempt_recovery now unix node m =
     (let m = m\<lparr>sh_states := hm_modify node (record_failed_attempt unix) (sh_states m)\<rparr>
      in case (sh_dht m, sh_multihop m) of
           (Some _, Some mh) \<Rightarrow>
             (case discover_route now node mh of
                (mh, Inr _) \<Rightarrow>
                  let m = m\<lparr>sh_multihop := Some mh, sh_states := hm_modify node (mark_online unix) (sh_states m)\<rparr>
                  in (m, emit_event m (NodeRecovered node unix))
              | (mh, Inl _) \<Rightarrow> (m\<lparr>sh_multihop := Some mh\<rparr>, []))
         | _ \<Rightarrow> (m, []))"

fun attempt_all :: "instant \<Rightarrow> u64 \<Rightarrow> NodeID list \<Rightarrow> SelfHealManager \<Rightarrow> SelfHealManager \<times> heal_calls" where
  "attempt_all now unix [] m = (m, [])"
| "attempt_all now unix (n # ns) m =
     (let (m1, c1) = attempt_recovery now unix n m; (m2, c2) = attempt_all now unix ns m1 in (m2, c1 @ c2))"

record PersistedHealState =
  ph_states :: "(string, SelfHealNodeState) hmap"
  last_saved :: u64

definition persisted :: "hex_codec \<Rightarrow> u64 \<Rightarrow> SelfHealManager \<Rightarrow> PersistedHealState" where
  "persisted H unix m =
     \<lparr>ph_states = fold (\<lambda>(k, v). hm_insert (to_hex H k) v) (sh_states m) [], last_saved = unix\<rparr>"

text \<open>
  One turn: the manager, the times of the last recovery check and of the last save, and what it
  tries to save (whether the file can be written changes nothing else).
\<close>

definition heal_tick ::
  "hex_codec \<Rightarrow> instant \<Rightarrow> u64 \<Rightarrow> SelfHealManager \<times> instant \<times> instant
     \<Rightarrow> (SelfHealManager \<times> instant \<times> instant) \<times> heal_calls \<times> (string \<times> PersistedHealState) option" where
  "heal_tick H now unix st =
     (case st of (m, last_check, last_persist) \<Rightarrow>
        if \<not> sh_running m then (st, [], None)
        else
          let (m, c1) = handle_pongs now unix (heal_pongs m) (m\<lparr>heal_pongs := []\<rparr>);
              check = now - last_check \<ge> recovery_check_interval m;
              (m, c2) = (if check then attempt_all now unix (due_nodes unix m) m else (m, []));
              save = now - last_persist \<ge> PERSIST_INTERVAL_SECS * 1000
          in ((m, if check then now else last_check, if save then now else last_persist), c1 @ c2,
              if save then map_option (\<lambda>p. (p, persisted H unix m)) (persist_path m) else None))"

definition sh_start :: "SelfHealManager \<Rightarrow> SelfHealManager" where
  "sh_start m = m\<lparr>sh_running := True\<rparr>"

definition sh_stop :: "SelfHealManager \<Rightarrow> SelfHealManager" where
  "sh_stop m = m\<lparr>sh_running := False\<rparr>"

section \<open>Persistence\<close>

record heal_json =
  hj_to_string :: "PersistedHealState \<Rightarrow> (string, string) result"
  hj_from_str :: "string \<Rightarrow> (string, PersistedHealState) result"

text \<open>The text to be written; an I/O error of the write is \<open>io\<close>.\<close>

definition save_state ::
  "heal_json \<Rightarrow> hex_codec \<Rightarrow> u64 \<Rightarrow> string option \<Rightarrow> SelfHealManager \<Rightarrow> (string, string) result" where
  "save_state J H unix io m =
     (case hj_to_string J (persisted H unix m) of
        Inl e \<Rightarrow> Inl (''serialize error: '' @ e)
      | Inr json \<Rightarrow> (case io of Some e \<Rightarrow> Inl (''write error: '' @ e) | None \<Rightarrow> Inr json))"

text \<open>\<open>file\<close> is the file's contents, or the error of reading it; \<open>None\<close> if it does not exist.\<close>

definition load_state ::
  "heal_json \<Rightarrow> string \<Rightarrow> (string, string) result option \<Rightarrow> SelfHealManager
     \<Rightarrow> SelfHealManager \<times> (string, nat) result \<times> heal_calls" where
  "load_state J path file m =
     (case file of
        None \<Rightarrow> (m, Inl (''file not found: '' @ path), [])
      | Some (Inl e) \<Rightarrow> (m, Inl (''read error: '' @ e), [])
      | Some (Inr json) \<Rightarrow>
          (case hj_from_str J json of
             Inl e \<Rightarrow> (m, Inl (''deserialize error: '' @ e), [])
           | Inr p \<Rightarrow>
               let cnt = length (ph_states p);
                   m = m\<lparr>sh_states := fold (\<lambda>(_, s). hm_insert (sh_node_id s) s) (ph_states p) (sh_states m)\<rparr>
               in (m, Inr cnt, emit_event m (StateRestored cnt))))"

definition try_restore_state ::
  "heal_json \<Rightarrow> (string, string) result option \<Rightarrow> SelfHealManager \<Rightarrow> SelfHealManager \<times> (string, nat) result \<times> heal_calls" where
  "try_restore_state J file m =
     (case persist_path m of
        None \<Rightarrow> (m, Inr 0, [])
      | Some path \<Rightarrow> if file = None then (m, Inr 0, []) else load_state J path file m)"

section \<open>Callbacks of the heartbeat\<close>

definition cb_node_online :: "instant \<Rightarrow> u64 \<Rightarrow> NodeID \<Rightarrow> SelfHealManager \<Rightarrow> SelfHealManager \<times> heal_calls" where
  "cb_node_online now unix node m =
     (let was_offline = (case sh_get_state node m of None \<Rightarrow> False | Some s \<Rightarrow> is_offline s);
          m = sh_add_node unix node m
      in if was_offline then on_node_recovered now unix node m else (m, []))"

definition cb_heartbeat_received :: "instant \<Rightarrow> u64 \<Rightarrow> NodeID \<Rightarrow> SelfHealManager \<Rightarrow> SelfHealManager \<times> heal_calls" where
  "cb_heartbeat_received now unix node m =
     (let m = sh_add_node unix node m
      in case sh_get_state node m of
           None \<Rightarrow> (m, [])
         | Some s \<Rightarrow>
             if is_offline s
             then on_node_recovered now unix node (m\<lparr>sh_states := hm_insert node (mark_online unix s) (sh_states m)\<rparr>)
             else (m\<lparr>sh_states := hm_insert node (s\<lparr>sh_last_seen := unix\<rparr>) (sh_states m)\<rparr>, []))"

section \<open>Messages survive the wire\<close>

lemma heal_from_to [simp]: "heal_from_u8 (heal_to_u8 t) = Some t"
  by (cases t) (simp_all add: heal_from_u8_def)

lemma heal_from_to_bytes: "node_ok (hm_sender_id m) \<Longrightarrow> heal_from_bytes (heal_to_bytes m) = Some m"
  by (simp add: heal_from_bytes_def heal_to_bytes_def HEAL_MSG_HEADER_LEN_def node_ok_def be_word_be_bytes)

section \<open>A node goes offline\<close>

text \<open>What \<open>reroute\<close> leaves of the other routes, and of the route it was called for.\<close>

lemma mh_dht_frame [simp]:
  "mh_dht (mark_invalid now tgt m) = mh_dht m" "mh_dht (fst (find_alternative now tgt m)) = mh_dht m"
  "mh_dht (fst (discover_route now tgt m)) = mh_dht m" "mh_dht (fst (mh_remove_route tgt m)) = mh_dht m"
  by (simp_all add: mark_invalid_def find_alternative_def discover_route_def mh_remove_route_def Let_def split: option.splits)

definition not_offered :: "NodeID \<Rightarrow> MultihopManager \<Rightarrow> bool" where
  "not_offered node mh \<longleftrightarrow> (\<forall>d tgt. mh_dht mh = Some d \<longrightarrow> node \<notin> fst ` set (find_node tgt d))"

lemma set_sort_candidates [simp]: "set (sort_candidates tgt cs) = set cs"
  by (simp add: sort_candidates_def)

lemma discovered_next_hop: "mh_next_hop (discovered now tgt cs) = fst (hd cs)" "mh_target (discovered now tgt cs) = tgt"
  by (simp_all add: discovered_def multi_hop_entry_new_def Let_def)

lemma discover_known:
  assumes "hm_get (mh_routes mh) tgt = Some e" "not_offered node mh" "route_is_expired now e"
  shows "k \<noteq> tgt \<Longrightarrow> hm_get (mh_routes (fst (discover_route now tgt mh))) k = hm_get (mh_routes mh) k"
    and "\<exists>e'. hm_get (mh_routes (fst (discover_route now tgt mh))) tgt = Some e'
           \<and> (mh_next_hop e' \<noteq> node \<or> route_is_expired now e')"
proof -
  show "k \<noteq> tgt \<Longrightarrow> hm_get (mh_routes (fst (discover_route now tgt mh))) k = hm_get (mh_routes mh) k"
    using assms(1)
    by (auto simp: discover_route_def insert_or_evict_def hm_contains_def discovered_next_hop Let_def split: option.splits)
  have "fst (hd (sort_candidates tgt (find_node tgt d))) \<noteq> node"
    if "mh_dht mh = Some d" "find_node tgt d \<noteq> []" for d
  proof -
    have "sort_candidates tgt (find_node tgt d) \<noteq> []"
      using that(2) set_sort_candidates [of tgt "find_node tgt d"] by (metis set_empty)
    then have "hd (sort_candidates tgt (find_node tgt d)) \<in> set (find_node tgt d)"
      using set_sort_candidates [of tgt "find_node tgt d"] by (metis hd_in_set)
    with assms(2) that(1) show ?thesis unfolding not_offered_def by (metis imageI)
  qed
  with assms(1,3) show "\<exists>e'. hm_get (mh_routes (fst (discover_route now tgt mh))) tgt = Some e'
           \<and> (mh_next_hop e' \<noteq> node \<or> route_is_expired now e')"
    by (auto simp: discover_route_def insert_or_evict_def hm_contains_def discovered_next_hop Let_def split: option.splits)
qed

lemma reroute_spec:
  assumes "hm_get (mh_routes mh) tgt = Some e" "mh_next_hop e = node" "has_dht \<longrightarrow> not_offered node mh"
    and "mh' = fst (reroute now has_dht node tgt mh)"
  shows "k \<noteq> tgt \<Longrightarrow> hm_get (mh_routes mh') k = hm_get (mh_routes mh) k"
    and "\<exists>e'. hm_get (mh_routes mh') tgt = Some e' \<and> (mh_next_hop e' \<noteq> node \<or> route_is_expired now e')"
    and "mh_dht mh' = mh_dht mh"
proof -
  let ?mi = "mark_invalid now tgt mh" and ?e = "e\<lparr>expires_at := now - 1000\<rparr>"
  have mi: "hm_get (mh_routes ?mi) k = (if k = tgt then Some ?e else hm_get (mh_routes mh) k)" for k
    using assms(1) by (simp add: mark_invalid_def hm_get_modify)
  obtain ma r where a: "find_alternative now tgt ?mi = (ma, r)" by force
  have dht: "mh_dht ma = mh_dht mh" using mh_dht_frame(2) [of now tgt ?mi] a by simp
  show "mh_dht mh' = mh_dht mh"
    using assms(4) a dht by (auto simp: reroute_def Let_def split: sum.splits)
  show "\<exists>e'. hm_get (mh_routes mh') tgt = Some e' \<and> (mh_next_hop e' \<noteq> node \<or> route_is_expired now e')"
    and "k \<noteq> tgt \<Longrightarrow> hm_get (mh_routes mh') k = hm_get (mh_routes mh) k"
  proof -
    have "(\<exists>e'. hm_get (mh_routes mh') tgt = Some e' \<and> (mh_next_hop e' \<noteq> node \<or> route_is_expired now e'))
      \<and> (k \<noteq> tgt \<longrightarrow> hm_get (mh_routes mh') k = hm_get (mh_routes mh) k)"
    proof (cases r)
      case (Inr u)
      then have m: "mh' = ma" using assms(4) a by (simp add: reroute_def Let_def)
      have sp: "find (\<lambda>(n, _). n \<noteq> mh_next_hop ?e \<and> n \<noteq> mh_local_id ?mi) (candidates ?e) = Some (n, x) \<Longrightarrow> n \<noteq> node" for n x
        using assms(2) by (auto simp: find_Some_iff)
      show ?thesis
        using a Inr mi [of tgt] mi [of k] sp
        unfolding m by (auto simp: find_alternative_def split: option.splits prod.splits)
    next
      case (Inl err)
      then have ma: "ma = ?mi" using a by (auto simp: find_alternative_def split: option.splits prod.splits)
      have m: "mh' = (if has_dht then fst (discover_route now tgt ?mi) else ?mi)"
        using assms(4) a Inl ma by (simp add: reroute_def Let_def)
      have ex: "route_is_expired now ?e" by (simp add: route_is_expired_def)
      show ?thesis
      proof (cases has_dht)
        case True
        then have "not_offered node ?mi" using assms(3) by (simp add: not_offered_def)
        from discover_known [OF mi [of tgt, simplified] this ex] m True mi [of k] show ?thesis by auto
      next
        case False
        with m mi [of k] mi [of tgt] ex show ?thesis by auto
      qed
    qed
    then show "\<exists>e'. hm_get (mh_routes mh') tgt = Some e' \<and> (mh_next_hop e' \<noteq> node \<or> route_is_expired now e')"
      and "k \<noteq> tgt \<Longrightarrow> hm_get (mh_routes mh') k = hm_get (mh_routes mh) k" by blast+
  qed
qed

text \<open>Rerouting all the routes through a node, in any order.\<close>

lemma reroute_all_spec:
  assumes "distinct ts" "\<forall>t \<in> set ts. \<exists>e. hm_get (mh_routes mh) t = Some e \<and> mh_next_hop e = node"
    and "has_dht \<longrightarrow> not_offered node mh" "mh' = fst (reroute_all now has_dht node ts mh)"
  shows "(\<forall>k. k \<notin> set ts \<longrightarrow> hm_get (mh_routes mh') k = hm_get (mh_routes mh) k)
    \<and> (\<forall>t \<in> set ts. \<exists>e'. hm_get (mh_routes mh') t = Some e' \<and> (mh_next_hop e' \<noteq> node \<or> route_is_expired now e'))"
  using assms
proof (induction ts arbitrary: mh mh')
  case (Cons t ts)
  let ?m1 = "fst (reroute now has_dht node t mh)"
  obtain e where e: "hm_get (mh_routes mh) t = Some e" "mh_next_hop e = node" using Cons.prems(2) by auto
  note one = reroute_spec [OF e Cons.prems(3) refl]
  have "\<forall>t' \<in> set ts. \<exists>e. hm_get (mh_routes ?m1) t' = Some e \<and> mh_next_hop e = node"
  proof
    fix t' assume t': "t' \<in> set ts"
    then have "t' \<noteq> t" using Cons.prems(1) by auto
    with t' Cons.prems(2) one(1) [where now = now]
    show "\<exists>e. hm_get (mh_routes ?m1) t' = Some e \<and> mh_next_hop e = node" by simp
  qed
  moreover have "has_dht \<longrightarrow> not_offered node ?m1"
    using Cons.prems(3) unfolding not_offered_def one(3) [of now] .
  ultimately have IH: "(\<forall>k. k \<notin> set ts \<longrightarrow> hm_get (mh_routes mh') k = hm_get (mh_routes ?m1) k)
    \<and> (\<forall>t \<in> set ts. \<exists>e'. hm_get (mh_routes mh') t = Some e' \<and> (mh_next_hop e' \<noteq> node \<or> route_is_expired now e'))"
    using Cons.prems(1,4) by (intro Cons.IH) (simp_all add: case_prod_unfold Let_def)
  moreover have "t \<notin> set ts" using Cons.prems(1) by simp
  ultimately show ?case using one(1) [where now = now] one(2) [where now = now] by auto
qed simp

text \<open>
  C23. When a node goes offline, it is recorded as offline, no route that can still be looked up leads
  over it or to it, every route that did not lead over it is as before, and every registered
  callback is told last that the node is offline; provided the DHT no longer offers the node.
\<close>

theorem offline_node_bypassed:
  assumes "sh_multihop m = Some mh" "mh_reachable mh" "sh_dht m \<noteq> None \<longrightarrow> not_offered node mh"
    and "on_node_offline now unix node m = (m', calls)"
  shows "\<exists>mh'. sh_multihop m' = Some mh'
    \<and> (\<forall>tgt e. find_route now tgt mh' = Some e \<longrightarrow> mh_next_hop e \<noteq> node \<and> tgt \<noteq> node)
    \<and> (\<forall>tgt e. tgt \<noteq> node \<longrightarrow> find_route now tgt mh = Some e \<longrightarrow> mh_next_hop e \<noteq> node \<longrightarrow> find_route now tgt mh' = Some e)
    \<and> map_option is_offline (sh_get_state node m') = Some True
    \<and> (\<exists>before. calls = before @ map (\<lambda>cb. (cb, NodeOfflineEv node unix)) (sh_callbacks m))"
proof -
  let ?mh = "fst (mh_remove_route node mh)"
  let ?ts = "find_routes_by_next_hop node ?mh"
  define r where "r = reroute_all now (sh_dht m \<noteq> None) node ?ts ?mh"
  have ok: "hm_ok (mh_routes ?mh)"
    using mh_reachable_inv [OF assms(2)] by (simp add: mh_inv_def mh_remove_route_def)
  have get: "hm_get (mh_routes ?mh) k = (if k = node then None else hm_get (mh_routes mh) k)" for k
    by (simp add: mh_remove_route_def)
  have ts: "t \<in> set ?ts \<longleftrightarrow> (\<exists>e. hm_get (mh_routes ?mh) t = Some e \<and> mh_next_hop e = node)" for t
    using ok by (auto simp: find_routes_by_next_hop_def hm_mem_get image_iff)
  have "distinct ?ts" using ok by (simp add: find_routes_by_next_hop_def hm_ok_def distinct_map_filter)
  moreover have "\<forall>t \<in> set ?ts. \<exists>e. hm_get (mh_routes ?mh) t = Some e \<and> mh_next_hop e = node" using ts by blast
  moreover have "sh_dht m \<noteq> None \<longrightarrow> not_offered node ?mh" using assms(3) by (simp add: not_offered_def)
  ultimately have R: "(\<forall>k. k \<notin> set ?ts \<longrightarrow> hm_get (mh_routes (fst r)) k = hm_get (mh_routes ?mh) k)
    \<and> (\<forall>t \<in> set ?ts. \<exists>e'. hm_get (mh_routes (fst r)) t = Some e' \<and> (mh_next_hop e' \<noteq> node \<or> route_is_expired now e'))"
    unfolding r_def by (rule reroute_all_spec [OF _ _ _ refl])
  have node: "hm_get (mh_routes (fst r)) node = None" using R ts [of node] get [of node] by auto
  have over: "mh_next_hop e \<noteq> node" if "find_route now tgt (fst r) = Some e" for tgt e
  proof (cases "tgt \<in> set ?ts")
    case True
    with R that show ?thesis by (fastforce simp: find_route_def split: option.splits if_splits)
  next
    case False
    then have "hm_get (mh_routes ?mh) tgt = Some e"
      using R that by (auto simp: find_route_def split: option.splits if_splits)
    with False ts show ?thesis by blast
  qed
  have keep: "find_route now tgt (fst r) = Some e"
    if "tgt \<noteq> node" "find_route now tgt mh = Some e" "mh_next_hop e \<noteq> node" for tgt e
  proof -
    have "hm_get (mh_routes ?mh) tgt = Some e" using that get by (auto simp: find_route_def split: option.splits if_splits)
    moreover from this have "tgt \<notin> set ?ts" using that(3) ts by auto
    ultimately show ?thesis using R that(2) by (auto simp: find_route_def split: option.splits if_splits)
  qed
  have m': "m' = (update_node_state unix node mark_offline m)\<lparr>sh_multihop := Some (fst r)\<rparr>"
    and calls: "calls = concat (map (emit_event m') (snd r)) @ emit_event m' (NodeOfflineEv node unix)"
    using assms(1,4) by (auto simp: on_node_offline_def update_node_state_def r_def Let_def case_prod_unfold)
  have off: "map_option is_offline (sh_get_state node m') = Some True"
    by (simp add: m' sh_get_state_def update_node_state_def mark_offline_def Let_def)
  have "emit_event m' (NodeOfflineEv node unix) = map (\<lambda>cb. (cb, NodeOfflineEv node unix)) (sh_callbacks m)"
    by (simp add: emit_event_def m' update_node_state_def Let_def)
  then have last: "\<exists>before. calls = before @ map (\<lambda>cb. (cb, NodeOfflineEv node unix)) (sh_callbacks m)"
    using calls by blast
  have "sh_multihop m' = Some (fst r)" by (simp add: m')
  moreover have "tgt \<noteq> node" if "find_route now tgt (fst r) = Some e" for tgt e
    using that node by (auto simp: find_route_def)
  ultimately show ?thesis using over keep off last by blast
qed

definition demo_heal :: SelfHealManager where
  "demo_heal = register_callback 7 (sh_set_multihop demo_route (selfheal_new [1]))"

lemma demo_route_reachable: "mh_reachable demo_route"
  unfolding demo_route_def by (intro mh_insert mh_init)

lemma demo_route_get:
  "hm_get (mh_routes demo_route) k = (if k = [9] then Some (multi_hop_entry_new 0 [9] [9] 1 Lan [([2], []), ([3], []), ([4], [])]) else None)"
  by (simp add: demo_route_def insert_route_def insert_or_evict_def multihop_new_def Let_def)
     (simp add: multi_hop_entry_new_def)

theorem offline_node_bypassed_witness:
  "\<exists>mh'. sh_multihop (fst (on_node_offline 5 6 [9] demo_heal)) = Some mh' \<and> find_route 5 [9] mh' = None"
proof -
  obtain m' calls where r: "on_node_offline 5 6 [9] demo_heal = (m', calls)" by force
  have h: "sh_multihop demo_heal = Some demo_route" "sh_dht demo_heal \<noteq> None \<longrightarrow> not_offered [9] demo_route"
    by (simp_all add: demo_heal_def register_callback_def sh_set_multihop_def selfheal_new_def)
  from offline_node_bypassed [OF h(1) demo_route_reachable h(2) r] obtain mh' where
    "sh_multihop m' = Some mh'" "\<forall>tgt e. find_route 5 tgt mh' = Some e \<longrightarrow> mh_next_hop e \<noteq> [9] \<and> tgt \<noteq> [9]" by blast
  with r show ?thesis by (metis fst_conv not_None_eq)
qed

text \<open>
  As long as the DHT still lists the node as the one nearest to the target, the route is
  rediscovered over the very node that went offline, and counts as valid again.
\<close>

theorem offline_node_rediscovered:
  assumes "hm_get (mh_routes mh) tgt = Some e" "candidates e = []" "tgt \<noteq> mh_local_id mh"
    and "mh_dht mh = Some d" "find_node tgt d = (node, a) # cs" "cs = []"
  shows "map_option mh_next_hop (find_route now tgt (fst (reroute now True node tgt mh))) = Some node"
proof -
  have mi: "hm_get (mh_routes (mark_invalid now tgt mh)) tgt = Some (e\<lparr>expires_at := now - 1000\<rparr>)"
    using assms(1) by (simp add: mark_invalid_def hm_get_modify)
  have alt: "find_alternative now tgt (mark_invalid now tgt mh) = (mark_invalid now tgt mh, Inl (NoRoute tgt))"
    using mi assms(2) by (simp add: find_alternative_def)
  let ?e = "discovered now tgt (sort_candidates tgt [(node, a)])"
  have "mh_local_id (mark_invalid now tgt mh) = mh_local_id mh" by (simp add: mark_invalid_def)
  then have "fst (discover_route now tgt (mark_invalid now tgt mh)) = insert_or_evict ?e (mark_invalid now tgt mh)"
    using assms(3-6) by (simp add: discover_route_def Let_def)
  moreover have "mh_target ?e = tgt" "mh_next_hop ?e = node" "now < expires_at ?e"
    by (simp_all add: discovered_def multi_hop_entry_new_def sort_candidates_def route_expiry_def
        DEFAULT_ROUTE_TIMEOUT_SECS_def Let_def)
  moreover have "fst (reroute now True node tgt mh) = fst (discover_route now tgt (mark_invalid now tgt mh))"
    by (simp add: reroute_def alt Let_def)
  ultimately show ?thesis using find_route_insert [of now ?e "mark_invalid now tgt mh"] by simp
qed

definition demo_dht_routes :: MultihopManager where
  "demo_dht_routes = insert_route (multi_hop_entry_new 0 (replicate 32 7) (replicate 32 2) 2 Relay [])
     (mh_set_dht (fst (insert_node 0 (replicate 32 2) [104] (dht_new (replicate 32 0)))) (multihop_new 0 (replicate 32 0)))"

lemma demo_dht_routes:
  "hm_get (mh_routes demo_dht_routes) (replicate 32 7) = Some (multi_hop_entry_new 0 (replicate 32 7) (replicate 32 2) 2 Relay [])"
  "mh_dht demo_dht_routes = Some (fst (insert_node 0 (replicate 32 2) [104] (dht_new (replicate 32 0))))"
  "mh_local_id demo_dht_routes = replicate 32 0"
  by (simp_all add: demo_dht_routes_def insert_route_def insert_or_evict_def mh_set_dht_def multihop_new_def
      hm_contains_def MAX_ROUTE_ENTRIES_def del: replicate.simps)
     (simp add: multi_hop_entry_new_def)

theorem offline_node_rediscovered_witness:
  "map_option mh_next_hop (find_route 5 (replicate 32 7)
     (fst (reroute 5 True (replicate 32 2) (replicate 32 7) demo_dht_routes))) = Some (replicate 32 2)"
proof -
  have "candidates (multi_hop_entry_new 0 (replicate 32 7) (replicate 32 2) 2 Relay []) = []"
    by (simp add: multi_hop_entry_new_def)
  moreover have "(replicate 32 7 :: NodeID) \<noteq> mh_local_id demo_dht_routes" by (simp add: demo_dht_routes(3))
  ultimately show ?thesis
    using offline_node_rediscovered [OF demo_dht_routes(1) _ _ demo_dht_routes(2) demo_dht_find refl] by blast
qed

section \<open>Recovery\<close>

text \<open>
  A node is declared recovered although nobody heard from it: if the DHT knows any node at all,
  the next recovery check finds a route towards the offline node, marks it online and tells
  every callback so. No message is sent and none has arrived.
\<close>

theorem recovery_without_contact:
  assumes "sh_running m" "heal_pongs m = []" "sh_states m = [(node, s)]" "sh_node_id s = node"
    and "is_offline s" "failed_attempts s < max_failed_attempts m" "last_recovery_attempt s = 0"
    and "sh_multihop m = Some mh" "sh_dht m \<noteq> None" "mh_dht mh = Some d" "find_node node d \<noteq> []"
    and "node \<noteq> mh_local_id mh" "now - last_check \<ge> recovery_check_interval m"
  shows "\<exists>m' rest calls saved. heal_tick H now unix (m, last_check, last_persist) = ((m', rest), calls, saved)
    \<and> map_option is_offline (sh_get_state node m') = Some False
    \<and> calls = map (\<lambda>cb. (cb, NodeRecovered node unix)) (sh_callbacks m)"
proof -
  have due: "due_nodes unix m = [node]"
    using assms(3-7) by (simp add: due_nodes_def hm_values_def has_exceeded_max_attempts_def)
  have disc: "snd (discover_route now node mh) = Inr ()"
    using assms(10-12) by (simp add: discover_route_def Let_def)
  let ?m = "m\<lparr>heal_pongs := []\<rparr>"
  have same: "?m = m" using assms(2) by simp
  obtain dd where dd: "sh_dht m = Some dd" using assms(9) by blast
  have "attempt_recovery now unix node m =
      (m\<lparr>sh_states := hm_modify node (mark_online unix) (hm_modify node (record_failed_attempt unix) (sh_states m)),
         sh_multihop := Some (fst (discover_route now node mh))\<rparr>,
       map (\<lambda>cb. (cb, NodeRecovered node unix)) (sh_callbacks m))"
    using disc dd assms(8)
    by (cases "discover_route now node mh") (simp add: attempt_recovery_def emit_event_def Let_def)
  then show ?thesis
    using assms(1,2,3,13) due
    by (simp add: heal_tick_def same sh_get_state_def hm_get_modify mark_online_def Let_def)
qed

theorem recovery_without_contact_witness:
  "let m = (sh_set_dht (dht_new (replicate 32 0)) (sh_set_multihop demo_dht_routes (selfheal_new (replicate 32 0))))
         \<lparr>sh_running := True, sh_states := [(replicate 32 7, mark_offline (heal_state_new 0 (replicate 32 7)))]\<rparr>
   in map_option is_offline (sh_get_state (replicate 32 7) (fst (fst (heal_tick plain_hex 30000 9 (m, 0, 0))))) = Some False"
proof -
  let ?m = "(sh_set_dht (dht_new (replicate 32 0)) (sh_set_multihop demo_dht_routes (selfheal_new (replicate 32 0))))
         \<lparr>sh_running := True, sh_states := [(replicate 32 7, mark_offline (heal_state_new 0 (replicate 32 7)))]\<rparr>"
  let ?s = "mark_offline (heal_state_new 0 (replicate 32 7))"
  have ne: "find_node (replicate 32 7) (fst (insert_node 0 (replicate 32 2) [104] (dht_new (replicate 32 0)))) \<noteq> []"
    by (simp add: demo_dht_find)
  have "\<exists>m' rest calls saved. heal_tick plain_hex 30000 9 (?m, 0, 0) = ((m', rest), calls, saved)
    \<and> map_option is_offline (sh_get_state (replicate 32 7) m') = Some False
    \<and> calls = map (\<lambda>cb. (cb, NodeRecovered (replicate 32 7) 9)) (sh_callbacks ?m)"
    by (rule recovery_without_contact [where s = ?s and mh = demo_dht_routes, OF _ _ _ _ _ _ _ _ _ demo_dht_routes(2) ne])
       (simp_all add: demo_dht_routes(3) sh_set_dht_def sh_set_multihop_def selfheal_new_def mark_offline_def
          heal_state_new_def DEFAULT_MAX_FAILED_ATTEMPTS_def DEFAULT_RECOVERY_CHECK_SECS_def del: replicate.simps)
  then show ?thesis by (auto simp: Let_def)
qed

lemma on_node_recovered_get:
  "hm_get (sh_states (fst (on_node_recovered now unix p m))) i =
     (if i = p then Some (mark_online unix (case hm_get (sh_states m) p of None \<Rightarrow> heal_state_new unix p | Some s \<Rightarrow> s))
      else hm_get (sh_states m) i)"
  by (simp add: on_node_recovered_def rebuild_route_def update_node_state_def Let_def split: option.splits)

lemma mark_online_online [simp]: "\<not> is_offline (mark_online unix s)"
  by (simp add: mark_online_def)

text \<open>Answers of other nodes do not undo a recovery.\<close>

lemma handle_pongs_online:
  assumes "hm_get (sh_states m) i = Some s" "\<not> is_offline s"
  shows "\<exists>s'. hm_get (sh_states (fst (handle_pongs now unix ps m))) i = Some s' \<and> \<not> is_offline s'"
  using assms
proof (induction ps arbitrary: m s)
  case (Cons p ps)
  let ?m1 = "if (case hm_get (sh_states m) p of None \<Rightarrow> False | Some s \<Rightarrow> is_offline s)
             then on_node_recovered now unix p m else (m, [])"
  have "\<exists>s'. hm_get (sh_states (fst ?m1)) i = Some s' \<and> \<not> is_offline s'"
    using Cons.prems by (auto simp: on_node_recovered_get)
  with Cons.IH show ?case by (fastforce simp: Let_def case_prod_unfold)
qed simp

lemma handle_pongs_recovers:
  assumes "i \<in> set ps" "hm_get (sh_states m) i = Some s"
  shows "\<exists>s'. hm_get (sh_states (fst (handle_pongs now unix ps m))) i = Some s' \<and> \<not> is_offline s'"
  using assms
proof (induction ps arbitrary: m s)
  case (Cons p ps)
  let ?m1 = "if (case hm_get (sh_states m) p of None \<Rightarrow> False | Some s \<Rightarrow> is_offline s)
             then on_node_recovered now unix p m else (m, [])"
  have "\<exists>s1. hm_get (sh_states (fst ?m1)) i = Some s1 \<and> (i = p \<longrightarrow> \<not> is_offline s1)"
    using Cons.prems(2) by (auto simp: on_node_recovered_get)
  then obtain s1 where s1: "hm_get (sh_states (fst ?m1)) i = Some s1" "i = p \<longrightarrow> \<not> is_offline s1" by blast
  have "handle_pongs now unix (p # ps) m =
      (fst (handle_pongs now unix ps (fst ?m1)), snd ?m1 @ snd (handle_pongs now unix ps (fst ?m1)))"
    by (simp add: Let_def case_prod_unfold)
  then show ?case
    using handle_pongs_online [OF s1(1), of now unix ps] Cons.IH [OF _ s1(1)] s1(2) Cons.prems(1)
    by (cases "is_offline s1") auto
qed simp

text \<open>
  Healing over the wire: when the answer to a \<^verbatim>\<open>HealPing\<close> is encoded, sent, decoded and processed,
  the next turn of the loop has the answering node online again, whatever else was waiting,
  if the node is tracked and no recovery check intervenes.
\<close>

theorem heal_ping_pong_recovers:
  assumes "node_ok (sh_local_id b)" "hm_get (sh_states a) (sh_local_id b) = Some s" "sh_running a"
    and "hm_msg_type ping = HealPing" "process_heal_message now unix ping b = (b', Some pong, calls)"
    and "heal_from_bytes (heal_to_bytes pong) = Some msg" "process_heal_message now' unix' msg a = (a', ans, calls')"
    and "now'' - last_check < recovery_check_interval a"
  shows "b' = b \<and> ans = None \<and> calls' = []
    \<and> map_option is_offline (sh_get_state (sh_local_id b)
         (fst (fst (heal_tick H now'' unix'' (a', last_check, last_persist))))) = Some False"
proof -
  have pong: "b' = b" "pong = (heal_message_new unix HealPong (sh_local_id b))\<lparr>hm_payload := hm_sender_id ping\<rparr>"
    using assms(4,5) by (auto simp: process_heal_message_def)
  have "msg = pong" using heal_from_to_bytes [of pong] assms(1,6) by (simp add: pong heal_message_new_def)
  then have a': "a' = handle_heal_pong (sh_local_id b) a" "ans = None" "calls' = []"
    using assms(7) by (simp_all add: pong process_heal_message_def heal_message_new_def)
  let ?ps = "heal_pongs a @ [sh_local_id b]"
  have cong: "a'\<lparr>heal_pongs := []\<rparr> = a\<lparr>heal_pongs := []\<rparr>" by (simp add: a' handle_heal_pong_def)
  have ri: "recovery_check_interval (fst (handle_pongs now'' unix'' ps m)) = recovery_check_interval m" for ps m
    by (induction ps arbitrary: m)
       (auto simp: on_node_recovered_def rebuild_route_def update_node_state_def Let_def case_prod_unfold split: option.splits)
  have tick: "fst (fst (heal_tick H now'' unix'' (a', last_check, last_persist))) =
      fst (handle_pongs now'' unix'' ?ps (a\<lparr>heal_pongs := []\<rparr>))"
    using assms(3,8) ri [of ?ps "a\<lparr>heal_pongs := []\<rparr>"]
    by (simp add: heal_tick_def cong case_prod_unfold Let_def) (simp add: a' handle_heal_pong_def)
  have "\<exists>s'. hm_get (sh_states (fst (handle_pongs now'' unix'' ?ps (a\<lparr>heal_pongs := []\<rparr>)))) (sh_local_id b) = Some s'
      \<and> \<not> is_offline s'"
    by (rule handle_pongs_recovers [where s = s]) (use assms(2) in simp_all)
  then show ?thesis using pong(1) a'(2,3) tick by (auto simp: sh_get_state_def)
qed

theorem heal_ping_pong_recovers_witness:
  "let b = selfheal_new (replicate 32 2);
       a = (selfheal_new (replicate 32 1))\<lparr>sh_running := True,
             sh_states := [(replicate 32 2, mark_offline (heal_state_new 0 (replicate 32 2)))]\<rparr>;
       ping = heal_message_new 1 HealPing (replicate 32 1);
       pong = (heal_message_new 2 HealPong (replicate 32 2))\<lparr>hm_payload := replicate 32 1\<rparr>;
       a' = handle_heal_pong (replicate 32 2) a
   in map_option is_offline (sh_get_state (replicate 32 2) (fst (fst (heal_tick plain_hex 9 9 (a', 0, 0))))) = Some False"
proof -
  let ?i = "replicate 32 2 :: NodeID"
  let ?b = "selfheal_new ?i"
  let ?a = "(selfheal_new (replicate 32 1))\<lparr>sh_running := True, sh_states := [(?i, mark_offline (heal_state_new 0 ?i))]\<rparr>"
  let ?ping = "heal_message_new 1 HealPing (replicate 32 1)"
  let ?pong = "(heal_message_new 2 HealPong ?i)\<lparr>hm_payload := replicate 32 1\<rparr>"
  have loc: "sh_local_id ?b = ?i" "recovery_check_interval ?a = 30000"
    by (simp_all add: selfheal_new_def DEFAULT_RECOVERY_CHECK_SECS_def)
  have "heal_from_bytes (heal_to_bytes ?pong) = Some ?pong"
    by (rule heal_from_to_bytes) (simp add: heal_message_new_def node_ok_def)
  moreover have "process_heal_message 1 2 ?ping ?b = (?b, Some ?pong, [])"
    "process_heal_message 3 3 ?pong ?a = (handle_heal_pong ?i ?a, None, [])"
    by (simp_all add: process_heal_message_def heal_message_new_def selfheal_new_def del: replicate.simps)
  ultimately show ?thesis
    using heal_ping_pong_recovers [of ?b ?a "mark_offline (heal_state_new 0 ?i)" ?ping 1 2 ?b ?pong "[]" ?pong 3 3
        "handle_heal_pong ?i ?a" None "[]" 9 0 plain_hex 9 0] loc
    by (simp add: node_ok_def heal_message_new_def Let_def del: replicate.simps)
qed

section \<open>Reachable states\<close>

text \<open>
  The managers that any sequence of calls produces, with the limit \<open>mx\<close> set at the start. Loading
  a file is left out: it inserts whatever states the file contains.
\<close>

inductive sh_reach :: "hex_codec \<Rightarrow> u32 \<Rightarrow> SelfHealManager \<Rightarrow> bool" for H mx where
  sh_init: "sh_reach H mx (set_max_failed_attempts mx (selfheal_new i))"
| sh_config: "sh_reach H mx m \<Longrightarrow>
     m' \<in> {sh_set_multihop mh m, sh_set_dht d m, set_heal_interval secs m, set_persist_path p m,
           register_callback cb m, sh_start m, sh_stop m} \<Longrightarrow> sh_reach H mx m'"
| sh_track: "sh_reach H mx m \<Longrightarrow> m' \<in> {sh_add_node unix i m, sh_remove_node i m} \<Longrightarrow> sh_reach H mx m'"
| sh_offline: "sh_reach H mx m \<Longrightarrow> sh_reach H mx (fst (on_node_offline now unix i m))"
| sh_recovered: "sh_reach H mx m \<Longrightarrow> sh_reach H mx (fst (on_node_recovered now unix i m))"
| sh_failure: "sh_reach H mx m \<Longrightarrow> sh_reach H mx (fst (handle_path_failure now i m))"
| sh_message: "sh_reach H mx m \<Longrightarrow> sh_reach H mx (fst (process_heal_message now unix msg m))"
| sh_heartbeat: "sh_reach H mx m \<Longrightarrow>
     m' \<in> {fst (cb_node_online now unix i m), fst (cb_heartbeat_received now unix i m)} \<Longrightarrow> sh_reach H mx m'"
| sh_tick: "sh_reach H mx m \<Longrightarrow> sh_reach H mx (fst (fst (heal_tick H now unix (m, last_check, last_persist))))"

definition heal_state_ok :: "u32 \<Rightarrow> NodeID \<Rightarrow> SelfHealNodeState \<Rightarrow> bool" where
  "heal_state_ok mx i s \<longleftrightarrow>
     sh_node_id s = i \<and> failed_attempts s \<le> mx \<and> (\<not> is_offline s \<longrightarrow> failed_attempts s = 0)"

definition sh_inv :: "u32 \<Rightarrow> SelfHealManager \<Rightarrow> bool" where
  "sh_inv mx m \<longleftrightarrow> max_failed_attempts m = mx \<and> hm_ok (sh_states m)
     \<and> (\<forall>i s. hm_get (sh_states m) i = Some s \<longrightarrow> heal_state_ok mx i s)"

lemma heal_state_ok_ops [simp]:
  "heal_state_ok mx i (heal_state_new unix i)"
  "heal_state_ok mx i s \<Longrightarrow> heal_state_ok mx i (mark_offline s)"
  "heal_state_ok mx i s \<Longrightarrow> heal_state_ok mx i (mark_online unix s)"
  "heal_state_ok mx i s \<Longrightarrow> heal_state_ok mx i (s\<lparr>sh_last_seen := unix\<rparr>)"
  by (auto simp: heal_state_ok_def heal_state_new_def mark_offline_def mark_online_def)

lemma sh_inv_cong:
  "sh_inv mx m \<Longrightarrow> max_failed_attempts m' = max_failed_attempts m \<Longrightarrow> sh_states m' = sh_states m \<Longrightarrow> sh_inv mx m'"
  by (simp add: sh_inv_def)

lemma sh_inv_insert:
  "sh_inv mx m \<Longrightarrow> heal_state_ok mx i s \<Longrightarrow> sh_inv mx (m\<lparr>sh_states := hm_insert i s (sh_states m)\<rparr>)"
  by (auto simp: sh_inv_def split: if_splits)

lemma sh_inv_update:
  assumes "sh_inv mx m" "\<And>s. heal_state_ok mx i s \<Longrightarrow> heal_state_ok mx i (f s)"
  shows "sh_inv mx (update_node_state unix i f m)"
  using assms sh_inv_insert [of mx m i]
  by (auto simp: update_node_state_def Let_def sh_inv_def split: option.splits)

lemma sh_inv_add: "sh_inv mx m \<Longrightarrow> sh_inv mx (sh_add_node unix i m)"
  using sh_inv_insert [of mx m i "heal_state_new unix i"] by (simp add: sh_add_node_def)

lemma sh_inv_recovered: "sh_inv mx m \<Longrightarrow> sh_inv mx (fst (on_node_recovered now unix i m))"
proof -
  assume "sh_inv mx m"
  then have "sh_inv mx (update_node_state unix i (mark_online unix) m)" by (rule sh_inv_update) simp
  then show ?thesis
    by (rule sh_inv_cong) (simp_all add: on_node_recovered_def rebuild_route_def Let_def split: option.splits)
qed

lemma sh_inv_offline: "sh_inv mx m \<Longrightarrow> sh_inv mx (fst (on_node_offline now unix i m))"
proof -
  assume "sh_inv mx m"
  then have "sh_inv mx (update_node_state unix i mark_offline m)" by (rule sh_inv_update) simp
  then show ?thesis
    by (rule sh_inv_cong) (simp_all add: on_node_offline_def Let_def case_prod_unfold split: option.splits)
qed

lemma sh_inv_failure: "sh_inv mx m \<Longrightarrow> sh_inv mx (fst (handle_path_failure now i m))"
  by (erule sh_inv_cong)
     (simp_all add: handle_path_failure_def Let_def split: option.splits prod.splits sum.splits)

lemma sh_inv_message: "sh_inv mx m \<Longrightarrow> sh_inv mx (fst (process_heal_message now unix msg m))"
  using sh_inv_add [of mx m unix "hm_sender_id msg"]
    sh_inv_recovered [of mx "sh_add_node unix (hm_sender_id msg) m" now unix "hm_sender_id msg"]
    sh_inv_cong [of mx m "handle_heal_pong (hm_sender_id msg) m"]
  by (auto simp: process_heal_message_def handle_heal_pong_def Let_def case_prod_unfold
      split: HealMsgType.splits option.splits)

lemma sh_inv_heartbeat:
  assumes "sh_inv mx m"
  shows "sh_inv mx (fst (cb_node_online now unix i m))" "sh_inv mx (fst (cb_heartbeat_received now unix i m))"
proof -
  let ?m = "sh_add_node unix i m"
  have add: "sh_inv mx ?m" using assms by (rule sh_inv_add)
  then show "sh_inv mx (fst (cb_node_online now unix i m))"
    by (simp add: cb_node_online_def sh_inv_recovered Let_def split: option.splits)
  show "sh_inv mx (fst (cb_heartbeat_received now unix i m))"
  proof (cases "sh_get_state i ?m")
    case (Some s)
    then have "heal_state_ok mx i s" using add by (simp add: sh_inv_def sh_get_state_def)
    then show ?thesis
      using add Some by (simp add: cb_heartbeat_received_def Let_def sh_inv_recovered sh_inv_insert)
  qed (use add in \<open>simp add: cb_heartbeat_received_def Let_def\<close>)
qed

lemma sh_inv_pongs: "sh_inv mx m \<Longrightarrow> sh_inv mx (fst (handle_pongs now unix ps m))"
proof (induction ps arbitrary: m)
  case (Cons p ps)
  have "sh_inv mx (fst (if (case hm_get (sh_states m) p of None \<Rightarrow> False | Some s \<Rightarrow> is_offline s)
             then on_node_recovered now unix p m else (m, [])))"
    using Cons.prems by (simp add: sh_inv_recovered)
  from Cons.IH [OF this] show ?case by (simp add: Let_def case_prod_unfold)
qed simp

text \<open>A node is due for another attempt.\<close>

definition may_attempt :: "u32 \<Rightarrow> SelfHealManager \<Rightarrow> NodeID \<Rightarrow> bool" where
  "may_attempt mx m i \<longleftrightarrow>
     (case hm_get (sh_states m) i of None \<Rightarrow> False | Some s \<Rightarrow> is_offline s \<and> failed_attempts s < mx)"

lemma attempt_frame:
  "i \<noteq> n \<Longrightarrow> hm_get (sh_states (fst (attempt_recovery now unix n m))) i = hm_get (sh_states m) i"
  by (simp add: attempt_recovery_def hm_get_modify Let_def split: option.splits prod.splits sum.splits)

lemma sh_inv_modify:
  assumes "sh_inv mx m" "\<And>s. hm_get (sh_states m) i = Some s \<Longrightarrow> heal_state_ok mx i (f s)"
  shows "sh_inv mx (m\<lparr>sh_states := hm_modify i f (sh_states m)\<rparr>)"
  using assms by (auto simp: sh_inv_def hm_get_modify split: if_splits)

lemma sh_inv_attempt:
  assumes "sh_inv mx m" "may_attempt mx m n"
  shows "sh_inv mx (fst (attempt_recovery now unix n m))"
proof -
  let ?m = "m\<lparr>sh_states := hm_modify n (record_failed_attempt unix) (sh_states m)\<rparr>"
  have step: "heal_state_ok mx n (record_failed_attempt unix s)" if "hm_get (sh_states m) n = Some s" for s
  proof -
    have "is_offline s" "failed_attempts s < mx" "sh_node_id s = n"
      using assms that by (auto simp: may_attempt_def sh_inv_def heal_state_ok_def)
    then show ?thesis by (simp add: heal_state_ok_def record_failed_attempt_def inc_le)
  qed
  then have m: "sh_inv mx ?m" by (rule sh_inv_modify [OF assms(1)])
  then have "heal_state_ok mx n (mark_online unix s)" if "hm_get (sh_states ?m) n = Some s" for s
    using that unfolding sh_inv_def by (blast intro: heal_state_ok_ops(3))
  then have "sh_inv mx (?m\<lparr>sh_states := hm_modify n (mark_online unix) (sh_states ?m)\<rparr>)" by (rule sh_inv_modify [OF m])
  with m show ?thesis
    by (auto simp: attempt_recovery_def sh_inv_def Let_def split: option.splits prod.splits sum.splits)
qed

lemma sh_inv_attempts:
  "sh_inv mx m \<Longrightarrow> distinct ns \<Longrightarrow> list_all (may_attempt mx m) ns \<Longrightarrow> sh_inv mx (fst (attempt_all now unix ns m))"
proof (induction ns arbitrary: m)
  case (Cons n ns)
  let ?m = "fst (attempt_recovery now unix n m)"
  have "may_attempt mx ?m i = may_attempt mx m i" if "i \<noteq> n" for i
    using that by (simp add: may_attempt_def attempt_frame)
  then have "list_all (may_attempt mx ?m) ns"
    using Cons.prems(2,3) unfolding list_all_iff by (metis distinct.simps(2) list.set_intros(2))
  then have "sh_inv mx (fst (attempt_all now unix ns ?m))"
    using Cons sh_inv_attempt [of mx m n now unix] by simp
  then show ?case by (simp add: Let_def case_prod_unfold)
qed simp

lemma due_nodes_keys:
  assumes "sh_inv mx m"
  shows "distinct (due_nodes unix m)" "list_all (may_attempt mx m) (due_nodes unix m)"
proof -
  have key: "sh_node_id s = i \<and> hm_get (sh_states m) i = Some s" if "(i, s) \<in> set (sh_states m)" for i s
    using assms that by (auto simp: sh_inv_def heal_state_ok_def hm_mem_get)
  then have "map sh_node_id (hm_values (sh_states m)) = map fst (sh_states m)"
    by (auto simp: hm_values_def)
  then have "distinct (map sh_node_id (hm_values (sh_states m)))"
    using assms by (simp add: sh_inv_def hm_ok_def)
  then show "distinct (due_nodes unix m)" unfolding due_nodes_def by (rule distinct_map_filter)
  show "list_all (may_attempt mx m) (due_nodes unix m)"
    using assms key
    by (auto simp: list_all_iff due_nodes_def hm_values_def may_attempt_def has_exceeded_max_attempts_def sh_inv_def)
qed

lemma sh_inv_tick: "sh_inv mx m \<Longrightarrow> sh_inv mx (fst (fst (heal_tick H now unix (m, last_check, last_persist))))"
proof -
  assume m: "sh_inv mx m"
  let ?m = "fst (handle_pongs now unix (heal_pongs m) (m\<lparr>heal_pongs := []\<rparr>))"
  have "sh_inv mx (m\<lparr>heal_pongs := []\<rparr>)" using m by (rule sh_inv_cong) simp_all
  then have pongs: "sh_inv mx ?m" by (rule sh_inv_pongs)
  then have "sh_inv mx (fst (attempt_all now unix (due_nodes unix ?m) ?m))"
    by (rule sh_inv_attempts [OF _ due_nodes_keys [OF pongs]])
  with m pongs show ?thesis by (simp add: heal_tick_def Let_def case_prod_unfold)
qed

lemma sh_reach_inv: "sh_reach H mx m \<Longrightarrow> sh_inv mx m"
proof (induction rule: sh_reach.induct)
  case (sh_init i)
  then show ?case by (simp add: sh_inv_def selfheal_new_def set_max_failed_attempts_def)
next
  case (sh_config m m' mh d secs p cb)
  then show ?case
    by (elim insertE emptyE)
       (auto elim!: sh_inv_cong simp: sh_set_multihop_def sh_set_dht_def set_heal_interval_def set_persist_path_def
          register_callback_def sh_start_def sh_stop_def)
next
  case (sh_track m m' unix i)
  then show ?case using sh_inv_add [of mx m unix i] by (auto simp: sh_remove_node_def sh_inv_def split: if_splits)
qed (auto intro: sh_inv_offline sh_inv_recovered sh_inv_failure sh_inv_message sh_inv_heartbeat sh_inv_tick)

text \<open>
  In every reachable manager a tracked node is stored under its identifier, an online node has
  no failed attempts on record, and no node is tried more often than the limit: a node that
  reached it is never due again, at whatever time.
\<close>

theorem recovery_attempts_bounded:
  assumes "sh_reach H mx m" "hm_get (sh_states m) i = Some s"
  shows "sh_node_id s = i \<and> failed_attempts s \<le> mx \<and> (\<not> is_offline s \<longrightarrow> failed_attempts s = 0)
    \<and> (failed_attempts s = mx \<longrightarrow> i \<notin> set (due_nodes unix m))"
proof -
  have inv: "sh_inv mx m" using assms(1) by (rule sh_reach_inv)
  then have "heal_state_ok mx i s" using assms(2) by (simp add: sh_inv_def)
  moreover have "i \<notin> set (due_nodes unix m)" if "failed_attempts s = mx"
    using due_nodes_keys(2) [OF inv, of unix] assms(2) that by (auto simp: list_all_iff may_attempt_def)
  ultimately show ?thesis by (simp add: heal_state_ok_def)
qed

theorem recovery_attempts_bounded_witness:
  "\<exists>s. hm_get (sh_states (fst (fst (heal_tick plain_hex 30000 9
          (sh_start (fst (on_node_offline 0 8 [2] (set_max_failed_attempts 1 (selfheal_new [1])))), 0, 0))))) [2] = Some s
     \<and> failed_attempts s = 1
     \<and> [2] \<notin> set (due_nodes 99 (fst (fst (heal_tick plain_hex 30000 9
          (sh_start (fst (on_node_offline 0 8 [2] (set_max_failed_attempts 1 (selfheal_new [1])))), 0, 0)))))"
proof -
  let ?m = "fst (fst (heal_tick plain_hex 30000 9
          (sh_start (fst (on_node_offline 0 8 [2] (set_max_failed_attempts 1 (selfheal_new [1])))), 0, 0)))"
  have "sh_reach plain_hex 1 (fst (on_node_offline 0 8 [2] (set_max_failed_attempts 1 (selfheal_new [1]))))"
    by (intro sh_offline sh_init)
  then have "sh_reach plain_hex 1 (sh_start (fst (on_node_offline 0 8 [2] (set_max_failed_attempts 1 (selfheal_new [1])))))"
    by (rule sh_config) simp
  then have reach: "sh_reach plain_hex 1 ?m" by (rule sh_tick)
  have "map_option failed_attempts (hm_get (sh_states ?m) [2]) = Some 1"
    by (simp add: on_node_offline_def update_node_state_def set_max_failed_attempts_def selfheal_new_def sh_start_def
        heal_tick_def DEFAULT_RECOVERY_CHECK_SECS_def due_nodes_def hm_values_def hm_insert_def mark_offline_def
        heal_state_new_def has_exceeded_max_attempts_def attempt_recovery_def hm_modify_def record_failed_attempt_def Let_def)
  then obtain s where s: "hm_get (sh_states ?m) [2] = Some s" "failed_attempts s = 1" by blast
  with recovery_attempts_bounded [OF reach s(1), of 99] show ?thesis by blast
qed

section \<open>Saving and loading\<close>

text \<open>
  What is relied on of serde\_json: the text of the state parses back to the same map, in whatever
  order of its entries.
\<close>

definition heal_json_ok :: "heal_json \<Rightarrow> PersistedHealState \<Rightarrow> bool" where
  "heal_json_ok J p \<longleftrightarrow>
     (\<exists>json p'. hj_to_string J p = Inr json \<and> hj_from_str J json = Inr p' \<and> hm_ok (ph_states p')
        \<and> hm_get (ph_states p') = hm_get (ph_states p))"

lemma save_states_get:
  assumes "hex_correct H"
  shows "hm_get (fold (\<lambda>(k, v). hm_insert (to_hex H k) v) kvs []) (to_hex H n) = map_of (rev kvs) n"
    and "hm_ok (fold (\<lambda>(k, v). hm_insert (to_hex H k) v) kvs [])"
    and "hm_get (fold (\<lambda>(k, v). hm_insert (to_hex H k) v) kvs []) key = Some s \<Longrightarrow> \<exists>n. key = to_hex H n \<and> (n, s) \<in> set kvs"
  using assms by (induction kvs rule: rev_induct) (auto simp: to_hex_inject split: if_splits)

lemma load_states_get:
  assumes "hex_correct H" "list_all (\<lambda>(k, s). k = to_hex H (sh_node_id s)) kvs"
  shows "hm_get (fold (\<lambda>(_, s). hm_insert (sh_node_id s) s) kvs st) n =
    (case map_of (rev kvs) (to_hex H n) of None \<Rightarrow> hm_get st n | Some s \<Rightarrow> Some s)"
  using assms by (induction kvs rule: rev_induct) (auto simp: to_hex_inject split: option.splits)

lemma card_to_hex: "hex_correct H \<Longrightarrow> card (to_hex H ` A) = card A"
  by (rule card_image) (auto simp: inj_on_def to_hex_inject)

text \<open>
  The states a manager saved are all restored by the manager that loads the file, and the number
  reported is the number of nodes; nodes that only the loading manager knew keep their state.
\<close>

theorem saved_state_restored:
  assumes H: "hex_correct H" and m: "sh_reach H mx m" and J: "heal_json_ok J (persisted H unix m)"
  shows "\<exists>json m' calls. save_state J H unix None m = Inr json
    \<and> load_state J path (Some (Inr json)) m0 = (m', Inr (length (sh_states m)), calls)
    \<and> (\<forall>i. sh_get_state i m' = (case sh_get_state i m of None \<Rightarrow> sh_get_state i m0 | Some s \<Rightarrow> Some s))"
proof -
  let ?p = "persisted H unix m"
  obtain json p' where J': "hj_to_string J ?p = Inr json" "hj_from_str J json = Inr p'" "hm_ok (ph_states p')"
    "hm_get (ph_states p') = hm_get (ph_states ?p)"
    using J unfolding heal_json_ok_def by blast
  have inv: "sh_inv mx m" using m by (rule sh_reach_inv)
  then have ok: "hm_ok (sh_states m)" by (simp add: sh_inv_def)
  have get: "hm_get (ph_states p') (to_hex H i) = hm_get (sh_states m) i" for i
    using save_states_get(1) [OF H, of "sh_states m" i] ok by (simp add: J'(4) persisted_def map_of_rev)
  have key: "\<exists>i. k = to_hex H i \<and> hm_get (sh_states m) i = Some s \<and> sh_node_id s = i"
    if "hm_get (ph_states p') k = Some s" for k s
    using save_states_get(3) [OF H, of "sh_states m" k s] that inv
    by (auto simp: J'(4) persisted_def sh_inv_def hm_mem_get heal_state_ok_def)
  then have keys: "list_all (\<lambda>(k, s). k = to_hex H (sh_node_id s)) (ph_states p')"
    using hm_mem_get [OF J'(3)] by (fastforce simp: list_all_iff)
  have "dom (hm_get (ph_states p')) = to_hex H ` dom (hm_get (sh_states m))"
    using key get by (auto simp: dom_def image_iff)
  then have len: "length (ph_states p') = length (sh_states m)"
    using hm_len_dom [OF J'(3)] hm_len_dom [OF ok] card_to_hex [OF H] by simp
  have "hm_get (fold (\<lambda>(_, s). hm_insert (sh_node_id s) s) (ph_states p') (sh_states m0)) i =
      (case hm_get (sh_states m) i of None \<Rightarrow> hm_get (sh_states m0) i | Some s \<Rightarrow> Some s)" for i
    using load_states_get [OF H keys, of "sh_states m0" i] get [of i] by (simp add: map_of_rev [OF J'(3)])
  then show ?thesis
    using J' len by (simp add: save_state_def load_state_def sh_get_state_def [abs_def] Let_def split: option.splits)
qed

theorem saved_state_restored_witness:
  "let m = sh_add_node 5 [2] (set_max_failed_attempts 3 (selfheal_new [1]));
       J = \<lparr>hj_to_string = (\<lambda>p. Inr ''state''), hj_from_str = (\<lambda>t. Inr (persisted plain_hex 7 m))\<rparr>
   in \<exists>json. save_state J plain_hex 7 None m = Inr json
        \<and> map_option sh_last_seen (sh_get_state [2] (fst (load_state J ''f'' (Some (Inr json)) (selfheal_new [1])))) = Some 5"
proof -
  let ?m = "sh_add_node 5 [2] (set_max_failed_attempts 3 (selfheal_new [1]))"
  let ?J = "\<lparr>hj_to_string = (\<lambda>p. Inr ''state''), hj_from_str = (\<lambda>t. Inr (persisted plain_hex 7 ?m))\<rparr>"
  have reach: "sh_reach plain_hex 3 ?m" by (rule sh_track [OF sh_init, where unix = 5 and i = "[2]"]) blast
  have J: "heal_json_ok ?J (persisted plain_hex 7 ?m)"
    using save_states_get(2) [OF plain_hex_correct] by (simp add: heal_json_ok_def persisted_def)
  have known: "sh_get_state [2] ?m = Some (heal_state_new 5 [2])"
    by (simp add: sh_add_node_def set_max_failed_attempts_def selfheal_new_def sh_get_state_def hm_contains_def)
  obtain json m' calls where "save_state ?J plain_hex 7 None ?m = Inr json"
    "load_state ?J ''f'' (Some (Inr json)) (selfheal_new [1]) = (m', Inr (length (sh_states ?m)), calls)"
    "sh_get_state [2] m' = Some (heal_state_new 5 [2])"
    using saved_state_restored [OF plain_hex_correct reach J, of "''f''" "selfheal_new [1]"] known by fastforce
  then show ?thesis by (auto simp: heal_state_new_def Let_def)
qed

end
