(* ===== verification/CommandLine.thy ===== *)
theory CommandLine
  imports Address
begin

text \<open>
  The command line of the overlay, \<^verbatim>\<open>crates/vpn/src/vpn/command.rs\<close>: \<open>parse_command\<close> for the form
  that contains the word \<^verbatim>\<open>ll\<close>, \<open>parse_short_command\<close> for the form without it. The two are written
  out separately in the source; they accept the same commands.
\<close>

datatype Command =
    Cmd string string
  | Ping string
  | Nodes
  | Status
  | Backup string string
  | Restore string string
  | StorageGC
  | StoragePrune nat
  | StorageStatsCmd
  | Increment string string
  | Version string

definition quote :: "string \<Rightarrow> string" where
  "quote s = [CHR 0x27] @ s @ [CHR 0x27]"

text \<open>\<^verbatim>\<open>join(" ")\<close>.\<close>

definition join_words :: "string list \<Rightarrow> string" where
  "join_words ws = join_with '' '' ws"

lemma join_words_single [simp]: "join_words [w] = w"
  by (simp add: join_words_def)

text \<open>\<^verbatim>\<open>str::parse::<usize>\<close>, as for \<^verbatim>\<open>u16\<close>.\<close>

definition parse_usize :: "string \<Rightarrow> nat option" where
  "parse_usize s = parse_below (2 ^ 64) s"

definition node_target :: "string \<Rightarrow> (string, string) result" where
  "node_target t =
     (if is_node_address t then Inr t
      else Inl (''invalid target address '' @ quote t @ '': expected node:<name>''))"

definition restore_target :: "string \<Rightarrow> (string, string) result" where
  "restore_target t =
     (if starts_with ''node:'' t then Inr t
      else Inl (''invalid target '' @ quote t @ '': expected node:<name>:<path>''))"

text \<open>The local path of a restore that names none.\<close>

definition derived_path :: "string \<Rightarrow> string" where
  "derived_path t =
     (let parts = splitn3 (CHR '':'') t
      in if length parts \<ge> 3 then dropWhile ((=) (CHR ''/'')) (parts ! 2) else ''restored_file'')"

definition parse_keep :: "string option \<Rightarrow> (string, Command) result" where
  "parse_keep arg =
     and_then (case arg of None \<Rightarrow> Inr 10
               | Some s \<Rightarrow> ok_or (''invalid number '' @ quote s @ '': expected a positive integer'') (parse_usize s))
       (\<lambda>keep. if keep = 0 then Inl ''keep count must be positive'' else Inr (StoragePrune keep))"

definition unknown_storage :: "string \<Rightarrow> string" where
  "unknown_storage sub = ''unknown storage subcommand '' @ quote sub @ ''. Available: gc, prune, stats''"

definition parse_short_command :: "string list \<Rightarrow> (string, Command) result" where
  "parse_short_command args =
     (if args = [] then Inl ''empty command''
      else let a = args ! 0 in
        if a = ''cmd'' then
          (if length args < 3 then Inl ''usage: cmd node:<name> <command>''
           else and_then (node_target (args ! 1)) (\<lambda>t. Inr (Cmd t (join_words (drop 2 args)))))
        else if a = ''ping'' then
          (if length args < 2 then Inl ''usage: ping node:<name>''
           else and_then (node_target (args ! 1)) (\<lambda>t. Inr (Ping t)))
        else if a = ''nodes'' then Inr Nodes
        else if a = ''status'' then Inr Status
        else if a = ''backup'' then
          (if length args < 3 then Inl ''usage: backup <path> node:<name>''
           else and_then (node_target (args ! 2)) (\<lambda>t. Inr (Backup (args ! 1) t)))
        else if a = ''restore'' then
          (if length args < 2 then Inl ''usage: restore node:<name>:<path> [local-path]''
           else and_then (restore_target (args ! 1))
                  (\<lambda>t. Inr (Restore t (if length args > 2 then args ! 2 else derived_path t))))
        else if a = ''storage'' then
          (if length args < 2 then Inl ''usage: storage <gc|prune|stats> [args]''
           else let b = args ! 1 in
             if b = ''gc'' then Inr StorageGC
             else if b = ''prune'' then parse_keep (if length args > 2 then Some (args ! 2) else None)
             else if b = ''stats'' then Inr StorageStatsCmd
             else Inl (unknown_storage b))
        else if a = ''increment'' \<or> a = ''inc'' then
          (if length args < 3 then Inl ''usage: increment <path> node:<name>''
           else and_then (node_target (args ! 2)) (\<lambda>t. Inr (Increment (args ! 1) t)))
        else if a = ''version'' \<or> a = ''ver'' then
          (if length args < 2 then Inl ''usage: version <file>'' else Inr (Version (args ! 1)))
        else Inl (''unknown command '' @ quote a @ ''. Available: ll cmd, ll ping, ll nodes, ll status, ll backup, ll restore, ll storage, ll increment, ll version''))"

text \<open>The words from the first \<^verbatim>\<open>ll\<close> on.\<close>

definition parse_ll :: "string list \<Rightarrow> (string, Command) result" where
  "parse_ll args =
     (if length args < 2 then Inl (''expected subcommand after '' @ quote ''ll'' @ ''. Usage: ll <cmd|ping|nodes|status>'')
      else let a = args ! 1 in
        if a = ''cmd'' then
          (if length args < 4 then Inl ''usage: ll cmd node:<name> <command>''
           else and_then (node_target (args ! 2)) (\<lambda>t. Inr (Cmd t (join_words (drop 3 args)))))
        else if a = ''ping'' then
          (if length args < 3 then Inl ''usage: ll ping node:<name>''
           else and_then (node_target (args ! 2)) (\<lambda>t. Inr (Ping t)))
        else if a = ''nodes'' then Inr Nodes
        else if a = ''status'' then Inr Status
        else if a = ''backup'' then
          (if length args < 4 then Inl ''usage: ll backup <path> node:<name>''
           else and_then (node_target (args ! 3)) (\<lambda>t. Inr (Backup (args ! 2) t)))
        else if a = ''restore'' then
          (if length args < 3 then Inl ''usage: ll restore node:<name>:<path> [local-path]''
           else and_then (restore_target (args ! 2))
                  (\<lambda>t. Inr (Restore t (if length args > 3 then args ! 3 else derived_path t))))
        else if a = ''storage'' then
          (if length args < 3 then Inl ''usage: ll storage <gc|prune|stats> [args]''
           else let b = args ! 2 in
             if b = ''gc'' then Inr StorageGC
             else if b = ''prune'' then parse_keep (if length args > 3 then Some (args ! 3) else None)
             else if b = ''stats'' then Inr StorageStatsCmd
             else Inl (unknown_storage b))
        else if a = ''increment'' \<or> a = ''inc'' then
          (if length args < 4 then Inl ''usage: ll increment <path> node:<name>''
           else and_then (node_target (args ! 3)) (\<lambda>t. Inr (Increment (args ! 2) t)))
        else if a = ''version'' \<or> a = ''ver'' then
          (if length args < 3 then Inl ''usage: ll version <file>'' else Inr (Version (args ! 2)))
        else Inl (''unknown subcommand '' @ quote a @ ''. Available: cmd, ping, nodes, status, backup, restore, storage, increment, version''))"

definition parse_command :: "string list \<Rightarrow> (string, Command) result" where
  "parse_command args =
     (case dropWhile (\<lambda>a. a \<noteq> ''ll'') args of
        [] \<Rightarrow>
          if args = [] then Inl ''empty command. Usage: ll <cmd|ping|nodes|status> [args]''
          else parse_short_command args
      | ll # rest \<Rightarrow> parse_ll (ll # rest))"

section \<open>The two forms agree\<close>

lemma dropWhile_ll:
  "''ll'' \<notin> set pre \<Longrightarrow> dropWhile (\<lambda>a. a \<noteq> ''ll'') (pre @ ''ll'' # args) = ''ll'' # args"
  by (induction pre) auto

lemma dropWhile_no_ll: "''ll'' \<notin> set args \<Longrightarrow> dropWhile (\<lambda>a. a \<noteq> ''ll'') args = []"
  by (induction args) auto

lemma parse_command_ll: "''ll'' \<notin> set pre \<Longrightarrow> parse_command (pre @ ''ll'' # args) = parse_ll (''ll'' # args)"
  unfolding parse_command_def by (subst dropWhile_ll) simp_all

lemma parse_command_short: "''ll'' \<notin> set args \<Longrightarrow> args \<noteq> [] \<Longrightarrow> parse_command args = parse_short_command args"
  unfolding parse_command_def by (subst dropWhile_no_ll) simp_all

text \<open>The two parsers differ only in the texts of their errors.\<close>

lemma parse_ll_short: "parse_ll (''ll'' # args) = Inr c \<longleftrightarrow> parse_short_command args = Inr c"
proof (cases args)
  case Nil
  then show ?thesis by (simp add: parse_ll_def parse_short_command_def)
next
  case (Cons a as)
  have "length (''ll'' # args) = Suc (length args)" "(''ll'' # args) ! 1 = args ! 0" "(''ll'' # args) ! 2 = args ! 1"
    "(''ll'' # args) ! 3 = args ! 2" "drop 3 (''ll'' # args) = drop 2 args"
    by (simp_all add: numeral_eq_Suc)
  note eqs = this
  have len: "Suc n < 2 \<longleftrightarrow> n = 0" "Suc n < 3 \<longleftrightarrow> n < 2" "Suc n < 4 \<longleftrightarrow> n < 3" "Suc n > 3 \<longleftrightarrow> n > 2" for n
    by auto
  have ne: "args \<noteq> []" "length args \<noteq> 0" using Cons by simp_all
  show ?thesis
    unfolding parse_ll_def parse_short_command_def Let_def eqs len
    using ne by (simp split del: if_split cong: if_cong) (auto split: if_splits)
qed

text \<open>
  With and without \<^verbatim>\<open>ll\<close> in front, whatever words precede it, exactly the same commands are
  accepted, with the same meaning.
\<close>

theorem both_forms_agree:
  assumes "''ll'' \<notin> set pre"
  shows "(parse_command (pre @ ''ll'' # args) = Inr c \<longleftrightarrow> parse_short_command args = Inr c)
    \<and> (''ll'' \<notin> set args \<longrightarrow> (parse_command args = Inr c \<longleftrightarrow> parse_short_command args = Inr c))"
proof -
  have "parse_command args = Inr c \<longleftrightarrow> parse_short_command args = Inr c" if "''ll'' \<notin> set args"
    using that parse_command_short [of args] by (cases "args = []") (auto simp: parse_command_def parse_short_command_def)
  then show ?thesis using parse_command_ll [OF assms] parse_ll_short by simp
qed

theorem both_forms_agree_witness:
  "parse_command [''./vpn'', ''ll'', ''storage'', ''prune'', ''3''] = Inr (StoragePrune 3)"
proof -
  have "parse_short_command [''storage'', ''prune'', ''3''] = Inr (StoragePrune 3)"
    by (simp add: parse_short_command_def parse_keep_def parse_usize_def parse_below_def unsigned_digits_def is_digit_def digits_value_def)
  then show ?thesis
    using both_forms_agree [of "[''./vpn'']" "[''storage'', ''prune'', ''3'']" "StoragePrune 3"] by simp
qed

section \<open>Accepted commands\<close>

text \<open>What the executing code may rely on.\<close>

fun command_wf :: "Command \<Rightarrow> bool" where
  "command_wf (Cmd t c) = is_node_address t"
| "command_wf (Ping t) = is_node_address t"
| "command_wf (Backup p t) = is_node_address t"
| "command_wf (Restore t p) = is_node_address t"
| "command_wf (Increment p t) = is_node_address t"
| "command_wf (StoragePrune n) = (0 < n \<and> n < 2 ^ 64)"
| "command_wf _ = True"

text \<open>A command in words.\<close>

fun command_words :: "Command \<Rightarrow> string list" where
  "command_words (Cmd t c) = [''cmd'', t, c]"
| "command_words (Ping t) = [''ping'', t]"
| "command_words Nodes = [''nodes'']"
| "command_words Status = [''status'']"
| "command_words (Backup p t) = [''backup'', p, t]"
| "command_words (Restore t p) = [''restore'', t, p]"
| "command_words StorageGC = [''storage'', ''gc'']"
| "command_words (StoragePrune n) = [''storage'', ''prune'', show_nat n]"
| "command_words StorageStatsCmd = [''storage'', ''stats'']"
| "command_words (Increment p t) = [''increment'', p, t]"
| "command_words (Version f) = [''version'', f]"

lemma node_target_Inr: "node_target t = Inr t' \<longleftrightarrow> is_node_address t \<and> t' = t"
  by (auto simp: node_target_def)

lemma starts_with_node: "starts_with ''node:'' t = is_node_address t"
proof -
  have "length ''node:'' = 5" by simp
  then show ?thesis unfolding starts_with_def is_node_address_def by metis
qed

lemma restore_target_Inr: "restore_target t = Inr t' \<longleftrightarrow> is_node_address t \<and> t' = t"
  by (auto simp: restore_target_def starts_with_node)

lemma parse_keep_Inr: "parse_keep arg = Inr c \<Longrightarrow> command_wf c"
  by (auto simp: parse_keep_def and_then_eq_Inr parse_usize_def Let_def ok_or_eq_Inr dest: parse_below_bound split: option.splits if_splits)

lemma parse_usize_show: "n < 2 ^ 64 \<Longrightarrow> parse_usize (show_nat n) = Some n"
  by (simp add: parse_usize_def parse_below_show)

lemma short_command_wf: "parse_short_command args = Inr c \<Longrightarrow> command_wf c"
  unfolding parse_short_command_def Let_def
  by (auto simp: and_then_eq_Inr node_target_Inr restore_target_Inr parse_keep_Inr split: if_splits)

lemma short_command_words: "command_wf c \<Longrightarrow> parse_short_command (command_words c) = Inr c"
  by (cases c) (simp_all add: parse_short_command_def node_target_def restore_target_def starts_with_node
      parse_keep_def parse_usize_show)

text \<open>
  C34. Every command the parser accepts is well formed: its target is a node address and the number
  of versions to keep is positive and fits a machine word. Conversely every well-formed command
  is what the parser makes of its words, so none is unreachable from the command line.
\<close>

theorem parsed_commands_well_formed:
  "(parse_command args = Inr c \<longrightarrow> command_wf c) \<and> (command_wf c \<longrightarrow> parse_command (''ll'' # command_words c) = Inr c)"
proof -
  have "command_wf c" if "parse_command args = Inr c"
  proof (cases "''ll'' \<in> set args")
    case True
    then obtain pre rest where "args = pre @ ''ll'' # rest" "''ll'' \<notin> set pre" using split_list_first by metis
    with that show ?thesis using parse_command_ll parse_ll_short short_command_wf by metis
  next
    case False
    with that show ?thesis
      using parse_command_short [of args] short_command_wf [of args c] by (cases "args = []") (auto simp: parse_command_def)
  qed
  moreover have "parse_command (''ll'' # command_words c) = Inr c" if "command_wf c"
    using that parse_command_ll [of "[]" "command_words c"] parse_ll_short short_command_words by simp
  ultimately show ?thesis by blast
qed

theorem parsed_commands_well_formed_witness:
  "parse_command [''ll'', ''ping'', ''node:b''] = Inr (Ping ''node:b'')"
  using parsed_commands_well_formed [of "[]" "Ping ''node:b''"] by (simp add: is_node_address_def)

text \<open>
  The word \<^verbatim>\<open>ll\<close> is searched in all words: a short command whose own text contains it, such as one to
  run \<^verbatim>\<open>ll\<close> on another node, is not what is executed. Everything up to the word is dropped and
  the rest is taken for the command.
\<close>

theorem ll_inside_command:
  assumes "''ll'' \<notin> set pre" "t \<noteq> ''ll''" "is_node_address t"
  shows "parse_command (''cmd'' # t # pre @ ''ll'' # rest) = parse_command (''ll'' # rest)
    \<and> parse_short_command (''cmd'' # t # pre @ ''ll'' # rest) = Inr (Cmd t (join_words (pre @ ''ll'' # rest)))"
proof -
  have "parse_command ((''cmd'' # t # pre) @ ''ll'' # rest) = parse_ll (''ll'' # rest)"
    using assms by (intro parse_command_ll) auto
  moreover have "parse_command (''ll'' # rest) = parse_ll (''ll'' # rest)"
    using parse_command_ll [of "[]" rest] by simp
  moreover have "parse_short_command (''cmd'' # t # pre @ ''ll'' # rest) = Inr (Cmd t (join_words (pre @ ''ll'' # rest)))"
    using assms(3) by (simp add: parse_short_command_def node_target_def)
  ultimately show ?thesis by simp
qed

theorem ll_inside_command_witness:
  "parse_command [''cmd'', ''node:b'', ''ll'', ''status''] = Inr Status"
  using ll_inside_command [of "[]" "''node:b''" "[''status'']"]
    parse_command_ll [of "[]" "[''status'']"] parse_ll_short [of "[''status'']" Status] short_command_words [of Status]
  by (simp add: is_node_address_def)

end
