(* ===== verification/Commands.thy ===== *)
theory Commands
  imports CommandLine VpnRouter BlockEncryption Gc
begin

text \<open>
  Executing the commands, \<^verbatim>\<open>crates/vpn/src/vpn/command.rs\<close>: they compose the VPN router with chunking,
  block encryption, metadata, versions and garbage collection. The state of a command is the
  router, the resolver, what was sent, the files written and the two database files; clocks,
  randomness, socket and file outcomes and the calls of the listeners while a command waits are
  in \<open>cmd_env\<close>, the serialisers in \<open>cmd_codec\<close>. A command returns its text or its error;
  \<open>None\<close> stands for one that panics or blocks.
\<close>

section \<open>State and environment\<close>

record cmd_world =
  w_vpn :: "MemAddressResolver VpnRouter"
  w_resolver :: MemAddressResolver
  w_sent :: "vpn_out list"
  w_files :: "(string \<times> bytes) list"
  w_versions :: "VersionStore option"
  w_metadata :: "(string, MetadataEntry) hmap option"

record block_payload =
  bp_file_name :: string
  bp_chunk_index :: nat
  bp_total_chunks :: nat
  bp_file_size :: nat
  bp_nonce_hex :: "string option"
  bp_data_hex :: string

text \<open>
  \<open>k_data_hex\<close> parses the text of an answer and looks for its string \<^verbatim>\<open>data_hex\<close>; \<open>k_ms\<close> prints
  a duration in milliseconds with one decimal.
\<close>

record cmd_codec =
  k_hex :: hex_codec
  k_hex_error :: "hex_error \<Rightarrow> string"
  k_sha256 :: "bytes \<Rightarrow> Hash"
  k_aead :: aead
  k_block_json :: "block_payload \<Rightarrow> string"
  k_manifest_json :: "FileManifest \<Rightarrow> (string, string) result"
  k_manifest_parse :: "string \<Rightarrow> (string, FileManifest) result"
  k_data_hex :: "string \<Rightarrow> (string, string option) result"
  k_ms :: "nat \<Rightarrow> string"

text \<open>
  Sends, random tags and waits of one command are numbered. \<open>x_parent_error\<close> is the parent
  directory of a path that cannot be created, with the error; the load errors are those of reading
  and parsing a database file, the save errors those of writing it.
\<close>

record cmd_env =
  x_now :: instant
  x_unix :: u64
  x_unix_end :: u64
  x_read :: "string \<Rightarrow> (string, bytes) result"
  x_send :: "nat \<Rightarrow> vpn_env"
  x_key :: bytes
  x_random :: "nat \<Rightarrow> bytes"
  x_tag :: "nat \<Rightarrow> u64"
  x_calls :: "nat \<Rightarrow> (DataListener \<times> string \<times> bytes) list"
  x_elapsed :: nat
  x_parent_error :: "string \<Rightarrow> (string \<times> string) option"
  x_write :: "string \<Rightarrow> (string, unit) result"
  x_versions_load :: "string option"
  x_metadata_load :: "string option"
  x_versions_save :: "(string, unit) result"
  x_versions_flush :: "(string, unit) result"
  x_metadata_save :: bool

section \<open>Text\<close>

text \<open>The arrow and the dash of the messages are three bytes each.\<close>

definition arrow :: string where "arrow = [CHR 0xE2, CHR 0x86, CHR 0x92]"
definition dash :: string where "dash = [CHR 0xE2, CHR 0x80, CHR 0x94]"

definition truncate_hex :: "string \<Rightarrow> nat \<Rightarrow> string" where
  "truncate_hex s n = (if length s \<le> n + 3 then s else take n s @ ''...'')"

text \<open>
  \<^verbatim>\<open>Path::file_name\<close> on Unix: the last component that is not \<^verbatim>\<open>.\<close>, unless it is \<^verbatim>\<open>..\<close>; the callers
  fall back to the whole path.
\<close>

fun path_pieces :: "string \<Rightarrow> string list" where
  "path_pieces [] = [[]]"
| "path_pieces (c # cs) =
     (if c = CHR ''/'' then [] # path_pieces cs
      else case path_pieces cs of p # ps \<Rightarrow> (c # p) # ps | [] \<Rightarrow> [[c]])"

definition path_file_name :: "string \<Rightarrow> string" where
  "path_file_name path =
     (case rev (filter (\<lambda>p. p \<noteq> [] \<and> p \<noteq> ''.'') (path_pieces path)) of
        [] \<Rightarrow> path
      | p # _ \<Rightarrow> if p = ''..'' then path else p)"

fun show_metadata_error :: "MetadataError \<Rightarrow> string" where
  "show_metadata_error (AlreadyExists n) = ''metadata for '' @ quote n @ '' already exists''"
| "show_metadata_error (MetadataError.NotFound n) = ''metadata for '' @ quote n @ '' not found''"

definition show_collect_result :: "CollectResult \<Rightarrow> string" where
  "show_collect_result r =
     ''=== Garbage Collection Result ==='' @ newline
     @ ''Unreferenced blocks: '' @ show_nat (unreferenced_count r) @ newline
     @ ''Reclaimable bytes:   '' @ show_nat (unat (reclaimable_bytes r)) @ newline
     @ (if unreferenced_hashes r = []
        then ''Status: Nothing to clean '' @ dash @ '' all blocks are referenced.'' @ newline
        else ''Status: '' @ show_nat (unreferenced_count r) @ '' blocks can be safely removed.'' @ newline)"

definition show_storage_stats :: "StorageStats \<Rightarrow> string" where
  "show_storage_stats s =
     ''=== Storage Statistics ==='' @ newline
     @ ''Registered files:    '' @ show_nat (total_files s) @ newline
     @ ''Total blocks:        '' @ show_nat (stat_total_blocks s) @ newline
     @ ''Total size:          '' @ show_nat (unat (total_bytes s)) @ '' bytes'' @ newline
     @ ''Versioned files:     '' @ show_nat (versioned_files s) @ newline
     @ ''Total versions:      '' @ show_nat (stat_total_versions s) @ newline
     @ ''Referenced blocks:   '' @ show_nat (referenced_blocks s) @ newline
     @ ''Unreferenced blocks: '' @ show_nat (unreferenced_blocks s) @ newline
     @ ''Reclaimable space:  '' @ show_nat (unat (stat_reclaimable_bytes s)) @ '' bytes'' @ newline"

section \<open>Sending\<close>

definition cmd_send ::
  "cmd_codec \<Rightarrow> cmd_env \<Rightarrow> nat \<Rightarrow> string \<Rightarrow> string \<Rightarrow> cmd_world \<Rightarrow> cmd_world \<times> (string, unit) result" where
  "cmd_send K X n tgt msg w =
     (case vpn_send (k_hex K) mem_resolve (x_send X n) tgt (str_bytes msg) (w_vpn w) of
        (r, out, res) \<Rightarrow>
          (w\<lparr>w_vpn := r, w_sent := w_sent w @ out\<rparr>,
           (case res of Inl e \<Rightarrow> Inl (show_router_error (k_hex K) e) | Inr _ \<Rightarrow> Inr ())))"

text \<open>Sending blocks in order, up to the first failure.\<close>

fun send_all_blocks ::
  "cmd_codec \<Rightarrow> cmd_env \<Rightarrow> string \<Rightarrow> string \<Rightarrow> nat \<Rightarrow> string list \<Rightarrow> cmd_world \<Rightarrow> cmd_world \<times> (string, unit) result" where
  "send_all_blocks K X what tgt i [] w = (w, Inr ())"
| "send_all_blocks K X what tgt i (msg # msgs) w =
     (case cmd_send K X i tgt msg w of
        (w, Inl e) \<Rightarrow> (w, Inl (''failed to send '' @ what @ '' '' @ show_nat i @ '': '' @ e))
      | (w, Inr _) \<Rightarrow> send_all_blocks K X what tgt (Suc i) msgs w)"

definition block_message ::
  "cmd_codec \<Rightarrow> string \<Rightarrow> string \<Rightarrow> nat \<Rightarrow> nat \<Rightarrow> nat \<Rightarrow> bytes option \<Rightarrow> bytes \<Rightarrow> string" where
  "block_message K kind file_name total_chunks file_size i non dat =
     kind @ k_block_json K \<lparr>bp_file_name = file_name, bp_chunk_index = i, bp_total_chunks = total_chunks,
       bp_file_size = file_size, bp_nonce_hex = map_option (hex_encode (k_hex K)) non,
       bp_data_hex = hex_encode (k_hex K) dat\<rparr>"

section \<open>Backup\<close>

definition block_locations :: "u64 \<Rightarrow> string \<Rightarrow> FileManifest \<Rightarrow> BlockLocation list" where
  "block_locations now node m =
     map (\<lambda>c. \<lparr>bl_hash = cm_hash c, bl_index = cm_index c, bl_nodes = [node], bl_last_synced = now\<rparr>) (fm_chunks m)"

text \<open>
  Registering the metadata: in a new, empty store over the default file, which is written with
  what the store then contains.
\<close>

definition register_backup ::
  "cmd_env \<Rightarrow> string \<Rightarrow> FileManifest \<Rightarrow> nat \<Rightarrow> string \<Rightarrow> cmd_world \<Rightarrow> cmd_world \<times> (string, unit) result" where
  "register_backup X file_name man file_size node w =
     (case register_file (x_unix X) (x_metadata_save X) file_name (fm_file_hash man) (of_nat file_size) (Some man)
             (block_locations (x_unix X) node man) node metadata_new of
        (s, Inl e) \<Rightarrow> (w, Inl (''failed to register metadata: '' @ show_metadata_error e))
      | (s, Inr _) \<Rightarrow> ((if x_metadata_save X then w\<lparr>w_metadata := Some (ms_entries s)\<rparr> else w), Inr ()))"

definition backup_report :: "string \<Rightarrow> string \<Rightarrow> string \<Rightarrow> nat \<Rightarrow> nat \<Rightarrow> string \<Rightarrow> string" where
  "backup_report path tgt file_name file_size chunk_count key_hex =
     ''Backup completed: '' @ path @ '' '' @ arrow @ '' '' @ tgt
     @ newline @ ''  File: '' @ file_name @ '' ('' @ show_nat file_size @ '' bytes)''
     @ newline @ ''  Chunks: '' @ show_nat chunk_count
     @ newline @ ''  Encrypted: yes''
     @ newline @ ''  Key: '' @ truncate_hex key_hex 16"

text \<open>\<open>None\<close> is the panic of an encryption that fails.\<close>

definition execute_backup ::
  "cmd_codec \<Rightarrow> cmd_env \<Rightarrow> string \<Rightarrow> string \<Rightarrow> cmd_world \<Rightarrow> cmd_world \<times> (string, string) result option" where
  "execute_backup K X path tgt w =
     (case parse_address tgt of
        Inl e \<Rightarrow> (w, Some (Inl (''invalid target address: '' @ show_address_error e)))
      | Inr parsed \<Rightarrow>
          let file_name = path_file_name path in
          (case x_read X path of
             Inl e \<Rightarrow> (w, Some (Inl (''failed to read '' @ quote path @ '': '' @ e)))
           | Inr dat \<Rightarrow>
               let file_size = length dat;
                   (man, chunks) = chunk_data (k_sha256 K) chunker_new dat;
                   chunk_count = length chunks;
                   encryptor = encryptor_new (x_key X)
               in (case encrypt_from (k_aead K) encryptor 0 (zip (map (x_random X) [0..<chunk_count]) chunks) of
                     None \<Rightarrow> (w, None)
                   | Some encrypted \<Rightarrow>
                       let msgs = map (\<lambda>(i, c). block_message K ''BACKUP_CHUNK:'' file_name chunk_count file_size i
                                          (Some (ec_nonce c)) (ec_data c)) (enumerate 0 encrypted) in
                       (case send_all_blocks K X ''chunk'' tgt 0 msgs w of
                          (w, Inl e) \<Rightarrow> (w, Some (Inl e))
                        | (w, Inr _) \<Rightarrow>
                            (case k_manifest_json K man of
                               Inl e \<Rightarrow> (w, Some (Inl (''failed to serialize manifest: '' @ e)))
                             | Inr json \<Rightarrow>
                                 (case cmd_send K X chunk_count tgt (''BACKUP_META:'' @ file_name @ '':'' @ json) w of
                                    (w, Inl e) \<Rightarrow> (w, Some (Inl (''failed to send metadata: '' @ e)))
                                  | (w, Inr _) \<Rightarrow>
                                      (case register_backup X file_name man file_size (addr_name parsed) w of
                                         (w, Inl e) \<Rightarrow> (w, Some (Inl e))
                                       | (w, Inr _) \<Rightarrow>
                                           (w, Some (Inr (backup_report path tgt file_name file_size chunk_count
                                              (hex_encode (k_hex K) (x_key X))))))))))))"

section \<open>Restore\<close>

text \<open>
  The first text among the calls that the waiting listener accepts; it removes the beginning, as often
  as it occurs.
\<close>

definition await :: "string \<Rightarrow> (DataListener \<times> string \<times> bytes) list \<Rightarrow> string option" where
  "await prefix calls =
     (case filter (\<lambda>(l, _, dat). l = RespListener prefix \<and> utf8_valid dat \<and> starts_with prefix (bytes_str dat)) calls of
        [] \<Rightarrow> None
      | (_, _, dat) # _ \<Rightarrow> Some (trim_start_matches prefix (bytes_str dat)))"

definition cmd_listen :: "string \<Rightarrow> cmd_world \<Rightarrow> cmd_world" where
  "cmd_listen prefix w = w\<lparr>w_vpn := register_listener (RespListener prefix) (w_vpn w)\<rparr>"

text \<open>What the answer to a request for a block says.\<close>

definition chunk_answer :: "cmd_codec \<Rightarrow> string \<Rightarrow> (string, bytes) result" where
  "chunk_answer K resp =
     (case k_data_hex K resp of
        Inl e \<Rightarrow> Inl (''invalid chunk response: '' @ e)
      | Inr None \<Rightarrow> Inl ''missing data_hex in chunk response''
      | Inr (Some h) \<Rightarrow>
          (case hex_decode (k_hex K) h of
             Inl e \<Rightarrow> Inl (''invalid hex data: '' @ k_hex_error K e)
           | Inr raw \<Rightarrow> Inr raw))"

definition chunk_tag :: "cmd_env \<Rightarrow> nat \<Rightarrow> string" where
  "chunk_tag X i = ''restore-chunk-'' @ show_nat i @ ''-'' @ show_nat (unat (x_tag X (Suc i)))"

definition chunk_prefix :: "cmd_env \<Rightarrow> nat \<Rightarrow> string" where
  "chunk_prefix X i = ''RESTORE_CHUNK_RESP:'' @ chunk_tag X i @ '':''"

definition chunk_received :: "cmd_codec \<Rightarrow> cmd_env \<Rightarrow> nat \<Rightarrow> (string, bytes) result" where
  "chunk_received K X i =
     and_then (ok_or (''timeout waiting for chunk '' @ show_nat i) (await (chunk_prefix X i) (x_calls X (Suc i))))
       (chunk_answer K)"

text \<open>One block: request number \<open>i + 1\<close> of the command.\<close>

definition fetch_chunk ::
  "cmd_codec \<Rightarrow> cmd_env \<Rightarrow> string \<Rightarrow> string \<Rightarrow> nat \<Rightarrow> cmd_world \<Rightarrow> cmd_world \<times> (string, bytes) result" where
  "fetch_chunk K X node_addr remote_path i w =
     (case cmd_send K X (Suc i) node_addr (''RESTORE_GET_CHUNK:'' @ chunk_tag X i @ '':'' @ remote_path)
             (cmd_listen (chunk_prefix X i) w) of
        (w, Inl e) \<Rightarrow> (w, Inl (''failed to request chunk '' @ show_nat i @ '': '' @ e))
      | (w, Inr _) \<Rightarrow> (w, chunk_received K X i))"

fun fetch_chunks ::
  "cmd_codec \<Rightarrow> cmd_env \<Rightarrow> string \<Rightarrow> string \<Rightarrow> nat list \<Rightarrow> cmd_world \<Rightarrow> cmd_world \<times> (string, bytes list) result" where
  "fetch_chunks K X node_addr remote_path [] w = (w, Inr [])"
| "fetch_chunks K X node_addr remote_path (i # is) w =
     (case fetch_chunk K X node_addr remote_path i w of
        (w, Inl e) \<Rightarrow> (w, Inl e)
      | (w, Inr raw) \<Rightarrow>
          (case fetch_chunks K X node_addr remote_path is w of
             (w, Inl e) \<Rightarrow> (w, Inl e)
           | (w, Inr raws) \<Rightarrow> (w, Inr (raw # raws))))"

definition meta_tag :: "cmd_env \<Rightarrow> string" where
  "meta_tag X = ''restore-meta-'' @ show_nat (unat (x_tag X 0))"

definition meta_prefix :: "cmd_env \<Rightarrow> string" where
  "meta_prefix X = ''RESTORE_META_RESP:'' @ meta_tag X @ '':''"

definition manifest_received :: "cmd_codec \<Rightarrow> cmd_env \<Rightarrow> (string, FileManifest) result" where
  "manifest_received K X =
     and_then (ok_or ''timeout waiting for metadata response'' (await (meta_prefix X) (x_calls X 0)))
       (\<lambda>json. case k_manifest_parse K json of Inl e \<Rightarrow> Inl (''failed to parse manifest: '' @ e) | Inr man \<Rightarrow> Inr man)"

definition request_manifest ::
  "cmd_codec \<Rightarrow> cmd_env \<Rightarrow> string \<Rightarrow> string \<Rightarrow> cmd_world \<Rightarrow> cmd_world \<times> (string, FileManifest) result" where
  "request_manifest K X node_addr remote_path w =
     (case cmd_send K X 0 node_addr (''RESTORE_GET_META:'' @ meta_tag X @ '':'' @ remote_path)
             (cmd_listen (meta_prefix X) w) of
        (w, Inl e) \<Rightarrow> (w, Inl (''failed to request metadata: '' @ e))
      | (w, Inr _) \<Rightarrow> (w, manifest_received K X))"

text \<open>Writing the result, after the parent directory was created.\<close>

definition write_file :: "cmd_env \<Rightarrow> string \<Rightarrow> bytes \<Rightarrow> cmd_world \<Rightarrow> cmd_world \<times> (string, unit) result" where
  "write_file X path dat w =
     (case x_parent_error X path of
        Some (dir, e) \<Rightarrow> (w, Inl (''failed to create directory '' @ quote dir @ '': '' @ e))
      | None \<Rightarrow>
          (case x_write X path of
             Inl e \<Rightarrow> (w, Inl (''failed to write '' @ quote path @ '': '' @ e))
           | Inr _ \<Rightarrow> (w\<lparr>w_files := w_files w @ [(path, dat)]\<rparr>, Inr ())))"

definition restore_report :: "string \<Rightarrow> string \<Rightarrow> string \<Rightarrow> FileManifest \<Rightarrow> string" where
  "restore_report tgt local_path file_name man =
     ''Restore completed: '' @ tgt @ '' '' @ arrow @ '' '' @ local_path
     @ newline @ ''  File: '' @ file_name @ '' ('' @ show_nat (unat (fm_file_size man)) @ '' bytes)''
     @ newline @ ''  Chunks: '' @ show_nat (length (fm_chunks man))
     @ newline @ ''  Integrity: verified''"

definition execute_restore ::
  "cmd_codec \<Rightarrow> cmd_env \<Rightarrow> string \<Rightarrow> string \<Rightarrow> cmd_world \<Rightarrow> cmd_world \<times> (string, string) result" where
  "execute_restore K X tgt local_path w =
     (let parts = splitn3 (CHR '':'') tgt in
      if length parts < 3 then (w, Inl (''invalid restore target '' @ quote tgt @ '': expected node:<name>:<path>''))
      else
        let node_addr = ''node:'' @ parts ! 1; remote_path = parts ! 2; file_name = path_file_name remote_path in
        (case request_manifest K X node_addr remote_path w of
           (w, Inl e) \<Rightarrow> (w, Inl e)
         | (w, Inr man) \<Rightarrow>
             (case fetch_chunks K X node_addr remote_path [0..<length (fm_chunks man)] w of
                (w, Inl e) \<Rightarrow> (w, Inl e)
              | (w, Inr raws) \<Rightarrow>
                  (case reassemble (k_sha256 K) man raws of
                     Inl e \<Rightarrow> (w, Inl (''reassembly failed: '' @ e))
                   | Inr restored \<Rightarrow>
                       (case write_file X local_path restored w of
                          (w, Inl e) \<Rightarrow> (w, Inl e)
                        | (w, Inr _) \<Rightarrow>
                            (w, Inr (restore_report tgt local_path file_name man)))))))"

section \<open>Storage commands\<close>

definition load_versions :: "cmd_env \<Rightarrow> cmd_world \<Rightarrow> (string, VersionManager) result" where
  "load_versions X w =
     version_load_from_file ''version_store.json'' (case x_versions_load X of Some e \<Rightarrow> Inl e | None \<Rightarrow> Inr (w_versions w))"

definition load_metadata :: "cmd_env \<Rightarrow> cmd_world \<Rightarrow> (string, MetadataStore) result" where
  "load_metadata X w =
     (case x_metadata_load X of
        Some e \<Rightarrow> Inl e
      | None \<Rightarrow> Inr (case w_metadata w of None \<Rightarrow> metadata_new | Some es \<Rightarrow> \<lparr>ms_entries = es, ms_dirty = False\<rparr>))"

text \<open>The version file after a change of the manager, which \<open>saved\<close> it or not, and the flush.\<close>

definition flush_versions ::
  "cmd_env \<Rightarrow> bool \<Rightarrow> string \<Rightarrow> VersionManager \<Rightarrow> cmd_world \<Rightarrow> cmd_world \<times> (string, unit) result" where
  "flush_versions X saved text vm w =
     (let w = (if saved \<or> x_versions_flush X = Inr () then w\<lparr>w_versions := Some (store vm)\<rparr> else w)
      in case snd (version_save (x_versions_flush X) vm) of
           Inl e \<Rightarrow> (w, Inl (text @ e)) | Inr _ \<Rightarrow> (w, Inr ()))"

definition execute_storage_gc :: "cmd_env \<Rightarrow> cmd_world \<Rightarrow> (string, string) result" where
  "execute_storage_gc X w =
     and_then (load_versions X w) (\<lambda>vm. and_then (load_metadata X w) (\<lambda>ms. Inr (show_collect_result (collect vm ms))))"

text \<open>\<open>None\<close>: the command does not return.\<close>

definition execute_storage_prune ::
  "cmd_env \<Rightarrow> nat \<Rightarrow> cmd_world \<Rightarrow> cmd_world \<times> (string, string) result option" where
  "execute_storage_prune X keep w =
     (case load_versions X w of
        Inl e \<Rightarrow> (w, Some (Inl e))
      | Inr vm \<Rightarrow>
          (case prune_old_versions keep vm of
             None \<Rightarrow> (w, None)
           | Some (vm, Inl e) \<Rightarrow> (w, Some (Inl e))
           | Some (vm, Inr pruned) \<Rightarrow>
               (case flush_versions X False ''failed to save version store: '' vm w of
                  (w, Inl e) \<Rightarrow> (w, Some (Inl e))
                | (w, Inr _) \<Rightarrow>
                    (w, Some (Inr (''Pruned '' @ show_nat pruned @ '' version(s). Kept '' @ show_nat keep
                       @ '' most recent version(s) per file.''))))))"

definition execute_storage_stats :: "cmd_env \<Rightarrow> cmd_world \<Rightarrow> (string, string) result" where
  "execute_storage_stats X w =
     and_then (load_versions X w) (\<lambda>vm. and_then (load_metadata X w) (\<lambda>ms. Inr (show_storage_stats (storage_stats vm ms))))"

definition increment_report :: "string \<Rightarrow> string \<Rightarrow> string \<Rightarrow> nat \<Rightarrow> nat \<Rightarrow> string \<Rightarrow> string" where
  "increment_report path tgt file_name file_size chunk_count vid =
     ''Incremental sync completed: '' @ path @ '' '' @ arrow @ '' '' @ tgt
     @ newline @ ''  File: '' @ file_name @ '' ('' @ show_nat file_size @ '' bytes)''
     @ newline @ ''  Chunks: '' @ show_nat chunk_count
     @ newline @ ''  Version: '' @ vid"

definition execute_increment ::
  "cmd_codec \<Rightarrow> cmd_env \<Rightarrow> string \<Rightarrow> string \<Rightarrow> cmd_world \<Rightarrow> cmd_world \<times> (string, string) result" where
  "execute_increment K X path tgt w =
     (case parse_address tgt of
        Inl e \<Rightarrow> (w, Inl (''invalid target address: '' @ show_address_error e))
      | Inr parsed \<Rightarrow>
          let file_name = path_file_name path in
          (case x_read X path of
             Inl e \<Rightarrow> (w, Inl (''failed to read '' @ quote path @ '': '' @ e))
           | Inr dat \<Rightarrow>
               let file_size = length dat;
                   (man, chunks) = chunk_data (k_sha256 K) chunker_new dat;
                   chunk_count = length chunks;
                   msgs = map (\<lambda>(i, c). block_message K ''INCR_BLOCK:'' file_name chunk_count file_size i None c)
                            (enumerate 0 chunks)
               in (case send_all_blocks K X ''block'' tgt 0 msgs w of
                     (w, Inl e) \<Rightarrow> (w, Inl e)
                   | (w, Inr _) \<Rightarrow>
                       (case k_manifest_json K man of
                          Inl e \<Rightarrow> (w, Inl (''failed to serialize manifest: '' @ e))
                        | Inr json \<Rightarrow>
                            (case cmd_send K X chunk_count tgt (''INCR_MANIFEST:'' @ file_name @ '':'' @ json) w of
                               (w, Inl e) \<Rightarrow> (w, Inl (''failed to send manifest: '' @ e))
                             | (w, Inr _) \<Rightarrow>
                                 (case load_versions X w of
                                    Inl e \<Rightarrow> (w, Inl e)
                                  | Inr vm \<Rightarrow>
                                      (case create_snapshot (x_unix X) (x_versions_save X) file_name man ''increment'' vm of
                                         (vm, Inl e) \<Rightarrow> (w, Inl e)
                                       | (vm, Inr vid) \<Rightarrow>
                                           (case flush_versions X (x_versions_save X = Inr ()) ''failed to save version: '' vm w of
                                              (w, Inl e) \<Rightarrow> (w, Inl e)
                                            | (w, Inr _) \<Rightarrow>
                                                (w, Inr (increment_report path tgt file_name file_size chunk_count vid))))))))))"

definition version_row :: "VersionEntry \<Rightarrow> string" where
  "version_row v =
     ljust 22 (version_id v) @ '' '' @ ljust 20 (timestamp v) @ '' ''
     @ ljust 10 (show_nat (unat (fm_file_size (manifest v)))) @ '' '' @ annotation v @ newline"

definition execute_version :: "cmd_env \<Rightarrow> string \<Rightarrow> cmd_world \<Rightarrow> (string, string) result" where
  "execute_version X f w =
     and_then (load_versions X w)
       (\<lambda>vm. let vs = list_versions f vm
             in if vs = [] then Inr (''No versions found for '' @ quote f @ ''.'')
                else Inr (''Version history for '' @ quote f @ '':'' @ newline
                   @ ljust 22 ''Version ID'' @ '' '' @ ljust 20 ''Timestamp'' @ '' '' @ ljust 10 ''Size'' @ '' Annotation'' @ newline
                   @ replicate 80 (CHR ''-'') @ newline @ concat (map version_row vs)))"

section \<open>Network commands\<close>

definition execute_cmd_subcommand ::
  "cmd_codec \<Rightarrow> cmd_env \<Rightarrow> string \<Rightarrow> string \<Rightarrow> cmd_world \<Rightarrow> cmd_world \<times> (string, string) result" where
  "execute_cmd_subcommand K X tgt command w =
     (case resolve_address (mem_resolve (x_now X)) tgt (w_resolver w) of
        (s, Inl e) \<Rightarrow> (w\<lparr>w_resolver := s\<rparr>, Inl (''address resolution failed: '' @ show_address_error e))
      | (s, Inr (parsed, node_id)) \<Rightarrow>
          (case cmd_send K X 0 tgt (''CMD:'' @ command) (w\<lparr>w_resolver := s\<rparr>) of
             (w, Inl e) \<Rightarrow> (w, Inl (''send failed: '' @ e))
           | (w, Inr _) \<Rightarrow>
               (w, Inr (''Command sent to '' @ addr_name parsed @ '' ('' @ to_hex (k_hex K) node_id @ ''): '' @ command))))"

definition execute_ping ::
  "cmd_codec \<Rightarrow> cmd_env \<Rightarrow> string \<Rightarrow> cmd_world \<Rightarrow> cmd_world \<times> (string, string) result" where
  "execute_ping K X tgt w =
     (case ping_node (k_hex K) mem_resolve (x_send X 0) (x_tag X 0) (x_calls X 0) (x_elapsed X) tgt (w_vpn w) of
        (r, out, res) \<Rightarrow>
          (w\<lparr>w_vpn := r, w_sent := w_sent w @ out\<rparr>,
           (case res of
              Inr rtt \<Rightarrow>
                Inr (''PONG from '' @ tgt @ '': time='' @ k_ms K rtt @ ''ms seq=1 ttl=64 time=''
                   @ show_nat (unat (x_unix_end X - x_unix X)) @ ''s'')
            | Inl Timeout \<Rightarrow> Inl (''Request timeout for '' @ tgt)
            | Inl e \<Rightarrow> Inl (''Ping failed for '' @ tgt @ '': '' @ show_router_error (k_hex K) e))))"

definition node_row :: "hex_codec \<Rightarrow> string \<times> NodeID \<times> ConnectionType \<times> NodeStatus \<Rightarrow> string" where
  "node_row H row =
     (case row of (name, i, ct, st) \<Rightarrow>
        ljust 20 name @ '' '' @ ljust 20 (take 16 (to_hex H i)) @ '' '' @ show_connection_type ct @ '' ''
        @ show_node_status st @ newline)"

definition execute_nodes :: "cmd_codec \<Rightarrow> cmd_world \<Rightarrow> (string, string) result" where
  "execute_nodes K w =
     (let nodes = known_nodes_info (w_vpn w)
      in if nodes = [] then Inr ''No known nodes.''
         else Inr (''Known nodes:'' @ newline
            @ ljust 20 ''Name'' @ '' '' @ ljust 20 ''Node ID'' @ '' '' @ ljust 10 ''Type'' @ '' '' @ ljust 10 ''Status'' @ newline
            @ replicate 60 (CHR ''-'') @ newline @ concat (map (node_row (k_hex K)) nodes)))"

definition execute_status :: "cmd_codec \<Rightarrow> cmd_env \<Rightarrow> cmd_world \<Rightarrow> (string, string) result" where
  "execute_status K X w =
     (let r = w_vpn w; st = vpn_status (x_unix X) r;
          online = length (filter (\<lambda>(_, _, _, s). s = Online) (known_nodes_info r))
      in Inr (''=== VPN Status ==='' @ newline
         @ ''Node Name:     '' @ vr_name r @ newline
         @ ''Node ID:       '' @ to_hex (k_hex K) (vr_id r) @ newline
         @ ''Status:        '' @ show_node_status (node_status st) @ newline
         @ ''Connection:    '' @ show_connection_type (status_connection st) @ newline
         @ ''Known Nodes:   '' @ show_nat (known_node_total st) @ newline
         @ ''Online Nodes:  '' @ show_nat online @ newline
         @ ''Active Routes: '' @ show_nat (RouterStatus.active_routes st) @ newline
         @ ''Last Update:   '' @ show_nat (unat (last_update st)) @ newline))"

definition execute_cmd ::
  "cmd_codec \<Rightarrow> cmd_env \<Rightarrow> string list \<Rightarrow> cmd_world \<Rightarrow> cmd_world \<times> (string, string) result option" where
  "execute_cmd K X args w =
     (let returns = (\<lambda>(w, r). (w, Some r)) in
      case parse_command args of
        Inl e \<Rightarrow> (w, Some (Inl e))
      | Inr (Cmd tgt command) \<Rightarrow> returns (execute_cmd_subcommand K X tgt command w)
      | Inr (Ping tgt) \<Rightarrow> returns (execute_ping K X tgt w)
      | Inr Nodes \<Rightarrow> (w, Some (execute_nodes K w))
      | Inr Status \<Rightarrow> (w, Some (execute_status K X w))
      | Inr (Backup path tgt) \<Rightarrow> execute_backup K X path tgt w
      | Inr (Restore tgt path) \<Rightarrow> returns (execute_restore K X tgt path w)
      | Inr StorageGC \<Rightarrow> (w, Some (execute_storage_gc X w))
      | Inr (StoragePrune keep) \<Rightarrow> execute_storage_prune X keep w
      | Inr StorageStatsCmd \<Rightarrow> (w, Some (execute_storage_stats X w))
      | Inr (Increment path tgt) \<Rightarrow> returns (execute_increment K X path tgt w)
      | Inr (Version f) \<Rightarrow> (w, Some (execute_version X f w)))"

section \<open>Restoring a file\<close>

lemma cmd_send_frame [simp]:
  "w_files (fst (cmd_send K X n tgt msg w)) = w_files w"
  "w_versions (fst (cmd_send K X n tgt msg w)) = w_versions w"
  "w_metadata (fst (cmd_send K X n tgt msg w)) = w_metadata w"
  by (simp_all add: cmd_send_def split: prod.splits)

lemma cmd_listen_frame [simp]: "w_files (cmd_listen prefix w) = w_files w"
  by (simp add: cmd_listen_def)

lemma fetch_chunk_result:
  assumes "fetch_chunk K X node path i w = (w', r)"
  shows "w_files w' = w_files w" "r = chunk_received K X i \<or> (\<exists>e. r = Inl e \<and> starts_with ''failed to '' e)"
proof -
  let ?s = "cmd_send K X (Suc i) node (''RESTORE_GET_CHUNK:'' @ chunk_tag X i @ '':'' @ path) (cmd_listen (chunk_prefix X i) w)"
  have "w' = fst ?s" using assms by (auto simp: fetch_chunk_def split: prod.splits sum.splits)
  then show "w_files w' = w_files w" by simp
  show "r = chunk_received K X i \<or> (\<exists>e. r = Inl e \<and> starts_with ''failed to '' e)"
    using assms by (auto simp: fetch_chunk_def starts_with_def split: prod.splits sum.splits)
qed

text \<open>What the network part of a restore yields: the blocks that were answered, or an error.\<close>

lemma fetch_chunks_files: "w_files (fst (fetch_chunks K X node path is w)) = w_files w"
proof (induction "is" arbitrary: w)
  case (Cons i "is")
  obtain w1 r1 where f: "fetch_chunk K X node path i w = (w1, r1)" by force
  with fetch_chunk_result(1) [OF f] Cons.IH [of w1] show ?case by (auto split: sum.splits prod.splits)
qed simp

lemma fetch_chunks_Inr:
  "fetch_chunks K X node path is w = (w', Inr raws) \<Longrightarrow> map (chunk_received K X) is = map Inr raws"
proof (induction "is" arbitrary: w w' raws)
  case (Cons i "is")
  obtain w1 r1 where f: "fetch_chunk K X node path i w = (w1, r1)" by force
  with Cons.prems obtain raw raws' where "r1 = Inr raw" "raws = raw # raws'"
    "fetch_chunks K X node path is w1 = (w', Inr raws')"
    by (auto split: sum.splits prod.splits)
  with Cons.IH fetch_chunk_result(2) [OF f] show ?case by auto
qed simp

lemma fetch_chunks_Inl:
  "fetch_chunks K X node path is w = (w', Inl e) \<Longrightarrow> \<forall>i \<in> set is. \<exists>raw. chunk_received K X i = Inr raw
     \<Longrightarrow> starts_with ''failed to '' e"
proof (induction "is" arbitrary: w w')
  case (Cons i "is")
  obtain w1 r1 where f: "fetch_chunk K X node path i w = (w1, r1)" by force
  note one = fetch_chunk_result(2) [OF f]
  show ?case
  proof (cases r1)
    case (Inl e1)
    with Cons.prems f one show ?thesis by auto
  next
    case (Inr raw)
    with Cons.prems(1) f have "fetch_chunks K X node path is w1 = (w', Inl e)"
      by (auto split: sum.splits prod.splits)
    with Cons show ?thesis by auto
  qed
qed simp

lemma request_manifest_result:
  assumes "request_manifest K X node path w = (w', r)"
  shows "w_files w' = w_files w" "r = manifest_received K X \<or> (\<exists>e. r = Inl e \<and> starts_with ''failed to '' e)"
proof -
  let ?s = "cmd_send K X 0 node (''RESTORE_GET_META:'' @ meta_tag X @ '':'' @ path) (cmd_listen (meta_prefix X) w)"
  have "w' = fst ?s" using assms by (auto simp: request_manifest_def split: prod.splits sum.splits)
  then show "w_files w' = w_files w" by simp
  show "r = manifest_received K X \<or> (\<exists>e. r = Inl e \<and> starts_with ''failed to '' e)"
    using assms by (auto simp: request_manifest_def starts_with_def split: prod.splits sum.splits)
qed

text \<open>The network part and the rest of a restore.\<close>

lemma execute_restore_cases:
  assumes "execute_restore K X tgt p w = (w', r)"
  obtains (early) e where "r = Inl e" "w_files w' = w_files w"
      "manifest_received K X = Inr man \<Longrightarrow> \<forall>i < length (fm_chunks man). \<exists>raw. chunk_received K X i = Inr raw
         \<Longrightarrow> 3 \<le> length (splitn3 (CHR '':'') tgt) \<Longrightarrow> starts_with ''failed to '' e"
    | (late) man raws w1 where "manifest_received K X = Inr man"
      "map (chunk_received K X) [0..<length (fm_chunks man)] = map Inr raws" "w_files w1 = w_files w"
      "(w', r) =
         (case reassemble (k_sha256 K) man raws of
            Inl e \<Rightarrow> (w1, Inl (''reassembly failed: '' @ e))
          | Inr restored \<Rightarrow>
              (case write_file X p restored w1 of
                 (w, Inl e) \<Rightarrow> (w, Inl e)
               | (w, Inr _) \<Rightarrow>
                   (w, Inr (restore_report tgt p (path_file_name (splitn3 (CHR '':'') tgt ! 2)) man))))"
proof -
  show ?thesis
  proof (cases "length (splitn3 (CHR '':'') tgt) < 3")
    case True
    with assms show ?thesis by (intro early) (auto simp: execute_restore_def)
  next
    case False
    let ?node = "''node:'' @ splitn3 (CHR '':'') tgt ! 1" and ?path = "splitn3 (CHR '':'') tgt ! 2"
    obtain w0 r0 where m: "request_manifest K X ?node ?path w = (w0, r0)" by force
    note M = request_manifest_result [OF m]
    show ?thesis
    proof (cases r0)
      case (Inl e)
      with False m assms have "r = Inl e" "w' = w0" by (simp_all add: execute_restore_def Let_def)
      with M Inl show ?thesis by (intro early [of e]) auto
    next
      case (Inr man')
      then have man: "manifest_received K X = Inr man'" using M(2) by auto
      obtain w1 r1 where f: "fetch_chunks K X ?node ?path [0..<length (fm_chunks man')] w0 = (w1, r1)" by force
      have files: "w_files w1 = w_files w" using fetch_chunks_files [of K X ?node ?path _ w0] f M(1) by (metis fst_conv)
      show ?thesis
      proof (cases r1)
        case (Inl e)
        with False m f Inr assms have "r = Inl e" "w' = w1" by (simp_all add: execute_restore_def Let_def)
        with files man fetch_chunks_Inl [of K X ?node ?path _ w0 w1 e] f Inl show ?thesis
          by (intro early [of e]) auto
      next
        case (Inr raws)
        with files man fetch_chunks_Inr [of K X ?node ?path _ w0 w1 raws] f False m \<open>r0 = Inr man'\<close> assms
        show ?thesis by (intro late [of man' raws w1]) (simp_all add: execute_restore_def Let_def)
      qed
    qed
  qed
qed

lemma write_file_cases:
  "write_file X p dat w = (w', r) \<Longrightarrow>
     (case r of Inr _ \<Rightarrow> w_files w' = w_files w @ [(p, dat)] | Inl e \<Rightarrow> starts_with ''failed to '' e \<and> w' = w)"
  by (auto simp: write_file_def starts_with_def split: option.splits sum.splits prod.splits)

lemma chunker_new_pos: "0 < chunk_size chunker_new"
  by (simp add: chunker_new_def DEFAULT_CHUNK_SIZE_def)

lemma restore_outcome:
  assumes "execute_restore K X tgt p w = (w', r)"
  shows "case r of
      Inl e \<Rightarrow> w_files w' = w_files w
    | Inr report \<Rightarrow> \<exists>man raws. manifest_received K X = Inr man
        \<and> map (chunk_received K X) [0..<length (fm_chunks man)] = map Inr raws
        \<and> list_all2 (\<lambda>c raw. of_nat (length raw) = cm_size c) (fm_chunks man) raws
        \<and> k_sha256 K (concat raws) = fm_file_hash man \<and> w_files w' = w_files w @ [(p, concat raws)]"
proof (rule execute_restore_cases [OF assms])
  fix man raws w1
  assume l: "manifest_received K X = Inr man" "map (chunk_received K X) [0..<length (fm_chunks man)] = map Inr raws"
    "w_files w1 = w_files w"
    "(w', r) = (case reassemble (k_sha256 K) man raws of Inl e \<Rightarrow> (w1, Inl (''reassembly failed: '' @ e))
       | Inr restored \<Rightarrow> (case write_file X p restored w1 of (w, Inl e) \<Rightarrow> (w, Inl e)
           | (w, Inr _) \<Rightarrow> (w, Inr (restore_report tgt p (path_file_name (splitn3 (CHR '':'') tgt ! 2)) man))))"
  show ?thesis
  proof (cases "reassemble (k_sha256 K) man raws")
    case (Inl e)
    with l(3,4) show ?thesis by simp
  next
    case (Inr restored)
    obtain w2 r2 where wf: "write_file X p restored w1 = (w2, r2)" by force
    have re: "length raws = length (fm_chunks man)" "restored = concat raws"
        "list_all2 (\<lambda>c raw. of_nat (length raw) = cm_size c) (fm_chunks man) raws" "k_sha256 K (concat raws) = fm_file_hash man"
      using Inr by (auto simp: reassemble_Inr)
    show ?thesis
      using l re wf write_file_cases [OF wf] Inr by (cases r2) auto
  qed
qed simp

text \<open>
  A restore writes at most one file, and only what was verified: when it reports success, the file
  written is the concatenation of the blocks that were answered, each with the size the manifest
  gives it, and has the hash of the manifest; when it reports an error nothing was written.
\<close>

theorem restore_writes_verified:
  assumes "execute_restore K X tgt p w = (w', r)"
  shows "case r of
      Inl e \<Rightarrow> w_files w' = w_files w
    | Inr report \<Rightarrow> \<exists>man raws. manifest_received K X = Inr man
        \<and> map (chunk_received K X) [0..<length (fm_chunks man)] = map Inr raws
        \<and> list_all2 (\<lambda>c raw. of_nat (length raw) = cm_size c) (fm_chunks man) raws
        \<and> k_sha256 K (concat raws) = fm_file_hash man \<and> w_files w' = w_files w @ [(p, concat raws)]"
  using restore_outcome [OF assms] .

text \<open>
  C13. A node that answers with the manifest and the plain blocks of a file, as an incremental upload
  sent them, has the file restored: the restored file is exactly the file. The only other outcomes are
  a request that could not be sent and a file that could not be written, and then no file is written.
\<close>

theorem restore_of_uploaded_file:
  assumes "execute_restore K X tgt p w = (w', r)" "3 \<le> length (splitn3 (CHR '':'') tgt)"
    and man: "manifest_received K X = Inr (fst (chunk_data (k_sha256 K) chunker_new dat))"
    and blocks: "\<And>i. i < num_chunks DEFAULT_CHUNK_SIZE dat \<Longrightarrow> chunk_received K X i = Inr (block DEFAULT_CHUNK_SIZE dat i)"
  shows "case r of Inr report \<Rightarrow> w_files w' = w_files w @ [(p, dat)]
    | Inl e \<Rightarrow> starts_with ''failed to '' e \<and> w_files w' = w_files w"
proof (rule execute_restore_cases [OF assms(1), where man = "fst (chunk_data (k_sha256 K) chunker_new dat)"])
  let ?cd = "chunk_data (k_sha256 K) chunker_new dat"
  have len: "length (fm_chunks (fst ?cd)) = num_chunks DEFAULT_CHUNK_SIZE dat"
    by (simp add: chunk_data_simps) (simp add: chunker_new_def)
  {
    fix e assume "r = Inl e" "w_files w' = w_files w"
      "manifest_received K X = Inr (fst ?cd) \<Longrightarrow> \<forall>i < length (fm_chunks (fst ?cd)). \<exists>raw. chunk_received K X i = Inr raw
         \<Longrightarrow> 3 \<le> length (splitn3 (CHR '':'') tgt) \<Longrightarrow> starts_with ''failed to '' e"
    then show ?thesis using man blocks assms(2) by (simp add: len)
  next
    fix man' raws w1
    assume l: "manifest_received K X = Inr man'" "map (chunk_received K X) [0..<length (fm_chunks man')] = map Inr raws"
      "w_files w1 = w_files w"
      "(w', r) = (case reassemble (k_sha256 K) man' raws of Inl e \<Rightarrow> (w1, Inl (''reassembly failed: '' @ e))
         | Inr restored \<Rightarrow> (case write_file X p restored w1 of (w, Inl e) \<Rightarrow> (w, Inl e)
             | (w, Inr _) \<Rightarrow> (w, Inr (restore_report tgt p (path_file_name (splitn3 (CHR '':'') tgt ! 2)) man'))))"
    then have m: "man' = fst ?cd" using man by simp
    have "map (chunk_received K X) [0..<num_chunks DEFAULT_CHUNK_SIZE dat] =
        map (\<lambda>i. Inr (block DEFAULT_CHUNK_SIZE dat i)) [0..<num_chunks DEFAULT_CHUNK_SIZE dat]"
      by (rule map_cong) (use blocks in auto)
    then have "(map Inr raws :: (string, bytes) result list) = map Inr (map (block DEFAULT_CHUNK_SIZE dat) [0..<num_chunks DEFAULT_CHUNK_SIZE dat])"
      using l(2) unfolding m len by (simp only: map_map comp_def)
    then have "raws = map (block DEFAULT_CHUNK_SIZE dat) [0..<num_chunks DEFAULT_CHUNK_SIZE dat]"
      by (metis (no_types, lifting) inj_Inr map_injective)
    then have "raws = snd ?cd" by (simp add: chunk_data_simps) (simp add: chunker_new_def)
    then have re: "reassemble (k_sha256 K) man' raws = Inr dat"
      using reassemble_chunk_data [OF chunker_new_pos] m by simp
    obtain w2 r2 where wf: "write_file X p dat w1 = (w2, r2)" by force
    with l re write_file_cases [OF wf] show ?thesis by (cases r2) auto
  }
qed

text \<open>
  The blocks of a backup cannot be restored: if the node answers with exactly the manifest and the
  encrypted blocks that the backup sent, the restore of a file that is not empty ends with an
  error, because nothing decrypts them (the key was not kept) and their sizes are not those of
  the manifest.
\<close>

theorem backup_is_not_restored:
  assumes "execute_restore K X tgt p w = (w', r)" and A: "aead_correct A" and ne: "dat \<noteq> []"
    and man: "manifest_received K X = Inr (fst (chunk_data (k_sha256 K) chunker_new dat))"
    and enc: "encrypt_from A e 0 (zip rnds (snd (chunk_data (k_sha256 K) chunker_new dat))) = Some cs"
      "length rnds = num_chunks DEFAULT_CHUNK_SIZE dat"
    and blocks: "\<And>i. i < num_chunks DEFAULT_CHUNK_SIZE dat \<Longrightarrow> chunk_received K X i = Inr (ec_data (cs ! i))"
  shows "w_files w' = w_files w \<and> (\<exists>err. r = Inl err)"
proof (rule ccontr)
  let ?cd = "chunk_data (k_sha256 K) chunker_new dat" and ?n = "num_chunks DEFAULT_CHUNK_SIZE dat"
  have len: "length (fm_chunks (fst ?cd)) = ?n" "snd ?cd = map (block DEFAULT_CHUNK_SIZE dat) [0..<?n]"
    by (simp_all add: chunk_data_simps) (simp_all add: chunker_new_def)
  have n: "0 < ?n" using ne by (simp add: num_chunks_def DEFAULT_CHUNK_SIZE_def div_greater_zero_iff Suc_leI)
  assume "\<not> ?thesis"
  with restore_outcome [OF assms(1)] obtain report raws where "r = Inr report"
    and v: "map (chunk_received K X) [0..<?n] = map Inr raws"
      "list_all2 (\<lambda>c raw. of_nat (length raw) = cm_size c) (fm_chunks (fst ?cd)) raws"
    by (cases r) (auto simp: man len)
  have "length raws = ?n" using v(1) by (metis length_map length_upt diff_zero)
  then have raw: "raws ! 0 = ec_data (cs ! 0)"
    using v(1) blocks [OF n] n by (metis (no_types, lifting) nth_map nth_upt add_0 length_upt diff_zero sum.inject(2))
  have "chunk_encrypt A (rnds ! 0) e (of_nat 0) (block DEFAULT_CHUNK_SIZE dat 0) = Some (cs ! 0)"
    using decrypt_encrypt_from(3) [OF A enc(1), of 0] n enc(2) by (simp add: len)
  then have "length (raws ! 0) = length (block DEFAULT_CHUNK_SIZE dat 0) + 16"
    using chunk_encrypt_SomeD(2) [OF A] raw by (simp add: TAG_LEN_def)
  moreover have "cm_size (fm_chunks (fst ?cd) ! 0) = of_nat (length (block DEFAULT_CHUNK_SIZE dat 0))"
    using n by (simp add: chunk_data_def chunker_new_def Let_def)
  moreover have "of_nat (length (raws ! 0)) = cm_size (fm_chunks (fst ?cd) ! 0)"
    using v(2) n len(1) by (simp add: list_all2_conv_all_nth)
  ultimately show False by (simp add: of_nat_add)
qed

section \<open>What the commands leave in the databases\<close>

lemma send_all_blocks_frame:
  "send_all_blocks K X what tgt i msgs w = (w', r) \<Longrightarrow>
     w_versions w' = w_versions w \<and> w_metadata w' = w_metadata w \<and> w_files w' = w_files w"
proof (induction msgs arbitrary: i w)
  case (Cons m ms)
  obtain w1 r1 where s: "cmd_send K X i tgt m w = (w1, r1)" by force
  then have "w_versions w1 = w_versions w" "w_metadata w1 = w_metadata w" "w_files w1 = w_files w"
    using cmd_send_frame [of K X i tgt m w] by simp_all
  with Cons s show ?case by (fastforce split: sum.splits)
qed simp

text \<open>
  Every backup starts from an empty metadata store and writes it over the database: after a
  backup that reports success and could write the file, the database knows this file and no other.
\<close>

theorem backup_forgets_other_files:
  assumes "execute_backup K X path tgt w = (w', Some (Inr report))" "x_metadata_save X"
  shows "\<exists>e dat. x_read X path = Inr dat \<and> w_metadata w' = Some [(path_file_name path, e)]
    \<and> me_manifest e = Some (fst (chunk_data (k_sha256 K) chunker_new dat))"
proof -
  obtain dat where d: "x_read X path = Inr dat"
    using assms(1) by (auto simp: execute_backup_def Let_def split: sum.splits)
  obtain man bs where cd: "chunk_data (k_sha256 K) chunker_new dat = (man, bs)" by force
  obtain node w1 where r: "register_backup X (path_file_name path) man (length dat) node w1 = (w', Inr ())"
    using assms(1) d cd by (auto simp: execute_backup_def Let_def split: sum.splits option.splits prod.splits)
  from r assms(2) d cd show ?thesis
    by (auto simp: register_backup_def register_file_def metadata_new_def hm_contains_def hm_insert_def mark_and_save_def
        new_entry_def split: sum.splits if_splits)
qed

lemma increment_Inr:
  assumes "execute_increment K X path tgt w = (w', Inr report)"
  obtains dat vm vm' vid where "x_read X path = Inr dat" "load_versions X w = Inr vm"
    "create_snapshot (x_unix X) (x_versions_save X) (path_file_name path)
       (fst (chunk_data (k_sha256 K) chunker_new dat)) ''increment'' vm = (vm', Inr vid)"
    "w_versions w' = Some (store vm')"
proof -
  obtain dat where d: "x_read X path = Inr dat"
    using assms by (auto simp: execute_increment_def Let_def split: sum.splits)
  let ?man = "fst (chunk_data (k_sha256 K) chunker_new dat)" and ?f = "path_file_name path"
  obtain msgs w1 json n w2 vm vm' vid where s: "send_all_blocks K X ''block'' tgt 0 msgs w = (w1, Inr ())"
      "cmd_send K X n tgt (''INCR_MANIFEST:'' @ ?f @ '':'' @ json) w1 = (w2, Inr ())" "load_versions X w2 = Inr vm"
    and c: "create_snapshot (x_unix X) (x_versions_save X) ?f ?man ''increment'' vm = (vm', Inr vid)"
      "flush_versions X (x_versions_save X = Inr ()) ''failed to save version: '' vm' w2 = (w', Inr ())"
    using assms d by (auto simp: execute_increment_def Let_def split: sum.splits prod.splits)
  have "w_versions w2 = w_versions w"
    using send_all_blocks_frame [OF s(1)] cmd_send_frame(2) s(2) by (metis fst_conv)
  then have "load_versions X w = Inr vm" using s(3) by (simp add: load_versions_def split: option.splits)
  moreover have "w_versions w' = Some (store vm')"
    using c(2) by (auto simp: flush_versions_def version_save_def Let_def split: sum.splits if_splits)
  ultimately show ?thesis using that d c(1) by blast
qed

lemma load_versions_Some:
  "w_versions w = Some st \<Longrightarrow> x_versions_load X = None \<Longrightarrow> \<exists>vm. load_versions X w = Inr vm \<and> store vm = st"
  by (simp add: load_versions_def version_load_from_file_def)

lemma list_versions_store: "store s = store t \<Longrightarrow> list_versions f s = list_versions f t"
  by (simp add: list_versions_def)

text \<open>
  C14. A successful incremental upload is recorded: whoever loads the version database afterwards finds
  one more version of the file, the newest, with the manifest of the data read, and the
  histories of before otherwise; and the garbage collector then reports none of the blocks
  uploaded, whatever the metadata store contains.
\<close>

theorem increment_is_recorded:
  assumes "execute_increment K X path tgt w = (w', Inr report)" "x_versions_load X' = None"
  shows "\<exists>dat vm vm' v. x_read X path = Inr dat \<and> load_versions X w = Inr vm \<and> load_versions X' w' = Inr vm'
    \<and> manifest v = fst (chunk_data (k_sha256 K) chunker_new dat)
    \<and> (\<forall>g. list_versions g vm' =
         (if g = path_file_name path then v # list_versions g vm else list_versions g vm))
    \<and> (\<forall>ms. \<forall>c \<in> set (fm_chunks (manifest v)). cm_hash c \<notin> set (unreferenced_hashes (collect vm' ms)))"
proof -
  let ?f = "path_file_name path"
  obtain dat vm vm1 vid where i: "x_read X path = Inr dat" "load_versions X w = Inr vm"
    "create_snapshot (x_unix X) (x_versions_save X) ?f
       (fst (chunk_data (k_sha256 K) chunker_new dat)) ''increment'' vm = (vm1, Inr vid)" "w_versions w' = Some (store vm1)"
    by (rule increment_Inr [OF assms(1)])
  obtain vm' where vm': "load_versions X' w' = Inr vm'" "store vm' = store vm1"
    using load_versions_Some [OF i(4) assms(2)] by blast
  from list_versions_create [OF i(3)] obtain v where v: "manifest v = fst (chunk_data (k_sha256 K) chunker_new dat)"
    "\<And>g. list_versions g vm1 = (if g = ?f then v # list_versions ?f vm else list_versions g vm)" by blast
  have l: "list_versions g vm' = (if g = ?f then v # list_versions g vm else list_versions g vm)" for g
    using v(2) list_versions_store [OF vm'(2)] by simp
  then have "v \<in> set (list_versions ?f vm')" by simp
  then have "cm_hash c \<in> set (collect_referenced_blocks vm')" if "c \<in> set (fm_chunks (manifest v))" for c
    using that by (auto simp: set_referenced)
  then show ?thesis
    using i(1,2) vm'(1) v(1) l by (auto simp: collect_def Let_def)
qed

text \<open>
  Version identifiers are unique only within one process: the number they end in restarts whenever
  the database is loaded. Two incremental uploads of a file within one second get the same
  identifier, and the older one can no longer be restored under it.
\<close>

theorem increments_share_a_version:
  assumes "execute_increment K X path tgt w = (w1, Inr report)" "execute_increment K' X' path' tgt' w1 = (w2, Inr report')"
    and "path_file_name path' = path_file_name path" "x_unix X' = x_unix X" "x_versions_load X'' = None"
  shows "\<exists>vm v v' vs. load_versions X'' w2 = Inr vm \<and> list_versions (path_file_name path) vm = v' # v # vs
    \<and> version_id v' = version_id v
    \<and> restore_version (path_file_name path) (version_id v) vm = Inr (manifest v')"
proof -
  let ?f = "path_file_name path"
  obtain dat vm vm1 vid where i: "load_versions X w = Inr vm"
    "create_snapshot (x_unix X) (x_versions_save X) ?f
       (fst (chunk_data (k_sha256 K) chunker_new dat)) ''increment'' vm = (vm1, Inr vid)" "w_versions w1 = Some (store vm1)"
    by (rule increment_Inr [OF assms(1)])
  obtain dat' vm' vm2 vid' where j: "load_versions X' w1 = Inr vm'"
    "create_snapshot (x_unix X) (x_versions_save X') ?f
       (fst (chunk_data (k_sha256 K') chunker_new dat')) ''increment'' vm' = (vm2, Inr vid')" "w_versions w2 = Some (store vm2)"
    using increment_Inr [OF assms(2)] assms(3,4) by metis
  have seq: "seq_counter vm = 0" "seq_counter vm' = 0" "store vm' = store vm1"
    using i(1,3) j(1) by (auto simp: load_versions_def version_load_from_file_def and_then_eq_Inr split: option.splits)
  then have vid: "vid' = vid" using i(2) j(2) by (simp add: create_snapshot_def Let_def)
  obtain v where v: "version_id v = vid" "list_versions ?f vm1 = v # list_versions ?f vm"
    using list_versions_create [OF i(2)] by auto
  obtain v' where v': "version_id v' = vid'" "list_versions ?f vm2 = v' # list_versions ?f vm'"
    using list_versions_create [OF j(2)] by auto
  obtain vm3 where vm3: "load_versions X'' w2 = Inr vm3" "store vm3 = store vm2"
    using load_versions_Some [OF j(3) assms(5)] by blast
  have "list_versions ?f vm3 = v' # v # list_versions ?f vm"
    using v(2) v'(2) list_versions_store [OF vm3(2)] list_versions_store [OF seq(3)] by simp
  moreover from this have "restore_version ?f (version_id v) vm3 = Inr (manifest v')"
    using vid v(1) v'(1) by (simp add: restore_version_def get_version_list)
  moreover have "version_id v' = version_id v" using vid v(1) v'(1) by simp
  ultimately show ?thesis using vm3(1) by blast
qed

text \<open>
  Pruning from the command line: the command returns exactly when there is nothing to prune; otherwise
  it neither returns nor changes the database.
\<close>

theorem storage_prune_hangs:
  assumes "load_versions X w = Inr vm" "hm_ok (files (store vm))" "0 < keep"
  shows "(snd (execute_storage_prune X keep w) = None \<longleftrightarrow> (\<exists>f. keep < length (list_versions f vm)))
    \<and> (snd (execute_storage_prune X keep w) = None \<longrightarrow> fst (execute_storage_prune X keep w) = w)"
proof -
  have "prune_all_versions keep vm = None \<longleftrightarrow> (\<exists>f. keep < length (list_versions f vm))"
    by (rule prune_all_blocks [OF assms(2)])
  then show ?thesis
    using assms(1) by (auto simp: execute_storage_prune_def prune_old_versions_def split: option.splits prod.splits sum.splits)
qed

section \<open>Examples\<close>

definition demo_codec :: cmd_codec where
  "demo_codec = \<lparr>k_hex = plain_hex, k_hex_error = (\<lambda>_. []), k_sha256 = (\<lambda>b. b), k_aead = demo_aead,
     k_block_json = bp_data_hex, k_manifest_json = (\<lambda>_. Inr ''{}''),
     k_manifest_parse = (\<lambda>_. Inr (fst (chunk_data (\<lambda>b. b) chunker_new [7]))), k_data_hex = (\<lambda>s. Inr (Some s)),
     k_ms = show_nat\<rparr>"

definition demo_cmd :: cmd_env where
  "demo_cmd = \<lparr>x_now = 0, x_unix = 0, x_unix_end = 0, x_read = (\<lambda>_. Inr []), x_send = (\<lambda>_. demo_vpn_env), x_key = [],
     x_random = (\<lambda>_. []), x_tag = (\<lambda>_. 0), x_calls = (\<lambda>_. []), x_elapsed = 0, x_parent_error = (\<lambda>_. None),
     x_write = (\<lambda>_. Inr ()), x_versions_load = None, x_metadata_load = None, x_versions_save = Inr (),
     x_versions_flush = Inr (), x_metadata_save = True\<rparr>"

definition demo_world :: cmd_world where
  "demo_world = \<lparr>w_vpn = demo_vpn, w_resolver = vr_resolver demo_vpn, w_sent = [], w_files = [], w_versions = None,
     w_metadata = None\<rparr>"

text \<open>The peer answers with the manifest and with the bytes \<open>raw\<close> as the first block.\<close>

definition answering :: "bytes \<Rightarrow> cmd_env" where
  "answering raw = demo_cmd\<lparr>x_calls := (\<lambda>n. case n of
      0 \<Rightarrow> [(RespListener (meta_prefix demo_cmd), [], str_bytes (meta_prefix demo_cmd @ ''{}''))]
    | Suc i \<Rightarrow> [(RespListener (chunk_prefix demo_cmd i), [], str_bytes (chunk_prefix demo_cmd i @ bytes_str raw))])\<rparr>"

lemma demo_prefixes:
  "meta_prefix (answering raw) = meta_prefix demo_cmd" "chunk_prefix (answering raw) i = chunk_prefix demo_cmd i"
  "meta_prefix demo_cmd = ''RESTORE_META_RESP:restore-meta-0:''"
  "chunk_prefix demo_cmd 0 = ''RESTORE_CHUNK_RESP:restore-chunk-0-0:''"
  by (simp_all add: meta_prefix_def meta_tag_def chunk_prefix_def chunk_tag_def answering_def demo_cmd_def
      show_nat.simps digit_char_def char_of_def bit_0)

lemma answering_calls:
  "x_calls (answering raw) 0 = [(RespListener (meta_prefix demo_cmd), [], str_bytes (meta_prefix demo_cmd @ ''{}''))]"
  "x_calls (answering raw) (Suc 0) = [(RespListener (chunk_prefix demo_cmd 0), [], str_bytes (chunk_prefix demo_cmd 0 @ bytes_str raw))]"
  by (simp_all add: answering_def)

lemma await_answer:
  "utf8_valid (str_bytes (p @ s)) \<Longrightarrow> await p [(RespListener p, src, str_bytes (p @ s))] = Some (trim_start_matches p (p @ s))"
  by (simp add: await_def)

lemma demo_answers:
  assumes "utf8_valid (str_bytes (chunk_prefix demo_cmd 0) @ raw)" "raw = [] \<or> hd raw = 7"
  shows "manifest_received demo_codec (answering raw) = Inr (fst (chunk_data (\<lambda>b. b) chunker_new [7]))"
    "chunk_received demo_codec (answering raw) 0 = Inr raw"
proof -
  have "utf8_valid (str_bytes (meta_prefix demo_cmd @ ''{}''))" unfolding demo_prefixes(3) by code_simp
  then show "manifest_received demo_codec (answering raw) = Inr (fst (chunk_data (\<lambda>b. b) chunker_new [7]))"
    unfolding manifest_received_def answering_calls demo_prefixes(1) by (subst await_answer) (simp_all add: demo_codec_def)
  let ?p = "chunk_prefix demo_cmd 0"
  have "char_of (7 :: nat) \<noteq> CHR ''R''" by code_simp
  then have "\<not> starts_with ?p (bytes_str raw)"
    using assms(2) by (cases raw) (auto simp: starts_with_def demo_prefixes bytes_str_def)
  then have "trim_start_matches ?p (?p @ bytes_str raw) = bytes_str raw"
    by (intro trim_start_once) (simp_all add: demo_prefixes(4))
  moreover have "utf8_valid (str_bytes (?p @ bytes_str raw))" using assms(1) by (simp only: str_bytes_append str_bytes_str)
  ultimately show "chunk_received demo_codec (answering raw) 0 = Inr raw"
    unfolding chunk_received_def answering_calls demo_prefixes(2)
    by (subst await_answer) (simp_all add: chunk_answer_def demo_codec_def plain_hex_def)
qed

lemma demo_block: "num_chunks DEFAULT_CHUNK_SIZE [7] = 1" "block DEFAULT_CHUNK_SIZE [7] 0 = [7]"
  by (simp_all add: num_chunks_def block_eq DEFAULT_CHUNK_SIZE_def)

lemma demo_target: "length (splitn3 (CHR '':'') ''node:b:f'') = 3"
  by (simp add: splitn3_def)

theorem restore_writes_verified_witness:
  "\<exists>w' r. execute_restore demo_codec (answering [7]) ''node:b:f'' ''g'' demo_world = (w', r)
    \<and> (\<forall>e. r = Inl e \<longrightarrow> w_files w' = [])"
proof -
  obtain w' r where e: "execute_restore demo_codec (answering [7]) ''node:b:f'' ''g'' demo_world = (w', r)" by force
  from restore_writes_verified [OF e] have "\<forall>e. r = Inl e \<longrightarrow> w_files w' = []" by (auto simp: demo_world_def)
  with e show ?thesis by blast
qed

lemma utf8_7: "utf8_valid (str_bytes (chunk_prefix demo_cmd 0) @ [7])"
  unfolding demo_prefixes(4) by code_simp

theorem restore_of_uploaded_file_witness:
  "\<exists>w' r. execute_restore demo_codec (answering [7]) ''node:b:f'' ''g'' demo_world = (w', r)
    \<and> (\<forall>report. r = Inr report \<longrightarrow> w_files w' = [(''g'', [7])]) \<and> (\<forall>e. r = Inl e \<longrightarrow> starts_with ''failed to '' e)"
proof -
  obtain w' r where e: "execute_restore demo_codec (answering [7]) ''node:b:f'' ''g'' demo_world = (w', r)" by force
  have sha: "k_sha256 demo_codec = (\<lambda>b. b)" by (simp add: demo_codec_def)
  have "chunk_received demo_codec (answering [7]) i = Inr (block DEFAULT_CHUNK_SIZE [7] i)"
    if "i < num_chunks DEFAULT_CHUNK_SIZE [7]" for i
    using that demo_answers(2) [OF utf8_7] by (simp add: demo_block)
  moreover have "manifest_received demo_codec (answering [7]) = Inr (fst (chunk_data (k_sha256 demo_codec) chunker_new [7]))"
    using demo_answers(1) [OF utf8_7] by (simp add: sha)
  ultimately have "case r of Inr report \<Rightarrow> w_files w' = w_files demo_world @ [(''g'', [7])]
      | Inl e \<Rightarrow> starts_with ''failed to '' e \<and> w_files w' = w_files demo_world"
    using restore_of_uploaded_file [OF e, where dat = "[7]"] demo_target by simp
  with e show ?thesis by (cases r) (auto simp: demo_world_def)
qed

lemma utf8_7_zeros: "utf8_valid (str_bytes (chunk_prefix demo_cmd 0) @ 7 # replicate 16 0)"
  unfolding demo_prefixes(4) by code_simp

theorem backup_is_not_restored_witness:
  "\<exists>w' e. execute_restore demo_codec (answering (7 # replicate 16 0)) ''node:b:f'' ''g'' demo_world = (w', Inl e) \<and> w_files w' = []"
proof -
  let ?X = "answering (7 # replicate 16 0)"
  obtain w' r where e: "execute_restore demo_codec ?X ''node:b:f'' ''g'' demo_world = (w', r)" by force
  have sha: "k_sha256 demo_codec = (\<lambda>b. b)" by (simp add: demo_codec_def)
  have cd: "snd (chunk_data (\<lambda>b. b) chunker_new [7]) = [[7]]"
    using demo_block by (simp add: chunk_data_simps) (simp add: chunker_new_def)
  have enc: "encrypt_from demo_aead (encryptor_new []) 0 (zip [[]] [[7]]) =
      Some [\<lparr>ec_nonce = le_bytes 4 (0 :: u32), ec_data = 7 # replicate 16 0\<rparr>]"
    by (simp add: chunk_encrypt_def demo_aead_def Let_def)
  have "w_files w' = w_files demo_world \<and> (\<exists>err. r = Inl err)"
  proof (rule backup_is_not_restored [OF e demo_aead_correct, where dat = "[7]" and rnds = "[[]]"])
    show "encrypt_from demo_aead (encryptor_new []) 0 (zip [[]] (snd (chunk_data (k_sha256 demo_codec) chunker_new [7]))) =
        Some [\<lparr>ec_nonce = le_bytes 4 (0 :: u32), ec_data = 7 # replicate 16 0\<rparr>]"
      unfolding sha cd by (rule enc)
    show "manifest_received demo_codec ?X = Inr (fst (chunk_data (k_sha256 demo_codec) chunker_new [7]))"
      using demo_answers(1) [OF utf8_7_zeros] by (simp add: sha)
    show "chunk_received demo_codec ?X i = Inr (ec_data ([\<lparr>ec_nonce = le_bytes 4 (0 :: u32), ec_data = 7 # replicate 16 0\<rparr>] ! i))"
      if "i < num_chunks DEFAULT_CHUNK_SIZE [7]" for i
      using that demo_answers(2) [OF utf8_7_zeros] by (simp add: demo_block)
  qed (simp_all add: demo_block)
  with e show ?thesis by (auto simp: demo_world_def)
qed

lemmas demo_send_defs = cmd_send_def vpn_send_def parse_node_b mem_resolve_def mem_cache_def is_expired_def try_lan_def
  update_node_def relay_node_send_def relay_send_def send_message_def get_connection_def return_connection_def
  demo_vpn_defs demo_cmd_def demo_codec_def demo_world_def plain_hex_def

lemma demo_empty_file: "chunk_data sha chunker_new [] =
  (\<lparr>fm_file_hash = sha [], fm_file_size = 0, fm_chunks = [], fm_chunk_size = of_nat DEFAULT_CHUNK_SIZE\<rparr>, [])"
  by (simp add: chunk_data_def num_chunks_def chunker_new_def Let_def)

lemma demo_path: "path_file_name ''f'' = ''f''"
  by (simp add: path_file_name_def)

lemma demo_backup_runs:
  "\<exists>w' report. execute_backup demo_codec demo_cmd ''f'' ''node:b'' demo_world = (w', Some (Inr report))"
  by (simp add: execute_backup_def demo_path demo_empty_file register_backup_def register_file_def metadata_new_def
      hm_contains_def demo_send_defs Let_def)

theorem backup_forgets_other_files_witness:
  "\<exists>w' e. w' = fst (execute_backup demo_codec demo_cmd ''f'' ''node:b'' demo_world) \<and> w_metadata w' = Some [(''f'', e)]"
proof -
  obtain w' report where e: "execute_backup demo_codec demo_cmd ''f'' ''node:b'' demo_world = (w', Some (Inr report))"
    using demo_backup_runs by blast
  have "x_metadata_save demo_cmd" by (simp add: demo_cmd_def)
  from backup_forgets_other_files [OF e this] show ?thesis using e demo_path by auto
qed

lemma demo_increment_runs:
  "\<exists>w1 r1 w2 r2. execute_increment demo_codec demo_cmd ''f'' ''node:b'' demo_world = (w1, Inr r1)
     \<and> execute_increment demo_codec demo_cmd ''f'' ''node:b'' w1 = (w2, Inr r2)"
  by (simp add: execute_increment_def demo_path demo_empty_file load_versions_def version_load_from_file_def
      create_snapshot_def flush_versions_def version_save_def save_if_dirty_def demo_send_defs Let_def)

theorem increment_is_recorded_witness:
  "\<exists>w1 vm v. w1 = fst (execute_increment demo_codec demo_cmd ''f'' ''node:b'' demo_world)
     \<and> load_versions demo_cmd w1 = Inr vm \<and> list_versions ''f'' vm = [v]"
proof -
  obtain w1 r1 where e: "execute_increment demo_codec demo_cmd ''f'' ''node:b'' demo_world = (w1, Inr r1)"
    using demo_increment_runs by blast
  have l: "x_versions_load demo_cmd = None" by (simp add: demo_cmd_def)
  have "list_versions ''f'' vm = []" if "load_versions demo_cmd demo_world = Inr vm" for vm
    using that by (auto simp: load_versions_def version_load_from_file_def demo_cmd_def demo_world_def list_versions_def)
  with increment_is_recorded [OF e l] show ?thesis using e demo_path by fastforce
qed

theorem increments_share_a_version_witness:
  "\<exists>w2 vm v v'. load_versions demo_cmd w2 = Inr vm \<and> list_versions ''f'' vm = [v', v] \<and> version_id v' = version_id v"
proof -
  obtain w1 r1 w2 r2 where e: "execute_increment demo_codec demo_cmd ''f'' ''node:b'' demo_world = (w1, Inr r1)"
    "execute_increment demo_codec demo_cmd ''f'' ''node:b'' w1 = (w2, Inr r2)"
    using demo_increment_runs by blast
  have "x_versions_load demo_cmd = None" by (simp add: demo_cmd_def)
  from increments_share_a_version [OF e refl refl this] demo_path obtain vm v v' vs where
    r: "load_versions demo_cmd w2 = Inr vm" "list_versions ''f'' vm = v' # v # vs" "version_id v' = version_id v" by auto
  have "length (list_versions ''f'' vm) = 2"
    using e r(1) by (auto simp: execute_increment_def demo_path demo_empty_file load_versions_def version_load_from_file_def
      create_snapshot_def flush_versions_def version_save_def save_if_dirty_def demo_send_defs list_versions_def
      get_or_create_def fv_push_def file_versions_new_def Let_def)
  with r show ?thesis by (cases vs) auto
qed

theorem storage_prune_hangs_witness:
  "\<exists>w1 w2. snd (execute_storage_prune demo_cmd 1 w2) = None \<and> fst (execute_increment demo_codec demo_cmd ''f'' ''node:b'' w1) = w2"
proof -
  obtain w1 r1 w2 r2 where e: "execute_increment demo_codec demo_cmd ''f'' ''node:b'' demo_world = (w1, Inr r1)"
    "execute_increment demo_codec demo_cmd ''f'' ''node:b'' w1 = (w2, Inr r2)"
    using demo_increment_runs by blast
  obtain vm where vm: "load_versions demo_cmd w2 = Inr vm" "hm_ok (files (store vm))" "length (list_versions ''f'' vm) = 2"
    using e by (auto simp: execute_increment_def demo_path demo_empty_file load_versions_def version_load_from_file_def
      create_snapshot_def flush_versions_def version_save_def save_if_dirty_def demo_send_defs list_versions_def
      get_or_create_def fv_push_def file_versions_new_def Let_def)
  from storage_prune_hangs [OF vm(1,2), of 1] vm(3) have "snd (execute_storage_prune demo_cmd 1 w2) = None"
    by (metis one_less_numeral_iff semiring_norm(76) zero_less_one)
  with e(2) show ?thesis by (metis fst_conv)
qed

end
