(* ===== verification/Host.thy ===== *)
theory Host
  imports Text
begin

text \<open>
  The machine on which the daemon runs its native commands. The operating system is a
  parameter: a state \<open>'h\<close> and the record \<open>'h os\<close> of the calls of \<^verbatim>\<open>std::fs\<close>,
  \<^verbatim>\<open>std::process\<close>, \<^verbatim>\<open>std::env\<close> and \<^verbatim>\<open>std::net\<close> that the commands make. Reading does not change
  the state; writing and running a program return the state after it. An error of a call is the
  text of its \<^verbatim>\<open>Display\<close>. A program that never ends is \<open>None\<close>. \<open>os_linux\<close> says for which target
  the daemon was compiled (\<^verbatim>\<open>cfg(target_os = "linux")\<close>).

  A command yields an \<open>outcome\<close>: the pair of \<^verbatim>\<open>run_native_cmd\<close>, a panic, or no return at all.
\<close>

datatype outcome = Returns bytes "u32 option" | Panics | Hangs

text \<open>\<^verbatim>\<open>std::process::Output\<close>; the exit code is missing when a signal ended the program.\<close>

record prog_output =
  o_stdout :: bytes
  o_stderr :: bytes
  o_code :: "u32 option"

record metadata =
  md_dir :: bool
  md_symlink :: bool
  md_mode :: u32
  md_nlink :: u64
  md_uid :: u32
  md_gid :: u32
  md_size :: u64
  md_blocks :: u64
  md_blksize :: u64
  md_dev :: u64
  md_rdev :: u64
  md_ino :: u64
  md_permissions :: string

text \<open>Writing a file fails when it is opened or while the data is written.\<close>

datatype write_result = FileWritten | OpenError string | WriteError string

record 'h os =
  os_linux :: bool
  os_read :: "'h \<Rightarrow> string \<Rightarrow> string + bytes"
  os_read_dir :: "'h \<Rightarrow> string \<Rightarrow> string + bytes list"
  os_is_dir :: "'h \<Rightarrow> string \<Rightarrow> bool"
  os_exists :: "'h \<Rightarrow> string \<Rightarrow> bool"
  os_metadata :: "'h \<Rightarrow> string \<Rightarrow> metadata option"
  os_entry_metadata :: "'h \<Rightarrow> string \<Rightarrow> metadata option"
  os_write :: "'h \<Rightarrow> string \<Rightarrow> bytes \<Rightarrow> 'h \<times> write_result"
  os_append :: "'h \<Rightarrow> string \<Rightarrow> bytes \<Rightarrow> 'h \<times> write_result"
  os_remove_file :: "'h \<Rightarrow> string \<Rightarrow> 'h \<times> string option"
  os_create_dir_all :: "'h \<Rightarrow> string \<Rightarrow> 'h"
  os_symlink :: "'h \<Rightarrow> string \<Rightarrow> string \<Rightarrow> 'h"
  os_var :: "'h \<Rightarrow> string \<Rightarrow> string option"
  os_output :: "'h \<Rightarrow> string \<Rightarrow> string list \<Rightarrow> ('h \<times> (string + prog_output)) option"
  os_connects :: "'h \<Rightarrow> string \<Rightarrow> bool"
  os_kmsg :: "'h \<Rightarrow> bytes option list option"

section \<open>Reading\<close>

text \<open>\<^verbatim>\<open>read_to_string\<close> refuses what is not UTF-8.\<close>

definition read_to_string :: "'h os \<Rightarrow> 'h \<Rightarrow> string \<Rightarrow> string + string" where
  "read_to_string sys h path =
     (case os_read sys h path of
        Inl e \<Rightarrow> Inl e
      | Inr d \<Rightarrow> if utf8_valid d then Inr (bytes_str d) else Inl ''stream did not contain valid UTF-8'')"

definition read_proc :: "'h os \<Rightarrow> 'h \<Rightarrow> string \<Rightarrow> string" where
  "read_proc sys h path = (case read_to_string sys h path of Inl _ \<Rightarrow> [] | Inr s \<Rightarrow> s)"

text \<open>The names of a directory, none when it cannot be read; \<^verbatim>\<open>Path::join\<close> with a name.\<close>

definition dir_names :: "'h os \<Rightarrow> 'h \<Rightarrow> string \<Rightarrow> bytes list" where
  "dir_names sys h path = (case os_read_dir sys h path of Inl _ \<Rightarrow> [] | Inr ns \<Rightarrow> ns)"

definition path_join :: "string \<Rightarrow> bytes \<Rightarrow> string" where
  "path_join p n = (if p = [] \<or> last p = CHR ''/'' then p @ bytes_str n else p @ ''/'' @ bytes_str n)"

text \<open>File names and strings are ordered bytewise.\<close>

fun bytes_le :: "bytes \<Rightarrow> bytes \<Rightarrow> bool" where
  "bytes_le [] y = True"
| "bytes_le (a # x) [] = False"
| "bytes_le (a # x) (b # y) = (a < b \<or> a = b \<and> bytes_le x y)"

lemma bytes_le_order: "reflp bytes_le" "transp bytes_le" "totalp bytes_le"
proof -
  have refl: "bytes_le x x" for x by (induction x) auto
  have trans: "bytes_le x y \<Longrightarrow> bytes_le y z \<Longrightarrow> bytes_le x z" for x y z
    by (induction x y arbitrary: z rule: bytes_le.induct) (case_tac z; auto)+
  have tot: "bytes_le x y \<or> bytes_le y x" for x y by (induction x y rule: bytes_le.induct) auto
  show "reflp bytes_le" "transp bytes_le" "totalp bytes_le"
    using refl trans tot unfolding reflp_def transp_def totalp_on_def by blast+
qed

lemma bytes_le_antisym: "bytes_le x y \<Longrightarrow> bytes_le y x \<Longrightarrow> x = y"
  by (induction x y rule: bytes_le.induct) (auto elim: bytes_le.elims)

section \<open>Results\<close>

definition reply :: "string \<Rightarrow> u32 \<Rightarrow> outcome" where
  "reply t code = Returns (str_bytes t) (Some code)"

text \<open>
  The shape of most commands: run a program, answer with its output and exit code, or with the
  name of the command and the error when the program could not be started.
\<close>

definition run_program :: "'h os \<Rightarrow> string \<Rightarrow> string \<Rightarrow> string list \<Rightarrow> 'h \<Rightarrow> 'h \<times> outcome" where
  "run_program sys name prog args h =
     (case os_output sys h prog args of
        None \<Rightarrow> (h, Hangs)
      | Some (h', Inr out) \<Rightarrow> (h', Returns (o_stdout out) (o_code out))
      | Some (h', Inl e) \<Rightarrow> (h', reply (name @ '' error: '' @ e @ newline) 1))"

text \<open>An optional argument, and one that is present only when its number is not zero.\<close>

definition flag :: "bool \<Rightarrow> string \<Rightarrow> string list" where
  "flag b a = (if b then [a] else [])"

definition opt_arg :: "string \<Rightarrow> string option \<Rightarrow> string list" where
  "opt_arg a v = (case v of None \<Rightarrow> [] | Some s \<Rightarrow> [a, s])"

definition num_arg :: "string \<Rightarrow> u32 \<Rightarrow> string list" where
  "num_arg a n = (if n > 0 then [a, show_u n] else [])"

lemma reply_bytes: "reply t c = Returns b x \<longleftrightarrow> b = str_bytes t \<and> x = Some c"
  by (auto simp: reply_def)

section \<open>A machine for evaluation\<close>

text \<open>
  A machine whose state is a table of files; directories are the paths that have an entry in
  \<open>dirs\<close>. It keeps the documented laws of reading and writing and is the instance on which the
  theorems about the operating system are evaluated.
\<close>

record machine =
  mc_files :: "(string \<times> bytes) list"
  mc_dirs :: "(string \<times> bytes list) list"

definition mc_put :: "string \<Rightarrow> bytes \<Rightarrow> machine \<Rightarrow> machine" where
  "mc_put p d m = m\<lparr>mc_files := (p, d) # filter (\<lambda>(q, _). q \<noteq> p) (mc_files m)\<rparr>"

definition table_os :: "machine os" where
  "table_os = \<lparr>os_linux = True,
     os_read = (\<lambda>m p. case map_of (mc_files m) p of None \<Rightarrow> Inl ''No such file or directory (os error 2)'' | Some d \<Rightarrow> Inr d),
     os_read_dir = (\<lambda>m p. case map_of (mc_dirs m) p of None \<Rightarrow> Inl ''No such file or directory (os error 2)'' | Some ns \<Rightarrow> Inr ns),
     os_is_dir = (\<lambda>m p. map_of (mc_dirs m) p \<noteq> None),
     os_exists = (\<lambda>m p. map_of (mc_files m) p \<noteq> None \<or> map_of (mc_dirs m) p \<noteq> None),
     os_metadata = (\<lambda>m p. None),
     os_entry_metadata = (\<lambda>m p. None),
     os_write = (\<lambda>m p d. (mc_put p d m, FileWritten)),
     os_append = (\<lambda>m p d. case map_of (mc_files m) p of
        None \<Rightarrow> (m, OpenError ''No such file or directory (os error 2)'')
      | Some e \<Rightarrow> (mc_put p (e @ d) m, FileWritten)),
     os_remove_file = (\<lambda>m p. if map_of (mc_files m) p = None then (m, Some ''No such file or directory (os error 2)'')
        else (m\<lparr>mc_files := filter (\<lambda>(q, _). q \<noteq> p) (mc_files m)\<rparr>, None)),
     os_create_dir_all = (\<lambda>m p. m),
     os_symlink = (\<lambda>m s l. mc_put l [] m),
     os_var = (\<lambda>m v. None),
     os_output = (\<lambda>m p as. Some (m, Inl ''No such file or directory (os error 2)'')),
     os_connects = (\<lambda>m a. False),
     os_kmsg = (\<lambda>m. None)\<rparr>"

end
