(* ===== verification/NativeFiles.thy ===== *)
theory NativeFiles
  imports Host ControlMessages
begin

text \<open>
  The native commands on files, \<^verbatim>\<open>crates/daemon/src/native_cmd/fs.rs\<close>, with the package,
  crontab and file editing commands (\<^verbatim>\<open>pkg.rs\<close>, \<^verbatim>\<open>cron.rs\<close> and the last arms of
  \<^verbatim>\<open>dispatch.rs\<close>). A command that only reads maps the machine to an \<open>outcome\<close>; one that writes
  or runs a program also returns the machine after it. \<open>grep_walk\<close> descends at most \<open>depth\<close>
  directories; deeper recursion does not return.
\<close>

section \<open>Listing and reading\<close>

definition ls_line :: "'h os \<Rightarrow> 'h \<Rightarrow> string \<Rightarrow> bool \<Rightarrow> bytes \<Rightarrow> string" where
  "ls_line sys h path long n =
     (let name = lossy_str n
      in if long \<and> os_linux sys then
           (case os_entry_metadata sys h (path_join path n) of
              Some m \<Rightarrow>
                (if md_dir m then ''d'' else if md_symlink m then ''l'' else ''-'')
                @ zero_pad 4 (show_octal (unat (md_mode m AND 0xFFF))) @ '' ''
                @ rjust 3 (show_u (md_nlink m)) @ '' '' @ rjust 8 (show_u (md_uid m)) @ '' ''
                @ rjust 8 (show_u (md_gid m)) @ '' '' @ rjust 8 (show_u (md_size m)) @ ''  '' @ name @ newline
            | None \<Rightarrow> name @ newline)
         else name @ newline)"

definition cmd_ls :: "'h os \<Rightarrow> string \<Rightarrow> bool \<Rightarrow> bool \<Rightarrow> 'h \<Rightarrow> outcome" where
  "cmd_ls sys path long all h =
     (case os_read_dir sys h path of
        Inl e \<Rightarrow> reply (''ls: '' @ path @ '': '' @ e @ newline) 2
      | Inr names \<Rightarrow>
          reply (concat (map (ls_line sys h path long)
            (filter (\<lambda>n. all \<or> \<not> starts_with ''.'' (lossy_str n)) (sort_by bytes_le names)))) 0)"

definition cmd_cat :: "'h os \<Rightarrow> string \<Rightarrow> 'h \<Rightarrow> outcome" where
  "cmd_cat sys path h =
     (case os_read sys h path of
        Inr d \<Rightarrow> Returns d (Some 0)
      | Inl e \<Rightarrow> reply (''cat: '' @ path @ '': '' @ e @ newline) 1)"

definition cmd_head :: "'h os \<Rightarrow> string \<Rightarrow> u32 \<Rightarrow> 'h \<Rightarrow> outcome" where
  "cmd_head sys path n h =
     (case read_to_string sys h path of
        Inl e \<Rightarrow> reply (''head: '' @ path @ '': '' @ e @ newline) 1
      | Inr c \<Rightarrow> reply (unlines (take (unat n) (str_lines c))) 0)"

definition cmd_tail :: "'h os \<Rightarrow> string \<Rightarrow> u32 \<Rightarrow> 'h \<Rightarrow> outcome" where
  "cmd_tail sys path n h =
     (case read_to_string sys h path of
        Inl e \<Rightarrow> reply (''tail: '' @ path @ '': '' @ e @ newline) 1
      | Inr c \<Rightarrow>
          (let l = str_lines c;
               start = (if unat n \<ge> length l then 0 else length l - unat n)
           in reply (unlines (drop start l)) 0))"

definition stat_text :: "string \<Rightarrow> metadata \<Rightarrow> string" where
  "stat_text path m =
     ''  File: '' @ path @ newline
     @ ''  Size: '' @ show_u (md_size m) @ ''    Blocks: '' @ show_u (md_blocks m)
     @ ''    IO Block: '' @ show_u (md_blksize m) @ newline
     @ ''Device: '' @ show_u (md_dev m) @ ''/'' @ show_u (md_rdev m) @ ''    Inode: '' @ show_u (md_ino m)
     @ ''    Links: '' @ show_u (md_nlink m) @ newline
     @ ''Access: ('' @ zero_pad 4 (show_octal (unat (md_mode m AND 0xFFF))) @ ''/'' @ md_permissions m
     @ '')  Uid: '' @ show_u (md_uid m) @ ''  Gid: '' @ show_u (md_gid m) @ newline"

definition cmd_stat :: "'h os \<Rightarrow> string \<Rightarrow> 'h \<Rightarrow> outcome" where
  "cmd_stat sys path h =
     (case (if os_linux sys then os_metadata sys h path else None) of
        Some m \<Rightarrow> reply (stat_text path m) 0
      | None \<Rightarrow> reply (''  File: '' @ path @ newline @ ''  (metadata unavailable on this platform)'' @ newline) 1)"

section \<open>Searching\<close>

text \<open>
  The loop over the lines of one file: \<open>show_line\<close> formats the line number and the line, the
  text collected so far and the number of matches are passed along.
\<close>

fun grep_loop ::
  "string \<Rightarrow> bool \<Rightarrow> (nat \<Rightarrow> string \<Rightarrow> string) \<Rightarrow> nat \<Rightarrow> string list \<Rightarrow> string \<Rightarrow> nat \<Rightarrow> string \<times> nat" where
  "grep_loop pat cnt show_line i [] out m = (out, m)"
| "grep_loop pat cnt show_line i (l # ls) out m =
     (if str_contains pat l
      then grep_loop pat cnt show_line (Suc i) ls (if cnt then out else out @ show_line (Suc i) l) (Suc m)
      else grep_loop pat cnt show_line (Suc i) ls out m)"

definition grep_walk_line :: "bool \<Rightarrow> string \<Rightarrow> nat \<Rightarrow> string \<Rightarrow> string" where
  "grep_walk_line ln path i l =
     (let p = lossy_str (str_bytes path)
      in if ln then p @ '':'' @ show_nat i @ '':'' @ l @ newline else p @ '':'' @ l @ newline)"

definition grep_one ::
  "'h os \<Rightarrow> 'h \<Rightarrow> string \<Rightarrow> bool \<Rightarrow> bool \<Rightarrow> string \<Rightarrow> string \<times> nat \<Rightarrow> string \<times> nat" where
  "grep_one sys h pat ln cnt path st =
     (case read_to_string sys h path of
        Inl _ \<Rightarrow> st
      | Inr c \<Rightarrow>
          (let (out, fm) = grep_loop pat cnt (grep_walk_line ln path) 0 (str_lines c) (fst st) 0
           in (out, snd st + fm)))"

fun grep_walk ::
  "nat \<Rightarrow> 'h os \<Rightarrow> 'h \<Rightarrow> string \<Rightarrow> bool \<Rightarrow> bool \<Rightarrow> string \<Rightarrow> string \<times> nat \<Rightarrow> (string \<times> nat) option" where
  "grep_walk 0 sys h pat ln cnt p st = None"
| "grep_walk (Suc d) sys h pat ln cnt p st =
     foldl (\<lambda>acc n. case acc of None \<Rightarrow> None
              | Some st \<Rightarrow>
                  (let q = path_join p n
                   in if os_is_dir sys h q then grep_walk d sys h pat ln cnt q st
                      else Some (grep_one sys h pat ln cnt q st)))
       (Some st) (dir_names sys h p)"

definition cmd_grep ::
  "nat \<Rightarrow> 'h os \<Rightarrow> string \<Rightarrow> string \<Rightarrow> bool \<Rightarrow> bool \<Rightarrow> bool \<Rightarrow> 'h \<Rightarrow> outcome" where
  "cmd_grep depth sys pat path recursive ln cnt h =
     (if \<not> recursive then
        (case read_to_string sys h path of
           Inl e \<Rightarrow> reply (''grep: '' @ path @ '': '' @ e @ newline) 2
         | Inr c \<Rightarrow>
             (let (out, m) = grep_loop pat cnt
                    (\<lambda>i l. if ln then path @ '':'' @ show_nat i @ '':'' @ l @ newline else l @ newline)
                    0 (str_lines c) [] 0
              in reply (if cnt then path @ '':'' @ show_nat m @ newline else out) (if m > 0 then 0 else 1)))
      else
        (case grep_walk depth sys h pat ln cnt path ([], 0) of
           None \<Rightarrow> Hangs
         | Some (out, t) \<Rightarrow>
             reply (if cnt then show_nat t @ newline else out) (if t > 0 then 0 else 1)))"

section \<open>Commands run as programs\<close>

definition cmd_find ::
  "'h os \<Rightarrow> string \<Rightarrow> string option \<Rightarrow> string option \<Rightarrow> u32 \<Rightarrow> 'h \<Rightarrow> 'h \<times> outcome" where
  "cmd_find sys path name kind maxdepth =
     run_program sys ''find'' ''/usr/bin/find''
       (path # num_arg ''-maxdepth'' maxdepth @ opt_arg ''-name'' name @ opt_arg ''-type'' kind)"

definition cmd_tree :: "'h os \<Rightarrow> string \<Rightarrow> u32 \<Rightarrow> bool \<Rightarrow> 'h \<Rightarrow> 'h \<times> outcome" where
  "cmd_tree sys path depth dirs_only =
     run_program sys ''tree'' ''/usr/bin/tree'' (num_arg ''-L'' depth @ flag dirs_only ''-d'' @ [path])"

definition cmd_du :: "'h os \<Rightarrow> string \<Rightarrow> bool \<Rightarrow> u32 \<Rightarrow> 'h \<Rightarrow> 'h \<times> outcome" where
  "cmd_du sys path summarize maxdepth =
     run_program sys ''du'' ''/usr/bin/du''
       (''-h'' # flag summarize ''-s'' @ num_arg ''--max-depth'' maxdepth @ [path])"

definition cmd_df :: "'h os \<Rightarrow> bool \<Rightarrow> 'h \<Rightarrow> 'h \<times> outcome" where
  "cmd_df sys human = run_program sys ''df'' ''/usr/bin/df'' (flag human ''-h'')"

definition cmd_mount :: "'h os \<Rightarrow> 'h \<Rightarrow> 'h \<times> outcome" where
  "cmd_mount sys = run_program sys ''mount'' ''/usr/bin/mount'' []"

definition cmd_mkdir :: "'h os \<Rightarrow> bool \<Rightarrow> string list \<Rightarrow> 'h \<Rightarrow> 'h \<times> outcome" where
  "cmd_mkdir sys recursive paths =
     run_program sys ''mkdir'' ''/usr/bin/mkdir'' (flag recursive ''-p'' @ paths)"

definition cmd_rm :: "'h os \<Rightarrow> bool \<Rightarrow> bool \<Rightarrow> string list \<Rightarrow> 'h \<Rightarrow> 'h \<times> outcome" where
  "cmd_rm sys recursive force paths =
     run_program sys ''rm'' ''/usr/bin/rm'' (flag recursive ''-r'' @ flag force ''-f'' @ paths)"

definition cmd_mv :: "'h os \<Rightarrow> string \<Rightarrow> string \<Rightarrow> 'h \<Rightarrow> 'h \<times> outcome" where
  "cmd_mv sys src dest = run_program sys ''mv'' ''/usr/bin/mv'' [src, dest]"

definition cmd_cp :: "'h os \<Rightarrow> bool \<Rightarrow> string \<Rightarrow> string \<Rightarrow> 'h \<Rightarrow> 'h \<times> outcome" where
  "cmd_cp sys recursive src dest =
     run_program sys ''cp'' ''/usr/bin/cp'' (flag recursive ''-r'' @ [src, dest])"

definition cmd_chmod :: "'h os \<Rightarrow> string \<Rightarrow> string list \<Rightarrow> 'h \<Rightarrow> 'h \<times> outcome" where
  "cmd_chmod sys mode paths = run_program sys ''chmod'' ''/usr/bin/chmod'' (mode # paths)"

definition cmd_chown :: "'h os \<Rightarrow> string \<Rightarrow> string list \<Rightarrow> 'h \<Rightarrow> 'h \<times> outcome" where
  "cmd_chown sys owner paths = run_program sys ''chown'' ''/usr/bin/chown'' (owner # paths)"

definition cmd_diff :: "'h os \<Rightarrow> string \<Rightarrow> string \<Rightarrow> 'h \<Rightarrow> 'h \<times> outcome" where
  "cmd_diff sys file1 file2 = run_program sys ''diff'' ''/usr/bin/diff'' [''-u'', file1, file2]"

definition cmd_wc :: "'h os \<Rightarrow> bool \<Rightarrow> bool \<Rightarrow> string list \<Rightarrow> 'h \<Rightarrow> 'h \<times> outcome" where
  "cmd_wc sys lines words paths =
     run_program sys ''wc'' ''/usr/bin/wc''
       (flag lines ''-l'' @ flag words ''-w'' @ flag (\<not> lines \<and> \<not> words) ''-l'' @ paths)"

section \<open>Checksums\<close>

text \<open>The digests are those of the crates md5 and sha2, arguments here.\<close>

definition cmd_checksum ::
  "'h os \<Rightarrow> (bytes \<Rightarrow> bytes) \<Rightarrow> (bytes \<Rightarrow> bytes) \<Rightarrow> string \<Rightarrow> string \<Rightarrow> 'h \<Rightarrow> outcome" where
  "cmd_checksum sys md5 sha256 path algorithm h =
     (case os_read sys h path of
        Inl e \<Rightarrow> reply (path @ '': '' @ e @ newline) 1
      | Inr d \<Rightarrow>
          if algorithm = ''md5'' \<or> algorithm = ''md5sum''
          then reply (lower_hex (md5 d) @ ''  '' @ path @ newline) 0
          else reply (lower_hex (sha256 d) @ ''  '' @ path @ newline) 0)"

section \<open>Packages\<close>

record pkg_fields =
  pn :: string
  pv :: string
  pa :: string
  pd :: string
  ps :: string

definition no_fields :: pkg_fields where
  "no_fields = \<lparr>pn = [], pv = [], pa = [], pd = [], ps = []\<rparr>"

definition pkg_header :: string where
  "pkg_header =
     ''Desired=Unknown/Install/Remove/Purge/Hold'' @ newline
     @ ''| Status=Not/Inst/Conf-files/Unpacked/halF-conf/Half-inst/trig-aWait/Trig-pend'' @ newline
     @ ''|/ Err?=(none)/Reinst-required (Status,Err: uppercase=bad)'' @ newline
     @ ''||/ Name                 Version          Architecture Description'' @ newline
     @ ''+++-====================-================-============-============================================'' @ newline"

definition pkg_row :: "pkg_fields \<Rightarrow> string" where
  "pkg_row f =
     (let mark = (if starts_with ''install ok installed'' (ps f) then ''ii''
                  else if str_contains ''not-installed'' (ps f) then ''un'' else ''rc'')
      in ljust 5 mark @ '' '' @ ljust 20 (pn f) @ '' '' @ ljust 16 (pv f) @ '' '' @ ljust 12 (pa f) @ '' ''
         @ pd f @ newline)"

definition pkg_list_line :: "string \<times> pkg_fields \<Rightarrow> string \<Rightarrow> string \<times> pkg_fields" where
  "pkg_list_line st line =
     (let (out, f) = st
      in if starts_with ''Package: '' line then (out, f\<lparr>pn := drop 9 line\<rparr>)
         else if starts_with ''Version: '' line then (out, f\<lparr>pv := drop 9 line\<rparr>)
         else if starts_with ''Architecture: '' line then (out, f\<lparr>pa := drop 14 line\<rparr>)
         else if starts_with ''Description: '' line then (out, f\<lparr>pd := drop 13 line\<rparr>)
         else if starts_with ''Status: '' line then (out, f\<lparr>ps := drop 8 line\<rparr>)
         else if line = [] \<and> pn f \<noteq> [] then (out @ pkg_row f, f\<lparr>pn := []\<rparr>)
         else (out, f))"

definition pkg_search_line :: "string \<Rightarrow> string \<times> string \<times> string \<Rightarrow> string \<Rightarrow> string \<times> string \<times> string" where
  "pkg_search_line query st line =
     (let (out, n, d) = st
      in if starts_with ''Package: '' line then (out, drop 9 line, d)
         else if starts_with ''Description: '' line then (out, n, drop 13 line)
         else if line = [] \<and> n \<noteq> [] then
           (if str_contains query n \<or> str_contains query d then out @ n @ '' - '' @ d @ newline else out, [], d)
         else (out, n, d))"

definition DPKG_STATUS :: string where
  "DPKG_STATUS = ''/var/lib/dpkg/status''"

definition pkg_list :: "'h os \<Rightarrow> 'h \<Rightarrow> outcome" where
  "pkg_list sys h =
     (case read_to_string sys h DPKG_STATUS of
        Inr status \<Rightarrow> reply (fst (foldl pkg_list_line (pkg_header, no_fields) (str_lines status))) 0
      | Inl _ \<Rightarrow> reply (pkg_header @ ''(dpkg database not found: /var/lib/dpkg/status)'' @ newline) 0)"

definition pkg_search :: "'h os \<Rightarrow> string \<Rightarrow> 'h \<Rightarrow> outcome" where
  "pkg_search sys query h =
     (let out = (case read_to_string sys h DPKG_STATUS of
                   Inr status \<Rightarrow> fst (foldl (pkg_search_line query) ([], [], []) (str_lines status))
                 | Inl _ \<Rightarrow> [])
      in reply (if out = [] then ''No packages found matching '' @ [CHR 0x27] @ query @ [CHR 0x27] @ newline
                else out) 0)"

definition apt_get :: "'h os \<Rightarrow> string list \<Rightarrow> 'h \<Rightarrow> 'h \<times> outcome" where
  "apt_get sys args h =
     (case os_output sys h ''/usr/bin/apt-get'' args of
        None \<Rightarrow> (h, Hangs)
      | Some (h', Inr out) \<Rightarrow>
          (h', Returns (if o_stderr out \<noteq> [] then o_stdout out @ o_stderr out else o_stdout out) (o_code out))
      | Some (h', Inl e) \<Rightarrow> (h', reply (''apt-get error: '' @ e @ newline) 1))"

fun cmd_pkg :: "'h os \<Rightarrow> PkgActionType \<Rightarrow> 'h \<Rightarrow> 'h \<times> outcome" where
  "cmd_pkg sys (PkgList _) h = (h, pkg_list sys h)"
| "cmd_pkg sys (PkgSearch query) h = (h, pkg_search sys query h)"
| "cmd_pkg sys (PkgInstall name) h = apt_get sys [''install'', ''-y'', name] h"
| "cmd_pkg sys (PkgRemove name) h = apt_get sys [''remove'', ''-y'', name] h"
| "cmd_pkg sys PkgUpdate h = apt_get sys [''update''] h"
| "cmd_pkg sys PkgUpgrade h = apt_get sys [''upgrade'', ''-y''] h"

section \<open>Crontabs\<close>

definition crontab_path :: "'h os \<Rightarrow> 'h \<Rightarrow> string" where
  "crontab_path sys h =
     ''/var/spool/cron/crontabs/'' @ (case os_var sys h ''USER'' of None \<Rightarrow> ''root'' | Some u \<Rightarrow> u)"

fun cmd_crontab :: "'h os \<Rightarrow> CrontabActionType \<Rightarrow> 'h \<Rightarrow> 'h \<times> outcome" where
  "cmd_crontab sys CrontabList h =
     (h, case read_to_string sys h (crontab_path sys h) of
           Inr c \<Rightarrow> reply c 0
         | Inl _ \<Rightarrow>
             (case read_to_string sys h ''/etc/crontab'' of
                Inr c \<Rightarrow> reply (''# (from /etc/crontab, user crontab not found)'' @ newline @ c) 0
              | Inl _ \<Rightarrow> reply (''no crontab for this user'' @ newline) 1))"
| "cmd_crontab sys CrontabEdit h =
     (h, reply (''Use '' @ [CHR 0x27] @ ''iexec crontab -e'' @ [CHR 0x27] @ '' for editing'' @ newline) 0)"
| "cmd_crontab sys CrontabRemove h =
     (case os_remove_file sys h (crontab_path sys h) of
        (h', None) \<Rightarrow> (h', reply (''crontab removed'' @ newline) 0)
      | (h', Some _) \<Rightarrow> (h', reply (''no crontab to remove'' @ newline) 1))"

section \<open>Editing files\<close>

text \<open>
  The arms of \<^verbatim>\<open>run_native_cmd\<close> that read and write files themselves. Appending opens the file
  without creating it.
\<close>

definition native_write_file :: "'h os \<Rightarrow> string \<Rightarrow> bytes \<Rightarrow> bool \<Rightarrow> 'h \<Rightarrow> 'h \<times> outcome" where
  "native_write_file sys path dat app h =
     (case (if app then os_append sys h path dat else os_write sys h path dat) of
        (h', FileWritten) \<Rightarrow> (h', reply (''ok'' @ newline) 0)
      | (h', WriteError e) \<Rightarrow> (h', reply (''write error: '' @ e @ newline) 1)
      | (h', OpenError e) \<Rightarrow> (h', reply (''open error: '' @ e @ newline) 1))"

text \<open>\<^verbatim>\<open>std::fs::write\<close> reports opening and writing alike.\<close>

definition fs_write :: "'h os \<Rightarrow> string \<Rightarrow> string \<Rightarrow> bytes \<Rightarrow> 'h \<Rightarrow> 'h \<times> outcome" where
  "fs_write sys what path dat h =
     (case os_write sys h path dat of
        (h', FileWritten) \<Rightarrow> (h', reply (''ok'' @ newline) 0)
      | (h', WriteError e) \<Rightarrow> (h', reply (what @ '' error: '' @ e @ newline) 1)
      | (h', OpenError e) \<Rightarrow> (h', reply (what @ '' error: '' @ e @ newline) 1))"

definition native_sed :: "'h os \<Rightarrow> string \<Rightarrow> string \<Rightarrow> string \<Rightarrow> 'h \<Rightarrow> 'h \<times> outcome" where
  "native_sed sys path pattern replacement h =
     (case read_to_string sys h path of
        Inl e \<Rightarrow> (h, reply (''read error: '' @ e @ newline) 1)
      | Inr c \<Rightarrow> fs_write sys ''write'' path (str_bytes (str_replace pattern replacement c)) h)"

definition native_read_file :: "'h os \<Rightarrow> string \<Rightarrow> 'h \<Rightarrow> outcome" where
  "native_read_file sys path h =
     (case read_to_string sys h path of
        Inr c \<Rightarrow> reply c 0
      | Inl e \<Rightarrow> reply (''read error: '' @ e @ newline) 1)"

definition native_touch :: "'h os \<Rightarrow> string \<Rightarrow> 'h \<Rightarrow> 'h \<times> outcome" where
  "native_touch sys path h = fs_write sys ''touch'' path [] h"

section \<open>Reading\<close>

lemma tail_drop: "drop (if n \<ge> length l then 0 else length l - n) l = drop (length l - n) l"
  by simp

lemma cmd_tail_lines:
  "read_to_string sys h path = Inr c \<Longrightarrow>
     cmd_tail sys path n h = reply (unlines (drop (length (str_lines c) - unat n) (str_lines c))) 0"
  by (simp add: cmd_tail_def Let_def tail_drop)

section \<open>Searching\<close>

lemma grep_loop_eq:
  "grep_loop pat cnt show_line i ls out m =
     (if cnt then out
      else out @ concat (map (\<lambda>(j, l). show_line (Suc j) l) (filter (str_contains pat \<circ> snd) (enumerate i ls))),
      m + length (filter (str_contains pat) ls))"
  by (induction ls arbitrary: i out m) simp_all

text \<open>The files below a directory in the order the walk meets them.\<close>

fun files_below :: "nat \<Rightarrow> 'h os \<Rightarrow> 'h \<Rightarrow> string \<Rightarrow> string list option" where
  "files_below 0 sys h p = None"
| "files_below (Suc d) sys h p =
     foldl (\<lambda>acc n. case acc of None \<Rightarrow> None
              | Some fs \<Rightarrow>
                  (let q = path_join p n
                   in if os_is_dir sys h q
                      then (case files_below d sys h q of None \<Rightarrow> None | Some gs \<Rightarrow> Some (fs @ gs))
                      else Some (fs @ [q])))
       (Some []) (dir_names sys h p)"

definition grep_files ::
  "'h os \<Rightarrow> 'h \<Rightarrow> string \<Rightarrow> bool \<Rightarrow> bool \<Rightarrow> string list \<Rightarrow> string \<times> nat \<Rightarrow> string \<times> nat" where
  "grep_files sys h pat ln cnt fs st = foldl (\<lambda>st q. grep_one sys h pat ln cnt q st) st fs"

lemma foldl_None: "foldl (\<lambda>acc n. case acc of None \<Rightarrow> None | Some x \<Rightarrow> f x n) None ns = None"
  by (induction ns) auto

lemma grep_walk_fold:
  assumes "\<And>q st. grep_walk d sys h pat ln cnt q st
      = map_option (\<lambda>fs. grep_files sys h pat ln cnt fs st) (files_below d sys h q)"
  shows "foldl (\<lambda>acc n. case acc of None \<Rightarrow> None
              | Some st \<Rightarrow>
                  (let q = path_join p n
                   in if os_is_dir sys h q then grep_walk d sys h pat ln cnt q st
                      else Some (grep_one sys h pat ln cnt q st)))
       (Some (grep_files sys h pat ln cnt gs st)) ns
    = map_option (\<lambda>fs. grep_files sys h pat ln cnt fs st)
        (foldl (\<lambda>acc n. case acc of None \<Rightarrow> None
              | Some fs \<Rightarrow>
                  (let q = path_join p n
                   in if os_is_dir sys h q
                      then (case files_below d sys h q of None \<Rightarrow> None | Some gs \<Rightarrow> Some (fs @ gs))
                      else Some (fs @ [q])))
       (Some gs) ns)"
proof (induction ns arbitrary: gs)
  case (Cons n ns)
  let ?q = "path_join p n"
  show ?case
  proof (cases "os_is_dir sys h ?q")
    case True
    show ?thesis
    proof (cases "files_below d sys h ?q")
      case None
      with True show ?thesis by (simp add: assms foldl_None)
    next
      case (Some fs)
      with True Cons [of "gs @ fs"] show ?thesis by (simp add: assms grep_files_def)
    qed
  next
    case False
    with Cons [of "gs @ [?q]"] show ?thesis by (simp add: grep_files_def)
  qed
qed simp

lemma grep_walk_files:
  "grep_walk d sys h pat ln cnt p st
     = map_option (\<lambda>fs. grep_files sys h pat ln cnt fs st) (files_below d sys h p)"
proof (induction d arbitrary: p st)
  case (Suc d)
  show ?case
    using grep_walk_fold [where gs = "[]" and st = st and ns = "dir_names sys h p" and d = d, OF Suc]
    by (simp add: grep_files_def)
qed simp

definition matches_in :: "'h os \<Rightarrow> 'h \<Rightarrow> string \<Rightarrow> string \<Rightarrow> nat" where
  "matches_in sys h pat q =
     (case read_to_string sys h q of Inl _ \<Rightarrow> 0 | Inr c \<Rightarrow> length (filter (str_contains pat) (str_lines c)))"

lemma grep_files_total:
  "snd (grep_files sys h pat ln cnt fs st) = snd st + sum_list (map (matches_in sys h pat) fs)"
  by (induction fs arbitrary: st)
     (auto simp: grep_files_def grep_one_def matches_in_def grep_loop_eq split: sum.splits)

lemma foldl_bind_mono:
  assumes "\<And>x n y. f x n = Some y \<Longrightarrow> g x n = Some y"
    and "foldl (\<lambda>acc n. case acc of None \<Rightarrow> None | Some x \<Rightarrow> f x n) (Some a) ns = Some b"
  shows "foldl (\<lambda>acc n. case acc of None \<Rightarrow> None | Some x \<Rightarrow> g x n) (Some a) ns = Some b"
  using assms(2)
proof (induction ns arbitrary: a)
  case (Cons n ns)
  then show ?case by (cases "f a n") (auto simp: foldl_None assms(1))
qed simp

text \<open>A walk that returns at some depth gives the same files at every larger one.\<close>

lemma files_below_mono: "files_below d sys h p = Some fs \<Longrightarrow> files_below (Suc d) sys h p = Some fs"
proof (induction d arbitrary: p fs)
  case (Suc d)
  show ?case
    by (subst files_below.simps, rule foldl_bind_mono [OF _ Suc.prems [unfolded files_below.simps(2) [of d]]])
       (auto simp: Let_def dest: Suc.IH simp del: files_below.simps split: if_splits option.splits)
qed simp

lemma files_below_le: "d \<le> e \<Longrightarrow> files_below d sys h p = Some fs \<Longrightarrow> files_below e sys h p = Some fs"
  by (induction rule: dec_induct) (auto intro: files_below_mono simp del: files_below.simps)

section \<open>Packages\<close>

text \<open>A stanza of the package database, without the empty line that ends it.\<close>

definition stanza :: "pkg_fields \<Rightarrow> string list" where
  "stanza f = [''Package: '' @ pn f, ''Status: '' @ ps f, ''Architecture: '' @ pa f,
     ''Version: '' @ pv f, ''Description: '' @ pd f]"

lemma pkg_list_stanza: "foldl pkg_list_line (out, g) (stanza f) = (out, f)"
  by (simp add: stanza_def pkg_list_line_def starts_with_def)

lemma pkg_list_stanza_end:
  "pn f \<noteq> [] \<Longrightarrow> foldl pkg_list_line (out, g) (stanza f @ [[]]) = (out @ pkg_row f, f\<lparr>pn := []\<rparr>)"
  by (simp only: foldl_append pkg_list_stanza) (simp add: pkg_list_line_def starts_with_def)

lemma pkg_list_stanzas:
  assumes "\<forall>f \<in> set fs. pn f \<noteq> []"
  shows "fst (foldl pkg_list_line (out, g) (concat (map (\<lambda>f. stanza f @ [[]]) fs))) = out @ concat (map pkg_row fs)"
  using assms
proof (induction fs arbitrary: out g)
  case (Cons f fs)
  have "foldl pkg_list_line (out, g) (concat (map (\<lambda>f. stanza f @ [[]]) (f # fs)))
      = foldl pkg_list_line (out @ pkg_row f, f\<lparr>pn := []\<rparr>) (concat (map (\<lambda>f. stanza f @ [[]]) fs))"
    using Cons.prems by (simp only: list.map concat.simps foldl_append [of _ _ "stanza f @ [[]]"])
      (subst pkg_list_stanza_end; simp)
  with Cons show ?case by simp
qed simp

section \<open>Editing files\<close>

text \<open>
  What the documentation of \<^verbatim>\<open>std::fs\<close> promises: after a successful write the file has the data
  written; a file opened for appending, but not for creating, has to exist and keeps its content
  in front of the new data.
\<close>

definition write_law :: "'h os \<Rightarrow> bool" where
  "write_law sys \<longleftrightarrow> (\<forall>h p d h'. os_write sys h p d = (h', FileWritten) \<longrightarrow> os_read sys h' p = Inr d)"

definition append_law :: "'h os \<Rightarrow> bool" where
  "append_law sys \<longleftrightarrow> (\<forall>h p d h'. os_append sys h p d = (h', FileWritten) \<longrightarrow>
     os_exists sys h p \<and> (\<forall>e. os_read sys h p = Inr e \<longrightarrow> os_read sys h' p = Inr (e @ d)))"

lemma written_text:
  assumes "write_law sys" "os_write sys h path (str_bytes t) = (h', FileWritten)" "utf8_valid (str_bytes t)"
  shows "read_to_string sys h' path = Inr t"
proof -
  have "os_read sys h' path = Inr (str_bytes t)" using assms(1,2) unfolding write_law_def by blast
  with assms(3) show ?thesis by (simp add: read_to_string_def)
qed

lemma table_write_law: "write_law table_os"
  by (auto simp: write_law_def table_os_def mc_put_def)

lemma table_append_law: "append_law table_os"
  by (auto simp: append_law_def table_os_def mc_put_def split: option.splits)

lemma reply_code: "reply t c = reply u d \<Longrightarrow> c = d"
  by (simp add: reply_def)

lemma fs_write_ok:
  "fs_write sys what p d h = (h', Returns b (Some 0)) \<Longrightarrow> os_write sys h p d = (h', FileWritten)"
  by (auto simp: fs_write_def reply_def split: prod.splits write_result.splits)

lemma native_write_ok:
  "native_write_file sys p d app h = (h', Returns b (Some 0)) \<Longrightarrow>
     (if app then os_append sys h p d else os_write sys h p d) = (h', FileWritten)"
  by (auto simp: native_write_file_def reply_def split: prod.splits write_result.splits if_splits)

end
