(* ===== verification/NativeSystem.thy ===== *)
theory NativeSystem
  imports Host ControlMessages
begin

text \<open>
  The native commands on the system and its processes:
  \<^verbatim>\<open>crates/daemon/src/native_cmd/\<close> \<^verbatim>\<open>system.rs\<close> and \<^verbatim>\<open>exec.rs\<close>, with the
  two arms of \<^verbatim>\<open>dispatch.rs\<close> that run a shell or \<^verbatim>\<open>pkill\<close>. Most of them read the text files of
  \<^verbatim>\<open>/proc\<close> and \<^verbatim>\<open>/sys\<close> and rearrange them. Floating point numbers, their parser and their printer are parameters.
\<close>

text \<open>What the commands need of \<^verbatim>\<open>f64\<close> beyond arithmetic: \<open>f_show1\<close> is \<^verbatim>\<open>{:.1}\<close>.\<close>

record 'f float_text = "'f float_ops" +
  f_rem :: "'f \<Rightarrow> 'f \<Rightarrow> 'f"
  f_parse :: "string \<Rightarrow> 'f option"
  f_show1 :: "'f \<Rightarrow> string"

section \<open>Fields of the files of /proc\<close>

text \<open>The closure \<^verbatim>\<open>kv\<close>: the second word of the first line with a given prefix.\<close>

definition first_line :: "string \<Rightarrow> string \<Rightarrow> string option" where
  "first_line p s = find (starts_with p) (str_lines s)"

definition nth_word :: "nat \<Rightarrow> string \<Rightarrow> string option" where
  "nth_word n l = (let ws = split_whitespace l in if n < length ws then Some (ws ! n) else None)"

definition parse_u64 :: "string \<Rightarrow> u64 option" where
  "parse_u64 s = map_option of_nat (parse_below (2 ^ 64) s)"

definition parse_u32 :: "string \<Rightarrow> u32 option" where
  "parse_u32 s = map_option of_nat (parse_below (2 ^ 32) s)"

definition unwrap_or :: "'a \<Rightarrow> 'a option \<Rightarrow> 'a" where
  "unwrap_or d x = (case x of None \<Rightarrow> d | Some v \<Rightarrow> v)"

definition kv :: "string \<Rightarrow> string \<Rightarrow> u64" where
  "kv mem k = unwrap_or 0 (Option.bind (Option.bind (first_line k mem) (nth_word 1)) parse_u64)"

definition proc_pids :: "'h os \<Rightarrow> 'h \<Rightarrow> u32 list" where
  "proc_pids sys h = List.map_filter (\<lambda>n. parse_u32 (lossy_str n)) (dir_names sys h ''/proc'')"

definition proc_file :: "u32 \<Rightarrow> string \<Rightarrow> string" where
  "proc_file pid f = ''/proc/'' @ show_u pid @ ''/'' @ f"

definition NUL_to_space :: "string \<Rightarrow> string" where
  "NUL_to_space s = str_replace [CHR 0x00] '' '' s"

section \<open>System\<close>

definition cmd_hostname :: "'h os \<Rightarrow> 'h \<Rightarrow> outcome" where
  "cmd_hostname sys h = reply (trim (read_proc sys h ''/proc/sys/kernel/hostname'')) 0"

definition hfmt :: "u64 \<Rightarrow> string" where
  "hfmt s =
     (if s < 1024 then show_u s @ ''B''
      else let kb = s div 1024
           in if kb < 1024 then show_u kb @ ''K''
              else let mb = kb div 1024
                   in if mb < 1024 then show_u mb @ ''.'' @ show_u ((kb mod 1024) * 10 div 1024) @ ''M''
                      else show_u (mb div 1024) @ ''.'' @ show_u ((mb mod 1024) * 10 div 1024) @ ''G'')"

definition free_row :: "(string \<Rightarrow> string) \<Rightarrow> string \<Rightarrow> string \<Rightarrow> string \<Rightarrow> string \<Rightarrow> string" where
  "free_row pad a b c d = pad a @ '' '' @ pad b @ '' '' @ pad c @ '' '' @ pad d @ newline"

definition cmd_free :: "'h os \<Rightarrow> bool \<Rightarrow> 'h \<Rightarrow> outcome" where
  "cmd_free sys human h =
     (let mem = read_proc sys h ''/proc/meminfo'';
          mt = kv mem ''MemTotal:'' * 1024;
          mf = kv mem ''MemFree:'' * 1024;
          ma = kv mem ''MemAvailable:'' * 1024;
          mu = saturating_sub mt ma;
          st = kv mem ''SwapTotal:'' * 1024;
          sf = kv mem ''SwapFree:'' * 1024;
          su = saturating_sub st sf;
          sh = (if human then hfmt else show_u);
          pad = (if human then rjust 8 else rjust 12)
      in reply (''              Mem:'' @ newline
           @ free_row pad ''total'' ''used'' ''free'' ''avail''
           @ free_row pad (sh mt) (sh mu) (sh mf) (sh ma)
           @ ''              Swap: '' @ pad (sh st) @ '' '' @ pad (sh su) @ '' '' @ pad (sh sf) @ newline) 0)"

definition cmd_cpu :: "'h os \<Rightarrow> 'h \<Rightarrow> outcome" where
  "cmd_cpu sys h =
     reply (unlines (filter (\<lambda>l. starts_with ''processor'' l \<or> starts_with ''model name'' l
        \<or> starts_with ''cpu MHz'' l \<or> starts_with ''cache size'' l) (str_lines (read_proc sys h ''/proc/cpuinfo'')))) 0"

definition uname_all :: "'h os \<Rightarrow> 'h \<Rightarrow> string" where
  "uname_all sys h =
     (let f = (\<lambda>n. trim (read_proc sys h (''/proc/sys/kernel/'' @ n)))
      in f ''ostype'' @ '' '' @ f ''hostname'' @ '' '' @ f ''osrelease'' @ '' '' @ f ''version'' @ '' ''
         @ f ''arch'' @ newline)"

definition cmd_uname :: "'h os \<Rightarrow> bool \<Rightarrow> bool \<Rightarrow> bool \<Rightarrow> 'h \<Rightarrow> outcome" where
  "cmd_uname sys all release machine h =
     (if all then reply (uname_all sys h) 0
      else if release then reply (read_proc sys h ''/proc/sys/kernel/osrelease'') 0
      else if machine then reply (read_proc sys h ''/proc/sys/kernel/arch'') 0
      else reply (read_proc sys h ''/proc/sys/kernel/ostype'') 0)"

definition cmd_whoami :: "'h os \<Rightarrow> 'h \<Rightarrow> outcome" where
  "cmd_whoami sys h =
     (case (case os_var sys h ''USER'' of Some u \<Rightarrow> Some u | None \<Rightarrow> os_var sys h ''LOGNAME'') of
        Some u \<Rightarrow> if u \<noteq> [] then reply (u @ newline) 0 else reply (''unknown'' @ newline) 0
      | None \<Rightarrow> reply (''unknown'' @ newline) 0)"

definition cmd_uptime :: "'f float_text \<Rightarrow> 'h os \<Rightarrow> 'h \<Rightarrow> string" where
  "cmd_uptime F sys h =
     (let secs = unwrap_or (f_lit F 0 1)
            (Option.bind (nth_word 0 (read_proc sys h ''/proc/uptime'')) (f_parse F));
          d = f_to_nat F (f_div F secs (f_lit F 86400 1));
          hr = f_to_nat F (f_div F (f_rem F secs (f_lit F 86400 1)) (f_lit F 3600 1));
          m = f_to_nat F (f_div F (f_rem F secs (f_lit F 3600 1)) (f_lit F 60 1))
      in ''up '' @ show_nat d @ '' days, '' @ zero_pad 2 (show_nat hr) @ '':'' @ zero_pad 2 (show_nat m) @ newline)"

section \<open>Processes\<close>

definition running_line :: "string \<Rightarrow> bool" where
  "running_line status = (case first_line ''State:'' status of None \<Rightarrow> False | Some l \<Rightarrow> str_contains ''running'' l)"

definition process_cmd :: "string \<Rightarrow> string \<Rightarrow> string" where
  "process_cmd name cl = (if cl = [] then ''['' @ name @ '']'' else NUL_to_space cl)"

definition status_name :: "string \<Rightarrow> string" where
  "status_name status =
     trim (unwrap_or [] (Option.bind (first_line ''Name:'' status)
       (\<lambda>l. let ws = split_all (CHR 0x09) l in if 1 < length ws then Some (ws ! 1) else None)))"

definition ps_line :: "'h os \<Rightarrow> 'h \<Rightarrow> bool \<Rightarrow> string option \<Rightarrow> u32 \<Rightarrow> string" where
  "ps_line sys h full user pid =
     (let status = read_proc sys h (proc_file pid ''status'');
          cl = read_proc sys h (proc_file pid ''cmdline'');
          st = unwrap_or ''?'' (Option.bind (first_line ''State:'' status) (nth_word 1));
          name = status_name status;
          cmd = process_cmd name cl
      in if \<not> full then rjust 5 (show_u pid) @ '' '' @ ljust 8 ''?'' @ '' 00:00:00 '' @ trim cmd @ newline
         else let stat = read_proc sys h (proc_file pid ''stat'')
              in if (case user of None \<Rightarrow> False | Some u \<Rightarrow> name \<noteq> u) then []
                 else ljust 8 ''?'' @ '' '' @ rjust 5 (show_u pid) @ '' '' @ rjust 5 ''0.0'' @ '' ''
                      @ rjust 5 ''0.0'' @ '' '' @ rjust 7 (unwrap_or ''0'' (nth_word 22 stat)) @ '' ''
                      @ rjust 7 (unwrap_or ''0'' (nth_word 23 stat)) @ '' '' @ ljust 8 ''?'' @ '' ''
                      @ ljust 9 st @ '' '' @ ljust 10 ''00:00:00'' @ '' '' @ trim cmd @ newline)"

definition top_memory :: "'f float_text \<Rightarrow> string \<Rightarrow> string" where
  "top_memory F mem =
     (let mt = kv mem ''MemTotal:'' div 1024;
          mf = kv mem ''MemFree:'' div 1024;
          ma = kv mem ''MemAvailable:'' div 1024;
          mu = saturating_sub mt ma;
          sh = (\<lambda>w. rjust 8 (f_show1 F (f_div F (f_of_nat F (unat (w :: u64))) (f_lit F 1024 1))))
      in ''MiB Mem: '' @ sh mt @ '' total, '' @ sh mf @ '' free, '' @ sh mu @ '' used, '' @ sh ma @ '' avail'' @ newline)"

text \<open>A process of the snapshot: its number, processor time, virtual and resident size.\<close>

definition top_entry :: "'f float_text \<Rightarrow> 'h os \<Rightarrow> 'h \<Rightarrow> u32 \<Rightarrow> (u32 \<times> 'f \<times> u64 \<times> u64) option" where
  "top_entry F sys h pid =
     (let f = split_whitespace (read_proc sys h (proc_file pid ''stat''));
          num = (\<lambda>i. unwrap_or 0 (parse_u64 (f ! i)))
      in if length f < 24 then None
         else Some (pid, f_of_nat F (unat (num 13 + num 14)), num 22, num 23 * 4))"

definition top_line :: "'h os \<Rightarrow> 'h \<Rightarrow> u32 \<times> 'f \<times> u64 \<times> u64 \<Rightarrow> string" where
  "top_line sys h p =
     (let (pid, _, vsz, rss) = p;
          cl = read_proc sys h (proc_file pid ''cmdline'');
          cmd = (if cl = [] then ''['' @ show_u pid @ '']''
                 else unwrap_or ''?'' (nth_word 0 (NUL_to_space cl)))
      in rjust 5 (show_u pid) @ '' ?        20   0 '' @ rjust 7 (show_u (vsz div 1024)) @ '' ''
         @ rjust 7 (show_u (rss div 1024)) @ '' ?    S   0.0  0.0   0:00.00 '' @ cmd @ newline)"

definition cmd_top_snapshot :: "'f float_text \<Rightarrow> 'h os \<Rightarrow> 'h \<Rightarrow> string" where
  "cmd_top_snapshot F sys h =
     (let pids = filter (\<lambda>n. parse_u32 (lossy_str n) \<noteq> None) (dir_names sys h ''/proc'');
          running = filter (\<lambda>n. running_line (read_proc sys h (''/proc/'' @ lossy_str n @ ''/status''))) pids;
          entries = List.map_filter (top_entry F sys h) (proc_pids sys h);
          sorted = sort_by (\<lambda>a b. \<not> f_less F (fst (snd a)) (fst (snd b))) entries
      in ''top - native'' @ newline @ newline
         @ ''load average: '' @ join_with '' '' (take 3 (split_whitespace (read_proc sys h ''/proc/loadavg'')))
         @ newline @ newline
         @ ''Tasks: '' @ show_nat (length pids) @ '' total, '' @ show_nat (length running) @ '' running'' @ newline
         @ top_memory F (read_proc sys h ''/proc/meminfo'')
         @ newline @ ''  PID USER      PR  NI    VIRT    RES    SHR S  %CPU  %MEM     TIME+ COMMAND'' @ newline
         @ concat (map (top_line sys h) (take 20 sorted)))"

definition cmd_ps :: "'f float_text \<Rightarrow> 'h os \<Rightarrow> bool \<Rightarrow> string option \<Rightarrow> bool \<Rightarrow> 'h \<Rightarrow> outcome" where
  "cmd_ps F sys full user tree h =
     (if tree then reply (cmd_top_snapshot F sys h) 0
      else (case os_read_dir sys h ''/proc'' of
              Inl _ \<Rightarrow> reply (''ps: /proc not available'' @ newline) 1
            | Inr _ \<Rightarrow>
                reply ((if full then ''USER       PID %CPU %MEM    VSZ    RSS TTY      STAT   START   TIME COMMAND''
                        else ''  PID TTY          TIME CMD'') @ newline
                  @ concat (map (ps_line sys h full user) (proc_pids sys h))) 0))"

definition free_text :: "outcome \<Rightarrow> string" where
  "free_text r = (case r of Returns b _ \<Rightarrow> lossy_str b | _ \<Rightarrow> [])"

definition cmd_info :: "'f float_text \<Rightarrow> 'h os \<Rightarrow> 'h \<Rightarrow> outcome" where
  "cmd_info F sys h =
     reply (uname_all sys h @ ''---'' @ newline
       @ (case first_line ''model name'' (read_proc sys h ''/proc/cpuinfo'') of
            None \<Rightarrow> [] | Some l \<Rightarrow> l @ newline)
       @ ''---'' @ newline
       @ free_text (cmd_free sys True h) @ ''---'' @ newline
       @ cmd_uptime F sys h) 0"

section \<open>The kernel log\<close>

text \<open>
  At most 128 reads; a read that gives nothing or fails ends the loop. \<open>os_kmsg\<close> is what the
  successive reads give; when it has no further element the read waits for a message that does
  not come.
\<close>

fun kmsg_loop :: "nat \<Rightarrow> bytes option list \<Rightarrow> string option" where
  "kmsg_loop 0 rs = Some []"
| "kmsg_loop (Suc n) [] = None"
| "kmsg_loop (Suc n) (r # rs) =
     (case r of
        None \<Rightarrow> Some []
      | Some b \<Rightarrow> if b = [] then Some []
          else (case kmsg_loop n rs of None \<Rightarrow> None | Some t \<Rightarrow> Some (lossy_str b @ t)))"

text \<open>The last lines of a text; \<^verbatim>\<open>join\<close> and a final line feed.\<close>

definition last_lines :: "u32 \<Rightarrow> string \<Rightarrow> string" where
  "last_lines n t =
     (let lv = str_lines t
      in if n > 0 \<and> length lv > unat n
         then join_with newline (drop (length lv - unat n) lv) @ newline else t)"

definition cmd_dmesg :: "'h os \<Rightarrow> u32 \<Rightarrow> 'h \<Rightarrow> outcome" where
  "cmd_dmesg sys n h =
     (case (case os_kmsg sys h of None \<Rightarrow> Some [] | Some rs \<Rightarrow> kmsg_loop 128 rs) of
        None \<Rightarrow> Hangs
      | Some t \<Rightarrow>
          (let t = (if t = [] then
                      (case read_to_string sys h ''/var/log/kern.log'' of Inr l \<Rightarrow> l | Inl _ \<Rightarrow> t) else t);
               t = (if t = [] then
                      (case read_to_string sys h ''/var/log/syslog'' of
                         Inr l \<Rightarrow> unlines (filter (str_contains ''kernel:'') (str_lines l))
                       | Inl _ \<Rightarrow> t) else t);
               t = last_lines n t
           in if t = [] then reply (''dmesg: kernel log not available'' @ newline) 1 else reply t 0))"

section \<open>Block devices\<close>

definition block_size :: "'f float_text \<Rightarrow> u64 \<Rightarrow> string" where
  "block_size F sz =
     (let scaled = (\<lambda>d. f_show1 F (f_div F (f_mul F (f_of_nat F (unat sz)) (f_lit F 512 1)) (f_lit F d 1)))
      in if sz = 0 then ''0''
         else if sz \<ge> 2097152 then scaled 1073741824 @ ''G''
         else if sz \<ge> 2048 then scaled 1048576 @ ''M''
         else scaled 1024 @ ''K'')"

definition lsblk_line :: "'f float_text \<Rightarrow> 'h os \<Rightarrow> 'h \<Rightarrow> bytes \<Rightarrow> string" where
  "lsblk_line F sys h n =
     (let dir = path_join ''/sys/block'' n;
          sz = unwrap_or 0 (parse_u64 (trim (read_proc sys h (dir @ ''/size''))));
          ro = trim (read_proc sys h (dir @ ''/ro''))
      in ljust 8 (lossy_str n) @ '' 0:0    0 '' @ rjust 7 (block_size F sz) @ '' '' @ ro @ '' disk'' @ newline)"

definition cmd_lsblk :: "'f float_text \<Rightarrow> 'h os \<Rightarrow> 'h \<Rightarrow> outcome" where
  "cmd_lsblk F sys h =
     reply (''NAME    MAJ:MIN RM   SIZE RO TYPE MOUNTPOINT'' @ newline
       @ concat (map (lsblk_line F sys h) (dir_names sys h ''/sys/block''))) 0"

section \<open>Commands run as programs\<close>

definition cmd_who :: "'h os \<Rightarrow> 'h \<Rightarrow> 'h \<times> outcome" where
  "cmd_who sys = run_program sys ''who'' ''/usr/bin/who'' []"

definition cmd_kill :: "'h os \<Rightarrow> u32 \<Rightarrow> u32 \<Rightarrow> 'h \<Rightarrow> 'h \<times> outcome" where
  "cmd_kill sys pid signal = run_program sys ''kill'' ''/usr/bin/kill'' [''-'' @ show_u signal, show_u pid]"

definition cmd_pgrep :: "'h os \<Rightarrow> string \<Rightarrow> bool \<Rightarrow> bool \<Rightarrow> 'h \<Rightarrow> 'h \<times> outcome" where
  "cmd_pgrep sys name full cnt h =
     (case os_output sys h ''/usr/bin/pgrep'' (flag full ''-f'' @ flag cnt ''-c'' @ [name]) of
        None \<Rightarrow> (h, Hangs)
      | Some (h', Inr out) \<Rightarrow>
          (h', Returns (if o_code out = Some 0 \<or> o_code out = Some 1 then o_stdout out else o_stderr out) (o_code out))
      | Some (h', Inl e) \<Rightarrow> (h', reply (''pgrep error: '' @ e @ newline) 1))"

definition cmd_ssh_check :: "'h os \<Rightarrow> 'h \<Rightarrow> 'h \<times> outcome" where
  "cmd_ssh_check sys h =
     (case os_output sys h ''/usr/bin/ssh'' [''-V''] of
        None \<Rightarrow> (h, Hangs)
      | Some (h', Inr out) \<Rightarrow>
          (h', reply (''SSH available: ''
             @ (case str_lines (lossy_str (o_stderr out)) of [] \<Rightarrow> ''unknown'' | l # _ \<Rightarrow> l) @ newline) 0)
      | Some (h', Inl e) \<Rightarrow> (h', reply (''SSH not available: '' @ e @ newline) 1))"

definition cmd_last :: "'h os \<Rightarrow> u32 \<Rightarrow> 'h \<Rightarrow> 'h \<times> outcome" where
  "cmd_last sys n = run_program sys ''last'' ''/usr/bin/last'' (flag (n > 0) (''-'' @ show_u n))"

text \<open>The words of \<open>Watch\<close> are joined and run once by the shell; the interval is not used.\<close>

definition cmd_watch_fn :: "'h os \<Rightarrow> string list \<Rightarrow> 'h \<Rightarrow> 'h \<times> outcome" where
  "cmd_watch_fn sys cmds h =
     (case os_output sys h ''/bin/sh'' [''-c'', join_with '' '' cmds] of
        None \<Rightarrow> (h, Hangs)
      | Some (h', Inr out) \<Rightarrow>
          (let buf = o_stdout out;
               buf = (if o_stderr out \<noteq> [] then (if buf \<noteq> [] then buf @ [10] else buf) @ o_stderr out else buf)
           in (h', Returns buf (o_code out)))
      | Some (h', Inl e) \<Rightarrow> (h', reply (''Watch error: '' @ e @ newline) (- 1)))"

definition native_pkill :: "'h os \<Rightarrow> string \<Rightarrow> u32 \<Rightarrow> 'h \<Rightarrow> 'h \<times> outcome" where
  "native_pkill sys name signal = run_program sys ''pkill'' ''/usr/bin/pkill'' [''-f'', show_u signal, name]"

definition native_shell :: "'h os \<Rightarrow> string \<Rightarrow> 'h \<Rightarrow> 'h \<times> outcome" where
  "native_shell sys cmd = run_program sys ''shell'' ''/bin/sh'' [''-c'', cmd]"

section \<open>Sizes\<close>

lemma unat_tenth: "unat ((w mod 1024) * 10 div 1024 :: u64) = (unat w mod 1024) * 10 div 1024"
proof -
  have "unat (w mod 1024) = unat w mod 1024" by (simp add: unat_mod)
  moreover have "unat w mod 1024 * 10 < 2 ^ 64" by (rule le_less_trans [of _ "1023 * 10"]) simp_all
  ultimately have "unat ((w mod 1024) * 10) = (unat w mod 1024) * 10"
    by (simp add: unat_word_ariths)
  then show ?thesis by (simp add: unat_div)
qed

text \<open>The text of a size, on numbers.\<close>

lemma hfmt_nat:
  "hfmt s = (let n = unat s in
     if n < 1024 then show_nat n @ ''B''
     else if n div 1024 < 1024 then show_nat (n div 1024) @ ''K''
     else if n div 1024 div 1024 < 1024
       then show_nat (n div 1024 div 1024) @ ''.'' @ show_nat ((n div 1024 mod 1024) * 10 div 1024) @ ''M''
     else show_nat (n div 1024 div 1024 div 1024) @ ''.'' @ show_nat ((n div 1024 div 1024 mod 1024) * 10 div 1024) @ ''G'')"
proof -
  have k: "unat (1024 :: u64) = 1024" by simp
  have t: "unat ((w mod 1024) * 10) div 1024 = (unat w mod 1024) * 10 div 1024" for w :: u64
    using unat_tenth [of w] by (simp only: unat_div k)
  show ?thesis by (simp only: hfmt_def Let_def show_u_def word_less_nat_alt unat_div k t)
qed

lemma tenth_bounds:
  fixes n :: nat
  defines "d \<equiv> (n mod 1024) * 10 div 1024"
  shows "d < 10" "(10 * (n div 1024) + d) * 1024 \<le> 10 * n" "10 * n < (10 * (n div 1024) + d + 1) * 1024"
proof -
  define q r where "q = n div 1024" and "r = n mod 1024"
  then have "n = 1024 * q + r" by simp
  moreover have "1024 * d \<le> r * 10" "r * 10 < 1024 * d + 1024"
    unfolding d_def r_def by (simp, metis add.commute dividend_less_times_div mult.commute zero_less_numeral)
  moreover have "r < 1024" by (simp add: r_def)
  ultimately show "d < 10" "(10 * (n div 1024) + d) * 1024 \<le> 10 * n" "10 * n < (10 * (n div 1024) + d + 1) * 1024"
    unfolding q_def [symmetric] by (simp_all add: distrib_right)
qed

section \<open>Last lines\<close>

lemma last_lines_eq:
  "last_lines n t =
     (if n > 0 \<and> length (str_lines t) > unat n
      then unlines (drop (length (str_lines t) - unat n) (str_lines t)) else t)"
proof (cases "n > 0 \<and> length (str_lines t) > unat n")
  case True
  then have "unat n > 0" by (simp add: word_less_nat_alt)
  with True show ?thesis by (auto simp: last_lines_def Let_def newline_def intro!: join_newline)
qed (simp only: last_lines_def Let_def if_False)

section \<open>The kernel log\<close>

lemma kmsg_loop_waits: "length rs < n \<Longrightarrow> (\<forall>r \<in> set rs. r \<noteq> None \<and> r \<noteq> Some []) \<Longrightarrow> kmsg_loop n rs = None"
proof (induction n rs rule: kmsg_loop.induct)
  case (3 n r rs)
  then obtain b where "r = Some b" "b \<noteq> []" by auto
  with 3 show ?case by simp
qed simp_all

end
