(* ===== verification/NativeServices.thy ===== *)
theory NativeServices
  imports NativeSystem
begin

text \<open>
  The native commands on services, logs and the network, \<^verbatim>\<open>crates/daemon/src/native_cmd/\<close>
  \<^verbatim>\<open>service.rs\<close>, \<^verbatim>\<open>network.rs\<close>, \<^verbatim>\<open>firewall.rs\<close> and \<^verbatim>\<open>docker.rs\<close>. The body of \<^verbatim>\<open>docker_api\<close> for Linux
  names variables that do not exist and does not compile; the model is that of the other
  targets, where the function finds no socket.
\<close>

section \<open>Services\<close>

definition cmdline_contains :: "'h os \<Rightarrow> 'h \<Rightarrow> string \<Rightarrow> u32 \<Rightarrow> bool" where
  "cmdline_contains sys h n pid =
     (case read_to_string sys h (proc_file pid ''cmdline'') of Inl _ \<Rightarrow> False | Inr c \<Rightarrow> str_contains n c)"

definition service_runs :: "'h os \<Rightarrow> 'h \<Rightarrow> string \<Rightarrow> bool" where
  "service_runs sys h n = (\<exists>pid \<in> set (proc_pids sys h). cmdline_contains sys h n pid)"

definition service_units :: "'h os \<Rightarrow> 'h \<Rightarrow> string list" where
  "service_units sys h =
     map bytes_str (remdups_adj (sort_by bytes_le
       (map str_bytes (filter (ends_with ''.service'') (map lossy_str
          (dir_names sys h ''/etc/systemd/system'' @ dir_names sys h ''/lib/systemd/system''
           @ dir_names sys h ''/run/systemd/system''))))))"

definition unit_line :: "'h os \<Rightarrow> 'h \<Rightarrow> bool \<Rightarrow> bool \<Rightarrow> string \<Rightarrow> string" where
  "unit_line sys h active failed svc =
     (let run = service_runs sys h (trim_end_matches ''.service'' svc)
      in if failed then []
         else if active then (if run then ''  '' @ ljust 20 svc @ '' loaded active running'' @ newline else [])
         else if run then ''  '' @ ljust 20 svc @ '' loaded active running'' @ newline
         else ''  '' @ ljust 20 svc @ '' loaded inactive dead'' @ newline)"

definition service_list :: "'h os \<Rightarrow> bool \<Rightarrow> bool \<Rightarrow> 'h \<Rightarrow> outcome" where
  "service_list sys active failed h =
     (let out = ''  UNIT                    LOAD   ACTIVE SUB'' @ newline
                  @ concat (map (unit_line sys h active failed) (service_units sys h))
      in reply (if failed \<and> length (str_lines out) \<le> 1 then out @ ''0 units listed.'' @ newline else out) 0)"

text \<open>The description of a unit file is the first line that starts with the key.\<close>

definition unit_description :: "string \<Rightarrow> string" where
  "unit_description content =
     unwrap_or [] (Option.bind (first_line ''Description='' content) (strip_prefix ''Description=''))"

definition loaded_text :: "string \<Rightarrow> string \<Rightarrow> string \<Rightarrow> string" where
  "loaded_text sf p content =
     (let out = ''* '' @ sf @ '' - '' @ unit_description content
      in (if last out \<noteq> CHR 0x0A then out @ newline else out)
         @ ''     Loaded: loaded ('' @ p @ '')'' @ newline)"

definition unit_file :: "'h os \<Rightarrow> 'h \<Rightarrow> string \<Rightarrow> (string \<times> string) option" where
  "unit_file sys h sf =
     (let p = ''/etc/systemd/system/'' @ sf; q = ''/lib/systemd/system/'' @ sf
      in case read_to_string sys h p of
           Inr c \<Rightarrow> Some (p, c)
         | Inl _ \<Rightarrow> (case read_to_string sys h q of Inr c \<Rightarrow> Some (q, c) | Inl _ \<Rightarrow> None))"

definition service_status :: "'h os \<Rightarrow> string \<Rightarrow> 'h \<Rightarrow> outcome" where
  "service_status sys name h =
     (let c = trim_end_matches ''.service'' name;
          sf = c @ ''.service''
      in case unit_file sys h sf of
           None \<Rightarrow> reply (''Unit '' @ c @ ''.service could not be found.'' @ newline) 1
         | Some (p, content) \<Rightarrow>
             reply (loaded_text sf p content
               @ (if service_runs sys h c then ''     Active: active (running)'' else ''     Active: inactive (dead)'')
               @ newline
               @ (case find (cmdline_contains sys h c) (proc_pids sys h) of
                    None \<Rightarrow> [] | Some pid \<Rightarrow> ''   Main PID: '' @ show_u pid @ newline)) 0)"

definition WANTS :: string where
  "WANTS = ''/etc/systemd/system/multi-user.target.wants''"

definition service_enable :: "'h os \<Rightarrow> string \<Rightarrow> 'h \<Rightarrow> 'h \<times> outcome" where
  "service_enable sys name h =
     (case find (os_exists sys h) [''/etc/systemd/system/'' @ name, ''/lib/systemd/system/'' @ name] of
        Some src \<Rightarrow>
          (let link = WANTS @ ''/'' @ name;
               h' = (if os_linux sys then os_symlink sys (os_create_dir_all sys h WANTS) src link else h)
           in (h', reply (''Created symlink '' @ link @ '' -> '' @ src @ newline) 0))
      | None \<Rightarrow> (h, reply (''Unit file for '' @ name @ '' not found'' @ newline) 1))"

definition service_disable :: "'h os \<Rightarrow> string \<Rightarrow> 'h \<Rightarrow> 'h \<times> outcome" where
  "service_disable sys name h =
     (let link = WANTS @ ''/'' @ name
      in case os_remove_file sys h link of
           (h', None) \<Rightarrow> (h', reply (''Removed symlink '' @ link @ newline) 0)
         | (h', Some e) \<Rightarrow> (h', reply (''Failed to remove symlink: '' @ e @ newline) 1))"

definition systemctl :: "'h os \<Rightarrow> string \<Rightarrow> string \<Rightarrow> 'h \<Rightarrow> 'h \<times> outcome" where
  "systemctl sys verb name = run_program sys ''systemctl'' ''/usr/bin/systemctl'' [verb, name]"

fun cmd_service :: "'h os \<Rightarrow> ServiceActionType \<Rightarrow> 'h \<Rightarrow> 'h \<times> outcome" where
  "cmd_service sys (ServiceList active failed) h = (h, service_list sys active failed h)"
| "cmd_service sys (ServiceStatus name) h = (h, service_status sys name h)"
| "cmd_service sys (ServiceStart name) h = systemctl sys ''start'' name h"
| "cmd_service sys (ServiceStop name) h = systemctl sys ''stop'' name h"
| "cmd_service sys (ServiceRestart name) h = systemctl sys ''restart'' name h"
| "cmd_service sys (ServiceReload name) h = systemctl sys ''reload'' name h"
| "cmd_service sys (ServiceEnable name) h = service_enable sys name h"
| "cmd_service sys (ServiceDisable name) h = service_disable sys name h"

section \<open>The journal\<close>

definition priority_number :: "string \<Rightarrow> nat option" where
  "priority_number p =
     (if p = ''0'' \<or> p = ''emerg'' then Some 0
      else if p = ''1'' \<or> p = ''alert'' then Some 1
      else if p = ''2'' \<or> p = ''crit'' then Some 2
      else if p = ''3'' \<or> p = ''err'' then Some 3
      else if p = ''4'' \<or> p = ''warning'' then Some 4
      else if p = ''5'' \<or> p = ''notice'' then Some 5
      else if p = ''6'' \<or> p = ''info'' then Some 6
      else if p = ''7'' \<or> p = ''debug'' then Some 7
      else None)"

definition has_priority :: "nat \<Rightarrow> string \<Rightarrow> bool" where
  "has_priority mp line =
     (if mp \<le> 3 then str_contains ''error'' line \<or> str_contains ''emerg'' line \<or> str_contains ''crit'' line
      else if mp \<le> 5 then str_contains ''warn'' line \<or> str_contains ''notice'' line
      else True)"

definition journal_keeps :: "string option \<Rightarrow> string option \<Rightarrow> string \<Rightarrow> bool" where
  "journal_keeps unit prio line \<longleftrightarrow>
     (case unit of None \<Rightarrow> True | Some u \<Rightarrow> str_contains (trim_end_matches ''.service'' u) line)
     \<and> (case Option.bind prio priority_number of None \<Rightarrow> True | Some mp \<Rightarrow> has_priority mp line)"

definition cmd_journal :: "'h os \<Rightarrow> string option \<Rightarrow> u32 \<Rightarrow> string option \<Rightarrow> 'h \<Rightarrow> outcome" where
  "cmd_journal sys unit n prio h =
     (let out = concat (map (\<lambda>p. case read_to_string sys h p of
                    Inl _ \<Rightarrow> []
                  | Inr c \<Rightarrow> unlines (filter (journal_keeps unit prio) (str_lines c)))
                [''/var/log/syslog'', ''/var/log/messages'']);
          out = last_lines n out
      in if out = [] then reply (''No journal/log data available'' @ newline) 0 else reply out 0)"

section \<open>Network\<close>

definition cmd_arp :: "'h os \<Rightarrow> 'h \<Rightarrow> outcome" where
  "cmd_arp sys h = reply (read_proc sys h ''/proc/net/arp'') 0"

text \<open>
  \<^verbatim>\<open>&p[a..b]\<close> panics when an end is inside a character; for text of eight bytes both are in
  range.
\<close>

definition char_boundary :: "string \<Rightarrow> nat \<Rightarrow> bool" where
  "char_boundary s i \<longleftrightarrow> i = length s \<or> i < length s \<and> \<not> continues (s ! i)"

definition hex_byte :: "string \<Rightarrow> nat \<Rightarrow> nat" where
  "hex_byte s i = unwrap_or 0 (parse_hex_below 256 (take 2 (drop (2 * i) s)))"

definition hex2addr :: "string \<Rightarrow> string option" where
  "hex2addr s =
     (case split_all (CHR '':'') s of
        p0 # p1 # _ \<Rightarrow>
          (let port = unwrap_or 0 (parse_hex_below 65536 p1)
           in if length p0 = 8 then
                (if char_boundary p0 2 \<and> char_boundary p0 4 \<and> char_boundary p0 6
                 then Some (show_nat (hex_byte p0 3) @ ''.'' @ show_nat (hex_byte p0 2) @ ''.''
                        @ show_nat (hex_byte p0 1) @ ''.'' @ show_nat (hex_byte p0 0) @ '':'' @ show_nat port)
                 else None)
              else Some (''['' @ p0 @ '']:'' @ show_nat port))
      | _ \<Rightarrow> Some s)"

definition socket_state :: "string \<Rightarrow> string" where
  "socket_state f =
     (let n = unwrap_or 0 (parse_hex_below 256 f)
      in if n = 10 then ''LISTEN'' else if n = 1 then ''ESTABLISHED'' else ''OTHER'')"

definition netstat_header :: string where
  "netstat_header = ''Proto Recv-Q Send-Q Local Address           Foreign Address         State'' @ newline"

definition netstat_row :: "string \<Rightarrow> string list \<Rightarrow> string \<Rightarrow> string option" where
  "netstat_row proto p st =
     (case (hex2addr (p ! 1), hex2addr (p ! 2)) of
        (Some a, Some b) \<Rightarrow> Some (proto @ ''    0      0 '' @ ljust 22 a @ '' '' @ ljust 22 b @ '' '' @ st @ newline)
      | _ \<Rightarrow> None)"

definition tcp_row :: "bool \<Rightarrow> string \<Rightarrow> string option" where
  "tcp_row listening line =
     (let p = split_whitespace line
      in if length p < 4 then Some []
         else let s = socket_state (p ! 3)
              in if listening \<and> s \<noteq> ''LISTEN'' then Some [] else netstat_row ''tcp'' p s)"

definition udp_row :: "string \<Rightarrow> string option" where
  "udp_row line =
     (let p = split_whitespace line
      in if length p < 4 then Some [] else netstat_row ''udp'' p ''ESTABLISHED'')"

fun collect_rows :: "(string \<Rightarrow> string option) \<Rightarrow> string list \<Rightarrow> string option" where
  "collect_rows row [] = Some []"
| "collect_rows row (l # ls) =
     (case row l of None \<Rightarrow> None
      | Some r \<Rightarrow> (case collect_rows row ls of None \<Rightarrow> None | Some t \<Rightarrow> Some (r @ t)))"

definition cmd_netstat :: "'h os \<Rightarrow> bool \<Rightarrow> bool \<Rightarrow> bool \<Rightarrow> 'h \<Rightarrow> outcome" where
  "cmd_netstat sys tcp udp listening h =
     (let table = (\<lambda>f. drop 1 (str_lines (read_proc sys h f)));
          t = (if tcp \<or> (\<not> tcp \<and> \<not> udp)
               then map_option ((@) netstat_header) (collect_rows (tcp_row listening) (table ''/proc/net/tcp''))
               else Some []);
          u = (if udp then map_option ((@) (newline @ netstat_header)) (collect_rows udp_row (table ''/proc/net/udp''))
               else Some [])
      in case (t, u) of (Some a, Some b) \<Rightarrow> reply (a @ b) 0 | _ \<Rightarrow> Panics)"

text \<open>\<open>os_connects\<close> is whether the text is a socket address to which a connection opens.\<close>

definition cmd_portscan :: "'h os \<Rightarrow> string \<Rightarrow> u16 \<Rightarrow> u16 \<Rightarrow> 'h \<Rightarrow> outcome" where
  "cmd_portscan sys host from to_port h =
     reply (''Scanning ports '' @ show_u from @ ''-'' @ show_u to_port @ '' on '' @ host @ newline
       @ concat (map (\<lambda>port. if os_connects sys h (host @ '':'' @ show_nat port)
                       then ''Port '' @ show_nat port @ '' is open'' @ newline else [])
           [unat from..<Suc (unat to_port)])) 0"

definition cmd_dns :: "'h os \<Rightarrow> string \<Rightarrow> 'h \<Rightarrow> 'h \<times> outcome" where
  "cmd_dns sys hostname h =
     (case os_output sys h ''/usr/bin/getent'' [''hosts'', hostname] of
        None \<Rightarrow> (h, Hangs)
      | Some (h', Inr out) \<Rightarrow> (h', Returns (o_stdout out) (o_code out))
      | Some (h', Inl _) \<Rightarrow> run_program sys ''dns lookup'' ''/usr/bin/host'' [hostname] h')"

definition ip_entry :: "'h os \<Rightarrow> 'h \<Rightarrow> bytes \<Rightarrow> string" where
  "ip_entry sys h n =
     (let name = lossy_str n;
          field = (\<lambda>f. trim (read_proc sys h (path_join ''/sys/class/net'' n @ ''/'' @ f)))
      in if name = ''lo'' then []
         else ''2: '' @ name @ '': <'' @ (if field ''operstate'' = ''up'' then ''UP,LOWER_UP'' else ''DOWN'')
              @ ''> mtu '' @ field ''mtu'' @ newline @ ''    link/ether '' @ field ''address'' @ newline)"

definition cmd_ip :: "'h os \<Rightarrow> 'h \<Rightarrow> outcome" where
  "cmd_ip sys h =
     reply (''1: lo: <LOOPBACK> mtu 65536'' @ newline @ ''    inet 127.0.0.1/8 scope host lo'' @ newline
       @ concat (map (ip_entry sys h) (dir_names sys h ''/sys/class/net''))) 0"

section \<open>Firewall and containers\<close>

definition rule_line :: "string \<Rightarrow> bool" where
  "rule_line l \<longleftrightarrow> \<not> starts_with ''#'' (trim l) \<and> trim l \<noteq> []"

definition rules_of :: "'h os \<Rightarrow> 'h \<Rightarrow> string \<Rightarrow> string" where
  "rules_of sys h p =
     (case read_to_string sys h p of
        Inl _ \<Rightarrow> []
      | Inr c \<Rightarrow> ''--- '' @ p @ '' ---'' @ newline @ unlines (filter rule_line (str_lines c)))"

definition NO_RULES :: string where
  "NO_RULES = ''(no iptables/nftables rules found via /proc)'' @ newline"

definition cmd_firewall :: "'h os \<Rightarrow> string \<Rightarrow> 'h \<Rightarrow> outcome" where
  "cmd_firewall sys backend h =
     (if backend = ''ufw'' then
        (let out = ''Status: ''
               @ (if os_exists sys h ''/etc/ufw''
                  then ''active'' @ newline @ rules_of sys h ''/etc/ufw/user.rules'' @ rules_of sys h ''/etc/ufw/before.rules''
                  else [])
         in reply (if out = [] then NO_RULES else out) 0)
      else
        (let tables = (\<lambda>p. case read_to_string sys h p of
                 Inl _ \<Rightarrow> [] | Inr c \<Rightarrow> concat (map (\<lambda>t. ''Table: '' @ t @ newline) (str_lines c)));
             out = tables ''/proc/net/ip_tables_names'' @ tables ''/proc/net/ip6_tables_names''
               @ (if os_exists sys h ''/etc/nftables.conf'' then rules_of sys h ''/etc/nftables.conf'' else [])
         in reply (if out = [] then NO_RULES else out) 0))"

text \<open>
  The loop over the two socket paths ends without a connection on every target for which it
  compiles, so the method, the path and the body of the request are not used.
\<close>

definition docker_api :: "string \<Rightarrow> string \<Rightarrow> string option \<Rightarrow> outcome" where
  "docker_api meth path body = reply (''Docker socket not found at /var/run/docker.sock'' @ newline) 1"

text \<open>
  The body of an \<^verbatim>\<open>Exec\<close> request; \<open>dbg\<close> is the \<^verbatim>\<open>Debug\<close> form of the words. The backslashes of the
  raw string literal are part of the text.
\<close>

definition exec_key :: "string \<Rightarrow> string" where
  "exec_key k = [CHR 0x5C, CHR 0x22] @ k @ [CHR 0x5C, CHR 0x22, CHR '':'']"

definition exec_body :: "(string list \<Rightarrow> string) \<Rightarrow> string list \<Rightarrow> string" where
  "exec_body dbg cmd =
     ''{'' @ exec_key ''AttachStdin'' @ ''false,'' @ exec_key ''AttachStdout'' @ ''true,''
     @ exec_key ''AttachStderr'' @ ''true,'' @ exec_key ''Cmd'' @ dbg cmd @ ''}''"

definition dq :: "string \<Rightarrow> string" where
  "dq s = [CHR 0x22] @ s @ [CHR 0x22]"

definition docker_exec :: "(string list \<Rightarrow> string) \<Rightarrow> string \<Rightarrow> string list \<Rightarrow> outcome" where
  "docker_exec dbg container cmd =
     (case docker_api ''POST'' (''/containers/'' @ container @ ''/exec'') (Some (exec_body dbg cmd)) of
        Returns cr _ \<Rightarrow>
          (let s = lossy_str cr
           in case str_find (dq ''Id'' @ '':'' @ [CHR 0x22]) s of
                None \<Rightarrow> Returns cr (Some 1)
              | Some i \<Rightarrow>
                  (let id_str = drop (i + 6) s
                   in case str_find [CHR 0x22] id_str of
                        None \<Rightarrow> Returns cr (Some 1)
                      | Some ie \<Rightarrow>
                          docker_api ''POST'' (''/exec/'' @ take ie id_str @ ''/start'')
                            (Some (''{'' @ dq ''Detach'' @ '':false,'' @ dq ''Tty'' @ '':false}''))))
      | r \<Rightarrow> r)"

fun cmd_docker :: "(string list \<Rightarrow> string) \<Rightarrow> DockerActionType \<Rightarrow> outcome" where
  "cmd_docker dbg (DockerPs all _) =
     docker_api ''GET'' (if all then ''/containers/json?all=true'' else ''/containers/json'') None"
| "cmd_docker dbg (DockerLogs name n _) =
     docker_api ''GET'' (''/containers/'' @ name @ ''/logs?stderr=true&stdout=true&tail='' @ show_u n) None"
| "cmd_docker dbg (DockerStats _) = docker_api ''GET'' ''/containers/json?all=true'' None"
| "cmd_docker dbg (DockerExec container cmd _) = docker_exec dbg container cmd"
| "cmd_docker dbg DockerInfo = docker_api ''GET'' ''/info'' None"
| "cmd_docker dbg DockerImages = docker_api ''GET'' ''/images/json'' None"
| "cmd_docker dbg (DockerRm container force) =
     docker_api ''DELETE'' (''/containers/'' @ container @ (if force then ''?force=true'' else [])) None"
| "cmd_docker dbg (DockerControl container action) =
     docker_api ''POST'' (''/containers/'' @ container @ ''/'' @ action @ ''/'') None"

section \<open>Unit names\<close>

lemma sorted_remdups_adj_by:
  assumes "transp le" "\<And>x y. le x y \<Longrightarrow> le y x \<Longrightarrow> x = y"
  shows "sorted_wrt le xs \<Longrightarrow> sorted_wrt le (remdups_adj xs) \<and> distinct (remdups_adj xs)"
proof (induction xs rule: remdups_adj.induct)
  case (3 x y xs)
  show ?case
  proof (cases "x = y")
    case False
    with 3 have IH: "sorted_wrt le (remdups_adj (y # xs))" "distinct (remdups_adj (y # xs))" by auto
    have le: "\<forall>z \<in> set (y # xs). le x z" using "3.prems" by auto
    moreover have "x \<notin> set (y # xs)"
      using assms(2) [of x y] False "3.prems" by (auto dest: assms(2))
    ultimately show ?thesis using IH False by (simp add: remdups_adj_set [of "y # xs", simplified])
  qed (use 3 in simp)
qed simp_all

lemma bytes_str_inject: "bytes_str a = bytes_str b \<longleftrightarrow> a = b"
  by (metis str_bytes_str)

section \<open>Addresses\<close>

lemma hex_digit_upper: "d < 16 \<Longrightarrow> hex_digit (upper_hex_char d) = Some d"
  by (auto simp: hex_digit_def upper_hex_char_def Let_def)

text \<open>How the kernel prints an address: \<^verbatim>\<open>%08X\<close> of the address as loaded, \<^verbatim>\<open>%04X\<close> of the port.\<close>

definition hex2 :: "u8 \<Rightarrow> string" where
  "hex2 b = [upper_hex_char (unat b div 16), upper_hex_char (unat b mod 16)]"

definition kernel_addr :: "u8 \<Rightarrow> u8 \<Rightarrow> u8 \<Rightarrow> u8 \<Rightarrow> u16 \<Rightarrow> string" where
  "kernel_addr a b c d port =
     hex2 d @ hex2 c @ hex2 b @ hex2 a @ '':'' @ hex2 (ucast (drop_bit 8 port)) @ hex2 (ucast port)"

lemma upper_hex_plain:
  "d < 16 \<Longrightarrow> upper_hex_char d \<noteq> CHR '':'' \<and> upper_hex_char d \<noteq> CHR ''+'' \<and> \<not> continues (upper_hex_char d)"
  by (auto simp: upper_hex_char_def continues_def char_of_eq_iff take_bit_nat_eq_self split: if_splits)

lemma hex2_plain: "c \<in> set (hex2 b) \<Longrightarrow> c \<noteq> CHR '':'' \<and> c \<noteq> CHR ''+'' \<and> \<not> continues c"
proof -
  have "unat b div 16 < 16" "unat b mod 16 < 16" using unsigned_less [of b, where 'a = nat] by simp_all
  then show "c \<in> set (hex2 b) \<Longrightarrow> ?thesis" using upper_hex_plain by (auto simp: hex2_def)
qed

lemma length_hex2 [simp]: "length (hex2 b) = 2"
  by (simp add: hex2_def)

lemma hex_value_hex2: "hex_value n (hex2 b @ s) = hex_value (256 * n + unat b) s"
proof -
  have "unat b div 16 < 16" "unat b mod 16 < 16" using unsigned_less [of b, where 'a = nat] by simp_all
  then have "hex_value n (hex2 b @ s) = hex_value (16 * (16 * n + unat b div 16) + unat b mod 16) s"
    by (simp add: hex2_def hex_digit_upper)
  also have "16 * (16 * n + unat b div 16) + unat b mod 16 = 256 * n + unat b" by simp
  finally show ?thesis .
qed

lemma unsigned_digits_hex2: "unsigned_digits (hex2 b @ s) = hex2 b @ s"
  using hex2_plain [of _ b] by (auto simp: unsigned_digits_def hex2_def)

lemma parse_hex_byte: "parse_hex_below 256 (hex2 b) = Some (unat b)"
  using hex_value_hex2 [of 0 b "[]"] unsigned_digits_hex2 [of b "[]"] unsigned_less [of b, where 'a = nat]
  by (simp add: parse_hex_below_def Let_def) (simp add: hex2_def)

lemma unat_u16_bytes:
  fixes p :: u16
  shows "256 * unat (ucast (drop_bit 8 p) :: u8) + unat (ucast p :: u8) = unat p"
proof -
  have "unat (ucast (drop_bit 8 p) :: u8) = unat p div 256"
    using unsigned_less [of p, where 'a = nat]
    by (simp add: unsigned_ucast_eq take_bit_eq_mod drop_bit_eq_div unat_div)
  moreover have "unat (ucast p :: u8) = unat p mod 256" by (simp add: unsigned_ucast_eq take_bit_eq_mod)
  ultimately show ?thesis by simp
qed

lemma parse_hex_port:
  fixes p :: u16
  shows "parse_hex_below 65536 (hex2 (ucast (drop_bit 8 p)) @ hex2 (ucast p)) = Some (unat p)"
  using hex_value_hex2 [of 0 "ucast (drop_bit 8 p)" "hex2 (ucast p)"]
    hex_value_hex2 [of "unat (ucast (drop_bit 8 p) :: u8)" "ucast p" "[]"]
    unsigned_less [of p, where 'a = nat] unat_u16_bytes [of p]
  by (simp add: parse_hex_below_def Let_def unsigned_digits_hex2) (simp add: hex2_def)

definition dotted :: "u8 \<Rightarrow> u8 \<Rightarrow> u8 \<Rightarrow> u8 \<Rightarrow> u16 \<Rightarrow> string" where
  "dotted a b c d port =
     show_u a @ ''.'' @ show_u b @ ''.'' @ show_u c @ ''.'' @ show_u d @ '':'' @ show_u port"

lemma hex2addr_kernel: "hex2addr (kernel_addr a b c d port) = Some (dotted a b c d port)"
proof -
  let ?p0 = "hex2 d @ hex2 c @ hex2 b @ hex2 a"
  let ?p1 = "hex2 (ucast (drop_bit 8 port)) @ hex2 (ucast port)"
  have plain: "\<forall>x \<in> set ?p0. x \<noteq> CHR '':'' \<and> \<not> continues x" "\<forall>x \<in> set ?p1. x \<noteq> CHR '':''"
    using hex2_plain by auto
  have nth: "i < 8 \<Longrightarrow> \<not> continues (?p0 ! i)" for i
    using plain(1) nth_mem [of i ?p0] by (auto simp del: nth_append)
  have "kernel_addr a b c d port = ?p0 @ CHR '':'' # ?p1" by (simp add: kernel_addr_def)
  then have split: "split_all (CHR '':'') (kernel_addr a b c d port) = [?p0, ?p1]"
    using plain by (simp only:) (subst split_all_append, blast, subst split_all_notin, blast, simp)
  have "char_boundary ?p0 2" "char_boundary ?p0 4" "char_boundary ?p0 6"
    using nth [of 2] nth [of 4] nth [of 6] by (simp_all add: char_boundary_def)
  moreover have "hex_byte ?p0 0 = unat d" "hex_byte ?p0 1 = unat c" "hex_byte ?p0 2 = unat b" "hex_byte ?p0 3 = unat a"
    by (simp_all add: hex_byte_def parse_hex_byte unwrap_or_def)
  ultimately show ?thesis
    by (simp add: hex2addr_def split parse_hex_port unwrap_or_def dotted_def show_u_def)
qed

section \<open>Panics\<close>

definition ascii :: "string \<Rightarrow> bool" where
  "ascii s \<longleftrightarrow> (\<forall>c \<in> set s. (of_char c :: nat) < 128)"

lemma split_all_subset: "w \<in> set (split_all c s) \<Longrightarrow> set w \<subseteq> set s"
  by (induction s arbitrary: w) (fastforce split: if_splits list.splits)+

lemma split_words_subset: "w \<in> set (split_words v s) \<Longrightarrow> set w \<subseteq> set v \<union> set s"
proof (induction v s arbitrary: w rule: split_words.induct)
  case (2 v c s)
  show ?case
    using 2 by (auto simp: split_words.simps(2) [of v c s] flush_def split: if_splits list.splits) fastforce+
qed (auto simp: flush_def split: if_splits)

lemma str_lines_subset: "l \<in> set (str_lines s) \<Longrightarrow> set l \<subseteq> set s"
proof (induction s rule: str_lines.induct)
  case (1 s)
  show ?case
  proof (cases "s = []")
    case False
    obtain a x where p: "split_once (CHR 0x0A) s = (a, x)" by force
    have a: "set (strip_cr a) \<subseteq> set a" by (auto simp: strip_cr_def dest: in_set_butlastD)
    show ?thesis
    proof (cases x)
      case None
      with p 1 False show ?thesis by (subst (asm) str_lines.simps) (auto dest: split_once_NoneD)
    next
      case (Some r)
      with p have s: "s = a @ CHR 0x0A # r" by (auto dest: split_once_SomeD)
      from "1.prems" have "l = strip_cr a \<or> l \<in> set (str_lines r)"
        by (subst (asm) str_lines.simps) (simp add: p Some False)
      with "1.IH" [OF False p [symmetric] Some] a show ?thesis by (auto simp: s)
    qed
  qed (use "1.prems" in simp)
qed

lemma hex2addr_ascii: "ascii s \<Longrightarrow> hex2addr s \<noteq> None"
proof -
  assume s: "ascii s"
  have "length p = 8 \<Longrightarrow> p \<in> set (split_all (CHR '':'') s) \<Longrightarrow> i < 8 \<Longrightarrow> char_boundary p i" for p i
    using s split_all_subset [of p "CHR '':''" s] nth_mem [of i p]
    by (fastforce simp: char_boundary_def continues_def ascii_def)
  then show ?thesis by (auto simp: hex2addr_def Let_def split: list.splits)
qed

lemma netstat_row_ascii:
  "ascii line \<Longrightarrow> \<not> length (split_whitespace line) < 4 \<Longrightarrow> netstat_row proto (split_whitespace line) st \<noteq> None"
proof -
  assume line: "ascii line" "\<not> length (split_whitespace line) < 4"
  have "hex2addr (split_whitespace line ! i) \<noteq> None" if "i < 4" for i
  proof (rule hex2addr_ascii)
    have "split_whitespace line ! i \<in> set (split_whitespace line)" using line(2) that by (intro nth_mem) simp
    then show "ascii (split_whitespace line ! i)"
      using line(1) split_words_subset [of _ "[]" line] by (fastforce simp: ascii_def split_whitespace_def)
  qed
  from this [of 1] this [of 2] show ?thesis by (auto simp: netstat_row_def)
qed

lemma collect_rows_Some: "(\<And>l. l \<in> set ls \<Longrightarrow> row l \<noteq> None) \<Longrightarrow> collect_rows row ls \<noteq> None"
proof (induction ls)
  case (Cons l ls)
  then have "row l \<noteq> None" "collect_rows row ls \<noteq> None" by auto
  then show ?case by auto
qed simp

lemma rows_ascii:
  assumes "ascii t"
  shows "collect_rows (tcp_row l) (drop 1 (str_lines t)) \<noteq> None" "collect_rows udp_row (drop 1 (str_lines t)) \<noteq> None"
proof -
  have line: "ascii x" if "x \<in> set (drop 1 (str_lines t))" for x
    using str_lines_subset [of x t] assms in_set_dropD [OF that] by (auto simp: ascii_def)
  show "collect_rows (tcp_row l) (drop 1 (str_lines t)) \<noteq> None" "collect_rows udp_row (drop 1 (str_lines t)) \<noteq> None"
    by (rule collect_rows_Some,
        use netstat_row_ascii [OF line] in \<open>force simp: tcp_row_def udp_row_def Let_def\<close>)+
qed

end
