(* ===== verification/NativeCommands.thy ===== *)
theory NativeCommands
  imports NativeFiles NativeServices Daemon
begin

text \<open>
  \<^verbatim>\<open>run_native_cmd\<close> of \<^verbatim>\<open>crates/daemon/src/native_cmd/dispatch.rs\<close>: every native command with the
  arguments it passes on and those it drops, the properties of the commands, and what the daemon
  answers to a \<^verbatim>\<open>NativeCmd\<close> message on a given machine.
\<close>

text \<open>What the commands run on: the machine, floating point, the digests of the crates, the \<^verbatim>\<open>Debug\<close> form of a list
  of strings, and the depth to which a recursive search is followed.\<close>

record ('h, 'f) native_env =
  ne_sys :: "'h os"
  ne_float :: "'f float_text"
  ne_md5 :: "bytes \<Rightarrow> bytes"
  ne_sha256 :: "bytes \<Rightarrow> bytes"
  ne_debug :: "string list \<Rightarrow> string"
  ne_depth :: nat

definition run_native_cmd :: "('h, 'f) native_env \<Rightarrow> NativeCmdType \<Rightarrow> 'h \<Rightarrow> 'h \<times> outcome" where
  "run_native_cmd N cmd h =
     (let sys = ne_sys N; F = ne_float N
      in case cmd of
           Ls path long all \<Rightarrow> (h, cmd_ls sys path long all h)
         | Cat path \<Rightarrow> (h, cmd_cat sys path h)
         | Head path n \<Rightarrow> (h, cmd_head sys path n h)
         | Tail path n _ _ \<Rightarrow> (h, cmd_tail sys path n h)
         | Stat path \<Rightarrow> (h, cmd_stat sys path h)
         | Uptime \<Rightarrow> (h, reply (cmd_uptime F sys h) 0)
         | Hostname \<Rightarrow> (h, cmd_hostname sys h)
         | Free human \<Rightarrow> (h, cmd_free sys human h)
         | Cpu \<Rightarrow> (h, cmd_cpu sys h)
         | Uname all release machine \<Rightarrow> (h, cmd_uname sys all release machine h)
         | Whoami \<Rightarrow> (h, cmd_whoami sys h)
         | Ps full user tree \<Rightarrow> (h, cmd_ps F sys full user tree h)
         | Info \<Rightarrow> (h, cmd_info F sys h)
         | Arp \<Rightarrow> (h, cmd_arp sys h)
         | Netstat tcp udp _ listening \<Rightarrow> (h, cmd_netstat sys tcp udp listening h)
         | PortScan host a b _ \<Rightarrow> (h, cmd_portscan sys host a b h)
         | Top _ _ \<Rightarrow> (h, reply (cmd_top_snapshot F sys h) 0)
         | Grep pat path recursive ln cnt \<Rightarrow> (h, cmd_grep (ne_depth N) sys pat path recursive ln cnt h)
         | Dmesg n _ \<Rightarrow> (h, cmd_dmesg sys n h)
         | Lsblk \<Rightarrow> (h, cmd_lsblk F sys h)
         | Mount \<Rightarrow> cmd_mount sys h
         | Who \<Rightarrow> cmd_who sys h
         | Kill pid signal \<Rightarrow> cmd_kill sys pid signal h
         | Pgrep name full cnt \<Rightarrow> cmd_pgrep sys name full cnt h
         | Dns hostname _ \<Rightarrow> cmd_dns sys hostname h
         | Ssh \<Rightarrow> cmd_ssh_check sys h
         | Mkdir recursive paths \<Rightarrow> cmd_mkdir sys recursive paths h
         | Rm recursive force paths \<Rightarrow> cmd_rm sys recursive force paths h
         | Mv src dest \<Rightarrow> cmd_mv sys src dest h
         | Cp recursive src dest \<Rightarrow> cmd_cp sys recursive src dest h
         | Chmod mode paths \<Rightarrow> cmd_chmod sys mode paths h
         | Chown owner paths \<Rightarrow> cmd_chown sys owner paths h
         | Diff file1 file2 \<Rightarrow> cmd_diff sys file1 file2 h
         | Wc lines words paths \<Rightarrow> cmd_wc sys lines words paths h
         | Find path name kind maxdepth \<Rightarrow> cmd_find sys path name kind maxdepth h
         | Tree path depth dirs_only \<Rightarrow> cmd_tree sys path depth dirs_only h
         | Du path summarize maxdepth \<Rightarrow> cmd_du sys path summarize maxdepth h
         | Df human _ \<Rightarrow> cmd_df sys human h
         | Last n \<Rightarrow> cmd_last sys n h
         | Ip _ _ _ \<Rightarrow> (h, cmd_ip sys h)
         | Service action \<Rightarrow> cmd_service sys action h
         | Journal unit _ n prio _ \<Rightarrow> (h, cmd_journal sys unit n prio h)
         | Pkg action \<Rightarrow> cmd_pkg sys action h
         | Docker action \<Rightarrow> (h, cmd_docker (ne_debug N) action)
         | Crontab action \<Rightarrow> cmd_crontab sys action h
         | Firewall backend \<Rightarrow> (h, cmd_firewall sys backend h)
         | Checksum path algorithm \<Rightarrow> (h, cmd_checksum sys (ne_md5 N) (ne_sha256 N) path algorithm h)
         | BatchContent lines _ \<Rightarrow> (h, reply (join_with newline lines) 0)
         | Watch _ cmds \<Rightarrow> cmd_watch_fn sys cmds h
         | WriteFile path dat app \<Rightarrow> native_write_file sys path dat app h
         | Sed path pattern replacement _ _ \<Rightarrow> native_sed sys path pattern replacement h
         | ReadFile path \<Rightarrow> (h, native_read_file sys path h)
         | Touch path \<Rightarrow> native_touch sys path h
         | Pkill name signal \<Rightarrow> native_pkill sys name signal h
         | ShellExec c _ \<Rightarrow> native_shell sys c h)"

section \<open>Commands that change nothing\<close>

text \<open>The commands that neither write a file nor run a program.\<close>

definition reads_only :: "NativeCmdType \<Rightarrow> bool" where
  "reads_only cmd =
     (case cmd of
        Mount \<Rightarrow> False | Who \<Rightarrow> False | Kill _ _ \<Rightarrow> False | Pgrep _ _ _ \<Rightarrow> False | Dns _ _ \<Rightarrow> False
      | Ssh \<Rightarrow> False | Mkdir _ _ \<Rightarrow> False | Rm _ _ _ \<Rightarrow> False | Mv _ _ \<Rightarrow> False | Cp _ _ _ \<Rightarrow> False
      | Chmod _ _ \<Rightarrow> False | Chown _ _ \<Rightarrow> False | Diff _ _ \<Rightarrow> False | Wc _ _ _ \<Rightarrow> False
      | Find _ _ _ _ \<Rightarrow> False | Tree _ _ _ \<Rightarrow> False | Du _ _ _ \<Rightarrow> False | Df _ _ \<Rightarrow> False | Last _ \<Rightarrow> False
      | Watch _ _ \<Rightarrow> False | WriteFile _ _ _ \<Rightarrow> False | Sed _ _ _ _ _ \<Rightarrow> False | Touch _ \<Rightarrow> False
      | Pkill _ _ \<Rightarrow> False | ShellExec _ _ \<Rightarrow> False
      | Service a \<Rightarrow> (case a of ServiceList _ _ \<Rightarrow> True | ServiceStatus _ \<Rightarrow> True | _ \<Rightarrow> False)
      | Pkg a \<Rightarrow> (case a of PkgList _ \<Rightarrow> True | PkgSearch _ \<Rightarrow> True | _ \<Rightarrow> False)
      | Crontab a \<Rightarrow> (case a of CrontabRemove \<Rightarrow> False | _ \<Rightarrow> True)
      | _ \<Rightarrow> True)"

text \<open>
  A command that lists, reads, searches or reports leaves the machine as it is, whatever its
  arguments and whatever it answers.
\<close>

theorem run_reads_only: "reads_only cmd \<Longrightarrow> fst (run_native_cmd N cmd h) = h"
  by (cases cmd)
     (simp_all add: reads_only_def run_native_cmd_def Let_def split: ServiceActionType.splits
        PkgActionType.splits CrontabActionType.splits)

section \<open>A machine with files\<close>

definition nat_floats :: "nat float_text" where
  "nat_floats = \<lparr>f_add = (+), f_sub = (-), f_mul = (*), f_div = (div), f_max = max, f_min = min,
     f_less = (<), f_of_nat = id, f_lit = (div), f_to_nat = id, f_is_duration = (\<lambda>_. True),
     f_rem = (mod), f_parse = parse_below (2 ^ 64), f_show1 = show_nat\<rparr>"

definition demo_native :: "(machine, nat) native_env" where
  "demo_native = \<lparr>ne_sys = table_os, ne_float = nat_floats, ne_md5 = id, ne_sha256 = id, ne_debug = concat, ne_depth = 3\<rparr>"

definition demo_text :: string where
  "demo_text = unlines [''alpha one'', ''beta'', ''alpha two'']"

definition demo_machine :: machine where
  "demo_machine = \<lparr>mc_files = [(''/d/a'', str_bytes demo_text), (''/d/sub/b'', str_bytes (unlines [''alpha'']))],
     mc_dirs = [(''/d'', [str_bytes ''a'', str_bytes ''sub'']), (''/d/sub'', [str_bytes ''b''])]\<rparr>"

lemma demo_sys [simp]: "ne_sys demo_native = table_os" "ne_depth demo_native = 3"
  by (simp_all add: demo_native_def)

lemma demo_lines: "str_lines demo_text = [''alpha one'', ''beta'', ''alpha two'']"
  unfolding demo_text_def by (rule str_lines_unlines) (simp add: plain_line_def)

lemma demo_valid: "utf8_valid (str_bytes demo_text)" "utf8_valid (str_bytes (unlines [''alpha'']))"
  by (simp_all add: demo_text_def str_bytes_def)

lemma demo_read:
  "read_to_string table_os demo_machine ''/d/a'' = Inr demo_text"
  "read_to_string table_os demo_machine ''/d/sub/b'' = Inr (unlines [''alpha''])"
  using demo_valid by (simp_all add: read_to_string_def table_os_def demo_machine_def)

section \<open>Properties of the commands\<close>

text \<open>
  Head and tail divide a file: the first n lines and the last (length - n) lines, one after
  the other, are all lines of the file, each followed by a line feed, and both commands succeed.
\<close>

theorem head_and_tail_partition:
  assumes "read_to_string (ne_sys N) h path = Inr c" "n \<le> length (str_lines c)" "length (str_lines c) < 2 ^ 32"
  shows "\<exists>a b. snd (run_native_cmd N (Head path (of_nat n)) h) = reply a 0
    \<and> snd (run_native_cmd N (Tail path (of_nat (length (str_lines c) - n)) f s) h) = reply b 0
    \<and> a @ b = unlines (str_lines c)"
proof -
  let ?l = "str_lines c"
  have "unat (of_nat n :: u32) = n" "unat (of_nat (length ?l - n) :: u32) = length ?l - n"
    by (rule unat_of_nat_small, use assms in simp)+
  then have "snd (run_native_cmd N (Head path (of_nat n)) h) = reply (unlines (take n ?l)) 0"
    "snd (run_native_cmd N (Tail path (of_nat (length ?l - n)) f s) h) = reply (unlines (drop n ?l)) 0"
    using assms by (simp_all add: run_native_cmd_def cmd_head_def cmd_tail_lines)
  moreover have "unlines (take n ?l) @ unlines (drop n ?l) = unlines ?l"
    by (metis append_take_drop_id unlines_append)
  ultimately show ?thesis by blast
qed

theorem head_and_tail_partition_witness:
  "\<exists>a b. snd (run_native_cmd demo_native (Head ''/d/a'' (of_nat 1)) demo_machine) = reply a 0
    \<and> snd (run_native_cmd demo_native (Tail ''/d/a'' (of_nat (length (str_lines demo_text) - 1)) False 0) demo_machine)
        = reply b 0
    \<and> a @ b = unlines [''alpha one'', ''beta'', ''alpha two'']"
  using head_and_tail_partition [of demo_native demo_machine "''/d/a''" demo_text 1 False 0] demo_read
  by (simp add: demo_lines)

text \<open>
  C19. A recursive search that the machine's directories bound in depth returns, and its count is
  the sum of the matching lines of all readable files below the directory; the exit code is 0
  exactly when there is one. Deeper bounds give the same answer.
\<close>

theorem recursive_grep_counts:
  assumes "files_below d (ne_sys N) h path = Some fs" "d \<le> ne_depth N"
  shows "run_native_cmd N (Grep pat path True ln True) h =
    (let t = sum_list (map (matches_in (ne_sys N) h pat) fs)
     in (h, reply (show_nat t @ newline) (if t > 0 then 0 else 1)))"
proof -
  have "files_below (ne_depth N) (ne_sys N) h path = Some fs"
    using assms by (rule files_below_le [rotated])
  moreover obtain out t where g: "grep_files (ne_sys N) h pat ln True fs ([], 0) = (out, t)" by force
  moreover have "t = sum_list (map (matches_in (ne_sys N) h pat) fs)"
    using grep_files_total [of "ne_sys N" h pat ln True fs "([], 0)"] g by simp
  ultimately show ?thesis
    by (simp add: run_native_cmd_def cmd_grep_def grep_walk_files Let_def)
qed

lemma demo_files: "files_below 2 table_os demo_machine ''/d'' = Some [''/d/a'', ''/d/sub/b'']"
  by (simp add: numeral_2_eq_2 dir_names_def table_os_def demo_machine_def path_join_def)

theorem recursive_grep_counts_witness:
  "run_native_cmd demo_native (Grep ''alpha'' ''/d'' True False True) demo_machine
     = (demo_machine, reply (show_nat 3 @ newline) 0)"
proof -
  have "str_lines (unlines [''alpha'']) = [''alpha'']" by (rule str_lines_unlines) (simp add: plain_line_def)
  then have "sum_list (map (matches_in table_os demo_machine ''alpha'') [''/d/a'', ''/d/sub/b'']) = 3"
    by (simp add: matches_in_def demo_read demo_lines starts_with_def)
  then show ?thesis
    using recursive_grep_counts [of 2 demo_native demo_machine "''/d''" "[''/d/a'', ''/d/sub/b'']" "''alpha''" False] demo_files
    by (simp add: Let_def)
qed

text \<open>
  The addresses of netstat: the text the kernel prints for an IPv4 address and a port is shown
  as the dotted address and the decimal port.
\<close>

theorem hex2addr_shows_address:
  "hex2addr (kernel_addr a b c d port) = Some (show_u a @ ''.'' @ show_u b @ ''.'' @ show_u c @ ''.'' @ show_u d @ '':'' @ show_u port)"
  by (simp add: hex2addr_kernel dotted_def)

text \<open>
  Netstat never panics on kernel tables of ASCII text, although it slices addresses at byte
  positions.
\<close>

theorem netstat_returns:
  assumes "ascii (read_proc (ne_sys N) h ''/proc/net/tcp'')" "ascii (read_proc (ne_sys N) h ''/proc/net/udp'')"
  shows "\<exists>t. run_native_cmd N (Netstat tcp udp numeric listening) h = (h, reply t 0)"
  using rows_ascii(1) [OF assms(1), of listening] rows_ascii(2) [OF assms(2)]
  by (auto simp: run_native_cmd_def cmd_netstat_def Let_def split: prod.splits option.splits)

theorem netstat_returns_witness:
  "\<exists>t. run_native_cmd demo_native (Netstat True True False False) demo_machine = (demo_machine, reply t 0)"
  by (rule netstat_returns)
     (simp_all add: ascii_def read_proc_def read_to_string_def table_os_def demo_machine_def)

text \<open>
  The readable size of a number of bytes from one MiB to one GiB: a whole part below 1024 and
  one decimal digit; it never exceeds the size and falls short of it by less than a tenth of a MiB
  and one KiB.
\<close>

theorem size_text_accuracy:
  assumes "2 ^ 20 \<le> unat s" "unat s < 2 ^ 30"
  shows "\<exists>m t. hfmt s = show_nat m @ ''.'' @ show_nat t @ ''M'' \<and> m < 1024 \<and> t < 10
    \<and> (10 * m + t) * 2 ^ 20 \<le> 10 * unat s \<and> 10 * unat s < (10 * m + t + 1) * 2 ^ 20 + 10 * 2 ^ 10"
proof -
  define k where "k = unat s div 1024"
  define m t where "m = k div 1024" and "t = (k mod 1024) * 10 div 1024"
  have k: "1024 * k \<le> unat s" "unat s < 1024 * k + 1024" unfolding k_def
    by (simp, metis add.commute dividend_less_times_div zero_less_numeral)
  have m: "m < 1024" "\<not> k < 1024" "\<not> unat s < 1024" using assms by (simp_all add: m_def k_def)
  have b: "t < 10" "(10 * m + t) * 1024 \<le> 10 * k" "10 * k < (10 * m + t + 1) * 1024"
    using tenth_bounds [of k] by (simp_all add: m_def t_def)
  have "hfmt s = show_nat m @ ''.'' @ show_nat t @ ''M''"
    using m by (simp only: hfmt_nat Let_def k_def m_def t_def if_False if_True)
  moreover have "(10 * m + t) * 2 ^ 20 \<le> 10 * unat s" "10 * unat s < (10 * m + t + 1) * 2 ^ 20 + 10 * 2 ^ 10"
    using b k by (simp_all add: distrib_right)
  ultimately show ?thesis using m b by blast
qed

theorem size_text_accuracy_witness:
  "\<exists>m t. hfmt 1572864 = show_nat m @ ''.'' @ show_nat t @ ''M'' \<and> m < 1024 \<and> t < 10
    \<and> (10 * m + t) * 2 ^ 20 \<le> 10 * unat (1572864 :: u64)
    \<and> 10 * unat (1572864 :: u64) < (10 * m + t + 1) * 2 ^ 20 + 10 * 2 ^ 10"
  by (rule size_text_accuracy) simp_all

text \<open>
  What is written is read back: after a \<^verbatim>\<open>WriteFile\<close> that reports success, \<^verbatim>\<open>ReadFile\<close> and
  \<^verbatim>\<open>Cat\<close> of the path return the data, on every machine that keeps the law of writing.
\<close>

theorem write_then_read:
  assumes "write_law (ne_sys N)" "utf8_valid dat"
    and "run_native_cmd N (WriteFile path dat False) h = (h', Returns b (Some 0))"
  shows "run_native_cmd N (ReadFile path) h' = (h', Returns dat (Some 0))
    \<and> run_native_cmd N (Cat path) h' = (h', Returns dat (Some 0))"
proof -
  have "os_write (ne_sys N) h path dat = (h', FileWritten)"
    using native_write_ok [of "ne_sys N" path dat False h h' b] assms(3) by (simp add: run_native_cmd_def)
  with assms(1) have "os_read (ne_sys N) h' path = Inr dat" unfolding write_law_def by blast
  with assms(2) show ?thesis
    by (simp add: run_native_cmd_def native_read_file_def read_to_string_def reply_def cmd_cat_def)
qed

theorem write_then_read_witness:
  "\<exists>h'. run_native_cmd demo_native (WriteFile ''/d/c'' (str_bytes ''text'') False) demo_machine
      = (h', Returns (str_bytes (''ok'' @ newline)) (Some 0))
    \<and> run_native_cmd demo_native (ReadFile ''/d/c'') h' = (h', Returns (str_bytes ''text'') (Some 0))"
proof -
  define h' where "h' = mc_put ''/d/c'' (str_bytes ''text'') demo_machine"
  have w: "run_native_cmd demo_native (WriteFile ''/d/c'' (str_bytes ''text'') False) demo_machine
      = (h', Returns (str_bytes (''ok'' @ newline)) (Some 0))"
    by (simp add: run_native_cmd_def native_write_file_def table_os_def h'_def reply_def)
  have "utf8_valid (str_bytes ''text'')" by (simp add: str_bytes_def)
  from write_then_read [OF _ this w] table_write_law w show ?thesis by auto
qed

text \<open>
  \<^verbatim>\<open>Sed\<close> replaces every occurrence of the literal pattern, whatever its flags \<^verbatim>\<open>global\<close> and
  \<^verbatim>\<open>regex\<close> say: after success the file holds the text with all occurrences replaced.
\<close>

theorem sed_replaces_all:
  assumes "write_law (ne_sys N)" "read_to_string (ne_sys N) h path = Inr c"
    and "run_native_cmd N (Sed path pat t g r) h = (h', Returns b (Some 0))"
  shows "run_native_cmd N (Cat path) h' = (h', Returns (str_bytes (str_replace pat t c)) (Some 0))
    \<and> run_native_cmd N (Sed path pat t g' r') h = run_native_cmd N (Sed path pat t g r) h"
proof -
  have "os_write (ne_sys N) h path (str_bytes (str_replace pat t c)) = (h', FileWritten)"
    using assms(2,3) fs_write_ok [of "ne_sys N" "''write''" path _ h h' b] by (simp add: run_native_cmd_def native_sed_def)
  with assms(1) have "os_read (ne_sys N) h' path = Inr (str_bytes (str_replace pat t c))"
    unfolding write_law_def by blast
  then show ?thesis by (simp add: run_native_cmd_def cmd_cat_def)
qed

theorem sed_replaces_all_witness:
  "\<exists>h'. run_native_cmd demo_native (Sed ''/d/sub/b'' ''a'' ''A'' False False) demo_machine
        = (h', Returns (str_bytes (''ok'' @ newline)) (Some 0))
    \<and> run_native_cmd demo_native (Cat ''/d/sub/b'') h' = (h', Returns (str_bytes (unlines [''AlphA''])) (Some 0))"
proof -
  define h' where "h' = mc_put ''/d/sub/b'' (str_bytes (unlines [''AlphA''])) demo_machine"
  have r: "str_replace ''a'' ''A'' (unlines [''alpha'']) = unlines [''AlphA'']"
    by (simp add: str_replace_def starts_with_def)
  have w: "run_native_cmd demo_native (Sed ''/d/sub/b'' ''a'' ''A'' False False) demo_machine
      = (h', Returns (str_bytes (''ok'' @ newline)) (Some 0))"
    by (simp only: run_native_cmd_def Let_def NativeCmdType.case native_sed_def demo_sys demo_read sum.case fs_write_def r)
       (simp add: table_os_def h'_def reply_def)
  from sed_replaces_all [OF _ _ w, of "unlines [''alpha'']" False False] table_write_law demo_read(2) w show ?thesis
    by (auto simp: r simp del: unlines_simps)
qed

text \<open>
  \<^verbatim>\<open>Touch\<close> of a file that exists erases it: after success the file is empty, whatever it held.
\<close>

theorem touch_erases:
  assumes "write_law (ne_sys N)" "run_native_cmd N (Touch path) h = (h', Returns b (Some 0))"
  shows "run_native_cmd N (Cat path) h' = (h', Returns [] (Some 0))"
proof -
  have "os_write (ne_sys N) h path [] = (h', FileWritten)"
    using assms(2) fs_write_ok [of "ne_sys N" "''touch''" path "[]" h h' b] by (simp add: run_native_cmd_def native_touch_def)
  with assms(1) have "os_read (ne_sys N) h' path = Inr []" unfolding write_law_def by blast
  then show ?thesis by (simp add: run_native_cmd_def cmd_cat_def)
qed

theorem touch_erases_witness:
  "run_native_cmd demo_native (Cat ''/d/a'') demo_machine = (demo_machine, Returns (str_bytes demo_text) (Some 0))
    \<and> (\<exists>h'. run_native_cmd demo_native (Touch ''/d/a'') demo_machine = (h', Returns (str_bytes (''ok'' @ newline)) (Some 0))
         \<and> run_native_cmd demo_native (Cat ''/d/a'') h' = (h', Returns [] (Some 0)))"
proof -
  define h' where "h' = mc_put ''/d/a'' [] demo_machine"
  have w: "run_native_cmd demo_native (Touch ''/d/a'') demo_machine = (h', Returns (str_bytes (''ok'' @ newline)) (Some 0))"
    by (simp add: run_native_cmd_def native_touch_def fs_write_def table_os_def h'_def reply_def)
  have "run_native_cmd demo_native (Cat ''/d/a'') demo_machine = (demo_machine, Returns (str_bytes demo_text) (Some 0))"
    by (simp add: run_native_cmd_def cmd_cat_def table_os_def demo_machine_def)
  with touch_erases [OF _ w] table_write_law w show ?thesis by auto
qed

text \<open>
  Appending does not create a file: on a machine that keeps the law of appending,
  \<^verbatim>\<open>WriteFile\<close> with \<^verbatim>\<open>append\<close> reports an error for a path that does not exist.
\<close>

theorem append_needs_file:
  assumes "append_law (ne_sys N)" "\<not> os_exists (ne_sys N) h path"
    and "run_native_cmd N (WriteFile path dat True) h = (h', r)"
  shows "\<exists>e. r = reply (''open error: '' @ e @ newline) 1 \<or> r = reply (''write error: '' @ e @ newline) 1"
proof -
  have "snd (os_append (ne_sys N) h path dat) \<noteq> FileWritten"
    using assms(1,2) unfolding append_law_def by (metis prod.collapse)
  with assms(3) show ?thesis
    by (auto simp: run_native_cmd_def native_write_file_def split: prod.splits write_result.splits)
qed

theorem append_needs_file_witness:
  "\<exists>e. snd (run_native_cmd demo_native (WriteFile ''/d/new'' [65] True) demo_machine) = reply (''open error: '' @ e @ newline) 1
     \<or> snd (run_native_cmd demo_native (WriteFile ''/d/new'' [65] True) demo_machine) = reply (''write error: '' @ e @ newline) 1"
proof -
  have "\<not> os_exists (ne_sys demo_native) demo_machine ''/d/new''" by (simp add: table_os_def demo_machine_def)
  from append_needs_file [OF _ this prod.collapse [symmetric]] table_append_law show ?thesis by simp
qed

text \<open>
  The package list shows one row per stanza of the database that an empty line ends, in
  order; a last stanza without an empty line after it is not shown.
\<close>

theorem package_rows:
  assumes "read_to_string (ne_sys N) h DPKG_STATUS = Inr status"
    and "str_lines status = concat (map (\<lambda>f. stanza f @ [[]]) fs) @ rest"
    and "\<forall>f \<in> set fs. pn f \<noteq> []" "rest = [] \<or> (\<exists>g. rest = stanza g)"
  shows "run_native_cmd N (Pkg (PkgList installed)) h = (h, reply (pkg_header @ concat (map pkg_row fs)) 0)"
proof -
  obtain out g where f: "foldl pkg_list_line (pkg_header, no_fields) (concat (map (\<lambda>f. stanza f @ [[]]) fs)) = (out, g)"
    by force
  with pkg_list_stanzas [OF assms(3), of pkg_header no_fields]
  have out: "out = pkg_header @ concat (map pkg_row fs)" by simp
  have "fst (foldl pkg_list_line (out, g) rest) = out"
    using assms(4) by (auto simp: pkg_list_stanza)
  then have "fst (foldl pkg_list_line (pkg_header, no_fields) (str_lines status)) = out"
    by (simp only: assms(2) foldl_append f)
  then show ?thesis by (simp add: run_native_cmd_def pkg_list_def assms(1) out)
qed

definition demo_pkg :: "string \<Rightarrow> pkg_fields" where
  "demo_pkg n = \<lparr>pn = n, pv = ''1.0'', pa = ''amd64'', pd = ''tool'', ps = ''install ok installed''\<rparr>"

definition demo_status :: "string list" where
  "demo_status = stanza (demo_pkg ''a'') @ [[]] @ stanza (demo_pkg ''b'')"

definition pkg_machine :: machine where
  "pkg_machine = \<lparr>mc_files = [(DPKG_STATUS, str_bytes (unlines demo_status))], mc_dirs = []\<rparr>"

theorem package_rows_witness:
  "run_native_cmd demo_native (Pkg (PkgList True)) pkg_machine
     = (pkg_machine, reply (pkg_header @ pkg_row (demo_pkg ''a'')) 0)"
proof -
  have "list_all plain_line demo_status"
    by (simp add: demo_status_def stanza_def demo_pkg_def plain_line_def)
  then have lines: "str_lines (unlines demo_status) = demo_status" by (rule str_lines_unlines)
  have "utf8_valid (str_bytes (unlines demo_status))"
    by (simp add: demo_status_def stanza_def demo_pkg_def str_bytes_def)
  then have "read_to_string (ne_sys demo_native) pkg_machine DPKG_STATUS = Inr (unlines demo_status)"
    by (simp add: read_to_string_def table_os_def pkg_machine_def)
  then have "run_native_cmd demo_native (Pkg (PkgList True)) pkg_machine
      = (pkg_machine, reply (pkg_header @ concat (map pkg_row [demo_pkg ''a''])) 0)"
    by (rule package_rows [where rest = "stanza (demo_pkg ''b'')"])
       (use lines in \<open>auto simp: demo_status_def demo_pkg_def\<close>)
  then show ?thesis by simp
qed

theorem run_reads_only_witness:
  "reads_only (Service (ServiceStatus ''ssh''))
    \<and> fst (run_native_cmd demo_native (Service (ServiceStatus ''ssh'')) demo_machine) = demo_machine"
  using run_reads_only [of "Service (ServiceStatus ''ssh'')" demo_native demo_machine] by (simp add: reads_only_def)

text \<open>
  \<^verbatim>\<open>Dmesg\<close> does not return when the kernel log has fewer than 128 records: every record is one
  read, and the next read waits for a record that does not come.
\<close>

theorem short_kernel_log_hangs:
  assumes "os_kmsg (ne_sys N) h = Some rs" "length rs < 128" "\<forall>r \<in> set rs. r \<noteq> None \<and> r \<noteq> Some []"
  shows "snd (run_native_cmd N (Dmesg n level) h) = Hangs"
  using kmsg_loop_waits [OF assms(2,3)] by (simp add: run_native_cmd_def cmd_dmesg_def assms(1))

theorem short_kernel_log_hangs_witness:
  "snd (run_native_cmd (demo_native\<lparr>ne_sys := table_os\<lparr>os_kmsg := \<lambda>_. Some [Some [65]]\<rparr>\<rparr>) (Dmesg 10 None) demo_machine) = Hangs"
  by (rule short_kernel_log_hangs [where rs = "[Some [65]]"]) simp_all

text \<open>
  The units of a service list are in strictly increasing byte order, so that no unit that
  several directories hold is listed twice, and they are the names ending in \<^verbatim>\<open>.service\<close>.
\<close>

theorem service_units_sorted:
  "sorted_wrt (\<lambda>a b. bytes_le (str_bytes a) (str_bytes b)) (service_units sys h)
    \<and> distinct (service_units sys h)
    \<and> set (service_units sys h) = {n \<in> lossy_str ` (set (dir_names sys h ''/etc/systemd/system'')
         \<union> set (dir_names sys h ''/lib/systemd/system'') \<union> set (dir_names sys h ''/run/systemd/system'')).
         ends_with ''.service'' n}"
proof -
  let ?names = "dir_names sys h ''/etc/systemd/system'' @ dir_names sys h ''/lib/systemd/system'' @ dir_names sys h ''/run/systemd/system''"
  let ?l = "sort_by bytes_le (map str_bytes (filter (ends_with ''.service'') (map lossy_str ?names)))"
  have "sorted_wrt bytes_le (remdups_adj ?l) \<and> distinct (remdups_adj ?l)"
    by (rule sorted_remdups_adj_by) (simp_all add: bytes_le_order sorted_sort_by bytes_le_antisym)
  moreover have "inj_on bytes_str A" for A by (simp add: inj_on_def bytes_str_inject)
  ultimately have "sorted_wrt (\<lambda>a b. bytes_le (str_bytes a) (str_bytes b)) (service_units sys h)" "distinct (service_units sys h)"
    by (simp_all add: service_units_def sorted_wrt_map distinct_map)
  moreover have "set (service_units sys h) = set (filter (ends_with ''.service'') (map lossy_str ?names))"
    by (simp add: service_units_def image_image del: map_append set_append filter_append)
  ultimately show ?thesis by auto
qed

text \<open>
  Without \<^verbatim>\<open>/etc/ufw\<close> the firewall command for \<^verbatim>\<open>ufw\<close> answers with the bare prefix of its
  status line; the text for missing rules is never given for this backend.
\<close>

theorem ufw_missing:
  assumes "\<not> os_exists (ne_sys N) h ''/etc/ufw''"
  shows "run_native_cmd N (Firewall ''ufw'') h = (h, reply ''Status: '' 0)"
  using assms by (simp add: run_native_cmd_def cmd_firewall_def)

theorem ufw_missing_witness:
  "run_native_cmd demo_native (Firewall ''ufw'') demo_machine = (demo_machine, reply ''Status: '' 0)"
  by (rule ufw_missing) (simp add: table_os_def demo_machine_def)

section \<open>The daemon on a machine\<close>

text \<open>
  An environment of the daemon whose native commands are those of a machine in a given state;
  a command that panics is answered with the text of the failed task, one that does not return
  is not constrained.
\<close>

definition native_at :: "('h, 'f) native_env \<Rightarrow> 'h \<Rightarrow> daemon_env \<Rightarrow> bool" where
  "native_at N h E \<longleftrightarrow> (\<forall>cmd. case snd (run_native_cmd N cmd h) of
       Returns b c \<Rightarrow> env_native E cmd = (b, c)
     | Panics \<Rightarrow> env_native E cmd = (str_bytes (''NativeCmd: spawn_blocking failed'' @ newline), Some 1)
     | Hangs \<Rightarrow> True)"

lemma native_at_returns:
  "native_at N h E \<Longrightarrow> snd (run_native_cmd N cmd h) = Returns b c \<Longrightarrow> env_native E cmd = (b, c)"
  unfolding native_at_def by (drule spec [of _ cmd]) simp


definition daemon_at :: "machine \<Rightarrow> daemon_env" where
  "daemon_at m = demo_env\<lparr>env_native := \<lambda>cmd. case snd (run_native_cmd demo_native cmd m) of
     Returns b c \<Rightarrow> (b, c)
   | Panics \<Rightarrow> (str_bytes (''NativeCmd: spawn_blocking failed'' @ newline), Some 1)
   | Hangs \<Rightarrow> ([], None)\<rparr>"

lemma native_at_daemon_at: "native_at demo_native m (daemon_at m)"
  by (simp add: native_at_def daemon_at_def split: outcome.split)


end
