(* ===== verification/SyncExchange.thy ===== *)
theory SyncExchange
  imports Sync Text Identity
begin

text \<open>
  The exchange of messages of an incremental sync, the network helpers of
  \<^verbatim>\<open>crates/vpn/src/storage/incremental.rs\<close>: the texts of requests, answers, blocks and manifests,
  what a listener hears, and the waiting for the first answer. JSON and hexadecimal text are
  parameters (\<open>sync_codec\<close>); the result of sending a request, the random tag and the data that
  reach the listener within its timeout are arguments. The results are the answers that
  \<open>sync_file\<close> and \<open>download_file\<close> of theory \<open>Sync\<close> work with.
\<close>

record sync_codec =
  sc_hex :: hex_codec
  sc_hex_error :: "hex_error \<Rightarrow> string"
  sc_manifest_json :: "FileManifest \<Rightarrow> string"
  sc_manifest_parse :: "string \<Rightarrow> (string, FileManifest) result"
  sc_block_json :: "string \<Rightarrow> u32 \<Rightarrow> string \<Rightarrow> string"
  sc_data_hex :: "string \<Rightarrow> (string, string option) result"

section \<open>Waiting\<close>

text \<open>The channel holds what the listener heard, in order; \<^verbatim>\<open>recv_timeout\<close> takes the first.\<close>

fun first_heard :: "(bytes \<Rightarrow> string option) \<Rightarrow> bytes list \<Rightarrow> string option" where
  "first_heard heard [] = None"
| "first_heard heard (d # ds) = (case heard d of None \<Rightarrow> first_heard heard ds | Some r \<Rightarrow> Some r)"

section \<open>Manifests\<close>

definition manifest_tag :: "u64 \<Rightarrow> string" where
  "manifest_tag rnd = ''incr-manifest-'' @ show_u rnd"

definition manifest_prefix :: "string \<Rightarrow> string" where
  "manifest_prefix tag = ''INCR_MANIFEST_RESP:'' @ tag @ '':''"

definition NONE_PREFIX :: string where
  "NONE_PREFIX = ''INCR_MANIFEST_NONE:''"

definition manifest_heard :: "string \<Rightarrow> string \<Rightarrow> bytes \<Rightarrow> string option" where
  "manifest_heard tag f dat =
     (if \<not> utf8_valid dat then None
      else let msg = bytes_str dat
           in if starts_with (manifest_prefix tag) msg then Some (trim_start_matches (manifest_prefix tag) msg)
              else if starts_with NONE_PREFIX msg then
                (if trim_start_matches NONE_PREFIX msg = f then Some [] else None)
              else None)"

definition manifest_request :: "string \<Rightarrow> string \<Rightarrow> string" where
  "manifest_request tag f = ''INCR_GET_MANIFEST:'' @ tag @ '':'' @ f"

definition quoted :: "string \<Rightarrow> string" where
  "quoted s = [CHR 0x27] @ s @ [CHR 0x27]"

definition manifest_answer ::
  "sync_codec \<Rightarrow> u64 \<Rightarrow> string \<Rightarrow> (string \<Rightarrow> (string, unit) result) \<Rightarrow> bytes list
     \<Rightarrow> (string, FileManifest option) result" where
  "manifest_answer K rnd f send calls =
     (let tag = manifest_tag rnd
      in case send (manifest_request tag f) of
           Inl e \<Rightarrow> Inl (''failed to request manifest: '' @ e)
         | Inr _ \<Rightarrow>
             (case first_heard (manifest_heard tag f) calls of
                None \<Rightarrow> Inl (''timeout waiting for manifest of '' @ quoted f)
              | Some resp \<Rightarrow>
                  if resp = [] then Inr None
                  else (case sc_manifest_parse K resp of
                          Inl e \<Rightarrow> Inl (''failed to parse manifest: '' @ e)
                        | Inr m \<Rightarrow> Inr (Some m))))"

section \<open>Blocks\<close>

definition block_tag :: "u32 \<Rightarrow> u64 \<Rightarrow> string" where
  "block_tag i rnd = ''incr-block-'' @ show_u i @ ''-'' @ show_u rnd"

definition block_prefix :: "string \<Rightarrow> string" where
  "block_prefix tag = ''INCR_BLOCK_RESP:'' @ tag @ '':''"

definition block_heard :: "string \<Rightarrow> bytes \<Rightarrow> string option" where
  "block_heard tag dat =
     (if utf8_valid dat \<and> starts_with (block_prefix tag) (bytes_str dat)
      then Some (trim_start_matches (block_prefix tag) (bytes_str dat)) else None)"

definition block_request :: "string \<Rightarrow> string \<Rightarrow> u32 \<Rightarrow> string" where
  "block_request tag f i = ''INCR_GET_BLOCK:'' @ tag @ '':'' @ f @ '':'' @ show_u i"

definition request_block ::
  "sync_codec \<Rightarrow> u64 \<Rightarrow> string \<Rightarrow> (string \<Rightarrow> (string, unit) result) \<Rightarrow> bytes list \<Rightarrow> u32
     \<Rightarrow> (string, bytes) result" where
  "request_block K rnd f send calls i =
     (let tag = block_tag i rnd
      in case send (block_request tag f i) of
           Inl e \<Rightarrow> Inl (''failed to request block '' @ show_u i @ '': '' @ e)
         | Inr _ \<Rightarrow>
             (case first_heard (block_heard tag) calls of
                None \<Rightarrow> Inl (''timeout waiting for block '' @ show_u i @ '' of '' @ quoted f)
              | Some resp \<Rightarrow>
                  (case sc_data_hex K resp of
                     Inl e \<Rightarrow> Inl (''invalid block response: '' @ e)
                   | Inr None \<Rightarrow> Inl ''missing data_hex in block response''
                   | Inr (Some h) \<Rightarrow>
                       (case hex_decode (sc_hex K) h of
                          Inl e \<Rightarrow> Inl (''invalid hex data in block response: '' @ sc_hex_error K e)
                        | Inr d \<Rightarrow> Inr d))))"

section \<open>Sending\<close>

definition sync_message :: "sync_codec \<Rightarrow> SyncMsg \<Rightarrow> string \<times> string" where
  "sync_message K m =
     (case m of
        IncrBlock tgt f i d \<Rightarrow> (tgt, ''INCR_BLOCK:'' @ sc_block_json K f i (hex_encode (sc_hex K) d))
      | IncrManifest tgt f man \<Rightarrow> (tgt, ''INCR_MANIFEST:'' @ f @ '':'' @ sc_manifest_json K man))"

definition show_sync_result :: "SyncResult \<Rightarrow> string" where
  "show_sync_result r =
     (if already_in_sync r then ''Already in sync ('' @ show_u (total_blocks r) @ '' blocks, 0 transferred)''
      else ''Transferred '' @ show_u (transferred_blocks r) @ '' of '' @ show_u (total_blocks r) @ '' blocks (''
           @ show_u (bytes_transferred r) @ '' bytes) in '' @ show_u (elapsed_secs r) @ ''s'')"

section \<open>Answers are heard\<close>

text \<open>
  What is assumed of JSON on the data at hand: printed values are objects, valid UTF-8, and
  parsed back.
\<close>

definition manifest_law :: "sync_codec \<Rightarrow> FileManifest \<Rightarrow> bool" where
  "manifest_law K m \<longleftrightarrow> sc_manifest_parse K (sc_manifest_json K m) = Inr m
     \<and> starts_with ''{'' (sc_manifest_json K m) \<and> utf8_valid (str_bytes (sc_manifest_json K m))"

definition block_law :: "sync_codec \<Rightarrow> string \<Rightarrow> bytes \<Rightarrow> bool" where
  "block_law K json d \<longleftrightarrow> sc_data_hex K json = Inr (Some (hex_encode (sc_hex K) d))
     \<and> hex_decode (sc_hex K) (hex_encode (sc_hex K) d) = Inr d
     \<and> starts_with ''{'' json \<and> utf8_valid (str_bytes json)"

lemma first_heard_skip: "(\<forall>d \<in> set ns. heard d = None) \<Longrightarrow> first_heard heard (ns @ ds) = first_heard heard ds"
  by (induction ns) auto

lemma show_nat_ascii: "c \<in> set (show_nat n) \<Longrightarrow> (of_char c :: nat) < 128"
  using show_nat_digits [of n] by (auto simp: list_all_iff is_digit_def)

lemma prefixes_ascii:
  "\<forall>c \<in> set (manifest_prefix (manifest_tag r)). (of_char c :: nat) < 128"
  "\<forall>c \<in> set (block_prefix (block_tag i r)). (of_char c :: nat) < 128"
  by (auto simp: manifest_prefix_def manifest_tag_def block_prefix_def block_tag_def show_u_def show_nat_ascii)

lemma object_after_prefix:
  assumes "starts_with ''{'' j" "p \<noteq> []" "hd p = CHR ''I''"
  shows "trim_start_matches p (p @ j) = j"
proof (rule trim_start_once)
  show "\<not> starts_with p j"
    using assms by (cases p) (auto simp: starts_with_iff)
qed (rule assms(2))

lemma manifest_answer_heard:
  assumes "manifest_law K m" "send (manifest_request (manifest_tag r) f) = Inr ()"
    and "\<forall>d \<in> set noise. manifest_heard (manifest_tag r) f d = None"
  shows "manifest_answer K r f send
     (noise @ str_bytes (manifest_prefix (manifest_tag r) @ sc_manifest_json K m) # rest) = Inr (Some m)"
proof -
  let ?p = "manifest_prefix (manifest_tag r)" and ?j = "sc_manifest_json K m"
  have j: "starts_with ''{'' ?j" "sc_manifest_parse K ?j = Inr m" using assms(1) by (auto simp: manifest_law_def)
  have "utf8_valid (str_bytes (?p @ ?j))"
    using assms(1) utf8_valid_ascii [OF prefixes_ascii(1)] by (simp add: str_bytes_append manifest_law_def)
  moreover have "trim_start_matches ?p (?p @ ?j) = ?j"
    using j(1) by (rule object_after_prefix) (simp_all add: manifest_prefix_def)
  ultimately have "manifest_heard (manifest_tag r) f (str_bytes (?p @ ?j)) = Some ?j"
    by (simp add: manifest_heard_def)
  moreover have "?j \<noteq> []" using j(1) by (auto simp: starts_with_def)
  ultimately show ?thesis
    using assms(2,3) j(2) by (simp add: manifest_answer_def first_heard_skip)
qed

lemma request_block_heard:
  assumes "block_law K json d" "send (block_request (block_tag i r) f i) = Inr ()"
    and "\<forall>x \<in> set noise. block_heard (block_tag i r) x = None"
  shows "request_block K r f send (noise @ str_bytes (block_prefix (block_tag i r) @ json) # rest) i = Inr d"
proof -
  let ?p = "block_prefix (block_tag i r)"
  have j: "starts_with ''{'' json" using assms(1) by (simp add: block_law_def)
  have "utf8_valid (str_bytes (?p @ json))"
    using assms(1) utf8_valid_ascii [OF prefixes_ascii(2)] by (simp add: str_bytes_append block_law_def)
  moreover have "trim_start_matches ?p (?p @ json) = json"
    using j by (rule object_after_prefix) (simp_all add: block_prefix_def)
  ultimately have "block_heard (block_tag i r) (str_bytes (?p @ json)) = Some json"
    by (simp add: block_heard_def)
  then show ?thesis
    using assms by (simp add: request_block_def first_heard_skip block_law_def)
qed


definition demo_codec :: sync_codec where
  "demo_codec = \<lparr>sc_hex = plain_hex, sc_hex_error = (\<lambda>_. []), sc_manifest_json = (\<lambda>_. ''{}''),
     sc_manifest_parse = (\<lambda>_. Inr (fst (chunk_data (\<lambda>b. b) \<lparr>chunk_size = 4096\<rparr> [1, 2]))),
     sc_block_json = (\<lambda>_ _ _. ''{}''), sc_data_hex = (\<lambda>_. Inr (Some (bytes_str [1, 2])))\<rparr>"


text \<open>
  The answer that a node has no such file carries no tag: a request for the file hears it whatever
  request it answered, and takes it for its own answer when it comes first.
\<close>

theorem untagged_none_is_heard:
  assumes "f = [] \<or> hd f \<noteq> CHR ''I''" "utf8_valid (str_bytes f)" "send (manifest_request (manifest_tag r) f) = Inr ()"
  shows "manifest_answer K r f send (str_bytes (NONE_PREFIX @ f) # calls) = Inr None"
proof -
  have "utf8_valid (str_bytes (NONE_PREFIX @ f))"
    unfolding str_bytes_append by (subst utf8_valid_ascii) (simp_all add: NONE_PREFIX_def assms(2))
  moreover have "trim_start_matches NONE_PREFIX (NONE_PREFIX @ f) = f"
    using assms(1) by (intro trim_start_once) (auto simp: NONE_PREFIX_def starts_with_iff)
  moreover have "\<not> starts_with (manifest_prefix t) (NONE_PREFIX @ f)" for t
    by (simp add: starts_with_def manifest_prefix_def NONE_PREFIX_def)
  ultimately have "manifest_heard t f (str_bytes (NONE_PREFIX @ f)) = Some []" for t
    by (simp add: manifest_heard_def)
  then show ?thesis using assms(3) by (simp add: manifest_answer_def)
qed

theorem untagged_none_is_heard_witness:
  "manifest_answer demo_codec 7 ''f'' (\<lambda>_. Inr ()) [str_bytes (NONE_PREFIX @ ''f'')] = Inr None"
  by (rule untagged_none_is_heard) (simp_all add: str_bytes_def)

end
