(* ===== verification/Tui.thy ===== *)
theory Tui
  imports Text "HOL-Library.Sublist"
begin

text \<open>
  The terminal interface of the client, \<^verbatim>\<open>crates/ctl/src/tui.rs\<close>: the state \<open>TuiApp\<close>, its editing
  operations, the commands entered, the event loop's reaction to a key, and the part of the output
  that is drawn. The input is its UTF-8 bytes and the cursor a byte position, as in the source; an
  operation that panics (an edit inside a character, an index out of range) is \<open>None\<close>. Drawing
  itself is done by the crate ratatui.
\<close>

section \<open>State\<close>

record TuiNode =
  tn_name :: string
  tn_addr :: string

record TuiApp =
  history :: "string list"
  history_idx :: "nat option"
  tui_input :: string
  cursor :: nat
  tui_output :: "string list"
  scroll :: nat
  tui_nodes :: "TuiNode list"
  selected_node :: nat
  completions :: "string list"
  show_completions :: bool

definition tui_node :: "string \<Rightarrow> string \<Rightarrow> TuiNode" where
  "tui_node n a = \<lparr>tn_name = n, tn_addr = a\<rparr>"

definition NODES :: "TuiNode list" where
  "NODES =
     [tui_node ''tuanzi'' ''192.168.31.244:9876'', tui_node ''rk1'' ''107.174.92.188:9876'',
      tui_node ''rk2'' ''23.238.57.141:9876'', tui_node ''lv1'' ''96.9.225.57:9876'',
      tui_node ''lv2'' ''173.249.199.86:9876'', tui_node ''lv3'' ''108.171.195.161:9876'',
      tui_node ''xh'' ''47.108.166.171:9876'']"

definition BUILTIN_CMDS :: "string list" where
  "BUILTIN_CMDS =
     [''help'', ''exit'', ''clear'', ''node'', ''exec'', ''push'', ''pull'', ''cat'', ''tail'', ''ls'',
      ''ps'', ''free'', ''df'', ''uptime'', ''hostname'', ''info'', ''service'', ''docker'', ''pkg'']"

text \<open>
  The Chinese texts of the interface are a parameter: the greeting, the help, and the words around
  the names of nodes.
\<close>

record tui_texts =
  tx_title :: string
  tx_node_count :: "nat \<Rightarrow> string"
  tx_current :: string
  tx_available :: string
  tx_switched :: string
  tx_unknown :: string
  tx_help :: "string list"
  tx_nodes :: string
  tx_running :: string

definition node_text :: "TuiNode \<Rightarrow> string" where
  "node_text n = tn_name n @ '' ('' @ tn_addr n @ '')''"

definition tui_new :: "tui_texts \<Rightarrow> TuiApp" where
  "tui_new T =
     \<lparr>history = [], history_idx = None, tui_input = [], cursor = 0,
      tui_output = [tx_title T, tx_node_count T (length NODES), tx_current T @ node_text (NODES ! 0), []],
      scroll = 0, tui_nodes = NODES, selected_node = 0, completions = BUILTIN_CMDS,
      show_completions = False\<rparr>"

section \<open>Editing\<close>

definition current_node :: "TuiApp \<Rightarrow> TuiNode option" where
  "current_node a = (if selected_node a < length (tui_nodes a) then Some (tui_nodes a ! selected_node a) else None)"

definition add_output :: "string \<Rightarrow> TuiApp \<Rightarrow> TuiApp" where
  "add_output line a = a\<lparr>tui_output := tui_output a @ [line], scroll := length (tui_output a)\<rparr>"

text \<open>\<^verbatim>\<open>is_char_boundary\<close>, which \<^verbatim>\<open>String::insert\<close> and \<^verbatim>\<open>String::remove\<close> require.\<close>

definition is_char_boundary :: "string \<Rightarrow> nat \<Rightarrow> bool" where
  "is_char_boundary s i \<longleftrightarrow> i = length s \<or> i < length s \<and> \<not> continues (s ! i)"

text \<open>The bytes of the character that starts a text.\<close>

definition first_char :: "string \<Rightarrow> string" where
  "first_char s = (case s of [] \<Rightarrow> [] | c # cs \<Rightarrow> c # takeWhile continues cs)"

text \<open>\<open>insert_char\<close> of the character with the bytes \<open>c\<close>: the cursor moves on by one byte.\<close>

definition insert_char :: "string \<Rightarrow> TuiApp \<Rightarrow> TuiApp option" where
  "insert_char c a =
     (if is_char_boundary (tui_input a) (cursor a)
      then Some (a\<lparr>tui_input := take (cursor a) (tui_input a) @ c @ drop (cursor a) (tui_input a),
                   cursor := cursor a + 1\<rparr>)
      else None)"

definition delete_char :: "TuiApp \<Rightarrow> TuiApp option" where
  "delete_char a =
     (if cursor a > 0 then
        let i = cursor a - 1; s = tui_input a
        in if i < length s \<and> is_char_boundary s i
           then Some (a\<lparr>cursor := i, tui_input := take i s @ drop (i + length (first_char (drop i s))) s\<rparr>)
           else None
      else Some a)"

definition move_left :: "TuiApp \<Rightarrow> TuiApp" where
  "move_left a = a\<lparr>cursor := cursor a - 1\<rparr>"

definition move_right :: "TuiApp \<Rightarrow> TuiApp" where
  "move_right a = (if cursor a < length (tui_input a) then a\<lparr>cursor := cursor a + 1\<rparr> else a)"

definition history_up :: "TuiApp \<Rightarrow> TuiApp option" where
  "history_up a =
     (if history a = [] then Some a
      else let go = (\<lambda>idx. if idx < length (history a)
                       then Some (a\<lparr>history_idx := Some idx, tui_input := history a ! idx,
                                    cursor := length (history a ! idx)\<rparr>)
                       else None)
           in case history_idx a of
                Some i \<Rightarrow> if i > 0 then go (i - 1) else Some a
              | None \<Rightarrow> go (length (history a) - 1))"

definition history_down :: "TuiApp \<Rightarrow> TuiApp" where
  "history_down a =
     (case history_idx a of
        None \<Rightarrow> a
      | Some i \<Rightarrow>
          let a = (if i + 1 < length (history a)
                   then a\<lparr>history_idx := Some (i + 1), tui_input := history a ! (i + 1)\<rparr>
                   else a\<lparr>history_idx := None, tui_input := []\<rparr>)
          in a\<lparr>cursor := length (tui_input a)\<rparr>)"

text \<open>
  \<open>lower\<close> is \<^verbatim>\<open>to_lowercase\<close> and \<open>alnum\<close> whether all characters are alphanumeric, the Unicode
  tables of the standard library.
\<close>

definition tab_complete :: "(string \<Rightarrow> string) \<Rightarrow> (string \<Rightarrow> bool) \<Rightarrow> TuiApp \<Rightarrow> TuiApp" where
  "tab_complete lower alnum a =
     (if tui_input a = [] then a
      else
        let prefix = lower (case split_whitespace (tui_input a) of [] \<Rightarrow> [] | w # _ \<Rightarrow> w);
            found = filter (starts_with prefix) (completions a)
        in case found of
             [m] \<Rightarrow>
               (let inp = (if alnum m then m @ '' '' else m)
                in a\<lparr>tui_input := inp, cursor := length inp, show_completions := False\<rparr>)
           | [] \<Rightarrow> a
           | _ \<Rightarrow> a\<lparr>show_completions := \<not> show_completions a\<rparr>)"

section \<open>Commands\<close>

definition node_names :: "TuiApp \<Rightarrow> string" where
  "node_names a = join_with '', '' (map tn_name (tui_nodes a))"

definition whoami :: string where
  "whoami = ''win''"

fun find_node :: "string \<Rightarrow> TuiNode list \<Rightarrow> nat option" where
  "find_node n [] = None"
| "find_node n (x # xs) = (if tn_name x = n then Some 0 else map_option Suc (find_node n xs))"

definition node_command :: "tui_texts \<Rightarrow> string list \<Rightarrow> TuiApp \<Rightarrow> TuiApp option" where
  "node_command T parts a =
     (if length parts < 2 then
        (case current_node a of
           None \<Rightarrow> None
         | Some n \<Rightarrow> Some (add_output (tx_available T @ node_names a) (add_output (tx_current T @ node_text n) a)))
      else (case find_node (parts ! 1) (tui_nodes a) of
              Some idx \<Rightarrow>
                let a = a\<lparr>selected_node := idx\<rparr>
                in (case current_node a of
                      None \<Rightarrow> None
                    | Some n \<Rightarrow> Some (add_output (tx_switched T @ node_text n) a))
            | None \<Rightarrow> Some (add_output (tx_unknown T @ parts ! 1) a)))"

definition run_command :: "tui_texts \<Rightarrow> string list \<Rightarrow> TuiApp \<Rightarrow> TuiApp option" where
  "run_command T parts a =
     (case parts of
        [] \<Rightarrow> None
      | w # _ \<Rightarrow>
          if w = ''exit'' \<or> w = ''quit'' then Some a
          else if w = ''clear'' \<or> w = ''cls'' then Some (a\<lparr>tui_output := []\<rparr>)
          else if w = ''help''
          then Some (add_output (tx_nodes T @ node_names a) (foldl (\<lambda>a l. add_output l a) a (tx_help T)))
          else if w = ''node'' then node_command T parts a
          else Some (add_output (tx_running T) a))"

definition submit :: "tui_texts \<Rightarrow> TuiApp \<Rightarrow> TuiApp option" where
  "submit T a =
     (let cmd = trim (tui_input a)
      in if cmd = [] then Some a
         else
           let a = a\<lparr>history := history a @ [cmd], history_idx := None\<rparr>
           in case current_node a of
                None \<Rightarrow> None
              | Some n \<Rightarrow>
                  (case run_command T (split_whitespace cmd)
                          (add_output (whoami @ ''@'' @ tn_name n @ ''> '' @ cmd) a) of
                     None \<Rightarrow> None
                   | Some a \<Rightarrow> Some (a\<lparr>tui_input := [], cursor := 0, show_completions := False\<rparr>)))"

section \<open>The event loop\<close>

text \<open>A key press; \<open>Char\<close> has the bytes of its character and whether Control is held.\<close>

datatype Key = Char string bool | Enter | Backspace | KLeft | KRight | KUp | KDown | Tab | PageUp | PageDown
  | Home | End | OtherKey

text \<open>The loop goes on with a state, or ends.\<close>

datatype turn = Continue TuiApp | Quit

definition page_down :: "TuiApp \<Rightarrow> TuiApp" where
  "page_down a = a\<lparr>scroll := min (scroll a + 10) (length (tui_output a) - 1)\<rparr>"

definition on_key :: "tui_texts \<Rightarrow> (string \<Rightarrow> string) \<Rightarrow> (string \<Rightarrow> bool) \<Rightarrow> Key \<Rightarrow> TuiApp \<Rightarrow> turn option" where
  "on_key T lower alnum k a =
     (case k of
        Char c ctrl \<Rightarrow>
          if c = ''c'' \<and> ctrl then Some (Continue (add_output ''^C'' a))
          else if c = ''d'' \<and> ctrl then Some Quit
          else map_option Continue (insert_char c a)
      | Enter \<Rightarrow>
          if trim (tui_input a) = ''exit'' \<or> trim (tui_input a) = ''quit'' then Some Quit
          else map_option Continue (submit T a)
      | Backspace \<Rightarrow> map_option Continue (delete_char a)
      | KLeft \<Rightarrow> Some (Continue (move_left a))
      | KRight \<Rightarrow> Some (Continue (move_right a))
      | KUp \<Rightarrow> map_option Continue (history_up a)
      | KDown \<Rightarrow> Some (Continue (history_down a))
      | Tab \<Rightarrow> Some (Continue (tab_complete lower alnum a))
      | PageUp \<Rightarrow> Some (Continue (a\<lparr>scroll := scroll a - 10\<rparr>))
      | PageDown \<Rightarrow> Some (Continue (page_down a))
      | Home \<Rightarrow> Some (Continue (a\<lparr>scroll := 0\<rparr>))
      | End \<Rightarrow> Some (Continue (a\<lparr>scroll := length (tui_output a) - 1\<rparr>))
      | OtherKey \<Rightarrow> Some (Continue a))"

fun run_app :: "tui_texts \<Rightarrow> (string \<Rightarrow> string) \<Rightarrow> (string \<Rightarrow> bool) \<Rightarrow> Key list \<Rightarrow> TuiApp \<Rightarrow> turn option" where
  "run_app T lower alnum [] a = Some (Continue a)"
| "run_app T lower alnum (k # ks) a =
     (case on_key T lower alnum k a of
        None \<Rightarrow> None
      | Some Quit \<Rightarrow> Some Quit
      | Some (Continue a) \<Rightarrow> run_app T lower alnum ks a)"

section \<open>Drawing\<close>

definition start_line :: "nat \<Rightarrow> TuiApp \<Rightarrow> nat" where
  "start_line height a =
     (if scroll a + height > length (tui_output a)
      then (if length (tui_output a) > height then length (tui_output a) - height else 0)
      else scroll a)"

definition visible :: "nat \<Rightarrow> TuiApp \<Rightarrow> string list" where
  "visible height a = take height (drop (start_line height a) (tui_output a))"

definition ui_title :: "TuiApp \<Rightarrow> string option" where
  "ui_title a = map_option (\<lambda>n. '' '' @ tn_name n @ '' ('' @ tn_addr n @ '':'' @ show_nat (selected_node a) @ '') '')
     (current_node a)"

definition input_content :: "TuiApp \<Rightarrow> string" where
  "input_content a = ''> '' @ tui_input a"

definition cursor_x :: "TuiApp \<Rightarrow> u16" where
  "cursor_x a = of_nat (2 + cursor a)"

section \<open>ASCII text\<close>

lemma ascii_boundary: "ascii_text s \<Longrightarrow> is_char_boundary s i \<longleftrightarrow> i \<le> length s"
  by (auto simp: is_char_boundary_def ascii_text_def ascii_not_multi le_less)

lemma ascii_first_char: "ascii_text s \<Longrightarrow> s \<noteq> [] \<Longrightarrow> length (first_char s) = 1"
  by (cases s; cases "tl s") (auto simp: first_char_def ascii_not_multi)

lemma trim_starts: "ascii_text s \<Longrightarrow> trim s \<noteq> [] \<Longrightarrow> \<not> is_space (hd (trim s))"
proof -
  assume s: "ascii_text s" "trim s \<noteq> []"
  define t where "t = dropWhile is_space s"
  have r: "trim s = rev (dropWhile is_space (rev t))" using trim_ascii(1) [OF s(1)] by (simp add: t_def)
  have "suffix (dropWhile is_space (rev t)) (rev t)" by (rule suffix_dropWhile)
  then have "prefix (trim s) t" unfolding r by (simp add: suffix_to_prefix)
  then have "hd (trim s) = hd t" "t \<noteq> []" using s(2) by (auto simp: prefix_def)
  then show ?thesis using hd_dropWhile [of is_space s] by (simp add: t_def)
qed

lemma split_words_nonempty: "v \<noteq> [] \<Longrightarrow> split_words v s \<noteq> []"
proof (induction v s rule: split_words.induct)
  case (2 v c s)
  then show ?case by (subst split_words.simps(2)) (auto simp: flush_def split: list.split)
qed (simp add: flush_def)

lemma words_of_trimmed:
  assumes "ascii_text s" "trim s \<noteq> []"
  shows "split_whitespace (trim s) \<noteq> []"
proof -
  obtain c r where t: "trim s = c # r" using assms(2) by (cases "trim s") auto
  have "\<not> is_space c" "(of_char c :: nat) < 128"
    using trim_starts [OF assms] trim_ascii(2) [OF assms(1)] by (simp_all add: t)
  then have "split_words [] (c # r) \<noteq> []"
    by (subst split_words.simps(2)) (auto simp: ascii_not_multi split_words_nonempty split: list.split)
  then show ?thesis by (simp add: split_whitespace_def t)
qed

section \<open>The interface does not panic on ASCII input\<close>

definition tui_ok :: "TuiApp \<Rightarrow> bool" where
  "tui_ok a \<longleftrightarrow> ascii_text (tui_input a) \<and> cursor a \<le> length (tui_input a)
     \<and> (\<forall>c \<in> set (history a). ascii_text c \<and> c \<noteq> [])
     \<and> (\<forall>i. history_idx a = Some i \<longrightarrow> i < length (history a))
     \<and> selected_node a < length NODES \<and> tui_nodes a = NODES \<and> completions a = BUILTIN_CMDS"

definition ascii_key :: "Key \<Rightarrow> bool" where
  "ascii_key k = (case k of Char c _ \<Rightarrow> length c = 1 \<and> ascii_text c | _ \<Rightarrow> True)"

lemma add_output_ok [simp]: "tui_ok (add_output l a) = tui_ok a"
  by (simp add: tui_ok_def add_output_def)

lemma add_outputs_ok: "tui_ok (foldl (\<lambda>a l. add_output l a) a ls) = tui_ok a"
  by (induction ls arbitrary: a) simp_all

lemma find_node_bound: "find_node n xs = Some i \<Longrightarrow> i < length xs"
  by (induction xs arbitrary: i) (auto split: if_splits)

lemma builtin_ascii: "m \<in> set BUILTIN_CMDS \<Longrightarrow> ascii_text m"
  by (auto simp: BUILTIN_CMDS_def)

lemma insert_char_ok:
  "tui_ok a \<Longrightarrow> length c = 1 \<Longrightarrow> ascii_text c \<Longrightarrow> \<exists>a'. insert_char c a = Some a' \<and> tui_ok a'"
  by (simp add: insert_char_def tui_ok_def ascii_boundary ascii_take_drop)

lemma delete_char_ok: "tui_ok a \<Longrightarrow> \<exists>a'. delete_char a = Some a' \<and> tui_ok a'"
  by (auto simp: delete_char_def tui_ok_def ascii_boundary ascii_take_drop ascii_first_char Let_def)

lemma move_ok: "tui_ok a \<Longrightarrow> tui_ok (move_left a)" "tui_ok a \<Longrightarrow> tui_ok (move_right a)"
  by (auto simp: move_left_def move_right_def tui_ok_def)

lemma history_up_ok: "tui_ok a \<Longrightarrow> \<exists>a'. history_up a = Some a' \<and> tui_ok a'"
proof (cases "history a = [] \<or> history_idx a = Some 0")
  case True
  then show "tui_ok a \<Longrightarrow> ?thesis" by (auto simp: history_up_def Let_def)
next
  case False
  define i where "i = (case history_idx a of Some j \<Rightarrow> j - 1 | None \<Rightarrow> length (history a) - 1)"
  assume a: "tui_ok a"
  have i: "i < length (history a)"
    using False a by (auto simp: i_def tui_ok_def split: option.splits)
  then have "history_up a = Some (a\<lparr>history_idx := Some i, tui_input := history a ! i, cursor := length (history a ! i)\<rparr>)"
    using False by (auto simp: history_up_def Let_def i_def split: option.splits)
  with a i show ?thesis by (simp add: tui_ok_def)
qed

lemma history_down_ok: "tui_ok a \<Longrightarrow> tui_ok (history_down a)"
  by (auto simp: history_down_def tui_ok_def Let_def split: option.split)

lemma tab_complete_ok: "tui_ok a \<Longrightarrow> tui_ok (tab_complete lower alnum a)"
proof -
  assume a: "tui_ok a"
  have "ascii_text m" if "filter p (completions a) = [m]" for m p
    using arg_cong [OF that, of set] builtin_ascii [of m] a by (simp add: tui_ok_def) blast
  with a show ?thesis
    by (auto simp: tab_complete_def tui_ok_def Let_def split: list.split)
qed

lemma node_command_ok: "tui_ok a \<Longrightarrow> \<exists>a'. node_command T parts a = Some a' \<and> tui_ok a'"
proof (cases "length parts < 2")
  case True
  then show "tui_ok a \<Longrightarrow> ?thesis" by (auto simp: node_command_def current_node_def tui_ok_def add_output_def)
next
  case False
  assume a: "tui_ok a"
  show ?thesis
  proof (cases "find_node (parts ! 1) (tui_nodes a)")
    case None
    with False a show ?thesis by (simp add: node_command_def)
  next
    case (Some i)
    from find_node_bound [OF this] Some False a show ?thesis
      by (simp add: node_command_def current_node_def Let_def) (simp add: tui_ok_def)
  qed
qed

lemma clear_ok: "tui_ok a \<Longrightarrow> tui_ok (a\<lparr>tui_output := ls\<rparr>)"
  by (simp add: tui_ok_def)

lemma scroll_ok [simp]: "tui_ok (a\<lparr>scroll := n\<rparr>) = tui_ok a"
  by (simp add: tui_ok_def)

lemma run_command_ok: "parts \<noteq> [] \<Longrightarrow> tui_ok a \<Longrightarrow> \<exists>a'. run_command T parts a = Some a' \<and> tui_ok a'"
  using node_command_ok [of a T parts] clear_ok [of a "[]"]
  by (cases parts; cases "hd parts = ''node''") (simp_all add: run_command_def add_outputs_ok)

lemma submit_ok: "tui_ok a \<Longrightarrow> \<exists>a'. submit T a = Some a' \<and> tui_ok a'"
proof (cases "trim (tui_input a) = []")
  case False
  assume a: "tui_ok a"
  let ?c = "trim (tui_input a)" and ?h = "a\<lparr>history := history a @ [trim (tui_input a)], history_idx := None\<rparr>"
  obtain n where n: "current_node ?h = Some n" using a by (simp add: current_node_def tui_ok_def)
  have "tui_ok ?h" using a False trim_ascii(2) [of "tui_input a"] by (auto simp: tui_ok_def)
  then have "tui_ok (add_output (whoami @ ''@'' @ tn_name n @ ''> '' @ ?c) ?h)" by simp
  moreover have "split_whitespace ?c \<noteq> []" using words_of_trimmed False a by (simp add: tui_ok_def)
  ultimately obtain a' where "run_command T (split_whitespace ?c)
      (add_output (whoami @ ''@'' @ tn_name n @ ''> '' @ ?c) ?h) = Some a'" "tui_ok a'"
    using run_command_ok by blast
  then show ?thesis using False n by (simp add: submit_def Let_def) (simp add: tui_ok_def)
qed (simp add: submit_def)

lemma on_key_ok:
  assumes a: "tui_ok a" and k: "ascii_key k"
  shows "\<exists>t. on_key T lower alnum k a = Some t \<and> (\<forall>a'. t = Continue a' \<longrightarrow> tui_ok a')"
proof (cases k)
  case (Char c ctrl)
  then have "length c = 1" "ascii_text c" using k by (simp_all add: ascii_key_def)
  from insert_char_ok [OF a this] obtain a' where "insert_char c a = Some a'" "tui_ok a'" by blast
  with a show ?thesis by (simp add: on_key_def Char)
next
  case Enter
  from submit_ok [OF a] obtain a' where "submit T a = Some a'" "tui_ok a'" by blast
  then show ?thesis by (simp add: on_key_def Enter)
next
  case Backspace
  from delete_char_ok [OF a] obtain a' where "delete_char a = Some a'" "tui_ok a'" by blast
  then show ?thesis by (simp add: on_key_def Backspace)
next
  case KUp
  from history_up_ok [OF a] obtain a' where "history_up a = Some a'" "tui_ok a'" by blast
  then show ?thesis by (simp add: on_key_def KUp)
qed (use a in \<open>simp_all add: on_key_def move_ok history_down_ok tab_complete_ok page_down_def\<close>)

lemma tui_new_ok: "tui_ok (tui_new T)"
  by (simp add: tui_ok_def tui_new_def NODES_def)

lemma run_app_ok:
  "tui_ok a \<Longrightarrow> list_all ascii_key ks \<Longrightarrow>
     \<exists>t. run_app T lower alnum ks a = Some t \<and> (\<forall>a'. t = Continue a' \<longrightarrow> tui_ok a')"
proof (induction ks arbitrary: a)
  case (Cons k ks)
  then obtain t where t: "on_key T lower alnum k a = Some t" "\<forall>a'. t = Continue a' \<longrightarrow> tui_ok a'"
    using on_key_ok [of a k T lower alnum] by auto
  with Cons show ?case by (cases t) auto
qed simp

text \<open>
  On keys whose characters are ASCII the interface never panics: after any sequence of keys from its
  start, the loop has ended or its state is well formed, with the cursor inside the input.\<close>

theorem tui_never_panics:
  assumes "list_all ascii_key ks"
  shows "\<exists>t. run_app T lower alnum ks (tui_new T) = Some t \<and> (\<forall>a. t = Continue a \<longrightarrow> tui_ok a)"
  by (rule run_app_ok [OF tui_new_ok assms])

section \<open>Editing is that of a zipper\<close>

text \<open>The text before and after the cursor.\<close>

definition input_zipper :: "TuiApp \<Rightarrow> string \<times> string" where
  "input_zipper a = (take (cursor a) (tui_input a), drop (cursor a) (tui_input a))"

fun zipper_edit :: "Key \<Rightarrow> string \<times> string \<Rightarrow> string \<times> string" where
  "zipper_edit (Char c _) (l, r) = (l @ c, r)"
| "zipper_edit Backspace (l, r) = (butlast l, r)"
| "zipper_edit KLeft (l, r) = (if l = [] then (l, r) else (butlast l, last l # r))"
| "zipper_edit KRight (l, r) = (case r of [] \<Rightarrow> (l, r) | c # r \<Rightarrow> (l @ [c], r))"
| "zipper_edit _ z = z"

definition edit_key :: "Key \<Rightarrow> bool" where
  "edit_key k = (case k of Char c ctrl \<Rightarrow> length c = 1 \<and> ascii_text c \<and> \<not> ctrl
     | Backspace \<Rightarrow> True | KLeft \<Rightarrow> True | KRight \<Rightarrow> True | _ \<Rightarrow> False)"

lemma edit_key_ascii: "edit_key k \<Longrightarrow> ascii_key k"
  by (cases k) (simp_all add: edit_key_def ascii_key_def)

lemma take_pred: "0 < n \<Longrightarrow> n \<le> length s \<Longrightarrow> butlast (take n s) = take (n - 1) s"
  by (simp add: butlast_take)

lemma drop_pred: "0 < n \<Longrightarrow> n \<le> length s \<Longrightarrow> last (take n s) # drop n s = drop (n - 1) s"
  by (cases n) (simp_all add: take_Suc_conv_app_nth Cons_nth_drop_Suc)

lemma delete_char_at:
  assumes "tui_ok a" "0 < cursor a"
  shows "delete_char a = Some (a\<lparr>cursor := cursor a - 1,
           tui_input := take (cursor a - 1) (tui_input a) @ drop (cursor a) (tui_input a)\<rparr>)"
proof -
  have "length (first_char (drop (cursor a - 1) (tui_input a))) = 1"
    using assms by (intro ascii_first_char) (auto simp: tui_ok_def ascii_take_drop)
  moreover have "cursor a - 1 < length (tui_input a)" "is_char_boundary (tui_input a) (cursor a - 1)"
    using assms by (auto simp: tui_ok_def ascii_boundary)
  ultimately show ?thesis using assms(2) by (simp add: delete_char_def Let_def)
qed

lemma on_key_zipper:
  assumes a: "tui_ok a" and k: "edit_key k"
  shows "\<exists>a'. on_key T lower alnum k a = Some (Continue a')
           \<and> input_zipper a' = zipper_edit k (input_zipper a)"
proof -
  have len: "cursor a \<le> length (tui_input a)" and asc: "ascii_text (tui_input a)" using a by (simp_all add: tui_ok_def)
  show ?thesis
  proof (cases k)
    case (Char c ctrl)
    with k len show ?thesis
      by (simp add: edit_key_def on_key_def insert_char_def ascii_boundary asc input_zipper_def)
  next
    case Backspace
    show ?thesis
    proof (cases "cursor a")
      case (Suc n)
      then have p: "0 < cursor a" by simp
      show ?thesis using len take_pred [OF p len]
        by (simp add: Backspace on_key_def delete_char_at [OF a p] input_zipper_def)
    qed (simp add: Backspace on_key_def delete_char_def input_zipper_def)
  next
    case KLeft
    show ?thesis
    proof (cases "cursor a")
      case (Suc n)
      then have p: "0 < cursor a" by simp
      then have "take (cursor a) (tui_input a) \<noteq> []" using len by auto
      then show ?thesis using take_pred [OF p len] drop_pred [OF p len]
        by (simp add: KLeft on_key_def move_left_def input_zipper_def)
    qed (simp add: KLeft on_key_def move_left_def input_zipper_def)
  next
    case KRight
    show ?thesis
    proof (cases "cursor a < length (tui_input a)")
      case True
      then show ?thesis
        by (simp add: KRight on_key_def move_right_def input_zipper_def take_Suc_conv_app_nth
            Cons_nth_drop_Suc [symmetric])
    qed (use len in \<open>simp add: KRight on_key_def move_right_def input_zipper_def\<close>)
  qed (use k in \<open>simp_all add: edit_key_def\<close>)
qed


section \<open>Input beyond ASCII\<close>

text \<open>
  The cursor moves on by one byte for a character of any width: typing a character of more than one
  byte at the end of the input leaves the cursor inside it, and the next character typed panics.\<close>

theorem non_ascii_input_panics:
  assumes "cursor a = length (tui_input a)" "continues y" "\<not> ctrl"
  shows "run_app T lower alnum [Char (x # y # r) False, Char c ctrl] a = None"
  using assms
  by (simp add: on_key_def insert_char_def is_char_boundary_def nth_append)

section \<open>History\<close>

lemma run_command_history:
  "run_command T parts a = Some a' \<Longrightarrow> history a' = history a \<and> history_idx a' = history_idx a"
proof -
  have "history (foldl (\<lambda>a l. add_output l a) b ls) = history b
      \<and> history_idx (foldl (\<lambda>a l. add_output l a) b ls) = history_idx b" for b ls
    by (induction ls arbitrary: b) (simp_all add: add_output_def)
  moreover have "node_command T parts a = Some a' \<Longrightarrow> history a' = history a \<and> history_idx a' = history_idx a"
    by (auto simp: node_command_def add_output_def Let_def split: if_splits option.splits)
  moreover assume "run_command T parts a = Some a'"
  ultimately show ?thesis
    by (auto simp: run_command_def add_output_def split: if_splits list.splits)
qed

lemma submit_history:
  assumes "tui_ok a" "trim (tui_input a) \<noteq> []" "submit T a = Some a'"
  shows "history a' = history a @ [trim (tui_input a)]" "history_idx a' = None" "tui_input a' = []"
  using assms(2,3)
  by (auto simp: submit_def Let_def add_output_def split: option.splits dest!: run_command_history)

lemma history_up_last:
  assumes "history_idx a = None" "history a \<noteq> []"
  shows "history_up a = Some (a\<lparr>history_idx := Some (length (history a) - 1), tui_input := last (history a),
           cursor := length (last (history a))\<rparr>)"
  using assms by (simp add: history_up_def Let_def last_conv_nth)

lemma history_up_prev:
  assumes "history_idx a = Some (Suc i)" "Suc i < length (history a)"
  shows "history_up a = Some (a\<lparr>history_idx := Some i, tui_input := history a ! i, cursor := length (history a ! i)\<rparr>)"
  using assms by (auto simp: history_up_def Let_def)

lemma run_app_append:
  "run_app T lower alnum (xs @ ys) a =
     (case run_app T lower alnum xs a of Some (Continue a') \<Rightarrow> run_app T lower alnum ys a' | r \<Rightarrow> r)"
  by (induction xs arbitrary: a) (auto split: option.split turn.split)

lemma ups:
  assumes "history_idx a = None" "k < length (history a)"
  shows "\<exists>a'. run_app T lower alnum (replicate (Suc k) KUp) a = Some (Continue a')
     \<and> history a' = history a \<and> history_idx a' = Some (length (history a) - Suc k)
     \<and> tui_input a' = rev (history a) ! k \<and> cursor a' = length (tui_input a')"
  using assms(2)
proof (induction k)
  case 0
  then have "history a \<noteq> []" by auto
  then show ?case using history_up_last [OF assms(1)]
    by (simp add: on_key_def rev_nth last_conv_nth)
next
  case (Suc k)
  then obtain a' where r: "run_app T lower alnum (replicate (Suc k) KUp) a = Some (Continue a')"
    and h: "history a' = history a" "history_idx a' = Some (length (history a) - Suc k)" by auto
  have i: "length (history a) - Suc k = Suc (length (history a) - Suc (Suc k))" using Suc.prems by simp
  have "history_up a' = Some (a'\<lparr>history_idx := Some (length (history a) - Suc (Suc k)),
      tui_input := rev (history a) ! Suc k, cursor := length (rev (history a) ! Suc k)\<rparr>)"
    using history_up_prev [of a' "length (history a) - Suc (Suc k)"] Suc.prems h i by (simp add: rev_nth)
  moreover have "replicate (Suc (Suc k)) KUp = replicate (Suc k) KUp @ [KUp]" by (simp add: replicate_append_same)
  ultimately show ?case using r h(1) run_app_append [of T lower alnum "replicate (Suc k) KUp" "[KUp]" a]
    by (simp add: on_key_def del: replicate_Suc)
qed

lemma downs:
  assumes "history_idx a = Some (length (history a) - Suc k)" "k < length (history a)"
  shows "\<exists>a'. run_app T lower alnum (replicate (Suc k) KDown) a = Some (Continue a')
     \<and> history a' = history a \<and> history_idx a' = None \<and> tui_input a' = [] \<and> cursor a' = 0"
  using assms
proof (induction k arbitrary: a)
  case 0
  then show ?case by (simp add: on_key_def history_down_def Let_def)
next
  case (Suc k)
  let ?i = "length (history a) - Suc k"
  let ?b = "a\<lparr>history_idx := Some ?i, tui_input := history a ! ?i, cursor := length (history a ! ?i)\<rparr>"
  have "Suc (length (history a) - Suc (Suc k)) = ?i" "?i < length (history a)" using Suc.prems by auto
  then have "history_down a = ?b" using Suc.prems(1) by (simp add: history_down_def Let_def)
  with Suc.IH [of ?b] Suc.prems(2) show ?case by (simp add: on_key_def)
qed

text \<open>
  The history is a stack that the arrows walk: with \<open>k + 1\<close> presses of Up the input is the \<open>k\<close>-th
  latest command, and as many presses of Down bring the empty input back, the history unchanged.\<close>

theorem history_arrows:
  assumes "history_idx a = None" "k < length (history a)"
  shows "\<exists>b c. run_app T lower alnum (replicate (Suc k) KUp) a = Some (Continue b)
     \<and> tui_input b = rev (history a) ! k \<and> cursor b = length (tui_input b)
     \<and> run_app T lower alnum (replicate (Suc k) KDown) b = Some (Continue c)
     \<and> history c = history a \<and> history_idx c = None \<and> tui_input c = []"
proof -
  from ups [OF assms] obtain b where b: "run_app T lower alnum (replicate (Suc k) KUp) a = Some (Continue b)"
    "history b = history a" "history_idx b = Some (length (history a) - Suc k)"
    "tui_input b = rev (history a) ! k" "cursor b = length (tui_input b)" by blast
  then have "history_idx b = Some (length (history b) - Suc k)" "k < length (history b)" using assms(2) by simp_all
  from downs [OF this] b show ?thesis by metis
qed

text \<open>A command entered is the first that Up brings back, trimmed.\<close>

theorem enter_then_up:
  assumes "tui_ok a" "trim (tui_input a) \<notin> {[], ''exit'', ''quit''}"
  shows "\<exists>b. run_app T lower alnum [Enter, KUp] a = Some (Continue b) \<and> tui_input b = trim (tui_input a)
           \<and> tui_ok b"
proof -
  from submit_ok [OF assms(1)] obtain a' where a': "submit T a = Some a'" "tui_ok a'" by blast
  then have h: "history a' = history a @ [trim (tui_input a)]" "history_idx a' = None"
    using submit_history [OF assms(1) _ a'(1)] assms(2) by auto
  then have "history_up a' = Some (a'\<lparr>history_idx := Some (length (history a') - 1),
      tui_input := trim (tui_input a), cursor := length (trim (tui_input a))\<rparr>)"
    using history_up_last [of a'] by simp
  moreover from this have "tui_ok (a'\<lparr>history_idx := Some (length (history a') - 1),
      tui_input := trim (tui_input a), cursor := length (trim (tui_input a))\<rparr>)"
    using history_up_ok [OF a'(2)] by simp
  ultimately show ?thesis using a'(1) assms(2) by (simp add: on_key_def)
qed

section \<open>What is drawn\<close>

lemma visible_length: "length (visible h a) = min h (length (tui_output a))"
  by (auto simp: visible_def start_line_def min_def)

text \<open>A line just added is the last of those handed to the output panel.\<close>

lemma visible_newest:
  assumes "0 < h"
  shows "visible h (add_output l a) \<noteq> []" "last (visible h (add_output l a)) = l"
proof -
  let ?o = "tui_output a @ [l]"
  have v: "visible h (add_output l a) = drop (length ?o - h) ?o"
    using assms by (auto simp: visible_def start_line_def add_output_def)
  then show "visible h (add_output l a) \<noteq> []" using assms by simp
  then show "last (visible h (add_output l a)) = l" using v assms by (simp add: last_drop)
qed

text \<open>
  The panel has a border, which leaves two rows less for the text than its height; what does not fit
  is cut off at the bottom.
\<close>

definition shown_lines :: "nat \<Rightarrow> TuiApp \<Rightarrow> string list" where
  "shown_lines height a = take (height - 2) (visible height a)"

text \<open>
  The lines are chosen for the height of the panel with its border: once there are as many lines as the
  panel is high, the last two, and so the newest, are never shown after output.\<close>

theorem newest_lines_hidden:
  assumes "2 \<le> h" "h \<le> length (tui_output a) + 1"
  shows "shown_lines h (add_output l a) @ drop (length (tui_output a) - 1) (tui_output a @ [l])
     = drop (length (tui_output a) + 1 - h) (tui_output a @ [l])"
proof -
  let ?o = "tui_output a @ [l]"
  have v: "visible h (add_output l a) = drop (length ?o - h) ?o"
    using assms by (auto simp: visible_def start_line_def add_output_def)
  have "drop (length (tui_output a) - 1) ?o = drop (h - 2) (drop (length ?o - h) ?o)"
    using assms by (simp add: drop_drop)
  then show ?thesis unfolding shown_lines_def v
    by (simp only: append_take_drop_id) simp
qed

text \<open>
  Output sets the scroll position to the last line, not to the first line of the last page, and
  PageUp takes 10 from it: in a panel of 12 rows or more the first PageUp after any output shows the
  same lines.\<close>

theorem page_up_shows_the_same:
  assumes "12 \<le> h"
  shows "map_option (\<lambda>t. case t of Continue b \<Rightarrow> visible h b | Quit \<Rightarrow> [])
           (on_key T lower alnum PageUp (add_output l a)) = Some (visible h (add_output l a))"
  using assms by (auto simp: on_key_def visible_def start_line_def add_output_def)

section \<open>Witnesses\<close>

definition sample_texts :: tui_texts where
  "sample_texts = \<lparr>tx_title = ''title'', tx_node_count = (\<lambda>n. []), tx_current = ''current '', tx_available = [],
     tx_switched = [], tx_unknown = [], tx_help = [''help''], tx_nodes = [], tx_running = ''running''\<rparr>"

theorem tui_never_panics_witness:
  "list_all ascii_key [Char ''l'' False, Char ''s'' False, Enter, KUp] \<and>
   (\<exists>t. run_app sample_texts id (\<lambda>_. True) [Char ''l'' False, Char ''s'' False, Enter, KUp] (tui_new sample_texts)
      = Some t \<and> (\<forall>a. t = Continue a \<longrightarrow> tui_ok a))"
proof -
  have k: "list_all ascii_key [Char ''l'' False, Char ''s'' False, Enter, KUp]" by (simp add: ascii_key_def)
  from tui_never_panics [OF this, of sample_texts id "\<lambda>_. True"] k show ?thesis by simp
qed

definition sample_app :: TuiApp where
  "sample_app = (tui_new sample_texts)\<lparr>tui_input := ''abc'', cursor := 2, history := [''ls'', ''ps'']\<rparr>"

lemma sample_app_ok: "tui_ok sample_app"
  by (simp add: tui_ok_def sample_app_def tui_new_def NODES_def)


theorem history_arrows_witness:
  "\<exists>b c. run_app sample_texts id (\<lambda>_. True) (replicate 2 KUp) sample_app = Some (Continue b)
     \<and> tui_input b = ''ls'' \<and> run_app sample_texts id (\<lambda>_. True) (replicate 2 KDown) b = Some (Continue c)
     \<and> tui_input c = []"
  using history_arrows [of sample_app 1 sample_texts id "\<lambda>_. True"]
  by (simp add: sample_app_def tui_new_def numeral_2_eq_2) blast

theorem enter_then_up_witness:
  "\<exists>b. run_app sample_texts id (\<lambda>_. True) [Enter, KUp] sample_app = Some (Continue b) \<and> tui_input b = ''abc''"
proof -
  have "trim (tui_input sample_app) = ''abc''" by (simp add: sample_app_def tui_new_def) code_simp
  then show ?thesis using enter_then_up [OF sample_app_ok, of sample_texts id "\<lambda>_. True"] by auto
qed

theorem non_ascii_input_panics_witness:
  "run_app sample_texts id (\<lambda>_. True)
     [Char [char_of (228 :: nat), char_of (189 :: nat), char_of (160 :: nat)] False, Char ''x'' False]
     (tui_new sample_texts) = None"
  by (rule non_ascii_input_panics) (simp_all add: tui_new_def continues_def)

theorem newest_lines_hidden_witness:
  "shown_lines 3 (add_output ''l'' sample_app) @ drop 3 (tui_output sample_app @ [''l''])
     = drop 2 (tui_output sample_app @ [''l''])"
  using newest_lines_hidden [of 3 sample_app "''l''"] by (simp add: sample_app_def tui_new_def)

theorem page_up_shows_the_same_witness:
  "map_option (\<lambda>t. case t of Continue b \<Rightarrow> visible 20 b | Quit \<Rightarrow> [])
     (on_key sample_texts id (\<lambda>_. True) PageUp (add_output ''l'' sample_app)) = Some (visible 20 (add_output ''l'' sample_app))"
  by (rule page_up_shows_the_same) simp

end
