(* ===== verification/Shell.thy ===== *)
theory Shell
  imports Daemon Text "HOL-Library.Sublist"
begin

text \<open>
  The command engine, \<^verbatim>\<open>crates/shell/src/lib.rs\<close>. \<open>StreamingExec\<close> with its three threads is a step
  relation: the process, the readers of its two output streams, the thread that waits for it and the
  calls of the user are interleaved in any order; a step that has to wait (an empty pipe, a lock that
  is held, an empty channel) is \<open>None\<close>. The synchronous \<open>exec\<close> and \<open>exec_with_input\<close> run beside a
  program given by its reads, writes and exit code.
\<close>

section \<open>Streaming execution\<close>

record StreamChunk =
  stream :: u8
  sc_data :: bytes

text \<open>A reader thread reads, holds what it has read for the channel, or has ended.\<close>

datatype Reader = RLoop | RSend bytes | REof | RBroke

text \<open>The wait thread before and after it has taken the child, with the code, and at its end.\<close>

datatype Waiter = WStart | WWait | WGot "u32 option" | WEnd

text \<open>An output stream: the bytes in the pipe, whether a process can still write, and all it wrote.\<close>

record Stream =
  pipe :: bytes
  writable :: bool
  wrote :: bytes
  reader :: Reader

text \<open>
  \<open>child\<close> is whether the cell behind the mutex holds the child, \<open>chunks_rx\<close> and \<open>done_rx\<close> whether the
  receivers are still in the struct; \<open>listening\<close> is whether the receiver of chunks exists. The signals
  sent and the chunks received are kept for the statements below.
\<close>

record Shell =
  outs :: Stream
  errs :: Stream
  process :: "u32 option option"
  child :: bool
  waiter :: Waiter
  queue :: "StreamChunk list"
  received :: "StreamChunk list"
  listening :: bool
  chunks_rx :: bool
  dones :: "u32 option list"
  done_rx :: bool
  stdin_arc :: bool
  fed :: bytes
  signals :: nat

definition shell_argv :: "bool \<Rightarrow> string \<Rightarrow> string list" where
  "shell_argv windows cmd = (if windows then [''cmd'', ''/C'', cmd] else [''sh'', ''-c'', cmd])"

definition fresh_stream :: Stream where
  "fresh_stream = \<lparr>pipe = [], writable = True, wrote = [], reader = RLoop\<rparr>"

text \<open>\<open>starts\<close> is whether the system starts the program.\<close>

definition spawn :: "(string list \<Rightarrow> bool) \<Rightarrow> bool \<Rightarrow> string \<Rightarrow> Shell option" where
  "spawn starts windows cmd =
     (if starts (shell_argv windows cmd)
      then Some \<lparr>outs = fresh_stream, errs = fresh_stream, process = None, child = True, waiter = WStart,
                 queue = [], received = [], listening = True, chunks_rx = True, dones = [], done_rx = True,
                 stdin_arc = True, fed = [], signals = 0\<rparr>
      else None)"

subsection \<open>The threads\<close>

definition stream_of :: "u8 \<Rightarrow> Shell \<Rightarrow> Stream" where
  "stream_of k s = (if k = 0 then outs s else errs s)"

definition set_stream :: "u8 \<Rightarrow> Stream \<Rightarrow> Shell \<Rightarrow> Shell" where
  "set_stream k st s = (if k = 0 then s\<lparr>outs := st\<rparr> else s\<lparr>errs := st\<rparr>)"

text \<open>\<^verbatim>\<open>read\<close> into the buffer of 4096 bytes, which gives \<open>n\<close> of the bytes in the pipe.\<close>

definition read_turn :: "nat \<Rightarrow> Stream \<Rightarrow> Stream option" where
  "read_turn n st =
     (if reader st \<noteq> RLoop then None
      else if pipe st = [] then (if writable st then None else Some (st\<lparr>reader := REof\<rparr>))
      else if 1 \<le> n \<and> n \<le> 4096 \<and> n \<le> length (pipe st)
      then Some (st\<lparr>pipe := drop n (pipe st), reader := RSend (take n (pipe st))\<rparr>)
      else None)"

definition read_error :: "Stream \<Rightarrow> Stream option" where
  "read_error st = (if reader st = RLoop then Some (st\<lparr>reader := RBroke\<rparr>) else None)"

definition send_turn :: "u8 \<Rightarrow> Shell \<Rightarrow> Shell option" where
  "send_turn k s =
     (case reader (stream_of k s) of
        RSend d \<Rightarrow>
          Some (if listening s
                then set_stream k ((stream_of k s)\<lparr>reader := RLoop\<rparr>)
                       (s\<lparr>queue := queue s @ [\<lparr>stream = k, sc_data = d\<rparr>]\<rparr>)
                else set_stream k ((stream_of k s)\<lparr>reader := RBroke\<rparr>) s)
      | _ \<Rightarrow> None)"

text \<open>The wait thread locks the cell, takes the child and waits for it with the lock held.\<close>

definition wait_lock :: "Shell \<Rightarrow> Shell option" where
  "wait_lock s =
     (if waiter s = WStart
      then Some (if child s then s\<lparr>child := False, waiter := WWait\<rparr> else s\<lparr>waiter := WGot None\<rparr>)
      else None)"

definition wait_exit :: "bool \<Rightarrow> Shell \<Rightarrow> Shell option" where
  "wait_exit ok s =
     (if waiter s = WWait
      then (if ok then map_option (\<lambda>code. s\<lparr>waiter := WGot code\<rparr>) (process s)
            else Some (s\<lparr>waiter := WGot None\<rparr>))
      else None)"

definition wait_send :: "Shell \<Rightarrow> Shell option" where
  "wait_send s = (case waiter s of WGot code \<Rightarrow> Some (s\<lparr>waiter := WEnd, dones := dones s @ [code]\<rparr>) | _ \<Rightarrow> None)"

subsection \<open>The calls\<close>

text \<open>The receiver of chunks: \<^verbatim>\<open>try_recv\<close> takes the first chunk in the channel.\<close>

definition recv_chunk :: "Shell \<Rightarrow> StreamChunk option \<times> Shell" where
  "recv_chunk s = (case queue s of [] \<Rightarrow> (None, s) | c # r \<Rightarrow> (Some c, s\<lparr>queue := r, received := received s @ [c]\<rparr>))"

definition try_poll_chunk :: "Shell \<Rightarrow> StreamChunk option \<times> Shell" where
  "try_poll_chunk s = (if chunks_rx s then recv_chunk s else (None, s))"

definition try_wait :: "Shell \<Rightarrow> u32 option option \<times> Shell" where
  "try_wait s =
     (if done_rx s
      then (case dones s of
              code # r \<Rightarrow> (Some code, s\<lparr>dones := r\<rparr>)
            | [] \<Rightarrow> if waiter s = WEnd then (Some None, s) else (None, s))
      else (None, s))"

text \<open>\<open>wait\<close>, which blocks until a code is in the channel or its sender is gone.\<close>

definition wait :: "Shell \<Rightarrow> (u32 option \<times> Shell) option" where
  "wait s =
     (if done_rx s
      then (case dones s of
              code # r \<Rightarrow> Some (code, s\<lparr>dones := r\<rparr>)
            | [] \<Rightarrow> if waiter s = WEnd then Some (None, s) else None)
      else Some (None, s))"

definition take_chunks_rx :: "Shell \<Rightarrow> bool \<times> Shell" where
  "take_chunks_rx s = (chunks_rx s, s\<lparr>chunks_rx := False\<rparr>)"

definition take_done_rx :: "Shell \<Rightarrow> bool \<times> Shell" where
  "take_done_rx s = (done_rx s, s\<lparr>done_rx := False\<rparr>)"

text \<open>
  \<open>kill\<close> waits for the lock, which the wait thread holds while it waits; a child in the cell gets the
  signal, a process that still runs ends without an exit code.
\<close>

definition kill :: "Shell \<Rightarrow> Shell option" where
  "kill s =
     (if waiter s = WWait then None
      else Some (if child s
                 then s\<lparr>signals := signals s + 1, process := (if process s = None then Some None else process s)\<rparr>
                 else s))"

text \<open>\<open>accepted\<close> is how many bytes \<^verbatim>\<open>write_all\<close> writes; with fewer than all of them it fails.\<close>

definition write_stdin :: "nat \<Rightarrow> bytes \<Rightarrow> bool \<Rightarrow> Shell \<Rightarrow> bool \<times> Shell" where
  "write_stdin accepted dat close s =
     (let s' = (if stdin_arc s then s\<lparr>fed := fed s @ take accepted dat\<rparr> else s)
      in if stdin_arc s \<and> accepted < length dat then (False, s')
         else (True, if close then s'\<lparr>stdin_arc := False\<rparr> else s'))"

subsection \<open>Interleaving\<close>

definition process_writes :: "bytes \<Rightarrow> Stream \<Rightarrow> Stream option" where
  "process_writes d st = (if writable st then Some (st\<lparr>pipe := pipe st @ d, wrote := wrote st @ d\<rparr>) else None)"

definition process_closes :: "Stream \<Rightarrow> Stream" where
  "process_closes st = st\<lparr>writable := False\<rparr>"

inductive shell_step :: "Shell \<Rightarrow> Shell \<Rightarrow> bool" where
  Writes: "process_writes d (stream_of k s) = Some st \<Longrightarrow> shell_step s (set_stream k st s)"
| Closes: "shell_step s (set_stream k (process_closes (stream_of k s)) s)"
| Exits: "process s = None \<Longrightarrow> shell_step s (s\<lparr>process := Some code\<rparr>)"
| Reads: "read_turn n (stream_of k s) = Some st \<Longrightarrow> shell_step s (set_stream k st s)"
| Read_fails: "read_error (stream_of k s) = Some st \<Longrightarrow> shell_step s (set_stream k st s)"
| Sends: "k \<in> {0, 1} \<Longrightarrow> send_turn k s = Some s' \<Longrightarrow> shell_step s s'"
| Locks: "wait_lock s = Some s' \<Longrightarrow> shell_step s s'"
| Waits: "wait_exit ok s = Some s' \<Longrightarrow> shell_step s s'"
| Reports: "wait_send s = Some s' \<Longrightarrow> shell_step s s'"
| Receives: "shell_step s (snd (recv_chunk s))"
| Drops: "shell_step s (s\<lparr>listening := False\<rparr>)"
| Polls: "shell_step s (snd (try_poll_chunk s))"
| Tries: "shell_step s (snd (try_wait s))"
| Awaits: "wait s = Some (c, s') \<Longrightarrow> shell_step s s'"
| Takes_chunks: "shell_step s (snd (take_chunks_rx s))"
| Takes_done: "shell_step s (snd (take_done_rx s))"
| Kills: "kill s = Some s' \<Longrightarrow> shell_step s s'"
| Feeds: "shell_step s (snd (write_stdin n d close s))"

definition shell_reach :: "Shell \<Rightarrow> bool" where
  "shell_reach s \<longleftrightarrow> (\<exists>starts windows cmd s0. spawn starts windows cmd = Some s0 \<and> shell_step\<^sup>*\<^sup>* s0 s)"

lemmas shell_defs = stream_of_def set_stream_def process_writes_def process_closes_def read_turn_def read_error_def
  send_turn_def wait_lock_def wait_exit_def wait_send_def recv_chunk_def try_poll_chunk_def try_wait_def wait_def
  take_chunks_rx_def take_done_rx_def kill_def write_stdin_def

subsection \<open>Output is forwarded in order\<close>

text \<open>What was put into the channel for a stream.\<close>

definition sent_on :: "u8 \<Rightarrow> Shell \<Rightarrow> bytes" where
  "sent_on k s = concat (map sc_data (filter (\<lambda>c. stream c = k) (received s @ queue s)))"

definition held :: "Reader \<Rightarrow> bytes" where
  "held r = (case r of RSend d \<Rightarrow> d | _ \<Rightarrow> [])"

definition stream_ok :: "bytes \<Rightarrow> Stream \<Rightarrow> bool" where
  "stream_ok sent st \<longleftrightarrow>
     (if reader st = RBroke then prefix sent (wrote st) else sent @ held (reader st) @ pipe st = wrote st)
     \<and> (reader st = REof \<longrightarrow> pipe st = [] \<and> \<not> writable st)"

lemma stream_ok_writes:
  "stream_ok b st \<Longrightarrow> process_writes d st = Some st' \<Longrightarrow> stream_ok b st'"
  by (auto simp: stream_ok_def process_writes_def split: if_splits)

lemma stream_ok_closes: "stream_ok b st \<Longrightarrow> stream_ok b (process_closes st)"
  by (auto simp: stream_ok_def process_closes_def)

lemma stream_ok_reads: "stream_ok b st \<Longrightarrow> read_turn n st = Some st' \<Longrightarrow> stream_ok b st'"
  by (auto simp: stream_ok_def read_turn_def held_def split: if_splits)

lemma stream_ok_fails: "stream_ok b st \<Longrightarrow> read_error st = Some st' \<Longrightarrow> stream_ok b st'"
  by (auto simp: stream_ok_def read_error_def held_def split: if_splits) (metis prefixI)

lemma stream_ok_sent:
  assumes "stream_ok b st" "reader st = RSend d"
  shows "stream_ok (b @ d) (st\<lparr>reader := RLoop\<rparr>)" "stream_ok b (st\<lparr>reader := RBroke\<rparr>)"
  using assms by (auto simp: stream_ok_def held_def intro: prefixI [OF sym])

definition shell_ok :: "Shell \<Rightarrow> bool" where
  "shell_ok s \<longleftrightarrow> stream_ok (sent_on 0 s) (outs s) \<and> stream_ok (sent_on 1 s) (errs s)
     \<and> (child s \<longleftrightarrow> waiter s = WStart)"

lemma shell_ok_stream:
  assumes "shell_ok s" "\<And>b. stream_ok b (stream_of k s) \<Longrightarrow> stream_ok b st"
  shows "shell_ok (set_stream k st s)"
  using assms by (auto simp: shell_ok_def stream_of_def set_stream_def sent_on_def split: if_splits)

text \<open>A step that changes neither streams nor chunks nor the child keeps the invariant.\<close>

lemma shell_ok_frame:
  assumes "shell_ok s" "outs s' = outs s" "errs s' = errs s" "received s' @ queue s' = received s @ queue s"
    "child s' = child s" "waiter s' = waiter s"
  shows "shell_ok s'"
  using assms by (simp add: shell_ok_def sent_on_def)

lemma sent_on_push [simp]:
  "sent_on k (s\<lparr>queue := queue s @ [c]\<rparr>) = sent_on k s @ (if stream c = k then sc_data c else [])"
  by (simp add: sent_on_def)

lemma sent_on_streams [simp]:
  "sent_on k (s\<lparr>outs := st\<rparr>) = sent_on k s" "sent_on k (s\<lparr>errs := st\<rparr>) = sent_on k s"
  by (simp_all add: sent_on_def)

lemma shell_ok_send:
  assumes s: "shell_ok s" and k: "k \<in> {0, 1}" and t: "send_turn k s = Some s'"
  shows "shell_ok s'"
proof -
  from t obtain d where d: "reader (stream_of k s) = RSend d"
    by (auto simp: send_turn_def split: Reader.splits)
  from k consider "k = 0" | "k = 1" by auto
  then show ?thesis
  proof cases
    case 1
    with d t s show ?thesis using stream_ok_sent [of "sent_on 0 s" "outs s" d]
      by (auto simp: send_turn_def stream_of_def set_stream_def shell_ok_def split: if_splits)
  next
    case 2
    with d t s show ?thesis using stream_ok_sent [of "sent_on 1 s" "errs s" d]
      by (auto simp: send_turn_def stream_of_def set_stream_def shell_ok_def split: if_splits)
  qed
qed

lemma shell_ok_step: "shell_step s s' \<Longrightarrow> shell_ok s \<Longrightarrow> shell_ok s'"
proof (induction rule: shell_step.induct)
  case (Sends k s s') then show ?case by (blast intro: shell_ok_send)
next
  case (Locks s s') then show ?case by (auto simp: shell_ok_def sent_on_def wait_lock_def split: if_splits)
next
  case (Waits ok s s') then show ?case by (auto simp: shell_ok_def sent_on_def wait_exit_def split: if_splits)
next
  case (Reports s s') then show ?case by (auto simp: shell_ok_def sent_on_def wait_send_def split: Waiter.splits)
qed (auto elim!: shell_ok_frame shell_ok_stream intro: stream_ok_writes stream_ok_closes stream_ok_reads stream_ok_fails
       simp: recv_chunk_def try_poll_chunk_def try_wait_def wait_def take_chunks_rx_def take_done_rx_def kill_def
         write_stdin_def Let_def split: if_splits list.splits)

lemma spawn_ok: "spawn starts windows cmd = Some s \<Longrightarrow> shell_ok s"
  by (auto simp: spawn_def shell_ok_def sent_on_def stream_ok_def fresh_stream_def held_def split: if_splits)

lemma shell_ok_steps: "shell_step\<^sup>*\<^sup>* a s \<Longrightarrow> shell_ok a \<Longrightarrow> shell_ok s"
  by (induction rule: rtranclp_induct) (auto intro: shell_ok_step)

lemma shell_ok_reach: "shell_reach s \<Longrightarrow> shell_ok s"
  unfolding shell_reach_def using spawn_ok shell_ok_steps by blast

lemma sent_prefix:
  assumes "shell_reach s"
  shows "prefix (sent_on 0 s) (wrote (outs s)) \<and> prefix (sent_on 1 s) (wrote (errs s))
     \<and> (reader (outs s) = REof \<longrightarrow> sent_on 0 s = wrote (outs s))
     \<and> (reader (errs s) = REof \<longrightarrow> sent_on 1 s = wrote (errs s))"
  using shell_ok_reach [OF assms]
  by (auto simp: shell_ok_def stream_ok_def held_def split: if_splits intro: prefixI [OF sym])

text \<open>
  C24. In every interleaving, what has been put into the channel for a stream is a prefix of what the
  process wrote to it, in order; once the reader has seen the end of the stream it is all of it.\<close>

theorem output_forwarded_in_order:
  assumes "shell_reach s"
  shows "prefix (sent_on 0 s) (wrote (outs s)) \<and> prefix (sent_on 1 s) (wrote (errs s))
     \<and> (reader (outs s) = REof \<longrightarrow> sent_on 0 s = wrote (outs s))
     \<and> (reader (errs s) = REof \<longrightarrow> sent_on 1 s = wrote (errs s))"
  by (rule sent_prefix [OF assms])

lemma streams_step:
  "shell_step s s' \<Longrightarrow> \<forall>c \<in> set (received s @ queue s). stream c \<in> {0, 1} \<Longrightarrow>
     \<forall>c \<in> set (received s' @ queue s'). stream c \<in> {0, 1}"
proof (induction rule: shell_step.induct)
  case (Sends k s s')
  then show ?case by (auto simp: send_turn_def set_stream_def split: Reader.splits if_splits)
qed (auto simp: set_stream_def wait_lock_def wait_exit_def wait_send_def recv_chunk_def try_poll_chunk_def try_wait_def wait_def
       kill_def take_chunks_rx_def take_done_rx_def write_stdin_def Let_def split: if_splits list.splits Waiter.splits)

lemma streams_reach:
  assumes "shell_reach s"
  shows "\<forall>c \<in> set (received s @ queue s). stream c \<in> {0, 1}"
proof -
  have "shell_step\<^sup>*\<^sup>* a s \<Longrightarrow> \<forall>c \<in> set (received a @ queue a). stream c \<in> {0, 1} \<Longrightarrow>
      \<forall>c \<in> set (received s @ queue s). stream c \<in> {0, 1}" for a
    by (induction rule: rtranclp_induct) (assumption, rule streams_step)
  moreover have "spawn st w c = Some a \<Longrightarrow> received a @ queue a = []" for st w c a
    by (auto simp: spawn_def split: if_splits)
  ultimately show ?thesis using assms unfolding shell_reach_def by fastforce
qed

subsection \<open>Signals\<close>

lemma waited_step:
  "shell_step s s' \<Longrightarrow> shell_ok s \<Longrightarrow> waiter s \<noteq> WStart \<Longrightarrow> waiter s' \<noteq> WStart \<and> signals s' = signals s"
proof (induction rule: shell_step.induct)
  case (Sends k s s') then show ?case
    by (auto simp: send_turn_def set_stream_def split: Reader.splits if_splits)
next
  case (Kills s s') then show ?case by (auto simp: kill_def shell_ok_def split: if_splits)
qed (auto simp: set_stream_def wait_lock_def wait_exit_def wait_send_def recv_chunk_def try_poll_chunk_def try_wait_def wait_def
       take_chunks_rx_def take_done_rx_def write_stdin_def Let_def split: if_splits list.splits Waiter.splits)

lemma waited_steps:
  assumes "shell_step\<^sup>*\<^sup>* s s'" "shell_ok s" "waiter s \<noteq> WStart"
  shows "shell_ok s' \<and> waiter s' \<noteq> WStart \<and> signals s' = signals s"
  using assms by (induction rule: rtranclp_induct) (auto dest: waited_step shell_ok_step)

text \<open>
  C38. Once the wait thread has taken the child, no process can be killed: from then on \<open>kill\<close> blocks as
  long as that thread waits for the process, and does nothing afterwards; no signal is sent.\<close>

theorem kill_never_signals:
  assumes "shell_reach s" "waiter s \<noteq> WStart" "shell_step\<^sup>*\<^sup>* s s'"
  shows "signals s' = signals s \<and> kill s' = (if waiter s' = WWait then None else Some s')"
  using waited_steps [OF assms(3) shell_ok_reach [OF assms(1)] assms(2)]
  by (auto simp: kill_def shell_ok_def)

subsection \<open>The exit code\<close>

text \<open>The code on its way: with the wait thread or in the channel.\<close>

definition codes :: "Shell \<Rightarrow> u32 option list" where
  "codes s = (case waiter s of WGot c \<Rightarrow> [c] | _ \<Rightarrow> []) @ dones s"

definition code_ok :: "Shell \<Rightarrow> bool" where
  "code_ok s \<longleftrightarrow> length (codes s) \<le> 1 \<and> (waiter s \<in> {WStart, WWait} \<longrightarrow> codes s = [])
     \<and> (\<forall>c \<in> set (codes s). c = None \<or> process s = Some c)"

lemma code_ok_step: "shell_step s s' \<Longrightarrow> code_ok s \<Longrightarrow> code_ok s'"
proof (induction rule: shell_step.induct)
  case (Sends k s s') then show ?case
    by (auto simp: send_turn_def set_stream_def code_ok_def codes_def split: Reader.splits if_splits)
next
  case (Waits ok s s') then show ?case
    by (auto simp: wait_exit_def code_ok_def codes_def split: if_splits)
next
  case (Reports s s') then show ?case by (auto simp: wait_send_def code_ok_def codes_def split: Waiter.splits)
qed (auto simp: set_stream_def wait_lock_def recv_chunk_def try_poll_chunk_def try_wait_def wait_def kill_def
       take_chunks_rx_def take_done_rx_def write_stdin_def Let_def code_ok_def codes_def
       split: if_splits list.splits Waiter.splits)

lemma code_ok_reach: "shell_reach s \<Longrightarrow> code_ok s"
proof -
  have "shell_step\<^sup>*\<^sup>* a s \<Longrightarrow> code_ok a \<Longrightarrow> code_ok s" for a
    by (induction rule: rtranclp_induct) (auto intro: code_ok_step)
  moreover have "spawn st w c = Some a \<Longrightarrow> code_ok a" for st w c a
    by (auto simp: spawn_def code_ok_def codes_def split: if_splits)
  ultimately show "shell_reach s \<Longrightarrow> code_ok s" unfolding shell_reach_def by blast
qed

text \<open>
  A code that \<open>try_wait\<close> or \<open>wait\<close> returns is the exit code of the process, which has ended; the only
  other answer is that there is no code (the process was ended by a signal, or waiting failed).\<close>

theorem reported_code_is_exit_code:
  assumes "shell_reach s" "fst (try_wait s) = Some (Some c) \<or> map_option fst (wait s) = Some (Some c)"
  shows "process s = Some (Some c)"
  using code_ok_reach [OF assms(1)] assms(2)
  by (auto simp: try_wait_def wait_def code_ok_def codes_def split: if_splits list.splits)

subsection \<open>Output and exit code race\<close>

definition running :: Shell where
  "running = \<lparr>outs = fresh_stream, errs = fresh_stream, process = None, child = True, waiter = WStart,
     queue = [], received = [], listening = True, chunks_rx = True, dones = [], done_rx = True,
     stdin_arc = True, fed = [], signals = 0\<rparr>"

lemma running_reach: "shell_reach running"
  unfolding shell_reach_def
  by (intro exI [of _ "\<lambda>_. True"] exI [of _ False] exI [of _ "''true''"] exI [of _ running])
     (simp add: spawn_def running_def)

lemma reach_step: "shell_reach s \<Longrightarrow> shell_step s s' \<Longrightarrow> shell_reach s'"
  unfolding shell_reach_def by (meson rtranclp.rtrancl_into_rtrancl)

text \<open>
  The exit code can be in its channel while output the process wrote before it ended is still in the
  pipe; the exec task of the daemon that takes the code then reports the end and stops, and none of the
  output is sent, whatever arrives afterwards.\<close>

theorem done_overtakes_output:
  "\<exists>s. shell_reach s \<and> wrote (outs s) = d \<and> dones s = [Some 0] \<and> sent_on 0 s = []
     \<and> run_exec_task E i cid psk (EvDone (Some 0) # evs) sq
         = (sq + 1, send_control E cid psk sq (ExecDone i (Some 0)), [])"
proof -
  let ?w = "running\<lparr>outs := fresh_stream\<lparr>pipe := d, wrote := d\<rparr>\<rparr>"
  have "shell_step running ?w"
    using shell_step.Writes [where s = running and k = 0 and d = d]
    by (simp add: process_writes_def stream_of_def set_stream_def running_def fresh_stream_def)
  moreover have "shell_step ?w (?w\<lparr>process := Some (Some 0)\<rparr>)" by (rule Exits) (simp add: running_def)
  moreover have "shell_step (?w\<lparr>process := Some (Some 0)\<rparr>) (?w\<lparr>process := Some (Some 0), child := False, waiter := WWait\<rparr>)"
    by (rule Locks) (simp add: wait_lock_def running_def)
  moreover have "shell_step (?w\<lparr>process := Some (Some 0), child := False, waiter := WWait\<rparr>)
      (?w\<lparr>process := Some (Some 0), child := False, waiter := WGot (Some 0)\<rparr>)"
    by (rule Waits [where ok = True]) (simp add: wait_exit_def)
  moreover have "shell_step (?w\<lparr>process := Some (Some 0), child := False, waiter := WGot (Some 0)\<rparr>)
      (?w\<lparr>process := Some (Some 0), child := False, waiter := WEnd, dones := [Some 0]\<rparr>)"
    by (rule Reports) (simp add: wait_send_def running_def)
  ultimately have "shell_reach (?w\<lparr>process := Some (Some 0), child := False, waiter := WEnd, dones := [Some 0]\<rparr>)"
    by (meson running_reach reach_step)
  then show ?thesis
    by (intro exI conjI) (assumption, simp_all add: running_def sent_on_def exec_task_turn_def)
qed

section \<open>Synchronous execution\<close>

record ExecResult =
  exit_code :: u32
  stdout :: bytes
  stderr :: bytes

text \<open>
  A program by what it does next: ending, writing a byte to one of its outputs, or reading a byte of
  its input or its end.
\<close>

datatype prog = PExit "u32 option" | POut u8 prog | PErr u8 prog | PIn "u8 option \<Rightarrow> prog"

datatype exec_error = BrokenPipe | InvalidData

text \<open>Where the call is: writing the input, reading an output, waiting, or returned.\<close>

datatype phase = Writing bytes | ReadingOut | ReadingErr | Waiting | Returned "exec_error + ExecResult"

record exec_state =
  xp :: prog
  xexit :: "u32 option option"
  xin :: bytes
  xin_open :: bool
  xout :: bytes
  xerr :: bytes
  got_out :: bytes
  got_err :: bytes
  xphase :: phase

text \<open>A step of the program; a write into a full pipe and a read from an empty open one wait.\<close>

definition prog_turn :: "nat \<Rightarrow> exec_state \<Rightarrow> exec_state option" where
  "prog_turn cap s =
     (if xexit s \<noteq> None then None
      else case xp s of
             PExit c \<Rightarrow> Some (s\<lparr>xexit := Some c\<rparr>)
           | POut b p \<Rightarrow> if length (xout s) < cap then Some (s\<lparr>xp := p, xout := xout s @ [b]\<rparr>) else None
           | PErr b p \<Rightarrow> if length (xerr s) < cap then Some (s\<lparr>xp := p, xerr := xerr s @ [b]\<rparr>) else None
           | PIn f \<Rightarrow>
               (case xin s of
                  b # r \<Rightarrow> Some (s\<lparr>xp := f (Some b), xin := r\<rparr>)
                | [] \<Rightarrow> if xin_open s then None else Some (s\<lparr>xp := f None\<rparr>)))"

text \<open>\<^verbatim>\<open>status.code().unwrap_or(-1)\<close>\<close>

definition status_code :: "u32 option \<Rightarrow> u32" where
  "status_code c = (case c of Some n \<Rightarrow> n | None \<Rightarrow> - 1)"

text \<open>A step of the call: it reads all of the first output, then all of the second, and then waits.\<close>

definition exec_turn :: "nat \<Rightarrow> exec_state \<Rightarrow> exec_state option" where
  "exec_turn cap s =
     (case xphase s of
        Writing [] \<Rightarrow> Some (s\<lparr>xphase := ReadingOut, xin_open := False\<rparr>)
      | Writing (b # r) \<Rightarrow>
          if xexit s \<noteq> None then Some (s\<lparr>xphase := Returned (Inl BrokenPipe)\<rparr>)
          else if length (xin s) < cap then Some (s\<lparr>xphase := Writing r, xin := xin s @ [b]\<rparr>) else None
      | ReadingOut \<Rightarrow>
          (case xout s of
             b # r \<Rightarrow> Some (s\<lparr>xout := r, got_out := got_out s @ [b]\<rparr>)
           | [] \<Rightarrow>
               if xexit s = None then None
               else Some (s\<lparr>xphase := (if utf8_valid (got_out s) then ReadingErr else Returned (Inl InvalidData))\<rparr>))
      | ReadingErr \<Rightarrow>
          (case xerr s of
             b # r \<Rightarrow> Some (s\<lparr>xerr := r, got_err := got_err s @ [b]\<rparr>)
           | [] \<Rightarrow>
               if xexit s = None then None
               else Some (s\<lparr>xphase := (if utf8_valid (got_err s) then Waiting else Returned (Inl InvalidData))\<rparr>))
      | Waiting \<Rightarrow>
          map_option (\<lambda>c. s\<lparr>xin_open := False, xphase :=
            Returned (Inr \<lparr>exit_code = status_code c, stdout = got_out s, stderr = got_err s\<rparr>)\<rparr>) (xexit s)
      | Returned _ \<Rightarrow> None)"

definition started :: "prog \<Rightarrow> phase \<Rightarrow> exec_state" where
  "started p ph = \<lparr>xp = p, xexit = None, xin = [], xin_open = True, xout = [], xerr = [],
     got_out = [], got_err = [], xphase = ph\<rparr>"

text \<open>\<open>exec\<close> keeps the input of the program open until it waits; \<open>exec_with_input\<close> writes and closes it.\<close>

definition exec :: "prog \<Rightarrow> exec_state" where
  "exec p = started p ReadingOut"

definition exec_with_input :: "prog \<Rightarrow> bytes \<Rightarrow> exec_state" where
  "exec_with_input p stdin_data = started p (Writing stdin_data)"

inductive exec_step :: "nat \<Rightarrow> exec_state \<Rightarrow> exec_state \<Rightarrow> bool" for cap where
  "prog_turn cap s = Some s' \<Longrightarrow> exec_step cap s s'"
| "exec_turn cap s = Some s' \<Longrightarrow> exec_step cap s s'"

subsection \<open>What a program does with an input that ends\<close>

primrec behave :: "prog \<Rightarrow> bytes \<Rightarrow> bytes \<times> bytes \<times> u32 option" where
  "behave (PExit c) = (\<lambda>i. ([], [], c))"
| "behave (POut b p) = (\<lambda>i. case behave p i of (u, e, c) \<Rightarrow> (b # u, e, c))"
| "behave (PErr b p) = (\<lambda>i. case behave p i of (u, e, c) \<Rightarrow> (u, b # e, c))"
| "behave (PIn f) = (\<lambda>i. case i of [] \<Rightarrow> behave (f None) [] | b # r \<Rightarrow> behave (f (Some b)) r)"

primrec cost :: "prog \<Rightarrow> bytes \<Rightarrow> nat" where
  "cost (PExit c) = (\<lambda>i. 1)"
| "cost (POut b p) = (\<lambda>i. 2 + cost p i)"
| "cost (PErr b p) = (\<lambda>i. 2 + cost p i)"
| "cost (PIn f) = (\<lambda>i. 1 + (case i of [] \<Rightarrow> cost (f None) [] | b # r \<Rightarrow> cost (f (Some b)) r))"

primrec reads_nothing :: "prog \<Rightarrow> bool" where
  "reads_nothing (PExit c) = True"
| "reads_nothing (POut b p) = reads_nothing p"
| "reads_nothing (PErr b p) = reads_nothing p"
| "reads_nothing (PIn f) = False"

definition to_write :: "exec_state \<Rightarrow> bytes" where
  "to_write s = (case xphase s of Writing d \<Rightarrow> d | _ \<Rightarrow> [])"

text \<open>The behaviour that the state still stands for: what was read, what is in the pipes, what is to come.\<close>

definition total_of :: "exec_state \<Rightarrow> bytes \<times> bytes \<times> u32 option" where
  "total_of s =
     (case (case xexit s of Some c \<Rightarrow> ([], [], c) | None \<Rightarrow> behave (xp s) (xin s @ to_write s)) of
        (u, e, c) \<Rightarrow> (got_out s @ xout s @ u, got_err s @ xerr s @ e, c))"

definition phase_rank :: "phase \<Rightarrow> nat" where
  "phase_rank ph = (case ph of Writing d \<Rightarrow> 4 + length d | ReadingOut \<Rightarrow> 3 | ReadingErr \<Rightarrow> 2 | Waiting \<Rightarrow> 1 | Returned _ \<Rightarrow> 0)"

definition exec_measure :: "exec_state \<Rightarrow> nat" where
  "exec_measure s = (case xexit s of Some c \<Rightarrow> 0 | None \<Rightarrow> cost (xp s) (xin s @ to_write s))
     + length (xout s) + length (xerr s) + phase_rank (xphase s)"

text \<open>
  The input is closed once it is written, or the program reads none; the pipes for the input and for
  the errors never fill; the phases after the first output begin only when the program has ended.
\<close>

definition exec_ok :: "nat \<Rightarrow> exec_state \<Rightarrow> bool" where
  "exec_ok cap s \<longleftrightarrow>
     (reads_nothing (xp s) \<or> (xphase s \<in> range Writing) \<or> \<not> xin_open s)
     \<and> (\<not> xin_open s \<longrightarrow> to_write s = [])
     \<and> length (xin s) + length (to_write s) \<le> cap
     \<and> length (fst (snd (total_of s))) \<le> cap
     \<and> (xphase s \<in> {ReadingErr, Waiting} \<longrightarrow> xexit s \<noteq> None \<and> xout s = [] \<and> utf8_valid (got_out s))
     \<and> (xphase s = Waiting \<longrightarrow> xerr s = [] \<and> utf8_valid (got_err s))"

lemma prog_turn_frame:
  assumes "prog_turn cap s = Some s'"
  shows "xphase s' = xphase s" "to_write s' = to_write s" "xin_open s' = xin_open s" "got_out s' = got_out s"
    "got_err s' = got_err s" "length (xin s') \<le> length (xin s)" "xexit s = None"
    "reads_nothing (xp s) \<Longrightarrow> reads_nothing (xp s')"
  using assms
  by (auto simp: prog_turn_def to_write_def split: if_splits prog.splits list.splits)

lemma prog_turn_total:
  assumes "prog_turn cap s = Some s'" "\<not> xin_open s \<Longrightarrow> to_write s = []"
  shows "total_of s' = total_of s" "exec_measure s' < exec_measure s"
proof -
  note frame = prog_turn_frame [OF assms(1)]
  have t: "to_write s' = to_write s" "xphase s' = xphase s" "xexit s = None" using frame by auto
  show "total_of s' = total_of s" "exec_measure s' < exec_measure s"
    using assms t
    by (cases "xp s"; auto simp: prog_turn_def total_of_def exec_measure_def split: if_splits list.splits prod.splits)+
qed

lemma prog_turn_ok: "exec_ok cap s \<Longrightarrow> prog_turn cap s = Some s' \<Longrightarrow> exec_ok cap s'"
  using prog_turn_frame [of cap s s'] prog_turn_total(1) [of cap s s']
  by (auto simp: exec_ok_def)

lemma exec_turn_total:
  assumes "exec_ok cap s" "exec_turn cap s = Some s'" "xphase s' \<noteq> Returned (Inl BrokenPipe)"
  shows "total_of s' = total_of s"
  using assms
  by (cases "xphase s"; cases "to_write s")
     (auto simp: exec_turn_def total_of_def to_write_def split: if_splits list.splits option.splits)

lemma exec_turn_less: "exec_turn cap s = Some s' \<Longrightarrow> exec_measure s' < exec_measure s"
  by (cases "xphase s"; cases "to_write s")
     (auto simp: exec_turn_def exec_measure_def phase_rank_def to_write_def split: if_splits list.splits option.splits)

lemma exec_turn_ok:
  assumes "exec_ok cap s" "exec_turn cap s = Some s'" "xphase s' \<noteq> Returned (Inl BrokenPipe)"
  shows "exec_ok cap s'"
  using assms exec_turn_total [OF assms]
  by (cases "xphase s"; cases "to_write s")
     (auto simp: exec_turn_def exec_ok_def to_write_def split: if_splits list.splits)

subsection \<open>Both calls return\<close>

definition expected :: "bytes \<times> bytes \<times> u32 option \<Rightarrow> exec_error + ExecResult" where
  "expected T = (case T of (u, e, c) \<Rightarrow>
     if utf8_valid u \<and> utf8_valid e then Inr \<lparr>exit_code = status_code c, stdout = u, stderr = e\<rparr> else Inl InvalidData)"

text \<open>\<open>w\<close>: whether the call writes an input.\<close>

definition exec_inv :: "bool \<Rightarrow> nat \<Rightarrow> bytes \<times> bytes \<times> u32 option \<Rightarrow> exec_state \<Rightarrow> bool" where
  "exec_inv w cap T s \<longleftrightarrow>
     w \<and> xphase s = Returned (Inl BrokenPipe) \<and> xexit s \<noteq> None
     \<or> exec_ok cap s \<and> total_of s = T \<and> (xphase s \<in> range Writing \<longrightarrow> w)
       \<and> (\<forall>r. xphase s = Returned r \<longrightarrow> r = expected T \<and> xexit s \<noteq> None)"

lemma broken_pipe_turn:
  "exec_turn cap s = Some s' \<Longrightarrow> xphase s' = Returned (Inl BrokenPipe) \<Longrightarrow> xphase s \<in> range Writing \<and> xexit s' \<noteq> None"
  by (auto simp: exec_turn_def split: phase.splits list.splits if_splits)

lemma exec_turn_result:
  assumes "exec_ok cap s" "exec_turn cap s = Some s'" "xphase s' = Returned r" "r \<noteq> Inl BrokenPipe"
  shows "r = expected (total_of s) \<and> xexit s' \<noteq> None"
  using assms
  by (auto simp: exec_turn_def exec_ok_def total_of_def expected_def split: phase.splits list.splits if_splits)

lemma exec_inv_step:
  assumes i: "exec_inv w cap T s" and t: "exec_step cap s s'"
  shows "exec_inv w cap T s'"
  using t
proof cases
  case 1
  then have "exec_ok cap s" "total_of s = T" "xphase s \<in> range Writing \<longrightarrow> w" "\<forall>r. xphase s \<noteq> Returned r"
    using i prog_turn_frame(7) [OF 1] by (auto simp: exec_inv_def)
  moreover from this have "total_of s' = T" using prog_turn_total(1) [OF 1] by (auto simp: exec_ok_def)
  ultimately show ?thesis
    using prog_turn_ok [OF _ 1] prog_turn_frame(1) [OF 1] by (simp add: exec_inv_def)
next
  case 2
  then have s: "exec_ok cap s" "total_of s = T" "xphase s \<in> range Writing \<longrightarrow> w"
    using i by (auto simp: exec_inv_def exec_turn_def)
  show ?thesis
  proof (cases "xphase s' = Returned (Inl BrokenPipe)")
    case True
    with broken_pipe_turn [OF 2] s show ?thesis by (auto simp: exec_inv_def)
  next
    case False
    have "xphase s' \<in> range Writing \<Longrightarrow> xphase s \<in> range Writing"
      using 2 by (auto simp: exec_turn_def split: phase.splits list.splits if_splits)
    with False exec_turn_ok [OF s(1) 2 False] exec_turn_total [OF s(1) 2 False] exec_turn_result [OF s(1) 2] s
    show ?thesis by (auto simp: exec_inv_def)
  qed
qed

lemma exec_inv_steps: "(exec_step cap)\<^sup>*\<^sup>* a s \<Longrightarrow> exec_inv w cap T a \<Longrightarrow> exec_inv w cap T s"
  by (induction rule: rtranclp_induct) (auto intro: exec_inv_step)

lemma exec_step_less: "exec_inv w cap T s \<Longrightarrow> exec_step cap s s' \<Longrightarrow> exec_measure s' < exec_measure s"
  by (erule exec_step.cases)
     (auto simp: exec_inv_def exec_ok_def prog_turn_def intro: prog_turn_total(2) exec_turn_less)

lemma prog_turn_progress:
  assumes "exec_ok cap s" "0 < cap" "xexit s = None" "xphase s = ReadingOut" "xout s = []"
  shows "prog_turn cap s \<noteq> None"
  using assms
  by (cases "xp s") (auto simp: prog_turn_def exec_ok_def total_of_def split: list.splits prod.splits)

lemma exec_progress:
  assumes "exec_ok cap s" "0 < cap" "xphase s \<notin> range Returned"
  shows "\<exists>s'. exec_step cap s s'"
proof (cases "exec_turn cap s")
  case None
  with assms have "xexit s = None" "xphase s = ReadingOut" "xout s = []"
    by (auto simp: exec_turn_def exec_ok_def to_write_def split: phase.splits list.splits if_splits)
  with prog_turn_progress [OF assms(1,2)] show ?thesis by (auto intro: exec_step.intros(1))
qed (auto intro: exec_step.intros(2))

lemma exec_done:
  assumes "exec_inv w cap T s" "0 < cap"
  shows "(\<exists>s'. exec_step cap s s') \<or> xphase s = Returned (expected T) \<or> w \<and> xphase s = Returned (Inl BrokenPipe)"
  using assms exec_progress [of cap s] by (auto simp: exec_inv_def)

lemma no_infinite_run:
  assumes "exec_inv w cap T a"
  shows "\<nexists>run. run 0 = a \<and> (\<forall>n. exec_step cap (run n) (run (Suc n)))"
proof
  assume "\<exists>run. run 0 = a \<and> (\<forall>n. exec_step cap (run n) (run (Suc n)))"
  then obtain run where r: "run 0 = a" "\<And>n. exec_step cap (run n) (run (Suc n))" by blast
  have "exec_inv w cap T (run n)" for n
    by (induction n) (use r assms exec_inv_step in auto)
  then have "exec_measure (run (Suc n)) < exec_measure (run n)" for n using exec_step_less r(2) by blast
  then show False using wf_iff_no_infinite_down_chain [of "measure (\<lambda>s. exec_measure s)"] by auto
qed

lemma exec_inv_exec:
  assumes "reads_nothing p" "length (fst (snd (behave p []))) \<le> cap"
  shows "exec_inv False cap (behave p []) (exec p)"
  using assms by (auto simp: exec_inv_def exec_def started_def exec_ok_def total_of_def to_write_def split: prod.splits)

lemma exec_inv_with_input:
  assumes "length d \<le> cap" "length (fst (snd (behave p d))) \<le> cap"
  shows "exec_inv True cap (behave p d) (exec_with_input p d)"
  using assms
  by (auto simp: exec_inv_def exec_with_input_def started_def exec_ok_def total_of_def to_write_def split: prod.splits)

text \<open>
  C25. \<open>exec\<close> of a program that reads no input and writes at most a pipe full of errors returns in every
  schedule, with exactly the outputs and the exit code of the program, or with an error when an output
  is not UTF-8.\<close>

theorem exec_returns_outputs:
  assumes "reads_nothing p" "length (fst (snd (behave p []))) \<le> cap" "0 < cap"
    and "(exec_step cap)\<^sup>*\<^sup>* (exec p) s"
  shows "((\<exists>s'. exec_step cap s s') \<or> xphase s = Returned (expected (behave p [])))
     \<and> (\<nexists>run. run 0 = exec p \<and> (\<forall>n. exec_step cap (run n) (run (Suc n))))"
  using exec_done [OF exec_inv_steps [OF assms(4) exec_inv_exec [OF assms(1,2)]] assms(3)]
    no_infinite_run [OF exec_inv_exec [OF assms(1,2)]] by simp

text \<open>
  \<open>exec_with_input\<close> with an input of at most a pipe full returns in every schedule with the outputs of
  the program on that input; when the program ends before all of it is written, with a broken pipe.\<close>

theorem exec_with_input_returns_outputs:
  assumes "length d \<le> cap" "length (fst (snd (behave p d))) \<le> cap" "0 < cap"
    and "(exec_step cap)\<^sup>*\<^sup>* (exec_with_input p d) s"
  shows "((\<exists>s'. exec_step cap s s') \<or> xphase s = Returned (expected (behave p d))
          \<or> xphase s = Returned (Inl BrokenPipe))
     \<and> (\<nexists>run. run 0 = exec_with_input p d \<and> (\<forall>n. exec_step cap (run n) (run (Suc n))))"
  using exec_done [OF exec_inv_steps [OF assms(4) exec_inv_with_input [OF assms(1,2)]] assms(3)]
    no_infinite_run [OF exec_inv_with_input [OF assms(1,2)]] by simp

subsection \<open>Where they hang\<close>

text \<open>
  \<open>exec\<close> opens a pipe for the input and reads the output to its end before it closes that pipe: a
  program that first reads its input and the call wait for each other for ever.\<close>

theorem exec_hangs_on_input: "\<not> exec_step cap (exec (PIn f)) s"
  by (auto simp: exec_step.simps exec_def started_def prog_turn_def exec_turn_def)

lemma errors_fill:
  assumes "xexit s = None" "xp s = foldr PErr es p" "length (xerr s) + length es \<le> cap"
  shows "(exec_step cap)\<^sup>*\<^sup>* s (s\<lparr>xp := p, xerr := xerr s @ es\<rparr>)"
  using assms
proof (induction es arbitrary: s)
  case (Cons e es)
  let ?t = "s\<lparr>xp := foldr PErr es p, xerr := xerr s @ [e]\<rparr>"
  have "exec_step cap s ?t" using Cons.prems by (intro exec_step.intros(1)) (simp add: prog_turn_def)
  moreover have "(exec_step cap)\<^sup>*\<^sup>* ?t (?t\<lparr>xp := p, xerr := xerr ?t @ es\<rparr>)" using Cons by (intro Cons.IH) simp_all
  ultimately show ?case by (simp add: converse_rtranclp_into_rtranclp)
next
  case Nil
  then have "s\<lparr>xp := p, xerr := xerr s @ []\<rparr> = s" by (cases s) simp
  then show ?case by simp
qed

text \<open>The outputs are read one after the other: a program that writes more errors than a pipe holds hangs.\<close>

theorem exec_hangs_on_errors:
  assumes "cap < length es"
  shows "\<exists>s. (exec_step cap)\<^sup>*\<^sup>* (exec (foldr PErr es p)) s \<and> (\<nexists>s'. exec_step cap s s') \<and> xphase s = ReadingOut"
proof -
  obtain e rest where split: "es = take cap es @ e # rest" using assms by (metis id_take_nth_drop)
  let ?s = "(exec (foldr PErr es p))\<lparr>xp := PErr e (foldr PErr rest p), xerr := take cap es\<rparr>"
  have "foldr PErr es p = foldr PErr (take cap es) (PErr e (foldr PErr rest p))"
    by (subst split) simp
  then have "(exec_step cap)\<^sup>*\<^sup>* (exec (foldr PErr es p)) ?s"
    using errors_fill [of "exec (foldr PErr es p)" "take cap es" "PErr e (foldr PErr rest p)" cap]
    by (simp add: exec_def started_def)
  moreover have "\<nexists>s'. exec_step cap ?s s'"
    using assms by (auto simp: exec_step.simps exec_def started_def prog_turn_def exec_turn_def)
  ultimately show ?thesis by (intro exI [of _ ?s]) (simp add: exec_def started_def)
qed

section \<open>Witnesses\<close>

definition locked :: Shell where
  "locked = running\<lparr>child := False, waiter := WWait\<rparr>"

lemma locked_reach: "shell_reach locked"
  by (rule reach_step [OF running_reach], rule Locks) (simp add: wait_lock_def running_def locked_def)

definition reported :: Shell where
  "reported = running\<lparr>process := Some (Some 7), child := False, waiter := WEnd, dones := [Some 7]\<rparr>"

lemma reported_reach: "shell_reach reported"
proof -
  have "shell_step locked (locked\<lparr>process := Some (Some 7)\<rparr>)" by (rule Exits) (simp add: locked_def running_def)
  moreover have "shell_step (locked\<lparr>process := Some (Some 7)\<rparr>) (locked\<lparr>process := Some (Some 7), waiter := WGot (Some 7)\<rparr>)"
    by (rule Waits [where ok = True]) (simp add: wait_exit_def locked_def running_def)
  moreover have "shell_step (locked\<lparr>process := Some (Some 7), waiter := WGot (Some 7)\<rparr>) reported"
    by (rule Reports) (simp add: wait_send_def locked_def running_def reported_def)
  ultimately show ?thesis by (meson locked_reach reach_step)
qed

text \<open>A process that wrote one byte and closed its outputs, which were read to their ends.\<close>

definition greeted :: Shell where
  "greeted = running\<lparr>outs := \<lparr>pipe = [], writable = False, wrote = [104], reader = REof\<rparr>,
     errs := \<lparr>pipe = [], writable = False, wrote = [], reader = REof\<rparr>,
     received := [\<lparr>stream = 0, sc_data = [104]\<rparr>]\<rparr>"

lemma greeted_reach: "shell_reach greeted"
proof -
  let ?o = "\<lambda>p w r. \<lparr>pipe = p, writable = w, wrote = [104], reader = r\<rparr> :: Stream"
  let ?e = "\<lambda>w r. \<lparr>pipe = [], writable = w, wrote = [], reader = r\<rparr> :: Stream"
  let ?c = "\<lparr>stream = 0, sc_data = [104]\<rparr>"
  let ?w1 = "running\<lparr>outs := ?o [104] True RLoop\<rparr>"
  let ?w2 = "running\<lparr>outs := ?o [] True (RSend [104])\<rparr>"
  let ?w3 = "running\<lparr>outs := ?o [] True RLoop, queue := [?c]\<rparr>"
  let ?w4 = "running\<lparr>outs := ?o [] True RLoop, received := [?c]\<rparr>"
  let ?w5 = "running\<lparr>outs := ?o [] False RLoop, received := [?c]\<rparr>"
  let ?w6 = "running\<lparr>outs := ?o [] False RLoop, errs := ?e False RLoop, received := [?c]\<rparr>"
  let ?w7 = "running\<lparr>outs := ?o [] False REof, errs := ?e False RLoop, received := [?c]\<rparr>"
  note defs = running_def fresh_stream_def stream_of_def set_stream_def
  have "shell_step running ?w1"
    using shell_step.Writes [where s = running and k = 0 and d = "[104]"] by (simp add: process_writes_def defs)
  moreover have "shell_step ?w1 ?w2"
    using shell_step.Reads [where s = ?w1 and k = 0 and n = 1] by (simp add: read_turn_def defs)
  moreover have "shell_step ?w2 ?w3" by (rule Sends [where k = 0]) (simp_all add: send_turn_def defs)
  moreover have "shell_step ?w3 ?w4" using Receives [of ?w3] by (simp add: recv_chunk_def defs)
  moreover have "shell_step ?w4 ?w5" using Closes [of ?w4 0] by (simp add: process_closes_def defs)
  moreover have "shell_step ?w5 ?w6" using Closes [of ?w5 1] by (simp add: process_closes_def defs)
  moreover have "shell_step ?w6 ?w7"
    using shell_step.Reads [where s = ?w6 and k = 0 and n = 1] by (simp add: read_turn_def defs)
  moreover have "shell_step ?w7 greeted"
    using shell_step.Reads [where s = ?w7 and k = 1 and n = 1] by (simp add: read_turn_def defs greeted_def)
  ultimately show ?thesis by (meson running_reach reach_step)
qed

theorem output_forwarded_in_order_witness:
  "shell_reach greeted \<and> reader (outs greeted) = REof \<and> sent_on 0 greeted = [104]"
  using output_forwarded_in_order [OF greeted_reach] greeted_reach by (simp add: greeted_def)

theorem kill_never_signals_witness: "kill locked = None \<and> process locked = None \<and> kill reported = Some reported"
proof -
  have "waiter locked = WWait" "process locked = None" "waiter reported = WEnd"
    by (simp_all add: locked_def reported_def running_def)
  then show ?thesis
    using kill_never_signals [OF locked_reach, of locked] kill_never_signals [OF reported_reach, of reported] by simp
qed

theorem reported_code_is_exit_code_witness: "fst (try_wait reported) = Some (Some 7) \<and> process reported = Some (Some 7)"
proof -
  have t: "fst (try_wait reported) = Some (Some 7)" by (simp add: try_wait_def reported_def running_def)
  with reported_code_is_exit_code [OF reported_reach, of 7] show ?thesis by simp
qed

definition hello :: prog where
  "hello = POut 104 (PErr 101 (POut 105 (PExit (Some 3))))"

theorem exec_returns_outputs_witness:
  "expected (behave hello []) = Inr \<lparr>exit_code = 3, stdout = [104, 105], stderr = [101]\<rparr> \<and>
   ((\<exists>s'. exec_step 1 (exec hello) s') \<or> xphase (exec hello) = Returned (expected (behave hello []))) \<and>
   (\<nexists>run. run 0 = exec hello \<and> (\<forall>n. exec_step 1 (run n) (run (Suc n))))"
proof -
  have "reads_nothing hello" "length (fst (snd (behave hello []))) \<le> 1" by (simp_all add: hello_def)
  from exec_returns_outputs [OF this, of "exec hello"]
  have "((\<exists>s'. exec_step 1 (exec hello) s') \<or> xphase (exec hello) = Returned (expected (behave hello []))) \<and>
   (\<nexists>run. run 0 = exec hello \<and> (\<forall>n. exec_step 1 (run n) (run (Suc n))))" by simp
  moreover have "expected (behave hello []) = Inr \<lparr>exit_code = 3, stdout = [104, 105], stderr = [101]\<rparr>"
    by (simp add: expected_def hello_def status_code_def)
  ultimately show ?thesis by simp
qed

definition echo :: prog where
  "echo = PIn (\<lambda>b. case b of None \<Rightarrow> PExit (Some 0) | Some b \<Rightarrow> POut b (PExit (Some 0)))"

theorem exec_with_input_returns_outputs_witness:
  "fst (behave echo [104]) = [104] \<and>
   (\<nexists>run. run 0 = exec_with_input echo [104] \<and> (\<forall>n. exec_step 1 (run n) (run (Suc n))))"
  using exec_with_input_returns_outputs [of "[104]" 1 echo "exec_with_input echo [104]"] by (simp add: echo_def)

theorem exec_hangs_on_errors_witness:
  "\<exists>s. (exec_step 1)\<^sup>*\<^sup>* (exec (foldr PErr [101, 102] (PExit (Some 0)))) s \<and> (\<nexists>s'. exec_step 1 s s') \<and> xphase s = ReadingOut"
  by (rule exec_hangs_on_errors) simp

end
