(* ===== verification/CtlSession.thy ===== *)
theory CtlSession
  imports Client Host Identity Address
begin

text \<open>
  How the client reaches a daemon, \<^verbatim>\<open>crates/ctl/src/main.rs\<close>: the key (\<open>resolve_psk\<close>), the address, the
  probing of ports over UDP, TCP as the last resort, and the exchange of Hello (\<open>Ctx::new\<close>). The
  network is a parameter: what comes back for a packet, and what a TCP stream yields.
\<close>

section \<open>Key and address\<close>

definition resolve_psk :: "'h os \<Rightarrow> 'h \<Rightarrow> string option \<Rightarrow> string option" where
  "resolve_psk sys h psk_arg =
     (case psk_arg of
        Some hex \<Rightarrow> Some hex
      | None \<Rightarrow>
          (case os_var sys h ''LAN_LINK_PSK'' of
             Some hex \<Rightarrow> Some hex
           | None \<Rightarrow>
               (case read_to_string sys h ''/etc/lan-link/psk'' of
                  Inl _ \<Rightarrow> None
                | Inr hex \<Rightarrow> let trimmed = trim hex in if trimmed \<noteq> [] then Some trimmed else None)))"

definition PORT_CANDIDATES :: "u16 list" where
  "PORT_CANDIDATES = [9876, 9877, 9878, 9879, 9880, 9881, 9882, 9883, 9884, 9885]"

text \<open>The answer to a SYN sent to an address from a fresh socket.\<close>

datatype probe = NoSocket | NotSent | Silent | Answers bytes

text \<open>
  \<open>parse_sa\<close> and \<open>ip_text\<close> are \<^verbatim>\<open>SocketAddr::from_str\<close> and the text of an address; \<open>udp_hello\<close> is what
  arrives within 5 s of the Hello; \<open>tcp_stream\<close> is what the peer of a connection sends, if it is made.
\<close>

record ctl_net =
  parse_sa :: "string \<Rightarrow> SocketAddr option"
  ip_text :: "IpAddr \<Rightarrow> string"
  udp_probe :: "SocketAddr \<Rightarrow> bytes \<Rightarrow> probe"
  udp_hello :: "SocketAddr \<Rightarrow> bytes \<Rightarrow> bytes option"
  tcp_stream :: "string \<Rightarrow> bytes option"

text \<open>\<^verbatim>\<open>rsplitn(2, ':')\<close>: the piece after the last colon and the one before it.\<close>

definition rsplit_once :: "char \<Rightarrow> string \<Rightarrow> string \<times> string option" where
  "rsplit_once c s = (case split_once c (rev s) of (a, r) \<Rightarrow> (rev a, map_option rev r))"

definition target_of :: "ctl_net \<Rightarrow> string \<Rightarrow> string \<times> u16 option" where
  "target_of N addr =
     (case parse_sa N addr of
        Some (ip, port) \<Rightarrow> (ip_text N ip, Some port)
      | None \<Rightarrow>
          (case rsplit_once (CHR '':'') addr of
             (port, Some host) \<Rightarrow> (host, parse_u16 port)
           | (_, None) \<Rightarrow> (addr, None)))"

definition host_port :: "string \<Rightarrow> u16 \<Rightarrow> string" where
  "host_port host port = host @ '':'' @ show_nat (unat port)"

section \<open>Connecting\<close>

definition ctl_syn :: "u64 \<Rightarrow> bytes" where
  "ctl_syn cid = ctl_encode_packet cid Syn (stream_as_u16 Control) 0 0 [] (replicate 12 0)"

definition syn_acked :: "u64 \<Rightarrow> bytes \<Rightarrow> bool" where
  "syn_acked cid d =
     (case parse_packet d of None \<Rightarrow> False | Some (hdr, _) \<Rightarrow> pkt_type hdr = SynAck \<and> conn_id hdr = cid)"

text \<open>The loop over the ports: the SYNs sent and the address that acknowledged one.\<close>

fun probe_ports :: "ctl_net \<Rightarrow> string \<Rightarrow> u64 \<Rightarrow> u16 list \<Rightarrow> SocketAddr list \<times> SocketAddr option" where
  "probe_ports N host cid [] = ([], None)"
| "probe_ports N host cid (port # ports) =
     (case parse_sa N (host_port host port) of
        None \<Rightarrow> probe_ports N host cid ports
      | Some remote \<Rightarrow>
          (case udp_probe N remote (ctl_syn cid) of
             NoSocket \<Rightarrow> probe_ports N host cid ports
           | NotSent \<Rightarrow> probe_ports N host cid ports
           | Silent \<Rightarrow> (let (sent, r) = probe_ports N host cid ports in (remote # sent, r))
           | Answers d \<Rightarrow>
               if syn_acked cid (take MAX_PACKET d) then ([remote], Some remote)
               else let (sent, r) = probe_ports N host cid ports in (remote # sent, r)))"

definition hello_msg :: ControlMsg where
  "hello_msg = Hello PROTOCOL_VERSION [''exec'', ''input'']"

text \<open>
  TCP: the SYN frame, the acknowledgement of fewer than 4096 bytes, Hello and its answer. \<open>None\<close> is a
  panic; the session, if the peer answers as it should, and what was written.
\<close>

definition tcp_session :: "daemon_env \<Rightarrow> ctl_net \<Rightarrow> Psk \<Rightarrow> u64 \<Rightarrow> string
     \<Rightarrow> (bytes \<times> (ctl_error, Ctx option) result) option" where
  "tcp_session E N psk cid addr_str =
     (case tcp_stream N addr_str of
        None \<Rightarrow> Some ([], Inr None)
      | Some bs \<Rightarrow>
          (let syn = tcp_frame (ctl_syn cid)
           in if length bs < 4 then Some (syn, Inl IoError)
              else
                let resp_len = unat (be_word (take 4 bs) :: u32); rest = drop 4 bs
                in if resp_len > 0 \<and> resp_len < 4096 then
                     if length rest < resp_len then Some (syn, Inl IoError)
                     else if syn_acked cid (take resp_len rest) then
                       (let remote = (case parse_sa N addr_str of Some r \<Rightarrow> r | None \<Rightarrow> (V4 0, 0));
                            ctx = \<lparr>ctx_remote = remote, ctx_psk = psk, ctx_conn_id = cid, ctx_seq = 1, ctx_tcp = True\<rparr>
                        in case encode_control E cid psk 1 hello_msg of
                             None \<Rightarrow> None
                           | Some hello \<Rightarrow>
                               Some (syn @ tcp_frame hello,
                                 case fst (tcp_read_frame (drop resp_len rest)) of
                                   Inl e \<Rightarrow> Inl e
                                 | Inr _ \<Rightarrow> Inr (Some ctx)))
                     else Some (syn, Inr None)
                   else Some (syn, Inr None)))"

text \<open>\<open>Ctx::new\<close>: the addresses sent a SYN over UDP, the bytes written over TCP, and the session.\<close>

definition ctx_new :: "daemon_env \<Rightarrow> hex_codec \<Rightarrow> ctl_net \<Rightarrow> u64 \<Rightarrow> string \<Rightarrow> string
     \<Rightarrow> (SocketAddr list \<times> bytes \<times> (ctl_error, Ctx) result) option" where
  "ctx_new E H N cid addr psk_hex =
     (case hex_decode H psk_hex of
        Inl _ \<Rightarrow> Some ([], [], Inl BadKey)
      | Inr psk \<Rightarrow>
          if length psk \<noteq> 32 then Some ([], [], Inl BadKey)
          else
            let (host, fixed_port) = target_of N addr;
                ports = (case fixed_port of Some p \<Rightarrow> [p] | None \<Rightarrow> PORT_CANDIDATES);
                (sent, found) = probe_ports N host cid ports
            in case found of
                 Some remote \<Rightarrow>
                   (let ctx = \<lparr>ctx_remote = remote, ctx_psk = psk, ctx_conn_id = cid, ctx_seq = 1, ctx_tcp = False\<rparr>
                    in case encode_control E cid psk 1 hello_msg of
                         None \<Rightarrow> None
                       | Some hello \<Rightarrow>
                           Some (sent, [],
                             case udp_hello N remote hello of
                               None \<Rightarrow> Inl Elapsed
                             | Some d \<Rightarrow>
                                 (case recv_control_udp E psk d of Inl e \<Rightarrow> Inl e | Inr _ \<Rightarrow> Inr ctx)))
               | None \<Rightarrow>
                   (let tcp_port = (case fixed_port of Some p \<Rightarrow> p | None \<Rightarrow> hd PORT_CANDIDATES)
                    in case tcp_session E N psk cid (host_port host tcp_port) of
                         None \<Rightarrow> None
                       | Some (written, Inl e) \<Rightarrow> Some (sent, written, Inl e)
                       | Some (written, Inr (Some ctx)) \<Rightarrow> Some (sent, written, Inr ctx)
                       | Some (written, Inr None) \<Rightarrow> Some (sent, written, Inl NoDaemon)))"

section \<open>The first port that answers\<close>

definition port_answers :: "ctl_net \<Rightarrow> string \<Rightarrow> u64 \<Rightarrow> u16 \<Rightarrow> SocketAddr option" where
  "port_answers N host cid port =
     (case parse_sa N (host_port host port) of
        None \<Rightarrow> None
      | Some remote \<Rightarrow>
          (case udp_probe N remote (ctl_syn cid) of
             Answers d \<Rightarrow> if syn_acked cid (take MAX_PACKET d) then Some remote else None
           | _ \<Rightarrow> None))"

lemma probe_ports_Cons:
  "snd (probe_ports N host cid (p # ps)) =
     (case port_answers N host cid p of Some r \<Rightarrow> Some r | None \<Rightarrow> snd (probe_ports N host cid ps))"
  by (simp add: port_answers_def case_prod_unfold Let_def split: option.split probe.split)

text \<open>The session is made with the first port, in the order tried, whose answer acknowledges the SYN.\<close>

theorem first_answering_port:
  "snd (probe_ports N host cid ports) = Some remote \<longleftrightarrow>
     (\<exists>xs p ys. ports = xs @ p # ys \<and> (\<forall>x \<in> set xs. port_answers N host cid x = None)
        \<and> port_answers N host cid p = Some remote)"
proof (induction ports)
  case (Cons q ports)
  let ?first = "\<lambda>xs p. (\<forall>x \<in> set xs. port_answers N host cid x = None) \<and> port_answers N host cid p = Some remote"
  show ?case
  proof (cases "port_answers N host cid q")
    case None
    have "(\<exists>xs p ys. q # ports = xs @ p # ys \<and> ?first xs p) \<longleftrightarrow> (\<exists>xs p ys. ports = xs @ p # ys \<and> ?first xs p)"
      (is "?l \<longleftrightarrow> ?r")
    proof
      assume ?l
      then obtain xs p ys where x: "q # ports = xs @ p # ys" "?first xs p" by blast
      with None obtain xs' where "xs = q # xs'" by (cases xs) auto
      with x show ?r by auto
    next
      assume ?r
      then obtain xs p ys where "ports = xs @ p # ys" "?first xs p" by blast
      with None have "q # ports = (q # xs) @ p # ys \<and> ?first (q # xs) p" by simp
      then show ?l by blast
    qed
    with None Cons.IH show ?thesis by (subst probe_ports_Cons) simp
  next
    case (Some r)
    have "(\<exists>xs p ys. q # ports = xs @ p # ys \<and> ?first xs p) \<longleftrightarrow> r = remote"
    proof
      assume "\<exists>xs p ys. q # ports = xs @ p # ys \<and> ?first xs p"
      then obtain xs p ys where x: "q # ports = xs @ p # ys" "?first xs p" by blast
      with Some have "xs = []" by (cases xs) auto
      with x Some show "r = remote" by simp
    next
      assume "r = remote"
      with Some have "q # ports = [] @ q # ports \<and> ?first [] q" by simp
      then show "\<exists>xs p ys. q # ports = xs @ p # ys \<and> ?first xs p" by blast
    qed
    with Some show ?thesis by (subst probe_ports_Cons) simp
  qed
qed simp

section \<open>Connecting to a daemon\<close>

lemma ctl_syn_eq: "ctl_syn cid = build_syn cid"
  by (simp add: ctl_syn_def ctl_encode_packet_def build_syn_def)

lemma syn_ack_accepted: "syn_acked cid (take MAX_PACKET (build_syn_ack cid))"
proof -
  have "length (build_syn_ack cid) \<le> MAX_PACKET"
    by (simp add: build_syn_ack_def length_encode header_ok_def MAX_PACKET_def HEADER_SIZE_def)
  then show ?thesis by (simp add: syn_acked_def parse_packet_def decode_build_syn_ack)
qed

text \<open>The daemon that accepts the SYN of a new connection.\<close>

lemma syn_accepted:
  assumes "snd (check_syn now (fst from) (rate_limiter st))" "length (connections st) < MAX_CONNECTIONS"
    and "hm_get (connections st) cid = None"
  shows "handle_packet_inner E now psk (build_syn cid) from st =
     (st\<lparr>rate_limiter := fst (check_syn now (fst from) (rate_limiter st)),
         connections := hm_insert cid ((connection_new now cid from)\<lparr>c_state := Established\<rparr>) (connections st)\<rparr>,
      [(from, build_syn_ack cid)])"
  using assms by (simp add: handle_packet_inner_def decode_build_syn case_prod_unfold Let_def)

text \<open>
  A network in which a daemon in state \<open>st\<close> listens at \<open>remote\<close>, for a client seen from \<open>cli\<close>: the SYN is
  answered by what the daemon sends for it, and the Hello by what it sends in the state reached then.
\<close>

definition daemon_answers :: "daemon_env \<Rightarrow> Psk \<Rightarrow> SocketAddr \<Rightarrow> instant \<Rightarrow> instant \<Rightarrow> DaemonState \<Rightarrow> SocketAddr
     \<Rightarrow> u64 \<Rightarrow> ctl_net \<Rightarrow> bool" where
  "daemon_answers E psk cli now later st remote cid N \<longleftrightarrow>
     (let (st1, out) = handle_packet_inner E now psk (ctl_syn cid) cli st
      in udp_probe N remote (ctl_syn cid) = (case out of [] \<Rightarrow> Silent | (_, d) # _ \<Rightarrow> Answers d)
         \<and> (\<forall>hello. udp_hello N remote hello =
              (case snd (handle_packet_inner E later psk hello cli st1) of [] \<Rightarrow> None | (_, d) # _ \<Rightarrow> Some d)))"

lemma check_syn_cmds: "check_cmd now ip (fst (check_syn t ip' rl)) = (let (r, ok) = check_cmd now ip rl in
    (r\<lparr>syn_counts := syn_counts (fst (check_syn t ip' rl))\<rparr>, ok))"
  by (simp add: check_syn_def check_cmd_def Let_def case_prod_unfold)

text \<open>
  C18. With a daemon of the same key at the fixed address that accepts the SYN and has quota left for the
  Hello, \<open>Ctx::new\<close> returns a session over UDP with that daemon, whose table then has the connection
  established for the client.\<close>

theorem client_connects:
  assumes aead: "aead_correct (env_aead E)"
    and hello: "env_deser E (env_ser E hello_msg) = Some hello_msg" "encode_control E cid psk 1 hello_msg = Some pkt"
    and ack: "env_deser E (env_ser E (HelloAck PROTOCOL_VERSION [''exec'', ''input'']))
          = Some (HelloAck PROTOCOL_VERSION [''exec'', ''input''])"
      "length (env_ser E (HelloAck PROTOCOL_VERSION [''exec'', ''input''])) \<le> MAX_PAYLOAD"
      "send_control E cid psk 0 (HelloAck PROTOCOL_VERSION [''exec'', ''input'']) = [ackpkt]"
    and key: "hex_decode H psk_hex = Inr psk" "length psk = 32"
    and addr: "target_of N addr = (host, Some port)" "parse_sa N (host_port host port) = Some remote"
    and accepts: "snd (check_syn now (fst cli) (rate_limiter st))" "length (connections st) < MAX_CONNECTIONS"
      "hm_get (connections st) cid = None" "snd (check_cmd later (fst cli) (rate_limiter st))"
    and net: "daemon_answers E psk cli now later st remote cid N"
  shows "ctx_new E H N cid addr psk_hex = Some ([remote], [],
      Inr \<lparr>ctx_remote = remote, ctx_psk = psk, ctx_conn_id = cid, ctx_seq = 1, ctx_tcp = False\<rparr>)
    \<and> map_option c_state (hm_get (connections (fst (handle_packet_inner E now psk (ctl_syn cid) cli st))) cid)
        = Some Established"
proof -
  let ?conn = "(connection_new now cid cli)\<lparr>c_state := Established\<rparr>"
  define st1 where "st1 = st\<lparr>rate_limiter := fst (check_syn now (fst cli) (rate_limiter st)),
         connections := hm_insert cid ?conn (connections st)\<rparr>"
  have syn: "handle_packet_inner E now psk (ctl_syn cid) cli st = (st1, [(cli, build_syn_ack cid)])"
    using syn_accepted [OF accepts(1-3)] by (simp add: ctl_syn_eq st1_def)
  then have probe: "udp_probe N remote (ctl_syn cid) = Answers (build_syn_ack cid)"
    and udp: "udp_hello N remote pkt =
      (case snd (handle_packet_inner E later psk pkt cli st1) of [] \<Rightarrow> None | (_, d) # _ \<Rightarrow> Some d)"
    using net by (simp_all add: daemon_answers_def)
  have conn: "hm_get (connections st1) cid = Some ?conn" by (simp add: st1_def)
  have cmd: "snd (check_cmd later (fst cli) (rate_limiter st1))"
    using accepts(4) by (simp add: st1_def check_syn_cmds case_prod_unfold)
  obtain st2 out where step: "handle_packet_inner E later psk pkt cli st1 = (st2, out)" by fastforce
  have "map snd out = [ackpkt]"
    using client_packet_handled [OF aead hello conn _ _ cmd step] ack(3)
    by (simp add: control_step_def hello_msg_def connection_new_def)
  then obtain f where "out = [(f, ackpkt)]" by (cases out) auto
  then have "udp_hello N remote pkt = Some ackpkt" using udp step by simp
  with probe syn_ack_accepted daemon_packet_received [OF aead ack] hello(2) key addr conn syn
  show ?thesis by (simp add: ctx_new_def)
qed

section \<open>Witnesses\<close>

definition session_env :: daemon_env where
  "session_env = demo_env\<lparr>env_ser := (\<lambda>m. case m of HelloAck _ _ \<Rightarrow> [2] | _ \<Rightarrow> [1]),
     env_deser := (\<lambda>b. if b = [2] then Some (HelloAck PROTOCOL_VERSION [''exec'', ''input'']) else Some hello_msg)\<rparr>"

definition session_net :: ctl_net where
  "session_net =
     (let psk = replicate 32 0; (st1, out) = handle_packet_inner session_env 0 psk (ctl_syn 7) (V4 1, 9) daemon_new
      in \<lparr>parse_sa = (\<lambda>_. Some (V4 5, 9876)), ip_text = (\<lambda>_. ''0.0.0.5''),
          udp_probe = (\<lambda>_ _. case out of [] \<Rightarrow> Silent | (_, d) # _ \<Rightarrow> Answers d),
          udp_hello = (\<lambda>_ hello. case snd (handle_packet_inner session_env 0 psk hello (V4 1, 9) st1) of
             [] \<Rightarrow> None | (_, d) # _ \<Rightarrow> Some d),
          tcp_stream = (\<lambda>_. None)\<rparr>)"

theorem client_connects_witness:
  "ctx_new session_env plain_hex session_net 7 ''0.0.0.5:9876'' (bytes_str (replicate 32 0)) = Some ([(V4 5, 9876)], [],
     Inr \<lparr>ctx_remote = (V4 5, 9876), ctx_psk = replicate 32 0, ctx_conn_id = 7, ctx_seq = 1, ctx_tcp = False\<rparr>)"
proof -
  have "daemon_answers session_env (replicate 32 0) (V4 1, 9) 0 0 daemon_new (V4 5, 9876) 7 session_net"
    by (simp add: daemon_answers_def session_net_def case_prod_unfold Let_def)
  moreover have "aead_correct (env_aead session_env)"
    using demo_aead_correct by (simp add: session_env_def demo_env_def)
  moreover have "target_of session_net ''0.0.0.5:9876'' = (''0.0.0.5'', Some 9876)"
    "parse_sa session_net (host_port ''0.0.0.5'' 9876) = Some (V4 5, 9876)"
    by (simp_all add: target_of_def session_net_def case_prod_unfold Let_def)
  moreover have "hex_decode plain_hex (bytes_str (replicate 32 0)) = Inr (replicate 32 0)"
    by (simp add: plain_hex_def)
  moreover have "env_deser session_env (env_ser session_env hello_msg) = Some hello_msg"
    "env_deser session_env (env_ser session_env (HelloAck PROTOCOL_VERSION [''exec'', ''input'']))
       = Some (HelloAck PROTOCOL_VERSION [''exec'', ''input''])"
    "length (env_ser session_env (HelloAck PROTOCOL_VERSION [''exec'', ''input''])) \<le> MAX_PAYLOAD"
    by (simp_all add: session_env_def hello_msg_def MAX_PAYLOAD_def)
  moreover have "encode_control session_env 7 (replicate 32 0) 1 hello_msg
      = Some (build_encrypted_data 7 0 1 FLAG_RELIABLE (1 # replicate 16 0) (make_nonce 7 1))"
    "send_control session_env 7 (replicate 32 0) 0 (HelloAck PROTOCOL_VERSION [''exec'', ''input''])
      = [build_encrypted_data 7 0 0 FLAG_RELIABLE (2 # replicate 16 0) (make_nonce 7 0)]"
    by (simp_all add: encode_control_eq send_control_def session_env_def demo_env_def demo_aead_def encrypt_def hello_msg_def)
  moreover have "snd (check_syn 0 (fst (V4 1, 9 :: u16)) (rate_limiter daemon_new))"
    "snd (check_cmd 0 (fst (V4 1, 9 :: u16)) (rate_limiter daemon_new))"
    "length (connections daemon_new) < MAX_CONNECTIONS" "hm_get (connections daemon_new) 7 = None"
    by (simp_all add: daemon_new_def check_syn_def check_cmd_def rate_limiter_new_def MAX_CONNECTIONS_def
        SYN_RATE_LIMIT_def CMD_RATE_LIMIT_def)
  ultimately show ?thesis
    by (intro conjunct1 [OF client_connects [where cli = "(V4 1, 9)" and st = daemon_new]]) simp_all
qed

end
