(* ===== verification/CtlCommands.thy ===== *)
theory CtlCommands
  imports CtlSession NativeCommands
begin

text \<open>
  The commands of the client, \<^verbatim>\<open>crates/ctl/src/main.rs\<close>: the command line as data, its translation into
  native commands of the daemon, and what each command sends, prints and writes, as a list of effects
  in order. What arrives during the exchange number \<open>k\<close> is an argument (\<open>inc k\<close>, up to the deadline of
  that exchange), as are the clock and the machine the client runs on; messages are sent without
  errors of the local network.
\<close>

section \<open>The command line\<close>

datatype ServiceAction =
    ActList bool bool | ActStatus string | ActStart string | ActStop string | ActRestart string
  | ActReload string | ActEnable string | ActDisable string

datatype PkgAction =
    ActPkgList bool | ActSearch string | ActInstall string | ActRemove string | ActUpdate | ActUpgrade

datatype DockerAction =
    ActPs bool bool | ActLogs string u32 bool | ActStats u64 | ActExec string bool "string list"
  | ActInfo | ActImages | ActRm string bool | ActControl string string

datatype CrontabAction = ActCronList | ActCronEdit | ActCronRemove

datatype (plugins only: ) Cmd =
    CmdExec "string list" u64
  | CmdIexec "string list" u64
  | CmdShell u64
  | CmdBatch string u64 bool u32
  | CmdWatch u64 "string list"
  | CmdPush string string
  | CmdPull string string u64
  | CmdLs string bool bool
  | CmdCat string
  | CmdTail string u32 bool u64
  | CmdHead string u32
  | CmdFind string "string option" "string option" u32
  | CmdGrep string string bool bool bool
  | CmdDu string bool u32
  | CmdDf bool bool
  | CmdTree string u32 bool
  | CmdStat string
  | CmdMkdir bool "string list"
  | CmdRm bool bool "string list"
  | CmdMv string string
  | CmdCp bool string string
  | CmdChmod string "string list"
  | CmdChown string "string list"
  | CmdLsblk
  | CmdMount
  | CmdDiff string string
  | CmdWc bool bool "string list"
  | CmdPs bool "string option" bool
  | CmdKill u32 u32
  | CmdPgrep string bool bool
  | CmdPkill string u32
  | CmdTop u64 u32
  | CmdPing u32
  | CmdNetstat bool bool bool bool
  | CmdIp bool bool bool
  | CmdPortScan string u16 u16 u64
  | CmdArp
  | CmdDns string "string option"
  | CmdInfo
  | CmdUname bool bool bool
  | CmdUptime
  | CmdHostname
  | CmdWhoami
  | CmdWho
  | CmdLast u32
  | CmdFree bool
  | CmdCpu
  | CmdDmesg u32 "string option"
  | CmdService ServiceAction
  | CmdJournal "string option" bool u32 "string option" "string option"
  | CmdPkg PkgAction
  | CmdDocker DockerAction
  | CmdCrontab CrontabAction
  | CmdFirewall string
  | CmdSsh
  | CmdChecksum string string
  | CmdSignal u32 u32
  | CmdStatus
  | CmdVersion
  | CmdWriteFile string string bool
  | CmdSed string string string bool bool
  | CmdTouch string
  | CmdTui u64

record Cli =
  cli_verbose :: bool
  cli_addr :: string
  cli_psk :: "string option"
  cli_vpn :: bool
  cli_command :: Cmd

section \<open>Translation into native commands\<close>

fun service_action :: "ServiceAction \<Rightarrow> ServiceActionType" where
  "service_action (ActList active failed) = ServiceList active failed"
| "service_action (ActStatus name) = ServiceStatus name"
| "service_action (ActStart name) = ServiceStart name"
| "service_action (ActStop name) = ServiceStop name"
| "service_action (ActRestart name) = ServiceRestart name"
| "service_action (ActReload name) = ServiceReload name"
| "service_action (ActEnable name) = ServiceEnable name"
| "service_action (ActDisable name) = ServiceDisable name"

fun pkg_action :: "PkgAction \<Rightarrow> PkgActionType" where
  "pkg_action (ActPkgList installed) = PkgList installed"
| "pkg_action (ActSearch query) = PkgSearch query"
| "pkg_action (ActInstall name) = PkgInstall name"
| "pkg_action (ActRemove name) = PkgRemove name"
| "pkg_action ActUpdate = PkgUpdate"
| "pkg_action ActUpgrade = PkgUpgrade"

fun docker_action :: "DockerAction \<Rightarrow> DockerActionType" where
  "docker_action (ActPs a _) = DockerPs a False"
| "docker_action (ActLogs name n follow) = DockerLogs name n follow"
| "docker_action (ActStats _) = DockerStats 0"
| "docker_action (ActExec container interactive cmd) = DockerExec container cmd interactive"
| "docker_action ActInfo = DockerInfo"
| "docker_action ActImages = DockerImages"
| "docker_action (ActRm container force) = DockerRm container force"
| "docker_action (ActControl container action) = DockerControl container action"

fun crontab_action :: "CrontabAction \<Rightarrow> CrontabActionType" where
  "crontab_action ActCronList = CrontabList"
| "crontab_action ActCronEdit = CrontabEdit"
| "crontab_action ActCronRemove = CrontabRemove"

text \<open>The commands that are one native command each.\<close>

definition native_of :: "Cmd \<Rightarrow> NativeCmdType option" where
  "native_of c =
     (case c of
        CmdExec cmd timeout \<Rightarrow> Some (ShellExec (join_with '' '' cmd) (ucast timeout))
      | CmdLs path l a \<Rightarrow> Some (Ls path l a)
      | CmdCat path \<Rightarrow> Some (Cat path)
      | CmdTail path n follow _ \<Rightarrow> if follow then None else Some (Tail path n False 0)
      | CmdHead path n \<Rightarrow> Some (Head path n)
      | CmdFind path name ty d \<Rightarrow> Some (Find path name ty d)
      | CmdGrep pat path r l n \<Rightarrow> Some (Grep pat path r l n)
      | CmdDu path s d \<Rightarrow> Some (Du path s d)
      | CmdDf h a \<Rightarrow> Some (Df h a)
      | CmdTree path d dirs \<Rightarrow> Some (Tree path d dirs)
      | CmdStat path \<Rightarrow> Some (Stat path)
      | CmdMkdir r paths \<Rightarrow> Some (Mkdir r paths)
      | CmdRm r f paths \<Rightarrow> Some (Rm r f paths)
      | CmdMv src dest \<Rightarrow> Some (Mv src dest)
      | CmdCp r src dest \<Rightarrow> Some (Cp r src dest)
      | CmdChmod mode paths \<Rightarrow> Some (Chmod mode paths)
      | CmdChown owner paths \<Rightarrow> Some (Chown owner paths)
      | CmdLsblk \<Rightarrow> Some Lsblk
      | CmdMount \<Rightarrow> Some Mount
      | CmdDiff f g \<Rightarrow> Some (Diff f g)
      | CmdWc l w paths \<Rightarrow> Some (Wc l w paths)
      | CmdPs f u t \<Rightarrow> Some (Ps f u t)
      | CmdKill pid sig \<Rightarrow> Some (Kill pid sig)
      | CmdPgrep name f n \<Rightarrow> Some (Pgrep name f n)
      | CmdPkill name sig \<Rightarrow> Some (Pkill name sig)
      | CmdNetstat t u n l \<Rightarrow> Some (Netstat t u n l)
      | CmdIp a r l \<Rightarrow> Some (Ip a r l)
      | CmdPortScan host s e t \<Rightarrow> Some (PortScan host s e t)
      | CmdArp \<Rightarrow> Some Arp
      | CmdDns host ty \<Rightarrow> Some (Dns host ty)
      | CmdInfo \<Rightarrow> Some Info
      | CmdUname a r m \<Rightarrow> Some (Uname a r m)
      | CmdUptime \<Rightarrow> Some Uptime
      | CmdHostname \<Rightarrow> Some Hostname
      | CmdWhoami \<Rightarrow> Some Whoami
      | CmdWho \<Rightarrow> Some Who
      | CmdLast n \<Rightarrow> Some (Last n)
      | CmdFree h \<Rightarrow> Some (Free h)
      | CmdCpu \<Rightarrow> Some Cpu
      | CmdDmesg n lev \<Rightarrow> Some (Dmesg n lev)
      | CmdService a \<Rightarrow> Some (Service (service_action a))
      | CmdJournal u f n p s \<Rightarrow> Some (Journal u f n p s)
      | CmdPkg a \<Rightarrow> Some (Pkg (pkg_action a))
      | CmdDocker a \<Rightarrow> Some (Docker (docker_action a))
      | CmdCrontab a \<Rightarrow> Some (Crontab (crontab_action a))
      | CmdFirewall b \<Rightarrow> Some (Firewall b)
      | CmdSsh \<Rightarrow> Some Ssh
      | CmdChecksum path alg \<Rightarrow> Some (Checksum path alg)
      | CmdWriteFile path dat app \<Rightarrow> Some (WriteFile path (str_bytes dat) app)
      | CmdSed path pat rep g r \<Rightarrow> Some (Sed path pat rep g r)
      | CmdTouch path \<Rightarrow> Some (Touch path)
      | _ \<Rightarrow> None)"

section \<open>Effects\<close>

datatype effect = Sends ControlMsg | Prints bytes | EPrints bytes | Sleeps nat

definition println :: "string \<Rightarrow> effect" where
  "println s = Prints (str_bytes (s @ newline))"

definition eprintln :: "string \<Rightarrow> effect" where
  "eprintln s = EPrints (str_bytes (s @ newline))"

text \<open>A signed number.\<close>

definition show_i32 :: "u32 \<Rightarrow> string" where
  "show_i32 c = (if sint c < 0 then ''-'' @ show_nat (nat (- sint c)) else show_nat (nat (sint c)))"

definition written :: "bool \<times> bytes \<Rightarrow> effect" where
  "written w = (if fst w then EPrints (snd w) else Prints (snd w))"

text \<open>What \<open>drain_exec\<close> prints and sends; between the two signals it sleeps half a second.\<close>

definition drain_effects :: "u32 \<Rightarrow> ControlMsg option list \<Rightarrow> effect list" where
  "drain_effects i msgs =
     (case drain_exec i msgs of
        (out, _, []) \<Rightarrow> map written out
      | (out, _, s # ss) \<Rightarrow> map written out @ Sends s # Sleeps 500 # map Sends ss)"

definition native_run :: "u32 \<Rightarrow> NativeCmdType \<Rightarrow> ControlMsg option list \<Rightarrow> effect list" where
  "native_run i cmd msgs =
     Sends (NativeCmd i cmd) # drain_effects i msgs
       @ (case fst (snd (drain_exec i msgs)) of Some c \<Rightarrow> [eprintln (''[exit '' @ show_i32 c @ '']'')] | None \<Rightarrow> [])"

section \<open>Interactive commands\<close>

text \<open>
  \<open>read_stdin_line\<close> makes a new buffered reader for every line: the parts are what single reads of the
  standard input give, and what a part has after the line goes away with the reader. No line is the end
  of the input, or text that is not UTF-8.
\<close>

fun read_line :: "bytes \<Rightarrow> bytes list \<Rightarrow> bytes \<times> bytes list" where
  "read_line acc [] = (acc, [])"
| "read_line acc (part # parts) =
     (if 10 \<in> set part then (acc @ takeWhile (\<lambda>b. b \<noteq> 10) part @ [10], parts) else read_line (acc @ part) parts)"

definition read_stdin_line :: "bytes list \<Rightarrow> bytes option \<times> bytes list" where
  "read_stdin_line parts =
     (let (line, rest) = read_line [] parts
      in (if \<not> utf8_valid line \<or> line = [] then None
          else Some (if last line = 13 then butlast line else line), rest))"

text \<open>The branch of \<^verbatim>\<open>select!\<close> that is taken in a turn, or the deadline found at its start.\<close>

datatype turn_event = Received "ControlMsg option" | StdinReady | RemainingSlept | DeadlinePassed

text \<open>The effects, whether the loop has ended, and the input left.\<close>

fun drain_exec_interactive :: "u32 \<Rightarrow> turn_event list \<Rightarrow> bytes list \<Rightarrow> effect list \<times> bool \<times> bytes list" where
  "drain_exec_interactive i [] parts = ([], False, parts)"
| "drain_exec_interactive i (e # es) parts =
     (case e of
        DeadlinePassed \<Rightarrow> ([Sends (ExecSignal i 15)], True, parts)
      | RemainingSlept \<Rightarrow> ([], True, parts)
      | Received (Some (ExecChunk j st chunk)) \<Rightarrow>
          (let (out, r) = drain_exec_interactive i es parts
           in if j = i then (written (st = 1, chunk) # out, r) else (out, r))
      | Received (Some (ExecDone j code)) \<Rightarrow>
          if j = i
          then ((case code of Some c \<Rightarrow> [eprintln ('' [exit '' @ show_i32 c @ '']'')] | None \<Rightarrow> []), True, parts)
          else drain_exec_interactive i es parts
      | Received _ \<Rightarrow> drain_exec_interactive i es parts
      | StdinReady \<Rightarrow>
          (let (line, rest) = read_stdin_line parts; (out, r) = drain_exec_interactive i es rest
           in (Sends (case line of Some l \<Rightarrow> ExecStdin i l False | None \<Rightarrow> ExecStdin i [] True) # out, r)))"

definition interactive_run :: "string \<Rightarrow> u64 \<Rightarrow> turn_event list \<Rightarrow> bytes list \<Rightarrow> effect list" where
  "interactive_run line timeout es parts =
     Sends (NativeSpawn 1 (ShellExec line (ucast timeout))) # fst (drain_exec_interactive 1 es parts)"

section \<open>Batches and repeated commands\<close>

definition batch_lines :: "string \<Rightarrow> string list" where
  "batch_lines content = filter (\<lambda>l. trim l \<noteq> [] \<and> \<not> starts_with ''#'' (trim l)) (str_lines content)"

definition batch_header :: "nat \<Rightarrow> nat \<Rightarrow> string \<Rightarrow> effect" where
  "batch_header i n line = println (''--- ['' @ show_nat (i + 1) @ ''/'' @ show_nat n @ ''] '' @ line @ '' ---'')"

definition batch_command :: "u64 \<Rightarrow> nat \<Rightarrow> string \<Rightarrow> ControlMsg option list \<Rightarrow> effect list" where
  "batch_command timeout i line msgs = native_run (of_nat (i + 1)) (ShellExec line (ucast timeout)) msgs"

definition batch_run :: "(nat \<Rightarrow> ControlMsg option list) \<Rightarrow> u64 \<Rightarrow> string list \<Rightarrow> effect list" where
  "batch_run inc timeout ls =
     concat (map (\<lambda>i. batch_header i (length ls) (ls ! i) # batch_command timeout i (ls ! i) (inc i)) [0..<length ls])
     @ [println (''Batch complete: '' @ show_nat (length ls) @ '' ok'')]"

text \<open>A parallel batch: the effects of each command, on a session of its own.\<close>

definition batch_job :: "(nat \<Rightarrow> (string, Ctx) result) \<Rightarrow> (nat \<Rightarrow> ControlMsg option list) \<Rightarrow> u64 \<Rightarrow> string list
     \<Rightarrow> nat \<Rightarrow> effect list" where
  "batch_job sess inc timeout ls i =
     (case sess i of
        Inr _ \<Rightarrow> batch_header i (length ls) (ls ! i) # batch_command timeout i (ls ! i) (inc i)
      | Inl e \<Rightarrow> [eprintln (''Parallel batch #'' @ show_nat (i + 1) @ '' error: '' @ e)])"

definition parallel_batch :: "(nat \<Rightarrow> (string, Ctx) result) \<Rightarrow> (nat \<Rightarrow> ControlMsg option list) \<Rightarrow> u64 \<Rightarrow> string list
     \<Rightarrow> effect list list" where
  "parallel_batch sess inc timeout ls = map (batch_job sess inc timeout ls) [0..<length ls]"

definition now_str :: "nat \<Rightarrow> string" where
  "now_str secs =
     (let h = (secs div 3600) mod 24; m = (secs div 60) mod 60; s = secs mod 60
      in zero_pad 2 (show_nat h) @ '':'' @ zero_pad 2 (show_nat m) @ '':'' @ zero_pad 2 (show_nat s))"

definition turn_header :: "nat \<Rightarrow> nat \<Rightarrow> effect" where
  "turn_header n secs = println (''=== ['' @ show_nat n @ ''] '' @ now_str secs @ '' ==='')"

text \<open>The first turns of the endless loop of \<^verbatim>\<open>watch\<close>; \<open>clock k\<close> is the time of turn \<open>k\<close>.\<close>

definition watch_turn :: "(nat \<Rightarrow> nat) \<Rightarrow> (nat \<Rightarrow> ControlMsg option list) \<Rightarrow> u64 \<Rightarrow> string list \<Rightarrow> nat \<Rightarrow> effect list" where
  "watch_turn clock inc interval_secs cmd k =
     turn_header (k + 1) (clock k) # native_run 1 (ShellExec (join_with '' '' cmd) 30) (inc k)
       @ [Sleeps (1000 * unat interval_secs)]"

definition watch_turns :: "(nat \<Rightarrow> nat) \<Rightarrow> (nat \<Rightarrow> ControlMsg option list) \<Rightarrow> u64 \<Rightarrow> string list \<Rightarrow> nat \<Rightarrow> effect list" where
  "watch_turns clock inc interval_secs cmd n = concat (map (watch_turn clock inc interval_secs cmd) [0..<n])"

definition top_run :: "(nat \<Rightarrow> nat) \<Rightarrow> (nat \<Rightarrow> ControlMsg option list) \<Rightarrow> u64 \<Rightarrow> u32 \<Rightarrow> effect list" where
  "top_run clock inc interval_secs iterations =
     concat (map (\<lambda>i. turn_header (i + 1) (clock i) # native_run 1 (Top interval_secs 1) (inc i)
       @ (if i < unat iterations - 1 then [Sleeps (1000 * unat interval_secs)] else [])) [0..<unat iterations])"

definition tail_follow :: "string \<Rightarrow> u32 \<Rightarrow> u64 \<Rightarrow> ControlMsg option list \<Rightarrow> effect list" where
  "tail_follow path n follow_secs msgs =
     (let fsecs = (if follow_secs > 0 then follow_secs else 2)
      in Sends (NativeSpawn 1 (Tail path n True fsecs)) # drain_effects 1 msgs)"

section \<open>Files\<close>

definition human_speed :: "'f float_text \<Rightarrow> nat \<Rightarrow> string" where
  "human_speed F bytes_per_sec =
     (if bytes_per_sec < 1024 then show_nat bytes_per_sec @ ''B''
      else let kb = bytes_per_sec div 1024
           in if kb < 1024 then show_nat kb @ ''KB''
              else f_show1 F (f_div F (f_of_nat F kb) (f_lit F 1024 1)) @ ''MB'')"

text \<open>The progress line of a push after \<open>offset\<close> of \<open>n\<close> bytes, if one is due, and the percentage shown last.\<close>

definition push_progress :: "'f float_text \<Rightarrow> nat \<Rightarrow> nat \<Rightarrow> nat \<Rightarrow> nat \<Rightarrow> nat \<times> bytes option" where
  "push_progress F n elapsed last_pct offset =
     (let pct = (offset * 100) div n
      in if pct > last_pct + 5 \<or> offset = n then
           let filled = (pct * 40) div 100;
               bar = replicate filled (CHR ''='') @ replicate (40 - filled) (CHR '' '');
               speed = (if elapsed > 0 then offset div elapsed else 0)
           in (pct, Some (str_bytes (CHR 0x0D # ''['' @ bar @ ''] '' @ show_nat pct @ ''%  '' @ human_speed F speed @ ''/s   '')))
         else (last_pct, None))"

text \<open>The receiving loop of \<^verbatim>\<open>pull\<close>: the data once the command is done, or nothing when the time is over.\<close>

fun pull_loop :: "u32 \<Rightarrow> bytes \<Rightarrow> ControlMsg option list \<Rightarrow> bytes option" where
  "pull_loop i buf [] = None"
| "pull_loop i buf (m # ms) =
     (case m of
        Some (ExecChunk j st dat) \<Rightarrow> if j = i \<and> st = 0 then pull_loop i (buf @ dat) ms else pull_loop i buf ms
      | Some (ExecDone j _) \<Rightarrow> if j = i then Some buf else pull_loop i buf ms
      | _ \<Rightarrow> pull_loop i buf ms)"

text \<open>\<open>parent\<close> is \<^verbatim>\<open>Path::parent\<close>; the local machine afterwards, and whether writing failed.\<close>

definition cmd_pull :: "'f float_text \<Rightarrow> 'h os \<Rightarrow> (string \<Rightarrow> string option) \<Rightarrow> nat \<Rightarrow> u32 \<Rightarrow> string \<Rightarrow> string
     \<Rightarrow> ControlMsg option list \<Rightarrow> 'h \<Rightarrow> 'h \<times> effect list \<times> (ctl_error, unit) result" where
  "cmd_pull F sys parent elapsed i remote local msgs h =
     (case pull_loop i [] msgs of
        None \<Rightarrow> (h, [Sends (NativeCmd i (ReadFile remote))], Inr ())
      | Some buf \<Rightarrow>
          (let h1 = (case parent local of Some p \<Rightarrow> os_create_dir_all sys h p | None \<Rightarrow> h);
               (h2, r) = os_write sys h1 local buf;
               speed = (if elapsed > 0 then length buf div elapsed else 0)
           in case r of
                FileWritten \<Rightarrow>
                  (h2, [Sends (NativeCmd i (ReadFile remote)),
                        eprintln (''Pulled '' @ show_nat (length buf) @ '' bytes -> '' @ local @ '' ('' @ human_speed F speed @ ''/s)'')],
                   Inr ())
              | _ \<Rightarrow> (h2, [Sends (NativeCmd i (ReadFile remote))], Inl IoError)))"

section \<open>Ping\<close>

text \<open>
  \<open>pong k\<close>: what came for the Hello number \<open>k\<close> and after how many microseconds; an error (nothing came
  over UDP) ends the command.
\<close>

fun ping_loop :: "(nat \<Rightarrow> string) \<Rightarrow> string \<Rightarrow> (nat \<Rightarrow> (ctl_error, nat) result) \<Rightarrow> nat \<Rightarrow> nat list \<Rightarrow> nat
     \<Rightarrow> effect list \<times> (ctl_error, nat list) result" where
  "ping_loop ms remote pong i lat 0 = ([], Inr lat)"
| "ping_loop ms remote pong i lat (Suc n) =
     (case pong i of
        Inl e \<Rightarrow> ([Sends (Hello PROTOCOL_VERSION [''ping''])], Inl e)
      | Inr us \<Rightarrow>
          (let (out, r) = ping_loop ms remote pong (i + 1) (lat @ [us]) n
           in (Sends (Hello PROTOCOL_VERSION [''ping'']) # println (''Reply from '' @ remote @ '': time='' @ ms us @ ''ms'')
                 # (if n > 0 then [Sleeps 500] else []) @ out, r)))"

text \<open>\<open>ms\<close> prints microseconds as milliseconds with two digits, \<open>avg\<close> the mean of a sum over a count.\<close>

definition cmd_ping :: "(nat \<Rightarrow> string) \<Rightarrow> (nat \<Rightarrow> nat \<Rightarrow> string) \<Rightarrow> string \<Rightarrow> (nat \<Rightarrow> (ctl_error, nat) result) \<Rightarrow> u32
     \<Rightarrow> effect list \<times> (ctl_error, unit) result" where
  "cmd_ping ms avg remote pong n =
     (case ping_loop ms remote pong 0 [] (unat n) of
        (out, Inl e) \<Rightarrow> (out, Inl e)
      | (out, Inr lat) \<Rightarrow>
          (let least = (if lat = [] then 0 else Min (set lat)); most = (if lat = [] then 0 else Max (set lat))
           in (out @ [println (''--- '' @ show_nat (unat n) @ '' ping statistics ---''),
                      println (show_nat (unat n) @ '' packets transmitted, '' @ show_nat (length lat) @ '' received''),
                      println (''min/avg/max = '' @ ms least @ ''/'' @ avg (sum_list lat) (length lat) @ ''/'' @ ms most @ '' ms'')],
               Inr ())))"

section \<open>The program\<close>

text \<open>
  What the program is run with: the machine and the session, the messages of each exchange, the turns of
  an interactive command with its input, the data of the random numbers, clocks and texts used above.
\<close>

record ('h, 'f) ctl_env =
  ce_float :: "'f float_text"
  ce_sys :: "'h os"
  ce_parent :: "string \<Rightarrow> string option"
  ce_inc :: "nat \<Rightarrow> ControlMsg option list"
  ce_turns :: "turn_event list"
  ce_stdin :: "bytes list"
  ce_acks :: "nat \<Rightarrow> nat \<Rightarrow> ControlMsg list"
  ce_id :: u32
  ce_elapsed :: nat
  ce_clock :: "nat \<Rightarrow> nat"
  ce_pong :: "nat \<Rightarrow> (ctl_error, nat) result"
  ce_ms :: "nat \<Rightarrow> string"
  ce_avg :: "nat \<Rightarrow> nat \<Rightarrow> string"
  ce_remote :: "SocketAddr \<Rightarrow> string"
  ce_version :: string
  ce_error :: "ctl_error \<Rightarrow> string"

text \<open>
  A command on a session. Output of \<^verbatim>\<open>push\<close> other than its messages is left out; of \<^verbatim>\<open>watch\<close>, which never
  ends, the first \<open>fuel\<close> turns are shown. \<^verbatim>\<open>batch\<close> in parallel and \<^verbatim>\<open>tui\<close> open sessions of their own.
\<close>

definition run_session :: "('h, 'f) ctl_env \<Rightarrow> nat \<Rightarrow> Ctx \<Rightarrow> Cmd \<Rightarrow> 'h \<Rightarrow> 'h \<times> effect list \<times> (ctl_error, unit) result" where
  "run_session C fuel ctx c h =
     (case native_of c of
        Some n \<Rightarrow> (h, native_run 1 n (ce_inc C 0), Inr ())
      | None \<Rightarrow>
          (case c of
             CmdIexec cmd timeout \<Rightarrow> (h, interactive_run (join_with '' '' cmd) timeout (ce_turns C) (ce_stdin C), Inr ())
           | CmdShell timeout \<Rightarrow> (h, interactive_run ''bash'' timeout (ce_turns C) (ce_stdin C), Inr ())
           | CmdBatch file timeout _ _ \<Rightarrow>
               (case read_to_string (ce_sys C) h file of
                  Inl _ \<Rightarrow> (h, [], Inl IoError)
                | Inr content \<Rightarrow> (h, batch_run (ce_inc C) timeout (batch_lines content), Inr ()))
           | CmdWatch interval_secs cmd \<Rightarrow> (h, watch_turns (ce_clock C) (ce_inc C) interval_secs cmd fuel, Inr ())
           | CmdPush local remote \<Rightarrow>
               (case os_read (ce_sys C) h local of
                  Inl _ \<Rightarrow> (h, [], Inl IoError)
                | Inr dat \<Rightarrow> (let (sent, r) = cmd_push (ce_acks C) (ce_id C) remote dat in (h, map Sends sent, r)))
           | CmdPull remote local _ \<Rightarrow>
               cmd_pull (ce_float C) (ce_sys C) (ce_parent C) (ce_elapsed C) (ce_id C) remote local (ce_inc C 0) h
           | CmdTail path n _ follow_secs \<Rightarrow> (h, tail_follow path n follow_secs (ce_inc C 0), Inr ())
           | CmdTop interval_secs iterations \<Rightarrow> (h, top_run (ce_clock C) (ce_inc C) interval_secs iterations, Inr ())
           | CmdPing n \<Rightarrow> (h, cmd_ping (ce_ms C) (ce_avg C) (ce_remote C (ctx_remote ctx)) (ce_pong C) n)
           | CmdSignal i sig \<Rightarrow> (h, [Sends (ExecSignal i sig)], Inr ())
           | CmdStatus \<Rightarrow> (h, [println (''Connected to '' @ ce_remote C (ctx_remote ctx) @ '' (conn_id=''
                            @ show_nat (unat (ctx_conn_id ctx)) @ '')'')], Inr ())
           | _ \<Rightarrow> (h, [], Inr ())))"

text \<open>
  \<open>main\<close> after the logger is set up; \<open>sess k\<close> is the result of the \<open>k\<close>-th call of \<open>Ctx::new\<close>. It ends at once
  without a key, runs a command on one session, the commands of a parallel batch interleaved in any
  way, or the terminal interface.
\<close>

datatype 'h main_result =
    ExitsAtOnce | Finished 'h "effect list" "(ctl_error, unit) result" | Jobs "effect list" "effect list list"
  | RunsTui string string

definition ctl_main :: "('h, 'f) ctl_env \<Rightarrow> nat \<Rightarrow> (nat \<Rightarrow> string \<Rightarrow> string \<Rightarrow> (ctl_error, Ctx) result) \<Rightarrow> Cli \<Rightarrow> 'h
     \<Rightarrow> 'h main_result" where
  "ctl_main C fuel sess cli h =
     (case resolve_psk (ce_sys C) h (cli_psk cli) of
        None \<Rightarrow> ExitsAtOnce
      | Some psk_hex \<Rightarrow>
          (let vpn = (if cli_vpn cli then [println ''VPN mode: routing through VPN mesh (TODO)''] else []);
               in_session = (case sess 0 (cli_addr cli) psk_hex of
                     Inl e \<Rightarrow> Finished h vpn (Inl e)
                   | Inr ctx \<Rightarrow> (let (h', out, r) = run_session C fuel ctx (cli_command cli) h in Finished h' (vpn @ out) r))
           in case cli_command cli of
                CmdVersion \<Rightarrow> Finished h (vpn @ [println (''lan-linkctl '' @ ce_version C)]) (Inr ())
              | CmdTui _ \<Rightarrow> RunsTui psk_hex (cli_addr cli)
              | CmdBatch file timeout par jobs \<Rightarrow>
                  if par \<and> jobs > 1 then
                    (case read_to_string (ce_sys C) h file of
                       Inl _ \<Rightarrow> Finished h vpn (Inl IoError)
                     | Inr content \<Rightarrow>
                         Jobs vpn (parallel_batch (\<lambda>k. map_sum (ce_error C) id (sess k (cli_addr cli) psk_hex)) (ce_inc C)
                           timeout (batch_lines content)))
                  else in_session
              | _ \<Rightarrow> in_session))"

section \<open>The output of a remote command\<close>

definition concerns :: "u32 \<Rightarrow> ControlMsg option \<Rightarrow> bool" where
  "concerns i m = (case m of Some (ExecChunk j _ _) \<Rightarrow> j = i | Some (ExecDone j _) \<Rightarrow> j = i | _ \<Rightarrow> False)"

lemma drain_exec_concerns: "drain_exec i msgs = drain_exec i (filter (concerns i) msgs)"
proof (induction msgs)
  case (Cons m ms)
  then show ?case
  proof (cases m)
    case (Some c)
    then show ?thesis using Cons by (cases c) (simp_all add: concerns_def)
  qed (simp add: concerns_def)
qed simp

lemma pull_loop_concerns: "pull_loop i buf msgs = pull_loop i buf (filter (concerns i) msgs)"
proof (induction msgs arbitrary: buf)
  case (Cons m ms)
  then show ?case
  proof (cases m)
    case (Some c)
    then show ?thesis using Cons by (cases c) (simp_all add: concerns_def)
  qed (simp add: concerns_def)
qed simp


section \<open>Pulling a file\<close>

lemma pull_answer:
  assumes "env_native E (ReadFile remote) = (b, code)"
    and "control_step E (NativeCmd i (ReadFile remote)) st = (st', replies)"
    and "filter (concerns i) msgs = map Some replies"
  shows "pull_loop i [] msgs = Some b"
  using assms by (subst pull_loop_concerns) (auto simp: control_step_def)

definition mkdir_parent :: "'h os \<Rightarrow> (string \<Rightarrow> string option) \<Rightarrow> string \<Rightarrow> 'h \<Rightarrow> 'h" where
  "mkdir_parent sys parent local h = (case parent local of Some p \<Rightarrow> os_create_dir_all sys h p | None \<Rightarrow> h)"

lemma cmd_pull_writes:
  assumes "pull_loop i [] msgs = Some b" "os_write sys (mkdir_parent sys parent local h) local b = (h2, FileWritten)"
  shows "\<exists>out. cmd_pull F sys parent elapsed i remote local msgs h = (h2, out, Inr ())"
  using assms by (simp add: cmd_pull_def mkdir_parent_def Let_def)


text \<open>
  The exit code of the daemon's answer is ignored: when the remote file cannot be read, the local file is
  overwritten with the text of the error, and the command succeeds.\<close>

theorem pull_stores_error_text:
  assumes "read_to_string (ne_sys N) h0 remote = Inl e" "native_at N h0 E"
    and "control_step E (NativeCmd i (ReadFile remote)) st = (st', replies)"
    and "filter (concerns i) msgs = map Some replies" "write_law sys"
    and "os_write sys (mkdir_parent sys parent local h) local (str_bytes (''read error: '' @ e @ newline)) = (h2, FileWritten)"
  shows "\<exists>out. cmd_pull F sys parent elapsed i remote local msgs h = (h2, out, Inr ())
     \<and> os_read sys h2 local = Inr (str_bytes (''read error: '' @ e @ newline))"
proof -
  have "snd (run_native_cmd N (ReadFile remote) h0) = Returns (str_bytes (''read error: '' @ e @ newline)) (Some 1)"
    using assms(1) by (simp add: run_native_cmd_def native_read_file_def reply_def)
  from pull_answer [OF native_at_returns [OF assms(2) this] assms(3,4)] cmd_pull_writes [OF _ assms(6)]
  obtain out where "cmd_pull F sys parent elapsed i remote local msgs h = (h2, out, Inr ())" by blast
  moreover have "os_read sys h2 local = Inr (str_bytes (''read error: '' @ e @ newline))"
    using assms(5,6) unfolding write_law_def by blast
  ultimately show ?thesis by blast
qed

section \<open>Input of interactive commands\<close>

lemma read_line_one: "10 \<notin> set l \<Longrightarrow> read_line acc ((l @ 10 # r) # parts) = (acc @ l @ [10], parts)"
  by (induction l) (auto simp: takeWhile_append2)

lemma read_stdin_first:
  assumes "10 \<notin> set l" "utf8_valid (l @ [10])"
  shows "read_stdin_line ((l @ 10 # r) # parts) = (Some (l @ [10]), parts)"
  using assms by (simp add: read_stdin_line_def read_line_one del: read_line.simps)

text \<open>
  Of an input whose reads each bring at least one line, exactly the first line of each read is sent to
  the remote command, in order. So lines typed one at a time all arrive.\<close>

theorem first_lines_sent:
  assumes "list_all (\<lambda>(l, r). 10 \<notin> set l \<and> utf8_valid (l @ [10])) lines"
  shows "drain_exec_interactive i (replicate (length lines) StdinReady) (map (\<lambda>(l, r). l @ 10 # r) lines) =
     (map (\<lambda>(l, r). Sends (ExecStdin i (l @ [10]) False)) lines, False, [])"
  using assms
proof (induction lines)
  case (Cons x lines)
  obtain l r where "x = (l, r)" by fastforce
  then show ?case using Cons read_stdin_first [of l r] by simp
qed simp

text \<open>
  Lines that come with one read, as from a file or a paste, are lost after the first: the next turn already
  tells the remote command that its input has ended.\<close>

theorem further_lines_lost:
  assumes "10 \<notin> set l" "utf8_valid (l @ [10])"
  shows "drain_exec_interactive i [StdinReady, StdinReady] [l @ 10 # r] =
     ([Sends (ExecStdin i (l @ [10]) False), Sends (ExecStdin i [] True)], False, [])"
  using read_stdin_first [OF assms, of r "[]"] by (simp add: read_stdin_line_def)

text \<open>After the end of the input every turn sends the end again, as fast as the loop runs.\<close>

theorem end_of_input_repeats:
  "drain_exec_interactive i (replicate n StdinReady) [] = (replicate n (Sends (ExecStdin i [] True)), False, [])"
  by (induction n) (simp_all add: read_stdin_line_def)

section \<open>Batches\<close>

definition commands_sent :: "effect list \<Rightarrow> ControlMsg list" where
  "commands_sent es = List.map_filter (\<lambda>e. case e of Sends (NativeCmd i n) \<Rightarrow> Some (NativeCmd i n) | _ \<Rightarrow> None) es"

lemma commands_sent_simps [simp]:
  "commands_sent [] = []" "commands_sent (es @ fs) = commands_sent es @ commands_sent fs"
  "commands_sent (Sends (NativeCmd i n) # es) = NativeCmd i n # commands_sent es"
  "commands_sent (Prints b # es) = commands_sent es" "commands_sent (EPrints b # es) = commands_sent es"
  "commands_sent (Sleeps k # es) = commands_sent es" "commands_sent (Sends (ExecSignal i s) # es) = commands_sent es"
  by (simp_all add: commands_sent_def map_filter_simps List.map_filter_def)

lemma commands_sent_written [simp]: "commands_sent (map written ws) = []"
  by (induction ws) (simp_all add: written_def)

lemma drain_exec_signals: "snd (snd (drain_exec i msgs)) \<in> {[], [ExecSignal i 15, ExecSignal i 9]}"
proof (induction msgs)
  case (Cons m ms)
  then show ?case
  proof (cases m)
    case (Some c)
    then show ?thesis using Cons by (cases c) (simp_all add: case_prod_unfold Let_def)
  qed simp
qed simp

lemma commands_sent_drain [simp]: "commands_sent (drain_effects i msgs) = []"
  using drain_exec_signals [of i msgs] by (auto simp: drain_effects_def split: prod.split list.split)

lemma commands_sent_native_run [simp]: "commands_sent (native_run i n msgs) = [NativeCmd i n]"
  by (simp add: native_run_def eprintln_def split: option.split)

text \<open>
  A batch runs the lines of the file that are neither blank nor comments, once each and in order, whatever
  the daemon answers; and it reports all of them as ok even if every one failed or timed out.\<close>

theorem batch_runs_all_lines:
  "commands_sent (batch_run inc timeout (batch_lines content)) =
     map (\<lambda>i. NativeCmd (of_nat (i + 1)) (ShellExec (batch_lines content ! i) (ucast timeout))) [0..<length (batch_lines content)]
   \<and> last (batch_run inc timeout (batch_lines content))
      = println (''Batch complete: '' @ show_nat (length (batch_lines content)) @ '' ok'')"
proof -
  let ?ls = "batch_lines content"
  have "commands_sent (concat (map (\<lambda>i. batch_header i (length ?ls) (?ls ! i) # batch_command timeout i (?ls ! i) (inc i)) ks))
     = map (\<lambda>i. NativeCmd (of_nat (i + 1)) (ShellExec (?ls ! i) (ucast timeout))) ks" for ks
    by (induction ks) (simp_all add: batch_header_def println_def batch_command_def)
  then show ?thesis by (simp add: batch_run_def println_def)
qed

section \<open>Progress\<close>

text \<open>The bar of a push is 40 characters wide: the subtraction for its empty part never underflows.\<close>

theorem progress_bar_fits:
  assumes "offset \<le> n" "0 < n"
  shows "(offset * 100) div n \<le> 100 \<and> ((offset * 100) div n * 40) div 100 \<le> 40
     \<and> fst (push_progress F n elapsed last_pct offset) \<le> max last_pct 100"
proof -
  have "(offset * 100) div n \<le> (n * 100) div n" using assms(1) by (intro div_le_mono) simp
  then have p: "(offset * 100) div n \<le> 100" using assms(2) by simp
  then have "((offset * 100) div n * 40) div 100 \<le> (100 * 40) div 100" by (intro div_le_mono) simp
  with p show ?thesis by (auto simp: push_progress_def Let_def)
qed

section \<open>Witnesses\<close>

definition sample_ctl :: "ControlMsg option list \<Rightarrow> (machine, nat) ctl_env" where
  "sample_ctl msgs = \<lparr>ce_float = nat_floats, ce_sys = table_os, ce_parent = (\<lambda>_. None), ce_inc = (\<lambda>_. msgs), ce_turns = [],
     ce_stdin = [], ce_acks = (\<lambda>_ _. []), ce_id = 7, ce_elapsed = 0, ce_clock = (\<lambda>_. 0), ce_pong = (\<lambda>_. Inr 0),
     ce_ms = show_nat, ce_avg = (\<lambda>_ _. []), ce_remote = (\<lambda>_. []), ce_version = [], ce_error = (\<lambda>_. [])\<rparr>"

definition sample_ctx :: Ctx where
  "sample_ctx = \<lparr>ctx_remote = (V4 5, 9876), ctx_psk = [], ctx_conn_id = 7, ctx_seq = 1, ctx_tcp = False\<rparr>"

definition text_machine :: machine where
  "text_machine = \<lparr>mc_files = [(''/t'', str_bytes ''text'')], mc_dirs = []\<rparr>"

lemma text_read: "os_read table_os text_machine ''/t'' = Inr (str_bytes ''text'')" "utf8_valid (str_bytes ''text'')"
  by (simp_all add: table_os_def text_machine_def str_bytes_def)

lemma text_native: "snd (run_native_cmd demo_native (ReadFile ''/t'') text_machine) = Returns (str_bytes ''text'') (Some 0)"
  using text_read by (simp add: run_native_cmd_def native_read_file_def read_to_string_def reply_def)



theorem pull_stores_error_text_witness:
  "\<exists>e h2 out. cmd_pull nat_floats table_os (\<lambda>_. None) 0 7 ''/none'' ''/copy''
      [Some (ExecChunk 7 0 (str_bytes (''read error: '' @ e @ newline))), Some (ExecDone 7 (Some 1))] demo_machine
        = (h2, out, Inr ())
    \<and> os_read table_os h2 ''/copy'' = Inr (str_bytes (''read error: '' @ e @ newline))"
proof -
  define e where "e = ''No such file or directory (os error 2)''"
  have r: "read_to_string (ne_sys demo_native) text_machine ''/none'' = Inl e"
    by (simp add: read_to_string_def table_os_def text_machine_def e_def)
  then have "snd (run_native_cmd demo_native (ReadFile ''/none'') text_machine)
      = Returns (str_bytes (''read error: '' @ e @ newline)) (Some 1)"
    by (simp add: run_native_cmd_def native_read_file_def reply_def)
  from native_at_returns [OF native_at_daemon_at this]
  have s: "control_step (daemon_at text_machine) (NativeCmd 7 (ReadFile ''/none'')) daemon_new
      = (daemon_new, [ExecChunk 7 0 (str_bytes (''read error: '' @ e @ newline)), ExecDone 7 (Some 1)])"
    by (simp add: control_step_def)
  have w: "os_write table_os (mkdir_parent table_os (\<lambda>_. None) ''/copy'' demo_machine) ''/copy''
        (str_bytes (''read error: '' @ e @ newline))
      = (mc_put ''/copy'' (str_bytes (''read error: '' @ e @ newline)) demo_machine, FileWritten)"
    by (simp add: table_os_def mkdir_parent_def)
  have f: "filter (concerns 7) [Some (ExecChunk 7 0 (str_bytes (''read error: '' @ e @ newline))), Some (ExecDone 7 (Some 1))]
      = map Some [ExecChunk 7 0 (str_bytes (''read error: '' @ e @ newline)), ExecDone 7 (Some 1)]"
    by (simp add: concerns_def)
  from pull_stores_error_text [OF r native_at_daemon_at s f table_write_law w] show ?thesis by blast
qed

theorem first_lines_sent_witness:
  "drain_exec_interactive 1 (replicate 2 StdinReady) (map (\<lambda>(l, r). l @ 10 # r) [([108, 115], []), ([112], [113, 10])]) =
     (map (\<lambda>(l, r). Sends (ExecStdin 1 (l @ [10]) False)) [([108, 115], [] :: bytes), ([112], [113, 10])], False, [])"
proof -
  have "list_all (\<lambda>(l, r :: bytes). 10 \<notin> set l \<and> utf8_valid (l @ [10])) [([108, 115], []), ([112], [113, 10])]" by simp
  from first_lines_sent [OF this, of 1] show ?thesis by (simp only: list.size add_0 One_nat_def numeral_2_eq_2 plus_nat.simps)
qed

theorem further_lines_lost_witness:
  "drain_exec_interactive 1 [StdinReady, StdinReady] [str_bytes ''ls'' @ 10 # str_bytes ''pwd''] =
     ([Sends (ExecStdin 1 (str_bytes ''ls'' @ [10]) False), Sends (ExecStdin 1 [] True)], False, [])"
  by (rule further_lines_lost) (simp_all add: str_bytes_def)

theorem progress_bar_fits_witness: "fst (push_progress nat_floats 2048 1 0 1024) \<le> max 0 100"
  using progress_bar_fits [of 1024 2048 nat_floats 1 0] by simp

end
