(* ===== verification/DaemonMain.thy ===== *)
theory DaemonMain
  imports CtlSession NativeFiles VpnRouter
begin

text \<open>
  The start and the main loop of the daemon, \<^verbatim>\<open>crates/daemon/src/main.rs\<close>: its key, the VPN router it
  starts, the UDP loop with the heartbeat, and commands whose output goes to a TCP stream. The machine,
  fresh keys and received datagrams are arguments; a panic is \<open>None\<close>.
\<close>

definition PSK_PATH :: string where
  "PSK_PATH = ''/etc/lan-link/psk''"

record Args =
  ar_port :: u16
  ar_psk :: "string option"
  ar_discovery :: bool
  ar_vpn_port :: u16
  ar_node_name :: "string option"
  ar_vpn :: bool
  ar_tcp :: bool

section \<open>The key\<close>

text \<open>The key in the file, if the file has exactly the 64 digits of one.\<close>

definition stored_psk :: "hex_codec \<Rightarrow> 'h os \<Rightarrow> 'h \<Rightarrow> Psk option" where
  "stored_psk H sys h =
     (case os_read sys h PSK_PATH of
        Inl _ \<Rightarrow> None
      | Inr existing \<Rightarrow>
          if length existing = 64 then
            (case hex_decode H (bytes_str existing) of
               Inr key \<Rightarrow> if length key = 32 then Some key else None
             | Inl _ \<Rightarrow> None)
          else None)"

text \<open>\<open>fresh\<close> is the key \<open>generate_psk\<close> makes; the last part is what is printed.\<close>

definition load_or_generate_psk :: "hex_codec \<Rightarrow> 'h os \<Rightarrow> Args \<Rightarrow> Psk \<Rightarrow> 'h \<Rightarrow> ('h \<times> Psk \<times> string option) option" where
  "load_or_generate_psk H sys args fresh h =
     (case ar_psk args of
        Some hex_str \<Rightarrow>
          (case hex_decode H hex_str of
             Inl _ \<Rightarrow> None
           | Inr key \<Rightarrow> if length key = 32 then Some (h, key, None) else None)
      | None \<Rightarrow>
          (case stored_psk H sys h of
             Some key \<Rightarrow> Some (h, key, None)
           | None \<Rightarrow>
               (let h1 = os_create_dir_all sys h ''/etc/lan-link'';
                    (h2, _) = os_write sys h1 PSK_PATH (str_bytes (hex_encode H fresh))
                in Some (h2, fresh, Some (''PSK='' @ hex_encode H fresh @ newline)))))"

section \<open>The VPN router\<close>

definition daemon_node_name :: "'h os \<Rightarrow> 'h \<Rightarrow> Args \<Rightarrow> string" where
  "daemon_node_name sys h args =
     (case ar_node_name args of
        Some name \<Rightarrow> name
      | None \<Rightarrow>
          (case read_to_string sys h ''/etc/hostname'' of
             Inl _ \<Rightarrow> ''unknown''
           | Inr s \<Rightarrow> if trim s \<noteq> [] then trim s else ''unknown''))"

definition daemon_node_id :: "(bytes \<Rightarrow> bytes) \<Rightarrow> string \<Rightarrow> Psk \<Rightarrow> NodeID" where
  "daemon_node_id sha256 name psk = take 32 (sha256 (str_bytes name @ psk))"

definition daemon_vpn :: "(bytes \<Rightarrow> bytes) \<Rightarrow> 'h os \<Rightarrow> 'h \<Rightarrow> Args \<Rightarrow> Psk \<Rightarrow> MemAddressResolver VpnRouter" where
  "daemon_vpn sha256 sys h args psk =
     (let name = daemon_node_name sys h args; i = daemon_node_id sha256 name psk
      in vpn_with_port name i mem_new None (relay_node_new i (ar_vpn_port args)) (ar_vpn_port args))"

section \<open>The UDP loop\<close>

datatype udp_recv = GotPacket bytes SocketAddr | RecvFailed | NothingCame

text \<open>A turn at \<open>now\<close>: a datagram, cut to the buffer, is handled, and the heartbeat ticks if it is due.\<close>

definition udp_turn :: "daemon_env \<Rightarrow> Psk \<Rightarrow> instant \<times> instant \<times> udp_recv \<Rightarrow> DaemonState \<times> instant
     \<Rightarrow> (DaemonState \<times> instant) \<times> (SocketAddr \<times> bytes) list" where
  "udp_turn E psk turn s =
     (let (now, later, r) = turn; (st, last_hb) = s;
          (st1, out1) = (case r of
             GotPacket d who \<Rightarrow> handle_packet_inner E now psk (take MAX_PACKET d) who st
           | RecvFailed \<Rightarrow> (st, [])
           | NothingCame \<Rightarrow> (st, []));
          (st2, last_hb2, out2) = heartbeat_tick later last_hb st1
      in ((st2, last_hb2), out1 @ out2))"

fun udp_loop :: "daemon_env \<Rightarrow> Psk \<Rightarrow> (instant \<times> instant \<times> udp_recv) list \<Rightarrow> DaemonState \<times> instant
     \<Rightarrow> (DaemonState \<times> instant) \<times> (SocketAddr \<times> bytes) list" where
  "udp_loop E psk [] s = (s, [])"
| "udp_loop E psk (t # ts) s =
     (let (s1, out1) = udp_turn E psk t s; (s2, out2) = udp_loop E psk ts s1 in (s2, out1 @ out2))"

section \<open>Commands over TCP\<close>

definition exec_task_turn_tcp ::
  "daemon_env \<Rightarrow> TcpConnMap \<Rightarrow> u32 \<Rightarrow> u64 \<Rightarrow> Psk \<Rightarrow> ExecEvent \<Rightarrow> u64
     \<Rightarrow> u64 \<times> (nat \<times> bytes) option list \<times> ShellCall list \<times> bool" where
  "exec_task_turn_tcp E tc i cid psk ev sq =
     (let tx = (\<lambda>m. [tcp_send tc cid (build_control_packet_tcp E cid psk sq m)])
      in case ev of
           EvChunk k dat \<Rightarrow> (sq + 1, tx (ExecChunk i k dat), [], False)
         | EvDone code \<Rightarrow> (sq + 1, tx (ExecDone i code), [], True)
         | EvCmd (Some (Stdin dat close)) \<Rightarrow> (sq, [], [WriteStdin dat close], False)
         | EvCmd (Some (Signal _)) \<Rightarrow> (sq, [], [KillShell], False)
         | EvCmd None \<Rightarrow> (sq, [], [KillShell], True))"

fun run_exec_task_tcp ::
  "daemon_env \<Rightarrow> TcpConnMap \<Rightarrow> u32 \<Rightarrow> u64 \<Rightarrow> Psk \<Rightarrow> ExecEvent list \<Rightarrow> u64
     \<Rightarrow> u64 \<times> (nat \<times> bytes) option list \<times> ShellCall list" where
  "run_exec_task_tcp E tc i cid psk [] sq = (sq, [], [])"
| "run_exec_task_tcp E tc i cid psk (ev # evs) sq =
     (let (sq1, out1, calls1, stop) = exec_task_turn_tcp E tc i cid psk ev sq
      in if stop then (sq1, out1, calls1)
         else let (sq2, out2, calls2) = run_exec_task_tcp E tc i cid psk evs sq1
              in (sq2, out1 @ out2, calls1 @ calls2))"

section \<open>The key survives a restart\<close>

text \<open>What the crate hex promises: two digits a byte, and decoding takes them back.\<close>

definition hex_law :: "hex_codec \<Rightarrow> bool" where
  "hex_law H \<longleftrightarrow> hex_correct H \<and> (\<forall>b. length (hex_encode H b) = 2 * length b
     \<and> list_all (\<lambda>c. c \<in> set ''0123456789abcdef'') (hex_encode H b))"

lemma hex_digit_plain: "c \<in> set ''0123456789abcdef'' \<Longrightarrow> \<not> is_space c \<and> (of_char c :: nat) < 128"
  by (auto simp: is_space_def)

lemma hex_plain:
  assumes "hex_law H"
  shows "ascii_text (hex_encode H b)" "trim (hex_encode H b) = hex_encode H b"
proof -
  have d: "c \<in> set (hex_encode H b) \<Longrightarrow> c \<in> set ''0123456789abcdef''" for c
    using assms unfolding hex_law_def list_all_iff by blast
  show "ascii_text (hex_encode H b)" using d hex_digit_plain by (simp add: ascii_text_def)
  then show "trim (hex_encode H b) = hex_encode H b" using d hex_digit_plain by (intro trim_plain) blast+
qed

text \<open>
  The key made at the first start is the key of every later start, and the key that a client on the same
  machine uses without being given one: the file written is read back by both.\<close>

theorem key_survives_restart:
  assumes "hex_law H" "write_law sys" "length fresh = 32" "ar_psk args = None"
    and "stored_psk H sys h = None"
    and "os_write sys (os_create_dir_all sys h ''/etc/lan-link'') PSK_PATH (str_bytes (hex_encode H fresh)) = (h', FileWritten)"
  shows "load_or_generate_psk H sys args fresh h = Some (h', fresh, Some (''PSK='' @ hex_encode H fresh @ newline))
    \<and> load_or_generate_psk H sys args other h' = Some (h', fresh, None)
    \<and> (os_var sys h' ''LAN_LINK_PSK'' = None \<longrightarrow> resolve_psk sys h' None = Some (hex_encode H fresh))"
proof -
  have read: "os_read sys h' PSK_PATH = Inr (str_bytes (hex_encode H fresh))"
    using assms(2,6) unfolding write_law_def by blast
  have len: "length (hex_encode H fresh) = 64" and dec: "hex_decode H (hex_encode H fresh) = Inr fresh"
    using assms(1,3) by (auto simp: hex_law_def hex_correct_def)
  have "stored_psk H sys h' = Some fresh"
    using read len dec assms(3) by (simp add: stored_psk_def str_bytes_def) (simp add: str_bytes_def [symmetric])
  moreover have "read_to_string sys h' PSK_PATH = Inr (hex_encode H fresh)"
    by (rule written_text [OF assms(2,6) ascii_utf8 [OF hex_plain(1) [OF assms(1)]]])
  moreover have "hex_encode H fresh \<noteq> []" using len by auto
  ultimately show ?thesis
    using assms(4-6) hex_plain(2) [OF assms(1)]
    by (simp add: load_or_generate_psk_def resolve_psk_def PSK_PATH_def)
qed

text \<open>
  A file that does not have exactly 64 bytes, like 64 digits and a newline, which the client accepts, is
  replaced by a new key.\<close>

theorem key_file_replaced:
  assumes "write_law sys" "ar_psk args = None" "os_read sys h PSK_PATH = Inr d" "length d \<noteq> 64"
    and "os_write sys (os_create_dir_all sys h ''/etc/lan-link'') PSK_PATH (str_bytes (hex_encode H fresh)) = (h', FileWritten)"
  shows "map_option (fst \<circ> snd) (load_or_generate_psk H sys args fresh h) = Some fresh
    \<and> os_read sys h' PSK_PATH = Inr (str_bytes (hex_encode H fresh))"
  using assms unfolding write_law_def
  by (auto simp: load_or_generate_psk_def stored_psk_def)

section \<open>The loop keeps the table\<close>

lemma udp_turn_reachable:
  "daemon_reachable E psk (fst s) \<Longrightarrow> daemon_reachable E psk (fst (fst (udp_turn E psk t s)))"
proof -
  assume s: "daemon_reachable E psk (fst s)"
  obtain now later r st hb where t: "t = (now, later, r)" "s = (st, hb)" by (metis prod.exhaust)
  show ?thesis
  proof (cases r)
    case (GotPacket d who)
    have "daemon_reachable E psk (fst (handle_packet_inner E now psk (take MAX_PACKET d) who st))"
      using daemon_next [OF _ step_packet] s t by simp
    from daemon_next [OF this step_tick] show ?thesis
      by (simp add: udp_turn_def t GotPacket case_prod_unfold Let_def)
  next
    case RecvFailed
    from daemon_next [OF s step_tick] show ?thesis by (simp add: udp_turn_def t RecvFailed case_prod_unfold Let_def)
  next
    case NothingCame
    from daemon_next [OF s step_tick] show ?thesis by (simp add: udp_turn_def t NothingCame case_prod_unfold Let_def)
  qed
qed

lemma udp_loop_reachable:
  "daemon_reachable E psk (fst s) \<Longrightarrow> daemon_reachable E psk (fst (fst (udp_loop E psk ts s)))"
  by (induction ts arbitrary: s) (simp_all add: case_prod_unfold Let_def udp_turn_reachable)

text \<open>
  Whatever the socket delivers, at whatever times, the running daemon never has more than 100 UDP
  connections, each established and stored under its number.\<close>

theorem main_loop_table_bounded:
  "length (connections (fst (fst (udp_loop E psk ts (daemon_new, start))))) \<le> 100
   \<and> (\<forall>cid c. hm_get (connections (fst (fst (udp_loop E psk ts (daemon_new, start))))) cid = Some c
        \<longrightarrow> c_id c = cid \<and> c_state c = Established)"
  using daemon_reachable_ok [OF udp_loop_reachable [OF _]] daemon_start
  by (fastforce simp: conns_ok_def MAX_CONNECTIONS_def)

section \<open>Output over TCP reaches the client\<close>

lemma tcp_frame_read:
  assumes "0 < length f" "length f \<le> 65536"
  shows "tcp_read_frame (tcp_frame f @ rest) = (Inr (Some f), rest)"
proof -
  have "(be_word (be_bytes 4 (of_nat (length f) :: u32)) :: u32) = of_nat (length f)"
    by (rule be_word_be_bytes) simp
  moreover have "unat (of_nat (length f) :: u32) = length f" using assms by (intro unat_of_nat_small) simp
  ultimately show ?thesis using assms by (simp add: tcp_read_frame_def tcp_frame_def Let_def)
qed

text \<open>A message the daemon can encrypt, of a size that fits the length field of the header.\<close>

definition tcp_message :: "daemon_env \<Rightarrow> Psk \<Rightarrow> u64 \<Rightarrow> ControlMsg \<Rightarrow> bool" where
  "tcp_message E psk cid m \<longleftrightarrow> env_deser E (env_ser E m) = Some m \<and> length (env_ser E m) + 16 < 2 ^ 16 - HEADER_SIZE
     \<and> (\<forall>sq. encrypt (env_aead E) psk (make_nonce cid sq) (env_ser E m) \<noteq> None)"

lemma tcp_packet_received:
  assumes "aead_correct (env_aead E)" "tcp_message E psk cid m"
  shows "recv_control_tcp E psk (build_control_packet_tcp E cid psk sq m) = Inr (Some m)
     \<and> tcp_read_frame (tcp_frame (build_control_packet_tcp E cid psk sq m) @ rest)
         = (Inr (Some (build_control_packet_tcp E cid psk sq m)), rest)"
proof -
  let ?n = "make_nonce cid (ucast sq)"
  from assms(2) obtain ct where ct: "encrypt (env_aead E) psk ?n (env_ser E m) = Some ct"
    by (auto simp: tcp_message_def)
  from length_ciphertext [OF assms(1) ct] have len: "length ct = length (env_ser E m) + 16"
    and dec: "decrypt (env_aead E) psk ?n ct = Some (env_ser E m)" by auto
  have pkt: "build_control_packet_tcp E cid psk sq m = build_encrypted_data cid 0 (ucast sq) FLAG_RELIABLE ct ?n"
    by (simp add: build_control_packet_tcp_def ct build_encrypted_data_def Let_def)
  have u: "unat (of_nat (length ct) :: u16) = length ct"
    using assms(2) len by (intro unat_of_nat_small) (simp add: tcp_message_def HEADER_SIZE_def)
  have "recv_control_tcp E psk (build_control_packet_tcp E cid psk sq m) = Inr (Some m)"
    using dec u assms(2) by (simp add: pkt recv_control_tcp_def codec_simps Let_def tcp_message_def)
  moreover have "0 < length (build_control_packet_tcp E cid psk sq m)"
    "length (build_control_packet_tcp E cid psk sq m) \<le> 65536"
    using assms(2) len by (simp_all add: pkt length_build_encrypted tcp_message_def HEADER_SIZE_def)
  ultimately show ?thesis using tcp_frame_read by blast
qed

text \<open>The messages the client takes from the stream, up to the first frame it cannot read.\<close>

function tcp_messages :: "daemon_env \<Rightarrow> Psk \<Rightarrow> bytes \<Rightarrow> ControlMsg option list" where
  "tcp_messages E psk bs =
     (case tcp_read_frame bs of
        (Inr (Some f), rest) \<Rightarrow>
          (case recv_control_tcp E psk f of Inr m \<Rightarrow> m # tcp_messages E psk rest | Inl _ \<Rightarrow> [])
      | _ \<Rightarrow> [])"
  by pat_completeness auto
termination
  by (relation "measure (\<lambda>(E, psk, bs). length bs)")
     (auto simp: tcp_read_frame_def Let_def split: if_splits)

declare tcp_messages.simps [simp del]

fun event_messages :: "u32 \<Rightarrow> ExecEvent list \<Rightarrow> ControlMsg list" where
  "event_messages i [] = []"
| "event_messages i (EvChunk k d # evs) = ExecChunk i k d # event_messages i evs"
| "event_messages i (EvDone c # evs) = [ExecDone i c]"
| "event_messages i (EvCmd (Some c) # evs) = event_messages i evs"
| "event_messages i (EvCmd None # evs) = []"

definition stream_bytes :: "nat \<Rightarrow> (nat \<times> bytes) option list \<Rightarrow> bytes" where
  "stream_bytes s out = concat (map (\<lambda>w. case w of Some (t, b) \<Rightarrow> if t = s then b else [] | None \<Rightarrow> []) out)"

lemma exec_frames_read:
  assumes "aead_correct (env_aead E)" "hm_get tc cid = Some (s, who)"
    and "\<forall>m \<in> set (event_messages i evs). tcp_message E psk cid m"
  shows "tcp_messages E psk (stream_bytes s (fst (snd (run_exec_task_tcp E tc i cid psk evs sq))))
     = map Some (event_messages i evs)"
  using assms(3)
proof (induction i evs arbitrary: sq rule: event_messages.induct)
  case (1 i)
  show ?case by (subst tcp_messages.simps) (simp add: stream_bytes_def tcp_read_frame_def)
next
  case (2 i k d evs)
  then show ?case using tcp_packet_received [OF assms(1), of psk cid "ExecChunk i k d" sq] assms(2)
    by (subst tcp_messages.simps) (simp add: exec_task_turn_tcp_def stream_bytes_def tcp_send_def case_prod_unfold Let_def)
next
  case (3 i c evs)
  have nil: "tcp_messages E psk [] = []" by (subst tcp_messages.simps) (simp add: tcp_read_frame_def)
  from 3 show ?case using tcp_packet_received [OF assms(1), of psk cid "ExecDone i c" sq "[]"] assms(2) nil
    by (subst tcp_messages.simps) (simp add: exec_task_turn_tcp_def stream_bytes_def tcp_send_def case_prod_unfold Let_def)
next
  case (4 i c evs)
  then show ?case by (cases c) (simp_all add: exec_task_turn_tcp_def case_prod_unfold Let_def)
next
  case (5 i evs)
  show ?case by (subst tcp_messages.simps) (simp add: stream_bytes_def tcp_read_frame_def exec_task_turn_tcp_def)
qed

text \<open>
  What a command puts out over TCP arrives: the client reads from its stream exactly the chunks of the
  events, in their order, and the exit code, where the output ends.\<close>

theorem exec_output_over_tcp:
  assumes "aead_correct (env_aead E)" "hm_get tc cid = Some (s, who)"
    and "\<forall>m \<in> set (event_messages i evs). tcp_message E psk cid m"
  shows "tcp_messages E psk (stream_bytes s (fst (snd (run_exec_task_tcp E tc i cid psk evs sq))))
     = map Some (event_messages i evs)"
  by (rule exec_frames_read [OF assms])

section \<open>The VPN router of the daemon\<close>

text \<open>The router the daemon starts has no listeners, and none can be added: what other nodes send is dropped.\<close>

theorem daemon_vpn_hears_nothing:
  "snd (dispatch_received H (fst (vpn_start H io bound (daemon_vpn sha256 sys h args psk)))) = []"
  by (auto simp: dispatch_received_def vpn_start_def daemon_vpn_def vpn_with_port_def Let_def
      split: prod.split sum.split)

section \<open>Witnesses\<close>

text \<open>The crate hex.\<close>

definition hex_digit :: "nat \<Rightarrow> char" where
  "hex_digit n = ''0123456789abcdef'' ! n"

definition digit_value :: "char \<Rightarrow> nat" where
  "digit_value c = length (takeWhile (\<lambda>d. d \<noteq> c) ''0123456789abcdef'')"

fun digits_bytes :: "string \<Rightarrow> bytes" where
  "digits_bytes (a # b # s) = of_nat (16 * digit_value a + digit_value b) # digits_bytes s"
| "digits_bytes _ = []"

definition real_hex :: hex_codec where
  "real_hex = \<lparr>hex_encode = (\<lambda>b. concat (map (\<lambda>w. [hex_digit (unat w div 16), hex_digit (unat w mod 16)]) b)),
     hex_decode = (\<lambda>s. Inr (digits_bytes s))\<rparr>"

lemma digit_value_digit: "n < 16 \<Longrightarrow> digit_value (hex_digit n) = n"
proof -
  have "\<forall>n \<in> set [0..<16]. digit_value (hex_digit n) = n" by code_simp
  then show "n < 16 \<Longrightarrow> digit_value (hex_digit n) = n" by simp
qed

lemma hex_digit_in: "n < 16 \<Longrightarrow> hex_digit n \<in> set ''0123456789abcdef''"
  unfolding hex_digit_def by (rule nth_mem) simp

lemma unat_div16: "unat (w :: u8) div 16 < 16" "unat w mod 16 < 16"
proof -
  have "unat w < 256" using unsigned_less [of w] by simp
  then show "unat w div 16 < 16" "unat w mod 16 < 16" by (simp_all add: less_mult_imp_div_less)
qed

lemma real_hex_law: "hex_law real_hex"
proof -
  have "digits_bytes (hex_encode real_hex b) = b" for b
    by (induction b) (simp_all add: real_hex_def digit_value_digit unat_div16)
  moreover have "length (hex_encode real_hex b) = 2 * length b
      \<and> list_all (\<lambda>c. c \<in> set ''0123456789abcdef'') (hex_encode real_hex b)" for b
    using hex_digit_in unat_div16 by (induction b) (simp_all add: real_hex_def)
  ultimately show ?thesis by (simp add: hex_law_def hex_correct_def real_hex_def)
qed

definition bare_machine :: machine where
  "bare_machine = \<lparr>mc_files = [], mc_dirs = []\<rparr>"

definition bare_args :: Args where
  "bare_args = \<lparr>ar_port = 9876, ar_psk = None, ar_discovery = True, ar_vpn_port = 9877, ar_node_name = None,
     ar_vpn = False, ar_tcp = True\<rparr>"

theorem key_survives_restart_witness:
  "\<exists>h'. load_or_generate_psk real_hex table_os bare_args (replicate 32 5) bare_machine
      = Some (h', replicate 32 5, Some (''PSK='' @ hex_encode real_hex (replicate 32 5) @ newline))
    \<and> load_or_generate_psk real_hex table_os bare_args (replicate 32 6) h' = Some (h', replicate 32 5, None)
    \<and> resolve_psk table_os h' None = Some (hex_encode real_hex (replicate 32 5))"
proof -
  let ?k = "str_bytes (hex_encode real_hex (replicate 32 5))"
  have w: "os_write table_os (os_create_dir_all table_os bare_machine ''/etc/lan-link'') PSK_PATH ?k
      = (mc_put PSK_PATH ?k bare_machine, FileWritten)"
    by (simp add: table_os_def)
  have "stored_psk real_hex table_os bare_machine = None"
    by (simp add: stored_psk_def table_os_def bare_machine_def)
  from key_survives_restart [OF real_hex_law table_write_law _ _ this w, of bare_args "replicate 32 6"]
  show ?thesis by (auto simp: bare_args_def table_os_def)
qed

theorem key_file_replaced_witness:
  "\<exists>h'. map_option (fst \<circ> snd) (load_or_generate_psk real_hex table_os bare_args (replicate 32 5)
       (mc_put PSK_PATH (replicate 65 48) bare_machine)) = Some (replicate 32 5)
    \<and> os_read table_os h' PSK_PATH = Inr (str_bytes (hex_encode real_hex (replicate 32 5)))"
proof -
  let ?k = "str_bytes (hex_encode real_hex (replicate 32 5))" and ?m = "mc_put PSK_PATH (replicate 65 48) bare_machine"
  have w: "os_write table_os (os_create_dir_all table_os ?m ''/etc/lan-link'') PSK_PATH ?k
      = (mc_put PSK_PATH ?k ?m, FileWritten)"
    by (simp add: table_os_def)
  have r: "os_read table_os ?m PSK_PATH = Inr (replicate 65 48)" by (simp add: table_os_def mc_put_def)
  from key_file_replaced [OF table_write_law _ r _ w, of bare_args] show ?thesis by (auto simp: bare_args_def)
qed

definition chunk_env :: daemon_env where
  "chunk_env = demo_env\<lparr>env_ser := (\<lambda>m. case m of ExecDone _ _ \<Rightarrow> [2] | _ \<Rightarrow> [1]),
     env_deser := (\<lambda>b. if b = [2] then Some (ExecDone 3 (Some 0)) else Some (ExecChunk 3 0 [104]))\<rparr>"

lemma chunk_env_correct:
  "aead_correct (env_aead chunk_env)"
  "\<forall>m \<in> set (event_messages 3 [EvChunk 0 [104], EvDone (Some 0)]). tcp_message chunk_env [] 7 m"
  using demo_aead_correct
  by (simp_all add: tcp_message_def chunk_env_def demo_env_def demo_aead_def encrypt_def HEADER_SIZE_def)

theorem exec_output_over_tcp_witness:
  "tcp_messages chunk_env [] (stream_bytes 4 (fst (snd (run_exec_task_tcp chunk_env [(7, 4, (V4 1, 9))] 3 7 []
      [EvChunk 0 [104], EvDone (Some 0)] 0)))) = [Some (ExecChunk 3 0 [104]), Some (ExecDone 3 (Some 0))]"
proof -
  have t: "hm_get [(7 :: u64, 4 :: nat, (V4 1, 9 :: u16))] 7 = Some (4, (V4 1, 9))" by simp
  from exec_output_over_tcp [OF chunk_env_correct(1) t chunk_env_correct(2), of 0] show ?thesis by (simp only: event_messages.simps list.map)
qed

end
