(* ===== verification/Persistence.thy ===== *)
theory Persistence
  imports Metadata Sync Identity NativeFiles Stats
begin

text \<open>
  What the overlay keeps on disk besides the versions and the registry: the metadata database
  (\<^verbatim>\<open>vpn/src/storage/metadata.rs\<close>, \<open>load_from_file\<close> to \<open>flush\<close>) and the identity of a node
  (\<^verbatim>\<open>vpn/src/vpn/identity.rs\<close>); and the texts shown for differences (\<^verbatim>\<open>diff.rs\<close>) and traffic
  (\<^verbatim>\<open>stats.rs\<close>). Files belong to the machine \<open>'h os\<close>; JSON, hex and the curve are parameters with laws.
\<close>

section \<open>The metadata database\<close>

record meta_json =
  mj_show :: "(string, MetadataEntry) hmap \<Rightarrow> string"
  mj_parse :: "string \<Rightarrow> (string, MetadataEntry) hmap option"

text \<open>What is printed for the entries is not blank, is read back, and gives the same map, in whatever order.\<close>

definition meta_json_law :: "meta_json \<Rightarrow> (string, MetadataEntry) hmap \<Rightarrow> bool" where
  "meta_json_law J es \<longleftrightarrow> trim (mj_show J es) \<noteq> [] \<and> utf8_valid (str_bytes (mj_show J es))
     \<and> (\<exists>es'. mj_parse J (mj_show J es) = Some es' \<and> hm_get es' = hm_get es)"

datatype store_error = StoreIo string | StoreJson

definition load_from_file :: "'h os \<Rightarrow> meta_json \<Rightarrow> string \<Rightarrow> 'h \<Rightarrow> (store_error, MetadataStore) result" where
  "load_from_file sys J path h =
     (if os_exists sys h path then
        (case read_to_string sys h path of
           Inl e \<Rightarrow> Inl (StoreIo e)
         | Inr data_str \<Rightarrow>
             if trim data_str = [] then Inr metadata_new
             else (case mj_parse J data_str of
                     None \<Rightarrow> Inl StoreJson
                   | Some es \<Rightarrow> Inr \<lparr>ms_entries = es, ms_dirty = False\<rparr>))
      else Inr metadata_new)"

text \<open>\<open>parent\<close> is \<^verbatim>\<open>Path::parent\<close>; the machine and the store afterwards, and whether it was saved.\<close>

definition save_to_file :: "'h os \<Rightarrow> meta_json \<Rightarrow> (string \<Rightarrow> string option) \<Rightarrow> string \<Rightarrow> MetadataStore \<Rightarrow> 'h
     \<Rightarrow> 'h \<times> MetadataStore \<times> bool" where
  "save_to_file sys J parent path s h =
     (let h1 = (case parent path of Some p \<Rightarrow> os_create_dir_all sys h p | None \<Rightarrow> h)
      in case os_write sys h1 path (str_bytes (mj_show J (ms_entries s))) of
           (h2, FileWritten) \<Rightarrow> (h2, s\<lparr>ms_dirty := False\<rparr>, True)
         | (h2, _) \<Rightarrow> (h2, s, False))"

definition save_if_dirty :: "'h os \<Rightarrow> meta_json \<Rightarrow> (string \<Rightarrow> string option) \<Rightarrow> string \<Rightarrow> MetadataStore \<Rightarrow> 'h
     \<Rightarrow> 'h \<times> MetadataStore" where
  "save_if_dirty sys J parent path s h =
     (if ms_dirty s then let (h', s', _) = save_to_file sys J parent path s h in (h', s') else (h, s))"

definition metadata_contains :: "string \<Rightarrow> MetadataStore \<Rightarrow> bool" where
  "metadata_contains n s = hm_contains n (ms_entries s)"

definition metadata_len :: "MetadataStore \<Rightarrow> nat" where
  "metadata_len s = length (ms_entries s)"

definition get_block_distribution :: "string \<Rightarrow> MetadataStore \<Rightarrow> (u32, string list) hmap" where
  "get_block_distribution n s =
     (case query n s of
        None \<Rightarrow> []
      | Some e \<Rightarrow> fold (\<lambda>b m. hm_insert (bl_index b) (bl_nodes b) m) (FileMetadata.md_blocks (me_meta e)) [])"

text \<open>Saving after a change is what the operations of the store do: \<open>mark_and_save\<close>, with the outcome of writing.\<close>

lemma save_after_change:
  "snd (save_if_dirty sys J parent path (s\<lparr>ms_dirty := True\<rparr>) h) =
     mark_and_save (snd (snd (save_to_file sys J parent path (s\<lparr>ms_dirty := True\<rparr>) h))) s"
  by (simp add: save_if_dirty_def save_to_file_def mark_and_save_def Let_def split: prod.split write_result.split)

text \<open>
  The metadata survives a restart: after a save that succeeded, a store loaded from the file answers
  every query as the saved one did, and has nothing to save.\<close>

theorem metadata_survives_restart:
  assumes "write_law sys" "meta_json_law J (ms_entries s)" "save_to_file sys J parent path s h = (h', s', True)" "os_exists sys h' path"
  shows "\<exists>t. load_from_file sys J path h' = Inr t \<and> (\<forall>n. query n t = query n s) \<and> \<not> ms_dirty t \<and> \<not> ms_dirty s'"
proof -
  let ?h1 = "case parent path of Some p \<Rightarrow> os_create_dir_all sys h p | None \<Rightarrow> h"
  have w: "os_write sys ?h1 path (str_bytes (mj_show J (ms_entries s))) = (h', FileWritten)" and s': "\<not> ms_dirty s'"
    using assms(3) by (auto simp: save_to_file_def Let_def split: prod.splits write_result.splits)
  have "read_to_string sys h' path = Inr (mj_show J (ms_entries s))"
    using written_text [OF assms(1) w] assms(2) by (simp add: meta_json_law_def)
  moreover obtain es where "mj_parse J (mj_show J (ms_entries s)) = Some es" "hm_get es = hm_get (ms_entries s)"
    "trim (mj_show J (ms_entries s)) \<noteq> []"
    using assms(2) unfolding meta_json_law_def by blast
  ultimately show ?thesis using assms(4) s' by (simp add: load_from_file_def query_def)
qed

text \<open>The nodes of a block are the same by either lookup, when no index occurs twice.\<close>

lemma fold_insert_get:
  "hm_get (fold (\<lambda>b m. hm_insert (bl_index b) (bl_nodes b) m) bs m) i =
     (case find (\<lambda>b. bl_index b = i) (rev bs) of Some b \<Rightarrow> Some (bl_nodes b) | None \<Rightarrow> hm_get m i)"
proof (induction bs arbitrary: m)
  case (Cons b bs)
  have f: "find p (xs @ [b]) = (case find p xs of Some y \<Rightarrow> Some y | None \<Rightarrow> if p b then Some b else None)" for p xs
    by (induction xs) auto
  show ?case by (simp add: Cons.IH f split: option.split)
qed simp

theorem block_distribution_agrees:
  assumes "distinct (map bl_index (FileMetadata.md_blocks (me_meta e)))" "query n s = Some e"
  shows "hm_get (get_block_distribution n s) i =
     (if i \<in> bl_index ` set (FileMetadata.md_blocks (me_meta e)) then Some (get_block_nodes n i s) else None)"
proof -
  let ?bs = "FileMetadata.md_blocks (me_meta e)"
  have u: "find (\<lambda>b. bl_index b = i) (rev bs) = find (\<lambda>b. bl_index b = i) bs" if "distinct (map bl_index bs)" for bs
    using that
  proof (induction bs)
    case (Cons b bs)
    have f: "find p (xs @ [b]) = (case find p xs of Some y \<Rightarrow> Some y | None \<Rightarrow> if p b then Some b else None)" for p xs
      by (induction xs) auto
    have "find (\<lambda>c. bl_index c = i) bs = None" if "bl_index b = i" using Cons.prems that by (auto simp: find_None_iff) (metis image_eqI)
    with Cons show ?case by (auto simp: f split: option.split)
  qed simp
  show ?thesis
  proof (cases "find (\<lambda>b. bl_index b = i) ?bs")
    case None
    then have "i \<notin> bl_index ` set ?bs" by (auto simp: find_None_iff)
    then show ?thesis using None assms u [OF assms(1)] by (simp add: get_block_distribution_def fold_insert_get)
  next
    case (Some b)
    then have "i \<in> bl_index ` set ?bs" by (auto simp: find_Some_iff)
    then show ?thesis using Some assms u [OF assms(1)]
      by (simp add: get_block_distribution_def fold_insert_get get_block_nodes_def)
  qed
qed

section \<open>The identity of a node\<close>

text \<open>
  A signing key is its 32 secret bytes; \<open>verifying\<close> gives the public key of the curve. \<open>ij_show\<close> is the
  JSON object with the two fields, \<open>ij_parse\<close> gives the two fields where they are strings.
\<close>

record identity_json =
  ij_show :: "string \<Rightarrow> string \<Rightarrow> string"
  ij_parse :: "string \<Rightarrow> (string option \<times> string option) option"

definition identity_json_law :: "identity_json \<Rightarrow> string \<Rightarrow> string \<Rightarrow> bool" where
  "identity_json_law J a b \<longleftrightarrow> ij_parse J (ij_show J a b) = Some (Some a, Some b) \<and> utf8_valid (str_bytes (ij_show J a b))"

definition from_public_key :: "(bytes \<Rightarrow> bytes) \<Rightarrow> bytes \<Rightarrow> NodeID" where
  "from_public_key sha256 key = sha256 key"

definition generate_identity :: "(bytes \<Rightarrow> bytes) \<Rightarrow> (bytes \<Rightarrow> bytes) \<Rightarrow> bytes \<Rightarrow> NodeID \<times> bytes" where
  "generate_identity sha256 verifying random = (from_public_key sha256 (verifying random), random)"

definition save_identity :: "'h os \<Rightarrow> hex_codec \<Rightarrow> identity_json \<Rightarrow> NodeID \<Rightarrow> bytes \<Rightarrow> string \<Rightarrow> 'h \<Rightarrow> 'h \<times> write_result" where
  "save_identity sys H J i key path h = os_write sys h path (str_bytes (ij_show J (to_hex H i) (hex_encode H key)))"

datatype identity_error = IdentityIo string | InvalidJson | InvalidIdentity

text \<open>A field that is missing and a secret of another length are panics, \<open>None\<close>.\<close>

definition load_identity :: "'h os \<Rightarrow> hex_codec \<Rightarrow> identity_json \<Rightarrow> string \<Rightarrow> 'h \<Rightarrow> (identity_error, NodeID \<times> bytes) result option" where
  "load_identity sys H J path h =
     (case read_to_string sys h path of
        Inl e \<Rightarrow> Some (Inl (IdentityIo e))
      | Inr d \<Rightarrow>
          (case ij_parse J d of
             None \<Rightarrow> Some (Inl InvalidJson)
           | Some (Some node_id_hex, Some secret_hex) \<Rightarrow>
               (case from_hex H node_id_hex of
                  Inl _ \<Rightarrow> Some (Inl InvalidIdentity)
                | Inr i \<Rightarrow>
                    (case hex_decode H secret_hex of
                       Inl _ \<Rightarrow> Some (Inl InvalidIdentity)
                     | Inr key \<Rightarrow> if length key = 32 then Some (Inr (i, key)) else None))
           | Some _ \<Rightarrow> None))"

definition debug_node :: "hex_codec \<Rightarrow> NodeID \<Rightarrow> string" where
  "debug_node H i = ''NodeID('' @ take 16 (to_hex H i) @ '')''"

lemma load_saved:
  assumes "write_law sys" "hex_correct H" "identity_json_law J (to_hex H i) (hex_encode H key)" "length i = 32" "length key = 32"
    and "save_identity sys H J i key path h = (h', FileWritten)"
  shows "load_identity sys H J path h' = Some (Inr (i, key))"
proof -
  have "read_to_string sys h' path = Inr (ij_show J (to_hex H i) (hex_encode H key))"
    using assms(3) by (intro written_text [OF assms(1) assms(6) [unfolded save_identity_def]]) (simp add: identity_json_law_def)
  then show ?thesis
    using assms(2-5) by (simp add: load_identity_def identity_json_law_def from_hex_def to_hex_def hex_correct_def)
qed

text \<open>A node that saves the identity it generated has the same identifier and key after a restart.\<close>

theorem identity_roundtrip:
  assumes "write_law sys" "hex_correct H" "identity_json_law J (to_hex H i) (hex_encode H key)" "\<forall>b. length (sha256 b) = 32" "length random = 32"
    and "generate_identity sha256 verifying random = (i, key)"
    and "save_identity sys H J i key path h = (h', FileWritten)"
  shows "load_identity sys H J path h' = Some (Inr (i, key)) \<and> i = from_public_key sha256 (verifying key)"
proof -
  have "length i = 32" "length key = 32" "i = from_public_key sha256 (verifying key)"
    using assms(4-6) by (auto simp: generate_identity_def from_public_key_def)
  with load_saved [OF assms(1-3) _ _ assms(7)] show ?thesis by simp
qed

text \<open>The identifier in the file is not compared with the key: any identifier is loaded with any key.\<close>

theorem identity_not_checked:
  assumes "write_law sys" "hex_correct H" "identity_json_law J (to_hex H i) (hex_encode H key)" "length i = 32" "length key = 32"
    and "i \<noteq> from_public_key sha256 (verifying key)" "save_identity sys H J i key path h = (h', FileWritten)"
  shows "\<exists>j. load_identity sys H J path h' = Some (Inr (j, key)) \<and> j \<noteq> from_public_key sha256 (verifying key)"
  using load_saved [OF assms(1-5,7)] assms(6) by blast

section \<open>Reports\<close>

definition status_str :: "BlockDiffStatus \<Rightarrow> string" where
  "status_str st = (case st of Unchanged \<Rightarrow> ''='' | Modified \<Rightarrow> ''M'' | Added \<Rightarrow> ''+'' | Deleted \<Rightarrow> ''-'')"

definition report_row :: "BlockDiff \<Rightarrow> string" where
  "report_row b = ''  '' @ ljust 6 (show_u (bd_index b)) @ '' '' @ ljust 10 (show_u (bd_offset b)) @ '' ''
     @ ljust 8 (show_u (bd_size b)) @ '' '' @ status_str (bd_status b) @ newline"

text \<open>The arrow between the sizes is U+2192.\<close>

definition format_report :: "DiffReport \<Rightarrow> string" where
  "format_report r =
     (let d = rep_diff r
      in ''File: '' @ fd_file_name d @ newline
         @ ''Size: '' @ show_u (old_size d) @ '' '' @ [CHR 0xE2, CHR 0x86, CHR 0x92] @ '' '' @ show_u (new_size d) @ '' (''
         @ show_u (if new_size d > old_size d then new_size d - old_size d else old_size d - new_size d) @ '' ''
         @ (if new_size d \<ge> old_size d then ''added'' else ''removed'') @ '')'' @ newline
         @ (if files_match d then ''Status: UNCHANGED (files are identical)'' @ newline
            else ''Blocks: '' @ show_u (unchanged_count d) @ '' unchanged, '' @ show_nat (length (changed_blocks d)) @ '' changed'' @ newline
              @ ''To transfer: '' @ show_u (blocks_to_transfer r) @ '' blocks, '' @ show_u (bytes_to_transfer r) @ '' bytes (~''
              @ show_u (estimated_secs r) @ ''s at 1 MB/s)'' @ newline
              @ newline @ ''Block details:'' @ newline
              @ ''  '' @ ljust 6 ''Index'' @ '' '' @ ljust 10 ''Offset'' @ '' '' @ ljust 8 ''Size'' @ '' Status'' @ newline
              @ concat (map report_row (changed_blocks d))))"

definition format_bytes :: "'f float_ops \<Rightarrow> ('f \<Rightarrow> string) \<Rightarrow> u64 \<Rightarrow> string" where
  "format_bytes F show2 n =
     (let scaled = (\<lambda>d. show2 (f_div F (f_of_nat F (unat n)) (f_lit F d 1)))
      in if n \<ge> 1073741824 then scaled 1073741824 @ '' GiB''
         else if n \<ge> 1048576 then scaled 1048576 @ '' MiB''
         else if n \<ge> 1024 then scaled 1024 @ '' KiB''
         else show_u n @ '' B'')"

section \<open>Witnesses\<close>

definition sample_store :: MetadataStore where
  "sample_store = fst (register_file 5 False ''f'' [] 4 None
     [\<lparr>bl_hash = [], bl_index = 0, bl_nodes = [''a''], bl_last_synced = 5\<rparr>] ''me'' metadata_new)"

definition sample_json :: meta_json where
  "sample_json = \<lparr>mj_show = (\<lambda>_. ''{}''), mj_parse = (\<lambda>_. Some (ms_entries sample_store))\<rparr>"

theorem metadata_survives_restart_witness:
  "\<exists>h' t. load_from_file table_os sample_json ''/db'' h' = Inr t \<and> query ''f'' t = query ''f'' sample_store"
proof -
  let ?m = "\<lparr>mc_files = [], mc_dirs = []\<rparr> :: machine"
  let ?h = "mc_put ''/db'' (str_bytes ''{}'') ?m"
  have "trim ''{}'' = ''{}''" by (rule trim_plain) (simp_all add: is_space_def)
  then have "meta_json_law sample_json (ms_entries sample_store)"
    by (simp add: meta_json_law_def sample_json_def str_bytes_def)
  moreover have "save_to_file table_os sample_json (\<lambda>_. None) ''/db'' sample_store ?m = (?h, sample_store\<lparr>ms_dirty := False\<rparr>, True)"
    by (simp add: save_to_file_def table_os_def sample_json_def)
  moreover have "os_exists table_os ?h ''/db''" by (simp add: table_os_def mc_put_def)
  ultimately show ?thesis using metadata_survives_restart [OF table_write_law] by blast
qed

theorem block_distribution_agrees_witness:
  "hm_get (get_block_distribution ''f'' sample_store) 0 = Some (get_block_nodes ''f'' 0 sample_store)"
  by (subst block_distribution_agrees [where e = "new_entry 5 ''f'' [] 4 None
      [\<lparr>bl_hash = [], bl_index = 0, bl_nodes = [''a''], bl_last_synced = 5\<rparr>] ''me''"])
     (simp_all add: new_entry_def sample_store_def register_file_def metadata_new_def mark_and_save_def query_def hm_contains_def)

definition one_identity :: identity_json where
  "one_identity = \<lparr>ij_show = (\<lambda>_ _. ''{}''), ij_parse = (\<lambda>_. Some (Some (bytes_str (replicate 32 1)), Some (bytes_str (replicate 32 2))))\<rparr>"

lemma one_identity_law:
  "identity_json_law one_identity (to_hex plain_hex (replicate 32 1)) (hex_encode plain_hex (replicate 32 2))"
  by (simp add: identity_json_law_def one_identity_def to_hex_def plain_hex_def str_bytes_def)

lemma one_identity_saved:
  "save_identity table_os plain_hex one_identity (replicate 32 1) (replicate 32 2) ''/id'' h = (mc_put ''/id'' (str_bytes ''{}'') h, FileWritten)"
  by (simp add: save_identity_def table_os_def one_identity_def)

definition empty_machine :: machine where
  "empty_machine = \<lparr>mc_files = [], mc_dirs = []\<rparr>"

theorem identity_roundtrip_witness:
  "load_identity table_os plain_hex one_identity ''/id'' (mc_put ''/id'' (str_bytes ''{}'') empty_machine)
     = Some (Inr (replicate 32 1, replicate 32 2))"
  using identity_roundtrip [OF table_write_law plain_hex_correct one_identity_law, of "\<lambda>_. replicate 32 1" "replicate 32 2"
      "\<lambda>b. b" "''/id''" empty_machine, OF _ _ _ one_identity_saved]
  by (simp add: generate_identity_def from_public_key_def)

theorem identity_not_checked_witness:
  "\<exists>j. load_identity table_os plain_hex one_identity ''/id'' (mc_put ''/id'' (str_bytes ''{}'') empty_machine) = Some (Inr (j, replicate 32 2))
     \<and> j \<noteq> from_public_key (\<lambda>b. b) (replicate 32 2)"
  using identity_not_checked [OF table_write_law plain_hex_correct one_identity_law, of "\<lambda>b. b" "\<lambda>b. b" "''/id''" empty_machine,
      OF _ _ _ one_identity_saved]
  by (simp add: from_public_key_def)

end
