(* ===== verification/Video.thy ===== *)
theory Video
  imports Prelude
begin

text \<open>
  The crate video (\<^verbatim>\<open>video/src/lib.rs\<close>, \<^verbatim>\<open>capture.rs\<close>, \<^verbatim>\<open>encoder.rs\<close>, \<^verbatim>\<open>linux_capture.rs\<close>): the interface of
  capturing and encoding and its placeholders, of which only the capture for Windows yields frames.
\<close>

record VideoConfig =
  vc_monitor_index :: u32
  vc_width :: u32
  vc_height :: u32
  vc_fps :: u32
  vc_bitrate_kbps :: u32
  vc_codec :: string

record VideoFrame =
  vf_width :: u32
  vf_height :: u32
  vf_data :: bytes
  vf_format :: string
  vf_pts :: u64

record EncodedPacket =
  ep_data :: bytes
  ep_keyframe :: bool
  ep_pts :: u64
  ep_dts :: u64

record DxgiCapture =
  dx_width :: u32
  dx_height :: u32
  dx_frame_count :: u64

definition dxgi_new :: "u32 \<Rightarrow> u32 \<Rightarrow> u32 \<Rightarrow> DxgiCapture" where
  "dxgi_new monitor_index w h = \<lparr>dx_width = w, dx_height = h, dx_frame_count = 0\<rparr>"

text \<open>The size is computed with 32 bits and wraps.\<close>

definition dxgi_capture :: "DxgiCapture \<Rightarrow> VideoFrame option \<times> DxgiCapture" where
  "dxgi_capture c =
     (let size = unat (dx_width c * dx_height c * 4); n = dx_frame_count c + 1
      in (Some \<lparr>vf_width = dx_width c, vf_height = dx_height c, vf_data = replicate size 0, vf_format = ''bgra'',
                vf_pts = n * 1000000 div 60\<rparr>,
          c\<lparr>dx_frame_count := n\<rparr>))"

definition dxgi_dimensions :: "DxgiCapture \<Rightarrow> u32 \<times> u32" where
  "dxgi_dimensions c = (dx_width c, dx_height c)"

definition drm_capture :: "unit \<Rightarrow> VideoFrame option" where
  "drm_capture c = None"

definition drm_dimensions :: "unit \<Rightarrow> u32 \<times> u32" where
  "drm_dimensions c = (0, 0)"

record NvencEncoder =
  nv_config :: VideoConfig
  nv_frame_count :: u64

definition nvenc_new :: "VideoConfig \<Rightarrow> NvencEncoder" where
  "nvenc_new c = \<lparr>nv_config = c, nv_frame_count = 0\<rparr>"

definition nvenc_encode :: "VideoFrame \<Rightarrow> NvencEncoder \<Rightarrow> EncodedPacket option \<times> NvencEncoder" where
  "nvenc_encode f e = (None, e)"

definition nvenc_flush :: "NvencEncoder \<Rightarrow> EncodedPacket list \<times> NvencEncoder" where
  "nvenc_flush e = ([], e)"

record SoftwareEncoder =
  sw_config :: VideoConfig

definition software_new :: "VideoConfig \<Rightarrow> SoftwareEncoder" where
  "software_new c = \<lparr>sw_config = c\<rparr>"

definition software_encode :: "VideoFrame \<Rightarrow> SoftwareEncoder \<Rightarrow> EncodedPacket option \<times> SoftwareEncoder" where
  "software_encode f e = (None, e)"

definition software_flush :: "SoftwareEncoder \<Rightarrow> EncodedPacket list \<times> SoftwareEncoder" where
  "software_flush e = ([], e)"

section \<open>Frames\<close>

fun capture_frames :: "nat \<Rightarrow> DxgiCapture \<Rightarrow> VideoFrame option list" where
  "capture_frames 0 c = []"
| "capture_frames (Suc n) c = (let (f, c') = dxgi_capture c in f # capture_frames n c')"

lemma capture_frames_nth:
  "k < n \<Longrightarrow> capture_frames n c ! k = fst (dxgi_capture (c\<lparr>dx_frame_count := dx_frame_count c + of_nat k\<rparr>))"
proof (induction n arbitrary: c k)
  case (Suc n)
  then show ?case by (cases k) (simp_all add: dxgi_capture_def Let_def add.assoc add.commute)
qed simp

lemma frame_size:
  assumes "unat w * unat h * 4 < 2 ^ 32"
  shows "unat (w * h * 4 :: u32) = unat w * unat h * 4"
proof -
  have e: "(w * h * 4 :: u32) = of_nat (unat w * unat h * 4)" by simp
  show ?thesis unfolding e using assms by (intro unat_of_nat_small) simp
qed

text \<open>
  The frames of a capture whose size fits 32 bits have four bytes a pixel, and the \<open>k\<close>-th is stamped for 60
  frames a second.\<close>

theorem captured_frames:
  assumes "unat w * unat h * 4 < 2 ^ 32" "k < n" "n < 2 ^ 44"
  shows "\<exists>f. capture_frames n (dxgi_new m w h) ! k = Some f \<and> length (vf_data f) = 4 * (unat w * unat h)
     \<and> unat (vf_pts f) = (k + 1) * 1000000 div 60"
proof -
  define c where "c = (dxgi_new m w h)\<lparr>dx_frame_count := of_nat k\<rparr>"
  have e: "(of_nat k + 1 :: u64) * 1000000 = of_nat ((k + 1) * 1000000)" by (simp add: algebra_simps)
  have u: "unat (of_nat ((k + 1) * 1000000) :: u64) = (k + 1) * 1000000"
    using assms(2,3) by (intro unat_of_nat_small) simp
  have p: "unat ((of_nat k + 1 :: u64) * 1000000 div 60) = (k + 1) * 1000000 div 60"
    unfolding e unat_div u by simp
  have "capture_frames n (dxgi_new m w h) ! k = fst (dxgi_capture c)"
    using capture_frames_nth [OF assms(2), of "dxgi_new m w h"] by (simp add: c_def dxgi_new_def)
  moreover have "fst (dxgi_capture c) = Some \<lparr>vf_width = w, vf_height = h, vf_data = replicate (unat (w * h * 4)) 0,
      vf_format = ''bgra'', vf_pts = (of_nat k + 1) * 1000000 div 60\<rparr>"
    by (simp only: dxgi_capture_def c_def dxgi_new_def Let_def fst_conv DxgiCapture.simps)
  ultimately show ?thesis using p frame_size [OF assms(1)] by simp
qed

text \<open>With 32768 by 32768 pixels the size wraps to zero, and the frame has no data.\<close>

theorem large_frame_empty: "map_option vf_data (fst (dxgi_capture (dxgi_new m 32768 32768))) = Some []"
  by (simp add: dxgi_capture_def dxgi_new_def Let_def)

theorem captured_frames_witness:
  "\<exists>f. capture_frames 3 (dxgi_new 0 2 2) ! 2 = Some f \<and> length (vf_data f) = 16 \<and> unat (vf_pts f) = 50000"
  using captured_frames [of 2 2 2 3 0] by simp

end
