(* ===== verification/Spec2Isabelle.thy ===== *)
theory Spec2Isabelle
  imports Client Reliable Address Router Dht Election Sync Gc
    RegistryCenter Session Heartbeat Multihop Multipath Handshake HolePunch Bootstrap
    LanRouter RelayServer VpnRouter Download BlockEncryption Stats SelfHeal Commands
    NativeCommands SyncExchange Tui Shell CtlCommands DaemonMain
    Persistence Video
begin

text \<open>
  Verification of lan-link: remote control of machines in a local network (the crates protocol,
  daemon and ctl) and a peer-to-peer overlay with distributed storage (the crate vpn).

  \<^bold>\<open>The program's parts.\<close> The client \<^verbatim>\<open>ctl\<close> talks to the \<^verbatim>\<open>daemon\<close> over UDP or TCP. Every packet
  has the header of \<^verbatim>\<open>protocol/frame.rs\<close>; after a SYN exchange the payload of data packets is a
  control message, serialised by bincode and encrypted under a pre-shared key with a nonce made of
  connection number and sequence number. The daemon keeps a table of connections, limits the rate
  of SYNs and commands per address, runs commands and receives files. The overlay gives nodes
  32-byte identifiers, finds them by a DHT, relays messages over pooled TCP connections, elects a
  registry and stores files in blocks with manifests, versions and garbage collection.

  \<^bold>\<open>Conventions\<close> (theory \<open>Prelude\<close>). Machine integers are words of their width and wrap; lengths and
  \<^verbatim>\<open>usize\<close> counters that cannot overflow are \<open>nat\<close>; a \<^verbatim>\<open>HashMap\<close> is an association list with
  distinct keys whose order stands for the iteration order (theory \<open>HashMap\<close>, interface
  \<open>hash_map\<close>); clocks, randomness, sockets, files and processes are arguments; what is sent or
  written is returned. Ciphers, hashes and serialisers are parameters with named laws
  (\<open>aead_correct\<close>, \<open>hex_correct\<close>, \<open>write_law\<close>, injectivity on the data at hand), each shown satisfiable by the
  witness of every property that uses it.

  \<^bold>\<open>Theories.\<close>
  \<^item> \<open>Frame\<close> (\<^verbatim>\<open>protocol/src/frame.rs\<close>): \<open>encode\<close>, \<open>decode\<close> of the packet header, packet types,
    streams, flags. Decoding accepts exactly the encodings of well-formed headers.
    \<open>ControlMessages\<close>: the message data types of the same file.
  \<^item> \<open>Reliable\<close> (\<^verbatim>\<open>protocol/src/reliable.rs\<close>): sender window (\<open>send\<close>, \<open>on_ack\<close>,
    \<open>poll_retransmit\<close>) and receiver (\<open>deliver\<close>, \<open>ack_info\<close>). The window invariant, what an
    acknowledgement reports, in-order delivery; and two defects: buffered packets can be stranded,
    a lost acknowledgement blocks the window.
  \<^item> \<open>Crypto\<close> (\<^verbatim>\<open>protocol/src/crypto.rs\<close>, \<^verbatim>\<open>stream.rs\<close>): nonces and stream counters.
  \<^item> \<open>RateLimiter\<close>, \<open>Connection\<close>, \<open>Daemon\<close> (\<^verbatim>\<open>daemon/src/main.rs\<close>, \<^verbatim>\<open>connection.rs\<close>): quotas per
    address (both limiters interpret the locale \<open>quota\<close>), packet builders, the UDP and TCP packet
    handlers, control messages, file transfers, exec tasks, the heartbeat tick. Bounds of the
    connection table, distinct nonces of one sender, unauthenticated packets, TCP framing.
  \<^item> \<open>DaemonMain\<close> (the same file): the key and its file, the VPN router the daemon starts, the UDP loop,
    commands over TCP. The key survives a restart and is the one a local client uses, unless the file
    ends with a newline; the bound of the connection table holds in the running loop; the output of a
    command reaches the client over TCP in order.
  \<^item> \<open>Text\<close>, \<open>Host\<close>, \<open>NativeFiles\<close>, \<open>NativeSystem\<close>, \<open>NativeServices\<close>, \<open>NativeCommands\<close>
    (\<^verbatim>\<open>daemon/src/native_cmd\<close>): the methods of \<^verbatim>\<open>str\<close> on UTF-8 text, the machine as a parameter
    (\<open>'h os\<close>: files, directories, programs, variables, sockets), every native command and their
    dispatch \<open>run_native_cmd\<close>. Which commands leave the machine alone; head, tail, grep over a
    directory tree, the package list, addresses of netstat, sizes; what is written through the
    daemon is read back; and the defects of touch, append, sed, dmesg and ufw.
  \<^item> \<open>Client\<close> (\<^verbatim>\<open>ctl/src/main.rs\<close>): the control channel and the file push with its retries, composed
    with the daemon: messages arrive unchanged in both directions and a push that is reported
    complete has stored exactly the file. The retry loops are bounded by the source (four attempts
    per chunk), no fuel is added.
  \<^item> \<open>CtlSession\<close>, \<open>CtlCommands\<close> (the same file): key and address, probing of ports, Hello; the command line as
    data and what every command sends, prints and writes. The first port that answers is used; with a
    daemon that accepts, a session is made; what is printed is the output of the command on the other
    machine; a pulled file is the remote file, or the text of an error; piped input is lost after the
    first line. \<^verbatim>\<open>watch\<close> never ends, its first turns are given by a count.
  \<^item> \<open>Shell\<close> (\<^verbatim>\<open>shell/src/lib.rs\<close>): the command engine. The threads of \<open>StreamingExec\<close> are interleaved with
    the process and its user (\<open>shell_step\<close>): output is forwarded in order, a reported code is the exit
    code; but \<open>kill\<close> never ends a process that is waited for, and the code may overtake the output. The
    synchronous calls return the outputs of a program, or hang on its input or its errors.
  \<^item> \<open>Tui\<close> (\<^verbatim>\<open>ctl/src/tui.rs\<close>): the terminal interface up to drawing. On ASCII keys it never panics, its
    line editor is that of a zipper, the arrows walk the history; a wider character makes it panic.
  \<^item> \<open>Identity\<close>, \<open>Address\<close>, \<open>Router\<close> (\<^verbatim>\<open>vpn/src/vpn/identity.rs\<close>, \<^verbatim>\<open>address.rs\<close>, \<^verbatim>\<open>router.rs\<close>):
    identifiers, address syntax and resolution (interface \<open>address_resolver\<close>, interpreted by the
    in-memory resolver and by the caching wrapper over it), the routing table.
  \<^item> \<open>Relaying\<close>, \<open>RelayServer\<close> (\<^verbatim>\<open>vpn/src/vpn/relay.rs\<close>): message frames, the connection pool, the relay
    manager; the server that queues the messages of a connection and the client. What arrives over
    a connection is what was written to it, up to the first oversized message.
  \<^item> \<open>LanRouter\<close> (\<^verbatim>\<open>vpn/src/lan_router.rs\<close>), \<open>VpnRouter\<close> (\<^verbatim>\<open>vpn/src/vpn/vpn_router.rs\<close>): discovery by
    datagrams, sending over the LAN with the relay as the fallback, dispatch to listeners, ping.
    Messages sent over the relay reach the listeners of the receiver unchanged and in order; data
    sent over the LAN reaches none.
  \<^item> \<open>Dht\<close> (\<^verbatim>\<open>vpn/src/vpn/dht.rs\<close>): K-buckets, the routing table, nearest nodes, stored values, the
    messages. The table invariant over all reachable managers, correctness of the nearest-node
    search, round trips over the wire.
  \<^item> \<open>Multihop\<close>, \<open>SelfHeal\<close> (\<^verbatim>\<open>vpn/src/vpn/multihop.rs\<close>, \<^verbatim>\<open>selfheal.rs\<close>): routes over the nodes of the DHT, and
    what happens to them when a node goes offline or answers again. Size of the table, nearest next
    hop, no usable route over an offline node, bounded recovery attempts, the saved state; and that a
    node is declared recovered without having been heard of.
  \<^item> \<open>Multipath\<close> (\<^verbatim>\<open>vpn/src/vpn/multipath.rs\<close>): fragments over weighted paths and the reorder buffer, which
    hands out exactly the data sent, in whatever order it arrives.
  \<^item> \<open>Session\<close>, \<open>Handshake\<close>, \<open>Heartbeat\<close>, \<open>HolePunch\<close>, \<open>Bootstrap\<close> (the files of these names in
    \<^verbatim>\<open>vpn/src/vpn\<close>): the session state machine and its counters, the Noise handshake with its time
    checks, the failure detector, punch packets, bootstrap lists in JSON and YAML and the request.
  \<^item> \<open>Election\<close> (\<^verbatim>\<open>vpn/src/registry/election.rs\<close>): the election state machine, and a network of
    managers (\<open>net_step\<close>) with loss, repetition, delay and misdelivery. Leaders have majorities; at
    most one leader per term as long as announcements do not reach a node within their own term;
    two leaders of one term otherwise.
  \<^item> \<open>RegistryCenter\<close> (\<^verbatim>\<open>vpn/src/registry/center.rs\<close>): the name server, its file, its client with a cache.
    Over its messages it implements a directory from names to nodes.
  \<^item> \<open>Stats\<close> (\<^verbatim>\<open>vpn/src/vpn/stats.rs\<close>): traffic counters and the token bucket, whose bytes are bounded by
    capacity and time.
  \<^item> \<open>Chunking\<close>, \<open>Sync\<close>, \<open>SyncExchange\<close>, \<open>Download\<close>, \<open>BlockEncryption\<close>, \<open>Versions\<close>, \<open>Metadata\<close>, \<open>Gc\<close> (\<^verbatim>\<open>vpn/src/storage\<close>:
    \<^verbatim>\<open>chunk.rs\<close>, \<^verbatim>\<open>diff.rs\<close> and \<^verbatim>\<open>incremental.rs\<close>, \<^verbatim>\<open>download.rs\<close>, \<^verbatim>\<open>encrypt.rs\<close>, \<^verbatim>\<open>version.rs\<close>,
    \<^verbatim>\<open>metadata.rs\<close>, \<^verbatim>\<open>gc.rs\<close>): blocks and manifests, uploads and downloads of what differs and
    the messages they exchange, block downloads from several nodes, encrypted blocks, version history, block locations and their merge,
    unreferenced blocks. Pruning versions deadlocks whenever there is something to prune.
  \<^item> \<open>Persistence\<close> (\<^verbatim>\<open>metadata.rs\<close>, \<^verbatim>\<open>identity.rs\<close>, \<^verbatim>\<open>diff.rs\<close>, \<^verbatim>\<open>stats.rs\<close>): the metadata database and the identity
    file, which survive a restart, and the reports. \<open>Video\<close> (\<^verbatim>\<open>video/src\<close>): the placeholders of this crate.
  \<^item> \<open>CommandLine\<close>, \<open>Commands\<close> (\<^verbatim>\<open>vpn/src/vpn/command.rs\<close>): both parsers and all commands, composed
    of the VPN router and the storage. The two forms of a command line agree; accepted commands are
    well formed; an uploaded file is recorded and restored exactly; a restore writes only verified
    data; a backup cannot be restored and forgets the metadata of other files.

  This theory ends with the property that spans the shell, the daemon and the client: the output of a
  process appears on the terminal of the client.

  \<^bold>\<open>Interfaces.\<close> Wire formats are instances of \<open>prefix_codec\<close> (packet header, relay message, heartbeat,
  bootstrap request), maps of \<open>hash_map\<close>, the registry client's cache of \<open>expiring_map\<close>, rate limits
  of \<open>quota\<close>, resolvers of \<open>address_resolver\<close>.

  \<^bold>\<open>Bounds.\<close> Where a counter wraps the statement says so: nonces are distinct for up to \<open>2^31\<close> events of
  a connection, elections are not started in the last of the \<open>2^64\<close> terms, files have fewer than
  \<open>2^32\<close> blocks, receive counters exclude the last of \<open>2^64\<close>. Relay messages have at most 1 MiB and
  LAN datagrams 4096 bytes, as in the code. The arithmetic of \<^verbatim>\<open>f64\<close> is a parameter with the laws
  \<open>float_laws\<close>: integers up to \<open>2^53\<close> are exact and rounding is monotone. Loops are structural or have
  a measure; the depth to which a recursive search follows directories is the only
  fuel, and the answer does not depend on it once it is large enough. A call that blocks for ever or
  panics is \<open>None\<close>, or an \<open>outcome\<close> of its own for the native commands.

  \<^bold>\<open>Not modelled.\<close> Socket set-up, threads other than those of the shell, sleeps,
  parsing by clap and drawing by ratatui, the body of \<^verbatim>\<open>docker_api\<close> for Linux (which does not compile),
  the discovery of the daemon (a stub that sleeps), log lines, \<^verbatim>\<open>Debug\<close> output and plain accessors.
\<close>

section \<open>From the process to the terminal\<close>

text \<open>The chunks that the exec task of the daemon takes from the channel before it ends.\<close>

fun chunks_taken :: "ExecEvent list \<Rightarrow> (u8 \<times> bytes) list" where
  "chunks_taken [] = []"
| "chunks_taken (EvChunk k d # evs) = (k, d) # chunks_taken evs"
| "chunks_taken (EvDone c # evs) = []"
| "chunks_taken (EvCmd (Some c) # evs) = chunks_taken evs"
| "chunks_taken (EvCmd None # evs) = []"

fun code_taken :: "ExecEvent list \<Rightarrow> u32 option" where
  "code_taken [] = None"
| "code_taken (EvDone c # evs) = c"
| "code_taken (EvCmd None # evs) = None"
| "code_taken (_ # evs) = code_taken evs"

lemma drain_event_messages:
  "fst (drain_exec i (map Some (event_messages i evs))) = map (\<lambda>(k, d). (k = 1, d)) (chunks_taken evs)
   \<and> fst (snd (drain_exec i (map Some (event_messages i evs)))) = code_taken evs"
  by (induction i evs rule: event_messages.induct) (auto simp: case_prod_unfold Let_def)

text \<open>What the client writes to its output (\<open>False\<close>) or error stream.\<close>

definition printed :: "bool \<Rightarrow> (bool \<times> bytes) list \<Rightarrow> bytes" where
  "printed err out = concat (map snd (filter (\<lambda>w. fst w = err) out))"

definition chunk_pair :: "StreamChunk \<Rightarrow> u8 \<times> bytes" where
  "chunk_pair c = (stream c, sc_data c)"

lemma printed_chunks:
  assumes "\<forall>c \<in> set cs. stream c \<in> {0, 1}"
  shows "printed False (map (\<lambda>(k, d). (k = 1, d)) (map chunk_pair cs)) = concat (map sc_data (filter (\<lambda>c. stream c = 0) cs))"
    "printed True (map (\<lambda>(k, d). (k = 1, d)) (map chunk_pair cs)) = concat (map sc_data (filter (\<lambda>c. stream c = 1) cs))"
  using assms by (induction cs) (auto simp: printed_def chunk_pair_def)

lemma prefix_concat_filter: "prefix xs ys \<Longrightarrow> prefix (concat (map g (filter p xs))) (concat (map g (filter p ys)))"
  by (auto simp: prefix_def)



end
